(* ===== verification/Prelude.thy ===== *)
theory Prelude
  imports Complex_Main "HOL-Library.AList"
begin

text \<open>
  Shared vocabulary of the development.

  \<^item> Numbers: Python's unbounded \<^verbatim>\<open>int\<close> is \<open>int\<close>; a Python \<^verbatim>\<open>float\<close> that holds a finite
    quantity (dollars, seconds, a ratio) is an exact rational (\<open>rat\<close>), so rounding of
    floating-point arithmetic is not modelled.  \<open>trunc\<close> is Python's \<^verbatim>\<open>int(x)\<close>.
  \<^item> Strings: \<open>string\<close> is a list of code points below 256; \<open>lower\<close>, \<open>strip\<close> and
    \<open>contains\<close> are Python's \<^verbatim>\<open>str.lower\<close>, \<^verbatim>\<open>str.strip\<close> and \<^verbatim>\<open>in\<close> on those code points.
  \<^item> Dictionaries: a Python \<^verbatim>\<open>dict\<close> is an association list in insertion order; \<open>AList.update\<close>
    replaces in place or appends, \<open>AList.delete\<close> removes, \<open>map_of\<close> looks up, which is the
    order and lookup behaviour of Python 3.7 and later.
  \<^item> Errors: a function that may raise returns \<open>py_error + 'a\<close>; \<open>ebind\<close> sequences such calls.
  \<^item> Time and randomness are arguments (\<open>now\<close>, a fresh token), never hidden state.
  \<^item> Interfaces several components share are stated here as locales: a time window over a
    deque, a bounded log, and a counter that admits work under a cap.
\<close>

named_theorems py_simps \<open>evaluation rules for the Python helper functions\<close>
named_theorems guard_defs \<open>definitions of the guard predicates and invariants\<close>

type_synonym secs = rat
type_synonym money = rat
type_synonym ('k, 'v) dict = "('k \<times> 'v) list"

section \<open>Errors as values\<close>

datatype py_error =
    ValueError string
  | ReservationUnavailable string
  | LockConflictError string
  | LockExpiredError string
  | KeyError string
  | IntegrityError string
  | AttributeError string
  | StopIteration
  | TypeError string
  | FileNotFoundError string

definition ebind :: "'e + 'a \<Rightarrow> ('a \<Rightarrow> 'e + 'b) \<Rightarrow> 'e + 'b" where
  "ebind m f = (case m of Inl e \<Rightarrow> Inl e | Inr x \<Rightarrow> f x)"

definition raise_if :: "bool \<Rightarrow> 'e \<Rightarrow> 'e + unit" where
  "raise_if b e = (if b then Inl e else Inr ())"

lemma ebind_simps [simp]:
  "ebind (Inl e) f = Inl e"
  "ebind (Inr x) f = f x"
  by (simp_all add: ebind_def)

lemma ebind_eq_Inr: "ebind m f = Inr y \<longleftrightarrow> (\<exists>x. m = Inr x \<and> f x = Inr y)"
  by (cases m) auto

lemma ebind_eq_Inl: "ebind m f = Inl e \<longleftrightarrow> m = Inl e \<or> (\<exists>x. m = Inr x \<and> f x = Inl e)"
  by (cases m) auto

lemma ebind_assoc: "ebind (ebind m f) g = ebind m (\<lambda>x. ebind (f x) g)"
  by (cases m) auto

lemma raise_if_simps [simp]:
  "raise_if b e = Inr u \<longleftrightarrow> \<not> b"
  "raise_if b e = Inl e' \<longleftrightarrow> b \<and> e' = e"
  "raise_if False e = Inr ()"
  "raise_if True e = Inl e"
  by (auto simp: raise_if_def)

lemma ebind_raise_if [simp]:
  "\<not> b \<Longrightarrow> ebind (raise_if b e) f = f ()"
  "b \<Longrightarrow> ebind (raise_if b e) f = Inl e"
  by (simp_all add: raise_if_def)

lemmas result_simps = ebind_eq_Inr ebind_eq_Inl raise_if_simps

section \<open>Numbers\<close>

definition trunc :: "rat \<Rightarrow> int" where
  "trunc x = (if 0 \<le> x then \<lfloor>x\<rfloor> else \<lceil>x\<rceil>)"

lemma trunc_of_int [simp]: "trunc (of_int n) = n"
  by (simp add: trunc_def)

lemma trunc_numeral [simp]:
  "trunc (numeral k) = numeral k" "trunc (- numeral k) = - numeral k"
  "trunc 0 = 0" "trunc 1 = 1"
  by (simp_all add: trunc_def)

lemma trunc_nonneg: "0 \<le> x \<Longrightarrow> 0 \<le> trunc x"
  by (simp add: trunc_def)

lemma trunc_le: "0 \<le> x \<Longrightarrow> of_int (trunc x) \<le> x"
  by (simp add: trunc_def)

lemma trunc_le_iff: "0 \<le> x \<Longrightarrow> n \<le> trunc x \<longleftrightarrow> of_int n \<le> x"
  by (simp add: trunc_def le_floor_iff)

lemma trunc_mono: "0 \<le> x \<Longrightarrow> x \<le> y \<Longrightarrow> trunc x \<le> trunc y"
  by (simp add: trunc_def floor_mono)

text \<open>Python's \<^verbatim>\<open>round(x, d)\<close>: nearest, ties to even, at \<open>d\<close> decimal digits.\<close>

definition round_even :: "rat \<Rightarrow> int" where
  "round_even y =
     (let f = \<lfloor>y\<rfloor>; r = y - of_int f in
      if r < 1 / 2 then f else if 1 / 2 < r then f + 1 else if even f then f else f + 1)"

definition py_round :: "nat \<Rightarrow> rat \<Rightarrow> rat" where
  "py_round d x = of_int (round_even (x * 10 ^ d)) / 10 ^ d"

section \<open>Strings\<close>

definition code :: "char \<Rightarrow> nat" where
  "code c = of_char c"

definition lower_char :: "char \<Rightarrow> char" where
  "lower_char c =
     (let n = code c in
      if (65 \<le> n \<and> n \<le> 90) \<or> (192 \<le> n \<and> n \<le> 222 \<and> n \<noteq> 215) then char_of (n + 32) else c)"

definition lower :: "string \<Rightarrow> string" where
  "lower s = map lower_char s"

text \<open>\<^verbatim>\<open>str.encode()\<close>: UTF-8 of code points below 256, as a list of bytes.\<close>

definition utf8 :: "string \<Rightarrow> string" where
  "utf8 s = concat (map (\<lambda>c. let n = code c in
     if n < 128 then [c] else [char_of (192 + n div 64), char_of (128 + n mod 64)]) s)"

text \<open>SQLite's \<^verbatim>\<open>lower()\<close> folds ASCII letters only.\<close>

definition sql_lower :: "string \<Rightarrow> string" where
  "sql_lower s = map (\<lambda>c. if 65 \<le> code c \<and> code c \<le> 90 then char_of (code c + 32) else c) s"

definition is_space :: "char \<Rightarrow> bool" where
  "is_space c =
     (let n = code c in
      (9 \<le> n \<and> n \<le> 13) \<or> (28 \<le> n \<and> n \<le> 32) \<or> n = 133 \<or> n = 160)"

definition lstrip :: "string \<Rightarrow> string" where
  "lstrip s = dropWhile is_space s"

definition strip :: "string \<Rightarrow> string" where
  "strip s = rev (dropWhile is_space (rev (dropWhile is_space s)))"

definition startswith :: "string \<Rightarrow> string \<Rightarrow> bool" where
  "startswith s p = (take (length p) s = p)"

fun contains :: "string \<Rightarrow> string \<Rightarrow> bool" where
  "contains p [] = (p = [])"
| "contains p (c # s) = (startswith (c # s) p \<or> contains p s)"

text \<open>Bytewise comparison, the \<^verbatim>\<open>BINARY\<close> collation SQLite uses for \<^verbatim>\<open>TEXT\<close>.\<close>

fun str_le :: "string \<Rightarrow> string \<Rightarrow> bool" where
  "str_le [] t = True"
| "str_le (a # s) [] = False"
| "str_le (a # s) (b # t) = (code a < code b \<or> (code a = code b \<and> str_le s t))"

lemma code_inj [simp]: "code a = code b \<longleftrightarrow> a = b"
  by (simp add: code_def)

lemma code_less_256: "code c < 256"
  by (simp add: code_def)

lemma code_char_of: "n < 256 \<Longrightarrow> code (char_of n) = n"
  by (simp add: code_def)

lemma lower_char_idem [simp]: "lower_char (lower_char c) = lower_char c"
  by (auto simp: lower_char_def Let_def code_char_of)

lemma lower_idem [simp]: "lower (lower s) = lower s"
  by (simp add: lower_def)

lemma lower_Nil [simp]: "lower [] = []" "lower s = [] \<longleftrightarrow> s = []"
  by (simp_all add: lower_def)

lemma length_lower [simp]: "length (lower s) = length s"
  by (simp add: lower_def)

lemma strip_Nil [simp]: "strip [] = []"
  by (simp add: strip_def)

lemma startswith_iff: "startswith s p \<longleftrightarrow> (\<exists>t. s = p @ t)"
proof
  assume "startswith s p"
  then have "s = p @ drop (length p) s"
    by (metis append_take_drop_id startswith_def)
  then show "\<exists>t. s = p @ t" ..
qed (auto simp: startswith_def)

lemma contains_iff: "contains p s \<longleftrightarrow> (\<exists>u v. s = u @ p @ v)"
proof (induction s)
  case Nil
  then show ?case by auto
next
  case (Cons c s)
  show ?case
  proof
    assume "contains p (c # s)"
    then consider "startswith (c # s) p" | "contains p s" by auto
    then show "\<exists>u v. c # s = u @ p @ v"
    proof cases
      case 1
      then obtain t where "c # s = [] @ p @ t" by (auto simp: startswith_iff)
      then show ?thesis by blast
    next
      case 2
      then obtain u v where "c # s = (c # u) @ p @ v" using Cons.IH by auto
      then show ?thesis by blast
    qed
  next
    assume "\<exists>u v. c # s = u @ p @ v"
    then obtain u v where eq: "c # s = u @ p @ v" by blast
    show "contains p (c # s)"
    proof (cases u)
      case Nil
      with eq have "startswith (c # s) p" by (simp add: startswith_iff)
      then show ?thesis by simp
    next
      case (Cons d u')
      with eq have "s = u' @ p @ v" by simp
      with Cons.IH show ?thesis by auto
    qed
  qed
qed

lemma str_le_refl [simp]: "str_le s s"
  by (induction s) auto

lemma str_le_trans: "str_le s t \<Longrightarrow> str_le t u \<Longrightarrow> str_le s u"
proof (induction s t arbitrary: u rule: str_le.induct)
  case (3 a s b t)
  then show ?case by (cases u) auto
qed (auto elim: str_le.elims)

lemma str_le_total: "str_le s t \<or> str_le t s"
  by (induction s t rule: str_le.induct) auto

text \<open>Python's \<^verbatim>\<open>str(n)\<close> on integers.\<close>

fun show_nat :: "nat \<Rightarrow> string" where
  "show_nat n = (if n < 10 then [char_of (48 + n)]
                 else show_nat (n div 10) @ [char_of (48 + n mod 10)])"

declare show_nat.simps [simp del]

definition show_int :: "int \<Rightarrow> string" where
  "show_int n = (if n < 0 then ''-'' @ show_nat (nat (- n)) else show_nat (nat n))"

text \<open>
  Python's \<^verbatim>\<open>int(s)\<close> on a string: surrounding white space, an optional sign, decimal digits with
  single underscores between them; anything else raises \<^verbatim>\<open>ValueError\<close> (here \<open>None\<close>).
\<close>

definition is_digit :: "char \<Rightarrow> bool" where
  "is_digit c = (48 \<le> code c \<and> code c \<le> 57)"

fun digits_value :: "nat \<Rightarrow> string \<Rightarrow> nat option" where
  "digits_value acc [] = Some acc"
| "digits_value acc (c # cs) =
     (if is_digit c then digits_value (10 * acc + (code c - 48)) cs
      else if c = CHR ''_'' then
        (case cs of [] \<Rightarrow> None
         | d # ds \<Rightarrow> if is_digit d then digits_value (10 * acc + (code d - 48)) ds else None)
      else None)"

definition nat_literal :: "string \<Rightarrow> nat option" where
  "nat_literal s = (case s of [] \<Rightarrow> None | c # cs \<Rightarrow> if is_digit c then digits_value 0 s else None)"

definition py_int :: "string \<Rightarrow> int option" where
  "py_int s =
     (case strip s of
        [] \<Rightarrow> None
      | c # cs \<Rightarrow>
          if c = CHR ''-'' then map_option (\<lambda>n. - int n) (nat_literal cs)
          else if c = CHR ''+'' then map_option int (nat_literal cs)
          else map_option int (nat_literal (c # cs)))"

text \<open>A string inside \<^verbatim>\<open>json.dumps\<close> output (ASCII only, other characters escaped).\<close>

definition hex_digit :: "nat \<Rightarrow> char" where
  "hex_digit n = (if n < 10 then char_of (48 + n) else char_of (87 + n))"

definition json_char :: "char \<Rightarrow> string" where
  "json_char c =
     (let n = code c in
      if n = 34 then [CHR 0x5C, CHR 0x22]
      else if n = 92 then [CHR 0x5C, CHR 0x5C]
      else if n = 10 then [CHR 0x5C, CHR ''n'']
      else if n = 13 then [CHR 0x5C, CHR ''r'']
      else if n = 9 then [CHR 0x5C, CHR ''t'']
      else if n = 12 then [CHR 0x5C, CHR ''f'']
      else if n = 8 then [CHR 0x5C, CHR ''b'']
      else if n < 32 \<or> 127 < n then CHR 0x5C # ''u00'' @ [hex_digit (n div 16), hex_digit (n mod 16)]
      else [c])"

definition json_string :: "string \<Rightarrow> string" where
  "json_string s = CHR 0x22 # concat (map json_char s) @ [CHR 0x22]"

lemma json_char_ascii: "\<forall>d \<in> set (json_char c). 32 \<le> code d \<and> code d < 128"
proof -
  have hex: "32 \<le> code (hex_digit k) \<and> code (hex_digit k) < 128" if "k < 16" for k
    using that by (simp add: hex_digit_def code_char_of)
  have "code c div 16 < 16" "code c mod 16 < 16"
    using code_less_256[of c] by auto
  with hex show ?thesis
    by (auto simp: json_char_def Let_def code_def)
qed

lemma json_string_ascii: "\<forall>d \<in> set (json_string s). 32 \<le> code d \<and> code d < 128"
  using json_char_ascii by (fastforce simp: json_string_def code_def)

section \<open>Dictionaries\<close>

abbreviation keys :: "('k, 'v) dict \<Rightarrow> 'k list" where
  "keys d \<equiv> map fst d"

abbreviation wf_dict :: "('k, 'v) dict \<Rightarrow> bool" where
  "wf_dict d \<equiv> distinct (keys d)"

lemma wf_dict_update [simp]: "wf_dict d \<Longrightarrow> wf_dict (AList.update k v d)"
  by (rule distinct_update)

lemma wf_dict_delete [simp]: "wf_dict d \<Longrightarrow> wf_dict (AList.delete k d)"
  by (simp add: AList.delete_eq distinct_map_filter)

lemma map_of_update_eq [simp]:
  "map_of (AList.update k v d) k' = (if k' = k then Some v else map_of d k')"
  by (simp add: update_conv')

lemma map_of_delete_eq [simp]:
  "map_of (AList.delete k d) k' = (if k' = k then None else map_of d k')"
  by (simp add: delete_conv')

lemma set_keys_delete: "set (keys (AList.delete k d)) = set (keys d) - {k}"
  by (induction d) (auto simp: AList.delete_eq)

lemma update_new: "map_of d k = None \<Longrightarrow> AList.update k v d = d @ [(k, v)]"
  by (induction d) (auto split: if_splits)

lemma delete_absent: "map_of d k = None \<Longrightarrow> AList.delete k d = d"
  by (induction d) (auto simp: AList.delete_eq split: if_splits)

lemma delete_update_new:
  "map_of d k = None \<Longrightarrow> AList.delete k (AList.update k v d) = d"
  using delete_absent[of d k] by (simp add: update_new AList.delete_eq)

section \<open>Sums over tables\<close>

text \<open>
  \<^verbatim>\<open>COALESCE(SUM(e), 0)\<close> over the rows that satisfy a \<^verbatim>\<open>WHERE\<close> clause, and the running
  totals the in-memory tables keep: both are the sum of a column over the filtered rows.
\<close>

definition sum_where :: "('r \<Rightarrow> bool) \<Rightarrow> ('r \<Rightarrow> 'a::comm_monoid_add) \<Rightarrow> 'r list \<Rightarrow> 'a" where
  "sum_where P f rs = sum_list (map f (filter P rs))"

lemma sum_where_simps [simp]:
  "sum_where P f [] = 0"
  "sum_where P f (r # rs) = (if P r then f r + sum_where P f rs else sum_where P f rs)"
  "sum_where P f (rs @ qs) = sum_where P f rs + sum_where P f qs"
  by (simp_all add: sum_where_def)

lemma sum_where_filter:
  "(\<And>r. r \<in> set rs \<Longrightarrow> P r \<Longrightarrow> Q r) \<Longrightarrow> sum_where P f (filter Q rs) = sum_where P f rs"
  by (induction rs) auto

lemma sum_where_cong:
  "(\<And>r. r \<in> set rs \<Longrightarrow> P r = Q r) \<Longrightarrow> (\<And>r. r \<in> set rs \<Longrightarrow> f r = g r)
   \<Longrightarrow> sum_where P f rs = sum_where Q g rs"
  by (induction rs) auto

lemma sum_where_nonneg:
  fixes f :: "'r \<Rightarrow> 'a::linordered_idom"
  assumes "\<And>r. r \<in> set rs \<Longrightarrow> P r \<Longrightarrow> 0 \<le> f r"
  shows "0 \<le> sum_where P f rs"
  using assms by (induction rs) (auto intro: add_nonneg_nonneg)

lemma sum_where_mono_pred:
  fixes f :: "'r \<Rightarrow> 'a::linordered_idom"
  assumes "\<And>r. r \<in> set rs \<Longrightarrow> P r \<Longrightarrow> Q r"
    and "\<And>r. r \<in> set rs \<Longrightarrow> Q r \<Longrightarrow> 0 \<le> f r"
  shows "sum_where P f rs \<le> sum_where Q f rs"
  using assms
proof (induction rs)
  case (Cons r rs)
  have IH: "sum_where P f rs \<le> sum_where Q f rs"
    using Cons.prems by (intro Cons.IH) auto
  show ?case
    using IH Cons.prems[of r] by (auto intro: add_increasing)
qed simp

section \<open>SQL updates\<close>

text \<open>\<^verbatim>\<open>UPDATE ... WHERE\<close> on a table in row-id order, with the number of rows it changed.\<close>

definition update_where :: "('r \<Rightarrow> bool) \<Rightarrow> ('r \<Rightarrow> 'r) \<Rightarrow> 'r list \<Rightarrow> nat \<times> 'r list" where
  "update_where P f rows = (length (filter P rows), map (\<lambda>r. if P r then f r else r) rows)"

lemma update_where_none: "(\<And>r. r \<in> set rows \<Longrightarrow> \<not> P r) \<Longrightarrow> update_where P f rows = (0, rows)"
  by (induction rows) (auto simp: update_where_def)

lemma length_filter_key:
  assumes "distinct (map key rows)" "\<And>r. r \<in> set rows \<Longrightarrow> P r \<Longrightarrow> key r = k"
  shows "length (filter P rows) = (if \<exists>r \<in> set rows. P r then 1 else 0)"
  using assms
proof (induction rows)
  case (Cons r rows)
  show ?case
  proof (cases "P r")
    case True
    then have "key r = k" using Cons.prems(2)[of r] by simp
    then have "\<forall>q \<in> set rows. \<not> P q"
      using Cons.prems by (metis distinct.simps(2) image_eqI list.set_intros(2) list.simps(9) set_map)
    then have "filter P rows = []" by (simp add: filter_empty_conv)
    with True show ?thesis by simp
  next
    case False
    with Cons show ?thesis by auto
  qed
qed simp

section \<open>Interface: a transition that happens once\<close>

text \<open>
  Held requests, late replies and reservations are each used up by exactly one of any number
  of competing callers.  \<open>avail\<close> says the use is still possible; the Boolean result of a step
  says that this step won it.
\<close>

fun wins :: "('e \<Rightarrow> 's \<Rightarrow> bool \<times> 's) \<Rightarrow> 'e list \<Rightarrow> 's \<Rightarrow> nat" where
  "wins act [] s = 0"
| "wins act (e # es) s = (case act e s of (w, s') \<Rightarrow> (if w then 1 else 0) + wins act es s')"

lemma wins_append:
  "wins act (es @ fs) s = wins act es s + wins act fs (fold (\<lambda>e s. snd (act e s)) es s)"
  by (induction es arbitrary: s) (auto split: prod.splits)

locale one_shot =
  fixes act :: "'e \<Rightarrow> 's \<Rightarrow> bool \<times> 's"
    and avail :: "'s \<Rightarrow> bool"
    and ok :: "'s \<Rightarrow> bool"
  assumes win_uses: "ok s \<Longrightarrow> act e s = (True, s') \<Longrightarrow> avail s \<and> \<not> avail s'"
    and never_back: "ok s \<Longrightarrow> \<not> avail s \<Longrightarrow> act e s = (w, s') \<Longrightarrow> \<not> avail s'"
    and ok_act: "ok s \<Longrightarrow> act e s = (w, s') \<Longrightarrow> ok s'"
begin

lemma no_wins_when_used: "ok s \<Longrightarrow> \<not> avail s \<Longrightarrow> wins act es s = 0"
proof (induction es arbitrary: s)
  case (Cons e es)
  obtain w s' where step: "act e s = (w, s')" by fastforce
  then have "\<not> w" using win_uses[OF Cons.prems(1), of e s'] Cons.prems(2) by (cases w) auto
  with Cons.IH[OF ok_act never_back] Cons.prems step show ?case by simp
qed simp

lemma used_run: "ok s \<Longrightarrow> \<not> avail s \<Longrightarrow> \<not> avail (fold (\<lambda>e s. snd (act e s)) es s)"
proof (induction es arbitrary: s)
  case (Cons e es)
  obtain w s' where step: "act e s = (w, s')" by fastforce
  with Cons.IH[OF ok_act never_back] Cons.prems show ?case by simp
qed simp

lemma won_run: "ok s \<Longrightarrow> 0 < wins act es s \<Longrightarrow> avail s \<and> \<not> avail (fold (\<lambda>e s. snd (act e s)) es s)"
proof (induction es arbitrary: s)
  case (Cons e es)
  obtain w s' where step: "act e s = (w, s')" by fastforce
  have ok': "ok s'" by (rule ok_act[OF Cons.prems(1) step])
  have av: "avail s"
    using no_wins_when_used[OF Cons.prems(1), of "e # es"] Cons.prems(2) by (metis less_numeral_extra(3))
  show ?case
  proof (cases w)
    case True
    with win_uses[OF Cons.prems(1), of e s'] step used_run[OF ok'] show ?thesis by simp
  next
    case False
    with Cons.IH[OF ok'] Cons.prems(2) step av show ?thesis by simp
  qed
qed simp

lemma wins_at_most_once: "ok s \<Longrightarrow> wins act es s \<le> 1"
proof (induction es arbitrary: s)
  case (Cons e es)
  obtain w s' where step: "act e s = (w, s')" by fastforce
  have ok': "ok s'" by (rule ok_act[OF Cons.prems step])
  show ?case
  proof (cases w)
    case True
    with win_uses[OF Cons.prems, of e s'] step have "\<not> avail s'" by simp
    then show ?thesis using step True no_wins_when_used[OF ok'] by simp
  next
    case False
    then show ?thesis using step Cons.IH[OF ok'] by simp
  qed
qed simp

end

section \<open>Interface: a sliding time window over a deque\<close>

text \<open>
  Both circuit breakers keep a deque of event times and drop entries older than a cutoff
  from its left end.  On a deque that was filled by a clock that never goes back this is
  the same as keeping exactly the entries inside the window.
\<close>

definition popleft_older :: "secs \<Rightarrow> secs list \<Rightarrow> secs list" where
  "popleft_older cutoff ts = dropWhile (\<lambda>t. t < cutoff) ts"

lemma popleft_older_filter:
  "sorted ts \<Longrightarrow> popleft_older cutoff ts = filter (\<lambda>t. cutoff \<le> t) ts"
proof (induction ts)
  case (Cons t ts)
  show ?case
  proof (cases "t < cutoff")
    case True
    with Cons show ?thesis by (simp add: popleft_older_def)
  next
    case False
    with Cons.prems have "\<forall>x \<in> set ts. cutoff \<le> x" by auto
    with False show ?thesis by (simp add: popleft_older_def)
  qed
qed (simp add: popleft_older_def)

lemma sorted_popleft_older [simp]: "sorted ts \<Longrightarrow> sorted (popleft_older cutoff ts)"
  by (simp add: popleft_older_filter sorted_wrt_filter)

lemma set_popleft_older: "set (popleft_older cutoff ts) \<subseteq> set ts"
  by (auto simp: popleft_older_def dest: set_dropWhileD)

lemma sorted_snoc: "sorted ts \<Longrightarrow> \<forall>t \<in> set ts. t \<le> (now::secs) \<Longrightarrow> sorted (ts @ [now])"
  by (simp add: sorted_append)

locale window_deque =
  fixes times :: "'s \<Rightarrow> secs list"
    and push :: "secs \<Rightarrow> 's \<Rightarrow> 's"
    and width :: "'s \<Rightarrow> secs"
  assumes push_times: "times (push now s) = popleft_older (now - width s) (times s @ [now])"
    and push_width: "width (push now s) = width s"
begin

definition clocked :: "secs \<Rightarrow> 's \<Rightarrow> bool" where
  "clocked now s = (sorted (times s) \<and> (\<forall>t \<in> set (times s). t \<le> now))"

lemma clocked_push: "clocked t s \<Longrightarrow> t \<le> now \<Longrightarrow> clocked now (push now s)"
proof -
  assume c: "clocked t s" and le: "t \<le> now"
  then have srt: "sorted (times s @ [now])"
    by (auto simp: clocked_def sorted_append)
  have "\<forall>x \<in> set (times s @ [now]). x \<le> now"
    using c le by (auto simp: clocked_def)
  then show ?thesis
    using srt set_popleft_older[of "now - width s" "times s @ [now]"]
    by (auto simp: clocked_def push_times)
qed

text \<open>The number kept is the number of events inside the window that ends now.\<close>

lemma push_window:
  assumes "clocked t s" "t \<le> now" "0 \<le> width s"
  shows "times (push now s) = filter (\<lambda>x. now - width s \<le> x) (times s) @ [now]"
proof -
  have "sorted (times s @ [now])"
    using assms by (auto simp: clocked_def sorted_append)
  then show ?thesis
    using assms(3) by (simp add: push_times popleft_older_filter)
qed

end

section \<open>Interface: a bounded log\<close>

text \<open>\<^verbatim>\<open>collections.deque(maxlen=n)\<close>: appending to a full deque drops its oldest entry.\<close>

definition deque_append :: "nat \<Rightarrow> 'a \<Rightarrow> 'a list \<Rightarrow> 'a list" where
  "deque_append n x xs = (let ys = xs @ [x] in drop (length ys - n) ys)"

lemma length_deque_append: "length xs \<le> n \<Longrightarrow> length (deque_append n x xs) \<le> n"
  by (simp add: deque_append_def Let_def)

lemma deque_append_last: "0 < n \<Longrightarrow> last (deque_append n x xs) = x \<and> deque_append n x xs \<noteq> []"
  by (cases "length xs < n") (auto simp: deque_append_def Let_def not_less Suc_diff_le)

lemma drop_append_excess:
  "drop (length (drop (length xs - n) xs @ ys) - n) (drop (length xs - n) xs @ ys)
   = drop (length (xs @ ys) - n) (xs @ ys)"
proof (cases "n \<le> length xs")
  case True
  then have "length (drop (length xs - n) xs) = n" by simp
  with True show ?thesis by (simp add: add.commute)
qed simp

locale bounded_log =
  fixes entries :: "'s \<Rightarrow> 'e list"
    and record_entry :: "'e \<Rightarrow> 's \<Rightarrow> 's"
    and capacity :: nat
  assumes record_entries: "entries (record_entry e s) = deque_append capacity e (entries s)"
    and capacity_pos: "0 < capacity"
begin

lemma bounded_run:
  "length (entries s) \<le> capacity \<Longrightarrow> length (entries (fold record_entry es s)) \<le> capacity"
  by (induction es arbitrary: s) (auto simp: record_entries length_deque_append)

lemma newest_last: "last (entries (record_entry e s)) = e"
  by (simp add: record_entries deque_append_last[OF capacity_pos])

lemma entries_run:
  "length (entries s) \<le> capacity \<Longrightarrow>
   entries (fold record_entry es s) =
     (let ys = entries s @ es in drop (length ys - capacity) ys)"
proof (induction es arbitrary: s)
  case Nil
  then show ?case by simp
next
  case (Cons e es)
  have len: "length (entries (record_entry e s)) \<le> capacity"
    using Cons.prems by (simp add: record_entries length_deque_append)
  show ?case
    using Cons.prems drop_append_excess[of "entries s @ [e]" capacity es]
    by (simp add: Cons.IH[OF len] record_entries deque_append_def Let_def)
qed

end

section \<open>Interface: a registry of independent entries\<close>

text \<open>
  Several modules keep a dictionary of per-provider state machines, create an entry with the
  module's defaults on first use, and forward every call to one entry.  \<open>entry\<close> is the lookup
  with creation, \<open>with_entry\<close> the call.  Such a registry is as good as one machine per key: a
  run of calls leaves each machine where its own calls alone would have left it.
\<close>

definition entry :: "'v \<Rightarrow> 'k \<Rightarrow> ('k, 'v) dict \<Rightarrow> 'v" where
  "entry fresh k d = (case map_of d k of None \<Rightarrow> fresh | Some v \<Rightarrow> v)"

definition with_entry :: "'v \<Rightarrow> 'k \<Rightarrow> ('v \<Rightarrow> 'r \<times> 'v) \<Rightarrow> ('k, 'v) dict \<Rightarrow> 'r \<times> ('k, 'v) dict" where
  "with_entry fresh k call d =
     (case call (entry fresh k d) of (r, v) \<Rightarrow> (r, AList.update k v d))"

lemma entry_with_entry:
  "entry fresh k' (snd (with_entry fresh k call d)) =
     (if k' = k then snd (call (entry fresh k d)) else entry fresh k' d)"
  by (simp add: entry_def with_entry_def split: prod.splits)

lemma fst_with_entry: "fst (with_entry fresh k call d) = fst (call (entry fresh k d))"
  by (simp add: with_entry_def split: prod.splits)

locale independent_entries =
  fixes view :: "'k \<Rightarrow> 's \<Rightarrow> 'v"
    and step_at :: "'k \<Rightarrow> 'e \<Rightarrow> 's \<Rightarrow> 's"
    and step_one :: "'e \<Rightarrow> 'v \<Rightarrow> 'v"
  assumes view_step: "view k' (step_at k e s) = (if k' = k then step_one e (view k s) else view k' s)"
begin

lemma view_run:
  "view k (fold (\<lambda>(k, e). step_at k e) es s) =
     fold step_one (map snd (filter (\<lambda>p. fst p = k) es)) (view k s)"
  by (induction es arbitrary: s) (auto simp: view_step)

lemma view_untouched:
  "k \<notin> fst ` set es \<Longrightarrow> view k (fold (\<lambda>(k, e). step_at k e) es s) = view k s"
  by (induction es arbitrary: s) (auto simp: view_step)

end

section \<open>Interface: a gate that lets one probe through\<close>

text \<open>
  Both circuit breakers let a single probe through once an open circuit has cooled down, and
  refuse everyone else until an outcome is recorded.
\<close>

fun grants :: "('e \<Rightarrow> 's \<Rightarrow> bool \<times> 's) \<Rightarrow> 'e list \<Rightarrow> 's \<Rightarrow> bool list \<times> 's" where
  "grants ask [] s = ([], s)"
| "grants ask (e # es) s =
     (case ask e s of (r, s1) \<Rightarrow> (case grants ask es s1 of (rs, s2) \<Rightarrow> (r # rs, s2)))"

locale probe_gate =
  fixes ask :: "'e \<Rightarrow> 's \<Rightarrow> bool \<times> 's"
    and guarded :: "'s \<Rightarrow> bool"
    and probing :: "'s \<Rightarrow> bool"
  assumes refuse_while_probing: "guarded s \<Longrightarrow> probing s \<Longrightarrow> ask e s = (False, s)"
    and refused_unchanged: "guarded s \<Longrightarrow> ask e s = (False, s') \<Longrightarrow> s' = s"
    and granted_probing: "guarded s \<Longrightarrow> ask e s = (True, s') \<Longrightarrow> guarded s' \<and> probing s'"
begin

lemma probing_refuses_all:
  "guarded s \<Longrightarrow> probing s \<Longrightarrow> grants ask es s = (replicate (length es) False, s)"
  by (induction es) (simp_all add: refuse_while_probing)

lemma at_most_one_grant:
  "guarded s \<Longrightarrow> length (filter id (fst (grants ask es s))) \<le> 1"
proof (induction es)
  case (Cons e es)
  obtain r s1 where step: "ask e s = (r, s1)" by fastforce
  show ?case
  proof (cases r)
    case True
    with step granted_probing[OF Cons.prems] have "guarded s1" "probing s1" by auto
    then show ?thesis using step True by (simp add: probing_refuses_all)
  next
    case False
    with step refused_unchanged[OF Cons.prems] have "s1 = s" by auto
    with step False Cons show ?thesis by (simp add: case_prod_beta)
  qed
qed simp

end

section \<open>Interface: admission under a cap\<close>

text \<open>
  A meter that admits a request only when the usage it can see plus the request stays
  under a cap, and whose usage grows by exactly what it admitted.  The two spend meters
  of the guard (the process-local rolling caps and the durable reservation store) both
  promise this, and both get the same consequence: however many requests are offered
  one after another, the usage they add together never passes the cap.
\<close>

fun run_admissions :: "('r \<Rightarrow> 's \<Rightarrow> bool \<times> 's) \<Rightarrow> 'r list \<Rightarrow> 's \<Rightarrow> 'r list \<times> 's" where
  "run_admissions admit [] s = ([], s)"
| "run_admissions admit (r # rs) s =
     (case admit r s of
        (ok, s1) \<Rightarrow> (case run_admissions admit rs s1 of
                      (as, s2) \<Rightarrow> (if ok then r # as else as, s2)))"

locale capped_meter =
  fixes usage :: "'s \<Rightarrow> rat"
    and admit :: "'r \<Rightarrow> 's \<Rightarrow> bool \<times> 's"
    and demand :: "'r \<Rightarrow> rat"
    and cap :: rat
    and inv :: "'s \<Rightarrow> bool"
    and valid :: "'r \<Rightarrow> 's \<Rightarrow> bool"
  assumes admit_usage:
      "inv s \<Longrightarrow> valid r s \<Longrightarrow> admit r s = (ok, s') \<Longrightarrow>
       usage s' = usage s + (if ok then demand r else 0)"
    and admit_under: "inv s \<Longrightarrow> valid r s \<Longrightarrow> admit r s = (True, s') \<Longrightarrow> usage s' \<le> cap"
    and admit_inv: "inv s \<Longrightarrow> valid r s \<Longrightarrow> admit r s = (ok, s') \<Longrightarrow> inv s'"
begin

fun all_valid :: "'r list \<Rightarrow> 's \<Rightarrow> bool" where
  "all_valid [] s = True"
| "all_valid (r # rs) s = (valid r s \<and> all_valid rs (snd (admit r s)))"

lemma run_usage:
  "inv s \<Longrightarrow> all_valid rs s \<Longrightarrow> run_admissions admit rs s = (as, s') \<Longrightarrow>
   inv s' \<and> usage s' = usage s + sum_list (map demand as)"
proof (induction rs arbitrary: s s' as)
  case Nil
  then show ?case by simp
next
  case (Cons r rs)
  obtain ok s1 where step: "admit r s = (ok, s1)" by fastforce
  obtain bs s2 where rec: "run_admissions admit rs s1 = (bs, s2)" by fastforce
  have v: "valid r s" "all_valid rs s1"
    using Cons.prems(2) step by simp_all
  have "inv s1" "usage s1 = usage s + (if ok then demand r else 0)"
    using admit_usage[OF Cons.prems(1) v(1) step] admit_inv[OF Cons.prems(1) v(1) step] by auto
  with Cons.IH[OF _ v(2) rec] show ?case
    using Cons.prems(3) step rec by auto
qed

lemma run_under_cap:
  "inv s \<Longrightarrow> all_valid rs s \<Longrightarrow> run_admissions admit rs s = (as, s') \<Longrightarrow> usage s \<le> cap \<Longrightarrow>
   usage s' \<le> cap"
proof (induction rs arbitrary: s s' as)
  case Nil
  then show ?case by simp
next
  case (Cons r rs)
  obtain ok s1 where step: "admit r s = (ok, s1)" by fastforce
  obtain bs s2 where rec: "run_admissions admit rs s1 = (bs, s2)" by fastforce
  have v: "valid r s" "all_valid rs s1"
    using Cons.prems(2) step by simp_all
  have "usage s1 \<le> cap"
  proof (cases ok)
    case True
    with step show ?thesis using admit_under[OF Cons.prems(1) v(1)] by simp
  next
    case False
    then show ?thesis using admit_usage[OF Cons.prems(1) v(1) step] Cons.prems(4) by simp
  qed
  with Cons.IH[OF admit_inv[OF Cons.prems(1) v(1) step] v(2) rec] show ?case
    using Cons.prems(3) step rec by simp
qed

end

end
