(* ===== verification/Contracts.thy ===== *)
theory Contracts
  imports Prelude
begin

text \<open>
  The typed surface of the spend guard (\<^verbatim>\<open>src/tokenpak/proxy/spend_guard/contracts.py\<close>):
  the risk estimate of a request, the policy verdict, the \<^verbatim>\<open>[TIP: ...]\<close> directive, the held
  request and the outcome handed to the proxy hook.  Dataclasses are records, \<^verbatim>\<open>Literal\<close>
  types are datatypes.  The machine-readable text of \<^verbatim>\<open>threshold_hit\<close> is kept as a
  constructor with the values the f-string interpolates.
\<close>

record risk_estimate =
  re_model :: string
  re_current_context_tokens :: int
  re_request_tokens :: int
  re_projected_input_tokens :: int
  re_projected_output_tokens :: int
  re_projected_cost_usd :: money
  re_cache_hit_ratio :: rat
  re_rates :: "(string, rat) dict"

datatype decision_kind = Allow | Warn | Block | Hard_block | Estimate_only | Cancel_verdict

datatype threshold =
    Hard_stop_percent int int int
  | Hard_block_cost money
  | Hard_block_tokens int
  | Session_block_cost money money
  | Tip_ceiling
  | Context_percent int int int
  | Block_cost money
  | Block_tokens string int "int option"
  | Tip_directive
  | Warn_band
  | Anti_loop

record preflight_decision =
  pd_decision :: decision_kind
  pd_reason :: string
  pd_requires_approval :: bool
  pd_threshold_hit :: "threshold option"
  pd_risk :: "risk_estimate option"

datatype allow_scope = Once | Fifteen_minutes | Whole_session

record tip_directive =
  tip_raw :: string
  tip_allow_scope :: "allow_scope option"
  tip_bypass :: bool
  tip_max_cost_usd :: "money option"
  tip_max_tokens :: "int option"
  tip_estimate_only :: bool
  tip_cancel :: bool
  tip_reason :: "string option"
  tip_unknown_keys :: "string list"

definition TIPDirective :: tip_directive where
  "TIPDirective = \<lparr>tip_raw = '''', tip_allow_scope = None, tip_bypass = False,
     tip_max_cost_usd = None, tip_max_tokens = None, tip_estimate_only = False,
     tip_cancel = False, tip_reason = None, tip_unknown_keys = []\<rparr>"

datatype hold_status = Pending | Consumed | Discarded | Expired

type_synonym headers = "(string, string) dict"

record pending_request =
  pr_pending_id :: string
  pr_session_id :: string
  pr_created_at :: secs
  pr_expires_at :: secs
  pr_request_hash :: string
  pr_provider :: string
  pr_model :: string
  pr_projected_tokens :: int
  pr_projected_cost_usd :: money
  pr_raw_request_blob :: string
  pr_raw_request_headers :: headers
  pr_target_url :: string
  pr_status :: hold_status
  pr_projected_input_tokens :: "int option"
  pr_block_response :: "string option"

datatype outcome_kind =
    Forward | Forward_modified | Blocked | Hard_blocked | Replay | Estimate | Cancelled | Reprompt

record guard_outcome =
  go_kind :: outcome_kind
  go_body :: "string option"
  go_headers :: "headers option"
  go_target_url :: "string option"
  go_response_body :: "string option"
  go_http_status :: int
  go_decision :: "preflight_decision option"
  go_pending_id :: "string option"
  go_audit_event :: "string option"
  go_admission_ticket :: "string option"

definition GuardOutcome :: "outcome_kind \<Rightarrow> guard_outcome" where
  "GuardOutcome k = \<lparr>go_kind = k, go_body = None, go_headers = None, go_target_url = None,
     go_response_body = None, go_http_status = 200, go_decision = None, go_pending_id = None,
     go_audit_event = None, go_admission_ticket = None\<rparr>"

definition passthrough :: "string \<Rightarrow> guard_outcome" where
  "passthrough body = (GuardOutcome Forward)\<lparr>go_body := Some body\<rparr>"

text \<open>The kinds for which the proxy hook writes bytes to the provider.\<close>

definition reaches_provider :: "guard_outcome \<Rightarrow> bool" where
  "reaches_provider g = (go_kind g \<in> {Forward, Forward_modified, Replay})"

lemmas contract_defs = TIPDirective_def GuardOutcome_def passthrough_def reaches_provider_def

end
