(* ===== verification/Policy.thy ===== *)
theory Policy
  imports Contracts
begin

text \<open>
  The threshold policy of the spend guard (\<^verbatim>\<open>src/tokenpak/proxy/spend_guard/policy.py\<close>):
  the configuration record, the rejection of unknown configuration keys, the derivation of
  the soft-block threshold, the check of the accounting basis, and the verdict \<open>decide\<close> with
  its ordered bands (context hard stop, hard blocks, session cap, TIP ceiling, soft blocks,
  TIP release, warn, allow).  The lemmas show what every allowing verdict guarantees and
  which bands no directive or approval can cross.
\<close>

section \<open>Configuration\<close>

record spend_guard_config =
  cfg_enabled :: bool
  cfg_default_basis :: string
  cfg_default_context_window_percent :: int
  cfg_hard_stop_context_window_percent :: int
  cfg_dollar_cap_enabled_by_default :: bool
  cfg_default_dollar_cap :: "money option"
  cfg_warn_tokens :: int
  cfg_warn_cost_usd :: money
  cfg_block_tokens :: int
  cfg_hard_block_tokens :: int
  cfg_block_cost_usd :: money
  cfg_hard_block_cost_usd :: money
  cfg_session_block_cost_usd :: money
  cfg_session_window_seconds :: int
  cfg_pending_ttl_seconds :: int
  cfg_audit_min_cost_usd :: money
  cfg_rolling_caps_enabled :: bool
  cfg_reservations_enabled :: bool
  cfg_accounting_basis :: string
  cfg_reservation_ttl_seconds :: int
  cfg_reservation_history_seconds :: int
  cfg_reservation_max_records :: int
  cfg_rolling_caps_window_seconds :: int
  cfg_rc_per_agent_max_cost_usd :: money
  cfg_rc_per_agent_max_tokens_total :: int
  cfg_rc_per_agent_max_cache_read_tokens :: int
  cfg_rc_per_fleet_max_cost_usd :: money
  cfg_rc_per_fleet_max_tokens_total :: int
  cfg_rc_per_fleet_max_cache_read_tokens :: int

definition SpendGuardConfig :: spend_guard_config where
  "SpendGuardConfig = \<lparr>
     cfg_enabled = True,
     cfg_default_basis = ''context_window_percent'',
     cfg_default_context_window_percent = 90,
     cfg_hard_stop_context_window_percent = 100,
     cfg_dollar_cap_enabled_by_default = False,
     cfg_default_dollar_cap = None,
     cfg_warn_tokens = 100000,
     cfg_warn_cost_usd = 2,
     cfg_block_tokens = 500000,
     cfg_hard_block_tokens = 1000000,
     cfg_block_cost_usd = 0,
     cfg_hard_block_cost_usd = 0,
     cfg_session_block_cost_usd = 0,
     cfg_session_window_seconds = 3600,
     cfg_pending_ttl_seconds = 600,
     cfg_audit_min_cost_usd = 1 / 10,
     cfg_rolling_caps_enabled = True,
     cfg_reservations_enabled = False,
     cfg_accounting_basis = ''priced_usage'',
     cfg_reservation_ttl_seconds = 600,
     cfg_reservation_history_seconds = 30 * 24 * 3600,
     cfg_reservation_max_records = 100000,
     cfg_rolling_caps_window_seconds = 3600,
     cfg_rc_per_agent_max_cost_usd = 20,
     cfg_rc_per_agent_max_tokens_total = 5000000,
     cfg_rc_per_agent_max_cache_read_tokens = 0,
     cfg_rc_per_fleet_max_cost_usd = 60,
     cfg_rc_per_fleet_max_tokens_total = 15000000,
     cfg_rc_per_fleet_max_cache_read_tokens = 0\<rparr>"

section \<open>Unknown configuration keys\<close>

text \<open>A parsed YAML value, as far as the key check looks into it.\<close>

datatype yaml = YScalar string | YMap "(string \<times> yaml) list"

definition KNOWN_SPEND_GUARD_KEYS :: "string list" where
  "KNOWN_SPEND_GUARD_KEYS =
    [''enabled'', ''reservations_enabled'', ''accounting_basis'', ''reservation_ttl_seconds'',
     ''reservation_history_seconds'', ''reservation_max_records'', ''default_basis'',
     ''default_context_window_percent'', ''hard_stop_context_window_percent'',
     ''dollar_cap_enabled_by_default'', ''default_dollar_cap'', ''warn_tokens'',
     ''warn_cost_usd'', ''block_tokens'', ''block_cost_usd'', ''hard_block_tokens'',
     ''hard_block_cost_usd'', ''session_block_cost_usd'', ''session_window_seconds'',
     ''pending_ttl_seconds'', ''audit_db_path'', ''audit_min_cost_usd'',
     ''rolling_caps_enabled'', ''rolling_caps_window_seconds'',
     ''rolling_caps_per_agent_max_cost_usd'', ''rolling_caps_per_agent_max_tokens_total'',
     ''rolling_caps_per_agent_max_cache_read_tokens'',
     ''rolling_caps_per_fleet_max_cost_usd'', ''rolling_caps_per_fleet_max_tokens_total'',
     ''rolling_caps_per_fleet_max_cache_read_tokens'', ''rolling_caps'']"

definition ROLLING_CAPS_KNOWN_KEYS :: "string list" where
  "ROLLING_CAPS_KNOWN_KEYS = [''enabled'', ''window_seconds'', ''per_agent'', ''per_fleet'']"

definition ROLLING_CAPS_SCOPE_KNOWN_KEYS :: "string list" where
  "ROLLING_CAPS_SCOPE_KNOWN_KEYS =
     [''max_cost_usd'', ''max_tokens_total'', ''max_cache_read_tokens'']"

text \<open>The loops raise at the first offending key, in the dictionary's order.\<close>

fun reject_keys :: "string list \<Rightarrow> string \<Rightarrow> string list \<Rightarrow> py_error + unit" where
  "reject_keys known path [] = Inr ()"
| "reject_keys known path (k # ks) =
     (if k \<notin> set known then Inl (ValueError (path @ ''.'' @ k)) else reject_keys known path ks)"

fun reject_rolling :: "string \<Rightarrow> (string \<times> yaml) list \<Rightarrow> py_error + unit" where
  "reject_rolling path [] = Inr ()"
| "reject_rolling path ((k, v) # kvs) =
     (if k \<notin> set ROLLING_CAPS_KNOWN_KEYS then Inl (ValueError (path @ ''.'' @ k))
      else ebind
        (case v of
           YMap sub \<Rightarrow>
             (if k = ''per_agent'' \<or> k = ''per_fleet''
              then reject_keys ROLLING_CAPS_SCOPE_KNOWN_KEYS (path @ ''.'' @ k) (map fst sub)
              else Inr ())
         | YScalar _ \<Rightarrow> Inr ())
        (\<lambda>_. reject_rolling path kvs))"

definition reject_unknown_keys :: "yaml \<Rightarrow> string \<Rightarrow> py_error + unit" where
  "reject_unknown_keys section alias =
     (case section of
        YScalar _ \<Rightarrow> Inr ()
      | YMap kvs \<Rightarrow>
          ebind (reject_keys KNOWN_SPEND_GUARD_KEYS alias (map fst kvs))
            (\<lambda>_. case map_of kvs ''rolling_caps'' of
                   Some (YMap rc) \<Rightarrow> reject_rolling (alias @ ''.rolling_caps'') rc
                 | _ \<Rightarrow> Inr ()))"

section \<open>Thresholds\<close>

definition DEFAULT_BLOCK_RATIO :: rat where
  "DEFAULT_BLOCK_RATIO = 4 / 5"

definition derive_block_threshold :: "int option \<Rightarrow> rat \<Rightarrow> int option \<Rightarrow> int option" where
  "derive_block_threshold model_max ratio fallback =
     (if ratio \<le> 0 \<or> 1 < ratio then fallback
      else case model_max of
             None \<Rightarrow> fallback
           | Some m \<Rightarrow>
               if m \<le> 0 then fallback
               else let derived = trunc (of_int m * ratio)
                    in if m < derived then Some m else Some derived)"

text \<open>The effective legacy token band and the name it is reported under.\<close>

definition effective_block_tokens :: "spend_guard_config \<Rightarrow> int option \<Rightarrow> int \<times> string" where
  "effective_block_tokens cfg model_max =
     (case derive_block_threshold model_max DEFAULT_BLOCK_RATIO (Some (cfg_block_tokens cfg)) of
        None \<Rightarrow> (cfg_hard_block_tokens cfg, ''block_tokens_unresolved'')
      | Some d \<Rightarrow>
          (min d (cfg_hard_block_tokens cfg),
           (case model_max of
              Some m \<Rightarrow> if 0 < m then ''block_tokens_dynamic'' else ''block_tokens_fallback''
            | None \<Rightarrow> ''block_tokens_fallback'')))"

definition percent_tokens :: "int option \<Rightarrow> int \<Rightarrow> int option" where
  "percent_tokens model_max pct =
     (case model_max of
        Some m \<Rightarrow> if 0 < m then Some (trunc (of_int (m * pct) / 100)) else None
      | None \<Rightarrow> None)"

definition context_scope :: "tip_directive option \<Rightarrow> bool" where
  "context_scope tip =
     (case tip of
        None \<Rightarrow> False
      | Some t \<Rightarrow> tip_bypass t \<or> tip_allow_scope t \<noteq> None
                  \<or> tip_max_cost_usd t \<noteq> None \<or> tip_max_tokens t \<noteq> None)"

definition tip_ceiling_ok :: "tip_directive option \<Rightarrow> money \<Rightarrow> int \<Rightarrow> bool" where
  "tip_ceiling_ok tip cost tokens =
     (case tip of
        None \<Rightarrow> True
      | Some t \<Rightarrow> (case tip_max_cost_usd t of None \<Rightarrow> True | Some c \<Rightarrow> cost \<le> c)
                  \<and> (case tip_max_tokens t of None \<Rightarrow> True | Some n \<Rightarrow> tokens \<le> n))"

definition tip_request_approval :: "tip_directive option \<Rightarrow> bool" where
  "tip_request_approval tip =
     (case tip of
        None \<Rightarrow> False
      | Some t \<Rightarrow>
          context_scope tip
          \<and> tip_allow_scope t \<noteq> Some Fifteen_minutes \<and> tip_allow_scope t \<noteq> Some Whole_session
          \<and> \<not> (tip_bypass t \<and> tip_max_cost_usd t = None \<and> tip_max_tokens t = None))"

section \<open>The accounting basis\<close>

definition validate_accounting_basis :: "spend_guard_config \<Rightarrow> py_error + unit" where
  "validate_accounting_basis cfg =
     (if cfg_accounting_basis cfg \<notin> {''priced_usage'', ''provider_tokens''}
        then Inl (ValueError ''unsupported spend guard accounting basis'')
      else if cfg_accounting_basis cfg \<noteq> ''provider_tokens'' then Inr ()
      else if \<not> (cfg_enabled cfg \<and> cfg_reservations_enabled cfg \<and> cfg_rolling_caps_enabled cfg)
        then Inl (ValueError ''provider-token accounting requires enabled durable rolling caps'')
      else if cfg_dollar_cap_enabled_by_default cfg \<or> cfg_default_dollar_cap cfg \<noteq> None
              \<or> (\<exists>v \<in> set [cfg_rc_per_agent_max_cost_usd cfg, cfg_rc_per_fleet_max_cost_usd cfg,
                       cfg_block_cost_usd cfg, cfg_hard_block_cost_usd cfg,
                       cfg_session_block_cost_usd cfg]. v \<noteq> 0)
        then Inl (ValueError ''provider-token accounting cannot enforce monetary caps'')
      else if cfg_rc_per_fleet_max_tokens_total cfg \<le> 0
        then Inl (ValueError ''provider-token accounting requires an overall total-token cap'')
      else Inr ())"

section \<open>The verdict\<close>

definition verdict ::
  "risk_estimate \<Rightarrow> decision_kind \<Rightarrow> string \<Rightarrow> bool \<Rightarrow> threshold option \<Rightarrow> preflight_decision" where
  "verdict est d reason approval hit =
     \<lparr>pd_decision = d, pd_reason = reason, pd_requires_approval = approval,
      pd_threshold_hit = hit, pd_risk = Some est\<rparr>"

text \<open>The conditions of the bands, named after the comments of the source.\<close>

definition percent_hit :: "int option \<Rightarrow> int \<Rightarrow> int \<Rightarrow> bool" where
  "percent_hit model_max pct input_tokens =
     (case percent_tokens model_max pct of Some h \<Rightarrow> h \<le> input_tokens | None \<Rightarrow> False)"

definition band_hit :: "money \<Rightarrow> money \<Rightarrow> bool" where
  "band_hit limit amount = (0 < limit \<and> limit \<le> amount)"

definition est_tokens :: "risk_estimate \<Rightarrow> int" where
  "est_tokens est = re_projected_input_tokens est + re_projected_output_tokens est"

definition token_hard_block :: "spend_guard_config \<Rightarrow> int option \<Rightarrow> int \<Rightarrow> bool" where
  "token_hard_block cfg model_max tokens =
     (percent_tokens model_max (cfg_hard_stop_context_window_percent cfg) = None
      \<and> 0 < cfg_hard_block_tokens cfg \<and> cfg_hard_block_tokens cfg \<le> tokens)"

definition token_block :: "spend_guard_config \<Rightarrow> int option \<Rightarrow> int \<Rightarrow> bool" where
  "token_block cfg model_max tokens =
     (percent_tokens model_max (cfg_default_context_window_percent cfg) = None
      \<and> fst (effective_block_tokens cfg model_max) \<le> tokens)"

definition warn_hit :: "spend_guard_config \<Rightarrow> money \<Rightarrow> int \<Rightarrow> bool" where
  "warn_hit cfg cost tokens =
     (band_hit (cfg_warn_cost_usd cfg) cost \<or> cfg_warn_tokens cfg \<le> tokens)"

definition decide ::
  "risk_estimate \<Rightarrow> spend_guard_config \<Rightarrow> tip_directive option \<Rightarrow> money \<Rightarrow> int option \<Rightarrow>
   bool \<Rightarrow> bool \<Rightarrow> preflight_decision" where
  "decide est cfg tip session_running model_max context_soft_approved request_soft_approved =
    (let cost = re_projected_cost_usd est;
         input_tokens = re_projected_input_tokens est;
         tokens = est_tokens est;
         max_context = (case model_max of Some m \<Rightarrow> m | None \<Rightarrow> 0);
         in_scope = context_scope tip;
         request_approved = (request_soft_approved \<or> tip_request_approval tip)
     in
     if percent_hit model_max (cfg_hard_stop_context_window_percent cfg) input_tokens then
       verdict est Hard_block ''projected_exceeds_context_window_hard_stop'' False
         (Some (Hard_stop_percent (cfg_hard_stop_context_window_percent cfg) max_context input_tokens))
     else if band_hit (cfg_hard_block_cost_usd cfg) cost then
       verdict est Hard_block ''projected_cost_exceeds_hard_block'' False
         (Some (Hard_block_cost (cfg_hard_block_cost_usd cfg)))
     else if token_hard_block cfg model_max tokens then
       verdict est Hard_block ''projected_tokens_exceed_hard_block'' False
         (Some (Hard_block_tokens (cfg_hard_block_tokens cfg)))
     else if band_hit (cfg_session_block_cost_usd cfg) (session_running + cost) then
       verdict est Block ''session_cumulative_cost_exceeded'' False
         (Some (Session_block_cost (cfg_session_block_cost_usd cfg) session_running))
     else if in_scope \<and> \<not> tip_ceiling_ok tip cost tokens then
       verdict est Block ''projected_exceeds_tip_ceiling'' True (Some Tip_ceiling)
     else if percent_hit model_max (cfg_default_context_window_percent cfg) input_tokens
             \<and> \<not> (in_scope \<or> context_soft_approved \<or> request_approved) then
       verdict est Block ''projected_exceeds_context_window_percent'' True
         (Some (Context_percent (cfg_default_context_window_percent cfg) max_context input_tokens))
     else if band_hit (cfg_block_cost_usd cfg) cost \<and> \<not> request_approved then
       verdict est Block ''projected_cost_exceeded'' True (Some (Block_cost (cfg_block_cost_usd cfg)))
     else if token_block cfg model_max tokens \<and> \<not> request_approved then
       verdict est Block ''projected_tokens_exceeded'' True
         (Some (Block_tokens (snd (effective_block_tokens cfg model_max))
            (fst (effective_block_tokens cfg model_max))
            (case model_max of Some m \<Rightarrow> if m \<noteq> 0 then Some m else None | None \<Rightarrow> None)))
     else if in_scope then
       verdict est Allow ''tip_bypass_within_ceiling'' False (Some Tip_directive)
     else if warn_hit cfg cost tokens then
       verdict est Warn ''projected_in_warn_band'' False (Some Warn_band)
     else verdict est Allow ''under_thresholds'' False None)"

section \<open>The verdict as a cascade\<close>

text \<open>The bands no directive and no approval may cross.\<close>

definition hard_bands :: "risk_estimate \<Rightarrow> spend_guard_config \<Rightarrow> int option \<Rightarrow> bool" where
  "hard_bands est cfg model_max =
     (percent_hit model_max (cfg_hard_stop_context_window_percent cfg) (re_projected_input_tokens est)
      \<or> band_hit (cfg_hard_block_cost_usd cfg) (re_projected_cost_usd est)
      \<or> token_hard_block cfg model_max (est_tokens est))"

definition session_band :: "risk_estimate \<Rightarrow> spend_guard_config \<Rightarrow> money \<Rightarrow> bool" where
  "session_band est cfg running =
     band_hit (cfg_session_block_cost_usd cfg) (running + re_projected_cost_usd est)"

text \<open>The bands an approval releases: for one request, or for the context percentage only.\<close>

definition soft_bands ::
  "risk_estimate \<Rightarrow> spend_guard_config \<Rightarrow> tip_directive option \<Rightarrow> int option \<Rightarrow> bool \<Rightarrow> bool \<Rightarrow> bool" where
  "soft_bands est cfg tip model_max context_approved request_approved =
     ((percent_hit model_max (cfg_default_context_window_percent cfg) (re_projected_input_tokens est)
        \<and> \<not> (context_scope tip \<or> context_approved \<or> request_approved))
      \<or> (band_hit (cfg_block_cost_usd cfg) (re_projected_cost_usd est) \<and> \<not> request_approved)
      \<or> (token_block cfg model_max (est_tokens est) \<and> \<not> request_approved))"

definition ceiling_band :: "risk_estimate \<Rightarrow> tip_directive option \<Rightarrow> bool" where
  "ceiling_band est tip =
     (context_scope tip \<and> \<not> tip_ceiling_ok tip (re_projected_cost_usd est) (est_tokens est))"

lemma verdict_sel [simp]:
  "pd_decision (verdict est d r a h) = d"
  "pd_reason (verdict est d r a h) = r"
  "pd_requires_approval (verdict est d r a h) = a"
  "pd_threshold_hit (verdict est d r a h) = h"
  "pd_risk (verdict est d r a h) = Some est"
  by (simp_all add: verdict_def)

lemma percent_tokens_None_iff:
  "percent_tokens mm p = None \<longleftrightarrow> (\<forall>m. mm = Some m \<longrightarrow> m \<le> 0)"
  by (cases mm) (auto simp: percent_tokens_def)

lemma if_merge2: "(if a then x else if b then x else y) = (if a \<or> b then x else y)"
  by simp

lemma decide_cases:
  "pd_decision (decide est cfg tip run mm ca ra) =
    (if hard_bands est cfg mm then Hard_block
     else if session_band est cfg run \<or> ceiling_band est tip
             \<or> soft_bands est cfg tip mm ca (ra \<or> tip_request_approval tip) then Block
     else if context_scope tip then Allow
     else if warn_hit cfg (re_projected_cost_usd est) (est_tokens est) then Warn
     else Allow)"
  unfolding decide_def Let_def if_distrib[where f = pd_decision] verdict_sel
    hard_bands_def session_band_def ceiling_band_def soft_bands_def if_merge2 disj_assoc ..

lemma decide_requires_approval_cases:
  "pd_requires_approval (decide est cfg tip run mm ca ra) =
    (\<not> hard_bands est cfg mm \<and> \<not> session_band est cfg run
     \<and> (ceiling_band est tip \<or> soft_bands est cfg tip mm ca (ra \<or> tip_request_approval tip)))"
  unfolding decide_def Let_def if_distrib[where f = pd_requires_approval] verdict_sel
    hard_bands_def session_band_def ceiling_band_def soft_bands_def if_merge2 disj_assoc
  by simp

lemma decide_risk: "pd_risk (decide est cfg tip run mm ca ra) = Some est"
  unfolding decide_def Let_def if_distrib[where f = pd_risk] verdict_sel by simp

lemma decide_kinds:
  "pd_decision (decide est cfg tip run mm ca ra) \<in> {Allow, Warn, Block, Hard_block}"
  by (simp add: decide_cases)

lemma soft_bands_request_approved: "\<not> soft_bands est cfg tip mm ca True"
  by (simp add: soft_bands_def)

lemma soft_bands_antimono:
  "soft_bands est cfg tip mm ca' ra' \<Longrightarrow> (ca \<longrightarrow> ca') \<Longrightarrow> (ra \<longrightarrow> ra') \<Longrightarrow> soft_bands est cfg tip mm ca ra"
  by (auto simp: soft_bands_def)

definition passes :: "preflight_decision \<Rightarrow> bool" where
  "passes d = (pd_decision d = Allow \<or> pd_decision d = Warn)"

lemma reject_keys_Inr: "reject_keys known path ks = Inr u \<longleftrightarrow> set ks \<subseteq> set known"
  by (induction ks) auto

lemma reject_rolling_Inr:
  "reject_rolling path rc = Inr u \<longleftrightarrow>
   (\<forall>(k, v) \<in> set rc. k \<in> set ROLLING_CAPS_KNOWN_KEYS \<and>
      (\<forall>sub. v = YMap sub \<and> (k = ''per_agent'' \<or> k = ''per_fleet'') \<longrightarrow>
         fst ` set sub \<subseteq> set ROLLING_CAPS_SCOPE_KNOWN_KEYS))"
proof (induction rc)
  case (Cons kv rc)
  then show ?case
    by (cases kv) (auto simp: ebind_eq_Inr reject_keys_Inr split: yaml.splits)
qed simp

lemma percent_hit_over:
  assumes "0 < m" "0 \<le> pct" "m * pct \<le> 100 * n"
  shows "percent_hit (Some m) pct n"
proof -
  have "of_int (m * pct) / (100::rat) \<le> of_int n"
    using of_int_le_iff[of "m * pct" "100 * n", where 'a = rat] assms(3) by (simp add: field_simps)
  then have "trunc (of_int (m * pct) / 100) \<le> n"
    using trunc_mono[of "of_int (m * pct) / 100" "of_int n"] assms by simp
  with assms(1) show ?thesis by (simp add: percent_hit_def percent_tokens_def)
qed

lemma percent_miss_under:
  assumes "\<not> percent_hit (Some m) pct n" "0 < m" "0 \<le> pct"
  shows "100 * n < m * pct"
  using percent_hit_over[OF assms(2,3)] assms(1) by (meson not_le)

lemma token_block_unknown: "token_block cfg None n \<longleftrightarrow> min (cfg_block_tokens cfg) (cfg_hard_block_tokens cfg) \<le> n"
  by (simp add: token_block_def effective_block_tokens_def derive_block_threshold_def
        percent_tokens_def DEFAULT_BLOCK_RATIO_def)

lemma token_block_known: "0 < m \<Longrightarrow> \<not> token_block cfg (Some m) n"
  by (simp add: token_block_def percent_tokens_def)

lemma decide_passes_iff:
  "passes (decide est cfg tip run mm ca ra) \<longleftrightarrow>
   \<not> hard_bands est cfg mm \<and> \<not> session_band est cfg run \<and> \<not> ceiling_band est tip
   \<and> \<not> soft_bands est cfg tip mm ca (ra \<or> tip_request_approval tip)"
  by (simp add: passes_def decide_cases)

lemma derive_block_threshold_floor:
  assumes h: "0 < m" "0 < ratio" "ratio \<le> 1"
  shows "\<exists>n. derive_block_threshold (Some m) ratio fb = Some n \<and> 0 \<le> n \<and> n \<le> m
          \<and> of_int n \<le> of_int m * ratio \<and> of_int m * ratio < of_int n + 1"
proof -
  let ?n = "\<lfloor>of_int m * ratio\<rfloor>"
  have nn: "0 \<le> of_int m * ratio" using h by simp
  have "of_int m * ratio \<le> of_int m"
    using h by (simp add: mult_left_le)
  then have le: "?n \<le> m"
    using floor_mono by fastforce
  have "derive_block_threshold (Some m) ratio fb = Some ?n"
    using h nn le by (simp add: derive_block_threshold_def trunc_def Let_def)
  moreover have "0 \<le> ?n" "of_int ?n \<le> of_int m * ratio" "of_int m * ratio < of_int ?n + 1"
    using nn by (simp, linarith, linarith)
  ultimately show ?thesis using le by blast
qed

section \<open>Properties\<close>

text \<open>
  C6. The context hard stop is absolute.  When the projected input reaches the configured
  percentage of a known context window, the verdict is a hard block that asks for no
  approval, whatever directive, session spend or earlier approval accompanies the request.
\<close>

theorem context_hard_stop_absolute:
  assumes "0 < m" and "0 \<le> cfg_hard_stop_context_window_percent cfg"
    and "m * cfg_hard_stop_context_window_percent cfg \<le> 100 * re_projected_input_tokens est"
  shows "pd_decision (decide est cfg tip run (Some m) ca ra) = Hard_block
         \<and> \<not> pd_requires_approval (decide est cfg tip run (Some m) ca ra)"
  using percent_hit_over[OF assms]
  by (simp add: decide_cases decide_requires_approval_cases hard_bands_def)

definition example_estimate :: "int \<Rightarrow> int \<Rightarrow> money \<Rightarrow> risk_estimate" where
  "example_estimate inp outp cost =
     \<lparr>re_model = ''claude-opus-4-8'', re_current_context_tokens = 0, re_request_tokens = inp,
      re_projected_input_tokens = inp, re_projected_output_tokens = outp,
      re_projected_cost_usd = cost, re_cache_hit_ratio = 0, re_rates = []\<rparr>"

theorem context_hard_stop_absolute_witness:
  "pd_decision (decide (example_estimate 1000000 100 3) SpendGuardConfig
      (Some (TIPDirective\<lparr>tip_bypass := True\<rparr>)) 0 (Some 1000000) True True) = Hard_block"
  using context_hard_stop_absolute[of 1000000 SpendGuardConfig "example_estimate 1000000 100 3"
      "Some (TIPDirective\<lparr>tip_bypass := True\<rparr>)" 0 True True]
  by (simp add: SpendGuardConfig_def example_estimate_def)

text \<open>
  C7. The session cap is never lifted.  Once the running session cost plus this request
  reaches the configured session cap, the request is blocked without an approval path, for
  every directive and every approval.
\<close>

theorem session_cap_never_lifted:
  assumes "0 < cfg_session_block_cost_usd cfg"
    and "cfg_session_block_cost_usd cfg \<le> run + re_projected_cost_usd est"
  shows "pd_decision (decide est cfg tip run mm ca ra) \<in> {Block, Hard_block}
         \<and> \<not> pd_requires_approval (decide est cfg tip run mm ca ra)"
  using assms
  by (simp add: decide_cases decide_requires_approval_cases session_band_def band_hit_def)

theorem session_cap_never_lifted_witness:
  "pd_decision (decide (example_estimate 10 10 2)
      (SpendGuardConfig\<lparr>cfg_session_block_cost_usd := 25\<rparr>)
      (Some (TIPDirective\<lparr>tip_allow_scope := Some Once\<rparr>)) 24 None True True)
     \<in> {Block, Hard_block}"
  using session_cap_never_lifted[of "SpendGuardConfig\<lparr>cfg_session_block_cost_usd := 25\<rparr>" 24
      "example_estimate 10 10 2" "Some (TIPDirective\<lparr>tip_allow_scope := Some Once\<rparr>)" None True True]
  by (simp add: SpendGuardConfig_def example_estimate_def)

text \<open>
  A passing verdict is sound.  Whenever the verdict is allow or warn, the projected input
  is strictly below the hard-stop share of the window, the projected cost is strictly below an
  engaged hard cost band and keeps the session strictly below an engaged session cap, any
  ceiling the directive declares is respected, and without a directive or approval the input
  is also strictly below the soft share of the window and the cost below the soft cost band.
\<close>

lemma decide_pass_sound:
  assumes "passes (decide est cfg tip run (Some m) ca ra)" and "0 < m"
    and "0 \<le> cfg_default_context_window_percent cfg"
    and "0 \<le> cfg_hard_stop_context_window_percent cfg"
  shows "100 * re_projected_input_tokens est < m * cfg_hard_stop_context_window_percent cfg
    \<and> (0 < cfg_hard_block_cost_usd cfg \<longrightarrow> re_projected_cost_usd est < cfg_hard_block_cost_usd cfg)
    \<and> (0 < cfg_session_block_cost_usd cfg \<longrightarrow>
           run + re_projected_cost_usd est < cfg_session_block_cost_usd cfg)
    \<and> (\<forall>t c. tip = Some t \<and> tip_max_cost_usd t = Some c \<longrightarrow> re_projected_cost_usd est \<le> c)
    \<and> (\<forall>t n. tip = Some t \<and> tip_max_tokens t = Some n \<longrightarrow> est_tokens est \<le> n)
    \<and> (tip = None \<and> \<not> ca \<and> \<not> ra \<longrightarrow>
           100 * re_projected_input_tokens est < m * cfg_default_context_window_percent cfg
           \<and> (0 < cfg_block_cost_usd cfg \<longrightarrow> re_projected_cost_usd est < cfg_block_cost_usd cfg))"
proof (intro conjI)
  note P = assms(1)[unfolded decide_passes_iff]
  show "100 * re_projected_input_tokens est < m * cfg_hard_stop_context_window_percent cfg"
    using P assms by (auto simp: hard_bands_def intro: percent_miss_under)
  show "0 < cfg_hard_block_cost_usd cfg \<longrightarrow> re_projected_cost_usd est < cfg_hard_block_cost_usd cfg"
    using P by (auto simp: hard_bands_def band_hit_def)
  show "0 < cfg_session_block_cost_usd cfg \<longrightarrow>
           run + re_projected_cost_usd est < cfg_session_block_cost_usd cfg"
    using P by (auto simp: session_band_def band_hit_def)
  show "\<forall>t c. tip = Some t \<and> tip_max_cost_usd t = Some c \<longrightarrow> re_projected_cost_usd est \<le> c"
    and "\<forall>t n. tip = Some t \<and> tip_max_tokens t = Some n \<longrightarrow> est_tokens est \<le> n"
    using P by (auto simp: ceiling_band_def context_scope_def tip_ceiling_ok_def)
  show "tip = None \<and> \<not> ca \<and> \<not> ra \<longrightarrow>
           100 * re_projected_input_tokens est < m * cfg_default_context_window_percent cfg
           \<and> (0 < cfg_block_cost_usd cfg \<longrightarrow> re_projected_cost_usd est < cfg_block_cost_usd cfg)"
    using P assms
    by (auto simp: soft_bands_def context_scope_def tip_request_approval_def band_hit_def
        intro: percent_miss_under)
qed

theorem decide_pass_sound_witness:
  "passes (decide (example_estimate 1000 100 (1/2)) SpendGuardConfig None 0 (Some 200000) False False)
   \<and> (100::int) * 1000 < 200000 * 100"
proof -
  have p: "passes (decide (example_estimate 1000 100 (1/2)) SpendGuardConfig None 0 (Some 200000) False False)"
    by (simp add: decide_passes_iff hard_bands_def session_band_def ceiling_band_def soft_bands_def
        percent_hit_def percent_tokens_def band_hit_def token_hard_block_def token_block_def
        context_scope_def tip_request_approval_def SpendGuardConfig_def example_estimate_def)
  show ?thesis
    using decide_pass_sound[OF p] p by (simp add: SpendGuardConfig_def example_estimate_def)
qed

text \<open>
  A persistent context grant keeps its scope.  With only the context approval set, a
  request passes only if the cost and token bands were clear anyway; and adding approvals to
  a request never turns a passing verdict into a blocking one.
\<close>

lemma context_grant_scope:
  "(passes (decide est cfg None run mm True False) \<longrightarrow>
     \<not> band_hit (cfg_block_cost_usd cfg) (re_projected_cost_usd est)
     \<and> \<not> token_block cfg mm (est_tokens est))
   \<and> (passes (decide est cfg tip run mm ca ra) \<longrightarrow>
     passes (decide est cfg tip run mm (ca \<or> ca') (ra \<or> ra')))"
  by (auto simp: decide_passes_iff soft_bands_def tip_request_approval_def)

theorem context_grant_scope_witness:
  "\<not> passes (decide (example_estimate 195000 10 30)
        (SpendGuardConfig\<lparr>cfg_block_cost_usd := 20\<rparr>) None 0 (Some 200000) True False)"
proof
  assume "passes (decide (example_estimate 195000 10 30)
        (SpendGuardConfig\<lparr>cfg_block_cost_usd := 20\<rparr>) None 0 (Some 200000) True False)"
  then show False
    using context_grant_scope[of "example_estimate 195000 10 30"
        "SpendGuardConfig\<lparr>cfg_block_cost_usd := 20\<rparr>" 0 "Some 200000"]
    by (simp add: band_hit_def example_estimate_def SpendGuardConfig_def)
qed

lemma dollar_profile_bands:
  fixes cfg :: spend_guard_config and b :: string and d :: bool and c :: "money option"
  defines "cfg' \<equiv> cfg\<lparr>cfg_default_basis := b, cfg_dollar_cap_enabled_by_default := d,
      cfg_default_dollar_cap := c\<rparr>"
  shows "effective_block_tokens cfg' mm = effective_block_tokens cfg mm"
    and "token_hard_block cfg' mm n = token_hard_block cfg mm n"
    and "token_block cfg' mm n = token_block cfg mm n"
    and "warn_hit cfg' cost n = warn_hit cfg cost n"
  by (simp_all add: cfg'_def token_hard_block_def token_block_def effective_block_tokens_def warn_hit_def
      cong: option.case_cong)

text \<open>
  Three configured fields never influence a verdict: the denomination
  \<^verbatim>\<open>default_basis\<close>, the switch \<^verbatim>\<open>dollar_cap_enabled_by_default\<close> and the amount
  \<^verbatim>\<open>default_dollar_cap\<close> can take any value without changing what \<open>decide\<close> returns.
\<close>

lemma dollar_profile_fields_inert:
  "decide est (cfg\<lparr>cfg_default_basis := b, cfg_dollar_cap_enabled_by_default := d,
      cfg_default_dollar_cap := c\<rparr>) tip run mm ca ra = decide est cfg tip run mm ca ra"
  unfolding decide_def Let_def by (simp add: dollar_profile_bands cong: if_cong)

text \<open>
  The derived soft-block threshold.  For a known window and a ratio in (0, 1] it is the
  floor of the product and never leaves the window; for any ratio above 1 the window is
  ignored and the fallback is returned.
\<close>

lemma derive_block_threshold_bounds:
  "(0 < m \<and> 0 < ratio \<and> ratio \<le> 1 \<longrightarrow>
     (\<exists>n. derive_block_threshold (Some m) ratio fb = Some n \<and> 0 \<le> n \<and> n \<le> m
          \<and> of_int n \<le> of_int m * ratio \<and> of_int m * ratio < of_int n + 1))
   \<and> (1 < ratio \<longrightarrow> derive_block_threshold (Some m) ratio fb = fb)"
  using derive_block_threshold_floor[of m ratio fb]
  by (auto simp: derive_block_threshold_def)

theorem derive_block_threshold_bounds_witness:
  "derive_block_threshold (Some 200000) (3/2) (Some 500000) = Some 500000
   \<and> (\<exists>n. derive_block_threshold (Some 200000) (4/5) None = Some n \<and> n \<le> 200000)"
  using derive_block_threshold_bounds[of 200000 "4/5" None]
    derive_block_threshold_bounds[of 200000 "3/2" "Some 500000"] by auto

text \<open>
  A configuration section is accepted exactly when every key it sets is implemented, at
  the top level, in the nested rolling-caps block and in its two scope blocks.
\<close>

lemma reject_unknown_keys_iff:
  "reject_unknown_keys (YMap kvs) alias = Inr () \<longleftrightarrow>
     fst ` set kvs \<subseteq> set KNOWN_SPEND_GUARD_KEYS
     \<and> (\<forall>rc. map_of kvs ''rolling_caps'' = Some (YMap rc) \<longrightarrow>
          (\<forall>(k, v) \<in> set rc. k \<in> set ROLLING_CAPS_KNOWN_KEYS \<and>
            (\<forall>sub. v = YMap sub \<and> (k = ''per_agent'' \<or> k = ''per_fleet'') \<longrightarrow>
               fst ` set sub \<subseteq> set ROLLING_CAPS_SCOPE_KNOWN_KEYS)))"
  by (auto simp: reject_unknown_keys_def ebind_eq_Inr reject_keys_Inr reject_rolling_Inr
      split: option.splits yaml.splits)

theorem reject_unknown_keys_iff_witness:
  "reject_unknown_keys (YMap [(''enabled'', YScalar ''on''),
       (''rolling_caps'', YMap [(''per_agent'', YMap [(''max_audio'', YScalar ''1'')])])])
      ''spend_guard'' \<noteq> Inr ()"
  unfolding reject_unknown_keys_iff
  by (simp add: ROLLING_CAPS_SCOPE_KNOWN_KEYS_def)

end
