(* ===== verification/Rolling_Caps.thy ===== *)
theory Rolling_Caps
  imports Policy
begin

text \<open>
  Rolling spend caps (\<^verbatim>\<open>src/tokenpak/proxy/spend_guard/rolling_caps.py\<close>): the in-flight table
  of admitted projections, the session-to-agent map, the 30-second cache of ledger usage with
  its generation counter, the ledger query, and the check-and-admit step that runs under the
  module's admission lock.  The module's globals are the fields of \<open>rc_state\<close>; each function
  that runs under a lock is one step on that state.  The monitor database is an argument:
  missing, unreadable, or a list of rows.  \<^verbatim>\<open>time.strftime\<close> of a local time is the argument
  \<open>stamp\<close>; the random ticket is an argument too.
\<close>

section \<open>State\<close>

record rolling_usage =
  ru_agent_cost_usd :: money
  ru_agent_tokens_total :: int
  ru_agent_cache_read_tokens :: int
  ru_fleet_cost_usd :: money
  ru_fleet_tokens_total :: int
  ru_fleet_cache_read_tokens :: int

definition blank_usage :: rolling_usage where
  "blank_usage = \<lparr>ru_agent_cost_usd = 0, ru_agent_tokens_total = 0, ru_agent_cache_read_tokens = 0,
     ru_fleet_cost_usd = 0, ru_fleet_tokens_total = 0, ru_fleet_cache_read_tokens = 0\<rparr>"

record inflight_entry =
  inf_agent_id :: string
  inf_cost_usd :: money
  inf_tokens_total :: int
  inf_cache_read_tokens :: int
  inf_admitted_at :: secs

record rc_state =
  rc_session_agent :: "(string, string \<times> secs) dict"
  rc_usage_cache :: "(string, secs \<times> rolling_usage) dict"
  rc_usage_generation :: int
  rc_inflight :: "(string, inflight_entry) dict"

definition USAGE_CACHE_TTL_SEC :: secs where "USAGE_CACHE_TTL_SEC = 30"
definition INFLIGHT_TTL_SEC :: secs where "INFLIGHT_TTL_SEC = 600"

record rolling_caps_config =
  rcc_enabled :: bool
  rcc_window_seconds :: int
  rcc_per_agent_max_cost_usd :: money
  rcc_per_agent_max_tokens_total :: int
  rcc_per_agent_max_cache_read_tokens :: int
  rcc_per_fleet_max_cost_usd :: money
  rcc_per_fleet_max_tokens_total :: int
  rcc_per_fleet_max_cache_read_tokens :: int

definition RollingCapsConfig :: rolling_caps_config where
  "RollingCapsConfig = \<lparr>rcc_enabled = True, rcc_window_seconds = 3600,
     rcc_per_agent_max_cost_usd = 20, rcc_per_agent_max_tokens_total = 5000000,
     rcc_per_agent_max_cache_read_tokens = 4000000, rcc_per_fleet_max_cost_usd = 60,
     rcc_per_fleet_max_tokens_total = 15000000, rcc_per_fleet_max_cache_read_tokens = 12000000\<rparr>"

record cap_breach =
  br_cap_dimension :: string
  br_agent_id :: string
  br_window_seconds :: int
  br_used :: rat
  br_cap :: rat
  br_projected_add :: rat
  br_retry_after_seconds :: int

definition CAP_DIMENSION_UNMEASURABLE :: string where
  "CAP_DIMENSION_UNMEASURABLE = ''rolling_cap_unmeasurable''"

text \<open>
  A row of the monitor ledger.  \<open>None\<close> in a numeric column is SQL \<^verbatim>\<open>NULL\<close> or a value of another
  type; \<^verbatim>\<open>SUM\<close> skips it.
\<close>

record monitor_row =
  mr_timestamp :: string
  mr_session_id :: string
  mr_agent_id :: string
  mr_estimated_cost :: "money option"
  mr_input_tokens :: "int option"
  mr_output_tokens :: "int option"
  mr_cache_read_tokens :: "int option"
  mr_guard_reservation_id :: string
  mr_guard_ledger_key :: string
  mr_guard_usage_complete :: bool

datatype monitor_db = Missing | Unreadable | Rows "monitor_row list"

section \<open>In-flight spend\<close>

definition admit_pending_spend ::
  "string \<Rightarrow> money \<Rightarrow> int \<Rightarrow> int \<Rightarrow> string \<Rightarrow> secs \<Rightarrow> rc_state \<Rightarrow> string \<times> rc_state" where
  "admit_pending_spend agent_id cost tokens cache_read ticket now s =
     (ticket, s\<lparr>rc_inflight := AList.update ticket
        \<lparr>inf_agent_id = lower agent_id, inf_cost_usd = cost, inf_tokens_total = tokens,
         inf_cache_read_tokens = cache_read, inf_admitted_at = now\<rparr> (rc_inflight s)\<rparr>)"

definition settle_pending_spend :: "string option \<Rightarrow> rc_state \<Rightarrow> bool \<times> rc_state" where
  "settle_pending_spend ticket s =
     (case ticket of
        None \<Rightarrow> (False, s)
      | Some t \<Rightarrow> if t = [] then (False, s)
                  else (map_of (rc_inflight s) t \<noteq> None,
                        s\<lparr>rc_inflight := AList.delete t (rc_inflight s)\<rparr>))"

definition recorded_spend_committed :: "string option \<Rightarrow> rc_state \<Rightarrow> rc_state" where
  "recorded_spend_committed ticket s =
     snd (settle_pending_spend ticket
       (s\<lparr>rc_usage_generation := rc_usage_generation s + 1, rc_usage_cache := []\<rparr>))"

definition get_admitted_projection :: "string option \<Rightarrow> secs \<Rightarrow> rc_state \<Rightarrow> inflight_entry option" where
  "get_admitted_projection ticket now s =
     (case ticket of
        None \<Rightarrow> None
      | Some t \<Rightarrow>
          if t = [] then None
          else case map_of (rc_inflight s) t of
                 None \<Rightarrow> None
               | Some e \<Rightarrow> if inf_admitted_at e < now - INFLIGHT_TTL_SEC then None else Some e)"

definition add_entry :: "string \<Rightarrow> inflight_entry \<Rightarrow> rolling_usage \<Rightarrow> rolling_usage" where
  "add_entry agent_key e u =
     (let u1 = u\<lparr>ru_fleet_cost_usd := ru_fleet_cost_usd u + inf_cost_usd e,
                 ru_fleet_tokens_total := ru_fleet_tokens_total u + inf_tokens_total e,
                 ru_fleet_cache_read_tokens := ru_fleet_cache_read_tokens u + inf_cache_read_tokens e\<rparr>
      in if agent_key \<noteq> [] \<and> inf_agent_id e = agent_key
         then u1\<lparr>ru_agent_cost_usd := ru_agent_cost_usd u1 + inf_cost_usd e,
                 ru_agent_tokens_total := ru_agent_tokens_total u1 + inf_tokens_total e,
                 ru_agent_cache_read_tokens := ru_agent_cache_read_tokens u1 + inf_cache_read_tokens e\<rparr>
         else u1)"

text \<open>The loop over a copy of the table; an expired entry is popped and not counted.\<close>

fun pending_loop ::
  "string \<Rightarrow> secs \<Rightarrow> (string \<times> inflight_entry) list \<Rightarrow> rolling_usage \<Rightarrow>
   (string, inflight_entry) dict \<Rightarrow> rolling_usage \<times> (string, inflight_entry) dict" where
  "pending_loop agent_key cutoff [] totals table = (totals, table)"
| "pending_loop agent_key cutoff ((ticket, e) # rest) totals table =
     (if inf_admitted_at e < cutoff
      then pending_loop agent_key cutoff rest totals (AList.delete ticket table)
      else pending_loop agent_key cutoff rest (add_entry agent_key e totals) table)"

definition pending_spend_totals :: "string \<Rightarrow> secs \<Rightarrow> rc_state \<Rightarrow> rolling_usage \<times> rc_state" where
  "pending_spend_totals agent_id now s =
     (case pending_loop (lower agent_id) (now - INFLIGHT_TTL_SEC) (rc_inflight s)
             blank_usage (rc_inflight s) of
        (totals, table) \<Rightarrow> (totals, s\<lparr>rc_inflight := table\<rparr>))"

section \<open>Session attribution and recorded usage\<close>

definition record_session_agent :: "string \<Rightarrow> string \<Rightarrow> secs \<Rightarrow> rc_state \<Rightarrow> rc_state" where
  "record_session_agent session_id agent_id now s =
     (if session_id = [] \<or> agent_id = [] then s
      else s\<lparr>rc_session_agent := AList.update session_id (lower agent_id, now) (rc_session_agent s)\<rparr>)"

fun agents_loop ::
  "secs \<Rightarrow> (string \<times> (string \<times> secs)) list \<Rightarrow> (string, string list) dict \<Rightarrow>
   (string, string \<times> secs) dict \<Rightarrow> (string, string list) dict \<times> (string, string \<times> secs) dict" where
  "agents_loop cutoff [] out table = (out, table)"
| "agents_loop cutoff ((sid, (agent, last_seen)) # rest) out table =
     (if last_seen < cutoff then agents_loop cutoff rest out (AList.delete sid table)
      else agents_loop cutoff rest
             (AList.update agent ((case map_of out agent of None \<Rightarrow> [] | Some l \<Rightarrow> l) @ [sid]) out)
             table)"

definition get_agents_for_window ::
  "int \<Rightarrow> secs \<Rightarrow> rc_state \<Rightarrow> (string, string list) dict \<times> rc_state" where
  "get_agents_for_window window now s =
     (case agents_loop (now - of_int window) (rc_session_agent s) [] (rc_session_agent s) of
        (out, table) \<Rightarrow> (out, s\<lparr>rc_session_agent := table\<rparr>))"

definition col :: "'a::zero option \<Rightarrow> 'a" where
  "col v = (case v of None \<Rightarrow> 0 | Some x \<Rightarrow> x)"

definition sum_columns :: "(monitor_row \<Rightarrow> bool) \<Rightarrow> monitor_row list \<Rightarrow> money \<times> int \<times> int" where
  "sum_columns P rows =
     (sum_where P (\<lambda>r. col (mr_estimated_cost r)) rows,
      sum_where P (\<lambda>r. col (mr_input_tokens r)) rows + sum_where P (\<lambda>r. col (mr_output_tokens r)) rows,
      sum_where P (\<lambda>r. col (mr_cache_read_tokens r)) rows)"

definition query_recorded_usage ::
  "monitor_row list \<Rightarrow> string \<Rightarrow> string list \<Rightarrow> string option \<Rightarrow> rolling_usage" where
  "query_recorded_usage rows cutoff_iso sessions agent_id =
     (let recent = (\<lambda>r. str_le cutoff_iso (mr_timestamp r));
          (fc, ftok, fcr) = sum_columns recent rows;
          (ac, atok, acr) =
            (case agent_id of
               Some a \<Rightarrow> sum_columns (\<lambda>r. recent r \<and> sql_lower (mr_agent_id r) = lower a) rows
             | None \<Rightarrow> if sessions \<noteq> []
                       then sum_columns (\<lambda>r. recent r \<and> mr_session_id r \<in> set sessions) rows
                       else (0, 0, 0))
      in \<lparr>ru_agent_cost_usd = ac, ru_agent_tokens_total = atok, ru_agent_cache_read_tokens = acr,
          ru_fleet_cost_usd = fc, ru_fleet_tokens_total = ftok, ru_fleet_cache_read_tokens = fcr\<rparr>)"

definition cache_key :: "string \<Rightarrow> int \<Rightarrow> string \<Rightarrow> string" where
  "cache_key agent_id window db_path = agent_id @ ''|'' @ show_int window @ ''|'' @ db_path"

definition cached_usage :: "string \<Rightarrow> secs \<Rightarrow> rc_state \<Rightarrow> rolling_usage option" where
  "cached_usage key now s =
     (case map_of (rc_usage_cache s) key of
        Some (expiry, u) \<Rightarrow> if now < expiry then Some u else None
      | None \<Rightarrow> None)"

text \<open>
  The result of a read is cached only if no commit moved the generation since the read began.
\<close>

definition store_usage :: "string \<Rightarrow> int \<Rightarrow> secs \<Rightarrow> rolling_usage \<Rightarrow> rc_state \<Rightarrow> rc_state" where
  "store_usage key generation now usage s =
     (if generation = rc_usage_generation s
      then s\<lparr>rc_usage_cache := AList.update key (now + USAGE_CACHE_TTL_SEC, usage) (rc_usage_cache s)\<rparr>
      else s)"

definition compute_rolling_usage ::
  "(secs \<Rightarrow> string) \<Rightarrow> string \<Rightarrow> monitor_db \<Rightarrow> string \<Rightarrow> int \<Rightarrow> secs \<Rightarrow> rc_state \<Rightarrow>
   rolling_usage option \<times> rc_state" where
  "compute_rolling_usage stamp db_path db agent_id window now s =
     (let key = cache_key agent_id window db_path; generation = rc_usage_generation s in
      case cached_usage key now s of
        Some u \<Rightarrow> (Some u, s)
      | None \<Rightarrow>
          if db = Missing then (Some blank_usage, s)
          else
            (let cutoff_iso = stamp (now - of_int window);
                 (mapping, s1) = (if agent_id \<noteq> [] then get_agents_for_window window now s else ([], s));
                 sessions = (case map_of mapping (lower agent_id) of None \<Rightarrow> [] | Some l \<Rightarrow> l)
             in case db of
                  Rows rows \<Rightarrow>
                    (let usage = query_recorded_usage rows cutoff_iso sessions None
                     in (Some usage, store_usage key generation now usage s1))
                | _ \<Rightarrow> (None, s1)))"

section \<open>The cap check\<close>

definition add_usage :: "rolling_usage \<Rightarrow> rolling_usage \<Rightarrow> rolling_usage" where
  "add_usage u p =
     \<lparr>ru_agent_cost_usd = ru_agent_cost_usd u + ru_agent_cost_usd p,
      ru_agent_tokens_total = ru_agent_tokens_total u + ru_agent_tokens_total p,
      ru_agent_cache_read_tokens = ru_agent_cache_read_tokens u + ru_agent_cache_read_tokens p,
      ru_fleet_cost_usd = ru_fleet_cost_usd u + ru_fleet_cost_usd p,
      ru_fleet_tokens_total = ru_fleet_tokens_total u + ru_fleet_tokens_total p,
      ru_fleet_cache_read_tokens = ru_fleet_cache_read_tokens u + ru_fleet_cache_read_tokens p\<rparr>"

definition with_pending :: "rolling_usage \<Rightarrow> rolling_usage \<Rightarrow> rolling_usage" where
  "with_pending u p =
     (if ru_fleet_cost_usd p \<noteq> 0 \<or> ru_fleet_tokens_total p \<noteq> 0 \<or> ru_fleet_cache_read_tokens p \<noteq> 0
      then add_usage u p else u)"

definition exceeds :: "'a::linordered_idom \<Rightarrow> 'a \<Rightarrow> 'a \<Rightarrow> bool" where
  "exceeds used add cap = (0 < cap \<and> cap < used + add)"

definition CapBreach :: "rolling_caps_config \<Rightarrow> string \<Rightarrow> string \<Rightarrow> rat \<Rightarrow> rat \<Rightarrow> rat \<Rightarrow> cap_breach" where
  "CapBreach cfg dimension agent used cap add =
     \<lparr>br_cap_dimension = dimension, br_agent_id = agent, br_window_seconds = rcc_window_seconds cfg,
      br_used = used, br_cap = cap, br_projected_add = add, br_retry_after_seconds = 1800\<rparr>"

definition first_breach ::
  "string \<Rightarrow> money \<Rightarrow> int \<Rightarrow> int \<Rightarrow> rolling_caps_config \<Rightarrow> rolling_usage \<Rightarrow> cap_breach option" where
  "first_breach agent_id cost tokens cache_read cfg u =
     (let who = (if agent_id = [] then ''unknown'' else agent_id) in
      if agent_id \<noteq> [] \<and> exceeds (ru_agent_cost_usd u) cost (rcc_per_agent_max_cost_usd cfg) then
        Some (CapBreach cfg ''per_agent_cost_usd'' agent_id
                (ru_agent_cost_usd u) (rcc_per_agent_max_cost_usd cfg) cost)
      else if agent_id \<noteq> [] \<and> exceeds (ru_agent_tokens_total u) tokens (rcc_per_agent_max_tokens_total cfg) then
        Some (CapBreach cfg ''per_agent_tokens_total'' agent_id
                (of_int (ru_agent_tokens_total u)) (of_int (rcc_per_agent_max_tokens_total cfg)) (of_int tokens))
      else if agent_id \<noteq> [] \<and> exceeds (ru_agent_cache_read_tokens u) cache_read
                (rcc_per_agent_max_cache_read_tokens cfg) then
        Some (CapBreach cfg ''per_agent_cache_read_tokens'' agent_id
                (of_int (ru_agent_cache_read_tokens u)) (of_int (rcc_per_agent_max_cache_read_tokens cfg))
                (of_int cache_read))
      else if exceeds (ru_fleet_cost_usd u) cost (rcc_per_fleet_max_cost_usd cfg) then
        Some (CapBreach cfg ''per_fleet_cost_usd'' who
                (ru_fleet_cost_usd u) (rcc_per_fleet_max_cost_usd cfg) cost)
      else if exceeds (ru_fleet_tokens_total u) tokens (rcc_per_fleet_max_tokens_total cfg) then
        Some (CapBreach cfg ''per_fleet_tokens_total'' who
                (of_int (ru_fleet_tokens_total u)) (of_int (rcc_per_fleet_max_tokens_total cfg)) (of_int tokens))
      else if exceeds (ru_fleet_cache_read_tokens u) cache_read (rcc_per_fleet_max_cache_read_tokens cfg) then
        Some (CapBreach cfg ''per_fleet_cache_read_tokens'' who
                (of_int (ru_fleet_cache_read_tokens u)) (of_int (rcc_per_fleet_max_cache_read_tokens cfg))
                (of_int cache_read))
      else None)"

definition unmeasurable_breach :: "string \<Rightarrow> money \<Rightarrow> rolling_caps_config \<Rightarrow> cap_breach" where
  "unmeasurable_breach agent_id cost cfg =
     \<lparr>br_cap_dimension = CAP_DIMENSION_UNMEASURABLE,
      br_agent_id = (if agent_id = [] then ''unknown'' else agent_id),
      br_window_seconds = rcc_window_seconds cfg, br_used = 0, br_cap = 0,
      br_projected_add = cost, br_retry_after_seconds = 60\<rparr>"

definition check_rolling_caps ::
  "(secs \<Rightarrow> string) \<Rightarrow> string \<Rightarrow> monitor_db \<Rightarrow> string \<Rightarrow> money \<Rightarrow> int \<Rightarrow> int \<Rightarrow> int \<Rightarrow>
   rolling_caps_config \<Rightarrow> secs \<Rightarrow> rc_state \<Rightarrow> cap_breach option \<times> rc_state" where
  "check_rolling_caps stamp db_path db agent_id cost inp outp cache_read cfg now s =
     (if \<not> rcc_enabled cfg then (None, s)
      else case compute_rolling_usage stamp db_path db agent_id (rcc_window_seconds cfg) now s of
             (None, s1) \<Rightarrow> (Some (unmeasurable_breach agent_id cost cfg), s1)
           | (Some usage, s1) \<Rightarrow>
               (case pending_spend_totals agent_id now s1 of
                  (pending, s2) \<Rightarrow>
                    (first_breach agent_id cost (inp + outp) cache_read cfg (with_pending usage pending), s2)))"

definition check_rolling_caps_and_admit ::
  "(secs \<Rightarrow> string) \<Rightarrow> string \<Rightarrow> monitor_db \<Rightarrow> string \<Rightarrow> money \<Rightarrow> int \<Rightarrow> int \<Rightarrow> int \<Rightarrow>
   rolling_caps_config \<Rightarrow> string \<Rightarrow> secs \<Rightarrow> rc_state \<Rightarrow>
   (cap_breach option \<times> string option) \<times> rc_state" where
  "check_rolling_caps_and_admit stamp db_path db agent_id cost inp outp cache_read cfg ticket now s =
     (case check_rolling_caps stamp db_path db agent_id cost inp outp cache_read cfg now s of
        (Some breach, s1) \<Rightarrow> ((Some breach, None), s1)
      | (None, s1) \<Rightarrow>
          (case admit_pending_spend agent_id cost (inp + outp) cache_read ticket now s1 of
             (t, s2) \<Rightarrow> ((None, Some t), s2)))"

definition reset_caches_for_testing :: "rc_state \<Rightarrow> rc_state" where
  "reset_caches_for_testing s = s\<lparr>rc_session_agent := [], rc_usage_cache := [], rc_inflight := []\<rparr>"

definition rc_initial :: rc_state where
  "rc_initial = \<lparr>rc_session_agent = [], rc_usage_cache = [], rc_usage_generation = 0, rc_inflight = []\<rparr>"

section \<open>Closed forms of the two table loops\<close>

definition live_entry :: "secs \<Rightarrow> inflight_entry \<Rightarrow> bool" where
  "live_entry cutoff e = (cutoff \<le> inf_admitted_at e)"

definition pending_usage :: "string \<Rightarrow> secs \<Rightarrow> (string, inflight_entry) dict \<Rightarrow> rolling_usage" where
  "pending_usage agent_key cutoff table =
     (let fleet = (\<lambda>p. live_entry cutoff (snd p));
          own = (\<lambda>p. live_entry cutoff (snd p) \<and> agent_key \<noteq> [] \<and> inf_agent_id (snd p) = agent_key)
      in \<lparr>ru_agent_cost_usd = sum_where own (inf_cost_usd \<circ> snd) table,
          ru_agent_tokens_total = sum_where own (inf_tokens_total \<circ> snd) table,
          ru_agent_cache_read_tokens = sum_where own (inf_cache_read_tokens \<circ> snd) table,
          ru_fleet_cost_usd = sum_where fleet (inf_cost_usd \<circ> snd) table,
          ru_fleet_tokens_total = sum_where fleet (inf_tokens_total \<circ> snd) table,
          ru_fleet_cache_read_tokens = sum_where fleet (inf_cache_read_tokens \<circ> snd) table\<rparr>)"

lemma add_usage_blank [simp]: "add_usage blank_usage u = u" "add_usage u blank_usage = u"
  by (simp_all add: add_usage_def blank_usage_def)

lemma pending_usage_Nil [simp]: "pending_usage k c [] = blank_usage"
  by (simp add: pending_usage_def blank_usage_def)

lemma pending_loop_totals:
  "fst (pending_loop k c xs u table) = add_usage u (pending_usage k c xs)"
  by (induction k c xs u table rule: pending_loop.induct)
    (auto simp: add_usage_def pending_usage_def blank_usage_def add_entry_def live_entry_def Let_def)

lemma pending_loop_table:
  "snd (pending_loop k c xs u table) =
     filter (\<lambda>p. \<forall>(t, e) \<in> set xs. t = fst p \<longrightarrow> live_entry c e) table"
proof (induction k c xs u table rule: pending_loop.induct)
  case (2 k c ticket e rest totals table)
  show ?case
  proof (cases "inf_admitted_at e < c")
    case True
    then have "snd (pending_loop k c ((ticket, e) # rest) totals table) =
        filter (\<lambda>p. \<forall>(t, e) \<in> set rest. t = fst p \<longrightarrow> live_entry c e) (AList.delete ticket table)"
      using "2.IH"(1) by simp
    also have "\<dots> = filter (\<lambda>p. \<forall>(t, e) \<in> set ((ticket, e) # rest). t = fst p \<longrightarrow> live_entry c e) table"
      using True by (auto simp: AList.delete_eq live_entry_def intro: filter_cong)
    finally show ?thesis .
  next
    case False
    with "2.IH"(2) show ?thesis by (auto simp: live_entry_def intro: filter_cong)
  qed
qed simp

lemma pending_loop_self:
  assumes "wf_dict table"
  shows "snd (pending_loop k c table u table) = filter (\<lambda>p. live_entry c (snd p)) table"
proof -
  have "(\<forall>(t, e) \<in> set table. t = fst p \<longrightarrow> live_entry c e) = live_entry c (snd p)"
    if "p \<in> set table" for p
    using that by - (cases p, auto dest: eq_key_imp_eq_value[OF assms])
  then show ?thesis
    unfolding pending_loop_table by (rule filter_cong[OF refl])
qed

lemma pending_usage_filter [simp]:
  "pending_usage k c (filter (\<lambda>p. live_entry c (snd p)) table) = pending_usage k c table"
  by (auto simp: pending_usage_def Let_def intro!: sum_where_filter)

lemma pending_spend_totals_eq:
  assumes "wf_dict (rc_inflight s)"
  shows "pending_spend_totals agent now s =
     (pending_usage (lower agent) (now - INFLIGHT_TTL_SEC) (rc_inflight s),
      s\<lparr>rc_inflight := filter (\<lambda>p. live_entry (now - INFLIGHT_TTL_SEC) (snd p)) (rc_inflight s)\<rparr>)"
proof -
  obtain u t where eq: "pending_loop (lower agent) (now - INFLIGHT_TTL_SEC) (rc_inflight s)
      blank_usage (rc_inflight s) = (u, t)" by fastforce
  then show ?thesis
    using pending_loop_totals[of "lower agent" "now - INFLIGHT_TTL_SEC" "rc_inflight s" blank_usage "rc_inflight s"]
      pending_loop_self[OF assms, of "lower agent" "now - INFLIGHT_TTL_SEC" blank_usage]
    by (simp add: pending_spend_totals_def)
qed

section \<open>Well-formed meter states\<close>

definition nonneg_entry :: "inflight_entry \<Rightarrow> bool" where
  "nonneg_entry e = (0 \<le> inf_cost_usd e \<and> 0 \<le> inf_tokens_total e \<and> 0 \<le> inf_cache_read_tokens e)"

definition rc_ok :: "rc_state \<Rightarrow> bool" where
  "rc_ok s = (wf_dict (rc_inflight s) \<and> (\<forall>p \<in> set (rc_inflight s). nonneg_entry (snd p)))"

lemma compute_inflight [simp]:
  "rc_inflight (snd (compute_rolling_usage stamp path db agent window now s)) = rc_inflight s"
  by (auto simp: compute_rolling_usage_def Let_def store_usage_def get_agents_for_window_def
      split: option.splits monitor_db.splits prod.splits if_splits)

lemma with_pending_eq:
  assumes "\<forall>p \<in> set table. nonneg_entry (snd p)"
  shows "with_pending u (pending_usage k c table) = add_usage u (pending_usage k c table)"
proof -
  define own where
    "own = (\<lambda>p. live_entry c (snd p) \<and> k \<noteq> [] \<and> inf_agent_id (snd (p::string \<times> inflight_entry)) = k)"
  have le: "sum_where own (f \<circ> snd) table \<le> sum_where (\<lambda>p. live_entry c (snd p)) (f \<circ> snd) table"
    and ge: "0 \<le> sum_where own (f \<circ> snd) table"
    if "\<And>p. p \<in> set table \<Longrightarrow> 0 \<le> f (snd p)" for f :: "inflight_entry \<Rightarrow> 'b::linordered_idom"
    using that by (auto simp: own_def intro!: sum_where_mono_pred sum_where_nonneg)
  show ?thesis
    using le[of inf_cost_usd] le[of inf_tokens_total] le[of inf_cache_read_tokens]
      ge[of inf_cost_usd] ge[of inf_tokens_total] ge[of inf_cache_read_tokens] assms
    by (auto simp: with_pending_def add_usage_def pending_usage_def Let_def own_def nonneg_entry_def)
qed

definition within_caps :: "string \<Rightarrow> rolling_caps_config \<Rightarrow> rolling_usage \<Rightarrow> bool" where
  "within_caps agent cfg u =
     ((agent \<noteq> [] \<longrightarrow>
         \<not> exceeds (ru_agent_cost_usd u) 0 (rcc_per_agent_max_cost_usd cfg) \<and>
         \<not> exceeds (ru_agent_tokens_total u) 0 (rcc_per_agent_max_tokens_total cfg) \<and>
         \<not> exceeds (ru_agent_cache_read_tokens u) 0 (rcc_per_agent_max_cache_read_tokens cfg)) \<and>
      \<not> exceeds (ru_fleet_cost_usd u) 0 (rcc_per_fleet_max_cost_usd cfg) \<and>
      \<not> exceeds (ru_fleet_tokens_total u) 0 (rcc_per_fleet_max_tokens_total cfg) \<and>
      \<not> exceeds (ru_fleet_cache_read_tokens u) 0 (rcc_per_fleet_max_cache_read_tokens cfg))"

definition projection :: "string \<Rightarrow> money \<Rightarrow> int \<Rightarrow> int \<Rightarrow> rolling_usage" where
  "projection agent cost tokens cache_read =
     (let own = agent \<noteq> [] in
      \<lparr>ru_agent_cost_usd = (if own then cost else 0), ru_agent_tokens_total = (if own then tokens else 0),
       ru_agent_cache_read_tokens = (if own then cache_read else 0), ru_fleet_cost_usd = cost,
       ru_fleet_tokens_total = tokens, ru_fleet_cache_read_tokens = cache_read\<rparr>)"

lemma first_breach_None:
  "first_breach agent cost tokens cache_read cfg u = None \<longleftrightarrow>
   within_caps agent cfg (add_usage u (projection agent cost tokens cache_read))"
  by (cases "agent = []")
    (simp_all add: first_breach_def within_caps_def add_usage_def projection_def exceeds_def Let_def)

lemma add_usage_assoc: "add_usage (add_usage u v) w = add_usage u (add_usage v w)"
  by (simp add: add_usage_def add.assoc)

lemma pending_usage_admit:
  assumes "map_of table ticket = None" "c \<le> now"
  shows "pending_usage (lower agent) c
      (AList.update ticket \<lparr>inf_agent_id = lower agent, inf_cost_usd = cost, inf_tokens_total = tokens,
         inf_cache_read_tokens = cache_read, inf_admitted_at = now\<rparr> table)
    = add_usage (pending_usage (lower agent) c table) (projection agent cost tokens cache_read)"
  using assms
  by (simp add: update_new pending_usage_def add_usage_def projection_def live_entry_def Let_def)

section \<open>What admission guarantees\<close>

lemma check_caps_admit_cases:
  assumes "check_rolling_caps_and_admit stamp path db agent cost inp outp cr cfg ticket now s
             = ((None, Some t), s')"
    and "rcc_enabled cfg" "rc_ok s"
  obtains u s1 where
    "compute_rolling_usage stamp path db agent (rcc_window_seconds cfg) now s = (Some u, s1)"
    "t = ticket"
    "within_caps agent cfg
       (add_usage (add_usage u (pending_usage (lower agent) (now - INFLIGHT_TTL_SEC) (rc_inflight s)))
          (projection agent cost (inp + outp) cr))"
    "s' = s1\<lparr>rc_inflight := AList.update ticket
        \<lparr>inf_agent_id = lower agent, inf_cost_usd = cost, inf_tokens_total = inp + outp,
         inf_cache_read_tokens = cr, inf_admitted_at = now\<rparr>
        (filter (\<lambda>p. live_entry (now - INFLIGHT_TTL_SEC) (snd p)) (rc_inflight s))\<rparr>"
proof -
  obtain v s1 where comp:
    "compute_rolling_usage stamp path db agent (rcc_window_seconds cfg) now s = (v, s1)"
    by fastforce
  have inf: "rc_inflight s1 = rc_inflight s"
    using compute_inflight[of stamp path db agent "rcc_window_seconds cfg" now s] comp by simp
  have wf: "wf_dict (rc_inflight s1)" and nn: "\<forall>p \<in> set (rc_inflight s1). nonneg_entry (snd p)"
    using assms(3) inf by (auto simp: rc_ok_def)
  show thesis
  proof (cases v)
    case None
    with assms(1,2) comp show thesis
      by (simp add: check_rolling_caps_and_admit_def check_rolling_caps_def)
  next
    case (Some u)
    with assms(1,2) comp have "first_breach agent cost (inp + outp) cr cfg
        (with_pending u (pending_usage (lower agent) (now - INFLIGHT_TTL_SEC) (rc_inflight s1))) = None"
      and "t = ticket" and s': "s' = s1\<lparr>rc_inflight := AList.update ticket
        \<lparr>inf_agent_id = lower agent, inf_cost_usd = cost, inf_tokens_total = inp + outp,
         inf_cache_read_tokens = cr, inf_admitted_at = now\<rparr>
        (filter (\<lambda>p. live_entry (now - INFLIGHT_TTL_SEC) (snd p)) (rc_inflight s1))\<rparr>"
      by (auto simp: check_rolling_caps_and_admit_def check_rolling_caps_def
          pending_spend_totals_eq[OF wf] admit_pending_spend_def split: option.splits)
    then show thesis
      using that comp Some inf by (simp add: with_pending_eq[OF nn[unfolded inf]] first_breach_None)
  qed
qed

lemma map_of_filter_None: "map_of d k = None \<Longrightarrow> map_of (filter P d) k = None"
  by (auto simp: map_of_eq_None_iff)

text \<open>
  Whenever the check-and-admit step hands out a ticket, the usage it measured plus every
  live in-flight projection, the new one included, is within each configured cap: cost, tokens
  and cache reads, for the agent (when it is known) and for the fleet.
\<close>

lemma admission_within_caps:
  assumes "rc_ok s" "rcc_enabled cfg" "map_of (rc_inflight s) ticket = None"
    and "check_rolling_caps_and_admit stamp path db agent cost inp outp cr cfg ticket now s
           = ((None, Some t), s')"
  shows "\<exists>u s1. compute_rolling_usage stamp path db agent (rcc_window_seconds cfg) now s = (Some u, s1) \<and>
           within_caps agent cfg (add_usage u
             (pending_usage (lower agent) (now - INFLIGHT_TTL_SEC) (rc_inflight s')))"
proof -
  obtain u s1 where comp:
      "compute_rolling_usage stamp path db agent (rcc_window_seconds cfg) now s = (Some u, s1)"
    and ok: "within_caps agent cfg
       (add_usage (add_usage u (pending_usage (lower agent) (now - INFLIGHT_TTL_SEC) (rc_inflight s)))
          (projection agent cost (inp + outp) cr))"
    and s': "s' = s1\<lparr>rc_inflight := AList.update ticket
        \<lparr>inf_agent_id = lower agent, inf_cost_usd = cost, inf_tokens_total = inp + outp,
         inf_cache_read_tokens = cr, inf_admitted_at = now\<rparr>
        (filter (\<lambda>p. live_entry (now - INFLIGHT_TTL_SEC) (snd p)) (rc_inflight s))\<rparr>"
    using check_caps_admit_cases[OF assms(4,2,1)] by metis
  have "now - INFLIGHT_TTL_SEC \<le> now" by (simp add: INFLIGHT_TTL_SEC_def)
  then have "pending_usage (lower agent) (now - INFLIGHT_TTL_SEC) (rc_inflight s') =
      add_usage (pending_usage (lower agent) (now - INFLIGHT_TTL_SEC) (rc_inflight s))
        (projection agent cost (inp + outp) cr)"
    using map_of_filter_None[OF assms(3)] by (simp add: s' pending_usage_admit)
  with comp ok show ?thesis by (auto simp: add_usage_assoc)
qed

definition admission_example :: "(cap_breach option \<times> string option) \<times> rc_state" where
  "admission_example = check_rolling_caps_and_admit (\<lambda>_. ''2026'') ''db'' (Rows []) ''a'' 5 100 20 0
     RollingCapsConfig ''t'' 1000 rc_initial"

theorem admission_within_caps_witness:
  "\<exists>u s1. compute_rolling_usage (\<lambda>_. ''2026'') ''db'' (Rows []) ''a'' 3600 1000 rc_initial = (Some u, s1) \<and>
     within_caps ''a'' RollingCapsConfig
       (add_usage u (pending_usage (lower ''a'') 400 (rc_inflight (snd admission_example))))"
proof -
  have ok: "rc_ok rc_initial" by (simp add: rc_ok_def rc_initial_def)
  have cfg: "rcc_enabled RollingCapsConfig" "rcc_window_seconds RollingCapsConfig = 3600"
    by (simp_all add: RollingCapsConfig_def)
  have fr: "map_of (rc_inflight rc_initial) ''t'' = None" by (simp add: rc_initial_def)
  have "fst admission_example = (None, Some ''t'')" by code_simp
  then have run: "check_rolling_caps_and_admit (\<lambda>_. ''2026'') ''db'' (Rows []) ''a'' 5 100 20 0
     RollingCapsConfig ''t'' 1000 rc_initial = ((None, Some ''t''), snd admission_example)"
    by (metis admission_example_def prod.collapse)
  show ?thesis
    using admission_within_caps[OF ok cfg(1) fr run] cfg(2) by (simp add: INFLIGHT_TTL_SEC_def)
qed

section \<open>A burst of requests\<close>

text \<open>
  A burst is a list of requests offered one after another under the admission lock at one
  reading of the clock, before any of them has reached the ledger.  Cached usage is coherent
  when every entry the cache still serves reports the ledger's fleet cost.
\<close>

record cap_request =
  cq_agent :: string
  cq_cost :: money
  cq_input :: int
  cq_output :: int
  cq_cache_read :: int
  cq_ticket :: string

definition offer_request ::
  "(secs \<Rightarrow> string) \<Rightarrow> string \<Rightarrow> monitor_row list \<Rightarrow> rolling_caps_config \<Rightarrow> secs \<Rightarrow> cap_request \<Rightarrow>
   rc_state \<Rightarrow> bool \<times> rc_state" where
  "offer_request stamp path rows cfg now q s =
     (case check_rolling_caps_and_admit stamp path (Rows rows) (cq_agent q) (cq_cost q) (cq_input q)
             (cq_output q) (cq_cache_read q) cfg (cq_ticket q) now s of
        ((_, ticket), s') \<Rightarrow> (ticket \<noteq> None, s'))"

definition ledger_fleet_cost :: "(secs \<Rightarrow> string) \<Rightarrow> monitor_row list \<Rightarrow> rolling_caps_config \<Rightarrow> secs \<Rightarrow> money" where
  "ledger_fleet_cost stamp rows cfg now =
     sum_where (\<lambda>r. str_le (stamp (now - of_int (rcc_window_seconds cfg))) (mr_timestamp r))
       (\<lambda>r. col (mr_estimated_cost r)) rows"

definition fleet_spend ::
  "(secs \<Rightarrow> string) \<Rightarrow> monitor_row list \<Rightarrow> rolling_caps_config \<Rightarrow> secs \<Rightarrow> rc_state \<Rightarrow> money" where
  "fleet_spend stamp rows cfg now s =
     ledger_fleet_cost stamp rows cfg now +
     sum_where (\<lambda>p. live_entry (now - INFLIGHT_TTL_SEC) (snd p)) (inf_cost_usd \<circ> snd) (rc_inflight s)"

definition coherent ::
  "(secs \<Rightarrow> string) \<Rightarrow> monitor_row list \<Rightarrow> rolling_caps_config \<Rightarrow> secs \<Rightarrow> rc_state \<Rightarrow> bool" where
  "coherent stamp rows cfg now s =
     (rc_ok s \<and> (\<forall>(key, expiry, u) \<in> set (rc_usage_cache s).
        ru_fleet_cost_usd u = ledger_fleet_cost stamp rows cfg now))"

definition fresh_request :: "cap_request \<Rightarrow> rc_state \<Rightarrow> bool" where
  "fresh_request q s =
     (map_of (rc_inflight s) (cq_ticket q) = None \<and> 0 \<le> cq_cost q \<and> 0 \<le> cq_input q \<and>
      0 \<le> cq_output q \<and> 0 \<le> cq_cache_read q)"

lemma query_fleet_cost:
  "ru_fleet_cost_usd (query_recorded_usage rows c ss a) =
     sum_where (\<lambda>r. str_le c (mr_timestamp r)) (\<lambda>r. col (mr_estimated_cost r)) rows"
  by (simp add: query_recorded_usage_def sum_columns_def Let_def split: prod.splits)

lemma set_update_subset: "set (AList.update k v d) \<subseteq> insert (k, v) (set d)"
  by (induction d) auto

lemma compute_coherent:
  assumes "coherent stamp rows cfg now s"
    and "compute_rolling_usage stamp path (Rows rows) agent (rcc_window_seconds cfg) now s = (v, s1)"
  shows "(\<exists>u. v = Some u \<and> ru_fleet_cost_usd u = ledger_fleet_cost stamp rows cfg now) \<and>
         coherent stamp rows cfg now s1"
proof (cases "cached_usage (cache_key agent (rcc_window_seconds cfg) path) now s")
  case (Some u)
  then obtain e where "map_of (rc_usage_cache s) (cache_key agent (rcc_window_seconds cfg) path) = Some (e, u)"
    by (auto simp: cached_usage_def split: option.splits if_splits)
  then have "ru_fleet_cost_usd u = ledger_fleet_cost stamp rows cfg now"
    using assms(1) by (auto simp: coherent_def dest!: map_of_SomeD)
  moreover have "v = Some u" "s1 = s"
    using Some assms(2) by (simp_all add: compute_rolling_usage_def Let_def)
  ultimately show ?thesis using assms(1) by simp
next
  case None
  obtain m s2 where gm: "(if agent \<noteq> [] then get_agents_for_window (rcc_window_seconds cfg) now s
      else ([], s)) = (m, s2)" by fastforce
  then have s2: "rc_usage_cache s2 = rc_usage_cache s" "rc_inflight s2 = rc_inflight s"
    by (auto simp: get_agents_for_window_def split: if_splits prod.splits)
  have "v = Some (query_recorded_usage rows (stamp (now - of_int (rcc_window_seconds cfg)))
         (case map_of m (lower agent) of None \<Rightarrow> [] | Some l \<Rightarrow> l) None)"
    and "s1 = store_usage (cache_key agent (rcc_window_seconds cfg) path) (rc_usage_generation s) now (the v) s2"
    using None gm assms(2) by (auto simp: compute_rolling_usage_def Let_def)
  with assms(1) s2 show ?thesis
    using set_update_subset[of "cache_key agent (rcc_window_seconds cfg) path" "(now + USAGE_CACHE_TTL_SEC, the v)"
        "rc_usage_cache s"]
    by (auto simp: coherent_def rc_ok_def store_usage_def query_fleet_cost ledger_fleet_cost_def)
qed

lemma offer_request_step:
  assumes "coherent stamp rows cfg now s" "fresh_request q s" "rcc_enabled cfg"
    and "0 < rcc_per_fleet_max_cost_usd cfg"
    and off: "offer_request stamp path rows cfg now q s = (ok, s')"
  shows "coherent stamp rows cfg now s' \<and>
         fleet_spend stamp rows cfg now s' = fleet_spend stamp rows cfg now s + (if ok then cq_cost q else 0) \<and>
         (ok \<longrightarrow> fleet_spend stamp rows cfg now s' \<le> rcc_per_fleet_max_cost_usd cfg)"
proof -
  obtain v s1 where comp:
    "compute_rolling_usage stamp path (Rows rows) (cq_agent q) (rcc_window_seconds cfg) now s = (v, s1)"
    by fastforce
  obtain u where u: "v = Some u" "ru_fleet_cost_usd u = ledger_fleet_cost stamp rows cfg now"
    and c1: "coherent stamp rows cfg now s1"
    using compute_coherent[OF assms(1) comp] by blast
  have inf: "rc_inflight s1 = rc_inflight s"
    using compute_inflight[of stamp path "Rows rows" "cq_agent q" "rcc_window_seconds cfg" now s] comp by simp
  have wf: "wf_dict (rc_inflight s1)" and nn: "\<forall>p \<in> set (rc_inflight s1). nonneg_entry (snd p)"
    using c1 by (auto simp: coherent_def rc_ok_def)
  let ?live = "\<lambda>p. live_entry (now - INFLIGHT_TTL_SEC) (snd p)"
  let ?d = "filter ?live (rc_inflight s1)"
  let ?e = "\<lparr>inf_agent_id = lower (cq_agent q), inf_cost_usd = cq_cost q, inf_tokens_total = cq_input q + cq_output q,
         inf_cache_read_tokens = cq_cache_read q, inf_admitted_at = now\<rparr>"
  let ?br = "first_breach (cq_agent q) (cq_cost q) (cq_input q + cq_output q) (cq_cache_read q) cfg
        (add_usage u (pending_usage (lower (cq_agent q)) (now - INFLIGHT_TTL_SEC) (rc_inflight s1)))"
  have res: "ok = (?br = None)"
    "s' = s1\<lparr>rc_inflight := if ?br = None then AList.update (cq_ticket q) ?e ?d else ?d\<rparr>"
    using off comp u(1) assms(3)
    by (auto simp: offer_request_def check_rolling_caps_and_admit_def check_rolling_caps_def
        pending_spend_totals_eq[OF wf] with_pending_eq[OF nn] admit_pending_spend_def split: option.splits)
  have new: "map_of ?d (cq_ticket q) = None"
    using assms(2) inf by (simp add: fresh_request_def map_of_filter_None)
  have "nonneg_entry ?e" using assms(2) by (simp add: fresh_request_def nonneg_entry_def)
  then have "coherent stamp rows cfg now s'"
    using c1 new wf nn by (auto simp: coherent_def rc_ok_def res(2) update_new distinct_map_filter map_of_eq_None_iff)
  moreover have "sum_where ?live (inf_cost_usd \<circ> snd) ?d = sum_where ?live (inf_cost_usd \<circ> snd) (rc_inflight s)"
    by (simp add: sum_where_filter inf)
  then have fs: "fleet_spend stamp rows cfg now s' = fleet_spend stamp rows cfg now s + (if ok then cq_cost q else 0)"
    using new by (simp add: fleet_spend_def res update_new live_entry_def INFLIGHT_TTL_SEC_def)
  moreover have "fleet_spend stamp rows cfg now s + cq_cost q \<le> rcc_per_fleet_max_cost_usd cfg" if ok
    using that assms(4) u(2)
    by (simp add: res(1) first_breach_None within_caps_def exceeds_def add_usage_def projection_def
        pending_usage_def fleet_spend_def inf Let_def)
  ultimately show ?thesis by simp
qed

definition cap_inv :: "(secs \<Rightarrow> string) \<Rightarrow> monitor_row list \<Rightarrow> rolling_caps_config \<Rightarrow> secs \<Rightarrow> rc_state \<Rightarrow> bool" where
  "cap_inv stamp rows cfg now s =
     (coherent stamp rows cfg now s \<and> rcc_enabled cfg \<and> 0 < rcc_per_fleet_max_cost_usd cfg)"

interpretation fleet_meter: capped_meter
  "fleet_spend stamp rows cfg now" "offer_request stamp path rows cfg now" cq_cost
  "rcc_per_fleet_max_cost_usd cfg" "cap_inv stamp rows cfg now" fresh_request
  for stamp path rows cfg now
  by unfold_locales (use offer_request_step in \<open>fastforce simp: cap_inv_def\<close>)+

text \<open>
  C8.  However many requests are offered one after another against the same ledger snapshot,
  the ledger's fleet cost plus all in-flight projections stays at or below the fleet cap, and
  it has grown by exactly the projections of the requests that were admitted.
\<close>

theorem burst_never_overshoots_fleet_cap:
  assumes "coherent stamp rows cfg now s" "rcc_enabled cfg" "0 < rcc_per_fleet_max_cost_usd cfg"
    and "fleet_meter.all_valid stamp path rows cfg now qs s"
    and "fleet_spend stamp rows cfg now s \<le> rcc_per_fleet_max_cost_usd cfg"
    and "run_admissions (offer_request stamp path rows cfg now) qs s = (admitted, s')"
  shows "fleet_spend stamp rows cfg now s' \<le> rcc_per_fleet_max_cost_usd cfg \<and>
         fleet_spend stamp rows cfg now s' =
           fleet_spend stamp rows cfg now s + sum_list (map cq_cost admitted)"
proof -
  have inv: "cap_inv stamp rows cfg now s"
    using assms(1-3) by (simp add: cap_inv_def)
  show ?thesis
    using fleet_meter.run_under_cap[OF inv assms(4,6,5)] fleet_meter.run_usage[OF inv assms(4,6)]
    by simp
qed

definition burst_example :: cap_request where
  "burst_example =
     \<lparr>cq_agent = [], cq_cost = 15, cq_input = 10, cq_output = 1, cq_cache_read = 0, cq_ticket = ''t''\<rparr>"

theorem burst_never_overshoots_fleet_cap_witness:
  "fleet_spend (\<lambda>_. []) [] RollingCapsConfig 1000
     (snd (run_admissions (offer_request (\<lambda>_. []) [] [] RollingCapsConfig 1000) [burst_example] rc_initial))
     \<le> 60 \<and>
   fst (run_admissions (offer_request (\<lambda>_. []) [] [] RollingCapsConfig 1000) [burst_example] rc_initial)
     = [burst_example]"
proof -
  have "fst (offer_request (\<lambda>_. []) [] [] RollingCapsConfig 1000 burst_example rc_initial)"
    by code_simp
  then have run: "fst (run_admissions (offer_request (\<lambda>_. []) [] [] RollingCapsConfig 1000)
      [burst_example] rc_initial) = [burst_example]"
    by (simp add: case_prod_beta)
  have coh: "coherent (\<lambda>_. []) [] RollingCapsConfig 1000 rc_initial"
    by (simp add: coherent_def rc_ok_def rc_initial_def)
  have cfg: "rcc_enabled RollingCapsConfig" "0 < rcc_per_fleet_max_cost_usd RollingCapsConfig"
    "rcc_per_fleet_max_cost_usd RollingCapsConfig = 60"
    by (simp_all add: RollingCapsConfig_def)
  have val: "fleet_meter.all_valid (\<lambda>_. []) [] [] RollingCapsConfig 1000 [burst_example] rc_initial"
    by (simp add: fresh_request_def burst_example_def rc_initial_def)
  have low: "fleet_spend (\<lambda>_. []) [] RollingCapsConfig 1000 rc_initial \<le> rcc_per_fleet_max_cost_usd RollingCapsConfig"
    by (simp add: fleet_spend_def ledger_fleet_cost_def rc_initial_def cfg(3))
  show ?thesis
    using burst_never_overshoots_fleet_cap[OF coh cfg(1,2) val low prod.collapse[symmetric]] run cfg(3)
    by simp
qed

section \<open>Failing closed, and the order of the verdicts\<close>

text \<open>
  When the ledger exists but cannot be read and no unexpired cached reading covers the
  request, nothing is admitted: the result is the \<^verbatim>\<open>rolling_cap_unmeasurable\<close> breach with a
  sixty-second retry, there is no ticket, and the in-flight table is unchanged.
\<close>

lemma unreadable_ledger_fails_closed:
  assumes "rcc_enabled cfg"
    and "cached_usage (cache_key agent (rcc_window_seconds cfg) path) now s = None"
    and "check_rolling_caps_and_admit stamp path Unreadable agent cost inp outp cr cfg ticket now s
           = ((breach, t), s')"
  shows "t = None \<and> rc_inflight s' = rc_inflight s \<and>
         (\<exists>b. breach = Some b \<and> br_cap_dimension b = CAP_DIMENSION_UNMEASURABLE \<and>
              br_retry_after_seconds b = 60)"
proof -
  obtain v s1 where comp:
    "compute_rolling_usage stamp path Unreadable agent (rcc_window_seconds cfg) now s = (v, s1)"
    by fastforce
  then have "v = None"
    using assms(2) by (auto simp: compute_rolling_usage_def Let_def split: prod.splits)
  moreover have "rc_inflight s1 = rc_inflight s"
    using compute_inflight[of stamp path Unreadable agent "rcc_window_seconds cfg" now s] comp by simp
  ultimately show ?thesis
    using assms(1,3) comp
    by (auto simp: check_rolling_caps_and_admit_def check_rolling_caps_def unmeasurable_breach_def)
qed

theorem unreadable_ledger_fails_closed_witness:
  "fst (check_rolling_caps_and_admit (\<lambda>_. []) ''db'' Unreadable ''a'' 1 2 3 0 RollingCapsConfig ''t'' 5 rc_initial)
     \<noteq> (None, Some ''t'') \<and>
   rc_inflight (snd (check_rolling_caps_and_admit (\<lambda>_. []) ''db'' Unreadable ''a'' 1 2 3 0 RollingCapsConfig
     ''t'' 5 rc_initial)) = []"
proof -
  obtain b t s' where run: "check_rolling_caps_and_admit (\<lambda>_. []) ''db'' Unreadable ''a'' 1 2 3 0
      RollingCapsConfig ''t'' 5 rc_initial = ((b, t), s')"
    by (metis prod.collapse)
  have "rcc_enabled RollingCapsConfig" by (simp add: RollingCapsConfig_def)
  moreover have "cached_usage (cache_key ''a'' (rcc_window_seconds RollingCapsConfig) ''db'') 5 rc_initial = None"
    by (simp add: cached_usage_def rc_initial_def)
  ultimately show ?thesis
    using unreadable_ledger_fails_closed[OF _ _ run] run by (auto simp: rc_initial_def)
qed

text \<open>
  A check with caps enabled and a measured ledger passes exactly when adding this request
  keeps every engaged dimension within its cap; a breach it reports names a dimension that is
  really over, with the measured usage, the cap and the projection it compared.
\<close>

lemma first_breach_sound_complete:
  "(first_breach agent cost tokens cr cfg u = None \<longleftrightarrow>
      within_caps agent cfg (add_usage u (projection agent cost tokens cr))) \<and>
   (case first_breach agent cost tokens cr cfg u of
      None \<Rightarrow> True
    | Some b \<Rightarrow> 0 < br_cap b \<and> br_cap b < br_used b + br_projected_add b \<and>
                br_window_seconds b = rcc_window_seconds cfg \<and>
                (br_cap_dimension b, br_used b, br_cap b) \<in>
                  set ((if agent = [] then [] else
                         [(''per_agent_cost_usd'', ru_agent_cost_usd u, rcc_per_agent_max_cost_usd cfg),
                          (''per_agent_tokens_total'', of_int (ru_agent_tokens_total u),
                            of_int (rcc_per_agent_max_tokens_total cfg)),
                          (''per_agent_cache_read_tokens'', of_int (ru_agent_cache_read_tokens u),
                            of_int (rcc_per_agent_max_cache_read_tokens cfg))]) @
                       [(''per_fleet_cost_usd'', ru_fleet_cost_usd u, rcc_per_fleet_max_cost_usd cfg),
                        (''per_fleet_tokens_total'', of_int (ru_fleet_tokens_total u),
                          of_int (rcc_per_fleet_max_tokens_total cfg)),
                        (''per_fleet_cache_read_tokens'', of_int (ru_fleet_cache_read_tokens u),
                          of_int (rcc_per_fleet_max_cache_read_tokens cfg))]))"
proof -
  have int_less: "(of_int c :: rat) < of_int a + of_int b \<longleftrightarrow> c < a + b" for a b c :: int
    by (metis of_int_add of_int_less_iff)
  show ?thesis
    unfolding first_breach_None
    by (simp add: first_breach_def CapBreach_def exceeds_def Let_def int_less)
qed

section \<open>Commit, settlement and the usage cache\<close>

text \<open>
  Settling is exact and idempotent, and commit retires the projection together with the
  cache: the entry admitted under a fresh ticket is the one a later lookup returns, the first
  settlement removes exactly it and reports True, a second reports False and changes nothing,
  and after a commit no cached reading survives, also none that a read begun before the commit
  tries to store afterwards.
\<close>

lemma admit_commit_roundtrip:
  assumes "map_of (rc_inflight s) ticket = None" "ticket \<noteq> []"
    and "admit_pending_spend agent cost tokens cr ticket now s = (t, s1)"
    and "settle_pending_spend (Some t) s1 = (settled, s2)"
    and "recorded_spend_committed (Some t) s1 = s3"
  shows "get_admitted_projection (Some t) now s1 =
           Some \<lparr>inf_agent_id = lower agent, inf_cost_usd = cost, inf_tokens_total = tokens,
                 inf_cache_read_tokens = cr, inf_admitted_at = now\<rparr> \<and>
         settled \<and> s2 = s \<and> settle_pending_spend (Some t) s2 = (False, s2) \<and>
         rc_inflight s3 = rc_inflight s \<and>
         cached_usage key later (store_usage key (rc_usage_generation s1) now u s3) = None"
  using assms
  by (auto simp: admit_pending_spend_def settle_pending_spend_def recorded_spend_committed_def
      get_admitted_projection_def INFLIGHT_TTL_SEC_def delete_update_new delete_absent
      store_usage_def cached_usage_def)

theorem admit_commit_roundtrip_witness:
  "fst (settle_pending_spend (Some ''t'') (snd (admit_pending_spend ''a'' 1 2 3 ''t'' 5 rc_initial)))"
proof -
  have fresh: "map_of (rc_inflight rc_initial) ''t'' = None" by (simp add: rc_initial_def)
  have adm: "admit_pending_spend ''a'' 1 2 3 ''t'' 5 rc_initial =
      (''t'', snd (admit_pending_spend ''a'' 1 2 3 ''t'' 5 rc_initial))"
    by (simp add: admit_pending_spend_def)
  show ?thesis
    using admit_commit_roundtrip[OF fresh _ adm prod.collapse[symmetric] refl] by simp
qed

end
