(* ===== verification/Reservation.thy ===== *)
theory Reservation
  imports Rolling_Caps
begin

text \<open>
  The durable reservation store (\<^verbatim>\<open>src/tokenpak/proxy/spend_guard/reservation.py\<close>): reservations,
  request coverage and the accounting generation in the guard database, and the accounting
  domain and request ledger in the monitor database.  A method's transaction is a function from
  the database to an error or a new database; \<open>transact\<close> is the
  \<^verbatim>\<open>BEGIN IMMEDIATE ... commit / rollback\<close> bracket.  Identifiers, the clock, the local-time
  stamp, whether a ledger row carries a valid price receipt (\<^verbatim>\<open>request_pricing\<close>) and the ledger
  view of the provider-token basis (\<^verbatim>\<open>token_accounting.recorded_tokens\<close>) are arguments.  Opening
  and permissions of files, schema migration and query deadlines are not modelled.
\<close>

section \<open>Values and identities\<close>

definition number_ok :: "rat \<Rightarrow> string \<Rightarrow> py_error + unit" where
  "number_ok x name = raise_if (x < 0) (ValueError (name @ '' must be finite and nonnegative''))"

definition identity_ok :: "string \<Rightarrow> string \<Rightarrow> bool \<Rightarrow> py_error + unit" where
  "identity_ok s name allow_empty =
     raise_if ((s = [] \<and> \<not> allow_empty) \<or> 512 < length s \<or> strip s \<noteq> s \<or> (\<exists>c \<in> set s. code c < 32))
       (ValueError (''invalid '' @ name))"

record projection =
  pj_cost_usd :: money
  pj_input_tokens :: int
  pj_output_tokens :: int
  pj_cache_read_tokens :: int

definition Projection :: "money \<Rightarrow> int \<Rightarrow> int \<Rightarrow> int \<Rightarrow> py_error + projection" where
  "Projection cost inp outp cr =
     ebind (number_ok cost ''cost_usd'') (\<lambda>_.
     ebind (number_ok (of_int inp) ''input_tokens'') (\<lambda>_.
     ebind (number_ok (of_int outp) ''output_tokens'') (\<lambda>_.
     ebind (number_ok (of_int cr) ''cache_read_tokens'') (\<lambda>_.
       Inr \<lparr>pj_cost_usd = cost, pj_input_tokens = inp, pj_output_tokens = outp, pj_cache_read_tokens = cr\<rparr>))))"

definition tokens_total :: "projection \<Rightarrow> int" where
  "tokens_total p = pj_input_tokens p + pj_output_tokens p"

datatype basis = Priced_usage | Provider_tokens

record reservation_ref =
  ref_store_path :: string
  ref_ledger_key :: string
  ref_reservation_id :: string
  ref_accounting_basis :: basis

definition is_hex :: "char \<Rightarrow> bool" where
  "is_hex c = (c \<in> set ''0123456789abcdef'')"

definition ReservationRef :: "string \<Rightarrow> string \<Rightarrow> string \<Rightarrow> basis \<Rightarrow> py_error + reservation_ref" where
  "ReservationRef path key rid b =
     ebind (raise_if (\<not> startswith path ''/'') (ValueError ''reservation store path must be absolute'')) (\<lambda>_.
     ebind (raise_if (length key \<noteq> 64 \<or> \<not> list_all is_hex key) (ValueError ''invalid reservation ledger key'')) (\<lambda>_.
     ebind (raise_if (\<not> startswith rid ''tpr_'' \<or> length rid \<noteq> 36 \<or> \<not> list_all is_hex (drop 4 rid))
              (ValueError ''invalid reservation identity'')) (\<lambda>_.
       Inr \<lparr>ref_store_path = path, ref_ledger_key = key, ref_reservation_id = rid, ref_accounting_basis = b\<rparr>)))"

record reservation_breach = cap_breach +
  rb_settled_used :: rat
  rb_reserved_active :: rat

definition pessimistic_output_reservation :: "int option \<Rightarrow> int option \<Rightarrow> int \<Rightarrow> py_error + int" where
  "pessimistic_output_reservation max_tokens model_context input_tokens =
     ebind (number_ok (of_int input_tokens) ''input_tokens'') (\<lambda>_.
     case max_tokens of
       Some m \<Rightarrow>
         ebind (number_ok (of_int m) ''max_tokens'') (\<lambda>_.
         ebind (raise_if (m = 0) (ValueError ''max_tokens must be positive when declared'')) (\<lambda>_. Inr m))
     | None \<Rightarrow>
         (case model_context of
            None \<Rightarrow> Inr 32000
          | Some c \<Rightarrow>
              ebind (number_ok (of_int c) ''model_context_tokens'') (\<lambda>_.
                Inr (if c = 0 then 32000 else min (max 0 (c - input_tokens)) 32000))))"

section \<open>State\<close>

datatype reservation_status = Rv_active | Rv_expired | Rv_settled | Rv_released

record reservation_row =
  rv_id :: string
  rv_session_id :: string
  rv_agent_id :: string
  rv_created_at :: secs
  rv_expires_at :: secs
  rv_input_tokens :: int
  rv_output_tokens :: int
  rv_cost_usd :: money
  rv_cache_read_tokens :: int
  rv_status :: reservation_status
  rv_ledger_key :: string
  rv_owner :: string
  rv_request_id :: string
  rv_basis :: basis
  rv_actual_cost :: "money option"
  rv_actual_tokens :: "int option"
  rv_actual_cache_read :: "int option"
  rv_settled_at :: "secs option"

datatype coverage_state = Cov_preflight | Cov_sending | Cov_awaiting_usage | Cov_recorded | Cov_unsent

record coverage_row =
  cov_id :: string
  cov_ledger_key :: string
  cov_owner :: string
  cov_session_id :: string
  cov_started_at :: secs
  cov_ended_at :: "secs option"
  cov_attempts :: nat
  cov_reservation_id :: string
  cov_state :: coverage_state
  cov_workload :: "string option"
  cov_basis :: basis
  cov_tokens :: "string option"

record generation_row =
  gn_generation :: int
  gn_basis :: "basis option"

record reservation_db =
  rd_reservations :: "reservation_row list"
  rd_coverage :: "coverage_row list"
  rd_generation :: "(string, generation_row) dict"

record monitor_state =
  mo_domain :: "(string \<times> string option) option"
  mo_rows :: "monitor_row list"

record store_config =
  sc_path :: string
  sc_ledger_id :: string
  sc_ledger_key :: string
  sc_audit_sha :: string
  sc_basis :: basis
  sc_history_seconds :: int
  sc_max_records :: int

definition unavailable :: "string \<Rightarrow> py_error + 'a" where
  "unavailable m = Inl (ReservationUnavailable m)"

definition transact :: "('db \<Rightarrow> 'e + ('r \<times> 'db)) \<Rightarrow> 'db \<Rightarrow> ('e + 'r) \<times> 'db" where
  "transact body db = (case body db of Inl e \<Rightarrow> (Inl e, db) | Inr (r, db') \<Rightarrow> (Inr r, db'))"

section \<open>Generation, basis and domain\<close>

definition generation_changed :: "string \<Rightarrow> reservation_db \<Rightarrow> reservation_db" where
  "generation_changed key db =
     db\<lparr>rd_generation := AList.update key
        (case map_of (rd_generation db) key of
           None \<Rightarrow> \<lparr>gn_generation = 1, gn_basis = None\<rparr>
         | Some g \<Rightarrow> g\<lparr>gn_generation := gn_generation g + 1\<rparr>) (rd_generation db)\<rparr>"

definition read_generation :: "store_config \<Rightarrow> reservation_db \<Rightarrow> py_error + int" where
  "read_generation st db =
     (case map_of (rd_generation db) (sc_ledger_key st) of
        None \<Rightarrow> unavailable ''accounting generation is unavailable''
      | Some g \<Rightarrow> ebind (number_ok (of_int (gn_generation g)) ''generation'') (\<lambda>_. Inr (gn_generation g)))"

definition bound_basis :: "store_config \<Rightarrow> reservation_db \<Rightarrow> basis option" where
  "bound_basis st db =
     (case map_of (rd_generation db) (sc_ledger_key st) of None \<Rightarrow> None | Some g \<Rightarrow> gn_basis g)"

definition check_basis :: "store_config \<Rightarrow> reservation_db \<Rightarrow> py_error + unit" where
  "check_basis st db =
     raise_if ((case bound_basis st db of None \<Rightarrow> Priced_usage | Some b \<Rightarrow> b) \<noteq> sc_basis st)
       (ReservationUnavailable ''accounting domain basis differs'')"

definition bind_basis :: "store_config \<Rightarrow> reservation_db \<Rightarrow> py_error + reservation_db" where
  "bind_basis st db =
     (if bound_basis st db \<noteq> None then ebind (check_basis st db) (\<lambda>_. Inr db)
      else if sc_basis st = Provider_tokens \<and>
              (list_ex (\<lambda>r. rv_ledger_key r = sc_ledger_key st) (rd_reservations db) \<or>
               list_ex (\<lambda>c. cov_ledger_key c = sc_ledger_key st) (rd_coverage db))
      then unavailable ''existing accounting domain cannot change basis''
      else let db1 = db\<lparr>rd_generation := AList.update (sc_ledger_key st)
                 (case map_of (rd_generation db) (sc_ledger_key st) of
                    None \<Rightarrow> \<lparr>gn_generation = 0, gn_basis = Some (sc_basis st)\<rparr>
                  | Some g \<Rightarrow> g\<lparr>gn_basis := Some (sc_basis st)\<rparr>) (rd_generation db)\<rparr>
           in ebind (check_basis st db1) (\<lambda>_. Inr db1))"

definition check_domain :: "store_config \<Rightarrow> monitor_state \<Rightarrow> py_error + unit" where
  "check_domain st mo =
     raise_if (mo_domain mo \<noteq> Some (sc_ledger_id st, Some (sc_audit_sha st)))
       (ReservationUnavailable ''monitor belongs to another reservation store or generation'')"

definition bind_domain :: "store_config \<Rightarrow> monitor_state \<Rightarrow> py_error + monitor_state" where
  "bind_domain st mo =
     (if mo_domain mo = Some (sc_ledger_id st, Some (sc_audit_sha st)) then Inr mo
      else let mo1 = (if mo_domain mo = Some (sc_ledger_id st, None)
                      then mo\<lparr>mo_domain := Some (sc_ledger_id st, Some (sc_audit_sha st))\<rparr> else mo)
           in ebind (check_domain st mo1) (\<lambda>_. Inr mo1))"

section \<open>History\<close>

definition prune_limit :: nat where "prune_limit = 1000"

definition prunable_reservation :: "string \<Rightarrow> secs \<Rightarrow> reservation_row \<Rightarrow> bool" where
  "prunable_reservation key cutoff r =
     (rv_ledger_key r = key \<and> rv_status r \<in> {Rv_settled, Rv_released} \<and>
      (case rv_settled_at r of None \<Rightarrow> False | Some t \<Rightarrow> t < cutoff))"

definition prunable_coverage :: "string \<Rightarrow> secs \<Rightarrow> coverage_row \<Rightarrow> bool" where
  "prunable_coverage key cutoff c =
     (cov_ledger_key c = key \<and> cov_state c \<in> {Cov_recorded, Cov_unsent} \<and>
      (case cov_ended_at c of None \<Rightarrow> False | Some t \<Rightarrow> t < cutoff))"

text \<open>\<^verbatim>\<open>DELETE ... WHERE id IN (SELECT id ... LIMIT n)\<close>: drop the first \<open>n\<close> matching rows.\<close>

fun drop_matching :: "nat \<Rightarrow> ('r \<Rightarrow> bool) \<Rightarrow> 'r list \<Rightarrow> nat \<times> 'r list" where
  "drop_matching n P [] = (0, [])"
| "drop_matching n P (r # rs) =
     (if P r \<and> 0 < n then (case drop_matching (n - 1) P rs of (k, qs) \<Rightarrow> (k + 1, qs))
      else (case drop_matching n P rs of (k, qs) \<Rightarrow> (k, r # qs)))"

definition maintain_history ::
  "store_config \<Rightarrow> int \<Rightarrow> secs \<Rightarrow> reservation_db \<Rightarrow> py_error + reservation_db" where
  "maintain_history st window now db =
     (let cutoff = now - of_int (max (sc_history_seconds st) window);
          (d1, rs) = drop_matching prune_limit (prunable_reservation (sc_ledger_key st) cutoff) (rd_reservations db);
          db1 = db\<lparr>rd_reservations := rs\<rparr>
      in ebind (raise_if (sc_max_records st \<le> int (length rs))
                  (ReservationUnavailable ''reservation metadata capacity exhausted'')) (\<lambda>_.
         let (d2, cs) = drop_matching prune_limit (prunable_coverage (sc_ledger_key st) cutoff) (rd_coverage db1);
             db2 = db1\<lparr>rd_coverage := cs\<rparr>
         in ebind (raise_if (sc_max_records st \<le> int (length cs))
                     (ReservationUnavailable ''reservation metadata capacity exhausted'')) (\<lambda>_.
            Inr (if 0 < d1 + d2 then generation_changed (sc_ledger_key st) db2 else db2))))"

section \<open>Recorded and active usage\<close>

datatype price_receipt = Price_ok | Price_missing | Price_invalid

type_synonym committed = "(string, string \<times> string) dict"

definition bad_column :: "'a::linordered_idom option \<Rightarrow> bool" where
  "bad_column v = (case v of None \<Rightarrow> True | Some x \<Rightarrow> x < 0)"

definition validate_recorded_rows :: "string \<Rightarrow> monitor_row list \<Rightarrow> py_error + unit" where
  "validate_recorded_rows cutoff rows =
     (let recent = filter (\<lambda>r. str_le cutoff (mr_timestamp r)) rows in
      ebind (raise_if (list_ex (\<lambda>r. bad_column (mr_estimated_cost r) \<or> bad_column (mr_input_tokens r) \<or>
                        bad_column (mr_output_tokens r) \<or> bad_column (mr_cache_read_tokens r)) recent)
               (ReservationUnavailable ''recorded usage contains unmeasurable values'')) (\<lambda>_.
      raise_if (list_ex (\<lambda>r. mr_guard_reservation_id r \<noteq> [] \<and> \<not> mr_guard_usage_complete r) recent)
        (ReservationUnavailable ''recorded reservation usage is incomplete'')))"

definition validate_recorded_prices ::
  "(monitor_row \<Rightarrow> price_receipt) \<Rightarrow> string \<Rightarrow> monitor_row list \<Rightarrow> py_error + unit" where
  "validate_recorded_prices receipt cutoff rows =
     (let recent = filter (\<lambda>r. str_le cutoff (mr_timestamp r)) rows in
      ebind (raise_if (list_ex (\<lambda>r. receipt r = Price_missing) recent)
               (ReservationUnavailable ''recorded monetary pricing is incomplete'')) (\<lambda>_.
      ebind (raise_if (list_ex (\<lambda>r. receipt r = Price_invalid) (take 100000 recent))
               (ReservationUnavailable ''recorded monetary pricing is invalid'')) (\<lambda>_.
      raise_if (100000 < length recent)
        (ReservationUnavailable ''recorded monetary pricing row limit exceeded''))))"

definition committed_rows :: "string \<Rightarrow> monitor_row list \<Rightarrow> committed" where
  "committed_rows key rows =
     foldl (\<lambda>d r. AList.update (mr_guard_reservation_id r) (mr_session_id r, sql_lower (mr_agent_id r)) d) []
       (filter (\<lambda>r. mr_guard_ledger_key r = key \<and> mr_guard_reservation_id r \<noteq> [] \<and> mr_guard_usage_complete r) rows)"

record ledger_env =
  le_stamp :: "secs \<Rightarrow> string"
  le_receipt :: "monitor_row \<Rightarrow> price_receipt"
  le_tokens :: "string \<Rightarrow> string \<Rightarrow> reservation_db \<Rightarrow> py_error + (rolling_usage \<times> committed)"

definition recorded ::
  "ledger_env \<Rightarrow> store_config \<Rightarrow> string \<Rightarrow> int \<Rightarrow> secs \<Rightarrow> bool \<Rightarrow> reservation_db \<Rightarrow> monitor_state \<Rightarrow>
   py_error + (rolling_usage \<times> committed)" where
  "recorded env st agent_id window now require_prices db mo =
     (let cutoff = le_stamp env (now - of_int window) in
      ebind (check_domain st mo) (\<lambda>_.
      if sc_basis st = Provider_tokens
      then ebind (raise_if require_prices
                    (ReservationUnavailable ''token accounting requires its unpriced guard transaction''))
             (\<lambda>_. le_tokens env cutoff agent_id db)
      else ebind (validate_recorded_rows cutoff (mo_rows mo)) (\<lambda>_.
           ebind (if require_prices then validate_recorded_prices (le_receipt env) cutoff (mo_rows mo) else Inr ())
             (\<lambda>_. Inr (query_recorded_usage (mo_rows mo) cutoff [] (Some agent_id),
                       committed_rows (sc_ledger_key st) (mo_rows mo))))))"

definition add_row :: "string \<Rightarrow> basis \<Rightarrow> reservation_row \<Rightarrow> rolling_usage \<Rightarrow> rolling_usage" where
  "add_row agent_id b r u =
     (let cost = (if b = Priced_usage then rv_cost_usd r else 0);
          tokens = rv_input_tokens r + rv_output_tokens r;
          own = (rv_agent_id r = agent_id)
      in \<lparr>ru_agent_cost_usd = ru_agent_cost_usd u + (if own then cost else 0),
          ru_agent_tokens_total = ru_agent_tokens_total u + (if own then tokens else 0),
          ru_agent_cache_read_tokens = ru_agent_cache_read_tokens u + (if own then rv_cache_read_tokens r else 0),
          ru_fleet_cost_usd = ru_fleet_cost_usd u + cost,
          ru_fleet_tokens_total = ru_fleet_tokens_total u + tokens,
          ru_fleet_cache_read_tokens = ru_fleet_cache_read_tokens u + rv_cache_read_tokens r\<rparr>)"

fun active_loop ::
  "string \<Rightarrow> basis \<Rightarrow> secs \<Rightarrow> committed \<Rightarrow> reservation_row list \<Rightarrow> rolling_usage \<Rightarrow> py_error + rolling_usage" where
  "active_loop agent_id b now com [] u = Inr u"
| "active_loop agent_id b now com (r # rs) u =
     (case map_of com (rv_id r) of
        Some who \<Rightarrow>
          if who \<noteq> (rv_session_id r, rv_agent_id r)
          then unavailable ''committed reservation attribution changed''
          else active_loop agent_id b now com rs u
      | None \<Rightarrow>
          ebind (number_ok (rv_expires_at r) ''expires_at'') (\<lambda>_.
          if rv_expires_at r \<le> now \<or> rv_status r = Rv_expired
          then unavailable ''unresolved expired reservation''
          else ebind (Projection (rv_cost_usd r) (rv_input_tokens r) (rv_output_tokens r) (rv_cache_read_tokens r))
                 (\<lambda>_. active_loop agent_id b now com rs (add_row agent_id b r u))))"

definition open_status :: "reservation_row \<Rightarrow> bool" where
  "open_status r = (rv_status r \<in> {Rv_active, Rv_expired})"

definition active ::
  "store_config \<Rightarrow> string \<Rightarrow> secs \<Rightarrow> committed \<Rightarrow> reservation_db \<Rightarrow> py_error + rolling_usage" where
  "active st agent_id now com db =
     ebind (raise_if (list_ex (\<lambda>r. rv_ledger_key r = [] \<and> open_status r) (rd_reservations db))
              (ReservationUnavailable ''active legacy reservations have unknown ledger scope'')) (\<lambda>_.
     ebind (check_basis st db) (\<lambda>_.
       active_loop agent_id (sc_basis st) now com
         (filter (\<lambda>r. rv_ledger_key r = sc_ledger_key st \<and> open_status r) (rd_reservations db)) blank_usage))"

definition read_active :: "store_config \<Rightarrow> string \<Rightarrow> secs \<Rightarrow> reservation_db \<Rightarrow> py_error + rolling_usage" where
  "read_active st agent_id now db =
     ebind (identity_ok agent_id ''agent_id'' True) (\<lambda>_. active st (lower agent_id) now [] db)"

section \<open>Reserving\<close>

record reserve_args =
  ra_session_id :: string
  ra_agent_id :: string
  ra_owner :: string
  ra_request_id :: string
  ra_projection :: projection
  ra_caps :: rolling_caps_config
  ra_ttl_seconds :: int
  ra_force :: bool

text \<open>The rows of \<^verbatim>\<open>_DIMENSIONS\<close>: name, agent scope, recorded, active, cap, addition.\<close>

definition dimensions ::
  "rolling_caps_config \<Rightarrow> projection \<Rightarrow> rolling_usage \<Rightarrow> rolling_usage \<Rightarrow>
   (string \<times> bool \<times> rat \<times> rat \<times> rat \<times> rat) list" where
  "dimensions caps p rec act =
     [(''per_agent_cost_usd'', True, ru_agent_cost_usd rec, ru_agent_cost_usd act,
         rcc_per_agent_max_cost_usd caps, pj_cost_usd p),
      (''per_agent_tokens_total'', True, of_int (ru_agent_tokens_total rec), of_int (ru_agent_tokens_total act),
         of_int (rcc_per_agent_max_tokens_total caps), of_int (tokens_total p)),
      (''per_agent_cache_read_tokens'', True, of_int (ru_agent_cache_read_tokens rec),
         of_int (ru_agent_cache_read_tokens act), of_int (rcc_per_agent_max_cache_read_tokens caps),
         of_int (pj_cache_read_tokens p)),
      (''per_fleet_cost_usd'', False, ru_fleet_cost_usd rec, ru_fleet_cost_usd act,
         rcc_per_fleet_max_cost_usd caps, pj_cost_usd p),
      (''per_fleet_tokens_total'', False, of_int (ru_fleet_tokens_total rec), of_int (ru_fleet_tokens_total act),
         of_int (rcc_per_fleet_max_tokens_total caps), of_int (tokens_total p)),
      (''per_fleet_cache_read_tokens'', False, of_int (ru_fleet_cache_read_tokens rec),
         of_int (ru_fleet_cache_read_tokens act), of_int (rcc_per_fleet_max_cache_read_tokens caps),
         of_int (pj_cache_read_tokens p))]"

definition over_cap :: "string \<Rightarrow> (string \<times> bool \<times> rat \<times> rat \<times> rat \<times> rat) \<Rightarrow> bool" where
  "over_cap agent_id d =
     (case d of (name, agent_scope, rec, act, cap, add) \<Rightarrow>
        \<not> (cap \<le> 0 \<or> (agent_scope \<and> agent_id = [])) \<and> cap < rec + act + add)"

definition breach_of :: "string \<Rightarrow> rolling_caps_config \<Rightarrow> int \<Rightarrow> (string \<times> bool \<times> rat \<times> rat \<times> rat \<times> rat) \<Rightarrow> reservation_breach" where
  "breach_of agent_id caps ttl d =
     (case d of (name, agent_scope, rec, act, cap, add) \<Rightarrow>
        \<lparr>br_cap_dimension = name, br_agent_id = (if agent_id = [] then ''unknown'' else agent_id),
         br_window_seconds = rcc_window_seconds caps, br_used = rec + act, br_cap = cap,
         br_projected_add = add, br_retry_after_seconds = min ttl 60,
         rb_settled_used = rec, rb_reserved_active = act\<rparr>)"

definition caps_numbers :: "rolling_caps_config \<Rightarrow> py_error + unit" where
  "caps_numbers caps =
     ebind (number_ok (rcc_per_agent_max_cost_usd caps) ''per_agent_max_cost_usd'') (\<lambda>_.
     ebind (number_ok (of_int (rcc_per_agent_max_tokens_total caps)) ''per_agent_max_tokens_total'') (\<lambda>_.
     ebind (number_ok (of_int (rcc_per_agent_max_cache_read_tokens caps)) ''per_agent_max_cache_read_tokens'') (\<lambda>_.
     ebind (number_ok (rcc_per_fleet_max_cost_usd caps) ''per_fleet_max_cost_usd'') (\<lambda>_.
     ebind (number_ok (of_int (rcc_per_fleet_max_tokens_total caps)) ''per_fleet_max_tokens_total'') (\<lambda>_.
       number_ok (of_int (rcc_per_fleet_max_cache_read_tokens caps)) ''per_fleet_max_cache_read_tokens'')))))"

definition check_reserve_args :: "store_config \<Rightarrow> reserve_args \<Rightarrow> py_error + unit" where
  "check_reserve_args st a =
     ebind (identity_ok (ra_session_id a) ''session_id'' True) (\<lambda>_.
     ebind (identity_ok (ra_agent_id a) ''agent_id'' True) (\<lambda>_.
     ebind (identity_ok (ra_owner a) ''owner_instance_id'' False) (\<lambda>_.
     ebind (identity_ok (ra_request_id a) ''request_id'' False) (\<lambda>_.
     ebind (number_ok (of_int (ra_ttl_seconds a)) ''ttl_seconds'') (\<lambda>_.
     ebind (number_ok (of_int (rcc_window_seconds (ra_caps a))) ''window_seconds'') (\<lambda>_.
     ebind (raise_if (ra_ttl_seconds a = 0 \<or> rcc_window_seconds (ra_caps a) = 0)
              (ValueError ''reservation TTL and rolling window must be positive'')) (\<lambda>_.
     ebind (caps_numbers (ra_caps a)) (\<lambda>_.
       raise_if (sc_basis st = Provider_tokens \<and>
                 (ra_force a \<or> \<not> rcc_enabled (ra_caps a) \<or> rcc_per_agent_max_cost_usd (ra_caps a) \<noteq> 0 \<or>
                  rcc_per_fleet_max_cost_usd (ra_caps a) \<noteq> 0 \<or> rcc_per_fleet_max_tokens_total (ra_caps a) \<le> 0))
         (ReservationUnavailable ''provider-token admission requires token caps without force or monetary caps'')))))))))"

definition reservation_of :: "store_config \<Rightarrow> string \<Rightarrow> secs \<Rightarrow> reserve_args \<Rightarrow> reservation_row" where
  "reservation_of st rid now a =
     \<lparr>rv_id = rid, rv_session_id = ra_session_id a, rv_agent_id = lower (ra_agent_id a),
      rv_created_at = now, rv_expires_at = now + of_int (ra_ttl_seconds a),
      rv_input_tokens = pj_input_tokens (ra_projection a), rv_output_tokens = pj_output_tokens (ra_projection a),
      rv_cost_usd = pj_cost_usd (ra_projection a), rv_cache_read_tokens = pj_cache_read_tokens (ra_projection a),
      rv_status = Rv_active, rv_ledger_key = sc_ledger_key st, rv_owner = ra_owner a,
      rv_request_id = ra_request_id a, rv_basis = sc_basis st, rv_actual_cost = None, rv_actual_tokens = None,
      rv_actual_cache_read = None, rv_settled_at = None\<rparr>"

definition insert_reservation :: "reservation_row \<Rightarrow> reservation_db \<Rightarrow> py_error + reservation_db" where
  "insert_reservation r db =
     (if rv_id r \<in> rv_id ` set (rd_reservations db)
      then Inl (IntegrityError ''budget_reservations.reservation_id'')
      else Inr (db\<lparr>rd_reservations := rd_reservations db @ [r]\<rparr>))"

definition check_caps ::
  "ledger_env \<Rightarrow> store_config \<Rightarrow> reserve_args \<Rightarrow> secs \<Rightarrow> monitor_state \<Rightarrow> reservation_db \<Rightarrow>
   py_error + reservation_breach option" where
  "check_caps env st a now mo db =
     (let agent_id = lower (ra_agent_id a); caps = ra_caps a in
      if ra_force a \<or> \<not> rcc_enabled caps then Inr None
      else ebind (recorded env st agent_id (rcc_window_seconds caps) now
                    (0 < rcc_per_fleet_max_cost_usd caps \<or>
                     (agent_id \<noteq> [] \<and> 0 < rcc_per_agent_max_cost_usd caps)) db mo) (\<lambda>(rec, com).
           ebind (active st agent_id now com db) (\<lambda>act.
             Inr (map_option (breach_of agent_id caps (ra_ttl_seconds a))
                    (find (over_cap agent_id) (dimensions caps (ra_projection a) rec act))))))"

text \<open>The transaction body; a breach rolls back, so it returns the database it started from.\<close>

definition reserve_body ::
  "ledger_env \<Rightarrow> store_config \<Rightarrow> reserve_args \<Rightarrow> string \<Rightarrow> secs \<Rightarrow> monitor_state \<Rightarrow> reservation_db \<Rightarrow>
   py_error + (reservation_breach option \<times> reservation_db)" where
  "reserve_body env st a rid now mo db =
     ebind (bind_basis st db) (\<lambda>db1.
     ebind (maintain_history st (rcc_window_seconds (ra_caps a)) now db1) (\<lambda>db2.
     ebind (check_caps env st a now mo db2) (\<lambda>breach.
       case breach of
         Some b \<Rightarrow> Inr (Some b, db)
       | None \<Rightarrow>
           ebind (insert_reservation (reservation_of st rid now a) db2) (\<lambda>db3.
             Inr (None, generation_changed (sc_ledger_key st) db3)))))"

definition reserve ::
  "ledger_env \<Rightarrow> store_config \<Rightarrow> reserve_args \<Rightarrow> string \<Rightarrow> secs \<Rightarrow> reservation_db \<times> monitor_state \<Rightarrow>
   (py_error + (reservation_ref option \<times> reservation_breach option)) \<times> (reservation_db \<times> monitor_state)" where
  "reserve env st a rid now s =
     (case check_reserve_args st a of
        Inl e \<Rightarrow> (Inl e, s)
      | Inr _ \<Rightarrow>
          (case bind_domain st (snd s) of
             Inl e \<Rightarrow> (Inl e, s)
           | Inr mo \<Rightarrow>
               (case transact (reserve_body env st a rid now mo) (fst s) of
                  (Inl e, db) \<Rightarrow> (Inl e, (db, mo))
                | (Inr (Some b), db) \<Rightarrow> (Inr (None, Some b), (db, mo))
                | (Inr None, db) \<Rightarrow>
                    (case ReservationRef (sc_path st) (sc_ledger_key st) rid (sc_basis st) of
                       Inl e \<Rightarrow> (Inl e, (db, mo))
                     | Inr ref \<Rightarrow> (Inr (Some ref, None), (db, mo))))))"

section \<open>Settling and releasing\<close>

definition ledger_matches :: "reservation_ref \<Rightarrow> monitor_row list \<Rightarrow> monitor_row list" where
  "ledger_matches ref rows =
     filter (\<lambda>r. mr_guard_reservation_id r = ref_reservation_id ref \<and>
                 mr_guard_ledger_key r = ref_ledger_key ref \<and> mr_guard_usage_complete r) rows"

definition row_projection :: "monitor_row \<Rightarrow> py_error + projection" where
  "row_projection r =
     (case (mr_estimated_cost r, mr_input_tokens r, mr_output_tokens r, mr_cache_read_tokens r) of
        (Some c, Some i, Some out, Some cr) \<Rightarrow> Projection c i out cr
      | _ \<Rightarrow> Inl (ValueError ''invalid numeric type''))"

definition committed_usage :: "store_config \<Rightarrow> reservation_ref \<Rightarrow> projection \<Rightarrow> monitor_state \<Rightarrow> py_error + monitor_row" where
  "committed_usage st ref actual mo =
     ebind (check_domain st mo) (\<lambda>_.
       case ledger_matches ref (mo_rows mo) of
         [r] \<Rightarrow> ebind (row_projection r) (\<lambda>p.
                  if p \<noteq> actual then unavailable ''reservation settlement lacks matching committed usage'' else Inr r)
       | _ \<Rightarrow> unavailable ''reservation settlement lacks matching committed usage'')"

definition find_reservation :: "string \<Rightarrow> string \<Rightarrow> reservation_db \<Rightarrow> reservation_row option" where
  "find_reservation rid key db = find (\<lambda>r. rv_id r = rid \<and> rv_ledger_key r = key) (rd_reservations db)"

definition settle_body ::
  "store_config \<Rightarrow> reservation_ref \<Rightarrow> projection \<Rightarrow> monitor_row \<Rightarrow> secs \<Rightarrow> reservation_db \<Rightarrow> py_error + (bool \<times> reservation_db)" where
  "settle_body st ref actual row now db =
     (case find_reservation (ref_reservation_id ref) (sc_ledger_key st) db of
        None \<Rightarrow> unavailable ''committed reservation attribution changed''
      | Some r \<Rightarrow>
          if (rv_session_id r, rv_agent_id r) \<noteq> (mr_session_id row, sql_lower (mr_agent_id row))
          then unavailable ''committed reservation attribution changed''
          else (case update_where
                  (\<lambda>r. rv_id r = ref_reservation_id ref \<and> rv_ledger_key r = sc_ledger_key st \<and> open_status r)
                  (\<lambda>r. r\<lparr>rv_status := Rv_settled, rv_actual_cost := Some (pj_cost_usd actual),
                        rv_actual_tokens := Some (tokens_total actual),
                        rv_actual_cache_read := Some (pj_cache_read_tokens actual), rv_settled_at := Some now\<rparr>)
                  (rd_reservations db) of
                  (n, rs) \<Rightarrow>
                    Inr (0 < n,
                         if 0 < n
                         then generation_changed (sc_ledger_key st) (db\<lparr>rd_reservations := rs,
                                rd_coverage := snd (update_where
                                  (\<lambda>c. cov_ledger_key c = sc_ledger_key st \<and>
                                       cov_reservation_id c = ref_reservation_id ref \<and> cov_attempts c = 1)
                                  (\<lambda>c. c\<lparr>cov_state := Cov_recorded\<rparr>) (rd_coverage db))\<rparr>)
                         else db)))"

definition same_scope :: "store_config \<Rightarrow> reservation_ref \<Rightarrow> bool" where
  "same_scope st ref = (ref_store_path ref = sc_path st \<and> ref_ledger_key ref = sc_ledger_key st)"

definition settle_after_commit ::
  "store_config \<Rightarrow> reservation_ref \<Rightarrow> projection \<Rightarrow> secs \<Rightarrow> monitor_state \<Rightarrow> reservation_db \<Rightarrow>
   (py_error + bool) \<times> reservation_db" where
  "settle_after_commit st ref actual now mo db =
     (if sc_basis st \<noteq> Priced_usage \<or> ref_accounting_basis ref \<noteq> Priced_usage
      then (unavailable ''token-only rows cannot settle priced usage'', db)
      else if \<not> same_scope st ref
      then (Inl (ValueError ''reservation reference belongs to another accounting scope''), db)
      else case committed_usage st ref actual mo of
             Inl e \<Rightarrow> (Inl e, db)
           | Inr row \<Rightarrow> transact (settle_body st ref actual row now) db)"

definition release_body :: "store_config \<Rightarrow> reservation_ref \<Rightarrow> secs \<Rightarrow> reservation_db \<Rightarrow> py_error + (bool \<times> reservation_db)" where
  "release_body st ref now db =
     ebind (check_basis st db) (\<lambda>_.
     ebind (raise_if (ref_accounting_basis ref \<noteq> sc_basis st)
              (ReservationUnavailable ''reservation release accounting basis differs'')) (\<lambda>_.
     ebind (raise_if (sc_basis st = Provider_tokens \<and>
              list_ex (\<lambda>c. cov_ledger_key c = sc_ledger_key st \<and>
                           cov_reservation_id c = ref_reservation_id ref \<and> 0 < cov_attempts c) (rd_coverage db))
              (ReservationUnavailable ''sent token reservation cannot be released as unsent'')) (\<lambda>_.
       case update_where
          (\<lambda>r. rv_id r = ref_reservation_id ref \<and> rv_ledger_key r = sc_ledger_key st \<and> rv_status r = Rv_active)
          (\<lambda>r. r\<lparr>rv_status := Rv_released, rv_settled_at := Some now\<rparr>) (rd_reservations db) of
         (n, rs) \<Rightarrow>
           Inr (0 < n, if 0 < n then generation_changed (sc_ledger_key st) (db\<lparr>rd_reservations := rs\<rparr>) else db))))"

definition release_unsent ::
  "store_config \<Rightarrow> reservation_ref \<Rightarrow> secs \<Rightarrow> reservation_db \<Rightarrow> (py_error + bool) \<times> reservation_db" where
  "release_unsent st ref now db =
     (if \<not> same_scope st ref
      then (Inl (ValueError ''reservation reference belongs to another accounting scope''), db)
      else transact (release_body st ref now) db)"

section \<open>Request coverage\<close>

definition coverage_of :: "store_config \<Rightarrow> string \<Rightarrow> string \<Rightarrow> string \<Rightarrow> secs \<Rightarrow> coverage_row" where
  "coverage_of st cid session owner now =
     \<lparr>cov_id = cid, cov_ledger_key = sc_ledger_key st, cov_owner = owner, cov_session_id = session,
      cov_started_at = now, cov_ended_at = None, cov_attempts = 0, cov_reservation_id = [],
      cov_state = Cov_preflight, cov_workload = None, cov_basis = sc_basis st, cov_tokens = None\<rparr>"

definition begin_body ::
  "store_config \<Rightarrow> string \<Rightarrow> string \<Rightarrow> string \<Rightarrow> int \<Rightarrow> secs \<Rightarrow> reservation_db \<Rightarrow> py_error + (string \<times> reservation_db)" where
  "begin_body st cid session owner window now db =
     ebind (bind_basis st db) (\<lambda>db1.
     ebind (maintain_history st window now db1) (\<lambda>db2.
     ebind (raise_if (cid \<in> cov_id ` set (rd_coverage db2))
              (IntegrityError ''budget_guard_coverage.coverage_id'')) (\<lambda>_.
       Inr (cid, generation_changed (sc_ledger_key st)
              (db2\<lparr>rd_coverage := rd_coverage db2 @ [coverage_of st cid session owner now]\<rparr>)))))"

definition begin_request ::
  "store_config \<Rightarrow> string \<Rightarrow> string \<Rightarrow> string \<Rightarrow> int \<Rightarrow> secs \<Rightarrow> reservation_db \<times> monitor_state \<Rightarrow>
   (py_error + string) \<times> (reservation_db \<times> monitor_state)" where
  "begin_request st cid session owner window now s =
     (case ebind (identity_ok session ''session_id'' True) (\<lambda>_.
           ebind (identity_ok owner ''owner_instance_id'' False) (\<lambda>_.
             number_ok (of_int window) ''window_seconds'')) of
        Inl e \<Rightarrow> (Inl e, s)
      | Inr _ \<Rightarrow>
          (case bind_domain st (snd s) of
             Inl e \<Rightarrow> (Inl e, s)
           | Inr mo \<Rightarrow>
               (case transact (begin_body st cid session owner window now) (fst s) of
                  (r, db) \<Rightarrow> (r, (db, mo)))))"

definition update_coverage ::
  "store_config \<Rightarrow> string \<Rightarrow> (coverage_row \<Rightarrow> coverage_row) \<Rightarrow> reservation_db \<Rightarrow> py_error + (unit \<times> reservation_db)" where
  "update_coverage st cid f db =
     (case update_where (\<lambda>c. cov_id c = cid \<and> cov_ledger_key c = sc_ledger_key st) f (rd_coverage db) of
        (n, cs) \<Rightarrow>
          if n \<noteq> 1 then unavailable ''request coverage record is unavailable''
          else Inr ((), generation_changed (sc_ledger_key st) (db\<lparr>rd_coverage := cs\<rparr>)))"

text \<open>The unique index over ledger key and non-empty reservation id.\<close>

definition reservation_unclaimed :: "store_config \<Rightarrow> string \<Rightarrow> string \<Rightarrow> reservation_db \<Rightarrow> bool" where
  "reservation_unclaimed st cid rid db =
     (rid = [] \<or> \<not> list_ex (\<lambda>c. cov_id c \<noteq> cid \<and> cov_ledger_key c = sc_ledger_key st \<and>
                                  cov_reservation_id c = rid) (rd_coverage db))"

definition send_body ::
  "store_config \<Rightarrow> string \<Rightarrow> string \<Rightarrow> string option \<Rightarrow> reservation_db \<Rightarrow> py_error + (unit \<times> reservation_db)" where
  "send_body st cid rid workload db =
     (if (\<exists>c \<in> set (rd_coverage db). cov_id c = cid \<and> cov_ledger_key c = sc_ledger_key st) \<and>
         \<not> reservation_unclaimed st cid rid db
      then Inl (IntegrityError ''budget_guard_coverage.ledger_key, reservation_id'')
      else update_coverage st cid (\<lambda>c. c\<lparr>cov_attempts := cov_attempts c + 1, cov_reservation_id := rid,
             cov_state := Cov_sending, cov_workload := workload\<rparr>) db)"

definition attempted_send ::
  "store_config \<Rightarrow> string \<Rightarrow> reservation_ref option \<Rightarrow> string option \<Rightarrow> reservation_db \<Rightarrow>
   (py_error + unit) \<times> reservation_db" where
  "attempted_send st cid ref workload db =
     (case ref of
        Some r \<Rightarrow>
          if \<not> same_scope st r
          then (Inl (ValueError ''reservation reference belongs to another accounting scope''), db)
          else transact (send_body st cid (ref_reservation_id r) workload) db
      | None \<Rightarrow> transact (send_body st cid [] workload) db)"

definition record_workload :: "store_config \<Rightarrow> string \<Rightarrow> string \<Rightarrow> reservation_db \<Rightarrow> (py_error + unit) \<times> reservation_db" where
  "record_workload st cid raw db = transact (update_coverage st cid (\<lambda>c. c\<lparr>cov_workload := Some raw\<rparr>)) db"

definition record_tokens :: "store_config \<Rightarrow> string \<Rightarrow> string \<Rightarrow> reservation_db \<Rightarrow> (py_error + unit) \<times> reservation_db" where
  "record_tokens st cid raw db = transact (update_coverage st cid (\<lambda>c. c\<lparr>cov_tokens := Some raw\<rparr>)) db"

definition finish_request :: "store_config \<Rightarrow> string \<Rightarrow> secs \<Rightarrow> reservation_db \<Rightarrow> (py_error + unit) \<times> reservation_db" where
  "finish_request st cid now db =
     transact (update_coverage st cid (\<lambda>c. c\<lparr>cov_ended_at := Some now,
        cov_state := (if cov_attempts c = 0 then Cov_unsent
                      else if cov_state c = Cov_recorded then Cov_recorded else Cov_awaiting_usage)\<rparr>)) db"

section \<open>What a transaction leaves alone\<close>

lemma unavailable_simps [simp]: "unavailable m \<noteq> Inr x" "Inr x \<noteq> unavailable m"
  by (simp_all add: unavailable_def)

lemma generation_changed_rows [simp]:
  "rd_reservations (generation_changed key db) = rd_reservations db"
  "rd_coverage (generation_changed key db) = rd_coverage db"
  by (simp_all add: generation_changed_def)

lemma bound_basis_generation_changed [simp]: "bound_basis st (generation_changed key db) = bound_basis st db"
  by (cases "map_of (rd_generation db) key") (auto simp: bound_basis_def generation_changed_def)

lemma bound_basis_rows [simp]:
  "bound_basis st (db\<lparr>rd_reservations := rs\<rparr>) = bound_basis st db"
  "bound_basis st (db\<lparr>rd_coverage := cs\<rparr>) = bound_basis st db"
  by (simp_all add: bound_basis_def)

lemma check_basis_cong: "bound_basis st db' = bound_basis st db \<Longrightarrow> check_basis st db' = check_basis st db"
  by (simp add: check_basis_def)

lemma bind_basis_rows:
  "bind_basis st db = Inr db' \<Longrightarrow>
   rd_reservations db' = rd_reservations db \<and> rd_coverage db' = rd_coverage db"
  by (auto simp: bind_basis_def ebind_eq_Inr Let_def split: if_splits)

lemma drop_matching_split:
  "drop_matching n P rs = (k, qs) \<Longrightarrow>
   k \<le> n \<and> filter (\<lambda>r. \<not> P r) qs = filter (\<lambda>r. \<not> P r) rs \<and> (k = 0 \<longrightarrow> qs = rs) \<and> set qs \<subseteq> set rs"
  by (induction n P rs arbitrary: k qs rule: drop_matching.induct)
    (auto split: if_splits prod.splits)

lemma drop_matching_keeps:
  "drop_matching n P rs = (k, qs) \<Longrightarrow> (\<And>r. Q r \<Longrightarrow> \<not> P r) \<Longrightarrow> filter Q qs = filter Q rs"
proof -
  assume d: "drop_matching n P rs = (k, qs)" and Q: "\<And>r. Q r \<Longrightarrow> \<not> P r"
  have "filter Q xs = filter Q (filter (\<lambda>r. \<not> P r) xs)" for xs
    using Q by (induction xs) auto
  then show ?thesis using drop_matching_split[OF d] by metis
qed

lemma maintain_historyE:
  assumes "maintain_history st window now db = Inr db'"
  obtains d1 d2 rs cs cutoff where
    "drop_matching prune_limit (prunable_reservation (sc_ledger_key st) cutoff) (rd_reservations db) = (d1, rs)"
    "drop_matching prune_limit (prunable_coverage (sc_ledger_key st) cutoff) (rd_coverage db) = (d2, cs)"
    "int (length rs) < sc_max_records st"
    "db' = (if 0 < d1 + d2 then generation_changed (sc_ledger_key st) (db\<lparr>rd_reservations := rs, rd_coverage := cs\<rparr>)
            else db\<lparr>rd_reservations := rs, rd_coverage := cs\<rparr>)"
  using assms by (auto simp: maintain_history_def Let_def ebind_eq_Inr not_le split: prod.splits)

lemma maintain_history_open:
  assumes "maintain_history st window now db = Inr db'" "\<And>r. Q r \<Longrightarrow> open_status r"
  shows "filter Q (rd_reservations db') = filter Q (rd_reservations db) \<and> bound_basis st' db' = bound_basis st' db"
proof -
  obtain d1 d2 rs cs cutoff where m:
    "drop_matching prune_limit (prunable_reservation (sc_ledger_key st) cutoff) (rd_reservations db) = (d1, rs)"
    "db' = (if 0 < d1 + d2 then generation_changed (sc_ledger_key st) (db\<lparr>rd_reservations := rs, rd_coverage := cs\<rparr>)
            else db\<lparr>rd_reservations := rs, rd_coverage := cs\<rparr>)"
    using maintain_historyE[OF assms(1)] by metis
  have "\<not> prunable_reservation (sc_ledger_key st) cutoff r" if "Q r" for r
    using assms(2)[OF that] by (auto simp: prunable_reservation_def open_status_def)
  then have "filter Q rs = filter Q (rd_reservations db)"
    by (rule drop_matching_keeps[OF m(1)])
  moreover have "bound_basis st' (db\<lparr>rd_reservations := rs, rd_coverage := cs\<rparr>) = bound_basis st' db"
    by (simp add: bound_basis_def)
  ultimately show ?thesis using m(2) by simp
qed

lemma reserve_okE:
  assumes "reserve env st a rid now (db, mo) = (Inr (Some ref, None), (db', mo'))"
  obtains db1 db2 where "check_reserve_args st a = Inr ()" "bind_domain st mo = Inr mo'"
    "bind_basis st db = Inr db1" "maintain_history st (rcc_window_seconds (ra_caps a)) now db1 = Inr db2"
    "check_caps env st a now mo' db2 = Inr None" "rid \<notin> rv_id ` set (rd_reservations db2)"
    "ReservationRef (sc_path st) (sc_ledger_key st) rid (sc_basis st) = Inr ref"
    "db' = generation_changed (sc_ledger_key st)
             (db2\<lparr>rd_reservations := rd_reservations db2 @ [reservation_of st rid now a]\<rparr>)"
  using assms
  by (auto simp: reserve_def reserve_body_def transact_def insert_reservation_def ebind_eq_Inr reservation_of_def
      split: sum.splits option.splits prod.splits if_splits)

lemma bind_domain_rows: "bind_domain st mo = Inr mo' \<Longrightarrow> mo_rows mo' = mo_rows mo \<and> check_domain st mo' = Inr ()"
  by (auto simp: bind_domain_def ebind_eq_Inr Let_def check_domain_def split: if_splits)

section \<open>Active reservations\<close>

lemma active_loop_append:
  "active_loop ag b now com (rs @ qs) u = ebind (active_loop ag b now com rs u) (active_loop ag b now com qs)"
  by (induction ag b now com rs u rule: active_loop.induct)
    (auto simp: unavailable_def ebind_def split: option.splits sum.splits)

lemma active_loop_stuck:
  assumes "r \<in> set rs" "map_of com (rv_id r) = None" "rv_expires_at r \<le> now \<or> rv_status r = Rv_expired"
  shows "\<exists>e. active_loop ag b now com rs u = Inl e"
  using assms
  by (induction ag b now com rs u rule: active_loop.induct)
    (auto simp: unavailable_def ebind_def split: option.splits sum.splits)

lemma dimensions_within:
  assumes "\<forall>d \<in> set (dimensions caps (ra_projection a) rec act). \<not> over_cap (lower (ra_agent_id a)) d"
  shows "within_caps (lower (ra_agent_id a)) caps
           (add_usage rec (add_row (lower (ra_agent_id a)) Priced_usage (reservation_of st rid now a) act))"
  using assms
  by (auto simp: dimensions_def over_cap_def within_caps_def exceeds_def add_usage_def add_row_def
      reservation_of_def tokens_total_def Let_def add.assoc simp flip: of_int_add)

lemma check_caps_NoneE:
  assumes "check_caps env st a now mo db = Inr None" "\<not> ra_force a" "rcc_enabled (ra_caps a)"
  obtains rec com act req where
    "recorded env st (lower (ra_agent_id a)) (rcc_window_seconds (ra_caps a)) now req db mo = Inr (rec, com)"
    "req = (0 < rcc_per_fleet_max_cost_usd (ra_caps a) \<or>
            (lower (ra_agent_id a) \<noteq> [] \<and> 0 < rcc_per_agent_max_cost_usd (ra_caps a)))"
    "active st (lower (ra_agent_id a)) now com db = Inr act"
    "within_caps (lower (ra_agent_id a)) (ra_caps a)
       (add_usage rec (add_row (lower (ra_agent_id a)) Priced_usage (reservation_of st rid now a) act))"
proof -
  obtain rec com act where c:
    "recorded env st (lower (ra_agent_id a)) (rcc_window_seconds (ra_caps a)) now
       (0 < rcc_per_fleet_max_cost_usd (ra_caps a) \<or>
        (lower (ra_agent_id a) \<noteq> [] \<and> 0 < rcc_per_agent_max_cost_usd (ra_caps a))) db mo = Inr (rec, com)"
    "active st (lower (ra_agent_id a)) now com db = Inr act"
    "find (over_cap (lower (ra_agent_id a))) (dimensions (ra_caps a) (ra_projection a) rec act) = None"
    using assms by (auto simp: check_caps_def Let_def ebind_eq_Inr)
  from c(3) have "\<forall>d \<in> set (dimensions (ra_caps a) (ra_projection a) rec act). \<not> over_cap (lower (ra_agent_id a)) d"
    by (auto simp: find_None_iff)
  from that[OF c(1) refl c(2) dimensions_within[OF this]] show thesis .
qed

lemma recorded_priced:
  "sc_basis st = Priced_usage \<Longrightarrow>
   recorded env st agent_id window now req db' mo = recorded env st agent_id window now req db mo"
  by (simp add: recorded_def Let_def)

lemma recorded_committed:
  "sc_basis st = Priced_usage \<Longrightarrow> recorded env st agent_id window now req db mo = Inr (rec, com) \<Longrightarrow>
   com = committed_rows (sc_ledger_key st) (mo_rows mo)"
  by (auto simp: recorded_def Let_def ebind_eq_Inr)

lemma committed_rows_None:
  assumes "\<forall>m \<in> set rows. mr_guard_ledger_key m = key \<and> mr_guard_usage_complete m \<longrightarrow> mr_guard_reservation_id m \<noteq> rid"
  shows "map_of (committed_rows key rows) rid = None"
proof -
  have "map_of (foldl (\<lambda>d r. AList.update (mr_guard_reservation_id r) (mr_session_id r, sql_lower (mr_agent_id r)) d) d ms) rid
      = map_of d rid" if "\<forall>m \<in> set ms. mr_guard_reservation_id m \<noteq> rid" for ms d
    using that by (induction ms arbitrary: d) auto
  note keep = this
  show ?thesis using assms unfolding committed_rows_def by (subst keep) auto
qed

definition valid_projection :: "projection \<Rightarrow> bool" where
  "valid_projection p =
     (Projection (pj_cost_usd p) (pj_input_tokens p) (pj_output_tokens p) (pj_cache_read_tokens p) = Inr p)"

lemma active_insert:
  assumes "active st ag now com db = Inr act" "map_of com rid = None" "valid_projection (ra_projection a)"
    "0 < ra_ttl_seconds a" "sc_ledger_key st \<noteq> []" "0 \<le> now"
  shows "active st ag now com (generation_changed (sc_ledger_key st)
           (db\<lparr>rd_reservations := rd_reservations db @ [reservation_of st rid now a]\<rparr>))
         = Inr (add_row ag (sc_basis st) (reservation_of st rid now a) act)"
proof -
  let ?r = "reservation_of st rid now a"
  let ?db = "generation_changed (sc_ledger_key st) (db\<lparr>rd_reservations := rd_reservations db @ [?r]\<rparr>)"
  have cb: "check_basis st ?db = check_basis st db" by (rule check_basis_cong) simp
  have row: "active_loop ag (sc_basis st) now com [?r] act = Inr (add_row ag (sc_basis st) ?r act)"
    using assms(2-4,6)
    by (simp add: reservation_of_def number_ok_def valid_projection_def add_nonneg_pos less_imp_le)
  have st: "rv_ledger_key ?r = sc_ledger_key st" "open_status ?r" "rv_ledger_key ?r \<noteq> []"
    using assms(5) by (simp_all add: reservation_of_def open_status_def)
  show ?thesis
    using assms(1) row st
    by (auto simp: active_def ebind_eq_Inr cb active_loop_append simp del: active_loop.simps)
qed


definition example_store :: store_config where
  "example_store = \<lparr>sc_path = ''/guard.db'', sc_ledger_id = ''led'', sc_ledger_key = replicate 64 CHR ''a'',
     sc_audit_sha = ''sha'', sc_basis = Priced_usage, sc_history_seconds = 604800, sc_max_records = 100000\<rparr>"

definition example_env :: ledger_env where
  "example_env = \<lparr>le_stamp = (\<lambda>_. ''2026''), le_receipt = (\<lambda>_. Price_ok), le_tokens = (\<lambda>_ _ _. Inr (blank_usage, []))\<rparr>"

definition example_args :: reserve_args where
  "example_args = \<lparr>ra_session_id = ''s'', ra_agent_id = ''A'', ra_owner = ''w'', ra_request_id = ''r'',
     ra_projection = \<lparr>pj_cost_usd = 2, pj_input_tokens = 100, pj_output_tokens = 50, pj_cache_read_tokens = 0\<rparr>,
     ra_caps = RollingCapsConfig\<lparr>rcc_enabled := True, rcc_per_agent_max_cost_usd := 3, rcc_per_fleet_max_cost_usd := 5\<rparr>,
     ra_ttl_seconds = 600, ra_force = False\<rparr>"

definition example_rid :: string where
  "example_rid = ''tpr_'' @ replicate 32 CHR ''0''"

definition example_rdb :: reservation_db where
  "example_rdb = \<lparr>rd_reservations = [], rd_coverage = [], rd_generation = []\<rparr>"

definition example_mo :: monitor_state where
  "example_mo = \<lparr>mo_domain = Some (''led'', None), mo_rows = []\<rparr>"

lemmas example_defs = example_store_def example_env_def example_args_def example_rid_def example_rdb_def example_mo_def

lemma validate_empty_ledger:
  "validate_recorded_rows cutoff [] = Inr ()" "validate_recorded_prices receipt cutoff [] = Inr ()"
  by (simp_all add: validate_recorded_rows_def validate_recorded_prices_def)

definition bound_mo :: monitor_state where
  "bound_mo = example_mo\<lparr>mo_domain := Some (''led'', Some ''sha'')\<rparr>"

definition bound_rdb :: reservation_db where
  "bound_rdb = example_rdb\<lparr>rd_generation :=
     [(replicate 64 CHR ''a'', \<lparr>gn_generation = 0, gn_basis = Some Priced_usage\<rparr>)]\<rparr>"

lemma example_bind:
  "bind_domain example_store example_mo = Inr bound_mo" "bind_domain example_store bound_mo = Inr bound_mo"
  "bind_basis example_store example_rdb = Inr bound_rdb"
  by (simp_all add: bind_domain_def check_domain_def example_defs bound_mo_def bound_rdb_def bind_basis_def bound_basis_def check_basis_def)

lemma example_history:
  "rd_reservations db = [] \<Longrightarrow> rd_coverage db = [] \<Longrightarrow> maintain_history example_store 3600 1000 db = Inr db"
  by (simp add: maintain_history_def example_store_def Let_def)

lemma example_check_caps:
  "rd_reservations db = [] \<Longrightarrow> check_basis example_store db = Inr () \<Longrightarrow>
   check_caps example_env example_store example_args 1000 bound_mo db = Inr None"
  by (simp add: check_caps_def recorded_def check_domain_def validate_empty_ledger query_recorded_usage_def
      sum_columns_def active_def committed_rows_def example_env_def example_store_def example_args_def
      example_mo_def bound_mo_def RollingCapsConfig_def dimensions_def over_cap_def blank_usage_def
      tokens_total_def Let_def)

lemma example_args_ok: "check_reserve_args example_store example_args = Inr ()"
  by code_simp

lemma example_ref:
  "ReservationRef (sc_path example_store) (sc_ledger_key example_store) example_rid (sc_basis example_store) =
     Inr \<lparr>ref_store_path = ''/guard.db'', ref_ledger_key = replicate 64 CHR ''a'',
          ref_reservation_id = example_rid, ref_accounting_basis = Priced_usage\<rparr>"
  by code_simp

lemma example_reserve:
  "\<exists>ref db' mo'. reserve example_env example_store example_args example_rid 1000 (example_rdb, example_mo)
     = (Inr (Some ref, None), (db', mo'))"
proof -
  have window: "rcc_window_seconds (ra_caps example_args) = 3600"
    by (simp add: example_args_def RollingCapsConfig_def)
  have rdb: "check_basis example_store bound_rdb = Inr ()" "rd_reservations bound_rdb = []" "rd_coverage bound_rdb = []"
    by (simp_all add: check_basis_def bound_basis_def example_store_def bound_rdb_def example_rdb_def)
  show ?thesis
    unfolding reserve_def transact_def reserve_body_def snd_conv fst_conv example_args_ok example_bind window
    by (simp add: example_history example_check_caps rdb example_ref insert_reservation_def)
qed


lemma check_caps_stuck:
  assumes "r \<in> set (rd_reservations db)" "rv_ledger_key r = sc_ledger_key st" "open_status r"
    and "rv_expires_at r \<le> now \<or> rv_status r = Rv_expired" "sc_basis st = Priced_usage"
    and "map_of (committed_rows (sc_ledger_key st) (mo_rows mo)) (rv_id r) = None"
    and "rcc_enabled (ra_caps a)" "\<not> ra_force a"
  shows "\<exists>e. check_caps env st a now mo db = Inl e"
proof (cases "check_caps env st a now mo db")
  case (Inr x)
  then obtain rec com req act where c:
    "recorded env st (lower (ra_agent_id a)) (rcc_window_seconds (ra_caps a)) now req db mo = Inr (rec, com)"
    "active st (lower (ra_agent_id a)) now com db = Inr act"
    using assms(7,8) by (auto simp: check_caps_def Let_def ebind_eq_Inr)
  have com: "map_of com (rv_id r) = None"
    using recorded_committed[OF assms(5) c(1)] assms(6) by simp
  have "r \<in> set (filter (\<lambda>r. rv_ledger_key r = sc_ledger_key st \<and> open_status r) (rd_reservations db))"
    using assms(1-3) by simp
  from active_loop_stuck[OF this com assms(4), of "lower (ra_agent_id a)" "sc_basis st" blank_usage] c(2)
  have False by (auto simp: active_def ebind_eq_Inr)
  then show ?thesis ..
qed simp

text \<open>
  The store fails closed on a reservation whose fate is unknown: while one that expired (or
  was marked expired) has no committed ledger row, every capped, unforced reserve on its ledger
  raises, grants nothing and leaves the guard database as it was.
\<close>

lemma reserve_fails_closed:
  assumes "r \<in> set (rd_reservations db)" "rv_ledger_key r = sc_ledger_key st" "open_status r"
    and "rv_expires_at r \<le> now \<or> rv_status r = Rv_expired" "sc_basis st = Priced_usage"
    and "map_of (committed_rows (sc_ledger_key st) (mo_rows mo)) (rv_id r) = None"
    and "rcc_enabled (ra_caps a)" "\<not> ra_force a"
  shows "\<exists>e mo'. reserve env st a rid now (db, mo) = (Inl e, (db, mo'))"
proof (cases "bind_domain st mo")
  case (Inr mo')
  have "\<exists>e. reserve_body env st a rid now mo' db = Inl e"
  proof (cases "ebind (bind_basis st db) (maintain_history st (rcc_window_seconds (ra_caps a)) now)")
    case (Inr db2)
    then obtain db1 where b: "bind_basis st db = Inr db1"
        "maintain_history st (rcc_window_seconds (ra_caps a)) now db1 = Inr db2"
      by (auto simp: ebind_eq_Inr)
    have "filter open_status (rd_reservations db2) = filter open_status (rd_reservations db)"
      using maintain_history_open[OF b(2), of open_status] bind_basis_rows[OF b(1)] by simp
    then have "set (filter open_status (rd_reservations db2)) = set (filter open_status (rd_reservations db))"
      by simp
    then have "r \<in> set (rd_reservations db2)"
      using assms(1,3) by auto
    moreover have "map_of (committed_rows (sc_ledger_key st) (mo_rows mo')) (rv_id r) = None"
      using assms(6) bind_domain_rows[OF \<open>bind_domain st mo = Inr mo'\<close>] by simp
    ultimately show ?thesis
      using check_caps_stuck[of r db2 st now mo' a env] assms(2-5,7,8) by (auto simp: reserve_body_def b)
  next
    case (Inl e)
    then show ?thesis by (auto simp: reserve_body_def ebind_def split: sum.splits)
  qed
  then show ?thesis by (auto simp: reserve_def Inr transact_def split: sum.splits)
qed (simp add: reserve_def split: sum.splits)

definition stale_row :: reservation_row where
  "stale_row = (reservation_of example_store ''tpr_old'' 0 example_args)"

theorem reserve_fails_closed_witness:
  "\<exists>e mo'. reserve example_env example_store example_args example_rid 1000
     (example_rdb\<lparr>rd_reservations := [stale_row]\<rparr>, example_mo)
     = (Inl e, (example_rdb\<lparr>rd_reservations := [stale_row]\<rparr>, mo'))"
  by (rule reserve_fails_closed[where r = stale_row])
    (simp_all add: stale_row_def reservation_of_def open_status_def example_defs committed_rows_def RollingCapsConfig_def)

section \<open>The accounting generation\<close>

text \<open>
  Everything that writes to the store.  Each operation carries the store it is called on, so a run
  mixes the processes and the ledgers that share one guard database; the monitor a call reads is
  an argument, since other writers change it between calls.
\<close>

datatype store_op =
    S_reserve ledger_env store_config reserve_args string secs monitor_state
  | S_settle store_config reservation_ref projection secs monitor_state
  | S_release store_config reservation_ref secs
  | S_begin store_config string string string int secs monitor_state
  | S_send store_config string "reservation_ref option" "string option"
  | S_workload store_config string string
  | S_tokens store_config string string
  | S_finish store_config string secs

fun store_step :: "store_op \<Rightarrow> reservation_db \<Rightarrow> reservation_db" where
  "store_step (S_reserve env st a rid now mo) db = fst (snd (reserve env st a rid now (db, mo)))"
| "store_step (S_settle st ref p now mo) db = snd (settle_after_commit st ref p now mo db)"
| "store_step (S_release st ref now) db = snd (release_unsent st ref now db)"
| "store_step (S_begin st cid session owner window now mo) db =
     fst (snd (begin_request st cid session owner window now (db, mo)))"
| "store_step (S_send st cid ref w) db = snd (attempted_send st cid ref w db)"
| "store_step (S_workload st cid raw) db = snd (record_workload st cid raw db)"
| "store_step (S_tokens st cid raw) db = snd (record_tokens st cid raw db)"
| "store_step (S_finish st cid now) db = snd (finish_request st cid now db)"

definition generation :: "string \<Rightarrow> reservation_db \<Rightarrow> int" where
  "generation key db = (case map_of (rd_generation db) key of None \<Rightarrow> 0 | Some g \<Rightarrow> gn_generation g)"

definition ledger_rows :: "string \<Rightarrow> reservation_db \<Rightarrow> reservation_row list \<times> coverage_row list" where
  "ledger_rows key db =
     (filter (\<lambda>r. rv_ledger_key r = key) (rd_reservations db), filter (\<lambda>c. cov_ledger_key c = key) (rd_coverage db))"

definition fenced :: "string \<Rightarrow> reservation_db \<Rightarrow> reservation_db \<Rightarrow> bool" where
  "fenced key db db' =
     (generation key db < generation key db' \<or>
      (generation key db' = generation key db \<and> ledger_rows key db' = ledger_rows key db))"

lemma fenced_refl [simp]: "fenced key db db"
  by (simp add: fenced_def)

lemma fenced_trans [trans]: "fenced key a b \<Longrightarrow> fenced key b c \<Longrightarrow> fenced key a c"
  by (auto simp: fenced_def)

lemma generation_generation_changed:
  "generation key (generation_changed key' db) = generation key db + (if key = key' then 1 else 0)"
  by (auto simp: generation_def generation_changed_def split: option.splits)

lemma generation_rows [simp]:
  "generation key (db\<lparr>rd_reservations := rs\<rparr>) = generation key db"
  "generation key (db\<lparr>rd_coverage := cs\<rparr>) = generation key db"
  by (simp_all add: generation_def)

lemma fenced_change:
  assumes "generation key' db' = generation key' db" "\<And>k. k \<noteq> key \<Longrightarrow> ledger_rows k db' = ledger_rows k db"
  shows "fenced key' db (generation_changed key db')"
  using assms by (auto simp: fenced_def generation_generation_changed ledger_rows_def)

lemma fenced_bind_basis: "bind_basis st db = Inr db' \<Longrightarrow> fenced key db db'"
proof -
  assume b: "bind_basis st db = Inr db'"
  then have "generation key db' = generation key db"
    by (auto simp: bind_basis_def ebind_eq_Inr Let_def generation_def split: if_splits option.splits)
  with bind_basis_rows[OF b] show ?thesis by (simp add: fenced_def ledger_rows_def)
qed

lemma fenced_maintain_history:
  assumes "maintain_history st window now db = Inr db'"
  shows "fenced key db db'"
proof -
  obtain d1 d2 rs cs cutoff where m:
    "drop_matching prune_limit (prunable_reservation (sc_ledger_key st) cutoff) (rd_reservations db) = (d1, rs)"
    "drop_matching prune_limit (prunable_coverage (sc_ledger_key st) cutoff) (rd_coverage db) = (d2, cs)"
    "db' = (if 0 < d1 + d2 then generation_changed (sc_ledger_key st) (db\<lparr>rd_reservations := rs, rd_coverage := cs\<rparr>)
            else db\<lparr>rd_reservations := rs, rd_coverage := cs\<rparr>)"
    using maintain_historyE[OF assms] by metis
  have other: "ledger_rows k (db\<lparr>rd_reservations := rs, rd_coverage := cs\<rparr>) = ledger_rows k db"
    if "k \<noteq> sc_ledger_key st" for k
    using drop_matching_keeps[OF m(1), of "\<lambda>r. rv_ledger_key r = k"]
      drop_matching_keeps[OF m(2), of "\<lambda>c. cov_ledger_key c = k"] that
    by (auto simp: ledger_rows_def prunable_reservation_def prunable_coverage_def)
  show ?thesis
  proof (cases "0 < d1 + d2")
    case True
    then show ?thesis unfolding m(3) using other by (simp add: fenced_change)
  next
    case False
    then show ?thesis
      using drop_matching_split[OF m(1)] drop_matching_split[OF m(2)] by (simp add: m(3))
  qed
qed

lemma fenced_transact:
  "(\<And>r db'. body db = Inr (r, db') \<Longrightarrow> fenced key db db') \<Longrightarrow> fenced key db (snd (transact body db))"
  by (auto simp: transact_def split: sum.splits)

lemma fenced_reserve_body:
  assumes "reserve_body env st a rid now mo db = Inr (b, db')"
  shows "fenced key db db'"
proof -
  obtain db1 db2 where b: "bind_basis st db = Inr db1"
      "maintain_history st (rcc_window_seconds (ra_caps a)) now db1 = Inr db2"
    and r: "db' = db \<or> (\<exists>db3. insert_reservation (reservation_of st rid now a) db2 = Inr db3 \<and>
              db' = generation_changed (sc_ledger_key st) db3)"
    using assms by (auto simp: reserve_body_def ebind_eq_Inr split: option.splits)
  have "fenced key db2 (generation_changed (sc_ledger_key st) db3)"
    if "insert_reservation (reservation_of st rid now a) db2 = Inr db3" for db3
    using that by (intro fenced_change)
      (auto simp: insert_reservation_def ledger_rows_def reservation_of_def split: if_splits)
  with r fenced_trans[OF fenced_bind_basis[OF b(1)] fenced_maintain_history[OF b(2)], of key]
  show ?thesis using fenced_trans by auto
qed

lemma fst_snd_reserve:
  "fst (snd (reserve env st a rid now (db, mo))) = db \<or>
   (\<exists>mo'. fst (snd (reserve env st a rid now (db, mo))) = snd (transact (reserve_body env st a rid now mo') db))"
  by (auto simp: reserve_def split: sum.splits prod.splits option.splits) (metis snd_conv)+

lemma fst_snd_begin:
  "fst (snd (begin_request st cid session owner window now (db, mo))) = db \<or>
   fst (snd (begin_request st cid session owner window now (db, mo))) =
     snd (transact (begin_body st cid session owner window now) db)"
  by (auto simp: begin_request_def split: sum.splits prod.splits)

lemma filter_update_other:
  assumes "\<And>r. P r \<Longrightarrow> key r = k" "\<And>r. key (f r) = key r" "k' \<noteq> k"
  shows "filter (\<lambda>r. key r = k') (snd (update_where P f rows)) = filter (\<lambda>r. key r = k') rows"
proof (induction rows)
  case (Cons r rows)
  have "\<not> P r" if "key r = k'" using assms(1,3) that by metis
  with Cons show ?case using assms(2) by (auto simp: update_where_def)
qed (simp add: update_where_def)

lemma fenced_settle_body:
  assumes "settle_body st ref p row now db = Inr (w, db')"
  shows "fenced key db db'"
proof -
  have "fenced key db (generation_changed (sc_ledger_key st) (db\<lparr>rd_reservations := rs, rd_coverage := cs\<rparr>))"
    if "rs = snd (update_where (\<lambda>r. rv_id r = ref_reservation_id ref \<and> rv_ledger_key r = sc_ledger_key st \<and> open_status r)
          (\<lambda>r. r\<lparr>rv_status := Rv_settled, rv_actual_cost := Some (pj_cost_usd p),
                rv_actual_tokens := Some (tokens_total p),
                rv_actual_cache_read := Some (pj_cache_read_tokens p), rv_settled_at := Some now\<rparr>) (rd_reservations db))"
      "cs = snd (update_where (\<lambda>c. cov_ledger_key c = sc_ledger_key st \<and>
             cov_reservation_id c = ref_reservation_id ref \<and> cov_attempts c = 1)
            (\<lambda>c. c\<lparr>cov_state := Cov_recorded\<rparr>) (rd_coverage db))" for rs cs
    unfolding that by (rule fenced_change)
      (auto simp: ledger_rows_def intro!: filter_update_other[where k = "sc_ledger_key st"])
  then show ?thesis
    using assms by (auto simp: settle_body_def split: option.splits if_splits prod.splits)
qed

lemma fenced_release_body:
  assumes "release_body st ref now db = Inr (w, db')"
  shows "fenced key db db'"
proof -
  have "fenced key db (generation_changed (sc_ledger_key st) (db\<lparr>rd_reservations := rs\<rparr>))"
    if "rs = snd (update_where (\<lambda>r. rv_id r = ref_reservation_id ref \<and> rv_ledger_key r = sc_ledger_key st \<and>
             rv_status r = Rv_active)
          (\<lambda>r. r\<lparr>rv_status := Rv_released, rv_settled_at := Some now\<rparr>) (rd_reservations db))" for rs
    unfolding that by (rule fenced_change)
      (auto simp: ledger_rows_def intro!: filter_update_other[where k = "sc_ledger_key st"])
  then show ?thesis
    using assms by (auto simp: release_body_def ebind_eq_Inr split: if_splits prod.splits)
qed

lemma fenced_begin_body:
  assumes "begin_body st cid session owner window now db = Inr (r, db')"
  shows "fenced key db db'"
proof -
  obtain db1 db2 where b: "bind_basis st db = Inr db1" "maintain_history st window now db1 = Inr db2"
    and r: "db' = generation_changed (sc_ledger_key st)
              (db2\<lparr>rd_coverage := rd_coverage db2 @ [coverage_of st cid session owner now]\<rparr>)"
    using assms by (auto simp: begin_body_def ebind_eq_Inr)
  have "fenced key db2 db'"
    unfolding r by (rule fenced_change) (auto simp: ledger_rows_def coverage_of_def)
  then show ?thesis
    using fenced_trans[OF fenced_bind_basis[OF b(1)] fenced_maintain_history[OF b(2)], of key] fenced_trans by blast
qed

lemma fenced_update_coverage:
  assumes "update_coverage st cid f db = Inr (u, db')" "\<And>c. cov_ledger_key (f c) = cov_ledger_key c"
  shows "fenced key db db'"
proof -
  have "fenced key db (generation_changed (sc_ledger_key st) (db\<lparr>rd_coverage := snd (update_where
          (\<lambda>c. cov_id c = cid \<and> cov_ledger_key c = sc_ledger_key st) f (rd_coverage db))\<rparr>))"
    using assms(2) by (intro fenced_change)
      (auto simp: ledger_rows_def intro!: filter_update_other[where k = "sc_ledger_key st"])
  then show ?thesis
    using assms(1) by (auto simp: update_coverage_def split: if_splits prod.splits)
qed

lemma fenced_send_body:
  "send_body st cid rid w db = Inr (u, db') \<Longrightarrow> fenced key db db'"
  by (auto simp: send_body_def split: if_splits elim!: fenced_update_coverage)

lemma fenced_step: "fenced key db (store_step op db)"
proof (cases op)
  case (S_reserve env st a rid now mo)
  then show ?thesis
    using fst_snd_reserve[of env st a rid now db mo] fenced_transact[OF fenced_reserve_body] by fastforce
next
  case (S_settle st ref p now mo)
  then show ?thesis
    by (auto simp: settle_after_commit_def split: sum.splits intro: fenced_transact[OF fenced_settle_body])
next
  case (S_release st ref now)
  then show ?thesis
    by (auto simp: release_unsent_def intro: fenced_transact[OF fenced_release_body])
next
  case (S_begin st cid session owner window now mo)
  then show ?thesis
    using fst_snd_begin[of st cid session owner window now db mo] fenced_transact[OF fenced_begin_body] by fastforce
next
  case (S_send st cid ref w)
  then show ?thesis
    by (auto simp: attempted_send_def split: option.splits intro: fenced_transact[OF fenced_send_body])
next
  case (S_workload st cid raw)
  then show ?thesis
    by (auto simp: record_workload_def intro!: fenced_transact elim!: fenced_update_coverage)
next
  case (S_tokens st cid raw)
  then show ?thesis
    by (auto simp: record_tokens_def intro!: fenced_transact elim!: fenced_update_coverage)
next
  case (S_finish st cid now)
  then show ?thesis
    by (auto simp: finish_request_def intro!: fenced_transact elim!: fenced_update_coverage)
qed

lemma fenced_run: "fenced key db (fold store_step ops db)"
  by (induction ops arbitrary: db) (auto intro: fenced_trans[OF fenced_step])

text \<open>
  The accounting generation fences reads.  Over any interleaving of store operations of any
  number of stores sharing the guard database, the generation of a ledger never decreases, and if
  it is the same before and after, every reservation and coverage row of that ledger is unchanged.
\<close>

lemma generation_fence:
  "generation key db \<le> generation key (fold store_step ops db) \<and>
   (generation key (fold store_step ops db) = generation key db \<longrightarrow>
      ledger_rows key (fold store_step ops db) = ledger_rows key db)"
  using fenced_run[of key db ops] by (auto simp: fenced_def)

theorem generation_fence_witness:
  "ledger_rows ''k'' (fold store_step [S_finish example_store ''c'' 7] example_rdb) = ledger_rows ''k'' example_rdb"
proof -
  have "generation ''k'' (fold store_step [S_finish example_store ''c'' 7] example_rdb) = generation ''k'' example_rdb"
    by (simp add: finish_request_def update_coverage_def update_where_def transact_def example_defs unavailable_def)
  with generation_fence[of "''k''" example_rdb "[S_finish example_store ''c'' 7]"] show ?thesis by blast
qed

section \<open>A reservation is closed once\<close>

definition open_row :: "string \<Rightarrow> string \<Rightarrow> reservation_db \<Rightarrow> bool" where
  "open_row key i db = (\<exists>r \<in> set (rd_reservations db). rv_id r = i \<and> rv_ledger_key r = key \<and> open_status r)"

definition unique_ids :: "reservation_db \<Rightarrow> bool" where
  "unique_ids db = distinct (map rv_id (rd_reservations db))"

fun draws :: "string \<Rightarrow> store_op \<Rightarrow> bool" where
  "draws i (S_reserve env st a rid now mo) = (rid = i)"
| "draws i _ = False"

fun closes :: "string \<Rightarrow> string \<Rightarrow> store_op \<Rightarrow> reservation_db \<Rightarrow> bool" where
  "closes key i (S_settle st ref p now mo) db =
     (ref_reservation_id ref = i \<and> sc_ledger_key st = key \<and> fst (settle_after_commit st ref p now mo db) = Inr True)"
| "closes key i (S_release st ref now) db =
     (ref_reservation_id ref = i \<and> sc_ledger_key st = key \<and> fst (release_unsent st ref now db) = Inr True)"
| "closes key i _ db = False"

definition close_act :: "string \<Rightarrow> string \<Rightarrow> store_op \<Rightarrow> reservation_db \<Rightarrow> bool \<times> reservation_db" where
  "close_act key i op db = (closes key i op db, store_step op db)"

text \<open>What an operation may do to the reservation table.\<close>

definition table_change :: "string set \<Rightarrow> reservation_row list \<Rightarrow> reservation_row list \<Rightarrow> bool" where
  "table_change new rs rs' =
     ((distinct (map rv_id rs) \<longrightarrow> distinct (map rv_id rs')) \<and>
      (\<forall>r' \<in> set rs'. open_status r' \<longrightarrow> rv_id r' \<in> new \<or> r' \<in> set rs))"

lemma table_change_refl [simp]: "table_change new rs rs"
  by (simp add: table_change_def)

lemma drop_matching_distinct:
  "drop_matching n P rs = (k, qs) \<Longrightarrow> distinct (map g rs) \<Longrightarrow> distinct (map g qs)"
proof (induction n P rs arbitrary: k qs rule: drop_matching.induct)
  case (2 n P r rs)
  then show ?case
    using drop_matching_split[of n P rs] by (fastforce split: if_splits prod.splits)
qed simp

lemma maintain_history_table:
  assumes "bind_basis st db = Inr db1" "maintain_history st window now db1 = Inr db2"
  shows "table_change {} (rd_reservations db) (rd_reservations db2)"
proof -
  obtain d1 d2 rs cs cutoff where m:
    "drop_matching prune_limit (prunable_reservation (sc_ledger_key st) cutoff) (rd_reservations db1) = (d1, rs)"
    "rd_reservations db2 = rs"
    by (rule maintain_historyE[OF assms(2)]) auto
  show ?thesis
    using drop_matching_split[OF m(1)] drop_matching_distinct[OF m(1), of rv_id] bind_basis_rows[OF assms(1)] m(2)
    by (auto simp: table_change_def)
qed

lemma update_table:
  assumes "\<And>r. rv_id (f r) = rv_id r" "\<And>r. \<not> open_status (f r)"
  shows "table_change {} rs (snd (update_where P f rs))"
proof -
  have "map rv_id (snd (update_where P f rs)) = map rv_id rs"
    using assms(1) by (simp add: update_where_def)
  moreover have "r' \<in> set rs" if "r' \<in> set (snd (update_where P f rs))" "open_status r'" for r'
    using that assms(2) by (auto simp: update_where_def split: if_splits)
  ultimately show ?thesis by (auto simp: table_change_def)
qed

lemma reserve_body_table:
  assumes "reserve_body env st a rid now mo db = Inr (b, db')"
  shows "table_change {rid} (rd_reservations db) (rd_reservations db')"
proof -
  obtain db1 db2 where b: "bind_basis st db = Inr db1"
      "maintain_history st (rcc_window_seconds (ra_caps a)) now db1 = Inr db2"
    and r: "db' = db \<or> (\<exists>db3. insert_reservation (reservation_of st rid now a) db2 = Inr db3 \<and>
              db' = generation_changed (sc_ledger_key st) db3)"
    using assms by (auto simp: reserve_body_def ebind_eq_Inr split: option.splits)
  have "rv_id (reservation_of st rid now a) = rid" by (simp add: reservation_of_def)
  with r maintain_history_table[OF b] show ?thesis
    by (auto simp: table_change_def insert_reservation_def split: if_splits)
qed

lemma begin_body_table:
  assumes "begin_body st cid session owner window now db = Inr (r, db')"
  shows "table_change {} (rd_reservations db) (rd_reservations db')"
  using assms by (auto simp: begin_body_def ebind_eq_Inr dest: maintain_history_table)

lemma update_coverage_table:
  "update_coverage st cid f db = Inr (u, db') \<Longrightarrow> rd_reservations db' = rd_reservations db"
  by (auto simp: update_coverage_def split: if_splits prod.splits)

lemma settle_body_table:
  assumes "settle_body st ref p row now db = Inr (w, db')"
  shows "table_change {} (rd_reservations db) (rd_reservations db')"
proof -
  have "table_change {} (rd_reservations db) (snd (update_where
      (\<lambda>r. rv_id r = ref_reservation_id ref \<and> rv_ledger_key r = sc_ledger_key st \<and> open_status r)
      (\<lambda>r. r\<lparr>rv_status := Rv_settled, rv_actual_cost := Some (pj_cost_usd p),
             rv_actual_tokens := Some (tokens_total p),
             rv_actual_cache_read := Some (pj_cache_read_tokens p), rv_settled_at := Some now\<rparr>) (rd_reservations db)))"
    by (rule update_table) (simp_all add: open_status_def)
  then show ?thesis
    using assms by (auto simp: settle_body_def split: option.splits if_splits prod.splits)
qed

lemma release_body_table:
  assumes "release_body st ref now db = Inr (w, db')"
  shows "table_change {} (rd_reservations db) (rd_reservations db')"
proof -
  have "table_change {} (rd_reservations db) (snd (update_where
      (\<lambda>r. rv_id r = ref_reservation_id ref \<and> rv_ledger_key r = sc_ledger_key st \<and> rv_status r = Rv_active)
      (\<lambda>r. r\<lparr>rv_status := Rv_released, rv_settled_at := Some now\<rparr>) (rd_reservations db)))"
    by (rule update_table) (simp_all add: open_status_def)
  then show ?thesis
    using assms by (auto simp: release_body_def ebind_eq_Inr split: if_splits prod.splits)
qed

lemma transact_table:
  "(\<And>r db'. body db = Inr (r, db') \<Longrightarrow> table_change new (rd_reservations db) (rd_reservations db')) \<Longrightarrow>
   table_change new (rd_reservations db) (rd_reservations (snd (transact body db)))"
  by (auto simp: transact_def split: sum.splits)

lemma store_step_table:
  "table_change {i. draws i op} (rd_reservations db) (rd_reservations (store_step op db))"
proof (cases op)
  case (S_reserve env st a rid now mo)
  have "table_change {rid} (rd_reservations db) (rd_reservations (snd (transact (reserve_body env st a rid now mo') db)))" for mo'
    by (rule transact_table) (rule reserve_body_table)
  with S_reserve fst_snd_reserve[of env st a rid now db mo] show ?thesis by auto
next
  case (S_settle st ref p now mo)
  then show ?thesis
    by (auto simp: settle_after_commit_def split: sum.splits intro: transact_table[OF settle_body_table])
next
  case (S_release st ref now)
  then show ?thesis by (auto simp: release_unsent_def intro: transact_table[OF release_body_table])
next
  case (S_begin st cid session owner window now mo)
  have "table_change {} (rd_reservations db)
      (rd_reservations (snd (transact (begin_body st cid session owner window now) db)))"
    by (rule transact_table) (rule begin_body_table)
  with S_begin fst_snd_begin[of st cid session owner window now db mo] show ?thesis by auto
next
  case (S_send st cid ref w)
  then show ?thesis
    by (auto simp: attempted_send_def send_body_def transact_def update_coverage_table split: option.splits sum.splits if_splits)
next
  case (S_workload st cid raw)
  then show ?thesis by (auto simp: record_workload_def transact_def update_coverage_table split: sum.splits)
next
  case (S_tokens st cid raw)
  then show ?thesis by (auto simp: record_tokens_def transact_def update_coverage_table split: sum.splits)
next
  case (S_finish st cid now)
  then show ?thesis by (auto simp: finish_request_def transact_def update_coverage_table split: sum.splits)
qed

lemma update_where_closes:
  assumes "distinct (map rv_id rs)" "\<And>r. P r \<Longrightarrow> rv_id r = i \<and> rv_ledger_key r = key \<and> open_status r"
    "\<And>r. rv_id (f r) = rv_id r \<and> \<not> open_status (f r)" "update_where P f rs = (n, rs')" "0 < n"
  shows "(\<exists>r \<in> set rs. rv_id r = i \<and> rv_ledger_key r = key \<and> open_status r) \<and>
         \<not> (\<exists>r \<in> set rs'. rv_id r = i \<and> rv_ledger_key r = key \<and> open_status r)"
proof -
  obtain r where r: "r \<in> set rs" "P r"
    using assms(4,5) by (auto simp: update_where_def filter_empty_conv)
  have "False" if "q \<in> set rs'" "rv_id q = i" "open_status q" for q
  proof -
    from that assms(3,4) have q: "q \<in> set rs" "\<not> P q" by (auto simp: update_where_def split: if_splits)
    then have "q = r" using assms(1,2) r that(2) by (metis distinct_map inj_onD)
    with q r show False by simp
  qed
  with r assms(2) show ?thesis by blast
qed

lemma closes_closes:
  assumes "unique_ids db" "closes key i op db"
  shows "open_row key i db \<and> \<not> open_row key i (store_step op db)"
proof (cases op)
  case (S_settle st ref p now mo)
  then obtain row where s: "ref_reservation_id ref = i" "sc_ledger_key st = key"
      "settle_body st ref p row now db = Inr (True, store_step op db)"
    using assms(2) by (auto simp: settle_after_commit_def transact_def split: if_splits sum.splits)
  define db' where "db' = store_step op db"
  from s obtain n rs where u: "update_where (\<lambda>r. rv_id r = i \<and> rv_ledger_key r = key \<and> open_status r)
        (\<lambda>r. r\<lparr>rv_status := Rv_settled, rv_actual_cost := Some (pj_cost_usd p),
               rv_actual_tokens := Some (tokens_total p),
               rv_actual_cache_read := Some (pj_cache_read_tokens p), rv_settled_at := Some now\<rparr>)
        (rd_reservations db) = (n, rs)" "0 < n" "rd_reservations db' = rs"
    unfolding db'_def[symmetric] by (auto simp: settle_body_def split: option.splits if_splits prod.splits)
  show ?thesis
    using update_where_closes[OF assms(1)[unfolded unique_ids_def] _ _ u(1,2), of i key]
    unfolding db'_def[symmetric] open_row_def u(3)
    by (simp add: open_status_def)
next
  case (S_release st ref now)
  then have s: "ref_reservation_id ref = i" "sc_ledger_key st = key"
      "release_body st ref now db = Inr (True, store_step op db)"
    using assms(2) by (auto simp: release_unsent_def transact_def split: if_splits sum.splits)
  define db' where "db' = store_step op db"
  from s obtain n rs where u: "update_where (\<lambda>r. rv_id r = i \<and> rv_ledger_key r = key \<and> rv_status r = Rv_active)
        (\<lambda>r. r\<lparr>rv_status := Rv_released, rv_settled_at := Some now\<rparr>)
        (rd_reservations db) = (n, rs)" "0 < n" "rd_reservations db' = rs"
    unfolding db'_def[symmetric] by (auto simp: release_body_def ebind_eq_Inr split: if_splits prod.splits)
  show ?thesis
    using update_where_closes[OF assms(1)[unfolded unique_ids_def] _ _ u(1,2), of i key]
    unfolding db'_def[symmetric] open_row_def u(3)
    by (simp add: open_status_def)
qed (use assms(2) in simp_all)

lemma open_row_back:
  "\<not> draws i op \<Longrightarrow> open_row key i (store_step op db) \<Longrightarrow> open_row key i db"
  using store_step_table[of op db] by (auto simp: open_row_def table_change_def)

lemma unique_ids_step: "unique_ids db \<Longrightarrow> unique_ids (store_step op db)"
  using store_step_table[of op db] by (simp add: unique_ids_def table_change_def)

interpretation close_once: one_shot
  "\<lambda>op db. if draws i op then (False, db) else close_act key i op db" "open_row key i" unique_ids for key i
  by unfold_locales
    (auto simp: close_act_def closes_closes unique_ids_step split: if_splits dest: open_row_back)

lemma wins_cong:
  "(\<And>e s. e \<in> set es \<Longrightarrow> f e s = g e s) \<Longrightarrow> wins f es s = wins g es s"
  by (induction es arbitrary: s) (auto split: prod.splits)

text \<open>
  A reservation is closed at most once: over any interleaving of operations of any stores in
  which its random identifier is not drawn again, at most one settlement or release of a given
  reservation reports success.
\<close>

lemma reservation_closed_at_most_once:
  assumes "unique_ids db" "\<forall>op \<in> set ops. \<not> draws i op"
  shows "wins (close_act key i) ops db \<le> 1"
proof -
  have "wins (close_act key i) ops db =
      wins (\<lambda>op db. if draws i op then (False, db) else close_act key i op db) ops db"
    using assms(2) by (intro wins_cong) simp
  then show ?thesis using close_once.wins_at_most_once[OF assms(1)] by simp
qed

theorem reservation_closed_at_most_once_witness:
  "wins (close_act (sc_ledger_key example_store) ''tpr_old'')
     [S_release example_store \<lparr>ref_store_path = ''/guard.db'', ref_ledger_key = sc_ledger_key example_store,
        ref_reservation_id = ''tpr_old'', ref_accounting_basis = Priced_usage\<rparr> 5]
     (example_rdb\<lparr>rd_reservations := [stale_row]\<rparr>) \<le> 1"
  by (rule reservation_closed_at_most_once) (simp_all add: unique_ids_def)

section \<open>A burst of reservations\<close>

definition reserved_cost :: "string \<Rightarrow> committed \<Rightarrow> reservation_db \<Rightarrow> money" where
  "reserved_cost key com db =
     sum_where (\<lambda>r. rv_ledger_key r = key \<and> open_status r \<and> map_of com (rv_id r) = None) rv_cost_usd (rd_reservations db)"

lemma add_row_fleet: "ru_fleet_cost_usd (add_row ag Priced_usage r u) = ru_fleet_cost_usd u + rv_cost_usd r"
  by (simp add: add_row_def Let_def)

lemma active_loop_fleet:
  "active_loop ag Priced_usage now com rs u = Inr act \<Longrightarrow>
   ru_fleet_cost_usd act = ru_fleet_cost_usd u + sum_where (\<lambda>r. map_of com (rv_id r) = None) rv_cost_usd rs"
proof (induction rs arbitrary: u)
  case (Cons r rs)
  then show ?case
    by (auto simp: ebind_eq_Inr add_row_fleet split: option.splits if_splits)
qed simp

lemma active_fleet:
  assumes "active st ag now com db = Inr act" "sc_basis st = Priced_usage"
  shows "ru_fleet_cost_usd act = reserved_cost (sc_ledger_key st) com db"
proof -
  have "sum_where Q f (filter P rs) = sum_where (\<lambda>r. P r \<and> Q r) f rs" for P Q and f :: "reservation_row \<Rightarrow> money" and rs
    by (simp add: sum_where_def conj_commute)
  moreover have "active_loop ag Priced_usage now com
      (filter (\<lambda>r. rv_ledger_key r = sc_ledger_key st \<and> open_status r) (rd_reservations db)) blank_usage = Inr act"
    using assms by (auto simp: active_def ebind_eq_Inr)
  ultimately show ?thesis
    using active_loop_fleet by (fastforce simp: reserved_cost_def blank_usage_def conj_assoc)
qed

definition recorded_cost :: "ledger_env \<Rightarrow> int \<Rightarrow> secs \<Rightarrow> monitor_state \<Rightarrow> money" where
  "recorded_cost env window now mo =
     sum_where (\<lambda>r. str_le (le_stamp env (now - of_int window)) (mr_timestamp r)) (\<lambda>r. col (mr_estimated_cost r)) (mo_rows mo)"

definition fleet_cost :: "ledger_env \<Rightarrow> store_config \<Rightarrow> int \<Rightarrow> secs \<Rightarrow> reservation_db \<times> monitor_state \<Rightarrow> money" where
  "fleet_cost env st window now s =
     recorded_cost env window now (snd s) +
     reserved_cost (sc_ledger_key st) (committed_rows (sc_ledger_key st) (mo_rows (snd s))) (fst s)"

definition try_reserve ::
  "ledger_env \<Rightarrow> store_config \<Rightarrow> secs \<Rightarrow> reserve_args \<times> string \<Rightarrow> reservation_db \<times> monitor_state \<Rightarrow>
   bool \<times> (reservation_db \<times> monitor_state)" where
  "try_reserve env st now q s =
     (case reserve env st (fst q) (snd q) now s of
        (Inr (Some ref, None), s') \<Rightarrow> (True, s')
      | (_, s') \<Rightarrow> (False, s'))"

definition offered :: "store_config \<Rightarrow> int \<Rightarrow> money \<Rightarrow> reserve_args \<times> string \<Rightarrow> reservation_db \<times> monitor_state \<Rightarrow> bool" where
  "offered st window cap q s =
     (rcc_enabled (ra_caps (fst q)) \<and> \<not> ra_force (fst q) \<and> rcc_window_seconds (ra_caps (fst q)) = window \<and>
      rcc_per_fleet_max_cost_usd (ra_caps (fst q)) = cap \<and>
      \<not> isl (ReservationRef (sc_path st) (sc_ledger_key st) (snd q) (sc_basis st)) \<and>
      snd q \<notin> mr_guard_reservation_id ` set (mo_rows (snd s)))"

lemma recorded_fleet:
  assumes "recorded env st ag window now req db mo = Inr (rec, com)" "sc_basis st = Priced_usage"
  shows "ru_fleet_cost_usd rec = recorded_cost env window now mo"
  using assms
  by (auto simp: recorded_def ebind_eq_Inr query_recorded_usage_def sum_columns_def recorded_cost_def Let_def)

lemma reserve_refused:
  assumes "try_reserve env st now (a, rid) (db, mo) = (False, s')"
    "\<not> isl (ReservationRef (sc_path st) (sc_ledger_key st) rid (sc_basis st))"
  shows "fst s' = db \<and> mo_rows (snd s') = mo_rows mo"
proof -
  have same: "reserve_body env st a rid now mo' db = Inr (Some b, db') \<Longrightarrow> db' = db" for mo' b db'
    by (auto simp: reserve_body_def ebind_eq_Inr split: option.splits)
  obtain ref where ref: "ReservationRef (sc_path st) (sc_ledger_key st) rid (sc_basis st) = Inr ref"
    using assms(2) by (auto simp: isl_def split: sum.splits) (metis sum.exhaust)
  show ?thesis
    using assms(1)
    by (auto simp: try_reserve_def reserve_def ref transact_def bind_domain_rows dest!: same
        split: sum.splits option.splits prod.splits)
qed

lemma reserve_granted:
  assumes "try_reserve env st now (a, rid) (db, mo) = (True, s')" "sc_basis st = Priced_usage"
    "offered st window cap (a, rid) (db, mo)" "0 < cap"
  shows "fleet_cost env st window now s' = fleet_cost env st window now (db, mo) + pj_cost_usd (ra_projection a)"
    and "fleet_cost env st window now s' \<le> cap"
proof -
  let ?com = "committed_rows (sc_ledger_key st) (mo_rows mo)" and ?r = "reservation_of st rid now a"
  obtain ref db' mo' where run: "reserve env st a rid now (db, mo) = (Inr (Some ref, None), (db', mo'))"
    and s': "s' = (db', mo')"
    using assms(1) by (auto simp: try_reserve_def split: prod.splits sum.splits option.splits)
  obtain db1 db2 where r: "bind_domain st mo = Inr mo'" "bind_basis st db = Inr db1"
    "maintain_history st (rcc_window_seconds (ra_caps a)) now db1 = Inr db2" "check_caps env st a now mo' db2 = Inr None"
    "db' = generation_changed (sc_ledger_key st) (db2\<lparr>rd_reservations := rd_reservations db2 @ [?r]\<rparr>)"
    using reserve_okE[OF run] by metis
  have o: "rcc_enabled (ra_caps a)" "\<not> ra_force a" "rcc_window_seconds (ra_caps a) = window"
      "rcc_per_fleet_max_cost_usd (ra_caps a) = cap" "rid \<notin> mr_guard_reservation_id ` set (mo_rows mo)"
    using assms(3) by (simp_all add: offered_def)
  have rows: "mo_rows mo' = mo_rows mo" using bind_domain_rows[OF r(1)] by simp
  have fresh: "map_of ?com rid = None" using o(5) by (intro committed_rows_None) (auto simp: image_iff)
  have keep: "reserved_cost (sc_ledger_key st) ?com db2 = reserved_cost (sc_ledger_key st) ?com db"
    using maintain_history_open[OF r(3), of "\<lambda>r. rv_ledger_key r = sc_ledger_key st \<and> open_status r \<and> map_of ?com (rv_id r) = None"]
      bind_basis_rows[OF r(2)] by (simp add: reserved_cost_def sum_where_def)
  have add: "reserved_cost (sc_ledger_key st) ?com db' =
      reserved_cost (sc_ledger_key st) ?com db + pj_cost_usd (ra_projection a)"
    using fresh by (simp add: r(5) reserved_cost_def[of _ _ "generation_changed _ _"] reserved_cost_def[of _ _ db2]
        keep[symmetric] reservation_of_def open_status_def)
  then show "fleet_cost env st window now s' = fleet_cost env st window now (db, mo) + pj_cost_usd (ra_projection a)"
    by (simp add: s' fleet_cost_def rows recorded_cost_def)
  obtain rec com act req where c:
    "recorded env st (lower (ra_agent_id a)) (rcc_window_seconds (ra_caps a)) now req db2 mo' = Inr (rec, com)"
    "active st (lower (ra_agent_id a)) now com db2 = Inr act"
    "within_caps (lower (ra_agent_id a)) (ra_caps a)
       (add_usage rec (add_row (lower (ra_agent_id a)) Priced_usage ?r act))"
    using check_caps_NoneE[OF r(4) o(2,1)] by metis
  have com: "com = ?com" using recorded_committed[OF assms(2) c(1)] rows by simp
  have "ru_fleet_cost_usd rec + (ru_fleet_cost_usd act + pj_cost_usd (ra_projection a)) \<le> cap"
    using c(3) o(4) assms(4)
    by (simp add: within_caps_def exceeds_def add_usage_def add_row_fleet) (simp add: reservation_of_def)
  then show "fleet_cost env st window now s' \<le> cap"
    using recorded_fleet[OF c(1) assms(2)] active_fleet[OF c(2) assms(2)] add keep
    by (simp add: s' fleet_cost_def rows com o(3) recorded_cost_def)
qed

definition metered :: "store_config \<Rightarrow> int \<Rightarrow> money \<Rightarrow> reserve_args \<times> string \<Rightarrow> reservation_db \<times> monitor_state \<Rightarrow> bool" where
  "metered st window cap q s = (offered st window cap q s \<and> sc_basis st = Priced_usage \<and> 0 < cap)"

interpretation reserve_meter: capped_meter
  "fleet_cost env st window now" "try_reserve env st now" "\<lambda>q. pj_cost_usd (ra_projection (fst q))" cap
  "\<lambda>_. True" "metered st window cap" for env st window now cap
proof
  fix s :: "reservation_db \<times> monitor_state" and q :: "reserve_args \<times> string" and granted s'
  assume m: "metered st window cap q s" and step: "try_reserve env st now q s = (granted, s')"
  obtain a rid where q: "q = (a, rid)" by (cases q)
  obtain db mo where s: "s = (db, mo)" by (cases s)
  show "fleet_cost env st window now s' =
      fleet_cost env st window now s + (if granted then pj_cost_usd (ra_projection (fst q)) else 0)"
  proof (cases granted)
    case True
    then show ?thesis using reserve_granted(1)[of env st now a rid db mo s' window cap] m step
      by (simp add: q s metered_def)
  next
    case False
    have "fst s' = db \<and> mo_rows (snd s') = mo_rows mo"
      using reserve_refused[of env st now a rid db mo s'] m step False by (auto simp: q s metered_def offered_def)
    with False show ?thesis by (simp add: s fleet_cost_def recorded_cost_def)
  qed
next
  fix s :: "reservation_db \<times> monitor_state" and q :: "reserve_args \<times> string" and s'
  assume "metered st window cap q s" "try_reserve env st now q s = (True, s')"
  then show "fleet_cost env st window now s' \<le> cap"
    using reserve_granted(2)[of env st now "fst q" "snd q" "fst s" "snd s" s' window cap] by (simp add: metered_def)
qed simp_all

lemma try_reserve_rows:
  assumes "try_reserve env st now q s = (granted, s')" "offered st window cap q s"
  shows "mo_rows (snd s') = mo_rows (snd s)"
proof (cases granted)
  case True
  then show ?thesis
    using assms(1) bind_domain_rows
    by (cases q; cases s) (auto simp: try_reserve_def elim!: reserve_okE split: prod.splits sum.splits option.splits)
next
  case False
  then show ?thesis
    using assms reserve_refused[of env st now "fst q" "snd q" "fst s" "snd s" s'] by (simp add: offered_def)
qed

lemma all_offered_valid:
  "\<forall>q \<in> set qs. offered st window cap q s \<Longrightarrow> sc_basis st = Priced_usage \<Longrightarrow> 0 < cap \<Longrightarrow>
   reserve_meter.all_valid env st now window cap qs s"
proof (induction qs arbitrary: s)
  case (Cons q qs)
  have "mo_rows (snd (snd (try_reserve env st now q s))) = mo_rows (snd s)"
    using Cons.prems(1) try_reserve_rows[of env st now q s] by (metis list.set_intros(1) prod.collapse)
  then have "\<forall>p \<in> set qs. offered st window cap p (snd (try_reserve env st now q s))"
    using Cons.prems(1) by (simp add: offered_def)
  then have "reserve_meter.all_valid env st now window cap qs (snd (try_reserve env st now q s))"
    using Cons.IH Cons.prems(2,3) by blast
  moreover have "metered st window cap q s"
    using Cons.prems by (simp add: metered_def)
  ultimately show ?case by simp
qed simp

text \<open>
  C10.  However many processes ask, the durable store never over-commits: a run of capped reserve
  calls against one ledger reading leaves recorded cost plus live reservations at or below the
  fleet cost cap, and grown by exactly the projections of the calls that were granted.
\<close>

theorem reservations_never_overshoot_fleet_cap:
  assumes "\<forall>q \<in> set qs. offered st window cap q s" "sc_basis st = Priced_usage" "0 < cap"
    and "fleet_cost env st window now s \<le> cap" "run_admissions (try_reserve env st now) qs s = (granted, s')"
  shows "fleet_cost env st window now s' \<le> cap \<and>
         fleet_cost env st window now s' =
           fleet_cost env st window now s + sum_list (map (\<lambda>q. pj_cost_usd (ra_projection (fst q))) granted)"
  using reserve_meter.run_under_cap[OF _ all_offered_valid[OF assms(1-3)] assms(5,4)]
    reserve_meter.run_usage[OF _ all_offered_valid[OF assms(1-3)] assms(5)] by simp

theorem reservations_never_overshoot_fleet_cap_witness:
  "\<exists>granted s'. run_admissions (try_reserve example_env example_store 1000) [(example_args, example_rid)]
       (example_rdb, example_mo) = (granted, s') \<and> granted = [(example_args, example_rid)] \<and>
     fleet_cost example_env example_store 3600 1000 s' = 2"
proof -
  obtain ref db' mo' where "reserve example_env example_store example_args example_rid 1000 (example_rdb, example_mo)
      = (Inr (Some ref, None), (db', mo'))"
    using example_reserve by blast
  then have run: "run_admissions (try_reserve example_env example_store 1000) [(example_args, example_rid)]
      (example_rdb, example_mo) = ([(example_args, example_rid)], (db', mo'))"
    by (simp add: try_reserve_def)
  have off: "\<forall>q \<in> set [(example_args, example_rid)]. offered example_store 3600 5 q (example_rdb, example_mo)"
    using example_ref by (simp add: offered_def) (simp add: example_args_def example_mo_def RollingCapsConfig_def)
  have zero: "fleet_cost example_env example_store 3600 1000 (example_rdb, example_mo) = 0"
    by (simp add: fleet_cost_def recorded_cost_def reserved_cost_def example_rdb_def example_mo_def)
  have "sc_basis example_store = Priced_usage" by (simp add: example_store_def)
  from reservations_never_overshoot_fleet_cap[OF off this _ _ run] zero run show ?thesis
    by (simp add: example_args_def)
qed

end
