(* ===== verification/Directives.thy ===== *)
theory Directives
  imports Contracts
begin

text \<open>
  What the guard reads out of a request body: the \<^verbatim>\<open>[TIP: ...]\<close> header
  (\<^verbatim>\<open>spend_guard/tip_header.py\<close>) and the yes/no intent of the last user turn
  (\<^verbatim>\<open>spend_guard/intent.py\<close>).  The regular expressions are written out as scanners.  Decoding
  a body and \<^verbatim>\<open>json.loads\<close>/\<^verbatim>\<open>json.dumps\<close> are a codec argument, since they fix bytes the guard
  never inspects.  Amounts that Python would read as an infinite or not-a-number float are
  treated as unreadable.
\<close>

section \<open>JSON documents\<close>

datatype json =
    J_null
  | J_bool bool
  | J_int int
  | J_float rat
  | J_str string
  | J_list "json list"
  | J_obj "(string \<times> json) list"

text \<open>
  \<open>jc_decode\<close>: \<^verbatim>\<open>bytes.decode(errors='replace')\<close>; \<open>jc_encode\<close>: \<^verbatim>\<open>str.encode\<close>; \<open>jc_loads\<close>: \<^verbatim>\<open>json.loads\<close> of the decoded text;
  \<open>jc_loads_bytes\<close>: \<^verbatim>\<open>json.loads\<close> of the bytes; \<open>jc_str\<close>: \<^verbatim>\<open>str\<close> of a value that is not a string.
\<close>

record json_codec =
  jc_decode :: "string \<Rightarrow> string"
  jc_encode :: "string \<Rightarrow> string"
  jc_loads :: "string \<Rightarrow> json option"
  jc_loads_bytes :: "string \<Rightarrow> json option"
  jc_dumps :: "json \<Rightarrow> string"
  jc_dumps_sorted :: "json \<Rightarrow> string"
  jc_dumps_compact :: "json \<Rightarrow> string"
  jc_str :: "json \<Rightarrow> string"

fun falsy :: "json \<Rightarrow> bool" where
  "falsy J_null = True"
| "falsy (J_bool b) = (\<not> b)"
| "falsy (J_int n) = (n = 0)"
| "falsy (J_float x) = (x = 0)"
| "falsy (J_str s) = (s = [])"
| "falsy (J_list xs) = (xs = [])"
| "falsy (J_obj kvs) = (kvs = [])"

definition get_field :: "(string \<times> json) list \<Rightarrow> string \<Rightarrow> json" where
  "get_field d k = (case map_of d k of None \<Rightarrow> J_null | Some v \<Rightarrow> v)"

text \<open>\<^verbatim>\<open>str(blk.get("text") or "")\<close>\<close>

definition block_text :: "json_codec \<Rightarrow> (string \<times> json) list \<Rightarrow> string" where
  "block_text jc blk =
     (let v = get_field blk ''text'' in
      if falsy v then [] else case v of J_str s \<Rightarrow> s | _ \<Rightarrow> jc_str jc v)"

definition is_user :: "json \<Rightarrow> bool" where
  "is_user m = (case m of J_obj d \<Rightarrow> get_field d ''role'' = J_str ''user'' | _ \<Rightarrow> False)"

definition has_type :: "string list \<Rightarrow> json \<Rightarrow> bool" where
  "has_type ts b =
     (case b of
        J_obj d \<Rightarrow> (case get_field d ''type'' of J_str t \<Rightarrow> t \<in> set ts | _ \<Rightarrow> False)
      | _ \<Rightarrow> False)"

section \<open>Amounts\<close>

definition underscores_ok :: "string \<Rightarrow> bool" where
  "underscores_ok s =
     (\<forall>i < length s. s ! i = CHR ''_'' \<longrightarrow>
        0 < i \<and> i + 1 < length s \<and> is_digit (s ! (i - 1)) \<and> is_digit (s ! (i + 1)))"

definition plain_value :: "string \<Rightarrow> nat" where
  "plain_value ds = foldl (\<lambda>n c. 10 * n + (code c - 48)) 0 ds"

text \<open>The exponent of a float literal: \<open>None\<close> if malformed.\<close>

definition exponent :: "string \<Rightarrow> int option" where
  "exponent s =
     (case s of
        [] \<Rightarrow> Some 0
      | e # rest \<Rightarrow>
          if e \<noteq> CHR ''e'' \<and> e \<noteq> CHR ''E'' then None
          else let neg = startswith rest ''-'';
                   ds = (if neg \<or> startswith rest ''+'' then drop 1 rest else rest)
               in if ds = [] \<or> \<not> list_all is_digit ds then None
                  else Some (if neg then - int (plain_value ds) else int (plain_value ds)))"

definition scale10 :: "int \<Rightarrow> rat" where
  "scale10 k = (if 0 \<le> k then 10 ^ nat k else 1 / 10 ^ nat (- k))"

definition unsigned_float :: "string \<Rightarrow> rat option" where
  "unsigned_float s =
     (let ip = takeWhile is_digit s; r1 = dropWhile is_digit s;
          dot = startswith r1 ''.'';
          fp = (if dot then takeWhile is_digit (drop 1 r1) else []);
          r2 = (if dot then dropWhile is_digit (drop 1 r1) else r1)
      in if ip = [] \<and> fp = [] then None
         else map_option (\<lambda>k. (of_nat (plain_value ip) + of_nat (plain_value fp) / 10 ^ length fp) * scale10 k)
                (exponent r2))"

text \<open>Python's \<^verbatim>\<open>float(s)\<close> on decimal literals.\<close>

definition py_float :: "string \<Rightarrow> rat option" where
  "py_float s =
     (let t = strip s; neg = startswith t ''-'';
          u = (if neg \<or> startswith t ''+'' then drop 1 t else t)
      in if \<not> underscores_ok u then None
         else map_option (\<lambda>x. if neg then - x else x) (unsigned_float (filter (\<lambda>c. c \<noteq> CHR ''_'') u)))"

text \<open>The pattern \<^verbatim>\<open>^([0-9]+(?:\.[0-9]+)?)([km])?_?tokens?$\<close> of a token ceiling.\<close>

definition token_amount :: "string \<Rightarrow> rat option" where
  "token_amount v =
     (let ip = takeWhile is_digit v; r1 = dropWhile is_digit v;
          fp = (if startswith r1 ''.'' then takeWhile is_digit (drop 1 r1) else []);
          r2 = (if fp = [] then r1 else drop (1 + length fp) r1);
          mult = (if startswith r2 ''k'' then 1000 else if startswith r2 ''m'' then 1000000 else 1);
          r3 = (if startswith r2 ''k'' \<or> startswith r2 ''m'' then drop 1 r2 else r2);
          r4 = (if startswith r3 ''_'' then drop 1 r3 else r3)
      in if ip = [] \<or> r4 \<notin> {''token'', ''tokens''} then None
         else Some ((of_nat (plain_value ip) + of_nat (plain_value fp) / 10 ^ length fp) * mult))"

section \<open>The directive registry\<close>

definition set_allow :: "string option \<Rightarrow> tip_directive \<Rightarrow> tip_directive" where
  "set_allow v d =
     (if v = Some ''once'' then d\<lparr>tip_allow_scope := Some Once\<rparr>
      else if v = Some ''15m'' then d\<lparr>tip_allow_scope := Some Fifteen_minutes\<rparr>
      else if v \<in> {Some ''session'', Some ''on'', Some ''true'', Some ''1''}
      then d\<lparr>tip_allow_scope := Some Whole_session\<rparr>
      else d)"

definition truthy_word :: "string option \<Rightarrow> bool" where
  "truthy_word v = (v \<in> {None, Some ''on'', Some ''true'', Some ''1'', Some ''yes''})"

definition set_bypass :: "string option \<Rightarrow> tip_directive \<Rightarrow> tip_directive" where
  "set_bypass v d =
     (if truthy_word v then d\<lparr>tip_bypass := True\<rparr>
      else if v \<in> {Some ''off'', Some ''false'', Some ''0'', Some ''no''} then d\<lparr>tip_bypass := False\<rparr>
      else d)"

definition set_max :: "string option \<Rightarrow> tip_directive \<Rightarrow> tip_directive" where
  "set_max v d =
     (case v of
        None \<Rightarrow> d
      | Some s \<Rightarrow>
          if s = [] then d
          else let t = strip s in
               if startswith t ''$''
               then (case py_float (drop 1 t) of None \<Rightarrow> d | Some x \<Rightarrow> d\<lparr>tip_max_cost_usd := Some x\<rparr>)
               else case token_amount (lower t) of
                      Some x \<Rightarrow> d\<lparr>tip_max_tokens := Some (trunc x)\<rparr>
                    | None \<Rightarrow> (case py_float t of None \<Rightarrow> d | Some x \<Rightarrow> d\<lparr>tip_max_tokens := Some (trunc x)\<rparr>))"

definition set_estimate :: "string option \<Rightarrow> tip_directive \<Rightarrow> tip_directive" where
  "set_estimate v d = (if truthy_word v then d\<lparr>tip_estimate_only := True\<rparr> else d)"

definition set_cancel :: "string option \<Rightarrow> tip_directive \<Rightarrow> tip_directive" where
  "set_cancel v d = (if truthy_word v then d\<lparr>tip_cancel := True\<rparr> else d)"

definition endswith :: "string \<Rightarrow> string \<Rightarrow> bool" where
  "endswith s p = startswith (rev s) (rev p)"

definition unquote :: "string \<Rightarrow> string" where
  "unquote s =
     (if (startswith s [CHR 0x22] \<and> endswith s [CHR 0x22]) \<or> (startswith s [CHR 0x27] \<and> endswith s [CHR 0x27])
      then butlast (drop 1 s) else s)"

definition set_reason :: "string option \<Rightarrow> tip_directive \<Rightarrow> tip_directive" where
  "set_reason v d = (case v of None \<Rightarrow> d | Some s \<Rightarrow> d\<lparr>tip_reason := Some (unquote (strip s))\<rparr>)"

definition DIRECTIVE_REGISTRY :: "(string, string option \<Rightarrow> tip_directive \<Rightarrow> tip_directive) dict" where
  "DIRECTIVE_REGISTRY =
     [(''allow'', set_allow), (''bypass'', set_bypass), (''max'', set_max), (''estimate'', set_estimate),
      (''cancel'', set_cancel), (''reason'', set_reason)]"

section \<open>The header parser\<close>

text \<open>The pattern \<^verbatim>\<open>^\s*\[TIP:\s*([^\]]*)\]\s*\<close>: the whole match, its group, what follows.\<close>

definition tip_match :: "string \<Rightarrow> (string \<times> string \<times> string) option" where
  "tip_match s =
     (let s1 = dropWhile is_space s in
      if lower (take 5 s1) \<noteq> ''[tip:'' then None
      else let s2 = dropWhile is_space (drop 5 s1);
               inside = takeWhile (\<lambda>c. c \<noteq> CHR '']'') s2
           in case dropWhile (\<lambda>c. c \<noteq> CHR '']'') s2 of
                [] \<Rightarrow> None
              | b # after \<Rightarrow>
                  let rest = dropWhile is_space after
                  in Some (take (length s - length rest) s, inside, rest))"

definition key_char :: "char \<Rightarrow> bool" where
  "key_char c = ((65 \<le> code c \<and> code c \<le> 90) \<or> (97 \<le> code c \<and> code c \<le> 122) \<or> c = CHR ''_'')"

definition quoted :: "char \<Rightarrow> string \<Rightarrow> (string \<times> string) option" where
  "quoted q s =
     (case s of
        [] \<Rightarrow> None
      | c # r \<Rightarrow>
          if c \<noteq> q then None
          else case dropWhile (\<lambda>c. c \<noteq> q) r of
                 [] \<Rightarrow> None
               | _ # rest \<Rightarrow> Some (takeWhile (\<lambda>c. c \<noteq> q) r, rest))"

definition bare_char :: "char \<Rightarrow> bool" where
  "bare_char c = (\<not> is_space c \<and> c \<noteq> CHR '']'')"

definition nonempty :: "string \<Rightarrow> string option" where
  "nonempty s = (if s = [] then None else Some s)"

text \<open>The optional value after a key, and what is left; an empty quoted value counts as none.\<close>

definition kv_value :: "string \<Rightarrow> string option \<times> string" where
  "kv_value s =
     (case s of
        [] \<Rightarrow> (None, s)
      | c # r \<Rightarrow>
          if c \<noteq> CHR ''='' then (None, s)
          else case quoted (CHR 0x22) r of
                 Some (q, rest) \<Rightarrow> (nonempty q, rest)
               | None \<Rightarrow>
                   (case quoted (CHR 0x27) r of
                      Some (q, rest) \<Rightarrow> (nonempty q, rest)
                    | None \<Rightarrow>
                        let b = takeWhile bare_char r
                        in if b = [] then (None, s) else (Some b, dropWhile bare_char r)))"

lemma length_dropWhile: "length (dropWhile P s) \<le> length s"
  by (induction s) auto

lemma quoted_shorter: "quoted q s = Some (v, rest) \<Longrightarrow> length rest < length s"
proof -
  assume "quoted q s = Some (v, rest)"
  then obtain c r d where r: "s = c # r" "dropWhile (\<lambda>c. c \<noteq> q) r = d # rest"
    by (auto simp: quoted_def split: list.splits if_splits)
  then have "length (d # rest) \<le> length r" using length_dropWhile[of "\<lambda>c. c \<noteq> q" r] by simp
  with r(1) show ?thesis by simp
qed

lemma kv_value_shorter: "length (snd (kv_value s)) \<le> length s"
  using length_dropWhile[of bare_char "tl s"]
  by (auto simp: kv_value_def Let_def le_SucI split: list.splits option.splits dest!: quoted_shorter)

lemma kv_step_shorter: "kv_value (dropWhile key_char cs) = (v, rest) \<Longrightarrow> length rest < Suc (length cs)"
  using kv_value_shorter[of "dropWhile key_char cs"] length_dropWhile[of key_char cs] by simp

text \<open>\<^verbatim>\<open>_KV_RE.finditer\<close>: keys with their values, everything else skipped.\<close>

function kv_scan :: "string \<Rightarrow> (string \<times> string option) list" where
  "kv_scan s =
     (case s of
        [] \<Rightarrow> []
      | c # cs \<Rightarrow>
          if key_char c
          then (case kv_value (dropWhile key_char cs) of
                  (v, rest) \<Rightarrow> (c # takeWhile key_char cs, v) # kv_scan rest)
          else kv_scan cs)"
  by pat_completeness auto

termination
  by (relation "measure length") (auto dest: kv_step_shorter[OF sym])

declare kv_scan.simps [simp del]

definition apply_kv :: "string \<times> string option \<Rightarrow> tip_directive \<Rightarrow> tip_directive" where
  "apply_kv kv d =
     (let key = lower (fst kv) in
      case map_of DIRECTIVE_REGISTRY key of
        None \<Rightarrow> d\<lparr>tip_unknown_keys := tip_unknown_keys d @ [key]\<rparr>
      | Some handler \<Rightarrow> handler (snd kv) d)"

definition parse_tip_header :: "string \<Rightarrow> tip_directive option \<times> string" where
  "parse_tip_header s =
     (case tip_match s of
        None \<Rightarrow> (None, s)
      | Some (raw, inside, rest) \<Rightarrow>
          (Some (fold apply_kv (kv_scan (strip inside)) (TIPDirective\<lparr>tip_raw := strip raw\<rparr>)), rest))"

definition strip_tip_header :: "string \<Rightarrow> string" where
  "strip_tip_header s = snd (parse_tip_header s)"

section \<open>The header in a request body\<close>

datatype 'a turn = Turn_skip | Turn_plain | Turn_found tip_directive 'a

definition map_turn_body :: "('a \<Rightarrow> 'b) \<Rightarrow> 'a turn \<Rightarrow> 'b turn" where
  "map_turn_body f t = (case t of Turn_skip \<Rightarrow> Turn_skip | Turn_plain \<Rightarrow> Turn_plain | Turn_found d x \<Rightarrow> Turn_found d (f x))"

definition strip_text :: "string \<Rightarrow> string turn" where
  "strip_text s = (case parse_tip_header s of (None, _) \<Rightarrow> Turn_plain | (Some d, rem) \<Rightarrow> Turn_found d rem)"

text \<open>Only the first text block of the turn is looked at.\<close>

fun strip_blocks :: "json_codec \<Rightarrow> string list \<Rightarrow> json list \<Rightarrow> json list turn" where
  "strip_blocks jc ts [] = Turn_skip"
| "strip_blocks jc ts (b # bs) =
     (case b of
        J_obj blk \<Rightarrow>
          if has_type ts b
          then map_turn_body (\<lambda>rem. J_obj (AList.update ''text'' (J_str rem) blk) # bs) (strip_text (block_text jc blk))
          else map_turn_body (\<lambda>bs'. b # bs') (strip_blocks jc ts bs)
      | _ \<Rightarrow> map_turn_body (\<lambda>bs'. b # bs') (strip_blocks jc ts bs))"

definition strip_message :: "json_codec \<Rightarrow> string list \<Rightarrow> (string \<times> json) list \<Rightarrow> json turn" where
  "strip_message jc ts m =
     map_turn_body (\<lambda>c. J_obj (AList.update ''content'' c m))
       (case get_field m ''content'' of
          J_str s \<Rightarrow> map_turn_body J_str (strip_text s)
        | J_list bs \<Rightarrow> map_turn_body J_list (strip_blocks jc ts bs)
        | _ \<Rightarrow> Turn_skip)"

text \<open>The loop over the reversed history; it stops at the latest user message.\<close>

fun strip_history :: "json_codec \<Rightarrow> string list \<Rightarrow> json list \<Rightarrow> json list turn" where
  "strip_history jc ts [] = Turn_skip"
| "strip_history jc ts (m # ms) =
     (case m of
        J_obj d \<Rightarrow>
          if is_user m then map_turn_body (\<lambda>m'. m' # ms) (strip_message jc ts d)
          else map_turn_body (\<lambda>ms'. m # ms') (strip_history jc ts ms)
      | _ \<Rightarrow> map_turn_body (\<lambda>ms'. m # ms') (strip_history jc ts ms))"

definition messages_of :: "(string \<times> json) list \<Rightarrow> json list" where
  "messages_of d = (case get_field d ''messages'' of J_list ms \<Rightarrow> ms | _ \<Rightarrow> [])"

definition strip_document :: "json_codec \<Rightarrow> (string \<times> json) list \<Rightarrow> (string \<times> json) list turn" where
  "strip_document jc d =
     (case strip_history jc [''text''] (rev (messages_of d)) of
        Turn_skip \<Rightarrow>
          map_turn_body (\<lambda>v. AList.update ''input'' v d)
            (case get_field d ''input'' of
               J_str s \<Rightarrow> map_turn_body J_str (strip_text s)
             | J_list items \<Rightarrow>
                 map_turn_body (\<lambda>its. J_list (rev its)) (strip_history jc [''input_text'', ''text''] (rev items))
             | _ \<Rightarrow> Turn_skip)
      | t \<Rightarrow> map_turn_body (\<lambda>ms. AList.update ''messages'' (J_list (rev ms)) d) t)"

definition parse_and_strip_tip_header :: "json_codec \<Rightarrow> string \<Rightarrow> tip_directive option \<times> string" where
  "parse_and_strip_tip_header jc body =
     (if body = [] then (None, body)
      else case jc_loads jc (jc_decode jc body) of
             None \<Rightarrow> (case parse_tip_header (jc_decode jc body) of
                       (None, _) \<Rightarrow> (None, body)
                     | (Some d, rem) \<Rightarrow> (Some d, jc_encode jc rem))
           | Some (J_obj doc) \<Rightarrow>
               (case strip_document jc doc of
                  Turn_found d doc' \<Rightarrow> (Some d, jc_encode jc (jc_dumps jc (J_obj doc')))
                | _ \<Rightarrow> (None, body))
           | Some _ \<Rightarrow> (None, body))"

section \<open>Intent\<close>

datatype intent = Positive | Negative | Ambiguous

definition POSITIVE :: "string list" where
  "POSITIVE =
     [''yes'', ''y'', ''yeah'', ''yep'', ''yup'', ''yea'', ''ok'', ''okay'', ''k'', ''go'', ''go ahead'', ''go for it'',
      ''send it'', ''proceed'', ''continue'', ''approve'', ''approved'', ''sure'', ''fine'', ''alright'', ''all right'',
      ''do it'', ''run it'', ''ship it'', ''let'' @ [CHR 0x27] @ ''s go'', ''lets go'', ''confirm'', ''confirmed'']"

definition NEGATIVE :: "string list" where
  "NEGATIVE =
     [''no'', ''n'', ''nope'', ''nah'', ''stop'', ''halt'', ''kill'', ''kill it'', ''cancel'', ''quit'', ''exit'', ''abort'',
      ''block'', ''deny'', ''denied'', ''reject'', ''rejected'', ''don'' @ [CHR 0x27] @ ''t'', ''dont'', ''do not'',
      ''nevermind'', ''never mind'', ''skip'']"

definition word_char :: "char \<Rightarrow> bool" where
  "word_char c =
     (let n = code c in
      (48 \<le> n \<and> n \<le> 57) \<or> (65 \<le> n \<and> n \<le> 90) \<or> (97 \<le> n \<and> n \<le> 122) \<or> n = 95 \<or>
      n \<in> {170, 178, 179, 181, 185, 186, 188, 189, 190} \<or> (192 \<le> n \<and> n \<noteq> 215 \<and> n \<noteq> 247))"

text \<open>\<^verbatim>\<open></\1\s*>\<close> at the front of the text: what follows it.\<close>

definition close_tag :: "string \<Rightarrow> string \<Rightarrow> string option" where
  "close_tag name s =
     (if startswith s ''</'' \<and> lower (take (length name) (drop 2 s)) = name
      then (case dropWhile is_space (drop (2 + length name) s) of
              [] \<Rightarrow> None
            | c # rest \<Rightarrow> if c = CHR ''>'' then Some rest else None)
      else None)"

fun after_close :: "string \<Rightarrow> string \<Rightarrow> string option" where
  "after_close name [] = None"
| "after_close name (c # s) =
     (case close_tag name (c # s) of Some rest \<Rightarrow> Some rest | None \<Rightarrow> after_close name s)"

text \<open>\<^verbatim>\<open><name\b[^>]*>.*?</name\s*>\<close> at the front of the text.\<close>

definition background_named :: "string \<Rightarrow> string \<Rightarrow> string option" where
  "background_named name s =
     (let r = drop (1 + length name) s in
      if \<not> startswith s ''<'' \<or> lower (take (length name) (drop 1 s)) \<noteq> name \<or> (r \<noteq> [] \<and> word_char (hd r)) then None
      else case dropWhile (\<lambda>c. c \<noteq> CHR ''>'') r of [] \<Rightarrow> None | _ # inner \<Rightarrow> after_close name inner)"

definition background :: "string \<Rightarrow> string option" where
  "background s =
     (case background_named ''task-notification'' s of
        Some rest \<Rightarrow> Some rest
      | None \<Rightarrow> background_named ''system-reminder'' s)"

lemma close_tag_shorter: "close_tag name s = Some rest \<Longrightarrow> length rest < length s"
proof -
  assume a: "close_tag name s = Some rest"
  then obtain c where "dropWhile is_space (drop (2 + length name) s) = c # rest"
    by (auto simp: close_tag_def split: if_splits list.splits)
  then have "length (c # rest) \<le> length (drop (2 + length name) s)"
    using length_dropWhile[of is_space "drop (2 + length name) s"] by simp
  then show ?thesis by simp
qed

lemma after_close_shorter: "after_close name s = Some rest \<Longrightarrow> length rest < length s"
  by (induction name s rule: after_close.induct)
    (auto split: option.splits dest!: close_tag_shorter)

lemma background_named_shorter: "background_named name s = Some rest \<Longrightarrow> length rest < length s"
proof -
  assume a: "background_named name s = Some rest"
  then obtain c inner where i: "dropWhile (\<lambda>c. c \<noteq> CHR ''>'') (drop (1 + length name) s) = c # inner"
      "after_close name inner = Some rest"
    by (auto simp: background_named_def Let_def split: if_splits list.splits)
  have "length (c # inner) \<le> length (drop (1 + length name) s)"
    using length_dropWhile[of "\<lambda>c. c \<noteq> CHR ''>''" "drop (1 + length name) s"] i(1) by simp
  then show ?thesis using after_close_shorter[OF i(2)] by simp
qed

lemma background_shorter: "background s = Some rest \<Longrightarrow> length rest < length s"
  by (auto simp: background_def split: option.splits dest: background_named_shorter)

text \<open>\<^verbatim>\<open>_BACKGROUND.sub("", text)\<close>\<close>

function drop_background :: "string \<Rightarrow> string" where
  "drop_background s =
     (case s of
        [] \<Rightarrow> []
      | c # cs \<Rightarrow> (case background s of Some rest \<Rightarrow> drop_background rest | None \<Rightarrow> c # drop_background cs))"
  by pat_completeness auto

termination
  by (relation "measure length") (auto dest: background_shorter)

declare drop_background.simps [simp del]

definition human_text :: "string \<Rightarrow> string" where
  "human_text s = strip (drop_background s)"

text \<open>\<^verbatim>\<open>"\n".join\<close>\<close>

fun intercalate_nl :: "string list \<Rightarrow> string" where
  "intercalate_nl [] = []"
| "intercalate_nl [s] = s"
| "intercalate_nl (s # t # ts) = s @ [CHR 0x0A] @ intercalate_nl (t # ts)"

fun last_message_text :: "json_codec \<Rightarrow> json list \<Rightarrow> string option" where
  "last_message_text jc [] = None"
| "last_message_text jc (m # ms) =
     (case m of
        J_obj d \<Rightarrow>
          if \<not> is_user m then last_message_text jc ms
          else (case get_field d ''content'' of
                  J_str s \<Rightarrow> Some s
                | J_list bs \<Rightarrow>
                    Some (intercalate_nl (map (\<lambda>b. case b of J_obj blk \<Rightarrow> block_text jc blk | _ \<Rightarrow> [])
                            (filter (has_type [''text'']) bs)))
                | _ \<Rightarrow> None)
      | _ \<Rightarrow> last_message_text jc ms)"

fun last_block_text :: "json_codec \<Rightarrow> json list \<Rightarrow> string" where
  "last_block_text jc [] = []"
| "last_block_text jc (b # bs) =
     (case b of
        J_obj blk \<Rightarrow> if has_type [''input_text'', ''text''] b then block_text jc blk else last_block_text jc bs
      | _ \<Rightarrow> last_block_text jc bs)"

fun last_input_text :: "json_codec \<Rightarrow> json list \<Rightarrow> string" where
  "last_input_text jc [] = []"
| "last_input_text jc (m # ms) =
     (case m of
        J_obj d \<Rightarrow>
          if \<not> is_user m then last_input_text jc ms
          else (case get_field d ''content'' of
                  J_str s \<Rightarrow> s
                | J_list bs \<Rightarrow> last_block_text jc (rev bs)
                | _ \<Rightarrow> [])
      | _ \<Rightarrow> last_input_text jc ms)"

definition last_user_text :: "json_codec \<Rightarrow> string \<Rightarrow> string" where
  "last_user_text jc body =
     (case jc_loads jc (jc_decode jc body) of
        None \<Rightarrow> if body = [] then [] else jc_decode jc body
      | Some (J_obj d) \<Rightarrow>
          (case last_message_text jc (rev (messages_of d)) of
             Some s \<Rightarrow> s
           | None \<Rightarrow> (case get_field d ''input'' of
                        J_str s \<Rightarrow> s
                      | J_list items \<Rightarrow> last_input_text jc (rev items)
                      | _ \<Rightarrow> []))
      | Some _ \<Rightarrow> [])"

definition has_human_text :: "json_codec \<Rightarrow> string \<Rightarrow> bool" where
  "has_human_text jc body = (human_text (last_user_text jc body) \<noteq> [])"

definition is_punctuation :: "char \<Rightarrow> bool" where
  "is_punctuation c =
     (let n = code c in (33 \<le> n \<and> n \<le> 47) \<or> (58 \<le> n \<and> n \<le> 64) \<or> (91 \<le> n \<and> n \<le> 96) \<or> (123 \<le> n \<and> n \<le> 126))"

definition trailing_char :: "char \<Rightarrow> bool" where
  "trailing_char c = (is_punctuation c \<or> c \<in> {CHR '' '', CHR 0x09, CHR 0x0A, CHR 0x0D})"

text \<open>\<^verbatim>\<open>re.sub(r"\s+", " ", s)\<close>\<close>

fun collapse :: "bool \<Rightarrow> string \<Rightarrow> string" where
  "collapse sp [] = []"
| "collapse sp (c # cs) =
     (if is_space c then (if sp then collapse True cs else CHR '' '' # collapse True cs)
      else c # collapse False cs)"

definition normalize :: "string \<Rightarrow> string" where
  "normalize s = collapse False (rev (dropWhile trailing_char (rev (lower (strip s)))))"

definition parse_intent :: "json_codec \<Rightarrow> string \<Rightarrow> intent" where
  "parse_intent jc body =
     (let norm = normalize (human_text (last_user_text jc body)) in
      if norm = [] then Ambiguous
      else if norm \<in> set POSITIVE then Positive
      else if norm \<in> set NEGATIVE then Negative
      else Ambiguous)"

text \<open>The part of the history up to and including the last user item.\<close>

fun up_to_user :: "json list \<Rightarrow> json list option" where
  "up_to_user [] = None"
| "up_to_user (m # rev_rest) = (if is_user m then Some (rev (m # rev_rest)) else up_to_user rev_rest)"

definition history_prefix :: "(string \<times> json) list \<Rightarrow> string \<Rightarrow> json list option" where
  "history_prefix d field = (case get_field d field of J_list xs \<Rightarrow> up_to_user (rev xs) | _ \<Rightarrow> None)"

definition approval_fingerprint :: "json_codec \<Rightarrow> (string \<Rightarrow> string) \<Rightarrow> string \<Rightarrow> string" where
  "approval_fingerprint jc sha256 body =
     (case jc_loads_bytes jc body of
        Some (J_obj d) \<Rightarrow>
          (case history_prefix d ''messages'' of
             Some h \<Rightarrow> sha256 (jc_encode jc (jc_dumps_sorted jc (J_list h)))
           | None \<Rightarrow>
               (case history_prefix d ''input'' of
                  Some h \<Rightarrow> sha256 (jc_encode jc (jc_dumps_sorted jc (J_list h)))
                | None \<Rightarrow> sha256 body))
      | _ \<Rightarrow> sha256 body)"

section \<open>Reading back a written header\<close>

definition render_kv :: "string \<times> string \<Rightarrow> string" where
  "render_kv kv = fst kv @ [CHR ''='', CHR 0x22] @ snd kv @ [CHR 0x22]"

fun render_kvs :: "(string \<times> string) list \<Rightarrow> string" where
  "render_kvs [] = []"
| "render_kvs [kv] = render_kv kv"
| "render_kvs (kv # kv' # kvs) = render_kv kv @ CHR '' '' # render_kvs (kv' # kvs)"

definition kv_ok :: "string \<times> string \<Rightarrow> bool" where
  "kv_ok kv = (fst kv \<noteq> [] \<and> list_all key_char (fst kv) \<and> snd kv \<noteq> [] \<and>
               list_all (\<lambda>c. c \<noteq> CHR 0x22 \<and> c \<noteq> CHR '']'') (snd kv))"

lemma scan_stop:
  assumes "list_all P xs" "\<not> P c"
  shows "takeWhile P (xs @ c # ys) = xs" "dropWhile P (xs @ c # ys) = c # ys"
  using assms by (induction xs) auto

lemma quoted_value: "list_all (\<lambda>c. c \<noteq> q) v \<Longrightarrow> quoted q (q # v @ q # rest) = Some (v, rest)"
  by (simp add: quoted_def scan_stop)

lemma key_char_equals [simp]: "\<not> key_char CHR ''=''" "\<not> key_char CHR '' ''"
  by (simp_all add: key_char_def code_def)

lemma kv_scan_render:
  assumes "kv_ok kv"
  shows "kv_scan (render_kv kv @ rest) = (fst kv, Some (snd kv)) # kv_scan rest"
proof -
  obtain k v where kv: "kv = (k, v)" by (cases kv)
  obtain c cs where k: "k = c # cs" "key_char c" "list_all key_char cs"
    using assms by (cases k) (auto simp: kv_ok_def kv)
  have v: "v \<noteq> []" "list_all (\<lambda>c. c \<noteq> CHR 0x22) v"
    using assms by (auto simp: kv_ok_def kv list_all_iff)
  have "kv_value (CHR ''='' # CHR 0x22 # v @ CHR 0x22 # rest) = (Some v, rest)"
    using v by (simp add: kv_value_def quoted_value nonempty_def)
  then show ?thesis
    using k by (subst kv_scan.simps) (simp add: kv render_kv_def scan_stop)
qed

lemma kv_scan_Nil [simp]: "kv_scan [] = []"
  by (simp add: kv_scan.simps)

lemma kv_scan_space: "kv_scan (CHR '' '' # s) = kv_scan s"
  by (subst kv_scan.simps) simp

lemma kv_scan_render_kvs:
  "list_all kv_ok kvs \<Longrightarrow> kv_scan (render_kvs kvs) = map (\<lambda>(k, v). (k, Some v)) kvs"
proof (induction kvs rule: render_kvs.induct)
  case (2 kv)
  then show ?case using kv_scan_render[of kv "[]"] by (simp add: split_beta)
next
  case (3 kv kv' kvs)
  then show ?case by (simp add: kv_scan_render kv_scan_space split_beta)
qed simp

lemma key_not_space: "key_char c \<Longrightarrow> \<not> is_space c"
  by (auto simp: key_char_def is_space_def code_def Let_def)

lemma quote_not_space [simp]: "\<not> is_space CHR 0x22" "\<not> is_space CHR '']''" "\<not> is_space CHR ''[''" "is_space CHR '' ''"
  by (simp_all add: is_space_def code_def)

lemma render_kv_shape:
  assumes "kv_ok kv"
  shows "\<exists>c mid. render_kv kv = c # mid @ [CHR 0x22] \<and> key_char c"
  using assms by (cases kv; cases "fst kv") (auto simp: kv_ok_def render_kv_def)

lemma render_kvs_shape:
  "list_all kv_ok kvs \<Longrightarrow> kvs \<noteq> [] \<Longrightarrow> \<exists>c mid. render_kvs kvs = c # mid @ [CHR 0x22] \<and> key_char c"
proof (induction kvs rule: render_kvs.induct)
  case (2 kv)
  then show ?case using render_kv_shape[of kv] by simp
next
  case (3 kv kv' kvs)
  then obtain c mid where "render_kvs (kv' # kvs) = c # mid @ [CHR 0x22]" by auto
  moreover obtain d mid' where "render_kv kv = d # mid' @ [CHR 0x22]" "key_char d"
    using 3 render_kv_shape[of kv] by auto
  ultimately show ?case by simp
qed simp

lemma strip_tight: "\<not> is_space c \<Longrightarrow> \<not> is_space d \<Longrightarrow> strip (c # mid @ [d]) = c # mid @ [d]"
  by (simp add: strip_def)

lemma strip_render_kvs: "list_all kv_ok kvs \<Longrightarrow> strip (render_kvs kvs) = render_kvs kvs"
proof (cases "kvs = []")
  case False
  moreover assume "list_all kv_ok kvs"
  ultimately show ?thesis
    using render_kvs_shape[of kvs] by (auto simp: strip_tight key_not_space)
qed simp

lemma key_char_bracket: "\<not> key_char CHR '']''"
  by (simp add: key_char_def code_def)

lemma render_kv_no_bracket: "kv_ok kv \<Longrightarrow> CHR '']'' \<notin> set (render_kv kv)"
  using key_char_bracket by (auto simp: kv_ok_def render_kv_def list_all_iff)

lemma render_kvs_no_bracket: "list_all kv_ok kvs \<Longrightarrow> CHR '']'' \<notin> set (render_kvs kvs)"
  by (induction kvs rule: render_kvs.induct) (simp_all add: render_kv_no_bracket)

text \<open>
  C28.  A written TIP header is read back.  Leading white space, the header with any list of
  well-formed \<^verbatim>\<open>key="value"\<close> pairs and trailing white space are consumed exactly: the directive is
  the pairs applied in order, and the remainder is the text that follows.
\<close>

theorem tip_header_roundtrip:
  assumes "list_all kv_ok kvs" "list_all is_space ws" "list_all is_space ws'" "rest = [] \<or> \<not> is_space (hd rest)"
  shows "\<exists>raw. parse_tip_header (ws @ ''[TIP: '' @ render_kvs kvs @ '']'' @ ws' @ rest) =
     (Some (fold apply_kv (map (\<lambda>(k, v). (k, Some v)) kvs) (TIPDirective\<lparr>tip_raw := raw\<rparr>)), rest)"
proof -
  have ws: "dropWhile is_space (zs @ c # s) = c # s" if "list_all is_space zs" "\<not> is_space c" for zs c s
    using that by (induction zs) auto
  have rest: "dropWhile is_space (ws' @ rest) = rest"
    using assms(3,4) by (induction ws') (auto simp: list_all_iff dropWhile_eq_self_iff)
  have bracket: "dropWhile is_space (render_kvs kvs @ CHR '']'' # s) = render_kvs kvs @ CHR '']'' # s" for s
    using render_kvs_shape[OF assms(1)] key_not_space by (cases "kvs = []") auto
  have tip: "lower (CHR ''['' # ''TIP:'') = ''[tip:''"
    by code_simp
  have "list_all (\<lambda>c. c \<noteq> CHR '']'') (render_kvs kvs)"
    using render_kvs_no_bracket[OF assms(1)] unfolding list_all_iff by blast
  then have stop: "takeWhile (\<lambda>c. c \<noteq> CHR '']'') (render_kvs kvs @ CHR '']'' # s) = render_kvs kvs"
      "dropWhile (\<lambda>c. c \<noteq> CHR '']'') (render_kvs kvs @ CHR '']'' # s) = CHR '']'' # s" for s
    by (simp_all add: scan_stop)
  have "\<exists>raw. tip_match (ws @ ''[TIP: '' @ render_kvs kvs @ '']'' @ ws' @ rest) = Some (raw, render_kvs kvs, rest)"
    by (simp add: tip_match_def ws[OF assms(2)] tip Let_def bracket stop rest)
  then show ?thesis
    by (auto simp: parse_tip_header_def strip_render_kvs[OF assms(1)] kv_scan_render_kvs[OF assms(1)])
qed

theorem tip_header_roundtrip_witness:
  "\<exists>raw. parse_tip_header ('' '' @ ''[TIP: '' @ render_kvs [(''allow'', ''once''), (''reason'', ''planned refactor'')] @ '']'' @ '' '' @ ''fix it'')
     = (Some (TIPDirective\<lparr>tip_raw := raw, tip_allow_scope := Some Once, tip_reason := Some ''planned refactor''\<rparr>), ''fix it'')"
proof -
  have ok: "list_all kv_ok [(''allow'', ''once''), (''reason'', ''planned refactor'')]" by code_simp
  have ws: "list_all is_space '' ''" "''fix it'' = [] \<or> \<not> is_space (hd ''fix it'')" by code_simp+
  have "lower ''allow'' = ''allow''" "lower ''reason'' = ''reason''" "unquote (strip ''planned refactor'') = ''planned refactor''"
    by code_simp+
  then have "fold apply_kv (map (\<lambda>(k, v). (k, Some v)) [(''allow'', ''once''), (''reason'', ''planned refactor'')])
      (TIPDirective\<lparr>tip_raw := raw\<rparr>) =
      TIPDirective\<lparr>tip_raw := raw, tip_allow_scope := Some Once, tip_reason := Some ''planned refactor''\<rparr>" for raw
    by (simp add: apply_kv_def DIRECTIVE_REGISTRY_def set_allow_def set_reason_def)
  with tip_header_roundtrip[OF ok ws(1) ws(1) ws(2)] show ?thesis by simp
qed

section \<open>Only the latest user turn is rewritten\<close>

lemma map_turn_body_found:
  "map_turn_body f t = Turn_found d y \<longleftrightarrow> (\<exists>x. t = Turn_found d x \<and> y = f x)"
  by (cases t) (auto simp: map_turn_body_def)

lemma strip_history_one:
  "strip_history jc ts ms = Turn_found d ms' \<Longrightarrow>
   \<exists>post u u' pre. ms = post @ J_obj u # pre \<and> ms' = post @ u' # pre \<and> is_user (J_obj u) \<and>
     \<not> list_ex is_user post \<and> strip_message jc ts u = Turn_found d u'"
proof (induction ms arbitrary: ms')
  case (Cons m ms)
  show ?case
  proof (cases "is_user m")
    case True
    then obtain u where u: "m = J_obj u" by (auto simp: is_user_def split: json.splits)
    with Cons.prems True obtain u' where "strip_message jc ts u = Turn_found d u'" "ms' = u' # ms"
      by (auto simp: map_turn_body_found)
    with u True have "m # ms = [] @ J_obj u # ms \<and> ms' = [] @ u' # ms \<and> is_user (J_obj u) \<and>
        \<not> list_ex is_user [] \<and> strip_message jc ts u = Turn_found d u'" by simp
    then show ?thesis by blast
  next
    case False
    then obtain ms1 where ms1: "strip_history jc ts ms = Turn_found d ms1" "ms' = m # ms1"
      using Cons.prems by (cases m) (auto simp: map_turn_body_found)
    from Cons.IH[OF ms1(1)] obtain post u u' pre where "ms = post @ J_obj u # pre" "ms1 = post @ u' # pre" "is_user (J_obj u)"
        "\<not> list_ex is_user post" "strip_message jc ts u = Turn_found d u'" by blast
    then have "m # ms = (m # post) @ J_obj u # pre \<and> ms' = (m # post) @ u' # pre \<and> is_user (J_obj u) \<and>
        \<not> list_ex is_user (m # post) \<and> strip_message jc ts u = Turn_found d u'"
      using False ms1(2) by simp
    then show ?thesis by blast
  qed
qed simp

lemma strip_message_keeps:
  "strip_message jc ts u = Turn_found d u' \<Longrightarrow>
   \<exists>c. u' = J_obj (AList.update ''content'' c u)"
  by (auto simp: strip_message_def map_turn_body_found)

text \<open>
  A TIP directive is taken from the latest user message only.  When one is found in a message
  history, the rewritten history differs from the original in the content of that one message:
  every earlier and later message, and every other field of it, is kept.
\<close>

lemma strip_touches_latest_user_turn_only:
  assumes "strip_history jc ts (rev msgs) = Turn_found d ms'"
  shows "\<exists>pre u c post. msgs = pre @ J_obj u # post \<and> rev ms' = pre @ J_obj (AList.update ''content'' c u) # post \<and>
           is_user (J_obj u) \<and> \<not> list_ex is_user post"
proof -
  obtain post u u' pre where h: "rev msgs = post @ J_obj u # pre" "ms' = post @ u' # pre" "is_user (J_obj u)"
      "\<not> list_ex is_user post" "strip_message jc ts u = Turn_found d u'"
    using strip_history_one[OF assms] by blast
  obtain c where c: "u' = J_obj (AList.update ''content'' c u)" using strip_message_keeps[OF h(5)] by blast
  have "msgs = rev pre @ J_obj u # rev post"
    using arg_cong[OF h(1), of rev] by simp
  moreover have "\<not> list_ex is_user (rev post)" using h(4) by (simp add: list_ex_iff)
  ultimately show ?thesis using h(2,3) c by (metis append.assoc append_Cons append_Nil rev.simps(2) rev_append)
qed

text \<open>A codec for bodies that are plain text.\<close>

definition plain_codec :: json_codec where
  "plain_codec = \<lparr>jc_decode = (\<lambda>s. s), jc_encode = (\<lambda>s. s), jc_loads = (\<lambda>_. None), jc_loads_bytes = (\<lambda>_. None),
     jc_dumps = (\<lambda>_. []), jc_dumps_sorted = (\<lambda>_. []), jc_dumps_compact = (\<lambda>_. []), jc_str = (\<lambda>_. [])\<rparr>"

definition example_history :: "json list" where
  "example_history = [J_obj [(''role'', J_str ''user''), (''content'', J_str ''[TIP: cancel] hi'')]]"

theorem strip_touches_latest_user_turn_only_witness:
  "\<exists>d ms'. strip_history plain_codec [''text''] (rev example_history) = Turn_found d ms' \<and>
     (\<exists>pre u c post. example_history = pre @ J_obj u # post \<and>
        rev ms' = pre @ J_obj (AList.update ''content'' c u) # post \<and> is_user (J_obj u) \<and> \<not> list_ex is_user post)"
proof -
  have "tip_match ''[TIP: cancel] hi'' = Some (''[TIP: cancel] '', ''cancel'', ''hi'')" by code_simp
  then have "\<exists>d. parse_tip_header ''[TIP: cancel] hi'' = (Some d, ''hi'')" by (simp add: parse_tip_header_def)
  then obtain d ms' where h: "strip_history plain_codec [''text''] (rev example_history) = Turn_found d ms'"
    by (auto simp: example_history_def is_user_def get_field_def strip_message_def strip_text_def map_turn_body_def)
  show ?thesis using h strip_touches_latest_user_turn_only[OF h] by blast
qed

section \<open>Background text does not speak for the user\<close>

definition background_block :: "string \<Rightarrow> string \<Rightarrow> string \<Rightarrow> string" where
  "background_block name attrs inner = ''<'' @ name @ attrs @ ''>'' @ inner @ ''</'' @ name @ ''>''"

definition block_ok :: "string \<Rightarrow> string \<Rightarrow> string \<Rightarrow> bool" where
  "block_ok name attrs inner =
     (name \<in> {''task-notification'', ''system-reminder''} \<and> list_all (\<lambda>c. c \<noteq> CHR ''>'') attrs \<and>
      (attrs = [] \<or> \<not> word_char (hd attrs)) \<and> list_all (\<lambda>c. c \<noteq> CHR ''<'') inner)"

lemma tag_names:
  assumes "name \<in> {''task-notification'', ''system-reminder''}"
  shows "lower name = name" "CHR ''>'' \<notin> set name" "\<not> is_space (hd name)"
  using assms by (auto simp: lower_def lower_char_def is_space_def code_def Let_def)

lemma close_tag_exact:
  "lower name = name \<Longrightarrow> close_tag name (''</'' @ name @ ''>'' @ rest) = Some rest"
  by (simp add: close_tag_def startswith_def is_space_def code_def)

lemma close_tag_other: "c \<noteq> CHR ''<'' \<Longrightarrow> close_tag name (c # s) = None"
  by (simp add: close_tag_def startswith_def)

lemma after_close_inner:
  assumes "list_all (\<lambda>c. c \<noteq> CHR ''<'') inner" "lower name = name"
  shows "after_close name (inner @ ''</'' @ name @ ''>'' @ rest) = Some rest"
  using assms
proof (induction inner)
  case Nil
  then show ?case using close_tag_exact[of name rest] by simp
next
  case (Cons c inner)
  then show ?case by (simp add: close_tag_other)
qed

lemma background_of_block:
  assumes "block_ok name attrs inner"
  shows "background_named name (background_block name attrs inner @ rest) = Some rest"
proof -
  have n: "lower name = name" "list_all (\<lambda>c. c \<noteq> CHR ''<'') inner" "list_all (\<lambda>c. c \<noteq> CHR ''>'') attrs"
      "attrs = [] \<or> \<not> word_char (hd attrs)"
    using assms tag_names by (auto simp: block_ok_def)
  have gt: "\<not> word_char CHR ''>''" by code_simp
  show ?thesis
    using n gt after_close_inner[OF n(2,1), of rest]
      scan_stop(2)[OF n(3), of "CHR ''>''" "inner @ ''</'' @ name @ ''>'' @ rest"]
    by (auto simp: background_named_def background_block_def startswith_def Let_def hd_append)
qed

lemma background_named_head:
  assumes "background_named name s = Some rest"
  shows "lower (take (length name) (drop 1 s)) = name"
  using assms by (auto simp: background_named_def Let_def split: if_splits)

lemma drop_background_block:
  assumes "block_ok name attrs inner"
  shows "drop_background (background_block name attrs inner @ rest) = drop_background rest"
proof -
  let ?s = "background_block name attrs inner @ rest"
  have name: "name = ''task-notification'' \<or> name = ''system-reminder''"
    using assms by (auto simp: block_ok_def)
  have "background ?s = Some rest"
  proof (cases "name = ''task-notification''")
    case True
    then show ?thesis using background_of_block[OF assms, of rest] by (simp add: background_def)
  next
    case False
    then have n: "name = ''system-reminder''" using name by simp
    then have "lower (take (length ''task-notification'') (drop 1 ?s)) \<noteq> ''task-notification''"
      by (simp add: background_block_def lower_def lower_char_def code_def)
    then have "background_named ''task-notification'' ?s = None"
      using background_named_head by (metis not_None_eq)
    then show ?thesis using background_of_block[OF assms, of rest] n by (simp add: background_def)
  qed
  moreover obtain c cs where "?s = c # cs" by (simp add: background_block_def)
  ultimately show ?thesis by (subst drop_background.simps) simp
qed

text \<open>
  Background text never approves or cancels.  Putting a task notification or system reminder
  block in front of the user's text, whatever words it contains, changes neither the intent the
  guard reads nor whether there is human text at all.
\<close>

lemma background_never_speaks:
  assumes "block_ok name attrs inner"
    and "last_user_text jc body' = background_block name attrs inner @ last_user_text jc body"
  shows "parse_intent jc body' = parse_intent jc body \<and> has_human_text jc body' = has_human_text jc body"
  using drop_background_block[OF assms(1)] by (simp add: parse_intent_def has_human_text_def human_text_def assms(2))

theorem background_never_speaks_witness:
  "parse_intent plain_codec ''<system-reminder>yes</system-reminder>'' = parse_intent plain_codec [] \<and>
   has_human_text plain_codec ''<system-reminder>yes</system-reminder>'' = has_human_text plain_codec []"
proof (rule background_never_speaks)
  show "block_ok ''system-reminder'' [] ''yes''" by code_simp
qed (simp add: last_user_text_def plain_codec_def background_block_def)

end
