(* ===== verification/Media.thy ===== *)
theory Media
  imports Directives
begin

text \<open>
  The offline size of images and documents in a request (\<^verbatim>\<open>spend_guard/media.py\<close>): dimensions read
  from the header bytes of four image formats, the providers' published token formulas, and the
  page allowance of documents.  Base64 decoding, the square root and the regular expressions that
  scan a PDF are parameters; ratios of pixels are exact.
\<close>

section \<open>Decoding\<close>

record media_env =
  md_b64decode :: "string \<Rightarrow> string option"
  md_sqrt :: "rat \<Rightarrow> rat"
  md_pdf_opaque :: "string \<Rightarrow> bool"
  md_pdf_counts :: "string \<Rightarrow> int list"

definition HEADER_BYTES :: nat where "HEADER_BYTES = 1048576"
definition PDF_BYTES :: nat where "PDF_BYTES = 32 * 1024 * 1024"
definition UNKNOWN_PDF_PAGES :: int where "UNKNOWN_PDF_PAGES = 600"
definition PDF_TEXT_TOKENS_PER_PAGE :: int where "PDF_TEXT_TOKENS_PER_PAGE = 3000"

definition b64_prefix :: "media_env \<Rightarrow> nat \<Rightarrow> string \<Rightarrow> string" where
  "b64_prefix env limit s =
     (case md_b64decode env (take ((limit + 2) div 3 * 4) s) of None \<Rightarrow> [] | Some raw \<Rightarrow> take limit raw)"

definition decode_data :: "media_env \<Rightarrow> json \<Rightarrow> nat \<Rightarrow> string" where
  "decode_data env data limit =
     (case data of
        J_str s \<Rightarrow>
          if startswith s ''data:''
          then let header = takeWhile (\<lambda>c. c \<noteq> CHR '','') s; rest = dropWhile (\<lambda>c. c \<noteq> CHR '','') s in
               if rest = [] \<or> \<not> contains '';base64'' header then [] else b64_prefix env limit (tl rest)
          else b64_prefix env limit s
      | _ \<Rightarrow> [])"

section \<open>Image headers\<close>

definition slice :: "nat \<Rightarrow> nat \<Rightarrow> 'a list \<Rightarrow> 'a list" where
  "slice a b xs = take (b - a) (drop a xs)"

definition big_endian :: "string \<Rightarrow> int" where
  "big_endian bs = foldl (\<lambda>n c. 256 * n + int (code c)) 0 bs"

definition little_endian :: "string \<Rightarrow> int" where
  "little_endian bs = big_endian (rev bs)"

text \<open>\<^verbatim>\<open>struct.unpack\<close> of two fields of \<open>k\<close> bytes; a short buffer raises, which ends in no size.\<close>

definition unpack2 :: "(string \<Rightarrow> int) \<Rightarrow> nat \<Rightarrow> string \<Rightarrow> (int \<times> int) option" where
  "unpack2 rd k bs = (if length bs = 2 * k then Some (rd (take k bs), rd (drop k bs)) else None)"

definition bytes :: "nat list \<Rightarrow> string" where
  "bytes ns = map char_of ns"

definition SOF_MARKERS :: "nat list" where
  "SOF_MARKERS = [0xC0, 0xC1, 0xC2, 0xC3, 0xC5, 0xC6, 0xC7, 0xC9, 0xCA, 0xCB, 0xCD, 0xCE, 0xCF]"

definition skip_fill :: "string \<Rightarrow> nat \<Rightarrow> nat" where
  "skip_fill raw offset = offset + length (takeWhile (\<lambda>c. code c = 0xFF) (drop offset raw))"

lemma skip_fill_ge: "offset \<le> skip_fill raw offset"
  by (simp add: skip_fill_def)

text \<open>The JPEG marker loop; reading past the end raises, which ends in no size.\<close>

function jpeg_size :: "string \<Rightarrow> nat \<Rightarrow> (int \<times> int) option" where
  "jpeg_size raw offset =
     (if length raw < offset + 4 \<or> code (raw ! offset) \<noteq> 0xFF then None
      else let k = skip_fill raw offset in
           if length raw \<le> k then None
           else let marker = code (raw ! k); p = Suc k in
                if marker \<in> {0xD8, 0x01} \<or> (0xD0 \<le> marker \<and> marker \<le> 0xD7) then jpeg_size raw p
                else if marker \<in> {0xD9, 0xDA} then None
                else let len = nat (big_endian (slice p (p + 2) raw)) in
                     if len < 2 \<or> length raw < p + len then None
                     else if marker \<in> set SOF_MARKERS
                     then map_option (\<lambda>(height, width). (width, height)) (unpack2 big_endian 2 (slice (p + 3) (p + 7) raw))
                     else jpeg_size raw (p + len))"
  by pat_completeness auto
termination
proof (relation "measure (\<lambda>(raw, offset). length raw - offset)", goal_cases)
  case (2 raw offset k marker p)
  then show ?case using skip_fill_ge[of offset raw] by simp
next
  case (3 raw offset k marker p len)
  then have "p + len \<le> length raw" "offset < p" using skip_fill_ge[of offset raw] by simp_all
  then have "length raw - (p + len) < length raw - offset" by linarith
  then show ?case by simp
qed simp

declare jpeg_size.simps [simp del]

definition webp_size :: "string \<Rightarrow> (int \<times> int) option" where
  "webp_size raw =
     (if slice 12 16 raw = ''VP8X'' \<and> 30 \<le> length raw
      then Some (1 + little_endian (slice 24 27 raw), 1 + little_endian (slice 27 30 raw))
      else if slice 12 16 raw = ''VP8L'' \<and> 25 \<le> length raw \<and> slice 20 21 raw = bytes [0x2F]
      then let bits = little_endian (slice 21 25 raw) in
           Some (bits mod 0x4000 + 1, bits div 0x4000 mod 0x4000 + 1)
      else if slice 12 16 raw = ''VP8 '' \<and> slice 23 26 raw = bytes [0x9D, 0x01, 0x2A]
      then map_option (\<lambda>(w, h). (w mod 0x4000, h mod 0x4000)) (unpack2 little_endian 2 (slice 26 30 raw))
      else None)"

definition raw_dimensions :: "string \<Rightarrow> (int \<times> int) option" where
  "raw_dimensions raw =
     (if startswith raw (bytes [0x89, 0x50, 0x4E, 0x47, 0x0D, 0x0A, 0x1A, 0x0A]) \<and> slice 12 16 raw = ''IHDR''
      then unpack2 big_endian 4 (slice 16 24 raw)
      else if take 6 raw \<in> {''GIF87a'', ''GIF89a''} then unpack2 little_endian 2 (slice 6 10 raw)
      else if take 2 raw = bytes [0xFF, 0xD8] then jpeg_size raw 2
      else if take 4 raw = ''RIFF'' \<and> slice 8 12 raw = ''WEBP'' then webp_size raw
      else None)"

definition image_dimensions :: "media_env \<Rightarrow> json \<Rightarrow> (int \<times> int) option" where
  "image_dimensions env data =
     (case raw_dimensions (decode_data env data HEADER_BYTES) of
        None \<Rightarrow> None
      | Some (w, h) \<Rightarrow> if 0 < w \<and> w \<le> 1000000 \<and> 0 < h \<and> h \<le> 1000000 then Some (w, h) else None)"

section \<open>Claude images\<close>

text \<open>\<^verbatim>\<open>claude-(?:opus-|sonnet-|haiku-)?(\d+)[.-](\d+)\<close>, anywhere in the name.\<close>

definition version_at :: "string \<Rightarrow> (nat \<times> nat) option" where
  "version_at s =
     (if startswith s ''claude-''
      then let r = drop 7 s;
               r = (if startswith r ''opus-'' then drop 5 r else if startswith r ''sonnet-'' then drop 7 r
                    else if startswith r ''haiku-'' then drop 6 r else r);
               major = takeWhile is_digit r; sep = dropWhile is_digit r;
               minor = takeWhile is_digit (tl sep)
           in if major \<noteq> [] \<and> sep \<noteq> [] \<and> hd sep \<in> {CHR ''.'', CHR ''-''} \<and> minor \<noteq> []
              then Some (plain_value major, plain_value minor) else None
      else None)"

fun claude_version :: "string \<Rightarrow> (nat \<times> nat) option" where
  "claude_version [] = None"
| "claude_version (c # s) = (case version_at (c # s) of None \<Rightarrow> claude_version s | Some v \<Rightarrow> Some v)"

definition claude_limits :: "string \<Rightarrow> int \<times> int" where
  "claude_limits model =
     (case claude_version model of
        Some (major, minor) \<Rightarrow> if major < 4 \<or> (major = 4 \<and> minor < 7) then (1568, 1568) else (2576, 4784)
      | None \<Rightarrow> (2576, 4784))"

definition ceil_div :: "int \<Rightarrow> int \<Rightarrow> int" where
  "ceil_div a b = \<lceil>of_int a / of_int b :: rat\<rceil>"

definition patches :: "int \<Rightarrow> int \<Rightarrow> int" where
  "patches w h = ceil_div w 28 * ceil_div h 28"

definition fits :: "int \<Rightarrow> int \<Rightarrow> int \<Rightarrow> int \<Rightarrow> bool" where
  "fits edge cap w h \<longleftrightarrow> ceil_div w 28 * 28 \<le> edge \<and> ceil_div h 28 * 28 \<le> edge \<and> patches w h \<le> cap"

definition scaled :: "int \<Rightarrow> int \<Rightarrow> int \<Rightarrow> int" where
  "scaled width height m = max (round_even (of_int m / (of_int width / of_int height))) 1"

function bisect :: "(int \<Rightarrow> bool) \<Rightarrow> int \<Rightarrow> int \<Rightarrow> int" where
  "bisect good lo hi =
     (if lo + 1 < hi
      then let mid = (lo + hi) div 2 in if good mid then bisect good mid hi else bisect good lo mid
      else lo)"
  by pat_completeness auto
termination by (relation "measure (\<lambda>(good, lo, hi). nat (hi - lo))") auto

declare bisect.simps [simp del]

definition claude_tokens :: "int \<Rightarrow> int \<Rightarrow> int \<Rightarrow> int \<Rightarrow> int" where
  "claude_tokens w h edge cap =
     (if fits edge cap w h then patches w h
      else let width = max w h; height = min w h;
               lo = bisect (\<lambda>mid. fits edge cap mid (scaled width height mid)) 1 width
           in min cap (patches lo (scaled width height lo)))"

section \<open>OpenAI images\<close>

datatype sizing = Tiles | Patches | Unknown_sizing

definition starts_any :: "string \<Rightarrow> string list \<Rightarrow> bool" where
  "starts_any s ps = list_ex (startswith s) ps"

text \<open>Method, edge or base, patch budget or tile cost, multiplier.\<close>

definition openai_multiplier :: "string \<Rightarrow> rat" where
  "openai_multiplier model =
     (case find (\<lambda>(prefix, factor). startswith model prefix)
             [(''gpt-4.1-mini'', 81 / 50), (''gpt-4.1-nano'', 123 / 50), (''gpt-5-nano'', 3 / 2), (''o4-mini'', 43 / 25)] of
        None \<Rightarrow> 6 / 5
      | Some (prefix, factor) \<Rightarrow> factor)"

definition openai_rules :: "string \<Rightarrow> string \<Rightarrow> sizing \<times> int \<times> int option \<times> rat" where
  "openai_rules model detail =
     (if startswith model ''gpt-4o-mini'' then (Tiles, 2833, Some 5667, 1)
      else if starts_any model [''gpt-4o'', ''gpt-4.1''] \<and> \<not> starts_any model [''gpt-4.1-mini'', ''gpt-4.1-nano'']
      then (Tiles, 85, Some 170, 1)
      else if model = ''gpt-5'' \<or> startswith model ''gpt-5.1'' then (Tiles, 70, Some 140, 1)
      else if starts_any model [''o1'', ''o3''] then (Tiles, 75, Some 150, 1)
      else let multiplier = openai_multiplier model in
        if starts_any model [''gpt-6-astra'', ''gpt-5.6-sol'', ''gpt-5.6-terra'', ''gpt-5.6-luna''] then
          (if detail = ''low'' then (Patches, 512, None, multiplier)
           else if detail = ''high''
           then (Patches, if startswith model ''gpt-6-astra'' then 65535 else 2048, Some 2500, multiplier)
           else (Patches, 65535, None, multiplier))
        else if starts_any model [''gpt-5.5'', ''gpt-5.4''] then
          (if detail = ''original'' \<or> (detail = ''auto'' \<and> startswith model ''gpt-5.5'')
           then (Patches, 6000, Some 10000, multiplier)
           else if detail = ''low''
           then (Patches, if startswith model ''gpt-5.5'' then 512 else 2048, Some 6144, multiplier)
           else (Patches, 2048, Some 2500, multiplier))
        else if starts_any model [''gpt-5.2'', ''gpt-4.1-mini''] then (Patches, 2048, Some 6144, multiplier)
        else if starts_any model [''gpt-5-mini'', ''gpt-5-nano'', ''gpt-4.1-nano'', ''o4-mini'']
        then (Patches, 2048, Some 1536, multiplier)
        else (Unknown_sizing, 0, None, 1))"

definition tile_count :: "int \<Rightarrow> int \<Rightarrow> int" where
  "tile_count w h =
     (let scale = min 1 (min (2048 / of_int (max w h)) (768 / of_int (min w h))) :: rat;
          w' = max 1 \<lfloor>of_int w * scale\<rfloor>; h' = max 1 \<lfloor>of_int h * scale\<rfloor>
      in ceil_div w' 512 * ceil_div h' 512)"

text \<open>\<open>None\<close> where the published formula degenerates, and the cap is used.\<close>

definition shrink_to_budget :: "media_env \<Rightarrow> int option \<Rightarrow> int \<Rightarrow> int \<Rightarrow> (int \<times> int) option" where
  "shrink_to_budget env budget w h =
     (case budget of
        None \<Rightarrow> Some (w, h)
      | Some n \<Rightarrow>
          if n \<noteq> 0 \<and> n < ceil_div w 32 * ceil_div h 32
          then let scale = md_sqrt env (1024 * of_int n / (of_int w * of_int h));
                   x = of_int w * scale / 32; y = of_int h * scale / 32
               in if min x y < 1 then None
                  else let scale' = scale * min (of_int \<lfloor>x\<rfloor> / x) (of_int \<lfloor>y\<rfloor> / y)
                       in Some (max 1 \<lfloor>of_int w * scale'\<rfloor>, max 1 \<lfloor>of_int h * scale'\<rfloor>)
          else Some (w, h))"

definition patch_tokens :: "media_env \<Rightarrow> int \<Rightarrow> int option \<Rightarrow> rat \<Rightarrow> (int \<times> int) option \<Rightarrow> int" where
  "patch_tokens env edge budget multiplier dims =
     (let cap = min (case budget of None \<Rightarrow> 30000 | Some n \<Rightarrow> if n = 0 then 30000 else n) (min (ceil_div edge 32 ^ 2) 30000);
          most = \<lceil>of_int cap * multiplier\<rceil>
      in case dims of
           None \<Rightarrow> most
         | Some (w, h) \<Rightarrow>
             let scale = min 1 (of_int edge / of_int (max w h));
                 w' = max 1 (round_even (of_int w * scale)); h' = max 1 (round_even (of_int h * scale))
             in (case shrink_to_budget env budget w' h' of
                   None \<Rightarrow> most
                 | Some (a, b) \<Rightarrow> \<lceil>of_int (min cap (ceil_div a 32 * ceil_div b 32)) * multiplier\<rceil>))"

section \<open>Blocks\<close>

definition image_cost :: "media_env \<Rightarrow> string \<Rightarrow> string \<Rightarrow> bool \<Rightarrow> (int \<times> int) option \<Rightarrow> int" where
  "image_cost env model detail anthropic dims =
     (if anthropic
      then (case claude_limits model of (edge, cap) \<Rightarrow>
              (case dims of None \<Rightarrow> cap | Some (w, h) \<Rightarrow> claude_tokens w h edge cap))
      else case openai_rules model detail of
             (Unknown_sizing, _) \<Rightarrow> 48169
           | (Tiles, edge, budget, _) \<Rightarrow>
               if detail = ''low'' then edge
               else (let cost = (case budget of None \<Rightarrow> 0 | Some n \<Rightarrow> n) in
                     case dims of None \<Rightarrow> edge + 8 * cost | Some (w, h) \<Rightarrow> edge + tile_count w h * cost)
           | (Patches, edge, budget, multiplier) \<Rightarrow> patch_tokens env edge budget multiplier dims)"

text \<open>\<^verbatim>\<open>x or y\<close>\<close>

definition py_or :: "json \<Rightarrow> json \<Rightarrow> json" where
  "py_or x y = (if falsy x then y else x)"

definition source_data :: "(string, json) dict \<Rightarrow> string \<Rightarrow> json" where
  "source_data block alt =
     py_or (case py_or (get_field block ''source'') (J_obj []) of J_obj source \<Rightarrow> get_field source ''data'' | _ \<Rightarrow> J_null)
       (get_field block alt)"

definition detail_of :: "(json \<Rightarrow> string) \<Rightarrow> (string, json) dict \<Rightarrow> string" where
  "detail_of str block = (case py_or (get_field block ''detail'') (J_str ''auto'') of J_str s \<Rightarrow> s | v \<Rightarrow> str v)"

definition image_tokens :: "media_env \<Rightarrow> (json \<Rightarrow> string) \<Rightarrow> (string, json) dict \<Rightarrow> string \<Rightarrow> bool \<Rightarrow> int" where
  "image_tokens env str block model anthropic =
     (let data = (case source_data block ''image_url'' of J_obj d \<Rightarrow> get_field d ''url'' | v \<Rightarrow> v)
      in image_cost env model (detail_of str block) anthropic (image_dimensions env data))"

definition pdf_pages :: "media_env \<Rightarrow> string \<Rightarrow> int" where
  "pdf_pages env raw =
     (if startswith raw ''%PDF-'' \<and> length raw \<le> PDF_BYTES \<and> contains ''%%EOF'' (drop (length raw - 1024) raw) \<and>
         \<not> md_pdf_opaque env raw
      then let counts = filter (\<lambda>n. 0 < n) (md_pdf_counts env raw) in
           if counts = [] then UNKNOWN_PDF_PAGES else Max (set counts)
      else UNKNOWN_PDF_PAGES)"

definition document_tokens :: "media_env \<Rightarrow> (json \<Rightarrow> string) \<Rightarrow> (string, json) dict \<Rightarrow> string \<Rightarrow> bool \<Rightarrow> int" where
  "document_tokens env str block model anthropic =
     pdf_pages env (decode_data env (source_data block ''file_data'') (PDF_BYTES + 1)) *
       (PDF_TEXT_TOKENS_PER_PAGE + image_tokens env str [] model anthropic)"

section \<open>Bounds\<close>

lemma ceil_div_le_iff: "0 < b \<Longrightarrow> ceil_div a b \<le> n \<longleftrightarrow> a \<le> n * b"
proof -
  assume b: "0 < b"
  then have "of_int a / of_int b \<le> (of_int n :: rat) \<longleftrightarrow> (of_int a :: rat) \<le> of_int (n * b)"
    by (simp add: divide_le_eq)
  then show ?thesis by (simp only: ceil_div_def ceiling_le_iff of_int_le_iff)
qed

lemma ceil_div_pos: "0 < a \<Longrightarrow> 0 < b \<Longrightarrow> 0 < ceil_div a b"
  using ceil_div_le_iff[of b a 0] by simp

lemma ceil_div_mono: "0 < b \<Longrightarrow> a \<le> a' \<Longrightarrow> ceil_div a b \<le> ceil_div a' b"
  using ceil_div_le_iff[of b a "ceil_div a' b"] ceil_div_le_iff[of b a' "ceil_div a' b"] by simp

lemma patches_pos: "0 < w \<Longrightarrow> 0 < h \<Longrightarrow> 0 < patches w h"
  by (simp add: patches_def ceil_div_pos)

lemma patches_mono: "0 < w \<Longrightarrow> w \<le> w' \<Longrightarrow> 0 < h \<Longrightarrow> h \<le> h' \<Longrightarrow> patches w h \<le> patches w' h'"
  using ceil_div_pos[of w' 28] ceil_div_pos[of h 28] unfolding patches_def by (intro mult_mono ceil_div_mono) auto

lemma fits_antitone:
  assumes "fits edge cap w' h'" "0 < w" "w \<le> w'" "0 < h" "h \<le> h'"
  shows "fits edge cap w h"
  using assms ceil_div_mono[of 28 w w'] ceil_div_mono[of 28 h h'] patches_mono[of w w' h h']
  by (auto simp: fits_def)

lemma fits_swap: "fits edge cap h w = fits edge cap w h" and patches_swap: "patches h w = patches w h"
  by (auto simp: fits_def patches_def mult.commute)

lemma round_even_mono: "x \<le> y \<Longrightarrow> round_even x \<le> round_even y"
proof -
  assume "x \<le> y"
  then have f: "\<lfloor>x\<rfloor> \<le> \<lfloor>y\<rfloor>" by (rule floor_mono)
  show ?thesis
  proof (cases "\<lfloor>x\<rfloor> = \<lfloor>y\<rfloor>")
    case True
    then show ?thesis using \<open>x \<le> y\<close> by (auto simp: round_even_def Let_def)
  next
    case False
    then have "\<lfloor>x\<rfloor> + 1 \<le> \<lfloor>y\<rfloor>" using f by simp
    then show ?thesis by (auto simp: round_even_def Let_def)
  qed
qed

lemma round_even_of_int [simp]: "round_even (of_int n) = n"
  by (simp add: round_even_def)

lemma scaled_mono: "0 < width \<Longrightarrow> 0 < height \<Longrightarrow> m \<le> m' \<Longrightarrow> scaled width height m \<le> scaled width height m'"
  unfolding scaled_def by (intro max.mono round_even_mono divide_right_mono) auto

lemma scaled_pos: "0 < scaled width height m"
  by (simp add: scaled_def)

lemma scaled_full: "0 < width \<Longrightarrow> 0 < height \<Longrightarrow> scaled width height width = height"
  by (simp add: scaled_def)

text \<open>Bisection finds the last good point when the good ones come first.\<close>

lemma bisect_last_good:
  assumes "lo < hi" "good lo" "\<not> good hi"
    and "\<And>a b. lo \<le> a \<Longrightarrow> a \<le> b \<Longrightarrow> b \<le> hi \<Longrightarrow> good b \<Longrightarrow> good a"
  shows "lo \<le> bisect good lo hi \<and> bisect good lo hi < hi \<and> good (bisect good lo hi) \<and>
         (\<forall>m. bisect good lo hi < m \<longrightarrow> m \<le> hi \<longrightarrow> \<not> good m)"
  using assms
proof (induction good lo hi rule: bisect.induct)
  case (1 good lo hi)
  show ?case
  proof (cases "lo + 1 < hi")
    case True
    define mid where "mid = (lo + hi) div 2"
    have mid: "lo < mid" "mid < hi" using True by (auto simp: mid_def)
    have step: "bisect good lo hi = (if good mid then bisect good mid hi else bisect good lo mid)"
      using True by (subst bisect.simps) (simp add: mid_def Let_def)
    show ?thesis
    proof (cases "good mid")
      case g: True
      have "mid \<le> bisect good mid hi \<and> bisect good mid hi < hi \<and> good (bisect good mid hi) \<and>
         (\<forall>m. bisect good mid hi < m \<longrightarrow> m \<le> hi \<longrightarrow> \<not> good m)"
      proof (rule "1.IH"(1)[OF True mid_def g mid(2) g "1.prems"(3)])
        fix a b assume "mid \<le> a" "a \<le> b" "b \<le> hi" "good b"
        then show "good a" using "1.prems"(4)[of a b] mid(1) by simp
      qed
      then show ?thesis using g mid(1) by (simp add: step)
    next
      case b: False
      have ih: "lo \<le> bisect good lo mid \<and> bisect good lo mid < mid \<and> good (bisect good lo mid) \<and>
         (\<forall>m. bisect good lo mid < m \<longrightarrow> m \<le> mid \<longrightarrow> \<not> good m)"
      proof (rule "1.IH"(2)[OF True mid_def b mid(1) "1.prems"(2) b])
        fix x y assume "lo \<le> x" "x \<le> y" "y \<le> mid" "good y"
        then show "good x" using "1.prems"(4)[of x y] mid(2) by simp
      qed
      have "\<not> good m" if "mid < m" "m \<le> hi" for m using "1.prems"(4)[of mid m] mid that b by auto
      then show ?thesis using ih b mid by (auto simp: step not_le)
    qed
  next
    case False
    then have "bisect good lo hi = lo" "hi = lo + 1" using "1.prems"(1) by (subst bisect.simps, simp_all)
    then show ?thesis using "1.prems"(2,3) by (auto simp: le_less dest: zless_imp_add1_zle)
  qed
qed

lemma tile_count_bounds:
  assumes "0 < w" "0 < h"
  shows "0 < tile_count w h \<and> tile_count w h \<le> 8"
proof -
  define scale where "scale = min 1 (min (2048 / of_int (max w h)) (768 / of_int (min w h)) :: rat)"
  define w' h' where "w' = max 1 \<lfloor>of_int w * scale\<rfloor>" and "h' = max 1 \<lfloor>of_int h * scale\<rfloor>"
  have side: "max 1 \<lfloor>of_int x * scale\<rfloor> \<le> n" if "0 < x" "scale \<le> of_int n / of_int x" "1 \<le> n" for x n :: int
  proof -
    have "of_int x * scale \<le> of_int n" using that(1,2) by (simp add: le_divide_eq mult.commute)
    then show ?thesis using that(3) by (simp add: floor_le_iff)
  qed
  have long: "scale \<le> of_int 2048 / of_int (max w h)" and short: "scale \<le> of_int 768 / of_int (min w h)"
    unfolding scale_def by simp_all
  have tiles: "0 < ceil_div w' 512" "0 < ceil_div h' 512" by (simp_all add: ceil_div_pos w'_def h'_def)
  have "ceil_div w' 512 * ceil_div h' 512 \<le> 8"
  proof (cases "h \<le> w")
    case True
    then have "w' \<le> 2048" "h' \<le> 768" unfolding w'_def h'_def using side[of w 2048] side[of h 768] long short assms by auto
    then have "ceil_div w' 512 \<le> 4" "ceil_div h' 512 \<le> 2" by (simp_all add: ceil_div_le_iff)
    then show ?thesis using mult_mono[of "ceil_div w' 512" 4 "ceil_div h' 512" 2] tiles by simp
  next
    case False
    then have "h' \<le> 2048" "w' \<le> 768" unfolding w'_def h'_def using side[of h 2048] side[of w 768] long short assms by auto
    then have "ceil_div h' 512 \<le> 4" "ceil_div w' 512 \<le> 2" by (simp_all add: ceil_div_le_iff)
    then show ?thesis using mult_mono[of "ceil_div w' 512" 2 "ceil_div h' 512" 4] tiles by simp
  qed
  then show ?thesis using tiles by (simp add: tile_count_def Let_def scale_def[symmetric] w'_def[symmetric] h'_def[symmetric])
qed

lemma claude_limits_cases: "claude_limits model = (1568, 1568) \<or> claude_limits model = (2576, 4784)"
  by (auto simp: claude_limits_def split: option.splits)

lemma claude_largest_fit:
  assumes "0 < w" "0 < h" "28 \<le> edge" "1 \<le> cap" and S: "S = scaled (max w h) (min w h)"
  shows "\<exists>m. 1 \<le> m \<and> m \<le> max w h \<and> fits edge cap m (S m) \<and> claude_tokens w h edge cap = patches m (S m) \<and>
           (\<forall>m'. m < m' \<longrightarrow> m' \<le> max w h \<longrightarrow> \<not> fits edge cap m' (S m'))"
proof (cases "fits edge cap w h")
  case True
  have "S (max w h) = min w h" using assms(1,2) S by (simp add: scaled_full)
  then have "fits edge cap (max w h) (S (max w h))" "patches (max w h) (S (max w h)) = patches w h"
    using True by (auto simp: max_def min_def fits_swap patches_swap)
  then show ?thesis using True assms(1) by (intro exI[of _ "max w h"]) (auto simp: claude_tokens_def)
next
  case False
  let ?L = "max w h" and ?good = "\<lambda>m. fits edge cap m (S m)"
  have full: "S ?L = min w h" using assms(1,2) S by (simp add: scaled_full)
  have bad: "\<not> ?good ?L" unfolding full using False by (simp add: max_def min_def fits_swap)
  have "ceil_div 1 28 = 1" using ceil_div_le_iff[of 28 1 1] ceil_div_pos[of 1 28] by simp
  then have tiny: "fits edge cap 1 1" using assms(3,4) by (simp add: fits_def patches_def)
  have one: "S 1 = 1"
  proof -
    have "of_int (min w h) / of_int ?L \<le> (1 :: rat)" using assms(1,2) by (auto simp: divide_le_eq)
    then have "round_even (of_int (min w h) / of_int ?L) \<le> 1" using round_even_mono round_even_of_int[of 1] by fastforce
    then show ?thesis using S by (simp add: scaled_def)
  qed
  have anti: "?good a" if "1 \<le> a" "a \<le> b" "?good b" for a b
    using fits_antitone[OF that(3), of a "S a"] that(1,2) assms(1,2) S by (simp add: scaled_pos scaled_mono)
  have "1 < ?L" using bad one tiny full assms(1) by (cases "?L = 1") auto
  then have b: "1 \<le> bisect ?good 1 ?L \<and> bisect ?good 1 ?L < ?L \<and> ?good (bisect ?good 1 ?L) \<and>
      (\<forall>m. bisect ?good 1 ?L < m \<longrightarrow> m \<le> ?L \<longrightarrow> \<not> ?good m)"
    using bad tiny one anti by (intro bisect_last_good) auto
  then have "patches (bisect ?good 1 ?L) (S (bisect ?good 1 ?L)) \<le> cap" by (simp add: fits_def)
  then have "claude_tokens w h edge cap = patches (bisect ?good 1 ?L) (S (bisect ?good 1 ?L))"
    using False by (simp add: claude_tokens_def Let_def S[symmetric])
  then show ?thesis using b by (intro exI[of _ "bisect ?good 1 ?L"]) auto
qed

definition usable_rule :: "sizing \<times> int \<times> int option \<times> rat \<Rightarrow> bool" where
  "usable_rule r = (case r of (m, edge, budget, k) \<Rightarrow>
     m = Unknown_sizing \<or> (0 < edge \<and> (\<forall>n. budget = Some n \<longrightarrow> 0 < n) \<and> 1 \<le> k))"

lemma openai_rules_usable: "usable_rule (openai_rules model detail)"
proof -
  have mult: "1 \<le> openai_multiplier model" by (auto simp: openai_multiplier_def)
  have branch: "usable_rule a \<Longrightarrow> usable_rule b \<Longrightarrow> usable_rule (if c then a else b)" for a b c by simp
  show ?thesis unfolding openai_rules_def Let_def by (intro branch) (simp_all add: usable_rule_def mult)
qed

lemma openai_rules_ok:
  assumes "openai_rules model detail = (m, edge, budget, k)" "m \<noteq> Unknown_sizing"
  shows "0 < edge \<and> (\<forall>n. budget = Some n \<longrightarrow> 0 < n) \<and> 1 \<le> k"
  using openai_rules_usable[of model detail] assms by (simp add: usable_rule_def)

lemma shrink_to_budget_pos:
  assumes "0 < w" "0 < h" "shrink_to_budget env budget w h = Some (a, b)"
  shows "0 < a \<and> 0 < b"
proof -
  define pos :: "(int \<times> int) option \<Rightarrow> bool" where
    "pos r = (case r of None \<Rightarrow> True | Some (a, b) \<Rightarrow> 0 < a \<and> 0 < b)" for r
  have branch: "pos x \<Longrightarrow> pos y \<Longrightarrow> pos (if c then x else y)" for x y c by simp
  have big: "0 < max 1 x" for x :: int by simp
  have "pos (shrink_to_budget env budget w h)"
    unfolding shrink_to_budget_def Let_def using assms(1,2)
    by (cases budget) (simp_all only: option.case, simp add: pos_def, intro branch, simp_all add: pos_def big del: less_max_iff_disj)
  then show ?thesis using assms(3) by (simp add: pos_def)
qed

lemma patch_tokens_bounds:
  assumes "0 < edge" "\<forall>n. budget = Some n \<longrightarrow> 0 < n" "1 \<le> k"
  shows "0 < patch_tokens env edge budget k (Some (w, h)) \<and>
         patch_tokens env edge budget k (Some (w, h)) \<le> patch_tokens env edge budget k None"
proof -
  define cap where
    "cap = min (case budget of None \<Rightarrow> 30000 | Some n \<Rightarrow> if n = 0 then 30000 else n) (min (ceil_div edge 32 ^ 2) 30000)"
  define scale where "scale = min 1 (of_int edge / of_int (max w h) :: rat)"
  define w' h' where "w' = max 1 (round_even (of_int w * scale))" and "h' = max 1 (round_even (of_int h * scale))"
  have "0 < cap" using assms(1,2) ceil_div_pos[of edge 32] by (auto simp: cap_def split: option.splits)
  have most: "patch_tokens env edge budget k None = \<lceil>of_int cap * k\<rceil>" by (simp add: patch_tokens_def Let_def cap_def)
  have shrunk: "0 < a \<and> 0 < b" if "shrink_to_budget env budget w' h' = Some (a, b)" for a b
    using that by (intro shrink_to_budget_pos[of w' h']) (simp_all add: w'_def h'_def)
  have val: "0 < \<lceil>of_int n * k\<rceil> \<and> \<lceil>of_int n * k\<rceil> \<le> \<lceil>of_int cap * k\<rceil>" if "0 < n" "n \<le> cap" for n
    using that assms(3) by (auto intro!: ceiling_mono)
  show ?thesis
  proof (cases "shrink_to_budget env budget w' h'")
    case None
    then have "patch_tokens env edge budget k (Some (w, h)) = \<lceil>of_int cap * k\<rceil>"
      by (simp add: patch_tokens_def Let_def cap_def[symmetric] scale_def[symmetric] w'_def[symmetric] h'_def[symmetric])
    then show ?thesis using val[of cap] \<open>0 < cap\<close> most by simp
  next
    case (Some ab)
    obtain a b where ab: "ab = (a, b)" by (cases ab)
    have "patch_tokens env edge budget k (Some (w, h)) = \<lceil>of_int (min cap (ceil_div a 32 * ceil_div b 32)) * k\<rceil>"
      using Some ab
      by (simp add: patch_tokens_def Let_def cap_def[symmetric] scale_def[symmetric] w'_def[symmetric] h'_def[symmetric])
    then show ?thesis using val[of "min cap (ceil_div a 32 * ceil_div b 32)"] \<open>0 < cap\<close> most shrunk[of a b] Some ab
      by (simp add: ceil_div_pos)
  qed
qed

lemma image_cost_bounds:
  assumes "image_dimensions env data = Some dims"
  shows "0 < image_cost env model detail anthropic (Some dims) \<and>
         image_cost env model detail anthropic (Some dims) \<le> image_cost env model detail anthropic None"
proof -
  obtain w h where d: "dims = (w, h)" "0 < w" "0 < h"
    using assms by (auto simp: image_dimensions_def split: option.splits if_splits)
  show ?thesis
  proof (cases anthropic)
    case True
    obtain edge cap where lim: "claude_limits model = (edge, cap)" "28 \<le> edge" "1 \<le> cap"
      using claude_limits_cases[of model] by fastforce
    obtain m where m: "1 \<le> m" "fits edge cap m (scaled (max w h) (min w h) m)"
      "claude_tokens w h edge cap = patches m (scaled (max w h) (min w h) m)"
      using claude_largest_fit[OF d(2,3) lim(2,3) refl] by blast
    then have "0 < claude_tokens w h edge cap \<and> claude_tokens w h edge cap \<le> cap"
      using patches_pos[of m "scaled (max w h) (min w h) m"] by (auto simp: fits_def scaled_pos)
    then show ?thesis using True lim(1) d(1) by (simp add: image_cost_def)
  next
    case False
    obtain meth edge budget k where r: "openai_rules model detail = (meth, edge, budget, k)" by (metis surj_pair)
    show ?thesis
    proof (cases meth)
      case Tiles
      then have ok: "0 < edge" "\<forall>n. budget = Some n \<longrightarrow> 0 < n" using openai_rules_ok[OF r] by simp_all
      have t: "0 < tile_count w h" "tile_count w h \<le> 8" using tile_count_bounds[OF d(2,3)] by simp_all
      have "0 < edge + tile_count w h * c \<and> edge + tile_count w h * c \<le> edge + 8 * c" if "0 \<le> c" for c
        using ok(1) t that by (simp add: mult_right_mono add_pos_nonneg)
      then show ?thesis using False r Tiles ok d(1) t by (auto simp: image_cost_def Let_def split: option.splits)
    next
      case Patches
      then show ?thesis using False r d(1) patch_tokens_bounds[of edge budget k env w h] openai_rules_ok[OF r]
        by (simp add: image_cost_def)
    next
      case Unknown_sizing
      then show ?thesis using False r by (simp add: image_cost_def)
    qed
  qed
qed

lemma image_cost_None_pos: "0 < image_cost env model detail anthropic None"
proof (cases anthropic)
  case True
  then show ?thesis using claude_limits_cases[of model] by (auto simp: image_cost_def)
next
  case False
  obtain meth edge budget k where r: "openai_rules model detail = (meth, edge, budget, k)" by (metis surj_pair)
  show ?thesis
  proof (cases meth)
    case Tiles
    then have "0 < edge" "\<forall>n. budget = Some n \<longrightarrow> 0 < n" using openai_rules_ok[OF r] by simp_all
    then show ?thesis using False r Tiles by (auto simp: image_cost_def Let_def split: option.splits)
  next
    case Patches
    then have "0 < patch_tokens env edge budget k None"
      using patch_tokens_bounds[of edge budget k env 1 1] openai_rules_ok[OF r] by simp
    then show ?thesis using False r Patches by (simp add: image_cost_def)
  qed (use False r in \<open>simp add: image_cost_def\<close>)
qed

lemma image_tokens_pos: "0 < image_tokens env str block model anthropic"
proof -
  have "0 < image_cost env model detail anthropic (image_dimensions env data)" for detail data
    using image_cost_bounds[of env data] image_cost_None_pos by (cases "image_dimensions env data") auto
  then show ?thesis by (simp add: image_tokens_def Let_def)
qed

lemma document_tokens_pos: "0 < document_tokens env str block model anthropic"
proof -
  have "0 < pdf_pages env raw" for raw
  proof -
    have "0 < Max (set (filter (\<lambda>n. 0 < n) ns))" if "filter (\<lambda>n. 0 < n) ns \<noteq> []" for ns :: "int list"
      using Max_in[of "set (filter (\<lambda>n. 0 < n) ns)"] that by (auto simp: filter_empty_conv)
    then show ?thesis by (auto simp: pdf_pages_def Let_def UNKNOWN_PDF_PAGES_def)
  qed
  then show ?thesis using image_tokens_pos[of env str "[]" model anthropic]
    by (simp add: document_tokens_def PDF_TEXT_TOKENS_PER_PAGE_def)
qed

section \<open>Properties\<close>

text \<open>
  A Claude image is counted at the largest size that fits.  Scaled down to its aspect ratio, the
  image is given the longest side that still meets the model's edge and patch limits (its own size
  if that does), every larger one does not, and the count is the patches of that size: at least one
  and at most the cap.
\<close>

lemma claude_image_is_largest_that_fits:
  assumes "0 < w" "0 < h" "28 \<le> edge" "1 \<le> cap"
  shows "\<exists>m. 1 \<le> m \<and> m \<le> max w h \<and> fits edge cap m (scaled (max w h) (min w h) m) \<and>
           claude_tokens w h edge cap = patches m (scaled (max w h) (min w h) m) \<and>
           (\<forall>m'. m < m' \<longrightarrow> m' \<le> max w h \<longrightarrow> \<not> fits edge cap m' (scaled (max w h) (min w h) m')) \<and>
           1 \<le> claude_tokens w h edge cap \<and> claude_tokens w h edge cap \<le> cap"
proof -
  obtain m where m: "1 \<le> m" "m \<le> max w h" "fits edge cap m (scaled (max w h) (min w h) m)"
    "claude_tokens w h edge cap = patches m (scaled (max w h) (min w h) m)"
    "\<forall>m'. m < m' \<longrightarrow> m' \<le> max w h \<longrightarrow> \<not> fits edge cap m' (scaled (max w h) (min w h) m')"
    using claude_largest_fit[OF assms refl] by blast
  have "1 \<le> claude_tokens w h edge cap \<and> claude_tokens w h edge cap \<le> cap"
    using m(1,3) patches_pos[of m "scaled (max w h) (min w h) m"] unfolding m(4) by (auto simp: fits_def scaled_pos)
  then show ?thesis using m by blast
qed

theorem claude_image_is_largest_that_fits_witness:
  "1 \<le> claude_tokens 4000 3000 1568 1568 \<and> claude_tokens 4000 3000 1568 1568 \<le> 1568"
  using claude_image_is_largest_that_fits[of 4000 3000 1568 1568] by auto

text \<open>
  An image whose size is not known is counted at the most any image can cost.  For every model,
  detail level and provider, the cost of an image with readable dimensions is positive and never
  above the cost used when they are not readable.
\<close>

lemma unknown_image_costs_most:
  assumes "image_dimensions env data = Some dims"
  shows "0 < image_cost env model detail anthropic (Some dims) \<and>
         image_cost env model detail anthropic (Some dims) \<le> image_cost env model detail anthropic None"
  by (rule image_cost_bounds[OF assms])

definition example_media :: media_env where
  "example_media = \<lparr>md_b64decode = Some, md_sqrt = id, md_pdf_opaque = (\<lambda>_. False), md_pdf_counts = (\<lambda>_. [])\<rparr>"

text \<open>A GIF of three by two pixels.\<close>

definition example_gif :: string where
  "example_gif = ''GIF89a'' @ bytes [3, 0, 2, 0]"

theorem unknown_image_costs_most_witness:
  "image_cost example_media ''claude-opus-4-8'' ''auto'' True (Some (3, 2)) \<le>
   image_cost example_media ''claude-opus-4-8'' ''auto'' True None"
proof -
  have "length example_gif \<le> 12" "\<not> startswith example_gif ''data:''" "raw_dimensions example_gif = Some (3, 2)" by code_simp+
  then have "image_dimensions example_media (J_str example_gif) = Some (3, 2)"
    by (simp add: image_dimensions_def decode_data_def b64_prefix_def HEADER_BYTES_def example_media_def)
  from unknown_image_costs_most[OF this] show ?thesis by blast
qed

end
