(* ===== verification/Estimator.thy ===== *)
theory Estimator
  imports Media "HOL-Library.Multiset"
begin

text \<open>
  What a request will cost (\<^verbatim>\<open>spend_guard/estimator.py\<close>) and the floor that the provider's own
  counts put under it (\<^verbatim>\<open>spend_guard/usage_anchor.py\<close>, \<^verbatim>\<open>orchestrator._estimate_anchored\<close>).  Both
  modules walk a JSON document with an explicit stack; the top of the stack is the head of a list
  here.  The price table, the codec and the digest are parameters.
\<close>

section \<open>Counting\<close>

record estimator_env =
  es_media :: media_env
  es_codec :: json_codec
  es_rates :: "string \<Rightarrow> (string, rat) dict option"
  es_sha256 :: "string \<Rightarrow> string"

definition CHARS_PER_TOKEN :: int where "CHARS_PER_TOKEN = 4"
definition DEFAULT_OUTPUT_TOKENS :: int where "DEFAULT_OUTPUT_TOKENS = 4096"

definition len_tokens :: "'a list \<Rightarrow> int" where
  "len_tokens s = (if s = [] then 0 else max 1 (int (length s) div CHARS_PER_TOKEN))"

text \<open>The same count of whatever value a field holds: containers have a length, numbers raise.\<close>

fun count_text_tokens :: "json \<Rightarrow> py_error + int" where
  "count_text_tokens (J_str s) = Inr (len_tokens s)"
| "count_text_tokens (J_list xs) = Inr (len_tokens xs)"
| "count_text_tokens (J_obj d) = Inr (len_tokens d)"
| "count_text_tokens j = (if falsy j then Inr 0 else Inl (TypeError ''object has no len()''))"

abbreviation py_str :: "estimator_env \<Rightarrow> json \<Rightarrow> string" where
  "py_str env \<equiv> jc_str (es_codec env)"

text \<open>One item of the stack: its own tokens and what it pushes, in the order it pushes.\<close>

definition typed_in :: "(string, json) dict \<Rightarrow> string list \<Rightarrow> bool" where
  "typed_in d ts = (case get_field d ''type'' of J_str t \<Rightarrow> t \<in> set ts | _ \<Rightarrow> False)"

definition block_item :: "estimator_env \<Rightarrow> string \<Rightarrow> bool \<Rightarrow> (string, json) dict \<Rightarrow> py_error + (int \<times> json list)" where
  "block_item env model anthropic d =
     (let leaf = (\<lambda>v. ebind (count_text_tokens v) (\<lambda>n. Inr (n, []))) in
      if typed_in d [''tool_use'', ''server_tool_use'', ''function_call'', ''custom_tool_call'']
      then Inr (len_tokens (jc_dumps (es_codec env) (J_obj d)), [])
      else if typed_in d [''image'', ''input_image'', ''image_url'']
      then Inr (image_tokens (es_media env) (py_str env) d model anthropic, [])
      else if typed_in d [''document'', ''input_file'', ''file'']
      then (case py_or (get_field d ''source'') (J_obj []) of
              J_obj source \<Rightarrow>
                if get_field source ''type'' = J_str ''text'' then leaf (py_or (get_field source ''data'') (J_str []))
                else if get_field source ''type'' = J_str ''content'' then Inr (0, [get_field source ''content''])
                else Inr (document_tokens (es_media env) (py_str env) d model anthropic, [])
            | _ \<Rightarrow> Inr (document_tokens (es_media env) (py_str env) d model anthropic, []))
      else if typed_in d [''text'', ''input_text'', ''output_text'', ''summary_text'']
      then leaf (py_or (get_field d ''text'') (J_str []))
      else if typed_in d [''thinking'']
      then leaf (py_or (get_field d ''thinking'') (py_or (get_field d ''text'') (J_str [])))
      else if typed_in d [''redacted_thinking'']
      then leaf (py_or (get_field d ''data'') (py_or (get_field d ''text'') (J_str [])))
      else let kept = filter (\<lambda>(k, v). k \<notin> {''cache_control'', ''signature'', ''type''}) d in
           Inr (sum_list (map (len_tokens \<circ> fst) kept), map snd kept))"

fun content_item :: "estimator_env \<Rightarrow> string \<Rightarrow> bool \<Rightarrow> json \<Rightarrow> py_error + (int \<times> json list)" where
  "content_item env model anthropic (J_str s) = Inr (len_tokens s, [])"
| "content_item env model anthropic (J_list xs) = Inr (0, xs)"
| "content_item env model anthropic J_null = Inr (0, [])"
| "content_item env model anthropic (J_obj d) = block_item env model anthropic d"
| "content_item env model anthropic j = Inr (len_tokens (py_str env j), [])"

text \<open>The size of a document, which every turn of a walk consumes.\<close>

fun weight :: "json \<Rightarrow> nat" where
  "weight (J_list xs) = Suc (sum_list (map weight xs))"
| "weight (J_obj d) = Suc (sum_list (map (\<lambda>kv. weight (snd kv)) d))"
| "weight j = 1"

lemma weight_pos [simp]: "0 < weight j"
  by (cases j) simp_all

lemma weight_member: "map_of d k = Some v \<Longrightarrow> weight v \<le> sum_list (map (\<lambda>kv. weight (snd kv)) d)"
  by (induction d) (auto split: if_splits)

lemma weight_get_field: "weight (get_field d k) \<le> max 1 (sum_list (map (\<lambda>kv. weight (snd kv)) d))"
  using weight_member[of d k] by (cases "map_of d k") (force simp: get_field_def)+

lemma sum_weight_filter:
  "sum_list (map (weight \<circ> snd) (filter P d)) \<le> sum_list (map (\<lambda>kv. weight (snd kv)) d)"
  by (induction d) auto

lemma weight_nested_field:
  assumes "get_field d k = J_obj d'"
  shows "weight (get_field d' k') < weight (J_obj d)"
proof -
  have "weight (J_obj d') \<le> sum_list (map (\<lambda>kv. weight (snd kv)) d)"
    using weight_member[of d k "J_obj d'"] assms by (cases "map_of d k") (auto simp: get_field_def)
  then show ?thesis using weight_get_field[of d' k'] by (simp add: max_def split: if_splits)
qed

lemma count_leaf: "ebind (count_text_tokens v) (\<lambda>n. Inr (n, [])) = Inr (n, kids) \<Longrightarrow> kids = []"
  by (cases "count_text_tokens v") auto

lemma content_item_shrinks:
  assumes "content_item env model anthropic j = Inr (n, kids)"
  shows "sum_list (map weight kids) < weight j"
proof (cases j)
  case (J_obj d)
  define small :: "py_error + (int \<times> json list) \<Rightarrow> bool" where
    "small r = (case r of Inl e \<Rightarrow> True | Inr (n, kids) \<Rightarrow> sum_list (map weight kids) < weight (J_obj d))" for r
  have branch: "(c \<Longrightarrow> small x) \<Longrightarrow> (\<not> c \<Longrightarrow> small y) \<Longrightarrow> small (if c then x else y)" for x y c by simp
  have leaf: "small (ebind (count_text_tokens v) (\<lambda>n. Inr (n, [])))" for v
    by (cases "count_text_tokens v") (simp_all add: small_def)
  have flat: "small (Inr (m, []))" for m by (simp add: small_def)
  have src: "small (case py_or (get_field d ''source'') (J_obj []) of
              J_obj source \<Rightarrow>
                if get_field source ''type'' = J_str ''text'' then ebind (count_text_tokens (py_or (get_field source ''data'') (J_str []))) (\<lambda>n. Inr (n, []))
                else if get_field source ''type'' = J_str ''content'' then Inr (0, [get_field source ''content''])
                else Inr (document_tokens (es_media env) (py_str env) d model anthropic, [])
            | _ \<Rightarrow> Inr (document_tokens (es_media env) (py_str env) d model anthropic, []))"
  proof (cases "py_or (get_field d ''source'') (J_obj [])")
    case (J_obj source)
    have "small (Inr (0, [get_field source ''content'']))" if "get_field source ''type'' = J_str ''content''"
    proof -
      have "get_field d ''source'' = J_obj source"
        using J_obj that by (auto simp: py_or_def get_field_def split: if_splits)
      then show ?thesis using weight_nested_field[of d "''source''" source "''content''"] by (simp add: small_def)
    qed
    then show ?thesis using J_obj leaf flat by simp
  qed (simp_all add: flat)
  have "small (block_item env model anthropic d)"
    unfolding block_item_def Let_def
    by (intro branch leaf flat src) (simp add: small_def sum_weight_filter le_imp_less_Suc)
  then show ?thesis using assms J_obj by (simp add: small_def)
qed (use assms in auto)

function content_loop :: "estimator_env \<Rightarrow> string \<Rightarrow> bool \<Rightarrow> int \<Rightarrow> json list \<Rightarrow> py_error + int" where
  "content_loop env model anthropic tot [] = Inr tot"
| "content_loop env model anthropic tot (item # stack) =
     (case content_item env model anthropic item of
        Inl e \<Rightarrow> Inl e
      | Inr (n, kids) \<Rightarrow> content_loop env model anthropic (tot + n) (rev kids @ stack))"
  by pat_completeness auto
termination
proof (relation "measure (\<lambda>(env, model, anthropic, tot, stack). sum_list (map weight stack))", goal_cases)
  case (2 env model anthropic tot item stack r n kids)
  then show ?case using content_item_shrinks[of env model anthropic item n kids] by (simp add: rev_map[symmetric])
qed simp

definition content_tokens :: "estimator_env \<Rightarrow> string \<Rightarrow> bool \<Rightarrow> json \<Rightarrow> py_error + int" where
  "content_tokens env model anthropic v = content_loop env model anthropic 0 [v]"

section \<open>Walking a request body\<close>

fun sum_ok :: "('e + int) list \<Rightarrow> 'e + int" where
  "sum_ok [] = Inr 0"
| "sum_ok (x # xs) = ebind x (\<lambda>n. ebind (sum_ok xs) (\<lambda>m. Inr (n + m)))"

text \<open>System blocks count as cached, marked or not.\<close>

definition system_tokens :: "(string, json) dict \<Rightarrow> py_error + int" where
  "system_tokens body =
     (case get_field body ''system'' of
        J_str s \<Rightarrow> Inr (len_tokens s)
      | J_list bs \<Rightarrow> sum_ok (map (\<lambda>b. case b of J_obj d \<Rightarrow> count_text_tokens (py_or (get_field d ''text'') (J_str [])) | _ \<Rightarrow> Inr 0) bs)
      | _ \<Rightarrow> Inr 0)"

text \<open>Cached and fresh tokens of one content block of a message.\<close>

definition message_block :: "estimator_env \<Rightarrow> string \<Rightarrow> json \<Rightarrow> py_error + (int \<times> int)" where
  "message_block env model b =
     (case b of
        J_obj d \<Rightarrow> ebind (content_tokens env model True b) (\<lambda>n.
                    Inr (if falsy (get_field d ''cache_control'') then (0, n) else (n, 0)))
      | _ \<Rightarrow> Inr (0, 0))"

fun sum_pairs :: "('e + (int \<times> int)) list \<Rightarrow> 'e + (int \<times> int)" where
  "sum_pairs [] = Inr (0, 0)"
| "sum_pairs (x # xs) = ebind x (\<lambda>(a, b). ebind (sum_pairs xs) (\<lambda>(c, d). Inr (a + c, b + d)))"

definition message_tokens :: "estimator_env \<Rightarrow> string \<Rightarrow> json \<Rightarrow> py_error + (int \<times> int)" where
  "message_tokens env model msg =
     (case msg of
        J_obj d \<Rightarrow>
          (case get_field d ''content'' of
             J_str s \<Rightarrow> Inr (0, len_tokens s)
           | J_list bs \<Rightarrow> sum_pairs (map (message_block env model) bs)
           | _ \<Rightarrow> Inr (0, 0))
      | _ \<Rightarrow> Inr (0, 0))"

text \<open>Iterating: characters of a string and keys of an object are not messages; a number raises.\<close>

definition iterated :: "json \<Rightarrow> py_error + json list" where
  "iterated v =
     (if falsy v then Inr []
      else case v of
             J_list ms \<Rightarrow> Inr ms
           | J_str s \<Rightarrow> Inr (map (\<lambda>c. J_str [c]) s)
           | J_obj d \<Rightarrow> Inr (map (J_str \<circ> fst) d)
           | _ \<Rightarrow> Inl (TypeError ''object is not iterable''))"

definition model_or :: "estimator_env \<Rightarrow> string \<Rightarrow> (string, json) dict \<Rightarrow> string" where
  "model_or env model body =
     (if model \<noteq> [] then model
      else case py_or (get_field body ''model'') (J_str []) of J_str s \<Rightarrow> s | v \<Rightarrow> py_str env v)"

definition tools_tokens :: "estimator_env \<Rightarrow> (string, json) dict \<Rightarrow> int" where
  "tools_tokens env body =
     (case get_field body ''tools'' of
        J_list ts \<Rightarrow> if ts = [] then 0 else len_tokens (jc_dumps (es_codec env) (J_list ts))
      | _ \<Rightarrow> 0)"

definition walk_anthropic_body :: "estimator_env \<Rightarrow> (string, json) dict \<Rightarrow> string \<Rightarrow> py_error + (int \<times> int \<times> rat)" where
  "walk_anthropic_body env body model =
     ebind (system_tokens body) (\<lambda>sys.
     ebind (iterated (get_field body ''messages'')) (\<lambda>ms.
     ebind (sum_pairs (map (message_tokens env (model_or env model body)) ms)) (\<lambda>(c, fresh).
       let cached = sys + c + tools_tokens env body; tot = cached + fresh in
       if tot = 0 then Inr (0, 0, 0) else Inr (cached, fresh, of_int cached / of_int tot))))"

definition structural_tokens :: "estimator_env \<Rightarrow> (string, json) dict \<Rightarrow> string \<Rightarrow> py_error + (int \<times> int \<times> int)" where
  "structural_tokens env body model =
     (if map_of body ''messages'' \<noteq> None
      then ebind (walk_anthropic_body env body model) (\<lambda>(cached, fresh, _). Inr (cached + fresh, cached, fresh))
      else ebind (content_tokens env model False (get_field body ''instructions'')) (\<lambda>instr.
        let cached = instr + (if falsy (get_field body ''tools'') then 0
                              else len_tokens (jc_dumps (es_codec env) (get_field body ''tools'')))
        in ebind (content_tokens env model False (get_field body ''input'')) (\<lambda>inp.
           ebind (if map_of body ''input'' \<noteq> None then Inr 0 else content_tokens env model False (get_field body ''prompt'')) (\<lambda>prompt.
             let fresh = inp + prompt in Inr (cached + fresh, cached, fresh)))))"

section \<open>The estimate\<close>

text \<open>\<^verbatim>\<open>int(x)\<close> of a truthy value.\<close>

definition int_of :: "json \<Rightarrow> py_error + int" where
  "int_of v =
     (case v of
        J_int n \<Rightarrow> Inr n
      | J_float x \<Rightarrow> Inr (trunc x)
      | J_bool b \<Rightarrow> Inr (if b then 1 else 0)
      | J_str s \<Rightarrow> (case py_int s of None \<Rightarrow> Inl (ValueError s) | Some n \<Rightarrow> Inr n)
      | _ \<Rightarrow> Inl (TypeError ''int() argument''))"

definition projected_output :: "(string, json) dict \<Rightarrow> py_error + int" where
  "projected_output body =
     int_of (py_or (get_field body ''max_tokens'') (py_or (get_field body ''max_output_tokens'')
       (py_or (get_field body ''max_completion_tokens'') (J_int DEFAULT_OUTPUT_TOKENS))))"

definition rate_or :: "(string, rat) dict \<Rightarrow> string \<Rightarrow> rat \<Rightarrow> rat" where
  "rate_or rates k dflt = (case map_of rates k of None \<Rightarrow> dflt | Some x \<Rightarrow> x)"

definition FALLBACK_RATES :: "(string, rat) dict" where
  "FALLBACK_RATES = [(''input'', 15), (''output'', 75), (''cached'', 3 / 2)]"

definition cost_of :: "(string, rat) dict \<Rightarrow> int \<Rightarrow> int \<Rightarrow> int \<Rightarrow> money" where
  "cost_of rates cached fresh out =
     (let in_per_mtok = rate_or rates ''input'' 3; out_per_mtok = rate_or rates ''output'' 15;
          cached_per_mtok = rate_or rates ''cached'' (in_per_mtok * (1 / 10))
      in of_int cached * cached_per_mtok / 1000000 + of_int fresh * in_per_mtok / 1000000 +
         of_int out * out_per_mtok / 1000000)"

definition parsed_body :: "estimator_env \<Rightarrow> string \<Rightarrow> (string, json) dict" where
  "parsed_body env body =
     (case jc_loads (es_codec env) (jc_decode (es_codec env) body) of Some (J_obj d) \<Rightarrow> d | _ \<Rightarrow> [])"

definition cached_fresh :: "estimator_env \<Rightarrow> string \<Rightarrow> string \<Rightarrow> py_error + (int \<times> int)" where
  "cached_fresh env body model =
     (if parsed_body env body \<noteq> []
      then ebind (structural_tokens env (parsed_body env body) model) (\<lambda>(_, cached, fresh). Inr (cached, fresh))
      else Inr (0, len_tokens (jc_decode (es_codec env) body)))"

definition estimate :: "estimator_env \<Rightarrow> string \<Rightarrow> string \<Rightarrow> int \<Rightarrow> py_error + risk_estimate" where
  "estimate env body model fallback_session_tokens =
     (let rates = (case es_rates env model of None \<Rightarrow> FALLBACK_RATES | Some r \<Rightarrow> r) in
      ebind (cached_fresh env body model) (\<lambda>(cached, fresh0).
        let input = max (cached + fresh0) (max 0 fallback_session_tokens); fresh = input - cached in
        ebind (projected_output (parsed_body env body)) (\<lambda>out.
          Inr \<lparr>re_model = model, re_current_context_tokens = cached, re_request_tokens = fresh,
               re_projected_input_tokens = input, re_projected_output_tokens = out,
               re_projected_cost_usd = py_round 6 (cost_of rates cached fresh out),
               re_cache_hit_ratio = py_round 4 (if input = 0 then 0 else of_int cached / of_int input),
               re_rates = (let i = rate_or rates ''input'' 3 in
                 [(''input'', i), (''output'', rate_or rates ''output'' 15), (''cached'', rate_or rates ''cached'' (i * (1 / 10)))])\<rparr>)))"

section \<open>Usage anchors\<close>

record usage_anchor =
  ua_input_tokens :: int
  ua_history_count :: nat
  ua_history_digest :: string
  ua_overhead_tokens :: int
  ua_started_at :: secs

type_synonym anchors = "((string \<times> string), usage_anchor) dict"

definition MAX_ANCHORS :: nat where "MAX_ANCHORS = 256"

fun insert_key :: "string \<Rightarrow> string list \<Rightarrow> string list" where
  "insert_key k [] = [k]"
| "insert_key k (x # xs) = (if str_le k x then k # x # xs else x # insert_key k xs)"

definition sorted_keys :: "string list \<Rightarrow> string list" where
  "sorted_keys ks = foldr insert_key ks []"

text \<open>What one item adds to the digest, and what it pushes, the next to be popped first.\<close>

fun digest_item :: "(json \<Rightarrow> string) \<Rightarrow> json \<Rightarrow> string \<times> json list" where
  "digest_item dumps (J_obj d) =
     (let ks = sorted_keys (filter (\<lambda>k. k \<noteq> ''cache_control'') (keys d)) in
      (''d'' @ show_nat (length ks) @ '':'', concat (map (\<lambda>k. [J_str k, get_field d k]) ks)))"
| "digest_item dumps (J_list xs) = (''l'' @ show_nat (length xs) @ '':'', xs)"
| "digest_item dumps j = (''v'' @ show_nat (length (dumps j)) @ '':'' @ dumps j, [])"

lemma set_insert_key [simp]: "set (insert_key k ks) = insert k (set ks)"
  by (induction ks) auto

lemma set_sorted_keys [simp]: "set (sorted_keys ks) = set ks"
  by (induction ks) (simp_all add: sorted_keys_def)

lemma digest_item_shrinks:
  assumes "digest_item dumps j = (chunk, kids)" "k \<in> set kids"
  shows "weight k < weight j"
proof (cases j)
  case (J_list xs)
  then have "weight k \<le> sum_list (map weight xs)" using assms by (auto intro: member_le_sum_list)
  then show ?thesis using J_list by simp
next
  case (J_obj d)
  then obtain x v where "(x, v) \<in> set d" "k = J_str x \<or> k = get_field d x" using assms by (auto simp: Let_def)
  then obtain u where u: "map_of d x = Some u" by (metis weak_map_of_SomeI)
  then show ?thesis using weight_member[OF u] weight_pos[of u] J_obj \<open>k = J_str x \<or> k = get_field d x\<close>
    by (auto simp: get_field_def simp del: weight_pos)
qed (use assms in auto)

lemma replace_top_decreases:
  assumes "\<And>k. k \<in> set kids \<Longrightarrow> f k < (f x :: nat)"
  shows "(image_mset f (mset (kids @ stack)), image_mset f (mset (x # stack))) \<in> mult less_than"
proof -
  have "(image_mset f (mset stack) + image_mset f (mset kids), image_mset f (mset stack) + {#f x#}) \<in> mult less_than"
    using assms by (intro one_step_implies_mult) auto
  then show ?thesis by (simp add: union_commute)
qed

function digest_loop :: "(json \<Rightarrow> string) \<Rightarrow> json list \<Rightarrow> string" where
  "digest_loop dumps [] = []"
| "digest_loop dumps (item # stack) =
     (case digest_item dumps item of (chunk, kids) \<Rightarrow> chunk @ digest_loop dumps (kids @ stack))"
  by pat_completeness auto
termination
proof (relation "inv_image (mult less_than) (\<lambda>(dumps, stack). image_mset weight (mset stack))", goal_cases)
  case 1
  show ?case by (simp add: wf_mult)
next
  case (2 dumps item stack chunk kids)
  then show ?case using replace_top_decreases[of kids weight item stack] digest_item_shrinks[of dumps item chunk kids]
    by (simp add: in_inv_image)
qed

definition digest :: "estimator_env \<Rightarrow> json list \<Rightarrow> string" where
  "digest env history = es_sha256 env (digest_loop (jc_dumps_compact (es_codec env)) [J_list history])"

definition shape :: "estimator_env \<Rightarrow> string \<Rightarrow> py_error + ((string, json) dict \<times> string \<times> json list)" where
  "shape env body =
     (case jc_loads_bytes (es_codec env) body of
        None \<Rightarrow> Inl (ValueError ''not JSON'')
      | Some (J_obj parsed) \<Rightarrow>
          (let field = (if map_of parsed ''messages'' \<noteq> None then ''messages'' else ''input'') in
           case get_field parsed field of
             J_str s \<Rightarrow> Inr (parsed, field, [J_str s])
           | J_list history \<Rightarrow> Inr (parsed, field, history)
           | _ \<Rightarrow> Inl (ValueError ''request has no supported history''))
      | _ \<Rightarrow> Inl (ValueError ''request is not an object''))"

definition counter :: "estimator_env \<Rightarrow> (string, json) dict \<Rightarrow> string \<Rightarrow> py_error + int" where
  "counter env parsed model = ebind (structural_tokens env parsed model) (\<lambda>(tot, _). Inr tot)"

text \<open>The input tokens a provider reports; \<open>None\<close> when there is nothing to record.\<close>

definition usage_total :: "string \<Rightarrow> (string, json) dict \<Rightarrow> int option" where
  "usage_total provider usage =
     (let names = ''input_tokens'' # (if provider = ''anthropic'' then [''cache_read_input_tokens'', ''cache_creation_input_tokens''] else []);
          values = map (\<lambda>n. case map_of usage n of None \<Rightarrow> J_int 0 | Some v \<Rightarrow> v) names
      in if map_of usage ''input_tokens'' = None \<or> list_ex (\<lambda>v. case v of J_int n \<Rightarrow> n < 0 | _ \<Rightarrow> True) values then None
         else let tot = sum_list (map (\<lambda>v. case v of J_int n \<Rightarrow> n | _ \<Rightarrow> 0) values) in if tot \<le> 0 then None else Some tot)"

definition put_anchor :: "string \<times> string \<Rightarrow> usage_anchor \<Rightarrow> anchors \<Rightarrow> anchors" where
  "put_anchor key a anchors =
     (if (case map_of anchors key of None \<Rightarrow> False | Some old \<Rightarrow> ua_started_at a < ua_started_at old) then anchors
      else let d = AList.delete key anchors @ [(key, a)] in drop (length d - MAX_ANCHORS) d)"

definition completed_anchor :: "estimator_env \<Rightarrow> string \<Rightarrow> string \<Rightarrow> int \<Rightarrow> secs \<Rightarrow> py_error + usage_anchor" where
  "completed_anchor env body model tot started_at =
     ebind (shape env body) (\<lambda>(parsed, field, history).
     ebind (counter env (AList.update field (J_list []) parsed) model) (\<lambda>overhead.
       Inr \<lparr>ua_input_tokens = tot, ua_history_count = length history, ua_history_digest = digest env history,
            ua_overhead_tokens = overhead, ua_started_at = started_at\<rparr>))"

definition record_completed ::
  "estimator_env \<Rightarrow> string \<Rightarrow> string \<Rightarrow> string \<Rightarrow> (string, json) dict \<Rightarrow> string \<Rightarrow> secs \<Rightarrow> anchors \<Rightarrow> (py_error + unit) \<times> anchors" where
  "record_completed env body model session_id usage provider started_at anchors =
     (if session_id = [] \<or> model = [] \<or> usage = [] \<or> provider \<notin> {''anthropic'', ''openai'', ''openai-codex''}
      then (Inr (), anchors)
      else case usage_total provider usage of
             None \<Rightarrow> (Inr (), anchors)
           | Some tot \<Rightarrow>
               (case completed_anchor env body model tot started_at of
                  Inl e \<Rightarrow> (Inl e, anchors)
                | Inr a \<Rightarrow> (Inr (), put_anchor (session_id, model) a anchors)))"

definition projection_floor :: "estimator_env \<Rightarrow> string \<Rightarrow> string \<Rightarrow> string \<Rightarrow> anchors \<Rightarrow> py_error + int" where
  "projection_floor env body model session_id anchors =
     (if session_id = [] \<or> model = [] then Inr 0
      else case map_of anchors (session_id, model) of
             None \<Rightarrow> Inr 0
           | Some a \<Rightarrow>
               ebind (shape env body) (\<lambda>(parsed, field, history).
                 ebind (if ua_history_count a \<le> length history \<and> digest env (take (ua_history_count a) history) = ua_history_digest a
                        then ebind (counter env (AList.update field (J_list []) parsed) model) (\<lambda>overhead.
                             ebind (counter env [(field, J_list (drop (ua_history_count a) history))] model) (\<lambda>suffix.
                               Inr (suffix + max 0 (overhead - ua_overhead_tokens a))))
                        else counter env parsed model) (\<lambda>increment.
                   Inr (ua_input_tokens a + increment))))"

definition estimate_anchored :: "estimator_env \<Rightarrow> anchors \<Rightarrow> string \<Rightarrow> string \<Rightarrow> string \<Rightarrow> py_error + risk_estimate" where
  "estimate_anchored env anchors body model session_id =
     ebind (case projection_floor env body model session_id anchors of
              Inr n \<Rightarrow> Inr n
            | Inl (ValueError _) \<Rightarrow> Inr 0
            | Inl (TypeError _) \<Rightarrow> Inr 0
            | Inl (AttributeError _) \<Rightarrow> Inr 0
            | Inl e \<Rightarrow> Inl e) (\<lambda>floor.
       estimate env body model floor)"

section \<open>Counts are sums of counts\<close>

lemma len_tokens_nonneg [simp]: "0 \<le> len_tokens s"
  by (simp add: len_tokens_def le_max_iff_disj)

lemma sum_len_nonneg [simp]: "0 \<le> sum_list (map (len_tokens \<circ> fst) d)"
  by (intro sum_list_nonneg) auto

text \<open>A count that returns is not negative; the only exception is that of a value with no length.\<close>

definition counted :: "py_error + int \<Rightarrow> bool" where
  "counted r = (case r of Inl e \<Rightarrow> e = TypeError ''object has no len()'' | Inr n \<Rightarrow> 0 \<le> n)"

lemma counted_simps [simp]:
  "counted (Inr n) \<longleftrightarrow> 0 \<le> n" "counted (Inl e) \<longleftrightarrow> e = TypeError ''object has no len()''"
  by (simp_all add: counted_def)

lemma counted_count_text [simp]: "counted (count_text_tokens v)"
  by (cases v) simp_all

definition own_count :: "py_error + (int \<times> json list) \<Rightarrow> py_error + int" where
  "own_count r = ebind r (\<lambda>(n, kids). Inr n)"

lemma counted_content_item: "counted (own_count (content_item env model anthropic j))"
proof (cases j)
  case (J_obj d)
  have leaf: "counted (own_count (ebind (count_text_tokens v) (\<lambda>n. Inr (n, []))))" for v
    using counted_count_text[of v] by (cases "count_text_tokens v") (simp_all add: own_count_def)
  have flat: "0 \<le> n \<Longrightarrow> counted (own_count (Inr (n, kids)))" for n kids by (simp add: own_count_def)
  have branch: "counted (own_count x) \<Longrightarrow> counted (own_count y) \<Longrightarrow> counted (own_count (if c then x else y))" for x y c
    by simp
  note pos = image_tokens_pos[THEN less_imp_le] document_tokens_pos[THEN less_imp_le]
  have "counted (own_count (block_item env model anthropic d))"
    unfolding block_item_def Let_def
    by (intro branch leaf flat pos len_tokens_nonneg sum_len_nonneg)
      (auto split: json.splits intro!: branch leaf flat pos)
  then show ?thesis using J_obj by simp
qed (simp_all add: own_count_def)

lemma sum_ok_append: "sum_ok (xs @ ys) = ebind (sum_ok xs) (\<lambda>n. ebind (sum_ok ys) (\<lambda>m. Inr (n + m)))"
proof (induction xs)
  case Nil
  show ?case by (cases "sum_ok ys") simp_all
next
  case (Cons x xs)
  then show ?case by (cases x; cases "sum_ok xs"; cases "sum_ok ys") simp_all
qed

lemma counted_sum_ok: "(\<And>x. x \<in> set xs \<Longrightarrow> counted x) \<Longrightarrow> counted (sum_ok xs)"
proof (induction xs)
  case (Cons x xs)
  then have "counted x" "counted (sum_ok xs)" by simp_all
  then show ?case by (cases x; cases "sum_ok xs") simp_all
qed simp

lemma sum_ok_swap:
  assumes "counted a" "counted b"
  shows "ebind a (\<lambda>n. ebind b (\<lambda>m. Inr (n + m))) = ebind b (\<lambda>m. ebind a (\<lambda>n. Inr (m + n)))"
  using assms by (cases a; cases b) simp_all

lemma sum_ok_rev: "(\<And>x. x \<in> set xs \<Longrightarrow> counted x) \<Longrightarrow> sum_ok (rev xs) = sum_ok xs"
proof (induction xs)
  case (Cons x xs)
  then have "counted x" "counted (sum_ok xs)" by (auto intro: counted_sum_ok)
  then show ?case using Cons by (cases x; cases "sum_ok xs") (simp_all add: sum_ok_append)
qed simp

lemma content_loop_append:
  "content_loop env model anthropic tot (stack @ rest) =
     ebind (content_loop env model anthropic 0 stack) (\<lambda>n. content_loop env model anthropic (tot + n) rest)"
proof (induction "sum_list (map weight stack)" arbitrary: tot stack rest rule: less_induct)
  case less
  let ?loop = "content_loop env model anthropic"
  show ?case
  proof (cases stack)
    case (Cons item st)
    show ?thesis
    proof (cases "content_item env model anthropic item")
      case (Inr r)
      obtain n kids where r: "r = (n, kids)" by (cases r)
      have "sum_list (map weight (rev kids @ st)) < sum_list (map weight stack)"
        using content_item_shrinks[of env model anthropic item n kids] Inr r Cons by (simp add: rev_map[symmetric])
      note IH = less(1)[OF this]
      have l: "?loop tot (stack @ rest) = ?loop (tot + n) ((rev kids @ st) @ rest)" using Inr r Cons by simp
      have z: "?loop 0 stack = ?loop n ((rev kids @ st) @ [])" using Inr r Cons by simp
      show ?thesis unfolding l z IH[of "tot + n" rest] IH[of n "[]"]
        by (cases "?loop 0 (rev kids @ st)") (simp_all add: add.assoc)
    qed (simp add: Cons)
  qed simp
qed

lemma content_loop_sum: "content_loop env model anthropic 0 stack = sum_ok (map (content_tokens env model anthropic) stack)"
proof (induction stack)
  case (Cons x stack)
  let ?loop = "content_loop env model anthropic"
  have "?loop 0 (x # stack) = ebind (?loop 0 [x]) (\<lambda>n. ?loop n stack)"
    using content_loop_append[of env model anthropic 0 "[x]" stack] by simp
  also have "\<dots> = ebind (?loop 0 [x]) (\<lambda>n. ebind (?loop 0 stack) (\<lambda>m. Inr (n + m)))"
  proof -
    have acc: "?loop n stack = ebind (?loop 0 stack) (\<lambda>m. Inr (n + m))" for n
      using content_loop_append[of env model anthropic n stack "[]"] by simp
    show ?thesis by (rule arg_cong[where f = "ebind (?loop 0 [x])"], rule ext, rule acc)
  qed
  finally show ?case using Cons by (simp add: content_tokens_def)
qed simp

lemma counted_content: "counted (content_tokens env model anthropic v)"
proof (induction "weight v" arbitrary: v rule: less_induct)
  case less
  show ?case
  proof (cases "content_item env model anthropic v")
    case (Inl e)
    then show ?thesis using counted_content_item[of env model anthropic v]
      by (simp add: content_tokens_def own_count_def)
  next
    case (Inr r)
    obtain n kids where r: "r = (n, kids)" by (cases r)
    have n: "0 \<le> n" using counted_content_item[of env model anthropic v] Inr r by (simp add: own_count_def)
    have sm: "sum_list (map weight kids) < weight v" using content_item_shrinks[of env model anthropic v n kids] Inr r by simp
    have "counted (content_tokens env model anthropic k)" if "k \<in> set kids" for k
    proof (rule less)
      have "weight k \<le> sum_list (map weight kids)" using that by (auto intro: member_le_sum_list)
      then show "weight k < weight v" using sm by simp
    qed
    then have "counted (sum_ok (map (content_tokens env model anthropic) (rev kids)))" by (intro counted_sum_ok) auto
    then show ?thesis using Inr r n content_loop_append[of env model anthropic n "rev kids" "[]"]
      by (cases "sum_ok (map (content_tokens env model anthropic) (rev kids))")
        (simp_all add: content_tokens_def content_loop_sum)
  qed
qed

lemma content_tokens_rec:
  "content_tokens env model anthropic v =
     ebind (content_item env model anthropic v) (\<lambda>(n, kids).
       ebind (sum_ok (map (content_tokens env model anthropic) kids)) (\<lambda>m. Inr (n + m)))"
proof (cases "content_item env model anthropic v")
  case (Inr r)
  obtain n kids where r: "r = (n, kids)" by (cases r)
  have "sum_ok (rev (map (content_tokens env model anthropic) kids)) = sum_ok (map (content_tokens env model anthropic) kids)"
    using counted_content by (intro sum_ok_rev) auto
  then show ?thesis using Inr r content_loop_append[of env model anthropic n "rev kids" "[]"]
    by (simp add: content_tokens_def[of env model anthropic v] content_loop_sum rev_map)
qed (simp add: content_tokens_def)

section \<open>Request bodies\<close>

definition counted2 :: "py_error + (int \<times> int) \<Rightarrow> bool" where
  "counted2 r = (case r of Inl e \<Rightarrow> True | Inr (a, b) \<Rightarrow> 0 \<le> a \<and> 0 \<le> b)"

lemma sum_pairs_append:
  "sum_pairs (xs @ ys) = ebind (sum_pairs xs) (\<lambda>(a, b). ebind (sum_pairs ys) (\<lambda>(c, d). Inr (a + c, b + d)))"
proof (induction xs)
  case Nil
  show ?case by (cases "sum_pairs ys") auto
next
  case (Cons x xs)
  then show ?case by (cases x; cases "sum_pairs xs"; cases "sum_pairs ys") (auto simp: split_beta)
qed

lemma counted2_sum_pairs: "(\<And>x. x \<in> set xs \<Longrightarrow> counted2 x) \<Longrightarrow> counted2 (sum_pairs xs)"
proof (induction xs)
  case (Cons x xs)
  then have "counted2 x" "counted2 (sum_pairs xs)" by simp_all
  then show ?case by (cases x; cases "sum_pairs xs") (auto simp: counted2_def)
qed (simp add: counted2_def)

lemma counted2_message: "counted2 (message_tokens env model msg)"
proof -
  have "counted2 (message_block env model b)" for b
  proof (cases b)
    case (J_obj d)
    then show ?thesis using counted_content[of env model True b]
      by (cases "content_tokens env model True b") (simp_all add: message_block_def counted2_def)
  qed (simp_all add: message_block_def counted2_def)
  then have "counted2 (sum_pairs (map (message_block env model) bs))" for bs by (intro counted2_sum_pairs) auto
  then show ?thesis by (auto simp: message_tokens_def counted2_def split: json.splits)
qed

lemma counted2_messages: "counted2 (sum_pairs (map (message_tokens env model) ms))"
  by (intro counted2_sum_pairs) (auto simp: counted2_message)

lemma counted_system: "counted (system_tokens body)"
proof -
  have "counted (sum_ok (map (\<lambda>b. case b of J_obj d \<Rightarrow> count_text_tokens (py_or (get_field d ''text'') (J_str [])) | _ \<Rightarrow> Inr 0) bs))" for bs
    by (rule counted_sum_ok) (auto split: json.splits)
  then show ?thesis by (auto simp: system_tokens_def split: json.splits)
qed

lemma tools_tokens_nonneg: "0 \<le> tools_tokens env body"
  by (simp add: tools_tokens_def split: json.splits)

text \<open>Cached and fresh tokens of a body with a message list.\<close>

lemma structural_messages:
  assumes "map_of body ''messages'' = Some (J_list ms)"
  shows "structural_tokens env body model =
     ebind (system_tokens body) (\<lambda>sys.
     ebind (sum_pairs (map (message_tokens env (model_or env model body)) ms)) (\<lambda>(c, fresh).
       Inr (sys + c + tools_tokens env body + fresh, sys + c + tools_tokens env body, fresh)))"
proof -
  have it: "iterated (get_field body ''messages'') = Inr ms" using assms by (auto simp: get_field_def iterated_def)
  show ?thesis using counted_system[of body] tools_tokens_nonneg[of env body] counted2_messages[of env "model_or env model body" ms] assms it
    by (cases "system_tokens body"; cases "sum_pairs (map (message_tokens env (model_or env model body)) ms)")
      (auto simp: structural_tokens_def walk_anthropic_body_def Let_def counted2_def)
qed

lemma structural_messagesD:
  assumes "structural_tokens env body model = Inr (t, c, f)" "map_of body ''messages'' = Some (J_list ms)"
  shows "\<exists>sys a. system_tokens body = Inr sys \<and> sum_pairs (map (message_tokens env (model_or env model body)) ms) = Inr (a, f) \<and>
           c = sys + a + tools_tokens env body \<and> t = c + f"
  using assms(1) unfolding structural_messages[OF assms(2)] by (auto simp: ebind_eq_Inr)

lemma structural_nonneg:
  assumes "structural_tokens env body model = Inr (t, c, f)"
  shows "0 \<le> c \<and> 0 \<le> f \<and> t = c + f"
proof (cases "map_of body ''messages''")
  case None
  then show ?thesis
    using assms counted_content[of env model False "get_field body ''instructions''"]
      counted_content[of env model False "get_field body ''input''"] counted_content[of env model False "get_field body ''prompt''"]
    by (auto simp: structural_tokens_def Let_def ebind_eq_Inr split: if_splits)
next
  case (Some v)
  have pos: "0 \<le> x \<and> 0 \<le> y" if "sum_pairs (map (message_tokens env m) ms) = Inr (x, y)" for m ms x y
    using counted2_messages[of env m ms] that by (simp add: counted2_def)
  have "t = 0 \<and> c = 0 \<and> f = 0 \<or> (\<exists>sys a ms. system_tokens body = Inr sys \<and>
      sum_pairs (map (message_tokens env (model_or env model body)) ms) = Inr (a, f) \<and> c = sys + a + tools_tokens env body \<and> t = c + f)"
    using assms Some by (auto simp: structural_tokens_def walk_anthropic_body_def Let_def ebind_eq_Inr split: if_splits)
  then show ?thesis using counted_system[of body] tools_tokens_nonneg[of env body] by (auto dest!: pos)
qed

lemma get_field_update: "get_field (AList.update k v d) k' = (if k = k' then v else get_field d k')"
  by (simp add: get_field_def update_conv')

lemma system_tokens_cong: "get_field b ''system'' = get_field b' ''system'' \<Longrightarrow> system_tokens b = system_tokens b'"
  and tools_tokens_cong: "get_field b ''tools'' = get_field b' ''tools'' \<Longrightarrow> tools_tokens env b = tools_tokens env b'"
  and model_or_cong: "get_field b ''model'' = get_field b' ''model'' \<Longrightarrow> model_or env m b = model_or env m b'"
  by (simp_all add: system_tokens_def tools_tokens_def model_or_def)

lemma longer_history:
  assumes "structural_tokens env (AList.update ''messages'' (J_list ms) body) model = Inr (t, c, f)"
    "structural_tokens env (AList.update ''messages'' (J_list (ms @ ms')) body) model = Inr (t', c', f')"
  shows "t \<le> t' \<and> c \<le> c' \<and> f \<le> f'"
proof -
  let ?b = "AList.update ''messages'' (J_list ms) body" and ?b' = "AList.update ''messages'' (J_list (ms @ ms')) body"
  let ?m = "model_or env model ?b"
  have same: "system_tokens ?b' = system_tokens ?b" "tools_tokens env ?b' = tools_tokens env ?b" "model_or env model ?b' = ?m"
    by (rule system_tokens_cong tools_tokens_cong model_or_cong, simp add: get_field_update)+
  obtain sys a where 1: "system_tokens ?b = Inr sys" "sum_pairs (map (message_tokens env ?m) ms) = Inr (a, f)"
    "c = sys + a + tools_tokens env ?b" "t = c + f"
    using structural_messagesD[OF assms(1), of ms] by (auto simp: update_conv')
  obtain a' where 2: "sum_pairs (map (message_tokens env ?m) (ms @ ms')) = Inr (a', f')"
    "c' = sys + a' + tools_tokens env ?b" "t' = c' + f'"
    using structural_messagesD[OF assms(2), of "ms @ ms'"] 1(1) same by (auto simp: update_conv')
  have "counted2 (sum_pairs (map (message_tokens env ?m) ms'))" by (rule counted2_messages)
  moreover obtain x y where "sum_pairs (map (message_tokens env ?m) ms') = Inr (x, y)" "a' = a + x" "f' = f + y"
    using 1(2) 2(1) by (auto simp: sum_pairs_append ebind_eq_Inr)
  ultimately show ?thesis using 1 2 by (simp add: counted2_def)
qed

section \<open>Estimates\<close>

lemma cached_fresh_nonneg: "cached_fresh env body model = Inr (c, f) \<Longrightarrow> 0 \<le> c \<and> 0 \<le> f"
  using structural_nonneg by (fastforce simp: cached_fresh_def ebind_eq_Inr split: if_splits)

lemma py_round_unit: "0 \<le> x \<Longrightarrow> x \<le> 1 \<Longrightarrow> 0 \<le> py_round d x \<and> py_round d x \<le> 1"
proof -
  assume x: "0 \<le> x" "x \<le> 1"
  then have "of_int 0 \<le> x * 10 ^ d" "x * 10 ^ d \<le> of_int (10 ^ d)" by simp_all
  then have "0 \<le> round_even (x * 10 ^ d)" "round_even (x * 10 ^ d) \<le> 10 ^ d"
    using round_even_mono round_even_of_int by metis+
  then have "(of_int (round_even (x * 10 ^ d)) :: rat) \<le> of_int (10 ^ d)" by (simp only: of_int_le_iff)
  then show ?thesis using \<open>0 \<le> round_even (x * 10 ^ d)\<close> by (simp add: py_round_def divide_le_eq)
qed

lemma py_round_nonneg: "0 \<le> x \<Longrightarrow> 0 \<le> py_round d x"
  using round_even_mono[of 0 "x * 10 ^ d"] round_even_of_int[of 0] by (simp add: py_round_def)

lemma estimate_parts:
  assumes "estimate env body model fl = Inr est"
  shows "\<exists>c f out. cached_fresh env body model = Inr (c, f) \<and> projected_output (parsed_body env body) = Inr out \<and>
           re_current_context_tokens est = c \<and> re_projected_input_tokens est = max (c + f) (max 0 fl) \<and>
           re_request_tokens est = max (c + f) (max 0 fl) - c \<and> re_projected_output_tokens est = out \<and>
           re_model est = model \<and>
           re_cache_hit_ratio est = py_round 4 (if re_projected_input_tokens est = 0 then 0
                                                else of_int c / of_int (re_projected_input_tokens est)) \<and>
           re_projected_cost_usd est = py_round 6 (cost_of (case es_rates env model of None \<Rightarrow> FALLBACK_RATES | Some r \<Rightarrow> r)
             c (re_request_tokens est) out)"
  using assms by (auto simp: estimate_def Let_def ebind_eq_Inr)

section \<open>The provider's count is a floor\<close>

lemma counter_nonneg: "counter env parsed model = Inr n \<Longrightarrow> 0 \<le> n"
  using structural_nonneg[of env parsed model] by (fastforce simp: counter_def ebind_eq_Inr)

lemma counter_defined: "structural_tokens env parsed model = Inr r \<Longrightarrow> \<exists>n. counter env parsed model = Inr n"
  by (cases r) (simp add: counter_def)

lemma sum_ok_part: "sum_ok (xs @ ys) = Inr n \<Longrightarrow> \<exists>m. sum_ok ys = Inr m"
  by (auto simp: sum_ok_append ebind_eq_Inr)

lemma sum_pairs_part: "sum_pairs (xs @ ys) = Inr n \<Longrightarrow> \<exists>m. sum_pairs ys = Inr m"
  by (auto simp: sum_pairs_append ebind_eq_Inr)

lemma content_list: "content_tokens env model anthropic (J_list xs) = sum_ok (map (content_tokens env model anthropic) xs)"
  unfolding content_tokens_rec[of env model anthropic "J_list xs"]
  by (cases "sum_ok (map (content_tokens env model anthropic) xs)") simp_all

text \<open>If a whole body can be counted, so can the part of it the floor is computed from.\<close>

lemma counter_parts:
  assumes sh: "shape env body = Inr (parsed, field, history)" and ok: "structural_tokens env parsed model = Inr r" and m: "model \<noteq> []"
  shows "(\<exists>n. counter env (AList.update field (J_list []) parsed) model = Inr n) \<and>
         (\<exists>n. counter env [(field, J_list (drop k history))] model = Inr n)"
proof (cases "map_of parsed ''messages''")
  case (Some v)
  then have f: "field = ''messages''" "v = J_list history \<or> (\<exists>s. v = J_str s \<and> history = [J_str s])"
    using sh by (auto simp: shape_def Let_def get_field_def split: option.splits json.splits)
  have sys: "\<exists>n. system_tokens parsed = Inr n"
    using ok Some by (auto simp: structural_tokens_def walk_anthropic_body_def ebind_eq_Inr)
  have mdl: "model_or env model b = model" for b using m by (simp add: model_or_def)
  have "\<exists>p. sum_pairs (map (message_tokens env model) history) = Inr p"
    using f(2)
  proof
    assume "v = J_list history"
    then show ?thesis using ok Some by (auto simp: structural_messages mdl ebind_eq_Inr)
  qed (auto simp: message_tokens_def)
  then have "\<exists>p. sum_pairs (map (message_tokens env model) (drop k history)) = Inr p"
    using sum_pairs_part[of "map (message_tokens env model) (take k history)" "map (message_tokens env model) (drop k history)"]
    by (metis append_take_drop_id map_append)
  moreover have "system_tokens [(''messages'', J_list (drop k history))] = Inr 0" by (simp add: system_tokens_def get_field_def)
  ultimately have "\<exists>r. structural_tokens env [(field, J_list (drop k history))] model = Inr r"
    by (auto simp: f(1) structural_messages mdl split_beta)
  moreover have "system_tokens (AList.update ''messages'' (J_list []) parsed) = system_tokens parsed"
    by (rule system_tokens_cong) (simp add: get_field_update)
  then have "\<exists>r. structural_tokens env (AList.update field (J_list []) parsed) model = Inr r"
    using sys by (auto simp: f(1) structural_messages[OF update_Some_unfold[THEN iffD2]] update_conv')
  ultimately show ?thesis using counter_defined by blast
next
  case None
  then have f: "field = ''input''"
    and v: "get_field parsed ''input'' = J_list history \<or> (\<exists>s. get_field parsed ''input'' = J_str s \<and> history = [J_str s])"
    using sh by (auto simp: shape_def Let_def split: option.splits json.splits)
  have ins: "\<exists>n. content_tokens env model False (get_field parsed ''instructions'') = Inr n"
    and inp: "\<exists>n. content_tokens env model False (get_field parsed ''input'') = Inr n"
    using ok None by (auto simp: structural_tokens_def Let_def ebind_eq_Inr)
  have "\<exists>n. sum_ok (map (content_tokens env model False) history) = Inr n"
    using v inp by (auto simp: content_list)
  then have "\<exists>n. sum_ok (map (content_tokens env model False) (drop k history)) = Inr n"
    using sum_ok_part[of "map (content_tokens env model False) (take k history)" "map (content_tokens env model False) (drop k history)"]
    by (metis append_take_drop_id map_append)
  moreover have "content_tokens env model False J_null = Inr 0" by (simp add: content_tokens_def)
  ultimately have "\<exists>r. structural_tokens env [(field, J_list (drop k history))] model = Inr r"
    by (auto simp: f structural_tokens_def get_field_def content_list)
  moreover have "\<exists>r. structural_tokens env (AList.update field (J_list []) parsed) model = Inr r"
    using ins None by (auto simp: f structural_tokens_def get_field_update update_conv' content_list Let_def)
  ultimately show ?thesis using counter_defined by blast
qed

lemma projection_floor_ge:
  assumes "shape env body = Inr (parsed, field, history)" "structural_tokens env parsed model = Inr r"
    "model \<noteq> []" "session_id \<noteq> []" "map_of anchors (session_id, model) = Some a"
  shows "\<exists>n. projection_floor env body model session_id anchors = Inr n \<and> ua_input_tokens a \<le> n"
proof -
  note p = counter_parts[OF assms(1-3), of "ua_history_count a"]
  have w: "\<exists>n. counter env parsed model = Inr n" by (rule counter_defined[OF assms(2)])
  show ?thesis
  proof (cases "ua_history_count a \<le> length history \<and> digest env (take (ua_history_count a) history) = ua_history_digest a")
    case True
    then show ?thesis using assms(1,3-5) p counter_nonneg by (auto simp: projection_floor_def)
  next
    case False
    then show ?thesis using assms(1,3-5) w counter_nonneg by (auto simp: projection_floor_def)
  qed
qed

lemma estimate_anchored_floor:
  assumes "estimate_anchored env anchors body model session_id = Inr est" "model \<noteq> []" "session_id \<noteq> []"
    "map_of anchors (session_id, model) = Some a" "shape env body = Inr (parsed, field, history)"
    "jc_loads (es_codec env) (jc_decode (es_codec env) body) = jc_loads_bytes (es_codec env) body"
  shows "ua_input_tokens a \<le> re_projected_input_tokens est"
proof -
  obtain fl where e: "estimate env body model fl = Inr est"
    using assms(1) by (auto simp: estimate_anchored_def ebind_eq_Inr)
  then obtain c f where cf: "cached_fresh env body model = Inr (c, f)" using estimate_parts by blast
  have p: "parsed_body env body = parsed" "parsed \<noteq> []"
    using assms(5,6) by (auto simp: parsed_body_def shape_def Let_def get_field_def split: option.splits json.splits)
  then obtain r where "structural_tokens env parsed model = Inr r" using cf by (auto simp: cached_fresh_def ebind_eq_Inr)
  from projection_floor_ge[OF assms(5) this assms(2-4)] obtain n where
    n: "projection_floor env body model session_id anchors = Inr n" "ua_input_tokens a \<le> n" by blast
  then have "estimate env body model n = Inr est" using assms(1) by (simp add: estimate_anchored_def)
  then obtain c' f' where "re_projected_input_tokens est = max (c' + f') (max 0 n)" using estimate_parts by blast
  then show ?thesis using n(2) by simp
qed

lemma put_anchor_bounded: "length anchors \<le> MAX_ANCHORS \<Longrightarrow> length (put_anchor key a anchors) \<le> MAX_ANCHORS"
  by (auto simp: put_anchor_def Let_def)

lemma put_anchor_lookup:
  assumes "\<And>old. map_of anchors key = Some old \<Longrightarrow> ua_started_at old \<le> ua_started_at a"
  shows "map_of (put_anchor key a anchors) key = Some a"
proof -
  define d where "d = AList.delete key anchors"
  have new: "put_anchor key a anchors = drop (Suc (length d) - MAX_ANCHORS) (d @ [(key, a)])"
    using assms by (auto simp: put_anchor_def Let_def d_def split: option.splits)
  also have "\<dots> = drop (Suc (length d) - MAX_ANCHORS) d @ [(key, a)]" by (simp add: MAX_ANCHORS_def)
  also have "map_of \<dots> key = Some a"
  proof -
    have "key \<notin> set (keys d)" unfolding d_def set_keys_delete by simp
    then have "map_of (drop k d) key = None" for k by (auto simp: map_of_eq_None_iff dest: in_set_dropD)
    then show ?thesis by (simp add: map_add_def)
  qed
  finally show ?thesis .
qed

section \<open>Properties\<close>

text \<open>
  C26.  The stack walk counts the document.  The tokens of a value, computed by popping and pushing on
  an explicit stack, are its own tokens plus those of the values it pushes, each counted by itself:
  the walk ends for every document and the order in which it visits the parts makes no difference.
  A count is never negative.
\<close>

theorem stack_walk_is_recursive_sum:
  "content_tokens env model anthropic v =
     ebind (content_item env model anthropic v) (\<lambda>(n, kids).
       ebind (sum_ok (map (content_tokens env model anthropic) kids)) (\<lambda>m. Inr (n + m))) \<and>
   (case content_tokens env model anthropic v of Inl e \<Rightarrow> e = TypeError ''object has no len()'' | Inr n \<Rightarrow> 0 \<le> n)"
  using content_tokens_rec[of env model anthropic v] counted_content[of env model anthropic v]
  by (simp only: counted_def simp_thms)

text \<open>
  A longer history is never cheaper.  Appending messages to a conversation lowers neither its
  cached nor its fresh nor its total structural tokens.
\<close>

lemma longer_history_never_cheaper:
  assumes "structural_tokens env (AList.update ''messages'' (J_list ms) body) model = Inr (t, c, f)"
    "structural_tokens env (AList.update ''messages'' (J_list (ms @ ms')) body) model = Inr (t', c', f')"
  shows "t \<le> t' \<and> c \<le> c' \<and> f \<le> f'"
  by (rule longer_history[OF assms])

text \<open>
  An estimate is well formed.  Cached and fresh tokens are not negative and add up to the
  projected input, which is at least the structural count and at least the floor it was given; the
  hit ratio lies between zero and one; and when the prices and the requested output are not negative,
  neither is the cost.
\<close>

lemma estimate_well_formed:
  assumes "estimate env body model fl = Inr est"
  shows "0 \<le> re_current_context_tokens est \<and> 0 \<le> re_request_tokens est \<and>
         re_projected_input_tokens est = re_current_context_tokens est + re_request_tokens est \<and>
         fl \<le> re_projected_input_tokens est \<and>
         (\<forall>c f. cached_fresh env body model = Inr (c, f) \<longrightarrow> c + f \<le> re_projected_input_tokens est) \<and>
         0 \<le> re_cache_hit_ratio est \<and> re_cache_hit_ratio est \<le> 1 \<and>
         (0 \<le> re_projected_output_tokens est \<and> (\<forall>r k p. es_rates env model = Some r \<longrightarrow> map_of r k = Some p \<longrightarrow> 0 \<le> p) \<longrightarrow>
            0 \<le> re_projected_cost_usd est)"
proof -
  obtain c f out where p: "cached_fresh env body model = Inr (c, f)" "re_current_context_tokens est = c"
    "re_projected_input_tokens est = max (c + f) (max 0 fl)" "re_request_tokens est = max (c + f) (max 0 fl) - c"
    "re_projected_output_tokens est = out"
    "re_cache_hit_ratio est = py_round 4 (if re_projected_input_tokens est = 0 then 0
        else of_int c / of_int (re_projected_input_tokens est))"
    "re_projected_cost_usd est = py_round 6 (cost_of (case es_rates env model of None \<Rightarrow> FALLBACK_RATES | Some r \<Rightarrow> r)
        c (re_request_tokens est) out)"
    using estimate_parts[OF assms] by blast
  have nn: "0 \<le> c" "0 \<le> f" using cached_fresh_nonneg[OF p(1)] by simp_all
  have ratio: "0 \<le> re_cache_hit_ratio est \<and> re_cache_hit_ratio est \<le> 1"
    unfolding p(6) by (rule py_round_unit) (use nn p(3) in \<open>auto simp: divide_le_eq\<close>)
  have cost: "0 \<le> re_projected_cost_usd est"
    if "0 \<le> out" "\<forall>r k p. es_rates env model = Some r \<longrightarrow> map_of r k = Some p \<longrightarrow> 0 \<le> p"
  proof -
    define rates where "rates = (case es_rates env model of None \<Rightarrow> FALLBACK_RATES | Some r \<Rightarrow> r)"
    have "0 \<le> rate_or rates k d" if "0 \<le> d" for k d
      using that \<open>\<forall>r k p. es_rates env model = Some r \<longrightarrow> map_of r k = Some p \<longrightarrow> 0 \<le> p\<close>
      by (auto simp: rates_def rate_or_def FALLBACK_RATES_def split: option.splits)
    then have "0 \<le> cost_of rates c (re_request_tokens est) out"
      unfolding cost_of_def Let_def using that(1) nn p(4) by (intro add_nonneg_nonneg divide_nonneg_nonneg mult_nonneg_nonneg) auto
    then show ?thesis unfolding p(7) rates_def[symmetric] by (rule py_round_nonneg)
  qed
  show ?thesis using nn p(1-5) ratio cost by auto
qed

text \<open>
  The provider's own count is a floor.  Once a completed request of a session and model has been
  recorded, every later estimate for that session and model is at least the input tokens the
  provider reported then, whatever the body says, as long as it has a history of a supported form.
\<close>

lemma provider_count_is_a_floor:
  assumes "record_completed env body model session_id usage provider started_at anchors = (Inr (), anchors')"
    "usage_total provider usage = Some n" "session_id \<noteq> []" "model \<noteq> []"
    "provider \<in> {''anthropic'', ''openai'', ''openai-codex''}"
    "\<And>old. map_of anchors (session_id, model) = Some old \<Longrightarrow> ua_started_at old \<le> started_at"
    "estimate_anchored env anchors' body' model session_id = Inr est" "shape env body' = Inr (parsed, field, history)"
    "jc_loads (es_codec env) (jc_decode (es_codec env) body') = jc_loads_bytes (es_codec env) body'"
  shows "n \<le> re_projected_input_tokens est"
proof -
  have "usage \<noteq> []" using assms(2) by (auto simp: usage_total_def Let_def)
  then obtain a where a: "ua_input_tokens a = n" "ua_started_at a = started_at" "anchors' = put_anchor (session_id, model) a anchors"
  proof (cases "completed_anchor env body model n started_at")
    case (Inr a)
    then have "ua_input_tokens a = n" "ua_started_at a = started_at" by (auto simp: completed_anchor_def ebind_eq_Inr)
    then show ?thesis using that[of a] Inr \<open>usage \<noteq> []\<close> assms(1-5) by (auto simp: record_completed_def)
  qed (use \<open>usage \<noteq> []\<close> assms(1-5) in \<open>auto simp: record_completed_def\<close>)
  then have "map_of anchors' (session_id, model) = Some a" using put_anchor_lookup assms(6) by simp
  from estimate_anchored_floor[OF assms(7,4,3) this assms(8,9)] show ?thesis using a(1) by simp
qed

text \<open>Every body reads as the same short conversation; nothing is priced; digests are their input.\<close>

definition example_body :: "(string, json) dict" where
  "example_body = [(''messages'', J_list [J_obj [(''role'', J_str ''user''), (''content'', J_str ''hello there'')]])]"

definition example_es :: estimator_env where
  "example_es =
     \<lparr>es_media = example_media,
      es_codec = \<lparr>jc_decode = id, jc_encode = id, jc_loads = (\<lambda>_. Some (J_obj example_body)),
                  jc_loads_bytes = (\<lambda>_. Some (J_obj example_body)), jc_dumps = (\<lambda>_. ''{}''), jc_dumps_sorted = (\<lambda>_. ''{}''),
                  jc_dumps_compact = (\<lambda>_. ''0''), jc_str = (\<lambda>_. ''None'')\<rparr>,
      es_rates = (\<lambda>_. None), es_sha256 = id\<rparr>"

theorem longer_history_never_cheaper_witness:
  "\<exists>t c f t' c' f'.
     structural_tokens example_es (AList.update ''messages'' (J_list []) example_body) ''m'' = Inr (t, c, f) \<and>
     structural_tokens example_es (AList.update ''messages'' (J_list ([] @ [J_obj [(''content'', J_str ''hello there'')]])) example_body) ''m'' =
       Inr (t', c', f') \<and> t \<le> t'"
proof -
  have 1: "structural_tokens example_es (AList.update ''messages'' (J_list []) example_body) ''m'' = Inr (0, 0, 0)" by code_simp
  have 2: "structural_tokens example_es
      (AList.update ''messages'' (J_list ([] @ [J_obj [(''content'', J_str ''hello there'')]])) example_body) ''m'' = Inr (2, 0, 2)"
    by code_simp
  show ?thesis using longer_history_never_cheaper[OF 1 2] 1 2 by blast
qed

theorem estimate_well_formed_witness:
  "\<exists>est. estimate example_es ''x'' ''m'' 700 = Inr est \<and> 700 \<le> re_projected_input_tokens est"
proof -
  have "\<not> isl (estimate example_es ''x'' ''m'' 700)" by code_simp
  then obtain est where e: "estimate example_es ''x'' ''m'' 700 = Inr est" by (cases "estimate example_es ''x'' ''m'' 700") auto
  then show ?thesis using estimate_well_formed[OF e] by blast
qed

theorem provider_count_is_a_floor_witness:
  "\<exists>anchors' est. record_completed example_es ''x'' ''m'' ''s'' [(''input_tokens'', J_int 900)] ''openai'' 5 [] = (Inr (), anchors') \<and>
     estimate_anchored example_es anchors' ''y'' ''m'' ''s'' = Inr est \<and> 900 \<le> re_projected_input_tokens est"
proof -
  define r where "r = record_completed example_es ''x'' ''m'' ''s'' [(''input_tokens'', J_int 900)] ''openai'' 5 []"
  have 1: "fst r = Inr ()" unfolding r_def by code_simp
  have 2: "\<not> isl (estimate_anchored example_es (snd r) ''y'' ''m'' ''s'')" unfolding r_def by code_simp
  have 3: "usage_total ''openai'' [(''input_tokens'', J_int 900)] = Some 900" by code_simp
  have 4: "shape example_es ''y'' = Inr (example_body, ''messages'',
      [J_obj [(''role'', J_str ''user''), (''content'', J_str ''hello there'')]])" by code_simp
  have rec: "record_completed example_es ''x'' ''m'' ''s'' [(''input_tokens'', J_int 900)] ''openai'' 5 [] = (Inr (), snd r)"
    using 1 unfolding r_def by (metis prod.collapse)
  obtain est where est: "estimate_anchored example_es (snd r) ''y'' ''m'' ''s'' = Inr est"
    using 2 by (cases "estimate_anchored example_es (snd r) ''y'' ''m'' ''s''") auto
  have "900 \<le> re_projected_input_tokens est"
    by (rule provider_count_is_a_floor[OF rec 3 _ _ _ _ est 4]) (simp_all add: example_es_def)
  then show ?thesis using rec est by blast
qed

end
