(* ===== verification/Native_Shape.thy ===== *)
theory Native_Shape
  imports Estimator
begin

text \<open>
  Which native requests and responses the token accounting accepts
  (\<^verbatim>\<open>spend_guard/request_token_shape.py\<close>, \<^verbatim>\<open>response_token_shape.py\<close>, and the strict readers of
  \<^verbatim>\<open>request_workload.py\<close>): bounded documents, text-only requests, and the life of a response stream.
  The JSON decoder is a parameter that hands over objects as their pairs, duplicates included, as
  it does to \<^verbatim>\<open>object_pairs_hook\<close>; characters are the code points below 256, which all encode.
\<close>

section \<open>Strict documents\<close>

record native_env =
  ne_pairs_bytes :: "string \<Rightarrow> json option"
  ne_pairs :: "string \<Rightarrow> json option"
  ne_decode :: "string \<Rightarrow> string option"
  ne_sha256 :: "string \<Rightarrow> string"
  ne_dumps :: "json \<Rightarrow> string"

definition MAX_BYTES :: int where "MAX_BYTES = 8 * 1024 * 1024"

fun unique_keys :: "json \<Rightarrow> bool" where
  "unique_keys (J_list xs) \<longleftrightarrow> list_all unique_keys xs"
| "unique_keys (J_obj d) \<longleftrightarrow> wf_dict d \<and> list_all (\<lambda>kv. unique_keys (snd kv)) d"
| "unique_keys j \<longleftrightarrow> True"

definition strict_json :: "(string \<Rightarrow> json option) \<Rightarrow> string \<Rightarrow> py_error + json" where
  "strict_json pairs raw =
     (if MAX_BYTES < int (length raw) then Inl (ValueError ''observation size limit exceeded'')
      else case pairs raw of
             None \<Rightarrow> Inl (ValueError ''invalid JSON'')
           | Some j \<Rightarrow> if unique_keys j then Inr j else Inl (ValueError ''ambiguous JSON''))"

definition MAX_COUNT :: int where "MAX_COUNT = 2 ^ 53 - 1"

definition count_ok :: "int \<Rightarrow> bool" where
  "count_ok n \<longleftrightarrow> 0 \<le> n \<and> n \<le> MAX_COUNT"

fun count_of :: "json \<Rightarrow> int option" where
  "count_of (J_int n) = (if count_ok n then Some n else None)"
| "count_of _ = None"

definition model_char :: "char \<Rightarrow> bool" where
  "model_char c \<longleftrightarrow> 97 \<le> code c \<and> code c \<le> 122 \<or> is_digit c \<or> c \<in> set ''_.:-''"

definition model_ok :: "string \<Rightarrow> bool" where
  "model_ok s \<longleftrightarrow> s \<noteq> [] \<and> 97 \<le> code (hd s) \<and> code (hd s) \<le> 122 \<and> list_all model_char (tl s) \<and> length s \<le> 128"

fun model_of :: "json \<Rightarrow> string option" where
  "model_of (J_str s) = (if model_ok s then Some s else None)"
| "model_of _ = None"

definition demand :: "bool \<Rightarrow> string \<Rightarrow> py_error + unit" where
  "demand b m = raise_if (\<not> b) (ValueError m)"

lemma demand_simps [simp]:
  "demand b m = Inr u \<longleftrightarrow> b" "demand True m = Inr ()" "demand False m = Inl (ValueError m)"
  by (simp_all add: demand_def)

section \<open>Bounded documents\<close>

definition MAX_DEPTH :: nat where "MAX_DEPTH = 16"
definition MAX_NODES :: int where "MAX_NODES = 100000"

fun children :: "json \<Rightarrow> json list" where
  "children (J_list xs) = xs"
| "children (J_obj d) = map snd d"
| "children j = []"

lemma weight_children: "weight j = Suc (sum_list (map weight (children j)))"
  by (cases j) (simp_all add: comp_def)

text \<open>The walk over a stack whose top is its last element in the code, its head here.\<close>

function bounded_loop :: "int \<Rightarrow> (json \<times> nat) list \<Rightarrow> py_error + unit" where
  "bounded_loop seen [] = Inr ()"
| "bounded_loop seen ((node, depth) # pending) =
     (if MAX_NODES < seen + 1 \<or> MAX_DEPTH < depth
      then Inl (ValueError ''request structure exceeds observation bounds'')
      else if MAX_NODES < seen + 1 + int (length pending) + int (length (children node))
      then Inl (ValueError ''request node count exceeds observation bounds'')
      else bounded_loop (seen + 1) (rev (map (\<lambda>c. (c, depth + 1)) (children node)) @ pending))"
  by pat_completeness auto

termination
proof (relation "measure (\<lambda>(seen, stack). sum_list (map (weight \<circ> fst) stack))", goal_cases)
  case (2 seen node depth pending)
  show ?case by (simp add: weight_children[of node] rev_map[symmetric] comp_def)
qed simp

definition bounded :: "json \<Rightarrow> py_error + unit" where
  "bounded v = bounded_loop 0 [(v, 0)]"

section \<open>Requests\<close>

fun dict_of_json :: "json \<Rightarrow> (string, json) dict option" where
  "dict_of_json (J_obj d) = Some d"
| "dict_of_json _ = None"

definition is_str :: "json \<Rightarrow> bool" where
  "is_str v \<longleftrightarrow> (case v of J_str s \<Rightarrow> True | _ \<Rightarrow> False)"

definition cache_shape :: "json \<Rightarrow> py_error + json" where
  "cache_shape v =
     (case v of
        J_obj d \<Rightarrow>
          ebind (demand (set (keys d) \<in> {{''type''}, {''type'', ''ttl''}} \<and> get_field d ''type'' = J_str ''ephemeral'' \<and>
                         (case map_of d ''ttl'' of None \<Rightarrow> True | Some t \<Rightarrow> t \<in> {J_str ''5m'', J_str ''1h''}))
                  ''unsupported cache directive'') (\<lambda>_.
            Inr (J_obj [(''type'', J_str ''ephemeral''), (''ttl'', case map_of d ''ttl'' of None \<Rightarrow> J_str ''omitted'' | Some t \<Rightarrow> t)]))
      | _ \<Rightarrow> Inl (ValueError ''unsupported cache directive''))"

definition text_block :: "json \<Rightarrow> py_error + json" where
  "text_block v =
     (case v of
        J_obj d \<Rightarrow>
          ebind (demand (set (keys d) \<in> {{''type'', ''text''}, {''type'', ''text'', ''cache_control''}} \<and>
                         get_field d ''type'' = J_str ''text'' \<and> is_str (get_field d ''text''))
                  ''only typed text blocks are supported'') (\<lambda>_.
          case map_of d ''cache_control'' of
            None \<Rightarrow> Inr (J_obj [(''type'', J_str ''text'')])
          | Some c \<Rightarrow> ebind (cache_shape c) (\<lambda>s. Inr (J_obj [(''type'', J_str ''text''), (''cache_control'', s)])))
      | _ \<Rightarrow> Inl (ValueError ''only typed text blocks are supported''))"

fun each_result :: "('a \<Rightarrow> 'e + 'b) \<Rightarrow> 'a list \<Rightarrow> 'e + 'b list" where
  "each_result f [] = Inr []"
| "each_result f (x # xs) = ebind (f x) (\<lambda>y. ebind (each_result f xs) (\<lambda>ys. Inr (y # ys)))"

definition text_shape :: "json \<Rightarrow> py_error + json" where
  "text_shape v =
     (case v of
        J_str s \<Rightarrow> Inr (J_str ''text_string'')
      | J_list bs \<Rightarrow>
          ebind (demand (bs \<noteq> []) ''text content required'') (\<lambda>_. ebind (each_result text_block bs) (\<lambda>ss. Inr (J_list ss)))
      | _ \<Rightarrow> Inl (ValueError ''text content required''))"

definition message_shape :: "json \<Rightarrow> py_error + json" where
  "message_shape m =
     (case m of
        J_obj d \<Rightarrow>
          ebind (demand (set (keys d) = {''role'', ''content''} \<and> get_field d ''role'' \<in> {J_str ''user'', J_str ''assistant''})
                  ''unsupported message shape'') (\<lambda>_.
          ebind (text_shape (get_field d ''content'')) (\<lambda>s.
            Inr (J_obj [(''role'', get_field d ''role''), (''content'', s)])))
      | _ \<Rightarrow> Inl (ValueError ''unsupported message shape''))"

text \<open>Python's equality of decoded JSON: objects in any order; numbers and booleans by value.\<close>

fun num_of :: "json \<Rightarrow> rat option" where
  "num_of (J_bool b) = Some (if b then 1 else 0)"
| "num_of (J_int n) = Some (of_int n)"
| "num_of (J_float x) = Some x"
| "num_of _ = None"

fun json_eq :: "json \<Rightarrow> json \<Rightarrow> bool" where
  "json_eq (J_list xs) w = (case w of J_list ys \<Rightarrow> list_all2 json_eq xs ys | _ \<Rightarrow> False)"
| "json_eq (J_obj d) w =
     (case w of
        J_obj e \<Rightarrow> set (keys d) = set (keys e) \<and>
          list_all (\<lambda>kv. case map_of e (fst kv) of None \<Rightarrow> False | Some x \<Rightarrow> json_eq (snd kv) x) d
      | _ \<Rightarrow> False)"
| "json_eq (J_str s) w = (w = J_str s)"
| "json_eq J_null w = (w = J_null)"
| "json_eq v w = (num_of v = num_of w)"

definition ROUTES :: "string list" where
  "ROUTES = [''https://api.anthropic.com/v1/messages'', ''https://api.anthropic.com:443/v1/messages'',
             ''https://api.anthropic.com/v1/messages?beta=true'', ''https://api.anthropic.com:443/v1/messages?beta=true'']"

definition REQUEST_FIELDS :: "string list" where
  "REQUEST_FIELDS = [''model'', ''max_tokens'', ''messages'', ''system'', ''stream'', ''tools'', ''metadata'', ''cache_control'',
                     ''thinking'', ''output_config'', ''context_management'']"

definition MAX_METADATA_BYTES :: nat where "MAX_METADATA_BYTES = 4096"

type_synonym json_fields = "(string, json) dict"

text \<open>Entries are added to the profile until a check raises; what was added before stays.\<close>

fun collect :: "json_fields \<Rightarrow> (py_error + json_fields) list \<Rightarrow> json_fields \<times> bool" where
  "collect p [] = (p, True)"
| "collect p (Inl e # rest) = (p, False)"
| "collect p (Inr new # rest) = collect (p @ new) rest"

definition optional_feature :: "json_fields \<Rightarrow> string \<Rightarrow> (json \<Rightarrow> py_error + json) \<Rightarrow> py_error + json_fields" where
  "optional_feature d k sh =
     (case map_of d k of None \<Rightarrow> Inr [] | Some v \<Rightarrow> ebind (sh v) (\<lambda>s. Inr [(k, s)]))"

definition exact_shape :: "json \<Rightarrow> json \<Rightarrow> py_error + json" where
  "exact_shape expected v = ebind (demand (json_eq v expected) ''unsupported native feature shape'') (\<lambda>_. Inr expected)"

definition metadata_shape :: "json \<Rightarrow> py_error + json" where
  "metadata_shape v =
     (case v of
        J_obj d \<Rightarrow>
          (case get_field d ''user_id'' of
             J_str u \<Rightarrow> ebind (demand (set (keys d) = {''user_id''} \<and> u \<noteq> [] \<and> length (utf8 u) \<le> MAX_METADATA_BYTES)
                                ''unsupported metadata shape'') (\<lambda>_. Inr (J_obj [(''user_id'', J_str ''bounded_string'')]))
           | _ \<Rightarrow> Inl (ValueError ''unsupported metadata shape''))
      | _ \<Rightarrow> Inl (ValueError ''unsupported metadata shape''))"

definition stream_shape :: "json \<Rightarrow> py_error + json" where
  "stream_shape v = (case v of J_bool b \<Rightarrow> Inr v | _ \<Rightarrow> Inl (ValueError ''stream must be a boolean''))"

definition tools_shape :: "json \<Rightarrow> py_error + json" where
  "tools_shape v = (if v = J_list [] then Inr (J_str ''empty'') else Inl (ValueError ''only empty tools are supported''))"

definition fields_shape :: "json_fields \<Rightarrow> py_error + json_fields" where
  "fields_shape d =
     (let m = count_of (get_field d ''max_tokens'') in
      ebind (demand (set (keys d) \<subseteq> set REQUEST_FIELDS \<and> m \<noteq> None \<and> m \<noteq> Some 0) ''unsupported request fields or output bound'')
        (\<lambda>_. Inr [(''fields'', J_list (map J_str (sorted_keys (keys d)))), (''max_tokens'', get_field d ''max_tokens'')]))"

definition feature_checks :: "json_fields \<Rightarrow> (py_error + json_fields) list" where
  "feature_checks d =
     [fields_shape d, optional_feature d ''stream'' stream_shape, optional_feature d ''tools'' tools_shape,
      optional_feature d ''metadata'' metadata_shape,
      optional_feature d ''thinking'' (exact_shape (J_obj [(''type'', J_str ''adaptive''), (''display'', J_str ''omitted'')])),
      optional_feature d ''output_config'' (exact_shape (J_obj [(''effort'', J_str ''high'')])),
      optional_feature d ''context_management'' (exact_shape (J_obj [(''edits'', J_list [J_obj
        [(''type'', J_str ''clear_thinking_20251015''), (''keep'', J_str ''all'')]])])),
      optional_feature d ''cache_control'' cache_shape]"

definition messages_shape :: "json_fields \<Rightarrow> py_error + json_fields" where
  "messages_shape d =
     (case get_field d ''messages'' of
        J_list ms \<Rightarrow>
          ebind (demand (ms \<noteq> []) ''messages required'') (\<lambda>_.
          ebind (each_result message_shape ms) (\<lambda>ss. Inr [(''messages'', J_list ss)]))
      | _ \<Rightarrow> Inl (ValueError ''messages required''))"

definition message_checks :: "json_fields \<Rightarrow> (py_error + json_fields) list" where
  "message_checks d = [messages_shape d, optional_feature d ''system'' text_shape]"

record shape_facts =
  sf_body_sha256 :: "string option"
  sf_provider :: "string option"
  sf_transport :: "string option"
  sf_request_model :: "string option"
  sf_input_modality :: "string option"
  sf_output_modality :: "string option"

definition no_facts :: shape_facts where
  "no_facts = \<lparr>sf_body_sha256 = None, sf_provider = None, sf_transport = None, sf_request_model = None,
               sf_input_modality = None, sf_output_modality = None\<rparr>"

definition add_reason :: "bool \<Rightarrow> string \<Rightarrow> string list \<Rightarrow> string list" where
  "add_reason b r rs = (if b then List.insert r rs else rs)"

definition route_facts :: "string option \<Rightarrow> shape_facts \<Rightarrow> shape_facts \<times> json_fields \<times> bool" where
  "route_facts url f =
     (case url of
        Some u \<Rightarrow>
          if u \<in> set ROUTES
          then (f\<lparr>sf_provider := Some ''anthropic'', sf_transport := Some ''anthropic_messages_https''\<rparr>,
                [(''query'', J_str (if u \<in> set (drop 2 ROUTES) then ''beta=true'' else ''absent''))], True)
          else (f, [], False)
      | None \<Rightarrow> (f, [], False))"

definition document_facts :: "json_fields \<Rightarrow> shape_facts \<Rightarrow> string list \<Rightarrow> json_fields \<Rightarrow> shape_facts \<times> string list \<times> json_fields" where
  "document_facts d f reasons profile =
     (let model = model_of (get_field d ''model'');
          f = f\<lparr>sf_request_model := model\<rparr>;
          reasons = add_reason (model = None) ''model_unavailable'' reasons;
          (profile, features_ok) = collect profile (feature_checks d);
          reasons = add_reason (\<not> features_ok) ''request_feature_unsupported'' reasons;
          (profile, text_ok) = collect profile (message_checks d);
          reasons = add_reason (\<not> text_ok) ''input_modality_unsupported'' reasons
      in (if text_ok then f\<lparr>sf_input_modality := Some ''text'', sf_output_modality := Some ''text''\<rparr> else f, reasons, profile))"

definition observe_shape ::
  "native_env \<Rightarrow> string option \<Rightarrow> string option \<Rightarrow> shape_facts \<times> string list \<times> json_fields" where
  "observe_shape env body url =
     (let reasons = [''response_unavailable'']; profile = [(''schema'', J_str ''native-text-request-shape/1'')] in
      case body of
        None \<Rightarrow> (no_facts, List.insert ''request_unavailable'' reasons, profile)
      | Some b \<Rightarrow>
          if b = [] \<or> MAX_BYTES < int (length b) then (no_facts, List.insert ''request_unavailable'' reasons, profile)
          else
            let (f, query, routed) = route_facts url (no_facts\<lparr>sf_body_sha256 := Some (ne_sha256 env b)\<rparr>);
                reasons = add_reason (\<not> routed) ''route_unsupported'' reasons;
                profile = profile @ query
            in case ebind (strict_json (ne_pairs_bytes env) b) (\<lambda>j.
                      case j of J_obj d \<Rightarrow> ebind (bounded j) (\<lambda>_. Inr d)
                      | _ \<Rightarrow> Inl (ValueError ''request object required'')) of
                 Inl e \<Rightarrow> (f, List.insert ''request_invalid'' reasons, profile)
               | Inr d \<Rightarrow> document_facts d f reasons profile)"

section \<open>Responses\<close>

definition obj_with :: "string set \<Rightarrow> string set \<Rightarrow> json \<Rightarrow> py_error + json_fields" where
  "obj_with req opt v =
     (case v of
        J_obj d \<Rightarrow> ebind (demand (req \<subseteq> set (keys d) \<and> set (keys d) \<subseteq> req \<union> opt) ''unsupported response fields'') (\<lambda>_. Inr d)
      | _ \<Rightarrow> Inl (ValueError ''unsupported response fields''))"

definition string_ok :: "bool \<Rightarrow> json \<Rightarrow> py_error + unit" where
  "string_ok filled v =
     (case v of J_str s \<Rightarrow> demand (filled \<longrightarrow> s \<noteq> []) ''invalid response string'' | _ \<Rightarrow> Inl (ValueError ''invalid response string''))"

datatype block_kind = Text_block | Thinking_block | Redacted_block

definition content_block :: "bool \<Rightarrow> json \<Rightarrow> py_error + block_kind" where
  "content_block streaming v =
     (case v of
        J_obj d \<Rightarrow>
          if get_field d ''type'' = J_str ''text'' then
            ebind (obj_with {''type'', ''text''} {''citations''} v) (\<lambda>_.
            ebind (string_ok False (get_field d ''text'')) (\<lambda>_.
            ebind (demand (get_field d ''citations'' \<in> {J_null, J_list []}) ''unsupported citations'') (\<lambda>_. Inr Text_block)))
          else if get_field d ''type'' = J_str ''thinking'' then
            ebind (obj_with {''type'', ''thinking'', ''signature''} {} v) (\<lambda>_.
            ebind (string_ok False (get_field d ''thinking'')) (\<lambda>_.
            ebind (string_ok (\<not> streaming) (get_field d ''signature'')) (\<lambda>_. Inr Thinking_block)))
          else if get_field d ''type'' = J_str ''redacted_thinking'' then
            ebind (obj_with {''type'', ''data''} {} v) (\<lambda>_.
            ebind (string_ok True (get_field d ''data'')) (\<lambda>_. Inr Redacted_block))
          else Inl (ValueError ''unsupported response modality'')
      | _ \<Rightarrow> Inl (ValueError ''invalid content block''))"

definition stop_fields :: "bool \<Rightarrow> json_fields \<Rightarrow> py_error + bool" where
  "stop_fields unfinished d =
     (let reason = get_field d ''stop_reason''; sequence = get_field d ''stop_sequence'' in
      if reason = J_null \<and> unfinished
      then ebind (demand (sequence = J_null) ''stop sequence without a stop reason'') (\<lambda>_. Inr False)
      else ebind (demand (reason \<in> J_str ` {''end_turn'', ''max_tokens'', ''stop_sequence'', ''refusal''})
                    ''unsupported response stop reason'') (\<lambda>_.
           ebind (if reason = J_str ''stop_sequence'' then string_ok True sequence
                  else demand (sequence = J_null) ''stop sequence contradicts stop reason'') (\<lambda>_. Inr True)))"

definition message_id_ok :: "json \<Rightarrow> bool" where
  "message_id_ok v \<longleftrightarrow> (case v of J_str s \<Rightarrow> s \<noteq> [] \<and> length (utf8 s) \<le> 512 \<and> list_all (\<lambda>c. 32 \<le> code c \<and> code c \<noteq> 127) s | _ \<Rightarrow> False)"

definition message_ok :: "bool \<Rightarrow> json \<Rightarrow> py_error + json_fields" where
  "message_ok streaming v =
     ebind (obj_with {''id'', ''type'', ''role'', ''model'', ''usage'', ''content'', ''stop_reason'', ''stop_sequence''} {''container''} v) (\<lambda>d.
     ebind (demand (message_id_ok (get_field d ''id'')) ''unsupported message identifier'') (\<lambda>_.
     ebind (demand (get_field d ''type'' = J_str ''message'' \<and> get_field d ''role'' = J_str ''assistant'') ''invalid message envelope'') (\<lambda>_.
     ebind (demand (get_field d ''container'' = J_null) ''unsupported response container'') (\<lambda>_.
     ebind (stop_fields streaming d) (\<lambda>stopped.
     case get_field d ''content'' of
       J_list content \<Rightarrow>
         ebind (demand (\<not> (streaming \<and> content \<noteq> [])) ''invalid message content'') (\<lambda>_.
         ebind (demand (\<not> (streaming \<and> stopped)) ''terminal message start'') (\<lambda>_.
         ebind (each_result (content_block False) content) (\<lambda>_. Inr d)))
     | _ \<Rightarrow> Inl (ValueError ''invalid message content''))))))"

section \<open>Event framing\<close>

fun replace_crlf :: "string \<Rightarrow> string" where
  "replace_crlf (a # b # s) = (if a = CHR 0x0D \<and> b = CHR 0x0A then CHR 0x0A # replace_crlf s else a # replace_crlf (b # s))"
| "replace_crlf s = s"

text \<open>\<^verbatim>\<open>str.split\<close> on one newline and on two.\<close>

fun split_lines :: "string \<Rightarrow> string list" where
  "split_lines [] = [[]]"
| "split_lines (c # s) =
     (if c = CHR 0x0A then [] # split_lines s
      else case split_lines s of l # ls \<Rightarrow> (c # l) # ls | [] \<Rightarrow> [[c]])"

fun split_frames :: "string \<Rightarrow> string list" where
  "split_frames (a # b # s) =
     (if a = CHR 0x0A \<and> b = CHR 0x0A then [] # split_frames s
      else case split_frames (b # s) of l # ls \<Rightarrow> (a # l) # ls | [] \<Rightarrow> [[a]])"
| "split_frames s = [s]"

definition drop_space :: "string \<Rightarrow> string" where
  "drop_space s = (case s of c # cs \<Rightarrow> if c = CHR '' '' then cs else s | [] \<Rightarrow> [])"

text \<open>A line of a frame: nothing, a line of data or the event's name.\<close>

datatype frame_line = Data_line string | Name_line string | Comment_line

definition read_line :: "string \<Rightarrow> py_error + frame_line" where
  "read_line l =
     (if l = [] \<or> hd l = CHR '':'' then Inr Comment_line
      else let field = takeWhile (\<lambda>c. c \<noteq> CHR '':'') l; rest = drop (length field) l in
        if rest = [] then Inl (ValueError ''unsupported event framing'')
        else if field = ''data'' then Inr (Data_line (drop_space (tl rest)))
        else if field = ''event'' then Inr (Name_line (drop_space (tl rest)))
        else Inl (ValueError ''unsupported event framing''))"

definition data_lines :: "frame_line list \<Rightarrow> string list" where
  "data_lines ls = List.map_filter (\<lambda>l. case l of Data_line s \<Rightarrow> Some s | _ \<Rightarrow> None) ls"

definition name_lines :: "frame_line list \<Rightarrow> string list" where
  "name_lines ls = List.map_filter (\<lambda>l. case l of Name_line s \<Rightarrow> Some s | _ \<Rightarrow> None) ls"

fun newline_join :: "string list \<Rightarrow> string" where
  "newline_join [] = []"
| "newline_join [l] = l"
| "newline_join (l # m # ls) = l @ CHR 0x0A # newline_join (m # ls)"

definition read_frame :: "native_env \<Rightarrow> string \<Rightarrow> py_error + json option" where
  "read_frame env frame =
     ebind (each_result read_line (split_lines frame)) (\<lambda>ls.
     let data = data_lines ls; names = name_lines ls in
     if data = [] then ebind (demand (names = []) ''event without data'') (\<lambda>_. Inr None)
     else ebind (strict_json (ne_pairs env) (newline_join data)) (\<lambda>event.
          ebind (bounded event) (\<lambda>_.
          case event of
            J_obj d \<Rightarrow>
              ebind (demand (length names \<le> 1 \<and> (names \<noteq> [] \<longrightarrow> J_str (hd names) = get_field d ''type''))
                       ''ambiguous event type'') (\<lambda>_. Inr (Some event))
          | _ \<Rightarrow> Inl (ValueError ''ambiguous event type''))))"

definition read_events :: "native_env \<Rightarrow> string \<Rightarrow> py_error + json list" where
  "read_events env raw =
     (case ne_decode env raw of
        None \<Rightarrow> Inl (ValueError ''invalid start byte'')
      | Some dec \<Rightarrow>
          let text = replace_crlf dec in
          ebind (demand (CHR 0x0D \<notin> set text \<and> drop (length text - 2) text = [CHR 0x0A, CHR 0x0A]) ''incomplete event framing'') (\<lambda>_.
          ebind (each_result (read_frame env) (split_frames text)) (\<lambda>es. Inr (List.map_filter id es))))"

section \<open>The life of a response\<close>

record stream_state =
  ss_started :: bool
  ss_terminal :: bool
  ss_final_delta :: bool
  ss_message_deltas :: bool
  ss_active :: "block_kind option"
  ss_index :: int
  ss_signature :: bool

definition stream_initial :: stream_state where
  "stream_initial = \<lparr>ss_started = False, ss_terminal = False, ss_final_delta = False, ss_message_deltas = False,
                     ss_active = None, ss_index = 0, ss_signature = False\<rparr>"

definition event_type :: "json \<Rightarrow> json" where
  "event_type e = (case e of J_obj d \<Rightarrow> get_field d ''type'' | _ \<Rightarrow> J_null)"

definition block_delta :: "block_kind \<Rightarrow> bool \<Rightarrow> json \<Rightarrow> py_error + bool" where
  "block_delta active signature v =
     (case v of
        J_obj d \<Rightarrow>
          let sub = get_field d ''type'' in
          if active = Text_block \<and> sub = J_str ''text_delta'' then
            ebind (obj_with {''type'', ''text''} {} v) (\<lambda>_. ebind (string_ok False (get_field d ''text'')) (\<lambda>_. Inr signature))
          else if active = Thinking_block \<and> \<not> signature \<and> sub \<in> {J_str ''thinking_delta'', J_str ''signature_delta''} then
            (if sub = J_str ''thinking_delta''
             then ebind (obj_with {''type'', ''thinking''} {} v) (\<lambda>_. ebind (string_ok False (get_field d ''thinking'')) (\<lambda>_. Inr False))
             else ebind (obj_with {''type'', ''signature''} {} v) (\<lambda>_. ebind (string_ok True (get_field d ''signature'')) (\<lambda>_. Inr True)))
          else Inl (ValueError ''unsupported block delta'')
      | _ \<Rightarrow> Inl (ValueError ''invalid block delta''))"

definition started_signed :: "block_kind \<Rightarrow> json \<Rightarrow> bool" where
  "started_signed k v \<longleftrightarrow> k = Thinking_block \<and> (case v of J_obj d \<Rightarrow> get_field d ''signature'' \<noteq> J_str [] | _ \<Rightarrow> False)"

definition block_start :: "json \<Rightarrow> stream_state \<Rightarrow> py_error + stream_state" where
  "block_start e s =
     ebind (obj_with {''type'', ''index'', ''content_block''} {} e) (\<lambda>d.
     ebind (demand (ss_active s = None \<and> \<not> ss_message_deltas s \<and> get_field d ''index'' = J_int (ss_index s))
              ''invalid content block order'') (\<lambda>_.
     ebind (content_block True (get_field d ''content_block'')) (\<lambda>k.
       Inr (s\<lparr>ss_active := Some k, ss_signature := started_signed k (get_field d ''content_block'')\<rparr>))))"

definition block_event :: "bool \<Rightarrow> json \<Rightarrow> stream_state \<Rightarrow> py_error + stream_state" where
  "block_event is_delta e s =
     ebind (obj_with (if is_delta then {''type'', ''index'', ''delta''} else {''type'', ''index''}) {} e) (\<lambda>d.
     case ss_active s of
       None \<Rightarrow> Inl (ValueError ''unmatched content block event'')
     | Some k \<Rightarrow>
         ebind (demand (get_field d ''index'' = J_int (ss_index s)) ''unmatched content block event'') (\<lambda>_.
         if \<not> is_delta then
           ebind (demand (k = Thinking_block \<longrightarrow> ss_signature s) ''thinking signature unavailable'') (\<lambda>_.
             Inr (s\<lparr>ss_active := None, ss_index := ss_index s + 1\<rparr>))
         else ebind (block_delta k (ss_signature s) (get_field d ''delta'')) (\<lambda>sig. Inr (s\<lparr>ss_signature := sig\<rparr>))))"

definition message_delta :: "json \<Rightarrow> stream_state \<Rightarrow> py_error + stream_state" where
  "message_delta e s =
     ebind (obj_with {''type'', ''usage'', ''delta''} {} e) (\<lambda>d.
     ebind (demand (ss_active s = None \<and> \<not> ss_final_delta s) ''message delta before content completion'') (\<lambda>_.
     ebind (obj_with {''stop_reason'', ''stop_sequence''} {} (get_field d ''delta'')) (\<lambda>dd.
     ebind (stop_fields True dd) (\<lambda>final. Inr (s\<lparr>ss_final_delta := final, ss_message_deltas := True\<rparr>)))))"

definition stream_step :: "json \<Rightarrow> stream_state \<Rightarrow> py_error + stream_state" where
  "stream_step e s =
     (let kind = event_type e in
      if ss_terminal s then Inl (ValueError ''event after completion'')
      else if kind = J_str ''ping'' then ebind (obj_with {''type''} {} e) (\<lambda>_. Inr s)
      else if kind = J_str ''message_start'' then
        ebind (obj_with {''type'', ''message''} {} e) (\<lambda>d.
        ebind (demand (\<not> ss_started s) ''multiple messages'') (\<lambda>_.
        ebind (message_ok True (get_field d ''message'')) (\<lambda>_. Inr (s\<lparr>ss_started := True\<rparr>))))
      else if \<not> ss_started s then Inl (ValueError ''event before message'')
      else if kind = J_str ''content_block_start'' then block_start e s
      else if kind = J_str ''content_block_delta'' then block_event True e s
      else if kind = J_str ''content_block_stop'' then block_event False e s
      else if kind = J_str ''message_delta'' then message_delta e s
      else if kind = J_str ''message_stop'' then
        ebind (obj_with {''type''} {} e) (\<lambda>_.
        ebind (demand (ss_active s = None \<and> ss_final_delta s) ''message stopped before completion'') (\<lambda>_.
          Inr (s\<lparr>ss_terminal := True\<rparr>)))
      else Inl (ValueError ''unsupported response event''))"

fun stream_run :: "json list \<Rightarrow> stream_state \<Rightarrow> py_error + stream_state" where
  "stream_run [] s = Inr s"
| "stream_run (e # es) s = ebind (stream_step e s) (stream_run es)"

definition stream_valid :: "json list \<Rightarrow> py_error + unit" where
  "stream_valid es = ebind (stream_run es stream_initial) (\<lambda>s. demand (ss_terminal s) ''incomplete response stream'')"

section \<open>What the bounds mean\<close>

fun depth :: "json \<Rightarrow> nat" where
  "depth (J_list xs) = foldr max (map (\<lambda>x. Suc (depth x)) xs) 0"
| "depth (J_obj d) = foldr max (map (\<lambda>kv. Suc (depth (snd kv))) d) 0"
| "depth j = 0"

lemma foldr_max_le: "foldr max ns (0::nat) \<le> m \<longleftrightarrow> list_all (\<lambda>n. n \<le> m) ns"
  by (induction ns) auto

lemma depth_children: "depth j \<le> m \<longleftrightarrow> (\<forall>c \<in> set (children j). Suc (depth c) \<le> m)"
  by (cases j) (auto simp: foldr_max_le list_all_iff)

lemma weight_at_least_length: "length xs \<le> sum_list (map weight xs)"
proof (induction xs)
  case (Cons x xs)
  have "1 \<le> weight x" by (simp add: Suc_leI)
  then have "1 + length xs \<le> weight x + sum_list (map weight xs)" using Cons by (rule add_mono)
  then show ?case by simp
qed simp

lemma bounded_loop_iff:
  assumes "seen \<le> MAX_NODES"
  shows "bounded_loop seen stack = Inr () \<longleftrightarrow>
    seen + int (sum_list (map (weight \<circ> fst) stack)) \<le> MAX_NODES \<and> (\<forall>(j, k) \<in> set stack. k + depth j \<le> MAX_DEPTH)"
  using assms
proof (induction seen stack rule: bounded_loop.induct)
  case (1 seen)
  then show ?case by simp
next
  case (2 seen node k pending)
  let ?kids = "children node"
  have kids: "length ?kids \<le> sum_list (map weight ?kids)" by (rule weight_at_least_length)
  have rest: "length pending \<le> sum_list (map (weight \<circ> fst) pending)"
    using weight_at_least_length[of "map fst pending"] by (simp add: comp_def)
  have sum: "sum_list (map (weight \<circ> fst) (rev (map (\<lambda>c. (c, k + 1)) ?kids) @ pending)) =
      sum_list (map weight ?kids) + sum_list (map (weight \<circ> fst) pending)"
    by (simp add: rev_map[symmetric] comp_def)
  have deep: "k + depth node \<le> MAX_DEPTH \<longleftrightarrow> k \<le> MAX_DEPTH \<and> (\<forall>c \<in> set ?kids. k + 1 + depth c \<le> MAX_DEPTH)"
  proof (cases "k \<le> MAX_DEPTH")
    case True
    then have "k + depth node \<le> MAX_DEPTH \<longleftrightarrow> depth node \<le> MAX_DEPTH - k" by auto
    then show ?thesis using True unfolding depth_children by force
  qed simp
  show ?case
  proof (cases "MAX_NODES < seen + 1 \<or> MAX_DEPTH < k \<or> MAX_NODES < seen + 1 + int (length pending) + int (length ?kids)")
    case True
    then show ?thesis using kids rest weight_children[of node] deep by (auto simp: comp_def)
  next
    case False
    let ?next = "rev (map (\<lambda>c. (c, k + 1)) ?kids) @ pending"
    have step: "bounded_loop seen ((node, k) # pending) = bounded_loop (seen + 1) ?next" using False by simp
    have IH: "bounded_loop (seen + 1) ?next = Inr () \<longleftrightarrow>
        seen + 1 + int (sum_list (map (weight \<circ> fst) ?next)) \<le> MAX_NODES \<and> (\<forall>(j, k) \<in> set ?next. k + depth j \<le> MAX_DEPTH)"
      using 2 False by (simp add: comp_def)
    have all: "(\<forall>(j, k) \<in> set ?next. k + depth j \<le> MAX_DEPTH) \<longleftrightarrow>
        (\<forall>(j, k) \<in> set ((node, k) # pending). k + depth j \<le> MAX_DEPTH)"
      using deep False by (simp add: ball_Un not_less)
    have total: "seen + 1 + int (sum_list (map (weight \<circ> fst) ?next)) =
        seen + int (sum_list (map (weight \<circ> fst) ((node, k) # pending)))"
      unfolding sum using weight_children[of node] by simp
    show ?thesis unfolding step IH all total ..
  qed
qed

text \<open>
  The bounded walk is exact.  A document passes the iterative check of its structure exactly if
  it has at most a hundred thousand nodes and is nested at most sixteen levels deep: the early exits
  refuse nothing else and let nothing larger through, whatever the order of the walk.
\<close>

lemma bounded_is_exact: "bounded j = Inr () \<longleftrightarrow> int (weight j) \<le> MAX_NODES \<and> depth j \<le> MAX_DEPTH"
  unfolding bounded_def by (subst bounded_loop_iff) (simp_all add: MAX_NODES_def)

section \<open>The grammar of a response stream\<close>

definition is_ping :: "json \<Rightarrow> bool" where
  "is_ping e \<longleftrightarrow> event_type e = J_str ''ping''"

text \<open>An event is of a type and meets a condition on its fields.\<close>

definition event_is :: "string \<Rightarrow> string set \<Rightarrow> (json_fields \<Rightarrow> bool) \<Rightarrow> json \<Rightarrow> bool" where
  "event_is ty ks P e \<longleftrightarrow> (\<exists>d. e = J_obj d \<and> get_field d ''type'' = J_str ty \<and> set (keys d) = ks \<and> P d)"

definition starts_message :: "json \<Rightarrow> bool" where
  "starts_message = event_is ''message_start'' {''type'', ''message''} (\<lambda>d. \<exists>m. message_ok True (get_field d ''message'') = Inr m)"

definition stops_message :: "json \<Rightarrow> bool" where
  "stops_message = event_is ''message_stop'' {''type''} (\<lambda>d. True)"

definition ends_turn :: "bool \<Rightarrow> json \<Rightarrow> bool" where
  "ends_turn final = event_is ''message_delta'' {''type'', ''usage'', ''delta''}
     (\<lambda>d. \<exists>dd. obj_with {''stop_reason'', ''stop_sequence''} {} (get_field d ''delta'') = Inr dd \<and> stop_fields True dd = Inr final)"

definition opens_block :: "int \<Rightarrow> block_kind \<Rightarrow> bool \<Rightarrow> json \<Rightarrow> bool" where
  "opens_block i k signed = event_is ''content_block_start'' {''type'', ''index'', ''content_block''}
     (\<lambda>d. get_field d ''index'' = J_int i \<and> content_block True (get_field d ''content_block'') = Inr k \<and>
          signed = started_signed k (get_field d ''content_block''))"

definition adds_to_block :: "int \<Rightarrow> block_kind \<Rightarrow> bool \<Rightarrow> json \<Rightarrow> bool" where
  "adds_to_block i k signed = event_is ''content_block_delta'' {''type'', ''index'', ''delta''}
     (\<lambda>d. get_field d ''index'' = J_int i \<and> block_delta k False (get_field d ''delta'') = Inr signed)"

definition closes_block :: "int \<Rightarrow> json \<Rightarrow> bool" where
  "closes_block i = event_is ''content_block_stop'' {''type'', ''index''} (\<lambda>d. get_field d ''index'' = J_int i)"

text \<open>
  The open block number \<open>i\<close> of a kind, signed or not: a text block takes text deltas, a thinking
  block takes thinking deltas and then one signature, a redacted block takes nothing.
\<close>

inductive open_block :: "int \<Rightarrow> block_kind \<Rightarrow> bool \<Rightarrow> json list \<Rightarrow> bool" where
  opened: "opens_block i k signed e \<Longrightarrow> open_block i k signed [e]"
| extended: "open_block i k False es \<Longrightarrow> adds_to_block i k signed e \<Longrightarrow> open_block i k signed (es @ [e])"

inductive blocks :: "int \<Rightarrow> json list \<Rightarrow> bool" where
  none: "blocks 0 []"
| more: "blocks i bs \<Longrightarrow> open_block i k signed es \<Longrightarrow> (k = Thinking_block \<longrightarrow> signed) \<Longrightarrow> closes_block i e \<Longrightarrow>
    blocks (i + 1) (bs @ es @ [e])"

definition pings_ok :: "json list \<Rightarrow> bool" where
  "pings_ok es \<longleftrightarrow> list_all (\<lambda>e. is_ping e \<longrightarrow> event_is ''ping'' {''type''} (\<lambda>d. True) e) es"

lemma pings_ok_simps [simp]:
  "pings_ok []" "pings_ok (e # es) \<longleftrightarrow> (is_ping e \<longrightarrow> event_is ''ping'' {''type''} (\<lambda>d. True) e) \<and> pings_ok es"
  "pings_ok (xs @ ys) \<longleftrightarrow> pings_ok xs \<and> pings_ok ys"
  by (simp_all add: pings_ok_def)

inductive complete_stream :: "json list \<Rightarrow> bool" where
  complete: "starts_message s \<Longrightarrow> blocks n bs \<Longrightarrow> list_all (ends_turn False) ds \<Longrightarrow> ends_turn True f \<Longrightarrow> stops_message e \<Longrightarrow>
    complete_stream (s # bs @ ds @ [f, e])"

lemma obj_with_exact: "obj_with ks {} e = Inr d \<longleftrightarrow> e = J_obj d \<and> set (keys d) = ks"
  by (auto simp: obj_with_def ebind_eq_Inr split: json.splits)

lemma event_type_obj [simp]: "event_type (J_obj d) = get_field d ''type''"
  by (simp add: event_type_def)

text \<open>What has been read when the machine is in a state.\<close>

definition in_progress :: "bool \<Rightarrow> bool \<Rightarrow> bool \<Rightarrow> block_kind option \<Rightarrow> int \<Rightarrow> bool \<Rightarrow> stream_state \<Rightarrow> bool" where
  "in_progress terminal final deltas act i sig s \<longleftrightarrow>
     ss_started s \<and> ss_terminal s = terminal \<and> ss_final_delta s = final \<and> ss_message_deltas s = deltas \<and>
     ss_active s = act \<and> ss_index s = i \<and> (act \<noteq> None \<longrightarrow> ss_signature s = sig)"

inductive reads :: "json list \<Rightarrow> stream_state \<Rightarrow> bool" where
  nothing: "reads [] stream_initial"
| between: "starts_message m \<Longrightarrow> blocks i bs \<Longrightarrow> in_progress False False False None i sig s \<Longrightarrow> reads (m # bs) s"
| inside: "starts_message m \<Longrightarrow> blocks i bs \<Longrightarrow> open_block i k sig es \<Longrightarrow> in_progress False False False (Some k) i sig s \<Longrightarrow>
    reads (m # bs @ es) s"
| after: "starts_message m \<Longrightarrow> blocks i bs \<Longrightarrow> ds \<noteq> [] \<Longrightarrow> list_all (ends_turn False) ds \<Longrightarrow>
    in_progress False False True None i sig s \<Longrightarrow> reads (m # bs @ ds) s"
| ended: "starts_message m \<Longrightarrow> blocks i bs \<Longrightarrow> list_all (ends_turn False) ds \<Longrightarrow> ends_turn True f \<Longrightarrow>
    in_progress False True True None i sig s \<Longrightarrow> reads (m # bs @ ds @ [f]) s"
| finished: "complete_stream es \<Longrightarrow> in_progress True True True None i sig s \<Longrightarrow> reads es s"

lemma event_is_type: "event_is ty ks P e \<Longrightarrow> event_type e = J_str ty"
  by (auto simp: event_is_def)

lemma event_is_iff:
  "event_type e = J_str ty \<Longrightarrow> event_is ty ks P e \<longleftrightarrow> (\<exists>d. obj_with ks {} e = Inr d \<and> P d)"
  unfolding event_is_def obj_with_exact by (metis event_type_obj)

lemma step_dispatch:
  "event_type e = J_str ''message_start'' \<Longrightarrow> stream_step e s = Inr s' \<longleftrightarrow>
     \<not> ss_terminal s \<and> \<not> ss_started s \<and> s' = s\<lparr>ss_started := True\<rparr> \<and> starts_message e"
  "event_type e = J_str ''content_block_start'' \<Longrightarrow> stream_step e s = Inr s' \<longleftrightarrow>
     \<not> ss_terminal s \<and> ss_started s \<and> block_start e s = Inr s'"
  "event_type e = J_str ''content_block_delta'' \<Longrightarrow> stream_step e s = Inr s' \<longleftrightarrow>
     \<not> ss_terminal s \<and> ss_started s \<and> block_event True e s = Inr s'"
  "event_type e = J_str ''content_block_stop'' \<Longrightarrow> stream_step e s = Inr s' \<longleftrightarrow>
     \<not> ss_terminal s \<and> ss_started s \<and> block_event False e s = Inr s'"
  "event_type e = J_str ''message_delta'' \<Longrightarrow> stream_step e s = Inr s' \<longleftrightarrow>
     \<not> ss_terminal s \<and> ss_started s \<and> message_delta e s = Inr s'"
  "event_type e = J_str ''message_stop'' \<Longrightarrow> stream_step e s = Inr s' \<longleftrightarrow>
     \<not> ss_terminal s \<and> ss_started s \<and> ss_active s = None \<and> ss_final_delta s \<and> stops_message e \<and> s' = s\<lparr>ss_terminal := True\<rparr>"
proof -
  assume *: "event_type e = J_str ''message_start''"
  note starts = event_is_iff[OF *, of "{''type'', ''message''}" "\<lambda>d. \<exists>m. message_ok True (get_field d ''message'') = Inr m",
      folded starts_message_def]
  show "stream_step e s = Inr s' \<longleftrightarrow> \<not> ss_terminal s \<and> \<not> ss_started s \<and> s' = s\<lparr>ss_started := True\<rparr> \<and> starts_message e"
    unfolding stream_step_def Let_def * starts by (simp add: ebind_eq_Inr) blast
next
  assume *: "event_type e = J_str ''message_stop''"
  note stops = event_is_iff[OF *, of "{''type''}" "\<lambda>d. True", folded stops_message_def]
  show "stream_step e s = Inr s' \<longleftrightarrow> \<not> ss_terminal s \<and> ss_started s \<and> ss_active s = None \<and> ss_final_delta s \<and>
      stops_message e \<and> s' = s\<lparr>ss_terminal := True\<rparr>"
    unfolding stream_step_def Let_def * stops by (simp add: ebind_eq_Inr) blast
qed (simp_all add: stream_step_def Let_def)

lemma block_start_iff:
  "event_type e = J_str ''content_block_start'' \<Longrightarrow> block_start e s = Inr s' \<longleftrightarrow>
     ss_active s = None \<and> \<not> ss_message_deltas s \<and>
     (\<exists>k signed. opens_block (ss_index s) k signed e \<and> s' = s\<lparr>ss_active := Some k, ss_signature := signed\<rparr>)"
  unfolding opens_block_def by (simp only: event_is_iff) (auto simp: block_start_def ebind_eq_Inr)

lemma block_stop_iff:
  "event_type e = J_str ''content_block_stop'' \<Longrightarrow> block_event False e s = Inr s' \<longleftrightarrow>
     (\<exists>k. ss_active s = Some k \<and> (k = Thinking_block \<longrightarrow> ss_signature s) \<and> closes_block (ss_index s) e \<and>
          s' = s\<lparr>ss_active := None, ss_index := ss_index s + 1\<rparr>)"
  unfolding closes_block_def by (cases "ss_active s", simp_all only: event_is_iff) (auto simp: block_event_def ebind_eq_Inr)

lemma block_delta_text: "block_delta Text_block sig v = ebind (block_delta Text_block False v) (\<lambda>_. Inr sig)"
  by (cases v) (simp_all add: block_delta_def Let_def ebind_assoc)

lemma block_delta_text_unsigned: "block_delta Text_block False v = Inr signed \<Longrightarrow> \<not> signed"
  by (cases v) (simp_all add: block_delta_def Let_def ebind_eq_Inr split: if_splits)

lemma block_delta_signed: "k \<noteq> Text_block \<Longrightarrow> block_delta k True v \<noteq> Inr sig"
  by (cases k; cases v) (simp_all add: block_delta_def Let_def)

lemma block_delta_unsigned:
  "block_delta k sig v = Inr sig' \<longleftrightarrow>
     (if k = Text_block then block_delta k False v = Inr False \<and> sig' = sig else \<not> sig \<and> block_delta k False v = Inr sig')"
proof (cases "k = Text_block")
  case True
  then show ?thesis using block_delta_text[of sig v] block_delta_text_unsigned[of v]
    by (cases "block_delta Text_block False v") auto
next
  case False
  then show ?thesis using block_delta_signed[OF False, of v] by (cases sig) auto
qed

lemma block_delta_iff:
  assumes "event_type e = J_str ''content_block_delta''"
  shows "block_event True e s = Inr s' \<longleftrightarrow>
     (\<exists>k signed. ss_active s = Some k \<and> adds_to_block (ss_index s) k signed e \<and>
        (if k = Text_block then \<not> signed \<and> s' = s else \<not> ss_signature s \<and> s' = s\<lparr>ss_signature := signed\<rparr>))"
proof (cases "ss_active s")
  case None
  then show ?thesis by (simp add: block_event_def ebind_eq_Inr)
next
  case (Some k)
  have adds: "adds_to_block (ss_index s) k signed e \<longleftrightarrow> (\<exists>d. obj_with {''type'', ''index'', ''delta''} {} e = Inr d \<and>
      get_field d ''index'' = J_int (ss_index s) \<and> block_delta k False (get_field d ''delta'') = Inr signed)" for signed
    unfolding adds_to_block_def by (rule event_is_iff[OF assms])
  have "block_event True e s = Inr s' \<longleftrightarrow> (\<exists>d sig. obj_with {''type'', ''index'', ''delta''} {} e = Inr d \<and>
      get_field d ''index'' = J_int (ss_index s) \<and> block_delta k (ss_signature s) (get_field d ''delta'') = Inr sig \<and>
      s' = s\<lparr>ss_signature := sig\<rparr>)"
    by (auto simp: block_event_def Some ebind_eq_Inr)
  also have "\<dots> \<longleftrightarrow> (\<exists>signed. adds_to_block (ss_index s) k signed e \<and>
      (if k = Text_block then \<not> signed \<and> s' = s else \<not> ss_signature s \<and> s' = s\<lparr>ss_signature := signed\<rparr>))"
    unfolding block_delta_unsigned[of k "ss_signature s"] adds by (rule iffI; cases "k = Text_block"; elim exE conjE; simp; fast)
  finally show ?thesis by (simp add: Some)
qed

lemma message_delta_iff:
  "event_type e = J_str ''message_delta'' \<Longrightarrow> message_delta e s = Inr s' \<longleftrightarrow>
     ss_active s = None \<and> \<not> ss_final_delta s \<and>
     (\<exists>final. ends_turn final e \<and> s' = s\<lparr>ss_final_delta := final, ss_message_deltas := True\<rparr>)"
  unfolding ends_turn_def by (simp only: event_is_iff) (auto simp: message_delta_def ebind_eq_Inr)

lemmas stream_step_iffs = step_dispatch block_start_iff block_stop_iff block_delta_iff message_delta_iff

lemma stream_event_types:
  "starts_message e \<Longrightarrow> event_type e = J_str ''message_start''"
  "stops_message e \<Longrightarrow> event_type e = J_str ''message_stop''"
  "ends_turn final e \<Longrightarrow> event_type e = J_str ''message_delta''"
  "opens_block i k signed e \<Longrightarrow> event_type e = J_str ''content_block_start''"
  "adds_to_block i k signed e \<Longrightarrow> event_type e = J_str ''content_block_delta''"
  "closes_block i e \<Longrightarrow> event_type e = J_str ''content_block_stop''"
  unfolding starts_message_def stops_message_def ends_turn_def opens_block_def adds_to_block_def closes_block_def
  by (erule event_is_type)+

lemma step_kinds:
  assumes "stream_step e s = Inr s'" "\<not> is_ping e"
  shows "event_type e \<in> J_str ` {''message_start'', ''content_block_start'', ''content_block_delta'', ''content_block_stop'',
           ''message_delta'', ''message_stop''}"
  using assms by (auto simp: stream_step_def is_ping_def Let_def split: if_splits)

lemma open_block_text: "open_block i k signed es \<Longrightarrow> k = Text_block \<Longrightarrow> \<not> signed"
proof (induction rule: open_block.induct)
  case (opened i k signed e)
  then show ?case by (auto simp: opens_block_def event_is_def started_signed_def)
next
  case (extended i k es signed e)
  then show ?case using block_delta_text_unsigned by (auto simp: adds_to_block_def event_is_def)
qed

lemma reads_step:
  assumes "reads es s" "stream_step e s = Inr s'" "\<not> is_ping e"
  shows "reads (es @ [e]) s'"
  using assms(1)
proof (cases rule: reads.cases)
  case nothing
  then have "starts_message e" "s' = stream_initial\<lparr>ss_started := True\<rparr>"
    using step_kinds[OF assms(2,3)] assms(2) by (auto simp: stream_step_iffs stream_initial_def)
  then show ?thesis unfolding \<open>es = []\<close> append.append_Nil
    by (intro reads.between[OF _ blocks.none]) (simp_all add: in_progress_def stream_initial_def)
next
  case (between m i bs sig)
  note st = between(4)[unfolded in_progress_def]
  consider (a) k signed where "opens_block i k signed e" "s' = s\<lparr>ss_active := Some k, ss_signature := signed\<rparr>"
    | (b) final where "ends_turn final e" "s' = s\<lparr>ss_final_delta := final, ss_message_deltas := True\<rparr>"
    using step_kinds[OF assms(2,3)] assms(2) st by (auto simp: stream_step_iffs)
  then show ?thesis
  proof cases
    case a
    show ?thesis unfolding between(1) append_Cons
      by (rule reads.inside[OF between(2,3) open_block.opened[OF a(1)]]) (use st a in \<open>simp add: in_progress_def\<close>)
  next
    case b
    show ?thesis
    proof (cases final)
      case True
      show ?thesis using reads.ended[OF between(2,3), of "[]" e sig s'] st b True
        by (simp add: between(1) in_progress_def)
    next
      case False
      show ?thesis using reads.after[OF between(2,3), of "[e]" sig s'] st b False
        by (simp add: between(1) in_progress_def)
    qed
  qed
next
  case (inside m i bs k sig blk)
  note st = inside(5)[unfolded in_progress_def]
  consider (a) signed where "adds_to_block i k signed e" "if k = Text_block then \<not> signed \<and> s' = s else \<not> sig \<and> s' = s\<lparr>ss_signature := signed\<rparr>"
    | (b) "k = Thinking_block \<longrightarrow> sig" "closes_block i e" "s' = s\<lparr>ss_active := None, ss_index := i + 1\<rparr>"
    using step_kinds[OF assms(2,3)] assms(2) st by (auto simp: stream_step_iffs)
  then show ?thesis
  proof cases
    case a
    have "\<not> sig" using a(2) open_block_text[OF inside(4)] by (auto split: if_splits)
    then have "open_block i k signed (blk @ [e])" using inside(4) a(1) by (auto intro: open_block.extended)
    moreover have "in_progress False False False (Some k) i signed s'"
      using a(2) st \<open>\<not> sig\<close> by (auto simp: in_progress_def split: if_splits)
    ultimately show ?thesis using reads.inside[OF inside(2,3)] unfolding inside(1) by simp
  next
    case b
    have "blocks (i + 1) (bs @ blk @ [e])" by (rule blocks.more[OF inside(3,4) b(1,2)])
    then show ?thesis using reads.between[OF inside(2), of "i + 1" "bs @ blk @ [e]" sig s'] st b(3)
      by (simp add: inside(1) in_progress_def)
  qed
next
  case (after m i bs ds sig)
  note st = after(6)[unfolded in_progress_def]
  obtain final where d: "ends_turn final e" "s' = s\<lparr>ss_final_delta := final, ss_message_deltas := True\<rparr>"
    using step_kinds[OF assms(2,3)] assms(2) st by (auto simp: stream_step_iffs)
  show ?thesis
  proof (cases final)
    case True
    show ?thesis using reads.ended[OF after(2,3,5), of e sig s'] st d True by (simp add: after(1) in_progress_def)
  next
    case False
    show ?thesis using reads.after[OF after(2,3), of "ds @ [e]" sig s'] after(5) st d False
      by (simp add: after(1) in_progress_def)
  qed
next
  case (ended m i bs ds f sig)
  note st = ended(6)[unfolded in_progress_def]
  have e: "stops_message e" "s' = s\<lparr>ss_terminal := True\<rparr>"
    using step_kinds[OF assms(2,3)] assms(2) st by (auto simp: stream_step_iffs)
  have "complete_stream (m # bs @ ds @ [f, e])" by (rule complete_stream.complete[OF ended(2-5) e(1)])
  then show ?thesis using reads.finished[of _ i sig s'] st e(2) by (simp add: ended(1) in_progress_def)
next
  case (finished i sig)
  then show ?thesis using assms(2) by (simp add: in_progress_def stream_step_def)
qed

lemma stream_run_append: "stream_run (xs @ ys) s = ebind (stream_run xs s) (stream_run ys)"
proof (induction xs arbitrary: s)
  case (Cons a xs)
  then show ?case by (cases "stream_step a s") simp_all
qed simp

lemma stream_run_snoc: "stream_run (xs @ [e]) s = ebind (stream_run xs s) (stream_step e)"
  by (simp add: stream_run_append ebind_def split: sum.splits)

lemma ping_step:
  assumes "is_ping e"
  shows "stream_step e s = Inr s' \<longleftrightarrow> \<not> ss_terminal s \<and> s' = s \<and> event_is ''ping'' {''type''} (\<lambda>d. True) e"
proof -
  have "event_type e = J_str ''ping''" using assms by (simp add: is_ping_def)
  then show ?thesis by (simp add: event_is_iff stream_step_def Let_def ebind_eq_Inr) blast
qed

lemma run_reads:
  "stream_run es stream_initial = Inr s \<Longrightarrow> reads (filter (\<lambda>e. \<not> is_ping e) es) s \<and>
     pings_ok es"
proof (induction es arbitrary: s rule: rev_induct)
  case Nil
  then show ?case by (simp add: reads.nothing)
next
  case (snoc e es)
  then obtain s1 where "stream_run es stream_initial = Inr s1" "stream_step e s1 = Inr s"
    by (auto simp: stream_run_snoc ebind_eq_Inr)
  then show ?case using snoc.IH reads_step by (cases "is_ping e") (auto simp: ping_step)
qed

lemma step_keeps_open: "stream_step e s = Inr s' \<Longrightarrow> \<not> ss_terminal s"
  by (auto simp: stream_step_def)

lemma run_opened: "stream_run es s = Inr s' \<Longrightarrow> \<not> ss_terminal s' \<Longrightarrow> \<not> ss_terminal s"
  by (induction es arbitrary: s) (auto simp: ebind_eq_Inr dest: step_keeps_open)

lemma run_with_pings:
  assumes "stream_run (filter (\<lambda>e. \<not> is_ping e) es) s = Inr s'" "\<not> ss_terminal s'"
    "pings_ok es"
  shows "stream_run es s = Inr s'"
  using assms
proof (induction es arbitrary: s)
  case (Cons e es)
  show ?case
  proof (cases "is_ping e")
    case True
    then have "stream_step e s = Inr s" using Cons.prems run_opened[of _ s s'] by (simp add: ping_step)
    then show ?thesis using Cons True by simp
  next
    case False
    then obtain s1 where "stream_step e s = Inr s1" "stream_run (filter (\<lambda>e. \<not> is_ping e) es) s1 = Inr s'"
      using Cons.prems(1) by (auto simp: ebind_eq_Inr)
    then show ?thesis using Cons by simp
  qed
qed simp

lemma run_open_block:
  assumes "open_block i k signed es" "in_progress False False False None i sig s"
  shows "\<exists>s'. stream_run es s = Inr s' \<and> in_progress False False False (Some k) i signed s'"
  using assms
proof (induction rule: open_block.induct)
  case (opened i k signed e)
  then have "stream_step e s = Inr (s\<lparr>ss_active := Some k, ss_signature := signed\<rparr>)"
    using stream_event_types(4)[OF opened(1)] by (auto simp: stream_step_iffs in_progress_def)
  then show ?case using opened by (auto simp: in_progress_def)
next
  case (extended i k es signed e)
  then obtain s1 where s1: "stream_run es s = Inr s1" "in_progress False False False (Some k) i False s1" by blast
  have "stream_step e s1 = Inr (if k = Text_block then s1 else s1\<lparr>ss_signature := signed\<rparr>)"
    using s1(2) extended(2) stream_event_types(5)[OF extended(2)]
      open_block_text[OF open_block.extended[OF extended(1,2)]]
    by (auto simp: stream_step_iffs in_progress_def)
  moreover have "in_progress False False False (Some k) i signed (if k = Text_block then s1 else s1\<lparr>ss_signature := signed\<rparr>)"
    using s1(2) open_block_text[OF open_block.extended[OF extended(1,2)]] by (auto simp: in_progress_def)
  ultimately show ?case by (simp add: stream_run_snoc s1(1))
qed

lemma run_blocks:
  assumes "blocks i bs" "starts_message m"
  shows "\<exists>s sig. stream_run (m # bs) stream_initial = Inr s \<and> in_progress False False False None i sig s"
  using assms
proof (induction rule: blocks.induct)
  case none
  then have "stream_step m stream_initial = Inr (stream_initial\<lparr>ss_started := True\<rparr>)"
    using stream_event_types(1)[OF none] by (simp add: stream_step_iffs stream_initial_def)
  then show ?case by (simp add: in_progress_def stream_initial_def)
next
  case (more i bs k signed es e)
  then obtain s sig where s: "stream_run (m # bs) stream_initial = Inr s" "in_progress False False False None i sig s" by blast
  obtain s1 where s1: "stream_run es s = Inr s1" "in_progress False False False (Some k) i signed s1"
    using run_open_block[OF more(2) s(2)] by blast
  have "stream_step e s1 = Inr (s1\<lparr>ss_active := None, ss_index := i + 1\<rparr>)"
    using more s1(2) stream_event_types(6)[OF more(4)] by (auto simp: stream_step_iffs in_progress_def)
  then have "stream_run ((m # bs) @ es @ [e]) stream_initial = Inr (s1\<lparr>ss_active := None, ss_index := i + 1\<rparr>)"
    unfolding stream_run_append s(1) by (simp add: stream_run_append s1(1))
  then show ?case using s1(2) by (auto simp: in_progress_def)
qed

lemma run_deltas:
  assumes "list_all (ends_turn False) ds" "in_progress False False dl None i sig s"
  shows "\<exists>s' dl'. stream_run ds s = Inr s' \<and> in_progress False False dl' None i sig s'"
  using assms
proof (induction ds arbitrary: s dl)
  case (Cons d ds)
  then have "stream_step d s = Inr (s\<lparr>ss_final_delta := False, ss_message_deltas := True\<rparr>)"
    using stream_event_types(3)[of False d] by (auto simp: stream_step_iffs in_progress_def)
  then show ?case using Cons.IH[of True "s\<lparr>ss_final_delta := False, ss_message_deltas := True\<rparr>"] Cons.prems
    by (simp add: in_progress_def)
qed auto

text \<open>
  C20.  The validator accepts exactly the complete response streams.  A list of events passes if and
  only if, pings left out, it is the start of a message, content blocks numbered from zero (a text
  block with text deltas, a thinking block with its deltas and then one signature, a redacted block
  alone), any number of open turn deltas, one that gives the stop reason, and the end of the
  message, which is the last event of all; and every ping is well formed.
\<close>

theorem accepts_complete_streams_only:
  "stream_valid es = Inr () \<longleftrightarrow>
     complete_stream (filter (\<lambda>e. \<not> is_ping e) es) \<and> es \<noteq> [] \<and> stops_message (last es) \<and>
     pings_ok es"
proof
  assume "stream_valid es = Inr ()"
  then obtain s where run: "stream_run es stream_initial = Inr s" and t: "ss_terminal s"
    by (auto simp: stream_valid_def ebind_eq_Inr)
  have "es \<noteq> []" using run t by (auto simp: stream_initial_def)
  then obtain xs e where es: "es = xs @ [e]" by (metis rev_exhaust)
  obtain s1 where s1: "stream_run xs stream_initial = Inr s1" "stream_step e s1 = Inr s"
    using run by (auto simp: es stream_run_snoc ebind_eq_Inr)
  have np: "\<not> is_ping e" using s1(2) t by (auto simp: ping_step)
  have "stops_message e"
    using step_kinds[OF s1(2) np] s1(2) t step_keeps_open[OF s1(2)] by (auto simp: stream_step_iffs split: if_splits)
  moreover have "complete_stream (filter (\<lambda>e. \<not> is_ping e) es)"
    using run_reads[OF run] t by (auto elim!: reads.cases simp: in_progress_def stream_initial_def)
  ultimately show "complete_stream (filter (\<lambda>e. \<not> is_ping e) es) \<and> es \<noteq> [] \<and> stops_message (last es) \<and>
     pings_ok es"
    using run_reads[OF run] by (simp add: es)
next
  assume *: "complete_stream (filter (\<lambda>e. \<not> is_ping e) es) \<and> es \<noteq> [] \<and> stops_message (last es) \<and>
     pings_ok es"
  then obtain xs e where es: "es = xs @ [e]" by (metis rev_exhaust)
  have e: "stops_message e" "\<not> is_ping e" using * stream_event_types(2)[of e] by (auto simp: es is_ping_def)
  from * obtain m n bs ds f where g: "starts_message m" "blocks n bs" "list_all (ends_turn False) ds" "ends_turn True f"
      "filter (\<lambda>e. \<not> is_ping e) xs @ [e] = (m # bs @ ds @ [f]) @ [e]"
    by (force simp: es e elim: complete_stream.cases)
  obtain s0 sig where s0: "stream_run (m # bs) stream_initial = Inr s0" "in_progress False False False None n sig s0"
    using run_blocks[OF g(2,1)] by blast
  obtain s1 dl where s1: "stream_run ds s0 = Inr s1" "in_progress False False dl None n sig s1"
    using run_deltas[OF g(3) s0(2)] by blast
  let ?s2 = "s1\<lparr>ss_final_delta := True, ss_message_deltas := True\<rparr>"
  have "stream_step f s1 = Inr ?s2"
    using s1(2) g(4) stream_event_types(3)[OF g(4)] by (auto simp: stream_step_iffs in_progress_def)
  then have "stream_run ((m # bs) @ ds @ [f]) stream_initial = Inr ?s2"
    unfolding stream_run_append s0(1) by (simp add: stream_run_append s1(1))
  moreover have xs: "filter (\<lambda>e. \<not> is_ping e) xs = (m # bs) @ ds @ [f]" using g(5) by simp
  ultimately have "stream_run (filter (\<lambda>e. \<not> is_ping e) xs) stream_initial = Inr ?s2" by (simp only: xs)
  moreover have "\<not> ss_terminal ?s2" using s1(2) by (simp add: in_progress_def)
  moreover have "pings_ok xs" using * by (simp add: es)
  ultimately have "stream_run xs stream_initial = Inr ?s2" by (rule run_with_pings)
  moreover have "stream_step e ?s2 = Inr (?s2\<lparr>ss_terminal := True\<rparr>)"
    using s1(2) e(1) stream_event_types(2)[OF e(1)] by (auto simp: stream_step_iffs in_progress_def)
  ultimately show "stream_valid es = Inr ()" by (simp add: stream_valid_def es stream_run_snoc)
qed

end
