(* ===== verification/Observations.thy ===== *)
theory Observations
  imports Native_Shape
begin

text \<open>
  What the proxy records of a request and its response, without their content
  (\<^verbatim>\<open>spend_guard/request_workload.py\<close>, \<^verbatim>\<open>request_tokens.py\<close>, \<^verbatim>\<open>token_response\<close> of
  \<^verbatim>\<open>response_token_shape.py\<close>).  Facts and reasons are gathered until a step raises; what was gathered
  stays.  Reasons are lists without duplicates, sorted when the observation is made.  A host in
  square brackets is never the provider's host; a usage given as pairs has string keys.
\<close>

section \<open>Addresses\<close>

record url_parts =
  up_scheme :: string
  up_netloc :: string
  up_path :: string
  up_query :: string
  up_fragment :: string

definition cut_at :: "char \<Rightarrow> string \<Rightarrow> string \<times> string option" where
  "cut_at c s = (let a = takeWhile (\<lambda>x. x \<noteq> c) s in (a, if length a < length s then Some (drop (length a + 1) s) else None))"

definition is_alpha :: "char \<Rightarrow> bool" where
  "is_alpha c \<longleftrightarrow> 65 \<le> code c \<and> code c \<le> 90 \<or> 97 \<le> code c \<and> code c \<le> 122"

definition scheme_of :: "string \<Rightarrow> string \<times> string" where
  "scheme_of u =
     (case cut_at CHR '':'' u of
        (a, Some rest) \<Rightarrow>
          if a \<noteq> [] \<and> is_alpha (hd a) \<and> list_all (\<lambda>c. is_alpha c \<or> is_digit c \<or> c \<in> set ''+-.'') a then (sql_lower a, rest) else ([], u)
      | (a, None) \<Rightarrow> ([], u))"

definition urlsplit :: "string \<Rightarrow> py_error + url_parts" where
  "urlsplit raw =
     (let u = filter (\<lambda>c. code c \<notin> {9, 10, 13}) (dropWhile (\<lambda>c. code c \<le> 32) raw);
          (scheme, rest) = scheme_of u;
          (netloc, rest) = (if startswith rest ''//''
                            then (let n = takeWhile (\<lambda>c. c \<notin> set ''/?#'') (drop 2 rest) in (n, drop (2 + length n) rest))
                            else ([], rest));
          (rest, fragment) = cut_at CHR ''#'' rest;
          (path, query) = cut_at CHR ''?'' rest
      in ebind (demand ((CHR ''['' \<in> set netloc) = (CHR '']'' \<in> set netloc)) ''Invalid IPv6 URL'') (\<lambda>_.
           Inr \<lparr>up_scheme = scheme, up_netloc = netloc, up_path = path,
                up_query = (case query of None \<Rightarrow> [] | Some q \<Rightarrow> q), up_fragment = (case fragment of None \<Rightarrow> [] | Some f \<Rightarrow> f)\<rparr>))"

text \<open>The port: none if absent or empty, an error if it is no number up to 65535.\<close>

definition port_of :: "string option \<Rightarrow> py_error + nat option" where
  "port_of p =
     (case p of
        None \<Rightarrow> Inr None
      | Some s \<Rightarrow>
          if s = [] then Inr None
          else if \<not> list_all is_digit s then Inl (ValueError ''Port could not be cast to integer value'')
          else case nat_literal s of
                 Some n \<Rightarrow> if n \<le> 65535 then Inr (Some n) else Inl (ValueError ''Port out of range 0-65535'')
               | None \<Rightarrow> Inl (ValueError ''Port could not be cast to integer value''))"

definition native_route :: "string option \<Rightarrow> py_error + bool" where
  "native_route url =
     ebind (urlsplit (case url of None \<Rightarrow> [] | Some u \<Rightarrow> u)) (\<lambda>p.
     let hostinfo = rev (takeWhile (\<lambda>c. c \<noteq> CHR ''@'') (rev (up_netloc p)));
         (host, port) = cut_at CHR '':'' hostinfo in
     if up_scheme p \<noteq> ''https'' \<or> CHR ''['' \<in> set hostinfo \<or> lower host \<noteq> ''api.anthropic.com'' then Inr False
     else ebind (port_of port) (\<lambda>n.
       Inr ((n = None \<or> n = Some 443) \<and> CHR ''@'' \<notin> set (up_netloc p) \<and> up_path p = ''/v1/messages'' \<and>
            up_query p = [] \<and> up_fragment p = [])))"

section \<open>Workloads\<close>

record workload =
  rw_body_sha256 :: "string option"
  rw_provider :: "string option"
  rw_model :: "string option"
  rw_input_modality :: "string option"
  rw_output_modality :: "string option"
  rw_cache_ttl_seconds :: "int option"
  rw_requested_service_tier :: "string option"
  rw_requested_region :: "string option"
  rw_response_model :: "string option"
  rw_service_tier :: "string option"
  rw_region :: "string option"
  rw_input_tokens :: "int option"
  rw_output_tokens :: "int option"
  rw_cache_read_tokens :: "int option"
  rw_cache_write_tokens :: "int option"
  rw_response_complete :: bool
  rw_reason_codes :: "string list"

definition no_workload :: workload where
  "no_workload = \<lparr>rw_body_sha256 = None, rw_provider = None, rw_model = None, rw_input_modality = None, rw_output_modality = None,
     rw_cache_ttl_seconds = None, rw_requested_service_tier = None, rw_requested_region = None, rw_response_model = None,
     rw_service_tier = None, rw_region = None, rw_input_tokens = None, rw_output_tokens = None, rw_cache_read_tokens = None,
     rw_cache_write_tokens = None, rw_response_complete = False, rw_reason_codes = [''response_unavailable'']\<rparr>"

definition WORKLOAD_REASONS :: "string list" where
  "WORKLOAD_REASONS = [''request_unavailable'', ''request_invalid'', ''route_unsupported'', ''headers_unsupported'',
     ''model_unavailable'', ''request_feature_unsupported'', ''input_modality_unsupported'', ''cache_ttl_unavailable'',
     ''cache_ttl_mixed'', ''response_unavailable'', ''response_invalid'', ''response_incomplete'', ''response_model_mismatch'',
     ''usage_unavailable'', ''service_tier_unavailable'', ''region_unavailable'', ''service_tier_mismatch'', ''region_mismatch'',
     ''cache_usage_mismatch'', ''response_feature_unsupported'']"

definition one_of :: "'a list \<Rightarrow> 'a option \<Rightarrow> bool" where
  "one_of xs v \<longleftrightarrow> (case v of None \<Rightarrow> True | Some x \<Rightarrow> x \<in> set xs)"

definition digest_ok :: "string \<Rightarrow> bool" where
  "digest_ok s \<longleftrightarrow> length s = 64 \<and> list_all (\<lambda>c. c \<in> set ''0123456789abcdef'') s"

definition holds_for :: "('a \<Rightarrow> bool) \<Rightarrow> 'a option \<Rightarrow> bool" where
  "holds_for P v \<longleftrightarrow> (case v of None \<Rightarrow> True | Some x \<Rightarrow> P x)"

definition canonical :: "string list \<Rightarrow> bool" where
  "canonical rs \<longleftrightarrow> sorted_keys (remdups rs) = rs"

definition usable_workload :: "workload \<Rightarrow> bool" where
  "usable_workload w \<longleftrightarrow>
     rw_response_complete w \<and>
     None \<notin> {rw_body_sha256 w, rw_provider w, rw_model w, rw_input_modality w, rw_output_modality w, rw_response_model w,
              rw_service_tier w, rw_region w} \<and>
     None \<notin> {rw_cache_ttl_seconds w, rw_input_tokens w, rw_output_tokens w, rw_cache_read_tokens w, rw_cache_write_tokens w} \<and>
     rw_model w = rw_response_model w \<and>
     the (rw_cache_read_tokens w) + the (rw_cache_write_tokens w) \<le> the (rw_input_tokens w) \<and>
     (rw_requested_region w = None \<or> rw_requested_region w = rw_region w) \<and>
     (rw_requested_service_tier w = Some ''standard_only'' \<longrightarrow> rw_service_tier w = Some ''standard'')"

definition check_workload :: "workload \<Rightarrow> py_error + unit" where
  "check_workload w =
     ebind (demand (holds_for digest_ok (rw_body_sha256 w)) ''invalid body digest'') (\<lambda>_.
     ebind (demand (one_of [''anthropic''] (rw_provider w) \<and> one_of [''text''] (rw_input_modality w) \<and>
                    one_of [''text''] (rw_output_modality w) \<and> one_of [300, 3600] (rw_cache_ttl_seconds w) \<and>
                    one_of [''auto'', ''standard_only''] (rw_requested_service_tier w) \<and>
                    one_of [''global'', ''us''] (rw_requested_region w) \<and>
                    one_of [''standard'', ''priority'', ''batch''] (rw_service_tier w) \<and> one_of [''global'', ''us''] (rw_region w))
              ''invalid workload selector'') (\<lambda>_.
     ebind (demand (holds_for model_ok (rw_model w) \<and> holds_for model_ok (rw_response_model w)) ''invalid workload model'') (\<lambda>_.
     ebind (demand (holds_for count_ok (rw_input_tokens w) \<and> holds_for count_ok (rw_output_tokens w) \<and>
                    holds_for count_ok (rw_cache_read_tokens w) \<and> holds_for count_ok (rw_cache_write_tokens w))
              ''invalid workload count'') (\<lambda>_.
     ebind (demand (list_all (\<lambda>r. r \<in> set WORKLOAD_REASONS) (rw_reason_codes w)) ''invalid workload reason'') (\<lambda>_.
     ebind (demand (canonical (rw_reason_codes w)) ''noncanonical workload reasons'') (\<lambda>_.
       demand (rw_reason_codes w = [] \<longrightarrow> usable_workload w) ''incomplete usable workload''))))))"

definition RequestWorkload :: "workload \<Rightarrow> py_error + workload" where
  "RequestWorkload w = ebind (check_workload w) (\<lambda>_. Inr w)"

section \<open>Observing a request\<close>

text \<open>Steps gather facts until one raises; \<open>False\<close> means that a step raised.\<close>

fun try_steps :: "('s \<Rightarrow> 's \<times> bool) list \<Rightarrow> 's \<Rightarrow> 's \<times> bool" where
  "try_steps [] s = (s, True)"
| "try_steps (f # fs) s = (case f s of (s', ok) \<Rightarrow> if ok then try_steps fs s' else (s', False))"

definition refuse :: "bool \<Rightarrow> string \<Rightarrow> workload \<Rightarrow> workload" where
  "refuse b r w = w\<lparr>rw_reason_codes := add_reason b r (rw_reason_codes w)\<rparr>"

definition route_step :: "string option \<Rightarrow> workload \<Rightarrow> workload \<times> bool" where
  "route_step url w =
     (case native_route url of
        Inl e \<Rightarrow> (w, False)
      | Inr native \<Rightarrow> (if native then w\<lparr>rw_provider := Some ''anthropic''\<rparr> else refuse True ''route_unsupported'' w, True))"

definition lowered_headers :: "headers \<Rightarrow> (string, string) dict" where
  "lowered_headers hs = foldl (\<lambda>d (k, v). AList.update (lower k) v d) [] hs"

definition headers_step :: "headers \<Rightarrow> workload \<Rightarrow> workload \<times> bool" where
  "headers_step hs w =
     (let low = lowered_headers hs in
      (refuse (\<not> distinct (map (\<lambda>(k, v). lower k) hs) \<or> map_of low ''anthropic-beta'' \<noteq> None \<or> map_of low ''authorization'' \<noteq> None \<or>
               map_of low ''x-api-key'' = None \<or> (map_of low ''content-encoding'' \<notin> {None, Some ''identity''}))
         ''headers_unsupported'' w, True))"

definition WORKLOAD_FIELDS :: "string list" where
  "WORKLOAD_FIELDS = [''model'', ''messages'', ''max_tokens'', ''system'', ''tools'', ''stream'', ''service_tier'', ''inference_geo'',
     ''cache_control'', ''thinking'', ''tool_choice'', ''temperature'', ''top_p'', ''top_k'', ''stop_sequences'', ''metadata'',
     ''output_config'']"

definition output_config_ok :: "json_fields \<Rightarrow> bool" where
  "output_config_ok d =
     (case map_of d ''output_config'' of
        None \<Rightarrow> True
      | Some (J_obj oc) \<Rightarrow>
          set (keys oc) \<subseteq> {''effort'', ''format''} \<and>
          (case map_of oc ''format'' of
             None \<Rightarrow> True
           | Some (J_obj f) \<Rightarrow> set (keys f) \<subseteq> {''type'', ''schema''} \<and> get_field f ''type'' = J_str ''json_schema''
           | Some _ \<Rightarrow> False)
      | Some _ \<Rightarrow> False)"

definition model_step :: "json_fields \<Rightarrow> workload \<Rightarrow> workload \<times> bool" where
  "model_step d w =
     (let m = model_of (get_field d ''model'') in
      (refuse (\<not> output_config_ok d) ''request_feature_unsupported''
        (refuse (\<not> set (keys d) \<subseteq> set WORKLOAD_FIELDS) ''request_feature_unsupported''
          (refuse (m = None) ''model_unavailable'' (w\<lparr>rw_model := m\<rparr>))), True))"

text \<open>A requested selector: absent, one of the known values, or unsupported.\<close>

definition selector :: "json_fields \<Rightarrow> string \<Rightarrow> string list \<Rightarrow> string option \<times> bool" where
  "selector d k values =
     (case map_of d k of
        None \<Rightarrow> (None, True)
      | Some (J_str v) \<Rightarrow> if v \<in> set values then (Some v, True) else (None, False)
      | Some _ \<Rightarrow> (None, False))"

definition selectors_step :: "json_fields \<Rightarrow> workload \<Rightarrow> workload \<times> bool" where
  "selectors_step d w =
     (case (selector d ''service_tier'' [''auto'', ''standard_only''], selector d ''inference_geo'' [''global'', ''us'']) of
        ((tier, ok1), (region, ok2)) \<Rightarrow>
          (refuse (\<not> ok2) ''request_feature_unsupported'' (refuse (\<not> ok1) ''request_feature_unsupported''
             (w\<lparr>rw_requested_service_tier := tier, rw_requested_region := region\<rparr>)), True))"

definition wl_cache :: "json \<Rightarrow> int list \<Rightarrow> py_error + int list" where
  "wl_cache v ttls =
     (case v of
        J_obj d \<Rightarrow>
          ebind (demand (set (keys d) \<subseteq> {''type'', ''ttl''}) ''unsupported cache directive'') (\<lambda>_.
          ebind (demand (get_field d ''type'' = J_str ''ephemeral'' \<and>
                         (case map_of d ''ttl'' of None \<Rightarrow> True | Some t \<Rightarrow> t \<in> {J_str ''5m'', J_str ''1h''}))
                  ''unsupported cache lifetime'') (\<lambda>_.
            Inr (List.insert (if map_of d ''ttl'' = Some (J_str ''1h'') then 3600 else 300) ttls)))
      | _ \<Rightarrow> Inl (ValueError ''unsupported cache directive''))"

definition optional_cache :: "json_fields \<Rightarrow> int list \<Rightarrow> py_error + int list" where
  "optional_cache d ttls = (case map_of d ''cache_control'' of None \<Rightarrow> Inr ttls | Some c \<Rightarrow> wl_cache c ttls)"

text \<open>Text-only content: the answer and the cache lifetimes met, or an error.\<close>

definition wl_block :: "(json \<Rightarrow> int list \<Rightarrow> py_error + (bool \<times> int list)) \<Rightarrow> json \<Rightarrow> int list \<Rightarrow> py_error + (bool \<times> int list)" where
  "wl_block inner b ttls =
     (case b of
        J_obj d \<Rightarrow>
          let kind = get_field d ''type'' in
          if kind \<notin> J_str ` {''text'', ''tool_use'', ''tool_result'', ''thinking'', ''redacted_thinking''} then Inr (False, ttls)
          else ebind (optional_cache d ttls) (\<lambda>t.
            if kind = J_str ''text'' \<and> \<not> is_str (get_field d ''text'') then Inr (False, t)
            else if kind = J_str ''tool_result'' then inner (get_field d ''content'') t
            else Inr (True, t))
      | _ \<Rightarrow> Inr (False, ttls))"

fun all_true :: "('a \<Rightarrow> 's \<Rightarrow> 'e + (bool \<times> 's)) \<Rightarrow> 'a list \<Rightarrow> 's \<Rightarrow> 'e + (bool \<times> 's)" where
  "all_true f [] s = Inr (True, s)"
| "all_true f (x # xs) s = ebind (f x s) (\<lambda>(ok, s'). if ok then all_true f xs s' else Inr (False, s'))"

primrec wl_blocks :: "nat \<Rightarrow> json \<Rightarrow> int list \<Rightarrow> py_error + (bool \<times> int list)" where
  "wl_blocks 0 v ttls = Inr (False, ttls)"
| "wl_blocks (Suc n) v ttls =
     (case v of
        J_str s \<Rightarrow> Inr (True, ttls)
      | J_list bs \<Rightarrow> all_true (wl_block (wl_blocks n)) bs ttls
      | _ \<Rightarrow> Inr (False, ttls))"

text \<open>The depth bound of eight: levels zero to eight are read.\<close>

definition content_ok :: "json \<Rightarrow> int list \<Rightarrow> py_error + (bool \<times> int list)" where
  "content_ok = wl_blocks 9"

definition wl_message :: "json \<Rightarrow> int list \<Rightarrow> py_error + (bool \<times> int list)" where
  "wl_message m ttls =
     (case m of
        J_obj d \<Rightarrow>
          if set (keys d) \<subseteq> {''role'', ''content''} \<and> get_field d ''role'' \<in> {J_str ''user'', J_str ''assistant''}
          then content_ok (get_field d ''content'') ttls else Inr (False, ttls)
      | _ \<Rightarrow> Inr (False, ttls))"

definition wl_messages :: "json_fields \<Rightarrow> py_error + (bool \<times> int list)" where
  "wl_messages d =
     (case get_field d ''messages'' of
        J_list ms \<Rightarrow> if ms = [] then Inr (False, []) else all_true wl_message ms []
      | _ \<Rightarrow> Inr (False, []))"

definition wl_text :: "json_fields \<Rightarrow> py_error + (bool \<times> int list)" where
  "wl_text d =
     ebind (wl_messages d) (\<lambda>(ok, t).
       case map_of d ''system'' of
         None \<Rightarrow> Inr (ok, t)
       | Some sys \<Rightarrow> ebind (content_ok sys t) (\<lambda>(ok', t'). Inr (ok' \<and> ok, t')))"

definition iter_items :: "json \<Rightarrow> py_error + json list" where
  "iter_items v =
     (case v of
        J_list xs \<Rightarrow> Inr xs
      | J_obj d \<Rightarrow> Inr (map (\<lambda>(k, _). J_str k) d)
      | J_str s \<Rightarrow> Inr (map (\<lambda>c. J_str [c]) s)
      | _ \<Rightarrow> Inl (TypeError ''object is not iterable''))"

fun tools_loop :: "json list \<Rightarrow> workload \<Rightarrow> int list \<Rightarrow> (workload \<times> int list) \<times> bool" where
  "tools_loop [] w ttls = ((w, ttls), True)"
| "tools_loop (tool # tools) w ttls =
     (case tool of
        J_obj d \<Rightarrow>
          if map_of d ''type'' \<notin> {None, Some (J_str ''custom'')} then tools_loop tools (refuse True ''request_feature_unsupported'' w) ttls
          else (case optional_cache d ttls of Inl e \<Rightarrow> ((w, ttls), False) | Inr t \<Rightarrow> tools_loop tools w t)
      | _ \<Rightarrow> tools_loop tools (refuse True ''request_feature_unsupported'' w) ttls)"

definition lifetime :: "int list \<Rightarrow> workload \<Rightarrow> workload" where
  "lifetime ttls w =
     (case ttls of
        [t] \<Rightarrow> w\<lparr>rw_cache_ttl_seconds := Some t\<rparr>
      | [] \<Rightarrow> refuse True ''cache_ttl_unavailable'' w
      | _ \<Rightarrow> refuse True ''cache_ttl_mixed'' w)"

definition modality :: "bool \<Rightarrow> workload \<Rightarrow> workload" where
  "modality text_only w =
     (if text_only then w\<lparr>rw_input_modality := Some ''text'', rw_output_modality := Some ''text''\<rparr>
      else refuse True ''input_modality_unsupported'' w)"

definition content_step :: "json_fields \<Rightarrow> workload \<Rightarrow> workload \<times> bool" where
  "content_step d w =
     (case ebind (wl_text d) (\<lambda>r. ebind (iter_items (case map_of d ''tools'' of None \<Rightarrow> J_list [] | Some t \<Rightarrow> t)) (\<lambda>tools. Inr (r, tools))) of
        Inl e \<Rightarrow> (w, False)
      | Inr ((text_only, t), tools) \<Rightarrow>
          (case tools_loop tools w t of
             ((w', t'), ok) \<Rightarrow>
               if \<not> ok then (w', False)
               else (case optional_cache d t' of
                       Inl e \<Rightarrow> (w', False)
                     | Inr t'' \<Rightarrow> (lifetime t'' (modality text_only w'), True))))"

definition document_step :: "native_env \<Rightarrow> string \<Rightarrow> workload \<Rightarrow> workload \<times> bool" where
  "document_step env b w =
     (case strict_json (ne_pairs_bytes env) b of
        Inr (J_obj d) \<Rightarrow> try_steps [model_step d, selectors_step d, content_step d] w
      | _ \<Rightarrow> (w, False))"

definition observe_workload :: "native_env \<Rightarrow> string option \<Rightarrow> string option \<Rightarrow> headers \<Rightarrow> py_error + workload" where
  "observe_workload env body url hs =
     (case body of
        None \<Rightarrow> RequestWorkload (no_workload\<lparr>rw_reason_codes := [''request_unavailable'', ''response_unavailable'']\<rparr>)
      | Some b \<Rightarrow>
          if b = [] \<or> MAX_BYTES < int (length b)
          then RequestWorkload (no_workload\<lparr>rw_reason_codes := [''request_unavailable'', ''response_unavailable'']\<rparr>)
          else (case try_steps [route_step url, headers_step hs, document_step env b]
                       (no_workload\<lparr>rw_body_sha256 := Some (ne_sha256 env b)\<rparr>) of
                  (w, ok) \<Rightarrow>
                    let w' = refuse (\<not> ok) ''request_invalid'' w in
                    RequestWorkload (w'\<lparr>rw_reason_codes := sorted_keys (rw_reason_codes w')\<rparr>)))"

section \<open>Reading a response\<close>

definition line_break :: "char \<Rightarrow> bool" where
  "line_break c \<longleftrightarrow> code c \<in> {10, 11, 12, 13, 28, 29, 30, 133}"

fun splitlines :: "string \<Rightarrow> string list" where
  "splitlines [] = []"
| "splitlines (c # s) =
     (if c = CHR 0x0D \<and> s \<noteq> [] \<and> hd s = CHR 0x0A then [] # splitlines (tl s)
      else if line_break c then [] # splitlines s
      else case splitlines s of [] \<Rightarrow> [[c]] | l # ls \<Rightarrow> (c # l) # ls)"

definition data_payloads :: "string \<Rightarrow> string list" where
  "data_payloads block = map (\<lambda>l. drop_space (drop 5 l)) (filter (\<lambda>l. startswith l ''data:'') (splitlines block))"

definition at_key :: "json \<Rightarrow> string \<Rightarrow> py_error + json" where
  "at_key v k =
     (case v of
        J_obj d \<Rightarrow> (case map_of d k of None \<Rightarrow> Inl (KeyError k) | Some x \<Rightarrow> Inr x)
      | _ \<Rightarrow> Inl (TypeError ''object is not subscriptable''))"

text \<open>\<^verbatim>\<open>dict.update\<close> takes an object or a list of pairs.\<close>

fun pair_of :: "json \<Rightarrow> py_error + (string \<times> json)" where
  "pair_of (J_list [J_str k, v]) = Inr (k, v)"
| "pair_of (J_str [a, b]) = Inr ([a], J_str [b])"
| "pair_of (J_obj [(a, _), (b, _)]) = Inr (a, J_str b)"
| "pair_of _ = Inl (ValueError ''dictionary update sequence element'')"

definition update_items :: "json \<Rightarrow> py_error + json_fields" where
  "update_items v =
     (case v of
        J_obj d \<Rightarrow> Inr d
      | J_list xs \<Rightarrow> each_result pair_of xs
      | J_str [] \<Rightarrow> Inr []
      | _ \<Rightarrow> Inl (TypeError ''object is not iterable''))"

definition dict_update :: "json_fields \<Rightarrow> json_fields \<Rightarrow> json_fields" where
  "dict_update d new = foldl (\<lambda>d (k, v). AList.update k v d) d new"

record usage_state =
  us_model :: json
  us_usage :: json_fields
  us_started :: bool
  us_terminal :: bool
  us_delta :: bool

definition usage_initial :: usage_state where
  "usage_initial = \<lparr>us_model = J_null, us_usage = [], us_started = False, us_terminal = False, us_delta = False\<rparr>"

definition usage_event :: "json \<Rightarrow> usage_state \<Rightarrow> py_error + usage_state" where
  "usage_event e s =
     ebind (at_key e ''type'') (\<lambda>kind.
     ebind (demand (\<not> us_terminal s) ''event after completion'') (\<lambda>_.
     if kind = J_str ''message_start'' then
       ebind (demand (\<not> us_started s) ''multiple messages'') (\<lambda>_.
       ebind (at_key e ''message'') (\<lambda>m.
       ebind (at_key m ''model'') (\<lambda>model.
       ebind (at_key m ''usage'') (\<lambda>u.
       ebind (update_items u) (\<lambda>items.
         Inr (s\<lparr>us_started := True, us_model := model, us_usage := dict_update (us_usage s) items\<rparr>))))))
     else if kind = J_str ''message_delta'' then
       ebind (demand (us_started s) ''delta without message'') (\<lambda>_.
       ebind (at_key e ''usage'') (\<lambda>current.
       case current of
         J_obj [(k, v)] \<Rightarrow>
           (case (count_of v, count_of (get_field (us_usage s) ''output_tokens'')) of
              (Some n, Some previous) \<Rightarrow>
                ebind (demand (k = ''output_tokens'' \<and> previous \<le> n) ''invalid cumulative usage'') (\<lambda>_.
                  Inr (s\<lparr>us_usage := AList.update ''output_tokens'' v (us_usage s), us_delta := True\<rparr>))
            | _ \<Rightarrow> Inl (ValueError ''invalid cumulative usage''))
       | _ \<Rightarrow> Inl (ValueError ''unsupported cumulative usage update'')))
     else if kind = J_str ''message_stop'' then Inr (s\<lparr>us_terminal := True\<rparr>)
     else if kind \<in> J_str ` {''ping'', ''content_block_start'', ''content_block_delta'', ''content_block_stop''} then Inr s
     else Inl (ValueError ''unsupported response event'')))"

fun stream_usage :: "native_env \<Rightarrow> string list \<Rightarrow> usage_state \<Rightarrow> py_error + usage_state" where
  "stream_usage env [] s = Inr s"
| "stream_usage env (b # bs) s =
     (let ls = data_payloads b in
      if ls = [] then stream_usage env bs s
      else ebind (strict_json (ne_pairs env) (newline_join ls)) (\<lambda>e. ebind (usage_event e s) (stream_usage env bs)))"

definition response_usage :: "native_env \<Rightarrow> string \<Rightarrow> bool \<Rightarrow> py_error + (json \<times> json)" where
  "response_usage env raw streaming =
     (if \<not> streaming then
        ebind (strict_json (ne_pairs_bytes env) raw) (\<lambda>d. ebind (at_key d ''model'') (\<lambda>m. ebind (at_key d ''usage'') (\<lambda>u. Inr (m, u))))
      else if MAX_BYTES < int (length raw) then Inl (ValueError ''response size limit'')
      else case ne_decode env raw of
             None \<Rightarrow> Inl (ValueError ''invalid start byte'')
           | Some text \<Rightarrow>
               ebind (stream_usage env (split_frames (replace_crlf text)) usage_initial) (\<lambda>s.
               ebind (demand (us_started s \<and> us_terminal s \<and> us_delta s) ''incomplete stream'') (\<lambda>_.
                 Inr (us_model s, J_obj (us_usage s)))))"

definition token_response :: "native_env \<Rightarrow> string \<Rightarrow> bool \<Rightarrow> py_error + (json \<times> json)" where
  "token_response env raw streaming =
     (if MAX_BYTES < int (length raw) then Inl (ValueError ''invalid response size'')
      else if \<not> streaming then
        ebind (strict_json (ne_pairs_bytes env) raw) (\<lambda>j.
        ebind (bounded j) (\<lambda>_. ebind (message_ok False j) (\<lambda>d. Inr (get_field d ''model'', get_field d ''usage''))))
      else
        ebind (read_events env raw) (\<lambda>es. ebind (stream_valid es) (\<lambda>_. response_usage env raw True)))"

section \<open>Observing a response\<close>

definition USAGE_FIELDS :: "string list" where
  "USAGE_FIELDS = [''input_tokens'', ''output_tokens'', ''cache_read_input_tokens'', ''cache_creation_input_tokens'',
     ''cache_creation'', ''service_tier'', ''inference_geo'', ''server_tool_use'', ''output_tokens_details'']"

definition server_tools_ok :: "json_fields \<Rightarrow> bool" where
  "server_tools_ok u =
     (case map_of u ''server_tool_use'' of
        None \<Rightarrow> True
      | Some (J_obj t) \<Rightarrow> list_all (\<lambda>(k, v). count_of v = Some 0) t
      | Some _ \<Rightarrow> False)"

text \<open>Uncached input, output, cache reads and cache writes, when all are counts and so is their sum.\<close>

definition usage_counts :: "json_fields \<Rightarrow> (int \<times> int \<times> int \<times> int) option" where
  "usage_counts u =
     (case (count_of (get_field u ''input_tokens''), count_of (get_field u ''output_tokens''),
            count_of (get_field u ''cache_read_input_tokens''), count_of (get_field u ''cache_creation_input_tokens'')) of
        (Some i, Some out, Some r, Some w) \<Rightarrow> Some (i, out, r, w)
      | _ \<Rightarrow> None)"

definition wl_tier :: "json_fields \<Rightarrow> workload \<Rightarrow> workload" where
  "wl_tier u w =
     (let tier = (case get_field u ''service_tier'' of
                    J_str s \<Rightarrow> if s \<in> {''standard'', ''priority'', ''batch''} then Some s else None | _ \<Rightarrow> None);
          region = (case get_field u ''inference_geo'' of J_str s \<Rightarrow> if s \<in> {''global'', ''us''} then Some s else None | _ \<Rightarrow> None);
          keep = (\<lambda>new old. case new of None \<Rightarrow> old | Some x \<Rightarrow> Some x);
          w1 = refuse (region = None) ''region_unavailable'' (refuse (tier = None) ''service_tier_unavailable''
                 (w\<lparr>rw_service_tier := keep tier (rw_service_tier w), rw_region := keep region (rw_region w)\<rparr>))
      in refuse (rw_requested_service_tier w = Some ''standard_only'' \<and> tier \<notin> {None, Some ''standard''}) ''service_tier_mismatch''
           (refuse (rw_requested_region w \<notin> {None, Some []} \<and> region \<notin> {None, rw_requested_region w}) ''region_mismatch'' w1))"

definition split_of :: "json_fields \<Rightarrow> (int \<times> int) option" where
  "split_of u =
     (case get_field u ''cache_creation'' of
        J_obj c \<Rightarrow> (case (count_of (get_field c ''ephemeral_5m_input_tokens''), count_of (get_field c ''ephemeral_1h_input_tokens'')) of
                      (Some a, Some b) \<Rightarrow> Some (a, b) | _ \<Rightarrow> None)
      | _ \<Rightarrow> None)"

definition cache_usage_ok :: "json_fields \<Rightarrow> int option \<Rightarrow> int \<Rightarrow> bool" where
  "cache_usage_ok u ttl wr =
     (if wr = 0 \<and> get_field u ''cache_creation'' = J_null then True
      else case split_of u of
             None \<Rightarrow> False
           | Some (a, b) \<Rightarrow> a + b = wr \<and> (a \<noteq> 0 \<longrightarrow> ttl = Some 300) \<and> (b \<noteq> 0 \<longrightarrow> ttl = Some 3600))"

definition creation_fields_ok :: "json_fields \<Rightarrow> bool" where
  "creation_fields_ok u =
     (case get_field u ''cache_creation'' of
        J_obj c \<Rightarrow> set (keys c) = {''ephemeral_5m_input_tokens'', ''ephemeral_1h_input_tokens''} | _ \<Rightarrow> True)"

definition wl_counts :: "json_fields \<Rightarrow> workload \<Rightarrow> workload" where
  "wl_counts u w =
     (case usage_counts u of
        None \<Rightarrow> refuse True ''usage_unavailable'' w
      | Some (i, out, r, wr) \<Rightarrow>
          let w1 = (if count_ok (i + r + wr)
                    then w\<lparr>rw_input_tokens := Some (i + r + wr), rw_output_tokens := Some out, rw_cache_read_tokens := Some r,
                           rw_cache_write_tokens := Some wr\<rparr>
                    else refuse True ''usage_unavailable'' w)
          in refuse (\<not> cache_usage_ok u (rw_cache_ttl_seconds w) wr) ''cache_usage_mismatch''
               (refuse (\<not> creation_fields_ok u) ''response_feature_unsupported'' w1))"

definition wl_usage :: "json_fields \<Rightarrow> workload \<Rightarrow> workload" where
  "wl_usage u w =
     refuse (\<not> server_tools_ok u) ''response_feature_unsupported''
       (refuse (\<not> set (keys u) \<subseteq> set USAGE_FIELDS) ''response_feature_unsupported'' (wl_counts u (wl_tier u w)))"

definition wl_response :: "native_env \<Rightarrow> string \<Rightarrow> bool \<Rightarrow> workload \<Rightarrow> workload \<times> bool" where
  "wl_response env raw streaming w =
     (if rw_provider w \<noteq> Some ''anthropic'' then (w, False)
      else case response_usage env raw streaming of
             Inl e \<Rightarrow> (w, False)
           | Inr (model, usage) \<Rightarrow>
               let m = model_of model;
                   w1 = refuse (m = None \<or> m \<noteq> rw_model w) ''response_model_mismatch'' (w\<lparr>rw_response_model := m\<rparr>)
               in case usage of J_obj u \<Rightarrow> (wl_usage u w1, True) | _ \<Rightarrow> (w1, False))"

definition observe_workload_response ::
  "native_env \<Rightarrow> workload \<Rightarrow> string \<Rightarrow> bool \<Rightarrow> bool \<Rightarrow> int \<Rightarrow> py_error + workload" where
  "observe_workload_response env request raw streaming ended status =
     (let ok = ended \<and> status = 200;
          w0 = request\<lparr>rw_reason_codes := removeAll ''response_unavailable'' (rw_reason_codes request), rw_response_complete := ok\<rparr>
      in case wl_response env raw streaming (refuse (\<not> ok) ''response_incomplete'' w0) of
           (w, read) \<Rightarrow>
             let w' = refuse (\<not> read) ''response_invalid'' w in
             RequestWorkload (w'\<lparr>rw_reason_codes := sorted_keys (rw_reason_codes w')\<rparr>))"

section \<open>Token observations\<close>

record token_observation =
  to_body_sha256 :: "string option"
  to_provider :: "string option"
  to_transport :: "string option"
  to_authentication_kind :: "string option"
  to_authentication_provenance :: "string option"
  to_profile_sha256 :: "string option"
  to_feature_profile_status :: string
  to_request_model :: "string option"
  to_response_model :: "string option"
  to_input_modality :: "string option"
  to_output_modality :: "string option"
  to_uncached_input_tokens :: "int option"
  to_cache_read_tokens :: "int option"
  to_cache_creation_tokens :: "int option"
  to_input_tokens :: "int option"
  to_output_tokens :: "int option"
  to_response_complete :: bool
  to_token_usage_complete :: bool
  to_token_reason_codes :: "string list"
  to_comparison_reason_codes :: "string list"
  to_billing_semantics :: string

definition TOKEN_REASONS :: "string list" where
  "TOKEN_REASONS = [''request_unavailable'', ''request_invalid'', ''route_unsupported'', ''headers_unsupported'', ''model_unavailable'',
     ''input_modality_unsupported'', ''request_feature_unsupported'', ''response_unavailable'', ''response_incomplete'',
     ''response_invalid'', ''response_model_mismatch'', ''usage_unavailable'', ''cache_usage_mismatch'', ''response_feature_unsupported'']"

definition token_counts :: "token_observation \<Rightarrow> int option list" where
  "token_counts t = [to_uncached_input_tokens t, to_cache_read_tokens t, to_cache_creation_tokens t, to_input_tokens t, to_output_tokens t]"

definition reconciles :: "token_observation \<Rightarrow> bool" where
  "reconciles t \<longleftrightarrow> (None \<notin> set (token_counts t) \<longrightarrow>
     the (to_input_tokens t) = the (to_uncached_input_tokens t) + the (to_cache_read_tokens t) + the (to_cache_creation_tokens t))"

definition complete_facts :: "token_observation \<Rightarrow> bool" where
  "complete_facts t \<longleftrightarrow>
     to_response_complete t \<and>
     None \<notin> {to_body_sha256 t, to_provider t, to_transport t, to_authentication_kind t, to_authentication_provenance t,
              to_profile_sha256 t, to_request_model t, to_response_model t, to_input_modality t, to_output_modality t} \<and>
     None \<notin> set (token_counts t) \<and> to_request_model t = to_response_model t"

definition classes_ok :: "token_observation \<Rightarrow> bool" where
  "classes_ok t \<longleftrightarrow>
     one_of [''anthropic''] (to_provider t) \<and> one_of [''anthropic_messages_https''] (to_transport t) \<and>
     one_of [''api_key'', ''oauth_bearer'', ''forwarded_bearer_unclassified''] (to_authentication_kind t) \<and>
     one_of [''credential_router_metadata'', ''final_forwarded_headers''] (to_authentication_provenance t) \<and>
     one_of [''text''] (to_input_modality t) \<and> one_of [''text''] (to_output_modality t)"

definition provenance_ok :: "token_observation \<Rightarrow> bool" where
  "provenance_ok t \<longleftrightarrow>
     (to_authentication_kind t = Some ''oauth_bearer'' \<longrightarrow> to_authentication_provenance t = Some ''credential_router_metadata'') \<and>
     (to_authentication_kind t = Some ''forwarded_bearer_unclassified'' \<longrightarrow> to_authentication_provenance t = Some ''final_forwarded_headers'')"

definition check_tokens :: "token_observation \<Rightarrow> py_error + unit" where
  "check_tokens t =
     ebind (demand (holds_for digest_ok (to_body_sha256 t) \<and> holds_for digest_ok (to_profile_sha256 t)) ''invalid token observation digest'') (\<lambda>_.
     ebind (demand (classes_ok t) ''invalid token observation classification'') (\<lambda>_.
     ebind (demand (to_feature_profile_status t = ''unclassified'' \<and> to_comparison_reason_codes t = [''feature_profile_unclassified''])
              ''unsupported token comparison profile'') (\<lambda>_.
     ebind (demand (to_billing_semantics t = ''unestablished'') ''token facts do not establish billing'') (\<lambda>_.
     ebind (demand (provenance_ok t) ''authentication provenance differs'') (\<lambda>_.
     ebind (demand (holds_for model_ok (to_request_model t) \<and> holds_for model_ok (to_response_model t)) ''invalid token observation model'') (\<lambda>_.
     ebind (demand (list_all (holds_for count_ok) (token_counts t)) ''invalid observed token count'') (\<lambda>_.
     ebind (demand (list_all (\<lambda>r. r \<in> set TOKEN_REASONS) (to_token_reason_codes t)) ''invalid token observation reasons'') (\<lambda>_.
     ebind (demand (canonical (to_token_reason_codes t) \<and> to_token_usage_complete t = (to_token_reason_codes t = []))
              ''token completeness contradicts reasons'') (\<lambda>_.
     ebind (demand (reconciles t) ''observed token categories do not reconcile'') (\<lambda>_.
       demand (to_token_usage_complete t \<longrightarrow> complete_facts t) ''complete token observation lacks required facts''))))))))))"

definition RequestTokenObservation :: "token_observation \<Rightarrow> py_error + token_observation" where
  "RequestTokenObservation t = ebind (check_tokens t) (\<lambda>_. Inr t)"

definition printable :: "char \<Rightarrow> bool" where
  "printable c \<longleftrightarrow> 33 \<le> code c \<and> code c \<le> 126"

definition bearer_ok :: "string \<Rightarrow> bool" where
  "bearer_ok s \<longleftrightarrow> lower (take 7 s) = ''bearer '' \<and> list_all printable (drop 7 s) \<and> 1 \<le> length (drop 7 s) \<and> length (drop 7 s) \<le> 8192"

definition header_str :: "(string, string) dict \<Rightarrow> string \<Rightarrow> string" where
  "header_str low k = (case map_of low k of None \<Rightarrow> [] | Some v \<Rightarrow> v)"

text \<open>The classification of the final authentication: kind and provenance.\<close>

definition authentication :: "string option \<Rightarrow> headers \<Rightarrow> py_error + (string \<times> string)" where
  "authentication credential_kind hs =
     (let low = lowered_headers hs; key = header_str low ''x-api-key''; bearer = header_str low ''authorization'' in
      ebind (demand (distinct (map (\<lambda>(k, v). lower k) hs)) ''ambiguous headers'') (\<lambda>_.
      ebind (demand (map_of low ''content-encoding'' \<in> {None, Some ''identity''}) ''unsupported encoding'') (\<lambda>_.
      ebind (demand ((key = []) \<noteq> (bearer = [])) ''one authentication scheme required'') (\<lambda>_.
      ebind (demand (bearer \<noteq> [] \<longrightarrow> bearer_ok bearer) ''unsupported bearer shape'') (\<lambda>_.
      ebind (demand (key \<noteq> [] \<longrightarrow> length key \<le> 8192 \<and> list_all printable key) ''unsupported key shape'') (\<lambda>_.
      ebind (demand (credential_kind \<in> {None, Some ''oauth'', Some ''api_key''}) ''unsupported router kind'') (\<lambda>_.
      ebind (demand (\<not> (credential_kind = Some ''oauth'' \<and> bearer = []) \<and> \<not> (credential_kind = Some ''api_key'' \<and> key = []))
               ''router metadata contradicts final authentication'') (\<lambda>_.
        Inr (if key \<noteq> [] then ''api_key'' else if credential_kind = Some ''oauth'' then ''oauth_bearer'' else ''forwarded_bearer_unclassified'',
             if credential_kind \<noteq> None then ''credential_router_metadata'' else ''final_forwarded_headers'')))))))))"

definition tokens_of_shape :: "shape_facts \<Rightarrow> token_observation" where
  "tokens_of_shape f =
     \<lparr>to_body_sha256 = sf_body_sha256 f, to_provider = sf_provider f, to_transport = sf_transport f, to_authentication_kind = None,
      to_authentication_provenance = None, to_profile_sha256 = None, to_feature_profile_status = ''unclassified'',
      to_request_model = sf_request_model f, to_response_model = None, to_input_modality = sf_input_modality f,
      to_output_modality = sf_output_modality f, to_uncached_input_tokens = None, to_cache_read_tokens = None,
      to_cache_creation_tokens = None, to_input_tokens = None, to_output_tokens = None, to_response_complete = False,
      to_token_usage_complete = False, to_token_reason_codes = [], to_comparison_reason_codes = [''feature_profile_unclassified''],
      to_billing_semantics = ''unestablished''\<rparr>"

definition observe_tokens ::
  "native_env \<Rightarrow> string option \<Rightarrow> string option \<Rightarrow> headers \<Rightarrow> string option \<Rightarrow> py_error + token_observation" where
  "observe_tokens env body url hs credential_kind =
     (case observe_shape env body url of
        (f, reasons, profile) \<Rightarrow>
          let t = tokens_of_shape f; beta = header_str (lowered_headers hs) ''anthropic-beta'';
              (t', ok) = (case authentication credential_kind hs of
                 Inl e \<Rightarrow> (t, False)
               | Inr (kind, provenance) \<Rightarrow>
                   let t1 = t\<lparr>to_authentication_kind := Some kind, to_authentication_provenance := Some provenance\<rparr> in
                   if 2048 < length beta \<or> \<not> list_all (\<lambda>c. 32 \<le> code c \<and> code c \<le> 126) beta then (t1, False)
                   else (t1\<lparr>to_profile_sha256 := Some (ne_sha256 env (ne_dumps env (J_obj
                           [(''beta_sha256'', J_str (ne_sha256 env beta)), (''request_shape'', J_obj profile)])))\<rparr>, True));
              reasons' = (if ok then removeAll ''headers_unsupported'' reasons else List.insert ''headers_unsupported'' reasons)
          in RequestTokenObservation (t'\<lparr>to_token_reason_codes := sorted_keys reasons'\<rparr>))"

definition details_ok :: "json_fields \<Rightarrow> int option \<Rightarrow> bool" where
  "details_ok u out =
     (case get_field u ''output_tokens_details'' of
        J_null \<Rightarrow> True
      | J_obj d \<Rightarrow>
          set (keys d) = {''reasoning_tokens''} \<and>
          (case (count_of (get_field d ''reasoning_tokens''), out) of (Some n, Some m) \<Rightarrow> n \<le> m | _ \<Rightarrow> False)
      | _ \<Rightarrow> False)"

definition creation_split_ok :: "json_fields \<Rightarrow> int \<Rightarrow> bool" where
  "creation_split_ok u wr =
     (case map_of u ''cache_creation'' of
        None \<Rightarrow> True
      | Some (J_obj c) \<Rightarrow>
          set (keys c) = {''ephemeral_5m_input_tokens'', ''ephemeral_1h_input_tokens''} \<and>
          list_all (\<lambda>(k, v). count_of v \<noteq> None) c \<and> sum_list (map (\<lambda>(k, v). the (count_of v)) c) = wr
      | Some _ \<Rightarrow> False)"

definition tk_usage :: "json_fields \<Rightarrow> token_observation \<Rightarrow> string list \<Rightarrow> token_observation \<times> string list" where
  "tk_usage u t reasons =
     (let counts = (case usage_counts u of Some (i, out, r, w) \<Rightarrow> if count_ok (i + r + w) then Some (i, out, r, w) else None | None \<Rightarrow> None);
          (t', reasons, out) = (case counts of
             None \<Rightarrow> (t, List.insert ''usage_unavailable'' reasons, None)
           | Some (i, out, r, w) \<Rightarrow>
               (t\<lparr>to_uncached_input_tokens := Some i, to_cache_read_tokens := Some r, to_cache_creation_tokens := Some w,
                  to_input_tokens := Some (i + r + w), to_output_tokens := Some out\<rparr>,
                add_reason (\<not> creation_split_ok u w) ''cache_usage_mismatch'' reasons, Some out))
      in (t', add_reason (\<not> set (keys u) \<subseteq> set USAGE_FIELDS \<or> \<not> server_tools_ok u \<or> \<not> details_ok u out)
                ''response_feature_unsupported'' reasons))"

definition tk_response ::
  "native_env \<Rightarrow> string \<Rightarrow> bool \<Rightarrow> token_observation \<Rightarrow> string list \<Rightarrow> (token_observation \<times> string list) \<times> bool" where
  "tk_response env raw streaming t reasons =
     (if to_provider t \<noteq> Some ''anthropic'' then ((t, reasons), False)
      else case token_response env raw streaming of
             Inl e \<Rightarrow> ((t, reasons), False)
           | Inr (model, usage) \<Rightarrow>
               let m = model_of model;
                   t1 = t\<lparr>to_output_modality := Some ''text'', to_response_model := m\<rparr>;
                   reasons1 = add_reason (m = None \<or> m \<noteq> to_request_model t) ''response_model_mismatch'' reasons
               in case usage of J_obj u \<Rightarrow> (tk_usage u t1 reasons1, True) | _ \<Rightarrow> ((t1, reasons1), False))"

definition observe_tokens_response ::
  "native_env \<Rightarrow> token_observation \<Rightarrow> string \<Rightarrow> bool \<Rightarrow> bool \<Rightarrow> int \<Rightarrow> py_error + token_observation" where
  "observe_tokens_response env request raw streaming ended status =
     (let ok = ended \<and> status = 200;
          reasons = add_reason (\<not> ok) ''response_incomplete'' (removeAll ''response_unavailable'' (to_token_reason_codes request))
      in case tk_response env raw streaming (request\<lparr>to_response_complete := ok\<rparr>) reasons of
           ((t, rs), read) \<Rightarrow>
             let t' = (if read then t else t\<lparr>to_response_complete := False, to_output_modality := None\<rparr>);
                 rs' = sorted_keys (add_reason (\<not> read) ''response_invalid'' rs)
             in RequestTokenObservation (t'\<lparr>to_token_usage_complete := (rs' = []), to_token_reason_codes := rs'\<rparr>))"

section \<open>Sorted reasons\<close>

lemma sorted_insert_key: "sorted_wrt str_le ks \<Longrightarrow> sorted_wrt str_le (insert_key k ks)"
proof (induction ks)
  case (Cons x xs)
  then show ?case using str_le_total[of k x] str_le_trans[of k x] by auto
qed simp

lemma sorted_sorted_keys: "sorted_wrt str_le (sorted_keys ks)"
  by (induction ks) (simp_all add: sorted_keys_def sorted_insert_key)

lemma sorted_keys_id: "sorted_wrt str_le ks \<Longrightarrow> sorted_keys ks = ks"
proof (induction ks)
  case (Cons k ks)
  then have "sorted_keys (k # ks) = insert_key k ks" by (simp add: sorted_keys_def)
  also have "\<dots> = k # ks" using Cons.prems by (cases ks) auto
  finally show ?case .
qed (simp add: sorted_keys_def)

lemma distinct_insert_key: "k \<notin> set ks \<Longrightarrow> distinct ks \<Longrightarrow> distinct (insert_key k ks)"
  by (induction ks) auto

lemma distinct_sorted_keys: "distinct ks \<Longrightarrow> distinct (sorted_keys ks)"
  by (induction ks) (simp_all add: sorted_keys_def distinct_insert_key set_sorted_keys[unfolded sorted_keys_def])

lemma canonical_sorted_keys: "distinct ks \<Longrightarrow> canonical (sorted_keys ks)"
  by (simp add: canonical_def distinct_sorted_keys distinct_remdups_id sorted_keys_id sorted_sorted_keys)

lemma sorted_keys_eq_Nil [simp]: "sorted_keys ks = [] \<longleftrightarrow> ks = []"
  using set_sorted_keys[of ks] by (metis set_empty)

lemma set_add_reason [simp]: "set (add_reason b r rs) = (if b then insert r (set rs) else set rs)"
  by (simp add: add_reason_def)

lemma add_reason_eq_Nil [simp]: "add_reason b r rs = [] \<longleftrightarrow> \<not> b \<and> rs = []"
  by (auto simp: add_reason_def List.insert_def)

lemma distinct_add_reason [simp]: "distinct (add_reason b r rs) \<longleftrightarrow> distinct rs"
  by (simp add: add_reason_def)

section \<open>Workloads are valid\<close>

lemma refuse_fields [simp]:
  "rw_body_sha256 (refuse b r w) = rw_body_sha256 w" "rw_provider (refuse b r w) = rw_provider w"
  "rw_model (refuse b r w) = rw_model w" "rw_input_modality (refuse b r w) = rw_input_modality w"
  "rw_output_modality (refuse b r w) = rw_output_modality w" "rw_cache_ttl_seconds (refuse b r w) = rw_cache_ttl_seconds w"
  "rw_requested_service_tier (refuse b r w) = rw_requested_service_tier w"
  "rw_requested_region (refuse b r w) = rw_requested_region w" "rw_response_model (refuse b r w) = rw_response_model w"
  "rw_service_tier (refuse b r w) = rw_service_tier w" "rw_region (refuse b r w) = rw_region w"
  "rw_input_tokens (refuse b r w) = rw_input_tokens w" "rw_output_tokens (refuse b r w) = rw_output_tokens w"
  "rw_cache_read_tokens (refuse b r w) = rw_cache_read_tokens w" "rw_cache_write_tokens (refuse b r w) = rw_cache_write_tokens w"
  "rw_response_complete (refuse b r w) = rw_response_complete w"
  "rw_reason_codes (refuse b r w) = add_reason b r (rw_reason_codes w)"
  by (simp_all add: refuse_def)

definition wl_facts_ok :: "workload \<Rightarrow> bool" where
  "wl_facts_ok w \<longleftrightarrow>
     holds_for digest_ok (rw_body_sha256 w) \<and> one_of [''anthropic''] (rw_provider w) \<and> one_of [''text''] (rw_input_modality w) \<and>
     one_of [''text''] (rw_output_modality w) \<and> one_of [300, 3600] (rw_cache_ttl_seconds w) \<and>
     one_of [''auto'', ''standard_only''] (rw_requested_service_tier w) \<and> one_of [''global'', ''us''] (rw_requested_region w) \<and>
     one_of [''standard'', ''priority'', ''batch''] (rw_service_tier w) \<and> one_of [''global'', ''us''] (rw_region w) \<and>
     holds_for model_ok (rw_model w) \<and> holds_for model_ok (rw_response_model w) \<and>
     holds_for count_ok (rw_input_tokens w) \<and> holds_for count_ok (rw_output_tokens w) \<and>
     holds_for count_ok (rw_cache_read_tokens w) \<and> holds_for count_ok (rw_cache_write_tokens w)"

definition wl_reasons_ok :: "workload \<Rightarrow> bool" where
  "wl_reasons_ok w \<longleftrightarrow> distinct (rw_reason_codes w) \<and> set (rw_reason_codes w) \<subseteq> set WORKLOAD_REASONS"

lemma one_of_simps [simp]: "one_of xs None" "one_of xs (Some x) \<longleftrightarrow> x \<in> set xs"
  by (simp_all add: one_of_def)

lemma holds_for_simps [simp]: "holds_for P None" "holds_for P (Some x) \<longleftrightarrow> P x"
  by (simp_all add: holds_for_def)

lemma wl_reasons_update [simp]:
  "wl_reasons_ok (w\<lparr>rw_body_sha256 := v\<rparr>) = wl_reasons_ok w" "wl_reasons_ok (w\<lparr>rw_provider := v\<rparr>) = wl_reasons_ok w"
  "wl_reasons_ok (w\<lparr>rw_model := v\<rparr>) = wl_reasons_ok w" "wl_reasons_ok (w\<lparr>rw_input_modality := v\<rparr>) = wl_reasons_ok w"
  "wl_reasons_ok (w\<lparr>rw_output_modality := v\<rparr>) = wl_reasons_ok w" "wl_reasons_ok (w\<lparr>rw_cache_ttl_seconds := n\<rparr>) = wl_reasons_ok w"
  "wl_reasons_ok (w\<lparr>rw_requested_service_tier := v\<rparr>) = wl_reasons_ok w"
  "wl_reasons_ok (w\<lparr>rw_requested_region := v\<rparr>) = wl_reasons_ok w" "wl_reasons_ok (w\<lparr>rw_response_model := v\<rparr>) = wl_reasons_ok w"
  "wl_reasons_ok (w\<lparr>rw_service_tier := v\<rparr>) = wl_reasons_ok w" "wl_reasons_ok (w\<lparr>rw_region := v\<rparr>) = wl_reasons_ok w"
  "wl_reasons_ok (w\<lparr>rw_input_tokens := n\<rparr>) = wl_reasons_ok w" "wl_reasons_ok (w\<lparr>rw_output_tokens := n\<rparr>) = wl_reasons_ok w"
  "wl_reasons_ok (w\<lparr>rw_cache_read_tokens := n\<rparr>) = wl_reasons_ok w" "wl_reasons_ok (w\<lparr>rw_cache_write_tokens := n\<rparr>) = wl_reasons_ok w"
  "wl_reasons_ok (w\<lparr>rw_response_complete := c\<rparr>) = wl_reasons_ok w"
  by (simp_all add: wl_reasons_ok_def)

lemma workload_made:
  assumes "wl_facts_ok w" "wl_reasons_ok w" "rw_reason_codes w = [] \<Longrightarrow> usable_workload w"
  shows "RequestWorkload (w\<lparr>rw_reason_codes := sorted_keys (rw_reason_codes w)\<rparr>) =
    Inr (w\<lparr>rw_reason_codes := sorted_keys (rw_reason_codes w)\<rparr>)"
proof -
  have "\<forall>r \<in> set (rw_reason_codes w). r \<in> set WORKLOAD_REASONS" "canonical (sorted_keys (rw_reason_codes w))"
    using assms(2) by (auto simp: wl_reasons_ok_def canonical_sorted_keys)
  moreover have "usable_workload (w\<lparr>rw_reason_codes := rs\<rparr>) \<longleftrightarrow> usable_workload w" for rs
    by (simp add: usable_workload_def)
  ultimately show ?thesis using assms
    by (simp add: RequestWorkload_def check_workload_def wl_facts_ok_def list_all_iff)
qed

lemma wl_reasons_refuse [simp]:
  "r \<in> set WORKLOAD_REASONS \<Longrightarrow> wl_reasons_ok (refuse b r w) \<longleftrightarrow> wl_reasons_ok w"
  by (auto simp: wl_reasons_ok_def)

lemma wl_facts_refuse [simp]: "wl_facts_ok (refuse b r w) \<longleftrightarrow> wl_facts_ok w"
  by (simp add: wl_facts_ok_def)

lemma known_reasons [simp]:
  "''request_invalid'' \<in> set WORKLOAD_REASONS" "''route_unsupported'' \<in> set WORKLOAD_REASONS"
  "''headers_unsupported'' \<in> set WORKLOAD_REASONS" "''model_unavailable'' \<in> set WORKLOAD_REASONS"
  "''request_feature_unsupported'' \<in> set WORKLOAD_REASONS" "''input_modality_unsupported'' \<in> set WORKLOAD_REASONS"
  "''cache_ttl_unavailable'' \<in> set WORKLOAD_REASONS" "''cache_ttl_mixed'' \<in> set WORKLOAD_REASONS"
  "''response_invalid'' \<in> set WORKLOAD_REASONS" "''response_incomplete'' \<in> set WORKLOAD_REASONS"
  "''response_model_mismatch'' \<in> set WORKLOAD_REASONS" "''usage_unavailable'' \<in> set WORKLOAD_REASONS"
  "''service_tier_unavailable'' \<in> set WORKLOAD_REASONS" "''region_unavailable'' \<in> set WORKLOAD_REASONS"
  "''service_tier_mismatch'' \<in> set WORKLOAD_REASONS" "''region_mismatch'' \<in> set WORKLOAD_REASONS"
  "''cache_usage_mismatch'' \<in> set WORKLOAD_REASONS" "''response_feature_unsupported'' \<in> set WORKLOAD_REASONS"
  by (simp_all add: WORKLOAD_REASONS_def)

text \<open>Only the two cache lifetimes are ever met.\<close>

definition lifetimes_ok :: "int list \<Rightarrow> bool" where
  "lifetimes_ok t \<longleftrightarrow> set t \<subseteq> {300, 3600}"

lemma wl_cache_lifetimes: "wl_cache v t = Inr t' \<Longrightarrow> lifetimes_ok t \<Longrightarrow> lifetimes_ok t'"
  by (auto simp: wl_cache_def lifetimes_ok_def ebind_eq_Inr split: json.splits if_splits)

lemma optional_cache_lifetimes: "optional_cache d t = Inr t' \<Longrightarrow> lifetimes_ok t \<Longrightarrow> lifetimes_ok t'"
  by (auto simp: optional_cache_def wl_cache_lifetimes split: option.splits)

lemma all_true_keeps:
  assumes "all_true f xs s = Inr (ok, s')" "P s" "\<And>x s ok s'. f x s = Inr (ok, s') \<Longrightarrow> P s \<Longrightarrow> P s'"
  shows "P s'"
  using assms(1,2)
proof (induction xs arbitrary: s)
  case (Cons x xs)
  then obtain ok1 s1 where "f x s = Inr (ok1, s1)" "if ok1 then all_true f xs s1 = Inr (ok, s') else s1 = s'"
    by (auto simp: ebind_eq_Inr split: if_splits)
  then show ?case using Cons assms(3) by (auto split: if_splits)
qed simp

lemma wl_block_lifetimes:
  assumes "wl_block inner b t = Inr (ok, t')" "lifetimes_ok t" "\<And>v t ok t'. inner v t = Inr (ok, t') \<Longrightarrow> lifetimes_ok t \<Longrightarrow> lifetimes_ok t'"
  shows "lifetimes_ok t'"
  using assms optional_cache_lifetimes
  by (auto simp: wl_block_def Let_def ebind_eq_Inr split: json.splits if_splits)

lemma wl_blocks_lifetimes: "wl_blocks n v t = Inr (ok, t') \<Longrightarrow> lifetimes_ok t \<Longrightarrow> lifetimes_ok t'"
proof (induction n arbitrary: v t ok t')
  case (Suc n)
  then show ?case
    using all_true_keeps[where P = lifetimes_ok and f = "wl_block (wl_blocks n)"] wl_block_lifetimes[OF _ _ Suc.IH]
    by (auto split: json.splits)
qed simp

lemma wl_message_lifetimes: "wl_message m t = Inr (ok, t') \<Longrightarrow> lifetimes_ok t \<Longrightarrow> lifetimes_ok t'"
  by (auto simp: wl_message_def content_ok_def wl_blocks_lifetimes split: json.splits if_splits)

lemma wl_messages_lifetimes: "wl_messages d = Inr (ok, t) \<Longrightarrow> lifetimes_ok t"
  using all_true_keeps[where P = lifetimes_ok and f = wl_message, OF _ _ wl_message_lifetimes]
  by (auto simp: wl_messages_def lifetimes_ok_def split: json.splits if_splits)

lemma wl_text_lifetimes:
  assumes "wl_text d = Inr (ok, t)"
  shows "lifetimes_ok t"
proof -
  obtain ok1 t1 where m: "wl_messages d = Inr (ok1, t1)" using assms by (cases "wl_messages d") (auto simp: wl_text_def)
  then have t1: "lifetimes_ok t1" by (rule wl_messages_lifetimes)
  show ?thesis
  proof (cases "map_of d ''system''")
    case None
    then show ?thesis using assms m t1 by (simp add: wl_text_def)
  next
    case (Some sys)
    then obtain r where "content_ok sys t1 = Inr r" "snd r = t"
      using assms m by (cases "content_ok sys t1") (auto simp: wl_text_def)
    then show ?thesis using t1 wl_blocks_lifetimes[of 9 sys t1 "fst r" t] by (simp add: content_ok_def prod_eq_iff)
  qed
qed

lemma tools_loop_keeps:
  "tools_loop ts w t = ((w', t'), ok) \<Longrightarrow> lifetimes_ok t \<Longrightarrow>
     lifetimes_ok t' \<and> (\<exists>b. w' = refuse b ''request_feature_unsupported'' w)"
proof (induction ts arbitrary: w t)
  case Nil
  then show ?case by (auto intro: exI[of _ False] simp: refuse_def add_reason_def)
next
  case (Cons tool ts)
  have twice: "refuse b r (refuse True r w) = refuse True r w" for b r and w :: workload
    by (simp add: refuse_def add_reason_def)
  have again: "tools_loop ts (refuse True ''request_feature_unsupported'' w) t = ((w', t'), ok) \<Longrightarrow> ?case"
    using Cons.IH[OF _ Cons.prems(2)] twice by metis
  show ?case
  proof (cases "\<exists>d. tool = J_obj d \<and> map_of d ''type'' \<in> {None, Some (J_str ''custom'')}")
    case True
    then obtain d where d: "tool = J_obj d" "map_of d ''type'' \<in> {None, Some (J_str ''custom'')}" by blast
    show ?thesis
    proof (cases "optional_cache d t")
      case (Inl e)
      then have "tools_loop (tool # ts) w t = ((w, t), False)" using d by auto
      then have "w' = w" "t' = t" using Cons.prems(1) by simp_all
      then show ?thesis using Cons.prems(2) by (intro conjI exI[of _ False]) (simp_all add: refuse_def add_reason_def)
    next
      case (Inr t1)
      then have "tools_loop (tool # ts) w t = tools_loop ts w t1" using d by auto
      then have "tools_loop ts w t1 = ((w', t'), ok)" using Cons.prems(1) by simp
      then show ?thesis using Cons.IH optional_cache_lifetimes[OF Inr Cons.prems(2)] by blast
    qed
  next
    case False
    then have "tools_loop (tool # ts) w t = tools_loop ts (refuse True ''request_feature_unsupported'' w) t"
      by (cases tool) simp_all
    then show ?thesis using Cons.prems(1) again by simp
  qed
qed

lemma model_of_Some: "model_of v = Some s \<longleftrightarrow> v = J_str s \<and> model_ok s"
  by (cases v) auto

lemma count_of_Some: "count_of v = Some n \<longleftrightarrow> v = J_int n \<and> count_ok n"
  by (cases v) auto

lemma holds_for_model [simp]: "holds_for model_ok (model_of v)"
  by (cases "model_of v") (simp_all add: holds_for_def model_of_Some)

lemma lifetime_ok:
  assumes "lifetimes_ok t" "wl_facts_ok w" "wl_reasons_ok w"
  shows "wl_facts_ok (lifetime t w)" "wl_reasons_ok (lifetime t w)"
  using assms
  by (auto simp: lifetime_def lifetimes_ok_def wl_facts_ok_def wl_reasons_ok_def one_of_def split: list.splits)

lemma modality_ok:
  assumes "wl_facts_ok w" "wl_reasons_ok w"
  shows "wl_facts_ok (modality b w)" "wl_reasons_ok (modality b w)"
  using assms by (auto simp: modality_def wl_facts_ok_def wl_reasons_ok_def one_of_def)

text \<open>
  What a step does with a workload: it stays well formed, loses no reason, keeps the digest and, if
  it does not raise, decides on what it is about.
\<close>

definition step_ok :: "(workload \<Rightarrow> bool) \<Rightarrow> (workload \<Rightarrow> workload \<times> bool) \<Rightarrow> bool" where
  "step_ok settled f \<longleftrightarrow> (\<forall>w w' ok. f w = (w', ok) \<longrightarrow> wl_facts_ok w \<longrightarrow> wl_reasons_ok w \<longrightarrow>
     wl_facts_ok w' \<and> wl_reasons_ok w' \<and> set (rw_reason_codes w) \<subseteq> set (rw_reason_codes w') \<and>
     rw_body_sha256 w' = rw_body_sha256 w \<and> (ok \<longrightarrow> settled w'))"

lemma step_okD:
  assumes "step_ok settled f" "f w = (w', ok)" "wl_facts_ok w" "wl_reasons_ok w"
  shows "wl_facts_ok w'" "wl_reasons_ok w'" "set (rw_reason_codes w) \<subseteq> set (rw_reason_codes w')"
    "rw_body_sha256 w' = rw_body_sha256 w" "ok \<Longrightarrow> settled w'"
  using assms unfolding step_ok_def by metis+

lemma try_steps_ok:
  assumes "list_all (step_ok (\<lambda>w. True)) fs"
  shows "step_ok (\<lambda>w. True) (try_steps fs)"
  using assms
proof (induction fs)
  case Nil
  then show ?case by (simp add: step_ok_def)
next
  case (Cons f fs)
  show ?case unfolding step_ok_def
  proof (intro allI impI)
    fix w w' ok assume *: "try_steps (f # fs) w = (w', ok)" "wl_facts_ok w" "wl_reasons_ok w"
    obtain w1 ok1 where f: "f w = (w1, ok1)" by fastforce
    have "step_ok (\<lambda>w. True) f" using Cons.prems by simp
    note one = step_okD[OF this f *(2,3)]
    show "wl_facts_ok w' \<and> wl_reasons_ok w' \<and> set (rw_reason_codes w) \<subseteq> set (rw_reason_codes w') \<and>
        rw_body_sha256 w' = rw_body_sha256 w \<and> (ok \<longrightarrow> True)"
    proof (cases ok1)
      case True
      then have "try_steps fs w1 = (w', ok)" using * f by simp
      moreover have "step_ok (\<lambda>w. True) (try_steps fs)" using Cons by simp
      ultimately show ?thesis using step_okD[of "\<lambda>w. True" "try_steps fs" w1 w' ok] one by simp
    next
      case False
      then show ?thesis using * f one by simp
    qed
  qed
qed

lemma step_ok_weaken: "step_ok P f \<Longrightarrow> step_ok (\<lambda>w. True) f"
  unfolding step_ok_def by blast

lemma route_step_ok: "step_ok (\<lambda>w. rw_provider w = None \<longrightarrow> ''route_unsupported'' \<in> set (rw_reason_codes w)) (route_step url)"
  unfolding step_ok_def
proof (intro allI impI)
  fix w w' ok assume "route_step url w = (w', ok)" "wl_facts_ok w" "wl_reasons_ok w"
  then show "wl_facts_ok w' \<and> wl_reasons_ok w' \<and> set (rw_reason_codes w) \<subseteq> set (rw_reason_codes w') \<and>
      rw_body_sha256 w' = rw_body_sha256 w \<and> (ok \<longrightarrow> rw_provider w' = None \<longrightarrow> ''route_unsupported'' \<in> set (rw_reason_codes w'))"
    by (cases "native_route url" rule: sum.exhaust; cases "projr (native_route url)")
      (auto simp: route_step_def wl_facts_ok_def)
qed

lemma headers_step_ok: "step_ok (\<lambda>w. True) (headers_step hs)"
  unfolding step_ok_def headers_step_def Let_def by simp blast

lemma model_step_ok: "step_ok (\<lambda>w. rw_model w = None \<longrightarrow> ''model_unavailable'' \<in> set (rw_reason_codes w)) (model_step d)"
  unfolding step_ok_def
proof (intro allI impI)
  fix w w' ok assume *: "model_step d w = (w', ok)" "wl_facts_ok w" "wl_reasons_ok w"
  have "wl_facts_ok (w\<lparr>rw_model := model_of v\<rparr>)" for v using *(2) by (simp add: wl_facts_ok_def)
  then show "wl_facts_ok w' \<and> wl_reasons_ok w' \<and> set (rw_reason_codes w) \<subseteq> set (rw_reason_codes w') \<and>
      rw_body_sha256 w' = rw_body_sha256 w \<and> (ok \<longrightarrow> rw_model w' = None \<longrightarrow> ''model_unavailable'' \<in> set (rw_reason_codes w'))"
    using * unfolding model_step_def Let_def by auto
qed

lemma selector_known: "selector d k values = (v, ok) \<Longrightarrow> one_of values v"
  by (auto simp: selector_def split: option.splits json.splits if_splits)

lemma selectors_step_ok: "step_ok (\<lambda>w. True) (selectors_step d)"
  unfolding step_ok_def
proof (intro allI impI)
  fix w w' ok assume *: "selectors_step d w = (w', ok)" "wl_facts_ok w" "wl_reasons_ok w"
  obtain tier ok1 region ok2 where s: "selector d ''service_tier'' [''auto'', ''standard_only''] = (tier, ok1)"
      "selector d ''inference_geo'' [''global'', ''us''] = (region, ok2)" by (metis prod.exhaust)
  have "wl_facts_ok (w\<lparr>rw_requested_service_tier := tier, rw_requested_region := region\<rparr>)"
    using *(2) s[THEN selector_known] by (simp add: wl_facts_ok_def)
  moreover have "w' = refuse (\<not> ok2) ''request_feature_unsupported'' (refuse (\<not> ok1) ''request_feature_unsupported''
      (w\<lparr>rw_requested_service_tier := tier, rw_requested_region := region\<rparr>))"
    using *(1) by (simp add: selectors_step_def s)
  ultimately show "wl_facts_ok w' \<and> wl_reasons_ok w' \<and> set (rw_reason_codes w) \<subseteq> set (rw_reason_codes w') \<and>
      rw_body_sha256 w' = rw_body_sha256 w \<and> (ok \<longrightarrow> True)"
    using *(3) by auto
qed

lemma content_step_shape:
  assumes "content_step d w = (w', ok)"
  shows "(\<exists>b. \<not> ok \<and> w' = refuse b ''request_feature_unsupported'' w) \<or>
    (\<exists>b t text_only. ok \<and> lifetimes_ok t \<and> w' = lifetime t (modality text_only (refuse b ''request_feature_unsupported'' w)))"
proof -
  have same: "w = refuse False ''request_feature_unsupported'' w" by (simp add: refuse_def add_reason_def)
  show ?thesis
  proof (cases "ebind (wl_text d) (\<lambda>r. ebind (iter_items (case map_of d ''tools'' of None \<Rightarrow> J_list [] | Some t \<Rightarrow> t)) (\<lambda>tools. Inr (r, tools)))")
    case (Inl e)
    then show ?thesis using assms same unfolding content_step_def by auto
  next
    case (Inr r)
    obtain text_only t tools where r: "r = ((text_only, t), tools)" by (metis prod.exhaust)
    have t: "lifetimes_ok t" using Inr wl_text_lifetimes by (auto simp: r ebind_eq_Inr)
    obtain w1 t1 ok1 where l: "tools_loop tools w t = ((w1, t1), ok1)" by (metis prod.exhaust)
    obtain b where t1: "lifetimes_ok t1" "w1 = refuse b ''request_feature_unsupported'' w" using tools_loop_keeps[OF l t] by blast
    have step: "content_step d w = (if \<not> ok1 then (w1, False) else (case optional_cache d t1 of Inl e \<Rightarrow> (w1, False)
        | Inr t'' \<Rightarrow> (lifetime t'' (modality text_only w1), True)))"
      using Inr r l unfolding content_step_def by simp
    show ?thesis
    proof (cases "optional_cache d t1")
      case (Inl e)
      then have "(w', ok) = (w1, False)" using assms unfolding step by (cases ok1) simp_all
      then show ?thesis using t1(2) by blast
    next
      case (Inr t2)
      then have "(w', ok) = (if ok1 then (lifetime t2 (modality text_only w1), True) else (w1, False))"
        using assms unfolding step by (cases ok1) simp_all
      then show ?thesis using t1(2) optional_cache_lifetimes[OF Inr t1(1)] by (cases ok1) auto
    qed
  qed
qed

lemma set_codes_lifetime: "set (rw_reason_codes w) \<subseteq> set (rw_reason_codes (lifetime t (modality b w)))"
  by (auto simp: lifetime_def modality_def split: list.splits)

lemma lifetime_fields [simp]:
  "rw_body_sha256 (lifetime t w) = rw_body_sha256 w" "rw_provider (lifetime t w) = rw_provider w" "rw_model (lifetime t w) = rw_model w"
  "rw_input_modality (lifetime t w) = rw_input_modality w" "rw_output_modality (lifetime t w) = rw_output_modality w"
  "rw_body_sha256 (modality b w) = rw_body_sha256 w" "rw_provider (modality b w) = rw_provider w" "rw_model (modality b w) = rw_model w"
  by (simp_all add: lifetime_def modality_def split: list.splits)

lemma content_step_ok: "step_ok (\<lambda>w. True) (content_step d)"
  unfolding step_ok_def
proof (intro allI impI)
  fix w w' ok assume *: "content_step d w = (w', ok)" "wl_facts_ok w" "wl_reasons_ok w"
  have "wl_facts_ok w' \<and> wl_reasons_ok w' \<and> set (rw_reason_codes w) \<subseteq> set (rw_reason_codes w') \<and> rw_body_sha256 w' = rw_body_sha256 w"
    using content_step_shape[OF *(1)]
  proof (elim disjE exE conjE)
    fix b assume "w' = refuse b ''request_feature_unsupported'' w"
    then show ?thesis using *(2,3) by auto
  next
    fix b t text_only assume t: "lifetimes_ok t" "w' = lifetime t (modality text_only (refuse b ''request_feature_unsupported'' w))"
    have "set (rw_reason_codes w) \<subseteq> set (rw_reason_codes (refuse b ''request_feature_unsupported'' w))" by auto
    then show ?thesis using * t lifetime_ok[OF t(1)] modality_ok set_codes_lifetime[of "refuse b ''request_feature_unsupported'' w" t text_only]
      by (auto simp del: refuse_fields(17))
  qed
  then show "wl_facts_ok w' \<and> wl_reasons_ok w' \<and> set (rw_reason_codes w) \<subseteq> set (rw_reason_codes w') \<and>
      rw_body_sha256 w' = rw_body_sha256 w \<and> (ok \<longrightarrow> True)" by simp
qed

lemma document_step_ok: "step_ok (\<lambda>w. True) (document_step env b)"
proof -
  have doc: "step_ok (\<lambda>w. True) (try_steps [model_step d, selectors_step d, content_step d])" for d
    by (rule try_steps_ok) (simp add: step_ok_weaken[OF model_step_ok] selectors_step_ok content_step_ok)
  have same: "step_ok (\<lambda>w. True) (\<lambda>w. (w, False))" by (simp add: step_ok_def)
  show ?thesis
  proof (cases "\<exists>d. strict_json (ne_pairs_bytes env) b = Inr (J_obj d)")
    case True
    then obtain d where "strict_json (ne_pairs_bytes env) b = Inr (J_obj d)" by blast
    then have "document_step env b = try_steps [model_step d, selectors_step d, content_step d]"
      by (simp add: document_step_def fun_eq_iff)
    then show ?thesis using doc by simp
  next
    case False
    then have "document_step env b = (\<lambda>w. (w, False))"
      by (auto simp: document_step_def fun_eq_iff split: sum.splits json.splits)
    then show ?thesis using same by simp
  qed
qed

text \<open>A request with no refusal of its own has every fact the response needs.\<close>

definition wl_ready :: "workload \<Rightarrow> bool" where
  "wl_ready w \<longleftrightarrow> rw_body_sha256 w \<noteq> None \<and> rw_provider w \<noteq> None \<and> rw_model w \<noteq> None \<and> rw_input_modality w \<noteq> None \<and>
     rw_output_modality w \<noteq> None \<and> rw_cache_ttl_seconds w \<noteq> None"

lemma document_ready:
  assumes "document_step env b w = (w', True)" "set (rw_reason_codes w') \<subseteq> {''response_unavailable''}"
  shows "rw_model w' \<noteq> None \<and> rw_input_modality w' \<noteq> None \<and> rw_output_modality w' \<noteq> None \<and> rw_cache_ttl_seconds w' \<noteq> None \<and>
    rw_provider w' = rw_provider w"
proof -
  obtain d where d: "try_steps [model_step d, selectors_step d, content_step d] w = (w', True)"
    using assms(1) by (auto simp: document_step_def split: sum.splits json.splits)
  obtain w1 where w1: "model_step d w = (w1, True)" by (simp add: model_step_def Let_def)
  obtain w2 where w2: "selectors_step d w1 = (w2, True)"
    by (cases "selector d ''service_tier'' [''auto'', ''standard_only'']"; cases "selector d ''inference_geo'' [''global'', ''us'']")
      (simp add: selectors_step_def)
  have w3: "content_step d w2 = (w', True)" using d w1 w2 by (simp split: prod.splits if_splits)
  obtain c t text_only where t: "lifetimes_ok t" "w' = lifetime t (modality text_only (refuse c ''request_feature_unsupported'' w2))"
    using content_step_shape[OF w3] by auto
  let ?w2 = "refuse c ''request_feature_unsupported'' w2"
  have m: "rw_model w1 = None \<longrightarrow> ''model_unavailable'' \<in> set (rw_reason_codes w1)" "rw_provider w1 = rw_provider w"
    using w1 by (auto simp: model_step_def Let_def)
  have s: "rw_model w2 = rw_model w1" "rw_provider w2 = rw_provider w1" "set (rw_reason_codes w1) \<subseteq> set (rw_reason_codes w2)"
    using w2 by (auto simp: selectors_step_def split: prod.splits)
  have "set (rw_reason_codes w2) \<subseteq> set (rw_reason_codes ?w2)" by auto
  also have "\<dots> \<subseteq> set (rw_reason_codes w')" unfolding t(2) by (rule set_codes_lifetime)
  also note assms(2)
  finally have sub: "set (rw_reason_codes w2) \<subseteq> {''response_unavailable''}" .
  have "rw_model w2 \<noteq> None" using m s sub by auto
  moreover have "text_only" using assms(2) t(2) by (auto simp: modality_def lifetime_def split: list.splits if_splits)
  moreover have "\<exists>x. t = [x]" using assms(2) t(2) by (auto simp: lifetime_def split: list.splits)
  ultimately show ?thesis using t(2) m(2) s(2) by (auto simp: modality_def lifetime_def)
qed

lemma observed_workload:
  assumes "\<And>s. digest_ok (ne_sha256 env s)"
  shows "\<exists>w. observe_workload env body url hs = Inr w \<and> wl_facts_ok w \<and> wl_reasons_ok w \<and>
    ''response_unavailable'' \<in> set (rw_reason_codes w) \<and> (set (rw_reason_codes w) \<subseteq> {''response_unavailable''} \<longrightarrow> wl_ready w)"
proof -
  let ?un = "no_workload\<lparr>rw_reason_codes := [''request_unavailable'', ''response_unavailable'']\<rparr>"
  have facts: "wl_facts_ok (no_workload\<lparr>rw_reason_codes := rs\<rparr>)" "wl_facts_ok (no_workload\<lparr>rw_body_sha256 := Some (ne_sha256 env b)\<rparr>)" for rs b
    using assms by (simp_all add: wl_facts_ok_def no_workload_def)
  have un: "RequestWorkload ?un = Inr ?un" "wl_reasons_ok ?un"
    using workload_made[of ?un] facts(1) by (simp_all add: wl_reasons_ok_def WORKLOAD_REASONS_def sorted_keys_def code_def)
  show ?thesis
  proof (cases "\<exists>b. body = Some b \<and> b \<noteq> [] \<and> \<not> MAX_BYTES < int (length b)")
    case False
    then have "observe_workload env body url hs = Inr ?un" by (auto simp: observe_workload_def un(1) split: option.splits)
    then show ?thesis using facts un(2) by (simp add: wl_ready_def)
  next
    case True
    then obtain b where b: "body = Some b" "b \<noteq> []" "\<not> MAX_BYTES < int (length b)" by blast
    let ?init = "no_workload\<lparr>rw_body_sha256 := Some (ne_sha256 env b)\<rparr>"
    let ?steps = "[route_step url, headers_step hs, document_step env b]"
    obtain w ok where w: "try_steps ?steps ?init = (w, ok)" by fastforce
    have all: "step_ok (\<lambda>w. True) (try_steps ?steps)"
      by (rule try_steps_ok) (simp add: step_ok_weaken[OF route_step_ok] headers_step_ok document_step_ok)
    have "wl_reasons_ok ?init" by (simp add: wl_reasons_ok_def no_workload_def WORKLOAD_REASONS_def)
    note fin = step_okD[OF all w facts(2) this]
    let ?w = "refuse (\<not> ok) ''request_invalid'' w"
    let ?r = "?w\<lparr>rw_reason_codes := sorted_keys (rw_reason_codes ?w)\<rparr>"
    have unav: "''response_unavailable'' \<in> set (rw_reason_codes w)" using fin(3) by (simp add: no_workload_def)
    then have some: "rw_reason_codes ?w \<noteq> []" by auto
    have "RequestWorkload ?r = Inr ?r" by (rule workload_made) (use fin(1,2) some in simp_all)
    then have obs: "observe_workload env body url hs = Inr ?r" using b w by (simp add: observe_workload_def Let_def)
    have ready: "wl_ready ?r" if "set (rw_reason_codes ?r) \<subseteq> {''response_unavailable''}"
    proof -
      have ok and sub: "set (rw_reason_codes w) \<subseteq> {''response_unavailable''}" using that by (auto split: if_splits)
      obtain w1 where w1: "route_step url ?init = (w1, True)" using w \<open>ok\<close> by (auto split: prod.splits if_splits)
      obtain w2 where w2: "headers_step hs w1 = (w2, True)" "rw_provider w2 = rw_provider w1"
          "set (rw_reason_codes w1) \<subseteq> set (rw_reason_codes w2)"
        unfolding headers_step_def Let_def by (auto simp: subset_insertI)
      have w3: "document_step env b w2 = (w, True)" using w w1 w2 \<open>ok\<close> by (simp split: prod.splits if_splits)
      have d: "set (rw_reason_codes w2) \<subseteq> set (rw_reason_codes w)"
        using w3 step_okD(3)[OF document_step_ok w3] step_okD(1,2)[OF headers_step_ok w2(1)]
          step_okD(1,2)[OF route_step_ok w1 facts(2) \<open>wl_reasons_ok ?init\<close>] by blast
      have "rw_provider w1 \<noteq> None"
        using step_okD(5)[OF route_step_ok w1 facts(2) \<open>wl_reasons_ok ?init\<close>] w2(3) d sub by auto
      then show ?thesis using document_ready[OF w3 sub] fin(4) w2(2) by (simp add: wl_ready_def)
    qed
    have "wl_facts_ok ?r" "wl_reasons_ok ?r" using fin(1,2)
      by (auto simp: wl_facts_ok_def wl_reasons_ok_def distinct_sorted_keys)
    moreover have "''response_unavailable'' \<in> set (rw_reason_codes ?r)" using unav by simp
    ultimately show ?thesis using obs ready by blast
  qed
qed

lemma wl_tier_ok:
  assumes "wl_facts_ok w" "wl_reasons_ok w"
  shows "wl_facts_ok (wl_tier u w)" "wl_reasons_ok (wl_tier u w)"
  using assms by (auto simp: wl_tier_def Let_def wl_facts_ok_def split: json.splits option.splits if_splits)

lemma wl_tier_fields [simp]:
  "rw_body_sha256 (wl_tier u w) = rw_body_sha256 w" "rw_provider (wl_tier u w) = rw_provider w" "rw_model (wl_tier u w) = rw_model w"
  "rw_input_modality (wl_tier u w) = rw_input_modality w" "rw_output_modality (wl_tier u w) = rw_output_modality w"
  "rw_cache_ttl_seconds (wl_tier u w) = rw_cache_ttl_seconds w" "rw_response_model (wl_tier u w) = rw_response_model w"
  "rw_response_complete (wl_tier u w) = rw_response_complete w"
  "rw_requested_service_tier (wl_tier u w) = rw_requested_service_tier w" "rw_requested_region (wl_tier u w) = rw_requested_region w"
  by (simp_all add: wl_tier_def Let_def)

lemma usage_counts_ok: "usage_counts u = Some (i, out, r, wr) \<Longrightarrow> count_ok i \<and> count_ok out \<and> count_ok r \<and> count_ok wr"
  by (auto simp: usage_counts_def count_of_Some split: option.splits)

lemma wl_counts_ok:
  assumes "wl_facts_ok w" "wl_reasons_ok w"
  shows "wl_facts_ok (wl_counts u w)" "wl_reasons_ok (wl_counts u w)"
proof -
  have "wl_facts_ok (w\<lparr>rw_input_tokens := Some (i + r + wr), rw_output_tokens := Some out, rw_cache_read_tokens := Some r,
      rw_cache_write_tokens := Some wr\<rparr>)" if "usage_counts u = Some (i, out, r, wr)" "count_ok (i + r + wr)" for i out r wr
    using assms(1) that usage_counts_ok[OF that(1)] by (simp add: wl_facts_ok_def)
  then show "wl_facts_ok (wl_counts u w)" using assms by (auto simp: wl_counts_def Let_def split: option.splits)
  show "wl_reasons_ok (wl_counts u w)" using assms(2) by (auto simp: wl_counts_def Let_def split: option.splits)
qed

lemma wl_counts_fields [simp]:
  "rw_body_sha256 (wl_counts u w) = rw_body_sha256 w" "rw_provider (wl_counts u w) = rw_provider w" "rw_model (wl_counts u w) = rw_model w"
  "rw_input_modality (wl_counts u w) = rw_input_modality w" "rw_output_modality (wl_counts u w) = rw_output_modality w"
  "rw_cache_ttl_seconds (wl_counts u w) = rw_cache_ttl_seconds w" "rw_response_model (wl_counts u w) = rw_response_model w"
  "rw_response_complete (wl_counts u w) = rw_response_complete w" "rw_service_tier (wl_counts u w) = rw_service_tier w"
  "rw_region (wl_counts u w) = rw_region w" "rw_requested_service_tier (wl_counts u w) = rw_requested_service_tier w"
  "rw_requested_region (wl_counts u w) = rw_requested_region w"
  by (simp_all add: wl_counts_def Let_def split: option.splits)

lemma codes_grow:
  "set (rw_reason_codes w) \<subseteq> set (rw_reason_codes (wl_tier u w))"
  "set (rw_reason_codes w) \<subseteq> set (rw_reason_codes (wl_counts u w))"
  "set (rw_reason_codes w) \<subseteq> set (rw_reason_codes (refuse b r w))"
proof -
  show "set (rw_reason_codes w) \<subseteq> set (rw_reason_codes (wl_tier u w))"
    unfolding wl_tier_def Let_def by (simp add: subset_insertI2)
  show "set (rw_reason_codes w) \<subseteq> set (rw_reason_codes (wl_counts u w))"
    unfolding wl_counts_def Let_def by (simp add: subset_insertI2 split: option.splits)
qed (simp add: subset_insertI2)

lemma codes_usage: "set (rw_reason_codes w) \<subseteq> set (rw_reason_codes (wl_usage u w))"
  unfolding wl_usage_def by (rule order_trans[OF codes_grow(1) order_trans[OF codes_grow(2) order_trans[OF codes_grow(3) codes_grow(3)]]])

text \<open>With no reason left, the tier, the region and the counts are those the provider reported.\<close>

definition reported :: "json_fields \<Rightarrow> workload \<Rightarrow> bool" where
  "reported u w \<longleftrightarrow>
     (\<exists>i out r wr. usage_counts u = Some (i, out, r, wr) \<and> rw_input_tokens w = Some (i + r + wr) \<and> rw_output_tokens w = Some out \<and>
        rw_cache_read_tokens w = Some r \<and> rw_cache_write_tokens w = Some wr \<and> 0 \<le> i \<and> cache_usage_ok u (rw_cache_ttl_seconds w) wr) \<and>
     set (keys u) \<subseteq> set USAGE_FIELDS"

lemma wl_usage_reported:
  assumes "set (rw_reason_codes (wl_usage u w)) = {}"
  shows "reported u (wl_usage u w)"
proof -
  have c: "set (rw_reason_codes (wl_counts u (wl_tier u w))) = {}" "set (keys u) \<subseteq> set USAGE_FIELDS"
    using assms by (auto simp: wl_usage_def split: if_splits)
  obtain i out r wr where u: "usage_counts u = Some (i, out, r, wr)"
    using c(1) by (cases "usage_counts u") (auto simp: wl_counts_def)
  then show ?thesis using c usage_counts_ok[OF u]
    by (auto simp: reported_def wl_usage_def wl_counts_def Let_def count_ok_def split: if_splits)
qed

lemma wl_tier_settled:
  assumes "set (rw_reason_codes (wl_tier u w)) = {}" "rw_requested_region w \<noteq> Some []"
  shows "rw_service_tier (wl_tier u w) \<noteq> None \<and> rw_region (wl_tier u w) \<noteq> None \<and>
    (rw_requested_region w = None \<or> rw_requested_region w = rw_region (wl_tier u w)) \<and>
    (rw_requested_service_tier w = Some ''standard_only'' \<longrightarrow> rw_service_tier (wl_tier u w) = Some ''standard'')"
  using assms unfolding wl_tier_def Let_def by (auto split: if_splits option.splits)

lemma wl_usage_ok:
  assumes "wl_facts_ok w" "wl_reasons_ok w"
  shows "wl_facts_ok (wl_usage u w)" "wl_reasons_ok (wl_usage u w)"
  using wl_counts_ok[OF wl_tier_ok[OF assms]] by (simp_all add: wl_usage_def)

lemma wl_usage_fields [simp]:
  "rw_body_sha256 (wl_usage u w) = rw_body_sha256 w" "rw_provider (wl_usage u w) = rw_provider w" "rw_model (wl_usage u w) = rw_model w"
  "rw_input_modality (wl_usage u w) = rw_input_modality w" "rw_output_modality (wl_usage u w) = rw_output_modality w"
  "rw_cache_ttl_seconds (wl_usage u w) = rw_cache_ttl_seconds w" "rw_response_model (wl_usage u w) = rw_response_model w"
  "rw_response_complete (wl_usage u w) = rw_response_complete w" "rw_service_tier (wl_usage u w) = rw_service_tier (wl_tier u w)"
  "rw_region (wl_usage u w) = rw_region (wl_tier u w)"
  "rw_requested_service_tier (wl_usage u w) = rw_requested_service_tier w" "rw_requested_region (wl_usage u w) = rw_requested_region w"
  by (simp_all add: wl_usage_def)

text \<open>What reading the response adds to a request's workload.\<close>

lemma wl_response_ok:
  assumes "wl_facts_ok w" "wl_reasons_ok w" "wl_response env raw streaming w = (w', read)"
  shows "wl_facts_ok w' \<and> wl_reasons_ok w' \<and> set (rw_reason_codes w) \<subseteq> set (rw_reason_codes w') \<and>
    (read \<and> rw_reason_codes w' = [] \<longrightarrow>
       (\<exists>m u. response_usage env raw streaming = Inr (J_str m, J_obj u) \<and> rw_model w = Some m \<and> rw_response_model w' = Some m \<and>
          w' = wl_usage u (w\<lparr>rw_response_model := Some m\<rparr>) \<and> rw_provider w = Some ''anthropic''))"
proof (cases "rw_provider w = Some ''anthropic''")
  case False
  then show ?thesis using assms by (simp add: wl_response_def)
next
  case True
  show ?thesis
  proof (cases "response_usage env raw streaming")
    case (Inl e)
    then show ?thesis using assms True by (simp add: wl_response_def)
  next
    case (Inr mu)
    obtain model usage where mu: "mu = (model, usage)" by fastforce
    let ?m = "model_of model"
    let ?w1 = "refuse (?m = None \<or> ?m \<noteq> rw_model w) ''response_model_mismatch'' (w\<lparr>rw_response_model := ?m\<rparr>)"
    have w': "(w', read) = (case usage of J_obj u \<Rightarrow> (wl_usage u ?w1, True) | _ \<Rightarrow> (?w1, False))"
      using assms(3) True Inr mu by (simp add: wl_response_def Let_def)
    have ok: "wl_facts_ok ?w1" "wl_reasons_ok ?w1" using assms(1,2) by (simp_all add: wl_facts_ok_def)
    have grow: "set (rw_reason_codes w) \<subseteq> set (rw_reason_codes ?w1)" by (simp add: subset_insertI)
    show ?thesis
    proof (cases "\<exists>u. usage = J_obj u")
      case False
      then have "w' = ?w1" "\<not> read" using w' by (cases usage; simp)+
      then show ?thesis using ok grow by blast
    next
      case u: True
      then obtain u where u: "usage = J_obj u" by blast
      have "w' = wl_usage u ?w1" using w' u by simp
      have "(\<exists>m u. response_usage env raw streaming = Inr (J_str m, J_obj u) \<and> rw_model w = Some m \<and> rw_response_model w' = Some m \<and>
          w' = wl_usage u (w\<lparr>rw_response_model := Some m\<rparr>) \<and> rw_provider w = Some ''anthropic'')" if "rw_reason_codes w' = []"
      proof -
        have "set (rw_reason_codes ?w1) = {}" using that codes_usage[of ?w1 u] \<open>w' = wl_usage u ?w1\<close> by simp
        then obtain m where m: "?m = Some m" "rw_model w = Some m" by (cases ?m) (simp_all split: if_splits)
        then have "model = J_str m" by (simp add: model_of_Some)
        moreover have "?w1 = w\<lparr>rw_response_model := ?m\<rparr>" using m by (simp add: refuse_def add_reason_def)
        ultimately show ?thesis using \<open>w' = wl_usage u ?w1\<close> Inr mu u m True by simp
      qed
      then show ?thesis
        using wl_usage_ok[OF ok, of u] order_trans[OF grow codes_usage[of ?w1 u]] unfolding \<open>w' = wl_usage u ?w1\<close> by blast
    qed
  qed
qed

lemma observed_response:
  assumes ok: "wl_facts_ok w" "wl_reasons_ok w" and ready: "set (rw_reason_codes w) \<subseteq> {''response_unavailable''} \<Longrightarrow> wl_ready w"
  shows "\<exists>w'. observe_workload_response env w raw streaming ended status = Inr w' \<and>
    set (rw_reason_codes w) - {''response_unavailable''} \<subseteq> set (rw_reason_codes w') \<and>
    (rw_reason_codes w' = [] \<longrightarrow> usable_workload w' \<and> ended \<and> status = 200 \<and>
       (\<exists>m u. response_usage env raw streaming = Inr (J_str m, J_obj u) \<and> rw_model w' = Some m \<and> reported u w'))"
proof -
  let ?ok = "ended \<and> status = 200"
  let ?init = "refuse (\<not> ?ok) ''response_incomplete''
    (w\<lparr>rw_reason_codes := removeAll ''response_unavailable'' (rw_reason_codes w), rw_response_complete := ?ok\<rparr>)"
  obtain w1 read where w1: "wl_response env raw streaming ?init = (w1, read)" by fastforce
  have init: "wl_facts_ok ?init" "wl_reasons_ok ?init"
    using ok by (auto simp: wl_facts_ok_def wl_reasons_ok_def distinct_removeAll)
  note got = wl_response_ok[OF init w1]
  let ?w = "refuse (\<not> read) ''response_invalid'' w1"
  let ?r = "?w\<lparr>rw_reason_codes := sorted_keys (rw_reason_codes ?w)\<rparr>"
  have grow: "set (rw_reason_codes w) - {''response_unavailable''} \<subseteq> set (rw_reason_codes w1)"
    using got by (auto split: if_splits)
  have fine: "usable_workload ?w \<and> ?ok \<and> (\<exists>m u. response_usage env raw streaming = Inr (J_str m, J_obj u) \<and> rw_model ?w = Some m \<and> reported u ?w)"
    if none: "rw_reason_codes ?w = []"
  proof -
    have r: read "rw_reason_codes w1 = []" using none by simp_all
    then obtain m u where m: "response_usage env raw streaming = Inr (J_str m, J_obj u)" "rw_model ?init = Some m"
        "rw_response_model w1 = Some m" and u: "w1 = wl_usage u (?init\<lparr>rw_response_model := Some m\<rparr>)"
      using got by blast
    let ?i = "?init\<lparr>rw_response_model := Some m\<rparr>"
    have "set (rw_reason_codes ?init) = {}" using got r(2) by auto
    then have comp: ?ok "set (rw_reason_codes w) \<subseteq> {''response_unavailable''}" by (auto split: if_splits)
    then have rdy: "wl_ready w" using ready by simp
    have "set (rw_reason_codes (wl_tier u ?i)) \<subseteq> set (rw_reason_codes (wl_usage u ?i))"
      unfolding wl_usage_def by (rule order_trans[OF codes_grow(2) order_trans[OF codes_grow(3) codes_grow(3)]])
    then have t: "set (rw_reason_codes (wl_tier u ?i)) = {}" using u r(2) by simp
    have rep: "reported u w1" using wl_usage_reported[of u ?i] u r(2) by simp
    have "rw_requested_region w \<noteq> Some []" using ok(1) by (auto simp: wl_facts_ok_def)
    then have tier: "rw_service_tier w1 \<noteq> None" "rw_region w1 \<noteq> None"
        "rw_requested_region w1 = None \<or> rw_requested_region w1 = rw_region w1"
        "rw_requested_service_tier w1 = Some ''standard_only'' \<longrightarrow> rw_service_tier w1 = Some ''standard''"
      using wl_tier_settled[OF t] by (auto simp: u)
    have kept: "rw_body_sha256 w1 = rw_body_sha256 w" "rw_provider w1 = rw_provider w" "rw_model w1 = rw_model w"
        "rw_input_modality w1 = rw_input_modality w" "rw_output_modality w1 = rw_output_modality w"
        "rw_cache_ttl_seconds w1 = rw_cache_ttl_seconds w" "rw_response_complete w1 = ?ok" "rw_model w = Some m"
      using m(2) by (simp_all add: u)
    have "usable_workload w1"
      using rep tier kept rdy comp(1) m(3) unfolding usable_workload_def reported_def wl_ready_def by auto
    then show ?thesis using m(1) kept comp(1) rep r(1) by (auto simp: refuse_def add_reason_def)
  qed
  have made: "RequestWorkload ?r = Inr ?r" by (rule workload_made) (use got fine in simp_all)
  have "observe_workload_response env w raw streaming ended status = Inr ?r"
    using w1 made by (simp add: observe_workload_response_def Let_def)
  moreover have "set (rw_reason_codes w) - {''response_unavailable''} \<subseteq> set (rw_reason_codes ?r)" using grow by auto
  moreover have "usable_workload ?r \<longleftrightarrow> usable_workload ?w" "reported u ?r \<longleftrightarrow> reported u ?w" for u
    by (simp_all add: usable_workload_def reported_def)
  ultimately show ?thesis using fine by auto
qed

text \<open>
  C19.  What is recorded of a request and its response is well formed and honest.  For every body,
  address and headers, observing the request succeeds; for every response, streamed or not, complete
  or cut off, so does observing the response, whatever either contains.  No refusal of the request is
  ever withdrawn.  And a workload left without a reason is usable: its model is the one the provider
  answered with, its token counts are those in the provider's own usage, and the response was
  complete with status 200.
\<close>

theorem recorded_workload_is_honest:
  assumes "\<And>s. digest_ok (ne_sha256 env s)"
  shows "\<exists>w w'. observe_workload env body url hs = Inr w \<and> observe_workload_response env w raw streaming ended status = Inr w' \<and>
    set (rw_reason_codes w) - {''response_unavailable''} \<subseteq> set (rw_reason_codes w') \<and>
    (rw_reason_codes w' = [] \<longrightarrow> usable_workload w' \<and> ended \<and> status = 200 \<and>
       (\<exists>m u. response_usage env raw streaming = Inr (J_str m, J_obj u) \<and> rw_model w' = Some m \<and> reported u w'))"
proof -
  obtain w where w: "observe_workload env body url hs = Inr w" "wl_facts_ok w" "wl_reasons_ok w"
      "set (rw_reason_codes w) \<subseteq> {''response_unavailable''} \<Longrightarrow> wl_ready w"
    using observed_workload[OF assms] by blast
  then show ?thesis using observed_response[OF w(2-4)] by blast
qed

definition example_native :: native_env where
  "example_native = \<lparr>
     ne_pairs_bytes = (\<lambda>s. if s = ''q'' then Some (J_obj [(''model'', J_str ''claude''), (''max_tokens'', J_int 9),
         (''cache_control'', J_obj [(''type'', J_str ''ephemeral'')]),
         (''messages'', J_list [J_obj [(''role'', J_str ''user''), (''content'', J_str ''hi'')]])])
       else if s = ''r'' then Some (J_obj [(''id'', J_str ''m1''), (''type'', J_str ''message''), (''role'', J_str ''assistant''),
         (''model'', J_str ''claude''), (''content'', J_list [J_obj [(''type'', J_str ''text''), (''text'', J_str ''yo'')]]),
         (''stop_reason'', J_str ''end_turn''), (''stop_sequence'', J_null),
         (''usage'', J_obj [(''input_tokens'', J_int 3), (''output_tokens'', J_int 2), (''cache_read_input_tokens'', J_int 0),
           (''cache_creation_input_tokens'', J_int 0), (''service_tier'', J_str ''standard''), (''inference_geo'', J_str ''us'')])])
       else None),
     ne_pairs = (\<lambda>s. None), ne_decode = Some, ne_sha256 = (\<lambda>s. replicate 64 (CHR ''0'')), ne_dumps = (\<lambda>j. [])\<rparr>"

lemma example_digests: "digest_ok (ne_sha256 example_native s)"
  by (simp add: example_native_def digest_ok_def list_all_iff)

abbreviation native_url :: string where
  "native_url \<equiv> ''https://api.anthropic.com/v1/messages''"

theorem recorded_workload_is_honest_witness:
  "\<exists>w w'. observe_workload example_native (Some ''q'') (Some native_url) [(''x-api-key'', ''k'')] = Inr w \<and>
     observe_workload_response example_native w ''r'' False True 200 = Inr w' \<and> rw_reason_codes w' = [] \<and> usable_workload w'"
proof -
  obtain w w' where w: "observe_workload example_native (Some ''q'') (Some native_url) [(''x-api-key'', ''k'')] = Inr w"
      "observe_workload_response example_native w ''r'' False True 200 = Inr w'" "rw_reason_codes w' = [] \<longrightarrow> usable_workload w'"
    using recorded_workload_is_honest[OF example_digests, of "Some ''q''" "Some native_url" "[(''x-api-key'', ''k'')]" "''r''" False True 200]
    by blast
  have "(case observe_workload example_native (Some ''q'') (Some native_url) [(''x-api-key'', ''k'')] of
      Inr w \<Rightarrow> (case observe_workload_response example_native w ''r'' False True 200 of Inr w' \<Rightarrow> rw_reason_codes w' = [] | _ \<Rightarrow> False)
    | _ \<Rightarrow> False)" by code_simp
  then show ?thesis using w by auto
qed

section \<open>Token observations are valid\<close>

definition shape_ok :: "shape_facts \<Rightarrow> bool" where
  "shape_ok f \<longleftrightarrow> holds_for digest_ok (sf_body_sha256 f) \<and> one_of [''anthropic''] (sf_provider f) \<and>
     one_of [''anthropic_messages_https''] (sf_transport f) \<and> holds_for model_ok (sf_request_model f) \<and>
     one_of [''text''] (sf_input_modality f) \<and> one_of [''text''] (sf_output_modality f)"

definition shape_ready :: "shape_facts \<Rightarrow> bool" where
  "shape_ready f \<longleftrightarrow> None \<notin> {sf_body_sha256 f, sf_provider f, sf_transport f, sf_request_model f, sf_input_modality f, sf_output_modality f}"

definition reasons_ok :: "string list \<Rightarrow> bool" where
  "reasons_ok rs \<longleftrightarrow> distinct rs \<and> set rs \<subseteq> set TOKEN_REASONS"

lemma reasons_ok_add [simp]: "r \<in> set TOKEN_REASONS \<Longrightarrow> reasons_ok (add_reason b r rs) \<longleftrightarrow> reasons_ok rs"
  by (auto simp: reasons_ok_def)

lemma reasons_ok_insert [simp]: "r \<in> set TOKEN_REASONS \<Longrightarrow> reasons_ok (List.insert r rs) \<longleftrightarrow> reasons_ok rs"
  by (auto simp: reasons_ok_def)

lemma known_token_reasons [simp]:
  "''request_unavailable'' \<in> set TOKEN_REASONS" "''request_invalid'' \<in> set TOKEN_REASONS" "''route_unsupported'' \<in> set TOKEN_REASONS"
  "''headers_unsupported'' \<in> set TOKEN_REASONS" "''model_unavailable'' \<in> set TOKEN_REASONS"
  "''input_modality_unsupported'' \<in> set TOKEN_REASONS" "''request_feature_unsupported'' \<in> set TOKEN_REASONS"
  "''response_unavailable'' \<in> set TOKEN_REASONS" "''response_incomplete'' \<in> set TOKEN_REASONS" "''response_invalid'' \<in> set TOKEN_REASONS"
  "''response_model_mismatch'' \<in> set TOKEN_REASONS" "''usage_unavailable'' \<in> set TOKEN_REASONS"
  "''cache_usage_mismatch'' \<in> set TOKEN_REASONS" "''response_feature_unsupported'' \<in> set TOKEN_REASONS"
  by (simp_all add: TOKEN_REASONS_def)

lemma route_facts_ok:
  assumes "route_facts url f = (f', query, routed)" "shape_ok f"
  shows "shape_ok f'" "sf_body_sha256 f' = sf_body_sha256 f" "routed \<Longrightarrow> sf_provider f' \<noteq> None \<and> sf_transport f' \<noteq> None"
  using assms by (auto simp: route_facts_def shape_ok_def split: option.splits if_splits)

lemma document_facts_ok:
  assumes "document_facts d f reasons profile = (f', reasons', profile')" "shape_ok f" "reasons_ok reasons"
  shows "shape_ok f' \<and> reasons_ok reasons' \<and> set reasons \<subseteq> set reasons' \<and>
    (set reasons' \<subseteq> {''response_unavailable'', ''headers_unsupported''} \<longrightarrow> sf_request_model f' \<noteq> None \<and> sf_input_modality f' \<noteq> None \<and> sf_output_modality f' \<noteq> None) \<and>
    sf_body_sha256 f' = sf_body_sha256 f \<and> sf_provider f' = sf_provider f \<and> sf_transport f' = sf_transport f"
proof -
  obtain p1 ok1 where c1: "collect profile (feature_checks d) = (p1, ok1)" by fastforce
  obtain p2 ok2 where c2: "collect p1 (message_checks d) = (p2, ok2)" by fastforce
  let ?m = "model_of (get_field d ''model'')"
  have f': "f' = (if ok2 then f\<lparr>sf_request_model := ?m, sf_input_modality := Some ''text'', sf_output_modality := Some ''text''\<rparr>
      else f\<lparr>sf_request_model := ?m\<rparr>)"
    and r': "reasons' = add_reason (\<not> ok2) ''input_modality_unsupported'' (add_reason (\<not> ok1) ''request_feature_unsupported''
      (add_reason (?m = None) ''model_unavailable'' reasons))"
    using assms(1) c1 c2 by (auto simp: document_facts_def Let_def)
  have "shape_ok f'" using assms(2) by (simp add: f' shape_ok_def)
  moreover have "reasons_ok reasons'" using assms(3) by (simp add: r')
  moreover have "set reasons \<subseteq> set reasons'" by (auto simp: r')
  moreover have "?m \<noteq> None \<and> ok2" if "set reasons' \<subseteq> {''response_unavailable'', ''headers_unsupported''}" using that by (auto simp: r' split: if_splits)
  ultimately show ?thesis by (auto simp: f')
qed

lemma observe_shape_ok:
  assumes "\<And>s. digest_ok (ne_sha256 env s)" "observe_shape env body url = (f, reasons, profile)"
  shows "shape_ok f \<and> reasons_ok reasons \<and> ''response_unavailable'' \<in> set reasons \<and>
    (set reasons \<subseteq> {''response_unavailable'', ''headers_unsupported''} \<longrightarrow> shape_ready f)"
proof (cases "\<exists>b. body = Some b \<and> b \<noteq> [] \<and> \<not> MAX_BYTES < int (length b)")
  case False
  then have "f = no_facts" "reasons = List.insert ''request_unavailable'' [''response_unavailable'']"
    using assms(2) by (auto simp: observe_shape_def Let_def split: option.splits if_splits)
  then show ?thesis by (simp add: shape_ok_def no_facts_def) (simp add: reasons_ok_def TOKEN_REASONS_def)
next
  case True
  then obtain b where b: "body = Some b" "b \<noteq> []" "\<not> MAX_BYTES < int (length b)" by blast
  let ?f = "no_facts\<lparr>sf_body_sha256 := Some (ne_sha256 env b)\<rparr>"
  obtain f1 query routed where r: "route_facts url ?f = (f1, query, routed)" by (metis prod.exhaust)
  have "shape_ok ?f" using assms(1) by (simp add: shape_ok_def no_facts_def)
  note f1 = route_facts_ok[OF r this]
  let ?rs = "add_reason (\<not> routed) ''route_unsupported'' [''response_unavailable'']"
  have rs: "reasons_ok ?rs" "''response_unavailable'' \<in> set ?rs" by (simp, simp add: reasons_ok_def, simp)
  let ?doc = "ebind (strict_json (ne_pairs_bytes env) b) (\<lambda>j. case j of J_obj d \<Rightarrow> ebind (bounded j) (\<lambda>_. Inr d)
      | _ \<Rightarrow> Inl (ValueError ''request object required''))"
  have obs: "observe_shape env body url = (case ?doc of Inl e \<Rightarrow> (f1, List.insert ''request_invalid'' ?rs,
      [(''schema'', J_str ''native-text-request-shape/1'')] @ query)
    | Inr d \<Rightarrow> document_facts d f1 ?rs ([(''schema'', J_str ''native-text-request-shape/1'')] @ query))"
    using b r by (simp add: observe_shape_def Let_def)
  show ?thesis
  proof (cases ?doc)
    case (Inl e)
    then have "f = f1" "reasons = List.insert ''request_invalid'' ?rs" using assms(2) unfolding obs by simp_all
    moreover from this rs have "reasons_ok reasons" "''response_unavailable'' \<in> set reasons" "''request_invalid'' \<in> set reasons"
      by (simp_all only: reasons_ok_insert[OF known_token_reasons(2)]) simp_all
    ultimately show ?thesis using f1(1) by auto
  next
    case (Inr d)
    then have "document_facts d f1 ?rs ([(''schema'', J_str ''native-text-request-shape/1'')] @ query) = (f, reasons, profile)"
      using assms(2) unfolding obs by simp
    note doc = document_facts_ok[OF this f1(1) rs(1)]
    have routed if "set reasons \<subseteq> {''response_unavailable'', ''headers_unsupported''}"
    proof (rule ccontr)
      assume "\<not> routed"
      then have "''route_unsupported'' \<in> set reasons" using doc by auto
      then show False using that by auto
    qed
    then have "set reasons \<subseteq> {''response_unavailable'', ''headers_unsupported''} \<longrightarrow> shape_ready f"
      using doc f1(2,3) by (auto simp: shape_ready_def no_facts_def)
    moreover have "''response_unavailable'' \<in> set reasons" using doc rs(2) by blast
    ultimately show ?thesis using doc by blast
  qed
qed

definition tk_facts_ok :: "token_observation \<Rightarrow> bool" where
  "tk_facts_ok t \<longleftrightarrow> holds_for digest_ok (to_body_sha256 t) \<and> holds_for digest_ok (to_profile_sha256 t) \<and> classes_ok t \<and>
     to_feature_profile_status t = ''unclassified'' \<and> to_comparison_reason_codes t = [''feature_profile_unclassified''] \<and>
     to_billing_semantics t = ''unestablished'' \<and> provenance_ok t \<and> holds_for model_ok (to_request_model t) \<and>
     holds_for model_ok (to_response_model t) \<and> list_all (holds_for count_ok) (token_counts t) \<and> reconciles t"

lemma tokens_made:
  assumes "tk_facts_ok t" "reasons_ok rs" "c = (rs = [])" "c \<Longrightarrow> complete_facts t"
  shows "RequestTokenObservation (t\<lparr>to_token_usage_complete := c, to_token_reason_codes := sorted_keys rs\<rparr>) =
    Inr (t\<lparr>to_token_usage_complete := c, to_token_reason_codes := sorted_keys rs\<rparr>)"
proof -
  let ?t = "t\<lparr>to_token_usage_complete := c, to_token_reason_codes := sorted_keys rs\<rparr>"
  have same: "classes_ok ?t = classes_ok t" "provenance_ok ?t = provenance_ok t" "token_counts ?t = token_counts t"
      "reconciles ?t = reconciles t" "complete_facts ?t = complete_facts t"
    by (simp_all add: classes_ok_def provenance_ok_def token_counts_def reconciles_def complete_facts_def)
  have "\<forall>r \<in> set rs. r \<in> set TOKEN_REASONS" "canonical (sorted_keys rs)"
    using assms(2) by (auto simp: reasons_ok_def canonical_sorted_keys)
  then show ?thesis using assms
    unfolding RequestTokenObservation_def check_tokens_def tk_facts_ok_def same by (simp add: list_all_iff)
qed

lemma authentication_known:
  "authentication ck hs = Inr (kind, prov) \<Longrightarrow>
     kind \<in> {''api_key'', ''oauth_bearer'', ''forwarded_bearer_unclassified''} \<and> prov \<in> {''credential_router_metadata'', ''final_forwarded_headers''} \<and>
     (kind = ''oauth_bearer'' \<longrightarrow> prov = ''credential_router_metadata'') \<and>
     (kind = ''forwarded_bearer_unclassified'' \<longrightarrow> prov = ''final_forwarded_headers'')"
  by (auto simp: authentication_def Let_def ebind_eq_Inr split: if_splits)

lemma tokens_of_shape_ok: "shape_ok f \<Longrightarrow> tk_facts_ok (tokens_of_shape f)"
  by (simp add: tk_facts_ok_def tokens_of_shape_def shape_ok_def classes_ok_def provenance_ok_def token_counts_def reconciles_def)

definition tk_ready :: "token_observation \<Rightarrow> bool" where
  "tk_ready t \<longleftrightarrow> None \<notin> {to_body_sha256 t, to_provider t, to_transport t, to_authentication_kind t, to_authentication_provenance t,
     to_profile_sha256 t, to_request_model t, to_input_modality t}"

lemma observed_tokens:
  assumes "\<And>s. digest_ok (ne_sha256 env s)"
  shows "\<exists>t. observe_tokens env body url hs ck = Inr t \<and> tk_facts_ok t \<and> reasons_ok (to_token_reason_codes t) \<and>
    ''response_unavailable'' \<in> set (to_token_reason_codes t) \<and>
    (set (to_token_reason_codes t) \<subseteq> {''response_unavailable''} \<longrightarrow> tk_ready t)"
proof -
  obtain f reasons profile where sh: "observe_shape env body url = (f, reasons, profile)" by (metis prod.exhaust)
  note shape = observe_shape_ok[OF assms sh]
  let ?t = "tokens_of_shape f"
  let ?beta = "header_str (lowered_headers hs) ''anthropic-beta''"
  let ?pair = "case authentication ck hs of
                 Inl e \<Rightarrow> (?t, False)
               | Inr (kind, provenance) \<Rightarrow>
                   let t1 = ?t\<lparr>to_authentication_kind := Some kind, to_authentication_provenance := Some provenance\<rparr> in
                   if 2048 < length ?beta \<or> \<not> list_all (\<lambda>c. 32 \<le> code c \<and> code c \<le> 126) ?beta then (t1, False)
                   else (t1\<lparr>to_profile_sha256 := Some (ne_sha256 env (ne_dumps env (J_obj
                           [(''beta_sha256'', J_str (ne_sha256 env ?beta)), (''request_shape'', J_obj profile)])))\<rparr>, True)"
  obtain t ok where t: "?pair = (t, ok)" by fastforce
  let ?rs = "if ok then removeAll ''headers_unsupported'' reasons else List.insert ''headers_unsupported'' reasons"
  have facts: "tk_facts_ok t \<and> \<not> to_token_usage_complete t \<and> (ok \<and> shape_ready f \<longrightarrow> tk_ready t)"
  proof (cases "authentication ck hs")
    case (Inl e)
    then show ?thesis using t tokens_of_shape_ok shape by (auto simp: tokens_of_shape_def)
  next
    case (Inr kp)
    obtain kind prov where kp: "kp = (kind, prov)" by fastforce
    note known = authentication_known[OF Inr[unfolded kp]]
    let ?t1 = "?t\<lparr>to_authentication_kind := Some kind, to_authentication_provenance := Some prov\<rparr>"
    have base: "shape_ok f" using shape by simp
    have "tk_facts_ok ?t1" using base known
      by (simp add: tk_facts_ok_def tokens_of_shape_def shape_ok_def classes_ok_def provenance_ok_def token_counts_def reconciles_def)
    then have "tk_facts_ok (?t1\<lparr>to_profile_sha256 := Some (ne_sha256 env s)\<rparr>)" for s
      using assms by (simp add: tk_facts_ok_def classes_ok_def provenance_ok_def token_counts_def reconciles_def)
    moreover have "\<not> to_token_usage_complete ?t1" by (simp add: tokens_of_shape_def)
    ultimately show ?thesis using t \<open>tk_facts_ok ?t1\<close>
      by (auto simp: Inr kp Let_def tk_ready_def shape_ready_def tokens_of_shape_def split: if_splits)
  qed
  have rs: "reasons_ok ?rs" "''response_unavailable'' \<in> set ?rs"
    using shape by (cases ok; simp add: reasons_ok_def distinct_removeAll subset_iff)+
  have own: "ok \<and> set reasons \<subseteq> {''response_unavailable'', ''headers_unsupported''}" if "set ?rs \<subseteq> {''response_unavailable''}"
  proof (cases ok)
    case True
    then show ?thesis using that by (simp add: Diff_subset_conv insert_commute)
  next
    case False
    then have "''headers_unsupported'' \<in> set ?rs" by simp
    then show ?thesis using that by auto
  qed
  define rs' where "rs' = ?rs"
  note rs = rs[folded rs'_def] and own = own[folded rs'_def]
  let ?r = "t\<lparr>to_token_usage_complete := False, to_token_reason_codes := sorted_keys rs'\<rparr>"
  have "rs' \<noteq> []" using rs(2) by auto
  then have made: "RequestTokenObservation ?r = Inr ?r" using facts rs(1) by (intro tokens_made) simp_all
  have "t\<lparr>to_token_reason_codes := sorted_keys rs'\<rparr> = ?r" using facts by (cases t) simp
  then have obs: "observe_tokens env body url hs ck = Inr ?r"
    using made t unfolding observe_tokens_def sh by (simp add: Let_def rs'_def)
  have same: "tk_facts_ok ?r" "tk_ready ?r \<longleftrightarrow> tk_ready t"
    using facts by (simp_all add: tk_facts_ok_def classes_ok_def provenance_ok_def token_counts_def reconciles_def tk_ready_def)
  have "reasons_ok (sorted_keys rs')" using rs(1) by (simp add: reasons_ok_def distinct_sorted_keys)
  moreover have "tk_ready t" if "set rs' \<subseteq> {''response_unavailable''}" using own[OF that] facts shape by blast
  ultimately show ?thesis using obs same rs(2) by (intro exI[of _ ?r]) simp
qed

text \<open>The counts of an observation are those of a usage, and its input is their sum.\<close>

definition counts_are :: "json_fields \<Rightarrow> token_observation \<Rightarrow> bool" where
  "counts_are u t \<longleftrightarrow> (\<exists>i out r wr. usage_counts u = Some (i, out, r, wr) \<and> to_uncached_input_tokens t = Some i \<and>
     to_cache_read_tokens t = Some r \<and> to_cache_creation_tokens t = Some wr \<and> to_input_tokens t = Some (i + r + wr) \<and>
     to_output_tokens t = Some out)"

lemma tk_usage_ok:
  assumes "tk_facts_ok t" "reasons_ok reasons" "tk_usage u t reasons = (t', reasons')"
  shows "tk_facts_ok t' \<and> reasons_ok reasons' \<and> set reasons \<subseteq> set reasons' \<and> (reasons' = [] \<longrightarrow> counts_are u t') \<and>
    tk_ready t' = tk_ready t \<and> to_response_model t' = to_response_model t \<and> to_request_model t' = to_request_model t \<and>
    to_output_modality t' = to_output_modality t \<and> to_response_complete t' = to_response_complete t"
proof (cases "\<exists>i out r wr. usage_counts u = Some (i, out, r, wr) \<and> count_ok (i + r + wr)")
  case True
  then obtain i out r wr where c: "usage_counts u = Some (i, out, r, wr)" "count_ok (i + r + wr)" by blast
  let ?t = "t\<lparr>to_uncached_input_tokens := Some i, to_cache_read_tokens := Some r, to_cache_creation_tokens := Some wr,
      to_input_tokens := Some (i + r + wr), to_output_tokens := Some out\<rparr>"
  obtain b1 b2 where t': "t' = ?t" "reasons' = add_reason b1 ''response_feature_unsupported'' (add_reason b2 ''cache_usage_mismatch'' reasons)"
    using assms(3) c by (force simp: tk_usage_def Let_def)
  have "tk_facts_ok ?t" using assms(1) usage_counts_ok[OF c(1)] c(2)
    by (simp add: tk_facts_ok_def classes_ok_def provenance_ok_def token_counts_def reconciles_def)
  moreover have "counts_are u ?t" using c by (simp add: counts_are_def)
  moreover have "set reasons \<subseteq> set reasons'" unfolding t'(2) by (simp add: subset_insertI2)
  ultimately show ?thesis using assms(2) t' by (simp add: tk_ready_def)
next
  case False
  then obtain b where t': "t' = t" "reasons' = add_reason b ''response_feature_unsupported'' (List.insert ''usage_unavailable'' reasons)"
    using assms(3) by (auto simp: tk_usage_def Let_def split: option.splits prod.splits if_splits)
  have "set reasons \<subseteq> set reasons'" unfolding t'(2) by (simp add: subset_insertI2)
  moreover have "reasons_ok reasons'" using assms(2) unfolding t'(2) by simp
  moreover have "''usage_unavailable'' \<in> set reasons'" unfolding t'(2) by simp
  then have "reasons' \<noteq> []" by auto
  ultimately show ?thesis using assms(1) t'(1) by blast
qed

lemma tk_response_ok:
  assumes "tk_facts_ok t" "reasons_ok reasons" "tk_response env raw streaming t reasons = ((t', reasons'), read)"
  shows "tk_facts_ok t' \<and> reasons_ok reasons' \<and> set reasons \<subseteq> set reasons' \<and> tk_ready t' = tk_ready t \<and>
    to_response_complete t' = to_response_complete t \<and>
    (read \<and> reasons' = [] \<longrightarrow>
       (\<exists>m u. token_response env raw streaming = Inr (J_str m, J_obj u) \<and> to_request_model t' = Some m \<and> to_response_model t' = Some m \<and>
          to_output_modality t' \<noteq> None \<and> counts_are u t'))"
proof -
  show ?thesis
  proof (cases "to_provider t = Some ''anthropic'' \<and> (\<exists>mu. token_response env raw streaming = Inr mu)")
    case False
    then have "t' = t \<and> reasons' = reasons \<and> \<not> read" using assms(3) by (auto simp: tk_response_def split: sum.splits if_splits)
    then show ?thesis using assms by simp
  next
    case True
    then obtain model usage where mu: "token_response env raw streaming = Inr (model, usage)" by auto
    let ?m = "model_of model"
    let ?t1 = "t\<lparr>to_output_modality := Some ''text'', to_response_model := ?m\<rparr>"
    let ?r1 = "add_reason (?m = None \<or> ?m \<noteq> to_request_model t) ''response_model_mismatch'' reasons"
    have t': "((t', reasons'), read) = (case usage of J_obj u \<Rightarrow> (tk_usage u ?t1 ?r1, True) | _ \<Rightarrow> ((?t1, ?r1), False))"
      using assms(3) True mu by (simp add: tk_response_def Let_def)
    have t1: "tk_facts_ok ?t1" "reasons_ok ?r1" "tk_ready ?t1 = tk_ready t"
      using assms(1,2)
      by (simp_all add: tk_facts_ok_def classes_ok_def provenance_ok_def token_counts_def reconciles_def tk_ready_def)
    have grow: "set reasons \<subseteq> set ?r1" by (simp add: subset_insertI)
    show ?thesis
    proof (cases "\<exists>u. usage = J_obj u")
      case False
      then have "t' = ?t1" "reasons' = ?r1" "\<not> read" using t' by (cases usage; simp)+
      then show ?thesis using t1 grow by simp
    next
      case u: True
      then obtain u where u: "usage = J_obj u" by blast
      then have use: "tk_usage u ?t1 ?r1 = (t', reasons')" using t' by simp
      note got = tk_usage_ok[OF t1(1,2) use]
      have "\<exists>m u. token_response env raw streaming = Inr (J_str m, J_obj u) \<and> to_request_model t' = Some m \<and>
          to_response_model t' = Some m \<and> to_output_modality t' \<noteq> None \<and> counts_are u t'" if "reasons' = []"
      proof -
        have "set ?r1 = {}" using that got by auto
        then obtain m where m: "?m = Some m" "to_request_model t = Some m" by (cases ?m) (simp_all split: if_splits)
        then have "model = J_str m" by (simp add: model_of_Some)
        then show ?thesis using got that m mu u by simp
      qed
      then show ?thesis using got t1(3) order_trans[OF grow] by simp
    qed
  qed
qed

text \<open>
  C18.  Token facts are the provider's.  For every body, address, headers and credential kind the
  observation of the request can be made, and for every response the observation of the response,
  whatever either contains.  No refusal of the request is ever withdrawn.  An observation that claims
  complete token usage was made of a complete response with status 200 that the validator accepted;
  its models agree, its counts are those in the provider's usage, and its input is the sum of the
  uncached, cached and written tokens.
\<close>

theorem complete_tokens_are_the_providers:
  assumes "\<And>s. digest_ok (ne_sha256 env s)"
  shows "\<exists>t t'. observe_tokens env body url hs credential_kind = Inr t \<and> observe_tokens_response env t raw streaming ended status = Inr t' \<and>
    set (to_token_reason_codes t) - {''response_unavailable''} \<subseteq> set (to_token_reason_codes t') \<and>
    (to_token_usage_complete t' \<longrightarrow> ended \<and> status = 200 \<and> to_response_complete t' \<and>
       (\<exists>m u. token_response env raw streaming = Inr (J_str m, J_obj u) \<and> to_request_model t' = Some m \<and> to_response_model t' = Some m \<and>
          counts_are u t'))"
proof -
  obtain t where t: "observe_tokens env body url hs credential_kind = Inr t" "tk_facts_ok t" "reasons_ok (to_token_reason_codes t)"
      "set (to_token_reason_codes t) \<subseteq> {''response_unavailable''} \<Longrightarrow> tk_ready t"
    using observed_tokens[OF assms] by blast
  let ?ok = "ended \<and> status = 200"
  let ?t0 = "t\<lparr>to_response_complete := ?ok\<rparr>"
  let ?rs = "add_reason (\<not> ?ok) ''response_incomplete'' (removeAll ''response_unavailable'' (to_token_reason_codes t))"
  obtain t1 rs1 read where r: "tk_response env raw streaming ?t0 ?rs = ((t1, rs1), read)" by (metis prod.exhaust)
  have t0: "tk_facts_ok ?t0" "reasons_ok ?rs" "tk_ready ?t0 = tk_ready t"
    using t(2,3)
    by (simp_all add: tk_facts_ok_def classes_ok_def provenance_ok_def token_counts_def reconciles_def tk_ready_def)
      (auto simp: reasons_ok_def distinct_removeAll)
  note got = tk_response_ok[OF t0(1,2) r]
  define t2 where "t2 = (if read then t1 else t1\<lparr>to_response_complete := False, to_output_modality := None\<rparr>)"
  define rs2 where "rs2 = add_reason (\<not> read) ''response_invalid'' rs1"
  have rs2: "reasons_ok rs2" "set (to_token_reason_codes t) - {''response_unavailable''} \<subseteq> set rs2"
    using got by (auto simp: rs2_def split: if_splits)
  have facts: "tk_facts_ok t2" using got
    by (simp add: t2_def tk_facts_ok_def classes_ok_def provenance_ok_def token_counts_def reconciles_def)
  have fine: "complete_facts t2 \<and> ?ok \<and> to_response_complete t2 \<and> (\<exists>m u. token_response env raw streaming = Inr (J_str m, J_obj u) \<and>
      to_request_model t2 = Some m \<and> to_response_model t2 = Some m \<and> counts_are u t2)" if "rs2 = []"
  proof -
    have none: read "rs1 = []" using that by (simp_all add: rs2_def)
    then obtain m u where m: "token_response env raw streaming = Inr (J_str m, J_obj u)" "to_request_model t1 = Some m"
        "to_response_model t1 = Some m" "to_output_modality t1 \<noteq> None" "counts_are u t1"
      using got by blast
    have "set ?rs = {}" using got none by auto
    then have ok: ?ok "set (to_token_reason_codes t) \<subseteq> {''response_unavailable''}" by (auto split: if_splits)
    then have "tk_ready t1" using t(4) t0(3) got by simp
    then have "complete_facts t1" using m ok(1) got
      by (auto simp: complete_facts_def tk_ready_def token_counts_def counts_are_def)
    then show ?thesis using m ok(1) got none by (simp add: t2_def)
  qed
  let ?t' = "t2\<lparr>to_token_usage_complete := (sorted_keys rs2 = []), to_token_reason_codes := sorted_keys rs2\<rparr>"
  have "RequestTokenObservation ?t' = Inr ?t'"
    by (rule tokens_made) (use facts rs2(1) fine in simp_all)
  then have "observe_tokens_response env t raw streaming ended status = Inr ?t'"
    using r by (simp add: observe_tokens_response_def Let_def t2_def rs2_def)
  moreover have "set (to_token_reason_codes t) - {''response_unavailable''} \<subseteq> set (to_token_reason_codes ?t')" using rs2(2) by simp
  moreover have "counts_are u (t2\<lparr>to_token_usage_complete := c, to_token_reason_codes := rs\<rparr>) = counts_are u t2" for u c rs
    by (simp add: counts_are_def)
  ultimately show ?thesis using t(1) fine by - (rule exI[of _ t], rule exI[of _ ?t'], simp)
qed

theorem complete_tokens_are_the_providers_witness:
  "\<exists>t t'. observe_tokens example_native (Some ''q'') (Some native_url) [(''x-api-key'', ''k'')] None = Inr t \<and>
     observe_tokens_response example_native t ''r'' False True 200 = Inr t' \<and> to_token_usage_complete t' \<and> to_response_complete t' \<and>
     to_request_model t' = to_response_model t'"
proof -
  obtain t t' where t: "observe_tokens example_native (Some ''q'') (Some native_url) [(''x-api-key'', ''k'')] None = Inr t"
      "observe_tokens_response example_native t ''r'' False True 200 = Inr t'"
      "to_token_usage_complete t' \<longrightarrow> to_response_complete t' \<and> to_request_model t' = to_response_model t'"
    using complete_tokens_are_the_providers[OF example_digests, of "Some ''q''" "Some native_url" "[(''x-api-key'', ''k'')]" None "''r''" False True 200]
    by force
  have "(case observe_tokens example_native (Some ''q'') (Some native_url) [(''x-api-key'', ''k'')] None of
      Inr t \<Rightarrow> (case observe_tokens_response example_native t ''r'' False True 200 of Inr t' \<Rightarrow> to_token_usage_complete t' | _ \<Rightarrow> False)
    | _ \<Rightarrow> False)" by code_simp
  then show ?thesis using t by auto
qed

end
