(* ===== verification/Token_Accounting.thy ===== *)
theory Token_Accounting
  imports Reservation Observations
begin

text \<open>
  Accounting in provider tokens (\<^verbatim>\<open>spend_guard/token_accounting.py\<close>, and the stored form of token
  observations in \<^verbatim>\<open>request_tokens.py\<close>): ledger rows are correlated with reservations, coverage and
  the stored receipts, added up, settled and shown.  The ledger's token columns extend the monitor
  row; JSON text is a parameter; deadlines on the monotonic clock are not modelled.
\<close>

section \<open>Stored receipts\<close>

definition MAX_RECEIPT :: nat where "MAX_RECEIPT = 4096"

definition opt_json :: "('a \<Rightarrow> json) \<Rightarrow> 'a option \<Rightarrow> json" where
  "opt_json f v = (case v of None \<Rightarrow> J_null | Some x \<Rightarrow> f x)"

definition tokens_to_dict :: "token_observation \<Rightarrow> json" where
  "tokens_to_dict t = J_obj
     [(''body_sha256'', opt_json J_str (to_body_sha256 t)), (''provider'', opt_json J_str (to_provider t)),
      (''transport'', opt_json J_str (to_transport t)), (''authentication_kind'', opt_json J_str (to_authentication_kind t)),
      (''authentication_provenance'', opt_json J_str (to_authentication_provenance t)),
      (''request_feature_profile_sha256'', opt_json J_str (to_profile_sha256 t)),
      (''feature_profile_status'', J_str (to_feature_profile_status t)), (''request_model'', opt_json J_str (to_request_model t)),
      (''response_model'', opt_json J_str (to_response_model t)), (''input_modality'', opt_json J_str (to_input_modality t)),
      (''output_modality'', opt_json J_str (to_output_modality t)),
      (''uncached_input_tokens'', opt_json J_int (to_uncached_input_tokens t)), (''cache_read_tokens'', opt_json J_int (to_cache_read_tokens t)),
      (''cache_creation_tokens'', opt_json J_int (to_cache_creation_tokens t)), (''input_tokens'', opt_json J_int (to_input_tokens t)),
      (''output_tokens'', opt_json J_int (to_output_tokens t)), (''response_complete'', J_bool (to_response_complete t)),
      (''token_usage_complete'', J_bool (to_token_usage_complete t)),
      (''token_reason_codes'', J_list (map J_str (to_token_reason_codes t))),
      (''comparison_reason_codes'', J_list (map J_str (to_comparison_reason_codes t))),
      (''billing_semantics'', J_str (to_billing_semantics t)), (''actual_cost_usd'', J_null),
      (''schema_version'', J_str ''native-request-token-observation/1'')]"

definition TOKEN_FIELDS :: "string list" where
  "TOKEN_FIELDS = [''body_sha256'', ''provider'', ''transport'', ''authentication_kind'', ''authentication_provenance'',
     ''request_feature_profile_sha256'', ''feature_profile_status'', ''request_model'', ''response_model'', ''input_modality'',
     ''output_modality'', ''uncached_input_tokens'', ''cache_read_tokens'', ''cache_creation_tokens'', ''input_tokens'',
     ''output_tokens'', ''response_complete'', ''token_usage_complete'', ''token_reason_codes'', ''comparison_reason_codes'',
     ''billing_semantics'', ''actual_cost_usd'', ''schema_version'']"

text \<open>A field of the wrong type fails the validation of the record.\<close>

definition wrong :: "py_error + 'a" where
  "wrong = Inl (ValueError ''invalid stored token observation'')"

definition str_field :: "json_fields \<Rightarrow> string \<Rightarrow> py_error + string" where
  "str_field d k = (case get_field d k of J_str s \<Rightarrow> Inr s | _ \<Rightarrow> wrong)"

definition opt_str_field :: "json_fields \<Rightarrow> string \<Rightarrow> py_error + string option" where
  "opt_str_field d k = (case get_field d k of J_null \<Rightarrow> Inr None | J_str s \<Rightarrow> Inr (Some s) | _ \<Rightarrow> wrong)"

definition opt_int_field :: "json_fields \<Rightarrow> string \<Rightarrow> py_error + int option" where
  "opt_int_field d k = (case get_field d k of J_null \<Rightarrow> Inr None | J_int n \<Rightarrow> Inr (Some n) | _ \<Rightarrow> wrong)"

definition bool_field :: "json_fields \<Rightarrow> string \<Rightarrow> py_error + bool" where
  "bool_field d k = (case get_field d k of J_bool b \<Rightarrow> Inr b | _ \<Rightarrow> wrong)"

definition strs_field :: "json_fields \<Rightarrow> string \<Rightarrow> py_error + string list" where
  "strs_field d k = (case get_field d k of J_list xs \<Rightarrow> each_result (\<lambda>x. case x of J_str s \<Rightarrow> Inr s | _ \<Rightarrow> wrong) xs | _ \<Rightarrow> wrong)"

definition tokens_from_dict :: "json \<Rightarrow> py_error + token_observation" where
  "tokens_from_dict j =
     (case j of
        J_obj d \<Rightarrow>
          ebind (demand (set (keys d) = set TOKEN_FIELDS) ''invalid stored token observation fields'') (\<lambda>_.
          ebind (opt_str_field d ''body_sha256'') (\<lambda>body. ebind (opt_str_field d ''provider'') (\<lambda>provider.
          ebind (opt_str_field d ''transport'') (\<lambda>transport. ebind (opt_str_field d ''authentication_kind'') (\<lambda>kind.
          ebind (opt_str_field d ''authentication_provenance'') (\<lambda>prov.
          ebind (opt_str_field d ''request_feature_profile_sha256'') (\<lambda>profile.
          ebind (str_field d ''feature_profile_status'') (\<lambda>status.
          ebind (opt_str_field d ''request_model'') (\<lambda>qm. ebind (opt_str_field d ''response_model'') (\<lambda>rm.
          ebind (opt_str_field d ''input_modality'') (\<lambda>im. ebind (opt_str_field d ''output_modality'') (\<lambda>om.
          ebind (opt_int_field d ''uncached_input_tokens'') (\<lambda>un. ebind (opt_int_field d ''cache_read_tokens'') (\<lambda>cr.
          ebind (opt_int_field d ''cache_creation_tokens'') (\<lambda>cc. ebind (opt_int_field d ''input_tokens'') (\<lambda>inp.
          ebind (opt_int_field d ''output_tokens'') (\<lambda>outp. ebind (bool_field d ''response_complete'') (\<lambda>rc.
          ebind (bool_field d ''token_usage_complete'') (\<lambda>tc. ebind (strs_field d ''token_reason_codes'') (\<lambda>rs.
          ebind (strs_field d ''comparison_reason_codes'') (\<lambda>cs. ebind (str_field d ''billing_semantics'') (\<lambda>bill.
          ebind (demand (get_field d ''actual_cost_usd'' = J_null) ''token facts do not establish billing'') (\<lambda>_.
          ebind (demand (get_field d ''schema_version'' = J_str ''native-request-token-observation/1'') ''unsupported token observation schema'') (\<lambda>_.
            RequestTokenObservation \<lparr>to_body_sha256 = body, to_provider = provider, to_transport = transport, to_authentication_kind = kind,
              to_authentication_provenance = prov, to_profile_sha256 = profile, to_feature_profile_status = status, to_request_model = qm,
              to_response_model = rm, to_input_modality = im, to_output_modality = om, to_uncached_input_tokens = un,
              to_cache_read_tokens = cr, to_cache_creation_tokens = cc, to_input_tokens = inp, to_output_tokens = outp,
              to_response_complete = rc, to_token_usage_complete = tc, to_token_reason_codes = rs, to_comparison_reason_codes = cs,
              to_billing_semantics = bill\<rparr>))))))))))))))))))))))))
      | _ \<Rightarrow> wrong)"

definition tokens_to_json :: "native_env \<Rightarrow> token_observation \<Rightarrow> py_error + string" where
  "tokens_to_json env t =
     (let s = ne_dumps env (tokens_to_dict t) in
      ebind (demand (length (utf8 s) \<le> MAX_RECEIPT) ''token observation exceeds size limit'') (\<lambda>_. Inr s))"

definition tokens_from_json :: "native_env \<Rightarrow> string option \<Rightarrow> py_error + token_observation" where
  "tokens_from_json env raw =
     (case raw of
        None \<Rightarrow> wrong
      | Some s \<Rightarrow>
          ebind (demand (length (utf8 s) \<le> MAX_RECEIPT) ''invalid stored token observation size'') (\<lambda>_.
          ebind (strict_json (ne_pairs env) s) tokens_from_dict))"

section \<open>The ledger's rows\<close>

record token_row = monitor_row +
  tr_model :: string
  tr_token_usage_complete :: int
  tr_cache_creation_tokens :: "int option"
  tr_provider_input_tokens :: "int option"
  tr_provider_output_tokens :: "int option"
  tr_provider_cache_read_tokens :: "int option"
  tr_provider_cache_creation_tokens :: "int option"
  tr_provider_usage_source :: string
  tr_provider_usage_provider :: "string option"

record token_ledger =
  tl_domain :: "(string \<times> string option) option"
  tl_rows :: "token_row list"

definition monitor_of :: "token_ledger \<Rightarrow> monitor_state" where
  "monitor_of l = \<lparr>mo_domain = tl_domain l, mo_rows = []\<rparr>"

definition ROW_LIMIT :: int where "ROW_LIMIT = 100000"

text \<open>Why a row is not a receipt of complete, matching usage.\<close>

definition correlated :: "store_config \<Rightarrow> reservation_db \<Rightarrow> token_row \<Rightarrow> py_error + string option" where
  "correlated st db row =
     (let ref = mr_guard_reservation_id row;
          cov = filter (\<lambda>c. cov_reservation_id c = ref \<and> cov_ledger_key c = sc_ledger_key st) (rd_coverage db)
      in case (cov, find_reservation ref (sc_ledger_key st) db) of
           ([c], Some r) \<Rightarrow>
             if (cov_session_id c, cov_attempts c, cov_basis c) = (mr_session_id row, 1, Provider_tokens) \<and>
                (rv_session_id r, rv_agent_id r, rv_basis r) = (mr_session_id row, lower (mr_agent_id row), Provider_tokens)
             then Inr (cov_tokens c) else unavailable ''token reservation correlation differs''
         | _ \<Rightarrow> unavailable ''token reservation correlation differs'')"

definition columns_match :: "token_row \<Rightarrow> token_observation \<Rightarrow> bool" where
  "columns_match row t \<longleftrightarrow>
     list_all (\<lambda>(col, expected). col \<noteq> None \<and> col = expected)
       [(mr_input_tokens row, to_input_tokens t), (mr_output_tokens row, to_output_tokens t),
        (mr_cache_read_tokens row, to_cache_read_tokens t), (tr_cache_creation_tokens row, to_cache_creation_tokens t),
        (tr_provider_input_tokens row, to_uncached_input_tokens t), (tr_provider_output_tokens row, to_output_tokens t),
        (tr_provider_cache_read_tokens row, to_cache_read_tokens t), (tr_provider_cache_creation_tokens row, to_cache_creation_tokens t)]"

definition row_receipt :: "native_env \<Rightarrow> store_config \<Rightarrow> reservation_db \<Rightarrow> token_row \<Rightarrow> py_error + token_observation" where
  "row_receipt env st db row =
     ebind (correlated st db row) (\<lambda>raw.
     ebind (case tokens_from_json env raw of Inl e \<Rightarrow> unavailable ''committed token receipt is invalid'' | Inr t \<Rightarrow> Inr t) (\<lambda>t.
     ebind (raise_if (\<not> to_token_usage_complete t \<or> \<not> to_response_complete t)
              (ReservationUnavailable ''committed native token usage is incomplete'')) (\<lambda>_.
     ebind (raise_if (Some (tr_model row) \<noteq> to_request_model t \<or> tr_provider_usage_source row \<noteq> ''provider_usage_object'' \<or>
                      tr_provider_usage_provider row \<noteq> to_provider t)
              (ReservationUnavailable ''committed provider identity differs'')) (\<lambda>_.
     ebind (raise_if (\<not> columns_match row t) (ReservationUnavailable ''committed provider token counts differ'')) (\<lambda>_. Inr t)))))"

fun receipts :: "native_env \<Rightarrow> store_config \<Rightarrow> reservation_db \<Rightarrow> string list \<Rightarrow> token_row list \<Rightarrow> py_error + (token_row \<times> token_observation) list" where
  "receipts env st db seen [] = Inr []"
| "receipts env st db seen (row # rows) =
     (let ref = mr_guard_reservation_id row in
      ebind (raise_if (ref = [] \<or> ref \<in> set seen \<or> mr_guard_ledger_key row \<noteq> sc_ledger_key st \<or>
                       tr_token_usage_complete row \<noteq> 1 \<or> mr_guard_usage_complete row)
               (ReservationUnavailable ''committed token coverage is incomplete'')) (\<lambda>_.
      ebind (row_receipt env st db row) (\<lambda>t.
      ebind (receipts env st db (ref # seen) rows) (\<lambda>rest. Inr ((row, t) # rest)))))"

definition token_rows ::
  "native_env \<Rightarrow> store_config \<Rightarrow> token_ledger \<Rightarrow> (token_row \<Rightarrow> bool) \<Rightarrow> reservation_db \<Rightarrow> py_error + (token_row \<times> token_observation) list" where
  "token_rows env st ledger selected db =
     ebind (raise_if (sc_basis st \<noteq> Provider_tokens) (ReservationUnavailable ''provider-token accounting basis required'')) (\<lambda>_.
     ebind (check_domain st (monitor_of ledger)) (\<lambda>_.
     ebind (check_basis st db) (\<lambda>_.
     let rows = filter selected (tl_rows ledger) in
     ebind (raise_if (ROW_LIMIT < int (length rows)) (ReservationUnavailable ''token accounting row limit exceeded'')) (\<lambda>_.
       receipts env st db [] rows))))"

definition since :: "string \<Rightarrow> token_row \<Rightarrow> bool" where
  "since cutoff row \<longleftrightarrow> str_le cutoff (mr_timestamp row)"

definition of_reservation :: "store_config \<Rightarrow> string \<Rightarrow> token_row \<Rightarrow> bool" where
  "of_reservation st rid row \<longleftrightarrow> mr_guard_reservation_id row = rid \<and> mr_guard_ledger_key row = sc_ledger_key st"

definition used_tokens :: "token_observation \<Rightarrow> int" where
  "used_tokens t = the (to_input_tokens t) + the (to_output_tokens t)"

definition token_totals ::
  "(token_row \<times> token_observation) list \<Rightarrow> string \<Rightarrow> py_error + (rolling_usage \<times> committed)" where
  "token_totals rows agent_id =
     (let own = filter (\<lambda>(r, t). lower (mr_agent_id r) = agent_id) rows;
          tot = \<lparr>ru_agent_cost_usd = 0, ru_agent_tokens_total = sum_list (map (used_tokens \<circ> snd) own),
                 ru_agent_cache_read_tokens = sum_list (map (the \<circ> to_cache_read_tokens \<circ> snd) own),
                 ru_fleet_cost_usd = 0, ru_fleet_tokens_total = sum_list (map (used_tokens \<circ> snd) rows),
                 ru_fleet_cache_read_tokens = sum_list (map (the \<circ> to_cache_read_tokens \<circ> snd) rows)\<rparr>;
          com = foldl (\<lambda>d (r, t). AList.update (mr_guard_reservation_id r) (mr_session_id r, lower (mr_agent_id r)) d) [] rows
      in ebind (raise_if (\<not> list_all count_ok [ru_agent_tokens_total tot, ru_agent_cache_read_tokens tot, ru_fleet_tokens_total tot,
                                               ru_fleet_cache_read_tokens tot])
                  (ReservationUnavailable ''aggregate token counts exceed exact range'')) (\<lambda>_. Inr (tot, com)))"

definition recorded_tokens ::
  "native_env \<Rightarrow> store_config \<Rightarrow> token_ledger \<Rightarrow> string \<Rightarrow> string \<Rightarrow> reservation_db \<Rightarrow> py_error + (rolling_usage \<times> committed)" where
  "recorded_tokens env st ledger cutoff agent_id db =
     ebind (token_rows env st ledger (since cutoff) db) (\<lambda>rows. token_totals rows agent_id)"

section \<open>Settling\<close>

definition token_open :: "store_config \<Rightarrow> reservation_ref \<Rightarrow> reservation_row \<Rightarrow> bool" where
  "token_open st ref r \<longleftrightarrow>
     rv_id r = ref_reservation_id ref \<and> rv_ledger_key r = sc_ledger_key st \<and> rv_basis r = Provider_tokens \<and> open_status r"

definition token_settled :: "secs \<Rightarrow> token_observation \<Rightarrow> reservation_row \<Rightarrow> reservation_row" where
  "token_settled now t r =
     r\<lparr>rv_status := Rv_settled, rv_actual_cost := None, rv_actual_tokens := Some (used_tokens t),
       rv_actual_cache_read := to_cache_read_tokens t, rv_settled_at := Some now\<rparr>"

definition mark_recorded :: "store_config \<Rightarrow> reservation_ref \<Rightarrow> coverage_row list \<Rightarrow> coverage_row list" where
  "mark_recorded st ref cs =
     snd (update_where (\<lambda>c. cov_ledger_key c = sc_ledger_key st \<and> cov_reservation_id c = ref_reservation_id ref \<and>
                            cov_attempts c = 1 \<and> cov_basis c = Provider_tokens)
            (\<lambda>c. c\<lparr>cov_state := Cov_recorded\<rparr>) cs)"

definition settle_tokens_body ::
  "native_env \<Rightarrow> store_config \<Rightarrow> reservation_ref \<Rightarrow> secs \<Rightarrow> token_ledger \<Rightarrow> reservation_db \<Rightarrow> py_error + (bool \<times> reservation_db)" where
  "settle_tokens_body env st ref now ledger db =
     ebind (token_rows env st ledger (of_reservation st (ref_reservation_id ref)) db) (\<lambda>rows.
     case rows of
       [(row, t)] \<Rightarrow>
         (case update_where (token_open st ref) (token_settled now t) (rd_reservations db) of
            (n, rs) \<Rightarrow>
              Inr (0 < n,
                if 0 < n
                then generation_changed (sc_ledger_key st) (db\<lparr>rd_reservations := rs, rd_coverage := mark_recorded st ref (rd_coverage db)\<rparr>)
                else db))
     | _ \<Rightarrow> unavailable ''token settlement lacks matching committed usage'')"

definition settle_tokens ::
  "native_env \<Rightarrow> store_config \<Rightarrow> reservation_ref \<Rightarrow> secs \<Rightarrow> token_ledger \<Rightarrow> reservation_db \<Rightarrow> (py_error + bool) \<times> reservation_db" where
  "settle_tokens env st ref now ledger db =
     (if ref_accounting_basis ref \<noteq> Provider_tokens \<or> \<not> same_scope st ref
      then (unavailable ''token settlement accounting scope differs'', db)
      else transact (settle_tokens_body env st ref now ledger) db)"

section \<open>Snapshots\<close>

record token_view =
  tv_agent_tokens_total :: "int option"
  tv_agent_cache_read_tokens :: "int option"
  tv_fleet_tokens_total :: int
  tv_fleet_cache_read_tokens :: int
  tv_agent_applicable :: bool

text \<open>Without one known agent the agent's figures are withheld.\<close>

definition token_view_of :: "string \<Rightarrow> rolling_usage \<Rightarrow> token_view" where
  "token_view_of agent u =
     \<lparr>tv_agent_tokens_total = (if agent = [] then None else Some (ru_agent_tokens_total u)),
      tv_agent_cache_read_tokens = (if agent = [] then None else Some (ru_agent_cache_read_tokens u)),
      tv_fleet_tokens_total = ru_fleet_tokens_total u, tv_fleet_cache_read_tokens = ru_fleet_cache_read_tokens u,
      tv_agent_applicable = (agent \<noteq> [])\<rparr>"

record token_snapshot =
  ts_observed_at :: secs
  ts_ledger_scope :: string
  ts_generation :: int
  ts_coverage_complete :: bool
  ts_coverage_reasons :: "string list"
  ts_recorded :: token_view
  ts_pending :: token_view
  ts_observation_available :: bool
  ts_observation_reasons :: "string list"
  ts_observation :: "(string \<times> secs \<times> secs \<times> token_observation) option"

definition recent_coverage :: "store_config \<Rightarrow> secs \<Rightarrow> reservation_db \<Rightarrow> coverage_row list" where
  "recent_coverage st from db =
     filter (\<lambda>c. cov_ledger_key c = sc_ledger_key st \<and> (case cov_ended_at c of None \<Rightarrow> True | Some t \<Rightarrow> from \<le> t)) (rd_coverage db)"

definition uncovered_reservation :: "store_config \<Rightarrow> reservation_db \<Rightarrow> bool" where
  "uncovered_reservation st db =
     list_ex (\<lambda>r. rv_ledger_key r = sc_ledger_key st \<and> open_status r \<and>
        \<not> list_ex (\<lambda>c. cov_ledger_key c = rv_ledger_key r \<and> cov_reservation_id c = rv_id r) (rd_coverage db)) (rd_reservations db)"

definition coverage_reasons :: "committed \<Rightarrow> coverage_row list \<Rightarrow> string list" where
  "coverage_reasons com cov =
     (if list_ex (\<lambda>c. cov_basis c \<noteq> Provider_tokens) cov then [''accounting_basis_mismatch''] else []) @
     (if list_ex (\<lambda>c. cov_ended_at c = None) cov then [''request_in_progress''] else []) @
     (if list_ex (\<lambda>c. cov_ended_at c \<noteq> None \<and> 0 < cov_attempts c \<and>
                      \<not> (cov_attempts c = 1 \<and> map_of com (cov_reservation_id c) \<noteq> None)) cov
      then [''forward_usage_unresolved''] else [])"

definition session_agents :: "string \<Rightarrow> (token_row \<times> token_observation) list \<Rightarrow> string list" where
  "session_agents session rows = remdups (map (\<lambda>(r, t). lower (mr_agent_id r)) (filter (\<lambda>(r, t). mr_session_id r = session) rows))"

definition later_of :: "coverage_row \<Rightarrow> coverage_row \<Rightarrow> coverage_row" where
  "later_of a b = (if cov_started_at a < cov_started_at b \<or>
                      (cov_started_at a = cov_started_at b \<and> \<not> str_le (cov_id b) (cov_id a)) then b else a)"

definition latest_of :: "coverage_row list \<Rightarrow> coverage_row option" where
  "latest_of cs = (case cs of [] \<Rightarrow> None | c # cs' \<Rightarrow> Some (foldl later_of c cs'))"

text \<open>The latest request of the session: reasons against it, and what is shown of it.\<close>

definition latest_observation ::
  "native_env \<Rightarrow> store_config \<Rightarrow> string \<Rightarrow> string \<Rightarrow> secs \<Rightarrow> secs \<Rightarrow> (token_row \<times> token_observation) list \<Rightarrow> committed \<Rightarrow>
   coverage_row list \<Rightarrow> reservation_db \<Rightarrow> py_error + (string list \<times> (string \<times> secs \<times> secs \<times> token_observation) option)" where
  "latest_observation env st session owner now window rows com cov db =
     (let candidates = filter (\<lambda>c. cov_session_id c = session \<and> 0 < cov_attempts c) cov in
      case latest_of candidates of
        None \<Rightarrow> Inr ([''session_unobserved''], None)
      | Some c \<Rightarrow>
          let matching = filter (\<lambda>(r, t). mr_guard_reservation_id r = cov_reservation_id c) rows;
              identity = map_option rv_request_id (find_reservation (cov_reservation_id c) (sc_ledger_key st) db);
              reasons =
                (if cov_attempts c \<noteq> 1 \<or> cov_ended_at c = None \<or> map_of com (cov_reservation_id c) = None then [''latest_request_unresolved''] else []) @
                (if cov_owner c \<noteq> owner then [''request_owner_mismatch''] else []) @
                (if list_ex (\<lambda>x. cov_id x \<noteq> cov_id c \<and> (case cov_ended_at x of None \<Rightarrow> True | Some t \<Rightarrow> cov_started_at c < t)) candidates
                 then [''session_request_order_ambiguous''] else []) @
                (if length matching \<noteq> 1 \<or> identity = None then [''token_ledger_mismatch''] else [])
          in if reasons \<noteq> [] then Inr (sorted_keys reasons, None)
             else
               let started = cov_started_at c; ended = the (cov_ended_at c) in
               ebind (number_ok started ''started_at'') (\<lambda>_. ebind (number_ok ended ''ended_at'') (\<lambda>_.
               if \<not> (now - window < started \<and> started \<le> ended \<and> ended \<le> now) then Inr ([''request_time_unavailable''], None)
               else ebind (identity_ok (the identity) ''request_id'' False) (\<lambda>_.
                 Inr ([], Some (ne_sha256 env (the identity), started, ended, snd (hd matching)))))))"

definition accounting_reasons :: "store_config \<Rightarrow> string list \<Rightarrow> committed \<Rightarrow> coverage_row list \<Rightarrow> reservation_db \<Rightarrow> string list" where
  "accounting_reasons st agents com cov db =
     (if uncovered_reservation st db then [''reservation_coverage_incomplete''] else []) @ coverage_reasons com cov @
     (if agents = [] then [''session_unobserved''] else []) @ (if 1 < length agents then [''session_agent_contradiction''] else [])"

definition token_snapshot_of ::
  "native_env \<Rightarrow> ledger_env \<Rightarrow> store_config \<Rightarrow> string \<Rightarrow> int \<Rightarrow> string \<Rightarrow> secs \<Rightarrow> token_ledger \<Rightarrow> reservation_db \<Rightarrow> reservation_db \<Rightarrow>
   py_error + token_snapshot" where
  "token_snapshot_of env le st session window owner now ledger db fence =
     ebind (identity_ok session ''session_id'' False) (\<lambda>_.
     ebind (identity_ok owner ''owner_instance_id'' False) (\<lambda>_.
     ebind (number_ok (of_int window) ''window_seconds'') (\<lambda>_.
     ebind (raise_if (window = 0) (ValueError ''token snapshot window must be positive'')) (\<lambda>_.
     ebind (check_basis st db) (\<lambda>_.
     ebind (read_generation st db) (\<lambda>gen.
     let cov = recent_coverage st (now - of_int window) db in
     ebind (raise_if (ROW_LIMIT < int (length cov)) (ReservationUnavailable ''token coverage row limit exceeded'')) (\<lambda>_.
     ebind (token_rows env st ledger (since (le_stamp le (now - of_int window))) db) (\<lambda>rows.
     let agents = session_agents session rows; who = (case agents of [a] \<Rightarrow> a | _ \<Rightarrow> []) in
     ebind (token_totals rows who) (\<lambda>(rec, com).
     ebind (active st who now com db) (\<lambda>pending.
     let reasons = accounting_reasons st agents com cov db in
     ebind (latest_observation env st session owner now (of_int window) rows com cov db) (\<lambda>(local, shown).
     ebind (check_basis st fence) (\<lambda>_.
     ebind (read_generation st fence) (\<lambda>gen'.
     ebind (raise_if (gen' \<noteq> gen) (ReservationUnavailable ''accounting changed during token observation'')) (\<lambda>_.
       Inr \<lparr>ts_observed_at = now, ts_ledger_scope = sc_ledger_key st, ts_generation = gen, ts_coverage_complete = (reasons = []),
            ts_coverage_reasons = sorted_keys reasons, ts_recorded = token_view_of who rec,
            ts_pending = token_view_of who pending, ts_observation_available = (local = [] \<and> reasons = []),
            ts_observation_reasons = (if reasons = [] then local else sorted_keys (List.insert ''accounting_ineligible'' local)),
            ts_observation = shown\<rparr>))))))))))))))"

section \<open>Receipts and their rows\<close>

lemma each_result_strs: "each_result (\<lambda>x. case x of J_str s \<Rightarrow> Inr s | _ \<Rightarrow> wrong) (map J_str xs) = Inr xs"
  by (induction xs) simp_all

lemma opt_fields:
  "get_field d k = opt_json J_str v \<Longrightarrow> opt_str_field d k = Inr v"
  "get_field d k = opt_json J_int n \<Longrightarrow> opt_int_field d k = Inr n"
  by (cases v; simp add: opt_str_field_def opt_json_def) (cases n; simp add: opt_int_field_def opt_json_def)

lemma tokens_dict_roundtrip:
  assumes "check_tokens t = Inr ()"
  shows "tokens_from_dict (tokens_to_dict t) = Inr t"
proof -
  define d where "d = (case tokens_to_dict t of J_obj d \<Rightarrow> d | _ \<Rightarrow> [])"
  have d: "tokens_to_dict t = J_obj d" by (simp add: d_def tokens_to_dict_def)
  have keys: "set (keys d) = set TOKEN_FIELDS" by (simp add: d_def tokens_to_dict_def TOKEN_FIELDS_def)
  have f: "get_field d ''body_sha256'' = opt_json J_str (to_body_sha256 t)" "get_field d ''provider'' = opt_json J_str (to_provider t)"
    "get_field d ''transport'' = opt_json J_str (to_transport t)" "get_field d ''authentication_kind'' = opt_json J_str (to_authentication_kind t)"
    "get_field d ''authentication_provenance'' = opt_json J_str (to_authentication_provenance t)"
    "get_field d ''request_feature_profile_sha256'' = opt_json J_str (to_profile_sha256 t)"
    "get_field d ''request_model'' = opt_json J_str (to_request_model t)" "get_field d ''response_model'' = opt_json J_str (to_response_model t)"
    "get_field d ''input_modality'' = opt_json J_str (to_input_modality t)" "get_field d ''output_modality'' = opt_json J_str (to_output_modality t)"
    by (simp_all add: d_def tokens_to_dict_def get_field_def)
  have n: "get_field d ''uncached_input_tokens'' = opt_json J_int (to_uncached_input_tokens t)"
    "get_field d ''cache_read_tokens'' = opt_json J_int (to_cache_read_tokens t)"
    "get_field d ''cache_creation_tokens'' = opt_json J_int (to_cache_creation_tokens t)"
    "get_field d ''input_tokens'' = opt_json J_int (to_input_tokens t)" "get_field d ''output_tokens'' = opt_json J_int (to_output_tokens t)"
    by (simp_all add: d_def tokens_to_dict_def get_field_def)
  have r: "get_field d ''feature_profile_status'' = J_str (to_feature_profile_status t)" "get_field d ''response_complete'' = J_bool (to_response_complete t)"
    "get_field d ''token_usage_complete'' = J_bool (to_token_usage_complete t)"
    "get_field d ''token_reason_codes'' = J_list (map J_str (to_token_reason_codes t))"
    "get_field d ''comparison_reason_codes'' = J_list (map J_str (to_comparison_reason_codes t))"
    "get_field d ''billing_semantics'' = J_str (to_billing_semantics t)" "get_field d ''actual_cost_usd'' = J_null"
    "get_field d ''schema_version'' = J_str ''native-request-token-observation/1''"
    by (simp_all add: d_def tokens_to_dict_def get_field_def)
  have "tokens_from_dict (J_obj d) = RequestTokenObservation t"
    unfolding tokens_from_dict_def using keys
    by (simp add: f[THEN opt_fields(1)] n[THEN opt_fields(2)] str_field_def bool_field_def strs_field_def r each_result_strs,
        cases t, simp)
  then show ?thesis using assms by (simp add: d RequestTokenObservation_def)
qed

text \<open>A stored receipt reads back as it was, if the codec reads what it wrote.\<close>

lemma receipt_roundtrip:
  assumes "check_tokens t = Inr ()" "tokens_to_json env t = Inr s" "ne_pairs env s = Some (tokens_to_dict t)"
  shows "tokens_from_json env (Some s) = Inr t"
proof -
  have s: "length (utf8 s) \<le> MAX_RECEIPT" using assms(2) by (auto simp: tokens_to_json_def Let_def ebind_eq_Inr)
  have "length s \<le> length (utf8 s)" by (induction s) (auto simp: utf8_def Let_def)
  then have "int (length s) \<le> MAX_BYTES" using s by (simp add: MAX_RECEIPT_def MAX_BYTES_def)
  moreover have "unique_keys (tokens_to_dict t)"
    by (simp add: tokens_to_dict_def list_all_iff opt_json_def split: option.splits)
  ultimately show ?thesis using s assms(3) tokens_dict_roundtrip[OF assms(1)]
    by (simp add: tokens_from_json_def strict_json_def)
qed

section \<open>What the totals rest on\<close>

text \<open>
  The specification: a ledger row and a receipt belong together when the row's reservation has one
  coverage record, of the same session and with one attempt, the reservation belongs to the same
  session and agent, and the stored receipt of a complete response carries the row's own counts.
\<close>

definition receipted :: "native_env \<Rightarrow> store_config \<Rightarrow> reservation_db \<Rightarrow> token_row \<Rightarrow> token_observation \<Rightarrow> bool" where
  "receipted env st db row t \<longleftrightarrow>
     (\<exists>c r. filter (\<lambda>c. cov_reservation_id c = mr_guard_reservation_id row \<and> cov_ledger_key c = sc_ledger_key st) (rd_coverage db) = [c] \<and>
        find_reservation (mr_guard_reservation_id row) (sc_ledger_key st) db = Some r \<and>
        cov_attempts c = 1 \<and> cov_session_id c = mr_session_id row \<and> rv_session_id r = mr_session_id row \<and>
        rv_agent_id r = lower (mr_agent_id row) \<and> tokens_from_json env (cov_tokens c) = Inr t) \<and>
     to_token_usage_complete t \<and> to_response_complete t \<and> to_request_model t = Some (tr_model row) \<and>
     to_input_tokens t \<noteq> None \<and> to_output_tokens t \<noteq> None \<and> to_cache_read_tokens t \<noteq> None \<and>
     mr_input_tokens row = to_input_tokens t \<and> mr_output_tokens row = to_output_tokens t \<and>
     mr_cache_read_tokens row = to_cache_read_tokens t"

definition row_tokens :: "token_row \<Rightarrow> int" where
  "row_tokens row = the (mr_input_tokens row) + the (mr_output_tokens row)"

lemma correlated_okE:
  assumes "correlated st db row = Inr raw"
  obtains c r where
    "filter (\<lambda>c. cov_reservation_id c = mr_guard_reservation_id row \<and> cov_ledger_key c = sc_ledger_key st) (rd_coverage db) = [c]"
    "find_reservation (mr_guard_reservation_id row) (sc_ledger_key st) db = Some r"
    "cov_attempts c = 1" "cov_session_id c = mr_session_id row" "rv_session_id r = mr_session_id row"
    "rv_agent_id r = lower (mr_agent_id row)" "raw = cov_tokens c"
  using assms by (auto simp: correlated_def Let_def split: list.splits option.splits if_splits)

lemma row_receipt_sound:
  assumes "row_receipt env st db row = Inr t"
  shows "receipted env st db row t"
proof -
  obtain raw where c: "correlated st db row = Inr raw"
    using assms by (auto simp: row_receipt_def ebind_eq_Inr)
  obtain t' where t': "tokens_from_json env raw = Inr t'"
    using assms by (cases "tokens_from_json env raw") (auto simp: row_receipt_def c ebind_eq_Inr)
  have t: "t' = t" "to_token_usage_complete t" "to_response_complete t" "to_request_model t = Some (tr_model row)" "columns_match row t"
    using assms by (auto simp: row_receipt_def c t' ebind_eq_Inr)
  have cols: "to_input_tokens t \<noteq> None" "to_output_tokens t \<noteq> None" "to_cache_read_tokens t \<noteq> None"
      "mr_input_tokens row = to_input_tokens t" "mr_output_tokens row = to_output_tokens t"
      "mr_cache_read_tokens row = to_cache_read_tokens t"
    using t(5) by (auto simp: columns_match_def)
  from c show ?thesis
    by (rule correlated_okE) (use t' t cols in \<open>auto simp: receipted_def\<close>)
qed

lemma receipts_sound:
  assumes "receipts env st db seen rows = Inr out"
  shows "map fst out = rows \<and> (\<forall>(row, t) \<in> set out. receipted env st db row t) \<and>
         distinct (map mr_guard_reservation_id rows) \<and> set seen \<inter> mr_guard_reservation_id ` set rows = {}"
  using assms
proof (induction env st db seen rows arbitrary: out rule: receipts.induct)
  case (2 env st db seen row rows)
  from "2.prems" obtain t rest where ok: "mr_guard_reservation_id row \<notin> set seen" and t: "row_receipt env st db row = Inr t"
    and rest: "receipts env st db (mr_guard_reservation_id row # seen) rows = Inr rest" and out: "out = (row, t) # rest"
    by (auto simp: ebind_eq_Inr Let_def)
  have "map fst rest = rows \<and> (\<forall>(row, t) \<in> set rest. receipted env st db row t) \<and> distinct (map mr_guard_reservation_id rows) \<and>
      set (mr_guard_reservation_id row # seen) \<inter> mr_guard_reservation_id ` set rows = {}"
    by (rule "2.IH"[OF refl rest])
  then show ?case using ok row_receipt_sound[OF t] out by auto
qed simp

lemma receipted_tokens: "receipted env st db row t \<Longrightarrow> used_tokens t = row_tokens row"
  by (simp add: receipted_def used_tokens_def row_tokens_def)

lemma token_rows_sound:
  assumes "token_rows env st ledger selected db = Inr out"
  shows "map fst out = filter selected (tl_rows ledger) \<and> (\<forall>(row, t) \<in> set out. receipted env st db row t) \<and>
         distinct (map mr_guard_reservation_id (filter selected (tl_rows ledger))) \<and> check_basis st db = Inr ()"
  using assms receipts_sound[of env st db "[]" "filter selected (tl_rows ledger)" out]
  by (auto simp: token_rows_def ebind_eq_Inr Let_def)

lemma committed_tokens_ids:
  "map_of (foldl (\<lambda>d (r, t). AList.update (mr_guard_reservation_id r) (mr_session_id r, lower (mr_agent_id r)) d) d rows) i = None \<longleftrightarrow>
   map_of d i = None \<and> i \<notin> (mr_guard_reservation_id \<circ> fst) ` set rows"
  by (induction rows arbitrary: d) (auto simp: update_conv' split: if_splits)

lemma token_totals_sound:
  assumes "token_totals rows agent_id = Inr (rec, com)"
  shows "ru_fleet_tokens_total rec = sum_list (map (used_tokens \<circ> snd) rows)"
    "ru_agent_tokens_total rec = sum_list (map (used_tokens \<circ> snd) (filter (\<lambda>(r, t). lower (mr_agent_id r) = agent_id) rows))"
    "count_ok (ru_fleet_tokens_total rec)" "map_of com i = None \<longleftrightarrow> i \<notin> (mr_guard_reservation_id \<circ> fst) ` set rows"
proof -
  have "com = foldl (\<lambda>d (r, t). AList.update (mr_guard_reservation_id r) (mr_session_id r, lower (mr_agent_id r)) d) [] rows"
    using assms by (simp add: token_totals_def Let_def ebind_eq_Inr)
  then show "map_of com i = None \<longleftrightarrow> i \<notin> (mr_guard_reservation_id \<circ> fst) ` set rows"
    using committed_tokens_ids[of "[]" rows i] by (simp only: map_of.simps simp_thms)
qed (use assms in \<open>simp_all add: token_totals_def Let_def ebind_eq_Inr, auto\<close>)

lemma sum_receipted:
  assumes "\<forall>(row, t) \<in> set out. receipted env st db row t"
  shows "sum_list (map (used_tokens \<circ> snd) (filter (\<lambda>(r, t). P r) out)) = sum_list (map row_tokens (filter P (map fst out)))"
  using assms by (induction out) (auto simp: receipted_tokens)

text \<open>
  C15.  Recorded tokens are receipted tokens.  When the token ledger is read, the fleet total is the
  sum of the tokens of the rows in the window, the agent's total the sum over the agent's rows;
  each of these rows has a receipt of its own: a reservation and a coverage record with
  one attempt, and a stored observation of a complete response with the row's counts.  No
  reservation is counted twice, exactly the rows' reservations are reported as committed, and a
  total outside the exact range of integers is not returned.
\<close>

theorem recorded_tokens_are_receipted:
  assumes "recorded_tokens env st ledger cutoff agent_id db = Inr (rec, com)"
  defines "rows \<equiv> filter (since cutoff) (tl_rows ledger)"
  shows "ru_fleet_tokens_total rec = sum_list (map row_tokens rows) \<and>
         ru_agent_tokens_total rec = sum_list (map row_tokens (filter (\<lambda>r. lower (mr_agent_id r) = agent_id) rows)) \<and>
         (\<forall>row \<in> set rows. \<exists>t. receipted env st db row t) \<and> distinct (map mr_guard_reservation_id rows) \<and>
         dom (map_of com) = mr_guard_reservation_id ` set rows \<and> ru_fleet_tokens_total rec \<le> MAX_COUNT"
proof -
  obtain out where out: "token_rows env st ledger (since cutoff) db = Inr out" and tot: "token_totals out agent_id = Inr (rec, com)"
    using assms(1) by (auto simp: recorded_tokens_def ebind_eq_Inr)
  have fst: "map fst out = rows" and rec: "\<forall>(row, t) \<in> set out. receipted env st db row t" and dist: "distinct (map mr_guard_reservation_id rows)"
    using token_rows_sound[OF out] by (auto simp: rows_def)
  note sums = sum_receipted[OF rec, unfolded fst]
  have "dom (map_of com) = mr_guard_reservation_id ` fst ` set out"
    using token_totals_sound(4)[OF tot] by (auto simp: dom_def image_comp)
  then have "dom (map_of com) = mr_guard_reservation_id ` set rows" by (metis fst set_map)
  moreover have "\<exists>t. receipted env st db row t" if "row \<in> set rows" for row
    using that rec unfolding fst[symmetric] by fastforce
  ultimately show ?thesis
    using token_totals_sound(1,2,3)[OF tot] sums[of "\<lambda>r. True"] sums[of "\<lambda>r. lower (mr_agent_id r) = agent_id"] dist
    by (simp add: count_ok_def)
qed

section \<open>Settling over any interleaving\<close>

text \<open>The writes of the guard database, settlement in tokens included.\<close>

datatype accounting_op =
    Guard_op store_op
  | Token_settle native_env store_config reservation_ref secs token_ledger

fun accounting_step :: "accounting_op \<Rightarrow> reservation_db \<Rightarrow> reservation_db" where
  "accounting_step (Guard_op op) db = store_step op db"
| "accounting_step (Token_settle env st ref now ledger) db = snd (settle_tokens env st ref now ledger db)"

lemma settle_tokens_bodyE:
  assumes "settle_tokens_body env st ref now ledger db = Inr (w, db')"
  obtains row t n rs where "token_rows env st ledger (of_reservation st (ref_reservation_id ref)) db = Inr [(row, t)]"
    "update_where (token_open st ref) (token_settled now t) (rd_reservations db) = (n, rs)" "w \<longleftrightarrow> 0 < n"
    "db' = (if 0 < n then generation_changed (sc_ledger_key st)
              (db\<lparr>rd_reservations := rs, rd_coverage := mark_recorded st ref (rd_coverage db)\<rparr>) else db)"
proof -
  obtain rows where rows: "token_rows env st ledger (of_reservation st (ref_reservation_id ref)) db = Inr rows"
    using assms by (auto simp: settle_tokens_body_def ebind_eq_Inr)
  have "\<exists>x. rows = [x]"
    using assms by (cases rows rule: remdups_adj.cases) (auto simp: settle_tokens_body_def rows)
  then obtain row t where one: "rows = [(row, t)]" by auto
  obtain n rs where u: "update_where (token_open st ref) (token_settled now t) (rd_reservations db) = (n, rs)" by fastforce
  have "w \<longleftrightarrow> 0 < n" "db' = (if 0 < n then generation_changed (sc_ledger_key st)
              (db\<lparr>rd_reservations := rs, rd_coverage := mark_recorded st ref (rd_coverage db)\<rparr>) else db)"
    using assms by (auto simp: settle_tokens_body_def rows one u)
  from that[OF rows[unfolded one] u this] show thesis .
qed

lemma token_settled_simps [simp]:
  "rv_id (token_settled now t r) = rv_id r" "rv_ledger_key (token_settled now t r) = rv_ledger_key r"
  "\<not> open_status (token_settled now t r)" "rv_status (token_settled now t r) = Rv_settled"
  "rv_actual_tokens (token_settled now t r) = Some (used_tokens t)"
  by (simp_all add: token_settled_def open_status_def)

lemma fenced_settle_tokens_body:
  assumes "settle_tokens_body env st ref now ledger db = Inr (w, db')"
  shows "fenced key db db'"
proof -
  obtain t n rs where u: "update_where (token_open st ref) (token_settled now t) (rd_reservations db) = (n, rs)"
    and db': "db' = (if 0 < n then generation_changed (sc_ledger_key st)
              (db\<lparr>rd_reservations := rs, rd_coverage := mark_recorded st ref (rd_coverage db)\<rparr>) else db)"
    by (rule settle_tokens_bodyE[OF assms]) blast
  have "ledger_rows k (db\<lparr>rd_reservations := rs, rd_coverage := mark_recorded st ref (rd_coverage db)\<rparr>) = ledger_rows k db"
    if "k \<noteq> sc_ledger_key st" for k
    using filter_update_other[of "token_open st ref" rv_ledger_key "sc_ledger_key st" "token_settled now t" k "rd_reservations db"] that u
    by (auto simp: ledger_rows_def token_open_def mark_recorded_def intro!: filter_update_other[where k = "sc_ledger_key st"])
  then show ?thesis unfolding db' by (simp add: fenced_change)
qed

lemma fenced_accounting_step: "fenced key db (accounting_step op db)"
proof (cases op)
  case (Token_settle env st ref now ledger)
  then show ?thesis by (auto simp: settle_tokens_def intro: fenced_transact[OF fenced_settle_tokens_body])
qed (simp add: fenced_step)

lemma fenced_accounting_run: "fenced key db (fold accounting_step ops db)"
  by (induction ops arbitrary: db) (auto intro: fenced_trans[OF fenced_accounting_step])

fun op_draws :: "string \<Rightarrow> accounting_op \<Rightarrow> bool" where
  "op_draws i (Guard_op op) = draws i op"
| "op_draws i (Token_settle env st ref now ledger) = False"

fun op_closes :: "string \<Rightarrow> string \<Rightarrow> accounting_op \<Rightarrow> reservation_db \<Rightarrow> bool" where
  "op_closes key i (Guard_op op) db = closes key i op db"
| "op_closes key i (Token_settle env st ref now ledger) db =
     (ref_reservation_id ref = i \<and> sc_ledger_key st = key \<and> fst (settle_tokens env st ref now ledger db) = Inr True)"

definition close_op :: "string \<Rightarrow> string \<Rightarrow> accounting_op \<Rightarrow> reservation_db \<Rightarrow> bool \<times> reservation_db" where
  "close_op key i op db = (op_closes key i op db, accounting_step op db)"

lemma settle_tokens_body_table:
  assumes "settle_tokens_body env st ref now ledger db = Inr (w, db')"
  shows "table_change {} (rd_reservations db) (rd_reservations db')"
proof -
  obtain t n rs where u: "update_where (token_open st ref) (token_settled now t) (rd_reservations db) = (n, rs)"
    and db': "db' = (if 0 < n then generation_changed (sc_ledger_key st)
              (db\<lparr>rd_reservations := rs, rd_coverage := mark_recorded st ref (rd_coverage db)\<rparr>) else db)"
    by (rule settle_tokens_bodyE[OF assms]) blast
  have "table_change {} (rd_reservations db) (snd (update_where (token_open st ref) (token_settled now t) (rd_reservations db)))"
    by (rule update_table) simp_all
  then show ?thesis unfolding db' u by simp
qed

lemma accounting_step_table: "table_change {i. op_draws i op} (rd_reservations db) (rd_reservations (accounting_step op db))"
proof (cases op)
  case (Token_settle env st ref now ledger)
  then show ?thesis by (auto simp: settle_tokens_def intro: transact_table[OF settle_tokens_body_table])
qed (simp add: store_step_table)

lemma settle_tokens_trueE:
  assumes "settle_tokens env st ref now ledger db = (Inr True, db')"
  obtains row t n rs where "token_rows env st ledger (of_reservation st (ref_reservation_id ref)) db = Inr [(row, t)]"
    "update_where (token_open st ref) (token_settled now t) (rd_reservations db) = (n, rs)" "0 < n"
    "db' = generation_changed (sc_ledger_key st) (db\<lparr>rd_reservations := rs, rd_coverage := mark_recorded st ref (rd_coverage db)\<rparr>)"
proof -
  have "settle_tokens_body env st ref now ledger db = Inr (True, db')"
    using assms by (auto simp: settle_tokens_def transact_def unavailable_def split: if_splits sum.splits)
  from settle_tokens_bodyE[OF this] that show thesis by metis
qed

lemma token_settle_closes:
  assumes "unique_ids db" "settle_tokens env st ref now ledger db = (Inr True, db')"
  shows "open_row (sc_ledger_key st) (ref_reservation_id ref) db \<and> \<not> open_row (sc_ledger_key st) (ref_reservation_id ref) db'"
proof -
  obtain t n rs where u: "update_where (token_open st ref) (token_settled now t) (rd_reservations db) = (n, rs)" "0 < n"
    and rs: "rd_reservations db' = rs"
    by (rule settle_tokens_trueE[OF assms(2)]) auto
  from update_where_closes[OF assms(1)[unfolded unique_ids_def] _ _ u, of "ref_reservation_id ref" "sc_ledger_key st"]
  show ?thesis unfolding open_row_def rs by (simp add: token_open_def)
qed

lemma op_closes_closes:
  assumes "unique_ids db" "op_closes key i op db"
  shows "open_row key i db \<and> \<not> open_row key i (accounting_step op db)"
proof (cases op)
  case (Token_settle env st ref now ledger)
  then have "settle_tokens env st ref now ledger db = (Inr True, accounting_step op db)"
    "ref_reservation_id ref = i" "sc_ledger_key st = key"
    using assms(2) by (auto simp: prod_eq_iff)
  from token_settle_closes[OF assms(1) this(1)] this(2,3) show ?thesis by simp
qed (use assms closes_closes in simp)

lemma unique_ids_accounting: "unique_ids db \<Longrightarrow> unique_ids (accounting_step op db)"
  using accounting_step_table[of op db] by (simp add: unique_ids_def table_change_def)

lemma open_row_accounting: "\<not> op_draws i op \<Longrightarrow> open_row key i (accounting_step op db) \<Longrightarrow> open_row key i db"
  using accounting_step_table[of op db] by (auto simp: open_row_def table_change_def)

interpretation close_any: one_shot
  "\<lambda>op db. if op_draws i op then (False, db) else close_op key i op db" "open_row key i" unique_ids for key i
  by unfold_locales
    (auto simp: close_op_def op_closes_closes unique_ids_accounting split: if_splits dest: open_row_accounting)

text \<open>
  C13.  A reservation is closed at most once, in money or in tokens.  Over any interleaving of
  the operations of any stores on the guard database, settlements in tokens included, in which the
  reservation's random identifier is not drawn again, at most one settlement or release of it succeeds.
\<close>

theorem closed_at_most_once_any_basis:
  assumes "unique_ids db" "\<forall>op \<in> set ops. \<not> op_draws i op"
  shows "wins (close_op key i) ops db \<le> 1"
proof -
  have "wins (close_op key i) ops db =
      wins (\<lambda>op db. if op_draws i op then (False, db) else close_op key i op db) ops db"
    using assms(2) by (intro wins_cong) simp
  then show ?thesis using close_any.wins_at_most_once[OF assms(1)] by simp
qed

text \<open>
  C14.  A settlement in tokens is exact.  When it reports success, the ledger has one row of
  the reservation, that row is receipted, one reservation was open, and it is now settled with the
  row's tokens; no other reservation changes, and its coverage is recorded.
\<close>

theorem token_settlement_is_exact:
  assumes "settle_tokens env st ref now ledger db = (Inr True, db')" "unique_ids db"
  shows "\<exists>row t r. filter (of_reservation st (ref_reservation_id ref)) (tl_rows ledger) = [row] \<and> receipted env st db row t \<and>
           r \<in> set (rd_reservations db) \<and> token_open st ref r \<and>
           rd_reservations db' = map (\<lambda>q. if q = r then token_settled now t r else q) (rd_reservations db) \<and>
           rv_actual_tokens (token_settled now t r) = Some (row_tokens row) \<and>
           rd_coverage db' = mark_recorded st ref (rd_coverage db)"
proof -
  let ?open = "token_open st ref"
  obtain row t n rs where out: "token_rows env st ledger (of_reservation st (ref_reservation_id ref)) db = Inr [(row, t)]"
    and u: "update_where ?open (token_settled now t) (rd_reservations db) = (n, rs)" "0 < n"
    and db': "db' = generation_changed (sc_ledger_key st) (db\<lparr>rd_reservations := rs, rd_coverage := mark_recorded st ref (rd_coverage db)\<rparr>)"
    by (rule settle_tokens_trueE[OF assms(1)])
  obtain r where r: "r \<in> set (rd_reservations db)" "?open r"
    using u by (auto simp: update_where_def filter_empty_conv)
  have only: "?open q \<longleftrightarrow> q = r" if "q \<in> set (rd_reservations db)" for q
    using that r assms(2) unfolding unique_ids_def token_open_def distinct_map by (metis inj_onD)
  have "rs = map (\<lambda>q. if ?open q then token_settled now t q else q) (rd_reservations db)"
    using u(1) by (simp add: update_where_def)
  then have "rs = map (\<lambda>q. if q = r then token_settled now t r else q) (rd_reservations db)"
    by (simp add: only cong: map_cong)
  moreover note token_rows_sound[OF out]
  ultimately show ?thesis
    using r by (intro exI[of _ row] exI[of _ t] exI[of _ r]) (auto simp: db' receipted_tokens)
qed

section \<open>Snapshots are consistent\<close>

lemma read_generation_is: "read_generation st db = Inr g \<Longrightarrow> generation (sc_ledger_key st) db = g"
  by (auto simp: read_generation_def generation_def ebind_eq_Inr split: option.splits)

lemma coverage_reasons_none:
  assumes "coverage_reasons com cov = []" "c \<in> set cov"
  shows "cov_ended_at c \<noteq> None" "cov_basis c = Provider_tokens"
    "0 < cov_attempts c \<Longrightarrow> cov_attempts c = 1 \<and> map_of com (cov_reservation_id c) \<noteq> None"
  using assms by (auto simp: coverage_reasons_def list_ex_iff split: if_splits) fastforce+

lemma token_snapshotE:
  assumes "token_snapshot_of env le st session window owner now ledger db fence = Inr snap"
  obtains rows who rec com pending where
    "generation (sc_ledger_key st) db = ts_generation snap" "generation (sc_ledger_key st) fence = ts_generation snap"
    "token_rows env st ledger (since (le_stamp le (now - of_int window))) db = Inr rows" "token_totals rows who = Inr (rec, com)"
    "ts_recorded snap = token_view_of who rec" "active st who now com db = Inr pending" "ts_pending snap = token_view_of who pending"
    "ts_coverage_complete snap \<Longrightarrow> coverage_reasons com (recent_coverage st (now - of_int window) db) = [] \<and> \<not> uncovered_reservation st db"
proof -
  let ?cov = "recent_coverage st (now - of_int window) db" and ?stamp = "since (le_stamp le (now - of_int window))"
  obtain gen rows rec com pending where g: "read_generation st db = Inr gen" and rows: "token_rows env st ledger ?stamp db = Inr rows"
    and who: "token_totals rows (case session_agents session rows of [a] \<Rightarrow> a | _ \<Rightarrow> []) = Inr (rec, com)"
    and act: "active st (case session_agents session rows of [a] \<Rightarrow> a | _ \<Rightarrow> []) now com db = Inr pending"
    using assms by (fastforce simp: token_snapshot_of_def ebind_eq_Inr Let_def)
  define agent where "agent = (case session_agents session rows of [a] \<Rightarrow> a | _ \<Rightarrow> [])"
  define reasons where "reasons = accounting_reasons st (session_agents session rows) com ?cov db"
  have snap: "read_generation st fence = Inr gen" "ts_generation snap = gen" "ts_recorded snap = token_view_of agent rec"
    "ts_pending snap = token_view_of agent pending" "ts_coverage_complete snap \<longleftrightarrow> reasons = []"
    using assms unfolding token_snapshot_of_def
    by (auto simp: ebind_eq_Inr Let_def g rows who[folded agent_def] act[folded agent_def] simp flip: agent_def reasons_def)
  show thesis
    by (rule that[OF _ _ rows who[folded agent_def] snap(3) act[folded agent_def] snap(4)])
      (use snap(2,5) read_generation_is[OF g] read_generation_is[OF snap(1)] in \<open>auto simp: reasons_def accounting_reasons_def split: if_splits\<close>)
qed

text \<open>
  C16.  A token snapshot shows one state of the books.  If other processes write to the guard
  database in any way between the reading and the final check, and the snapshot is still returned,
  then no reservation and no coverage record of the ledger has changed.  Its fleet total is the
  sum of the receipted rows of the window.  If it says that coverage is complete, every recent
  request has ended, and every one that was sent was sent once and has its row in that sum.
\<close>

theorem token_snapshot_is_consistent:
  assumes "token_snapshot_of env le st session window owner now ledger db (fold accounting_step ops db) = Inr snap"
  defines "rows \<equiv> filter (since (le_stamp le (now - of_int window))) (tl_rows ledger)"
  shows "ledger_rows (sc_ledger_key st) (fold accounting_step ops db) = ledger_rows (sc_ledger_key st) db \<and>
         tv_fleet_tokens_total (ts_recorded snap) = sum_list (map row_tokens rows) \<and>
         (\<forall>row \<in> set rows. \<exists>t. receipted env st db row t) \<and>
         (ts_coverage_complete snap \<longrightarrow>
            (\<forall>c \<in> set (recent_coverage st (now - of_int window) db).
               cov_ended_at c \<noteq> None \<and>
               (0 < cov_attempts c \<longrightarrow> cov_attempts c = 1 \<and> cov_reservation_id c \<in> mr_guard_reservation_id ` set rows)))"
proof -
  obtain out who rec com where g: "generation (sc_ledger_key st) db = ts_generation snap"
      "generation (sc_ledger_key st) (fold accounting_step ops db) = ts_generation snap"
    and out: "token_rows env st ledger (since (le_stamp le (now - of_int window))) db = Inr out"
    and tot: "token_totals out who = Inr (rec, com)" and rec: "ts_recorded snap = token_view_of who rec"
    and cov: "ts_coverage_complete snap \<Longrightarrow> coverage_reasons com (recent_coverage st (now - of_int window) db) = []"
    by (rule token_snapshotE[OF assms(1)]) blast
  have fst: "map fst out = rows" and receipts: "\<forall>(row, t) \<in> set out. receipted env st db row t"
    using token_rows_sound[OF out] by (auto simp: rows_def)
  have "\<exists>t. receipted env st db row t" if "row \<in> set rows" for row
    using that receipts unfolding fst[symmetric] by fastforce
  moreover have "ledger_rows (sc_ledger_key st) (fold accounting_step ops db) = ledger_rows (sc_ledger_key st) db"
    using fenced_accounting_run[of "sc_ledger_key st" db ops] g by (simp add: fenced_def)
  moreover have "tv_fleet_tokens_total (ts_recorded snap) = sum_list (map row_tokens rows)"
    using token_totals_sound(1)[OF tot] sum_receipted[OF receipts, of "\<lambda>r. True"] fst by (simp add: rec token_view_of_def)
  moreover have "cov_reservation_id c \<in> mr_guard_reservation_id ` set rows" if "map_of com (cov_reservation_id c) \<noteq> None" for c
    using that token_totals_sound(4)[OF tot] unfolding fst[symmetric] by (auto simp: image_comp)
  ultimately show ?thesis using coverage_reasons_none[OF cov] by blast
qed

section \<open>A settled request\<close>

definition example_observation :: token_observation where
  "example_observation =
     \<lparr>to_body_sha256 = Some (replicate 64 CHR ''0''), to_provider = Some ''anthropic'', to_transport = Some ''anthropic_messages_https'',
      to_authentication_kind = Some ''api_key'', to_authentication_provenance = Some ''final_forwarded_headers'',
      to_profile_sha256 = Some (replicate 64 CHR ''0''), to_feature_profile_status = ''unclassified'', to_request_model = Some ''claude'',
      to_response_model = Some ''claude'', to_input_modality = Some ''text'', to_output_modality = Some ''text'',
      to_uncached_input_tokens = Some 3, to_cache_read_tokens = Some 0, to_cache_creation_tokens = Some 0, to_input_tokens = Some 3,
      to_output_tokens = Some 2, to_response_complete = True, to_token_usage_complete = True, to_token_reason_codes = [],
      to_comparison_reason_codes = [''feature_profile_unclassified''], to_billing_semantics = ''unestablished''\<rparr>"

definition receipt_env :: native_env where
  "receipt_env = example_native\<lparr>ne_pairs := (\<lambda>s. if s = ''R'' then Some (tokens_to_dict example_observation) else None),
                                ne_dumps := (\<lambda>j. ''R'')\<rparr>"

definition token_store :: store_config where
  "token_store = example_store\<lparr>sc_basis := Provider_tokens\<rparr>"

definition token_ref :: reservation_ref where
  "token_ref = \<lparr>ref_store_path = ''/guard.db'', ref_ledger_key = sc_ledger_key token_store, ref_reservation_id = ''tpr'',
                ref_accounting_basis = Provider_tokens\<rparr>"

definition token_db :: reservation_db where
  "token_db = \<lparr>rd_reservations = [reservation_of token_store ''tpr'' 900 example_args],
     rd_coverage = [(coverage_of token_store ''c'' ''s'' ''w'' 900)\<lparr>cov_attempts := 1, cov_reservation_id := ''tpr'',
                      cov_ended_at := Some 950, cov_tokens := Some ''R''\<rparr>],
     rd_generation = [(sc_ledger_key token_store, \<lparr>gn_generation = 3, gn_basis = Some Provider_tokens\<rparr>)]\<rparr>"

definition example_ledger :: token_ledger where
  "example_ledger = \<lparr>tl_domain = Some (''led'', Some ''sha''), tl_rows =
     [\<lparr>mr_timestamp = ''2026'', mr_session_id = ''s'', mr_agent_id = ''A'', mr_estimated_cost = None, mr_input_tokens = Some 3,
       mr_output_tokens = Some 2, mr_cache_read_tokens = Some 0, mr_guard_reservation_id = ''tpr'',
       mr_guard_ledger_key = sc_ledger_key token_store, mr_guard_usage_complete = False, tr_model = ''claude'',
       tr_token_usage_complete = 1, tr_cache_creation_tokens = Some 0, tr_provider_input_tokens = Some 3,
       tr_provider_output_tokens = Some 2, tr_provider_cache_read_tokens = Some 0, tr_provider_cache_creation_tokens = Some 0,
       tr_provider_usage_source = ''provider_usage_object'', tr_provider_usage_provider = Some ''anthropic''\<rparr>]\<rparr>"

theorem recorded_tokens_are_receipted_witness:
  "\<exists>rec com. recorded_tokens receipt_env token_store example_ledger ''2026'' ''a'' token_db = Inr (rec, com) \<and>
     ru_fleet_tokens_total rec = sum_list (map row_tokens (tl_rows example_ledger)) \<and> ru_fleet_tokens_total rec = 5"
proof -
  have ok: "case recorded_tokens receipt_env token_store example_ledger ''2026'' ''a'' token_db of
      Inr (rec, com) \<Rightarrow> ru_fleet_tokens_total rec = 5 | _ \<Rightarrow> False" by code_simp
  then obtain rec com where r: "recorded_tokens receipt_env token_store example_ledger ''2026'' ''a'' token_db = Inr (rec, com)"
    "ru_fleet_tokens_total rec = 5" by (auto split: sum.splits)
  have "filter (since ''2026'') (tl_rows example_ledger) = tl_rows example_ledger" by (simp add: example_ledger_def since_def)
  with recorded_tokens_are_receipted[OF r(1)] r show ?thesis by auto
qed

theorem closed_at_most_once_any_basis_witness:
  "wins (close_op (sc_ledger_key token_store) ''tpr'')
     [Token_settle receipt_env token_store token_ref 1000 example_ledger, Guard_op (S_release token_store token_ref 1001),
      Token_settle receipt_env token_store token_ref 1002 example_ledger] token_db \<le> 1"
  by (rule closed_at_most_once_any_basis) (simp_all add: unique_ids_def token_db_def)

theorem token_settlement_is_exact_witness:
  "\<exists>db' row t r. settle_tokens receipt_env token_store token_ref 1000 example_ledger token_db = (Inr True, db') \<and>
     receipted receipt_env token_store token_db row t \<and> r \<in> set (rd_reservations token_db) \<and>
     rd_reservations db' = [token_settled 1000 t r]"
proof -
  have "fst (settle_tokens receipt_env token_store token_ref 1000 example_ledger token_db) = Inr True" by code_simp
  then obtain db' where s: "settle_tokens receipt_env token_store token_ref 1000 example_ledger token_db = (Inr True, db')"
    by (metis prod.collapse)
  have "unique_ids token_db" by (simp add: unique_ids_def token_db_def)
  from token_settlement_is_exact[OF s this] s show ?thesis by (fastforce simp: token_db_def)
qed

theorem token_snapshot_is_consistent_witness:
  "\<exists>snap. token_snapshot_of receipt_env example_env token_store ''s'' 3600 ''w'' 1000 example_ledger token_db
            (fold accounting_step [Guard_op (S_finish token_store ''other'' 999)] token_db) = Inr snap \<and>
     ts_coverage_complete snap \<and> tv_fleet_tokens_total (ts_recorded snap) = sum_list (map row_tokens (tl_rows example_ledger))"
proof -
  let ?snap = "token_snapshot_of receipt_env example_env token_store ''s'' 3600 ''w'' 1000 example_ledger token_db
            (fold accounting_step [Guard_op (S_finish token_store ''other'' 999)] token_db)"
  have "case ?snap of Inr snap \<Rightarrow> ts_coverage_complete snap | _ \<Rightarrow> False" by code_simp
  then obtain snap where s: "?snap = Inr snap" "ts_coverage_complete snap" by (auto split: sum.splits)
  have "filter (since (le_stamp example_env (1000 - of_int 3600))) (tl_rows example_ledger) = tl_rows example_ledger"
    by (simp add: example_ledger_def since_def example_env_def)
  with token_snapshot_is_consistent[OF s(1)] s show ?thesis by auto
qed

end
