(* ===== verification/Pricing.thy ===== *)
theory Pricing
  imports Observations
begin

text \<open>
  Context-aware prices (\<^verbatim>\<open>models/_pricing.py\<close>): a rate band is a complete set of rates with
  the contexts in which it applies; the most specific band that matches a request is selected.  Rates
  are rationals, so no rate is infinite; \<open>pt\<close> reads a time stamp that carries a time zone.
\<close>

section \<open>Contexts\<close>

record pricing_context =
  pc_input_tokens :: "int option"
  pc_input_modality :: string
  pc_output_modality :: string
  pc_service_tier :: string
  pc_region :: string
  pc_cache_ttl_seconds :: "int option"

definition word_of :: "string \<Rightarrow> py_error + string" where
  "word_of v = (let w = lower (strip v) in ebind (demand (w \<noteq> []) ''field must be non-empty'') (\<lambda>_. Inr w))"

definition PricingContext :: "pricing_context \<Rightarrow> py_error + pricing_context" where
  "PricingContext c =
     ebind (demand (holds_for (\<lambda>n. 0 \<le> n) (pc_input_tokens c)) ''input_tokens must be non-negative'') (\<lambda>_.
     ebind (demand (holds_for (\<lambda>n. 0 < n) (pc_cache_ttl_seconds c)) ''cache_ttl_seconds must be a positive integer'') (\<lambda>_.
     ebind (word_of (pc_input_modality c)) (\<lambda>i. ebind (word_of (pc_output_modality c)) (\<lambda>out.
     ebind (word_of (pc_service_tier c)) (\<lambda>tier. ebind (word_of (pc_region c)) (\<lambda>region.
       Inr (c\<lparr>pc_input_modality := i, pc_output_modality := out, pc_service_tier := tier, pc_region := region\<rparr>)))))))"

section \<open>Rate bands\<close>

record rate_band =
  rb_band_id :: string
  rb_input_per_mtok :: rat
  rb_output_per_mtok :: rat
  rb_source :: string
  rb_source_url :: string
  rb_cache_read_per_mtok :: "rat option"
  rb_cache_write_per_mtok :: "rat option"
  rb_min_input_tokens :: int
  rb_max_input_tokens :: "int option"
  rb_input_modalities :: "string list"
  rb_output_modalities :: "string list"
  rb_service_tiers :: "string list"
  rb_regions :: "string list"
  rb_cache_ttl_seconds :: "int option"
  rb_verified_at :: "string option"
  rb_expires_at :: "string option"

definition any_word :: string where "any_word = ''*''"

definition normalize_words :: "string list \<Rightarrow> py_error + string list" where
  "normalize_words vs =
     (let ws = map (\<lambda>v. lower (strip v)) vs in
      ebind (demand (ws \<noteq> [] \<and> [] \<notin> set ws) ''selector must contain non-empty strings'') (\<lambda>_.
      ebind (demand (distinct ws) ''selector must contain unique values'') (\<lambda>_.
      ebind (demand (any_word \<in> set ws \<longrightarrow> length ws = 1) ''wildcard must be the only value'') (\<lambda>_. Inr ws))))"

definition normalize_selector :: "json \<Rightarrow> py_error + string list" where
  "normalize_selector v =
     (case v of
        J_null \<Rightarrow> Inr [any_word]
      | J_list xs \<Rightarrow> ebind (each_result (\<lambda>x. case x of J_str s \<Rightarrow> Inr s | _ \<Rightarrow> Inl (ValueError ''selector must contain only strings'')) xs)
                       normalize_words
      | _ \<Rightarrow> Inl (ValueError ''selector must be a list of strings''))"

definition parse_pricing_timestamp :: "(string \<Rightarrow> secs option) \<Rightarrow> string option \<Rightarrow> py_error + secs" where
  "parse_pricing_timestamp pt v =
     (case v of
        None \<Rightarrow> Inl (ValueError ''pricing timestamp must be an ISO string with timezone'')
      | Some s \<Rightarrow> (case pt s of None \<Rightarrow> Inl (ValueError ''pricing timestamp must include a timezone'') | Some t \<Rightarrow> Inr t))"

definition optional_timestamp :: "(string \<Rightarrow> secs option) \<Rightarrow> string option \<Rightarrow> py_error + secs option" where
  "optional_timestamp pt v = (case v of None \<Rightarrow> Inr None | Some s \<Rightarrow> ebind (parse_pricing_timestamp pt v) (\<lambda>t. Inr (Some t)))"

definition dates_ok :: "secs option \<Rightarrow> secs option \<Rightarrow> bool" where
  "dates_ok verified expires \<longleftrightarrow>
     (case expires of None \<Rightarrow> True | Some e \<Rightarrow> (case verified of None \<Rightarrow> False | Some v \<Rightarrow> v < e))"

definition RateBand :: "(string \<Rightarrow> secs option) \<Rightarrow> rate_band \<Rightarrow> py_error + rate_band" where
  "RateBand pt b =
     (let band_id = strip (rb_band_id b); source = lower (strip (rb_source b)); url = strip (rb_source_url b) in
      ebind (demand (band_id \<noteq> []) ''rate band id must be non-empty'') (\<lambda>_.
      ebind (demand (0 \<le> rb_input_per_mtok b \<and> 0 \<le> rb_output_per_mtok b \<and> holds_for (\<lambda>x. 0 \<le> x) (rb_cache_read_per_mtok b) \<and>
                     holds_for (\<lambda>x. 0 \<le> x) (rb_cache_write_per_mtok b)) ''rates must be finite and non-negative'') (\<lambda>_.
      ebind (demand (0 \<le> rb_min_input_tokens b) ''min_input_tokens must be non-negative'') (\<lambda>_.
      ebind (demand (holds_for (\<lambda>m. rb_min_input_tokens b < m) (rb_max_input_tokens b)) ''max_input_tokens must be greater than min_input_tokens'') (\<lambda>_.
      ebind (demand (holds_for (\<lambda>t. 0 < t) (rb_cache_ttl_seconds b)) ''cache_ttl_seconds must be a positive integer'') (\<lambda>_.
      ebind (optional_timestamp pt (rb_verified_at b)) (\<lambda>verified. ebind (optional_timestamp pt (rb_expires_at b)) (\<lambda>expires.
      ebind (demand (dates_ok verified expires) ''pricing expiry must follow verification'') (\<lambda>_.
      ebind (normalize_words (rb_input_modalities b)) (\<lambda>i. ebind (normalize_words (rb_output_modalities b)) (\<lambda>out.
      ebind (normalize_words (rb_service_tiers b)) (\<lambda>tiers. ebind (normalize_words (rb_regions b)) (\<lambda>regions.
      ebind (demand (source \<noteq> []) ''rate band source must be non-empty'') (\<lambda>_.
      ebind (demand (url \<noteq> []) ''rate band source_url must be non-empty'') (\<lambda>_.
        Inr (b\<lparr>rb_band_id := band_id, rb_input_modalities := i, rb_output_modalities := out, rb_service_tiers := tiers,
               rb_regions := regions, rb_source := source, rb_source_url := url\<rparr>))))))))))))))))"

section \<open>Catalog entries\<close>

definition required_string :: "json_fields \<Rightarrow> string \<Rightarrow> py_error + string" where
  "required_string d k =
     (case map_of d k of
        None \<Rightarrow> Inl (ValueError ''rate band missing required field'')
      | Some (J_str s) \<Rightarrow> Inr s
      | Some _ \<Rightarrow> Inl (ValueError ''field must be a string''))"

definition rate_number :: "json_fields \<Rightarrow> string \<Rightarrow> py_error + rat" where
  "rate_number d k =
     (case map_of d k of
        None \<Rightarrow> Inl (ValueError ''rate band missing required field'')
      | Some (J_int n) \<Rightarrow> Inr (of_int n)
      | Some (J_float x) \<Rightarrow> Inr x
      | Some _ \<Rightarrow> Inl (ValueError ''field must be a number''))"

definition optional_number :: "json_fields \<Rightarrow> string \<Rightarrow> py_error + rat option" where
  "optional_number d k = (case map_of d k of None \<Rightarrow> Inr None | Some _ \<Rightarrow> ebind (rate_number d k) (\<lambda>x. Inr (Some x)))"

definition optional_integer :: "json_fields \<Rightarrow> string \<Rightarrow> int option \<Rightarrow> py_error + int option" where
  "optional_integer d k absent =
     (case map_of d k of
        None \<Rightarrow> Inr absent
      | Some (J_int n) \<Rightarrow> Inr (Some n)
      | Some _ \<Rightarrow> Inl (ValueError ''field must be an integer''))"

text \<open>A sub-object of the entry with known fields only; absent means empty.\<close>

definition section_of :: "json_fields \<Rightarrow> string \<Rightarrow> string set \<Rightarrow> py_error + json_fields" where
  "section_of d k known =
     (case map_of d k of
        None \<Rightarrow> Inr []
      | Some (J_obj s) \<Rightarrow> ebind (demand (set (keys s) \<subseteq> known) ''rate band has unknown fields'') (\<lambda>_. Inr s)
      | Some _ \<Rightarrow> Inl (ValueError ''rate band section must be an object''))"

definition timestamp_field :: "json_fields \<Rightarrow> string \<Rightarrow> py_error + string option" where
  "timestamp_field d k =
     (case get_field d k of
        J_null \<Rightarrow> Inr None
      | J_str s \<Rightarrow> Inr (Some s)
      | _ \<Rightarrow> Inl (ValueError ''pricing timestamp must be an ISO string with timezone''))"

definition from_mapping :: "(string \<Rightarrow> secs option) \<Rightarrow> json \<Rightarrow> py_error + rate_band" where
  "from_mapping pt v =
     (case v of
        J_obj d \<Rightarrow>
          ebind (demand (set (keys d) \<subseteq> {''id'', ''selectors'', ''rates'', ''provenance''}) ''rate band has unknown fields'') (\<lambda>_.
          ebind (section_of d ''selectors'' {''min_input_tokens'', ''max_input_tokens'', ''input_modalities'', ''output_modalities'',
                   ''service_tiers'', ''regions'', ''cache_ttl_seconds''}) (\<lambda>sel.
          ebind (section_of d ''rates'' {''input'', ''output'', ''cache_read'', ''cache_write''}) (\<lambda>rates.
          ebind (section_of d ''provenance'' {''source'', ''source_url'', ''verified_at'', ''expires_at''}) (\<lambda>prov.
          ebind (required_string d ''id'') (\<lambda>band_id.
          ebind (rate_number rates ''input'') (\<lambda>i. ebind (rate_number rates ''output'') (\<lambda>out.
          ebind (required_string prov ''source'') (\<lambda>source. ebind (required_string prov ''source_url'') (\<lambda>url.
          ebind (optional_number rates ''cache_read'') (\<lambda>cr. ebind (optional_number rates ''cache_write'') (\<lambda>cw.
          ebind (optional_integer sel ''min_input_tokens'' (Some 0)) (\<lambda>lo. ebind (optional_integer sel ''max_input_tokens'' None) (\<lambda>hi.
          ebind (normalize_selector (get_field sel ''input_modalities'')) (\<lambda>im.
          ebind (normalize_selector (get_field sel ''output_modalities'')) (\<lambda>om.
          ebind (normalize_selector (get_field sel ''service_tiers'')) (\<lambda>tiers.
          ebind (normalize_selector (get_field sel ''regions'')) (\<lambda>regions.
          ebind (optional_integer sel ''cache_ttl_seconds'' None) (\<lambda>ttl.
          ebind (timestamp_field prov ''verified_at'') (\<lambda>verified. ebind (timestamp_field prov ''expires_at'') (\<lambda>expires.
            RateBand pt \<lparr>rb_band_id = band_id, rb_input_per_mtok = i, rb_output_per_mtok = out, rb_source = source, rb_source_url = url,
              rb_cache_read_per_mtok = cr, rb_cache_write_per_mtok = cw, rb_min_input_tokens = the lo, rb_max_input_tokens = hi,
              rb_input_modalities = im, rb_output_modalities = om, rb_service_tiers = tiers, rb_regions = regions,
              rb_cache_ttl_seconds = ttl, rb_verified_at = verified, rb_expires_at = expires\<rparr>))))))))))))))))))))
      | _ \<Rightarrow> Inl (ValueError ''rate band must be an object''))"

definition opt_entry :: "string \<Rightarrow> ('a \<Rightarrow> json) \<Rightarrow> 'a option \<Rightarrow> json_fields" where
  "opt_entry k f v = (case v of None \<Rightarrow> [] | Some x \<Rightarrow> [(k, f x)])"

definition to_mapping :: "rate_band \<Rightarrow> json" where
  "to_mapping b = J_obj
     [(''id'', J_str (rb_band_id b)),
      (''selectors'', J_obj ([(''min_input_tokens'', J_int (rb_min_input_tokens b)),
          (''input_modalities'', J_list (map J_str (rb_input_modalities b))), (''output_modalities'', J_list (map J_str (rb_output_modalities b))),
          (''service_tiers'', J_list (map J_str (rb_service_tiers b))), (''regions'', J_list (map J_str (rb_regions b)))] @
          opt_entry ''max_input_tokens'' J_int (rb_max_input_tokens b) @ opt_entry ''cache_ttl_seconds'' J_int (rb_cache_ttl_seconds b))),
      (''rates'', J_obj ([(''input'', J_float (rb_input_per_mtok b)), (''output'', J_float (rb_output_per_mtok b))] @
          opt_entry ''cache_read'' J_float (rb_cache_read_per_mtok b) @ opt_entry ''cache_write'' J_float (rb_cache_write_per_mtok b))),
      (''provenance'', J_obj ([(''source'', J_str (rb_source b)), (''source_url'', J_str (rb_source_url b))] @
          opt_entry ''verified_at'' J_str (rb_verified_at b) @ opt_entry ''expires_at'' J_str (rb_expires_at b)))]"

section \<open>Selection\<close>

definition selector_matches :: "string list \<Rightarrow> string \<Rightarrow> bool" where
  "selector_matches s v \<longleftrightarrow> s = [any_word] \<or> v \<in> set s"

definition range_matches :: "rate_band \<Rightarrow> int option \<Rightarrow> bool" where
  "range_matches b tokens =
     (case tokens of
        None \<Rightarrow> rb_min_input_tokens b = 0 \<and> rb_max_input_tokens b = None
      | Some n \<Rightarrow> rb_min_input_tokens b \<le> n \<and> holds_for (\<lambda>m. n < m) (rb_max_input_tokens b))"

definition band_matches :: "rate_band \<Rightarrow> pricing_context \<Rightarrow> bool" where
  "band_matches b c \<longleftrightarrow>
     range_matches b (pc_input_tokens c) \<and> selector_matches (rb_input_modalities b) (pc_input_modality c) \<and>
     selector_matches (rb_output_modalities b) (pc_output_modality c) \<and> selector_matches (rb_service_tiers b) (pc_service_tier c) \<and>
     selector_matches (rb_regions b) (pc_region c) \<and>
     (rb_cache_ttl_seconds b = None \<or> rb_cache_ttl_seconds b = pc_cache_ttl_seconds c)"

text \<open>Is one side contained in the other, and properly?\<close>

definition selector_subset :: "string list \<Rightarrow> string list \<Rightarrow> bool \<times> bool" where
  "selector_subset l r =
     (if r = [any_word] then (True, l \<noteq> [any_word])
      else if l = [any_word] then (False, False)
      else (set l \<subseteq> set r, set l \<subset> set r))"

definition range_subset :: "rate_band \<Rightarrow> rate_band \<Rightarrow> bool \<times> bool" where
  "range_subset l r =
     (rb_min_input_tokens r \<le> rb_min_input_tokens l \<and>
        holds_for (\<lambda>m. case rb_max_input_tokens l of None \<Rightarrow> False | Some k \<Rightarrow> k \<le> m) (rb_max_input_tokens r),
      rb_min_input_tokens r < rb_min_input_tokens l \<or>
        (case rb_max_input_tokens l of None \<Rightarrow> False | Some k \<Rightarrow> holds_for (\<lambda>m. k < m) (rb_max_input_tokens r)))"

definition ttl_subset :: "int option \<Rightarrow> int option \<Rightarrow> bool \<times> bool" where
  "ttl_subset l r = (r = None \<or> l = r, r = None \<and> l \<noteq> None)"

definition is_more_specific_than :: "rate_band \<Rightarrow> rate_band \<Rightarrow> bool" where
  "is_more_specific_than a b =
     (let cs = [selector_subset (rb_input_modalities a) (rb_input_modalities b), selector_subset (rb_output_modalities a) (rb_output_modalities b),
                selector_subset (rb_service_tiers a) (rb_service_tiers b), selector_subset (rb_regions a) (rb_regions b),
                ttl_subset (rb_cache_ttl_seconds a) (rb_cache_ttl_seconds b), range_subset a b]
      in list_all fst cs \<and> list_ex snd cs)"

text \<open>No band is more specific than itself, so the code's exclusion of the band itself changes nothing.\<close>

definition select_rate_band :: "rate_band list \<Rightarrow> pricing_context option \<Rightarrow> py_error + rate_band option" where
  "select_rate_band bands context =
     (case context of
        None \<Rightarrow> Inr None
      | Some c \<Rightarrow>
          let ms = filter (\<lambda>b. band_matches b c) bands in
          if ms = [] then Inr None
          else (case filter (\<lambda>b. \<not> list_ex (\<lambda>other. is_more_specific_than other b) ms) ms of
                  [b] \<Rightarrow> Inr (Some b)
                | _ \<Rightarrow> Inl (ValueError ''ambiguous pricing rate bands'')))"

section \<open>Catalog entries read back\<close>

lemma normalize_words_fixed:
  "normalize_words vs = Inr ws \<Longrightarrow> ws = map (\<lambda>v. lower (strip v)) vs \<and> ws \<noteq> [] \<and> [] \<notin> set ws \<and> distinct ws \<and> (any_word \<in> set ws \<longrightarrow> length ws = 1)"
  by (auto simp: normalize_words_def Let_def ebind_eq_Inr)

lemma each_str: "each_result (\<lambda>x. case x of J_str s \<Rightarrow> Inr s | _ \<Rightarrow> e) (map J_str xs) = Inr xs"
  by (induction xs) simp_all

lemma normalize_selector_list: "normalize_selector (J_list (map J_str vs)) = normalize_words vs"
  by (simp add: normalize_selector_def each_str)

lemma RateBand_fixed:
  assumes "RateBand pt b = Inr b"
  shows "normalize_words (rb_input_modalities b) = Inr (rb_input_modalities b)"
    "normalize_words (rb_output_modalities b) = Inr (rb_output_modalities b)"
    "normalize_words (rb_service_tiers b) = Inr (rb_service_tiers b)" "normalize_words (rb_regions b) = Inr (rb_regions b)"
    "0 \<le> rb_min_input_tokens b" "holds_for (\<lambda>m. rb_min_input_tokens b < m) (rb_max_input_tokens b)"
    "holds_for (\<lambda>t. 0 < t) (rb_cache_ttl_seconds b)"
proof -
  obtain i out tiers regions where n: "normalize_words (rb_input_modalities b) = Inr i" "normalize_words (rb_output_modalities b) = Inr out"
      "normalize_words (rb_service_tiers b) = Inr tiers" "normalize_words (rb_regions b) = Inr regions"
    and b: "b = b\<lparr>rb_band_id := strip (rb_band_id b), rb_input_modalities := i, rb_output_modalities := out, rb_service_tiers := tiers,
               rb_regions := regions, rb_source := lower (strip (rb_source b)), rb_source_url := strip (rb_source_url b)\<rparr>"
    and r: "0 \<le> rb_min_input_tokens b" "holds_for (\<lambda>m. rb_min_input_tokens b < m) (rb_max_input_tokens b)"
      "holds_for (\<lambda>t. 0 < t) (rb_cache_ttl_seconds b)"
    using assms by (simp add: RateBand_def Let_def ebind_eq_Inr) metis
  have "i = rb_input_modalities b" by (subst b) simp
  moreover have "out = rb_output_modalities b" by (subst b) simp
  moreover have "tiers = rb_service_tiers b" by (subst b) simp
  moreover have "regions = rb_regions b" by (subst b) simp
  ultimately show "normalize_words (rb_input_modalities b) = Inr (rb_input_modalities b)"
    "normalize_words (rb_output_modalities b) = Inr (rb_output_modalities b)"
    "normalize_words (rb_service_tiers b) = Inr (rb_service_tiers b)" "normalize_words (rb_regions b) = Inr (rb_regions b)"
    using n by simp_all
qed (use assms in \<open>simp_all add: RateBand_def Let_def ebind_eq_Inr\<close>)

lemma map_of_opt:
  "k \<noteq> k' \<Longrightarrow> map_of (a @ opt_entry k f v @ opt_entry k' f' v') x =
     (case map_of a x of Some y \<Rightarrow> Some y | None \<Rightarrow> if x = k then map_option f v else if x = k' then map_option f' v' else None)"
  by (auto simp: opt_entry_def map_add_def split: option.splits)

lemma map_of_opts:
  "k \<noteq> k' \<Longrightarrow> map_of (opt_entry k f v @ opt_entry k' f' v') x =
     (if x = k then map_option f v else if x = k' then map_option f' v' else None)"
  by (auto simp: opt_entry_def map_add_def split: option.splits)

lemma opt_keys: "set (keys (a @ opt_entry k f v @ opt_entry k' f' v')) \<subseteq> set (keys a) \<union> {k, k'}"
  by (auto simp: opt_entry_def split: option.splits)

lemma optional_reads:
  "map_of d k = map_option J_int v \<Longrightarrow> optional_integer d k None = Inr v"
  "map_of d k = map_option J_float x \<Longrightarrow> optional_number d k = Inr x"
  "map_of d k = map_option J_str s \<Longrightarrow> timestamp_field d k = Inr s"
  subgoal by (cases v) (simp_all add: optional_integer_def)
  subgoal by (cases x) (simp_all add: optional_number_def rate_number_def)
  subgoal by (cases s) (simp_all add: timestamp_field_def get_field_def)
  done

text \<open>
  A rate band survives its catalog form.  Every valid band, written as a catalog entry and read
  back, is the same band, with absent rates, limits and dates still absent.
\<close>

lemma band_mapping_roundtrip:
  assumes "RateBand pt b = Inr b"
  shows "from_mapping pt (to_mapping b) = Inr b"
proof -
  define sel where "sel = [(''min_input_tokens'', J_int (rb_min_input_tokens b)),
          (''input_modalities'', J_list (map J_str (rb_input_modalities b))), (''output_modalities'', J_list (map J_str (rb_output_modalities b))),
          (''service_tiers'', J_list (map J_str (rb_service_tiers b))), (''regions'', J_list (map J_str (rb_regions b)))] @
          opt_entry ''max_input_tokens'' J_int (rb_max_input_tokens b) @ opt_entry ''cache_ttl_seconds'' J_int (rb_cache_ttl_seconds b)"
  define rates where "rates = [(''input'', J_float (rb_input_per_mtok b)), (''output'', J_float (rb_output_per_mtok b))] @
          opt_entry ''cache_read'' J_float (rb_cache_read_per_mtok b) @ opt_entry ''cache_write'' J_float (rb_cache_write_per_mtok b)"
  define prov where "prov = [(''source'', J_str (rb_source b)), (''source_url'', J_str (rb_source_url b))] @
          opt_entry ''verified_at'' J_str (rb_verified_at b) @ opt_entry ''expires_at'' J_str (rb_expires_at b)"
  have m: "to_mapping b = J_obj [(''id'', J_str (rb_band_id b)), (''selectors'', J_obj sel), (''rates'', J_obj rates), (''provenance'', J_obj prov)]"
    by (simp add: to_mapping_def sel_def rates_def prov_def)
  have ks: "set (keys sel) \<subseteq> {''min_input_tokens'', ''max_input_tokens'', ''input_modalities'', ''output_modalities'',
                   ''service_tiers'', ''regions'', ''cache_ttl_seconds''}"
    unfolding sel_def by (rule order_trans[OF opt_keys]) simp
  have kr: "set (keys rates) \<subseteq> {''input'', ''output'', ''cache_read'', ''cache_write''}" unfolding rates_def by (rule order_trans[OF opt_keys]) simp
  have kp: "set (keys prov) \<subseteq> {''source'', ''source_url'', ''verified_at'', ''expires_at''}" unfolding prov_def by (rule order_trans[OF opt_keys]) simp
  have sel: "map_of sel ''min_input_tokens'' = Some (J_int (rb_min_input_tokens b))"
    "map_of sel ''input_modalities'' = Some (J_list (map J_str (rb_input_modalities b)))"
    "map_of sel ''output_modalities'' = Some (J_list (map J_str (rb_output_modalities b)))"
    "map_of sel ''service_tiers'' = Some (J_list (map J_str (rb_service_tiers b)))"
    "map_of sel ''regions'' = Some (J_list (map J_str (rb_regions b)))"
    "map_of sel ''max_input_tokens'' = map_option J_int (rb_max_input_tokens b)"
    "map_of sel ''cache_ttl_seconds'' = map_option J_int (rb_cache_ttl_seconds b)"
    by (simp_all add: sel_def map_of_opt map_of_opts del: map_of_append)
  have rates: "map_of rates ''input'' = Some (J_float (rb_input_per_mtok b))" "map_of rates ''output'' = Some (J_float (rb_output_per_mtok b))"
    "map_of rates ''cache_read'' = map_option J_float (rb_cache_read_per_mtok b)"
    "map_of rates ''cache_write'' = map_option J_float (rb_cache_write_per_mtok b)"
    by (simp_all add: rates_def map_of_opt map_of_opts del: map_of_append)
  have prov: "map_of prov ''source'' = Some (J_str (rb_source b))" "map_of prov ''source_url'' = Some (J_str (rb_source_url b))"
    "map_of prov ''verified_at'' = map_option J_str (rb_verified_at b)" "map_of prov ''expires_at'' = map_option J_str (rb_expires_at b)"
    by (simp_all add: prov_def map_of_opt map_of_opts del: map_of_append)
  have "from_mapping pt (to_mapping b) = RateBand pt b"
    unfolding m from_mapping_def using ks kr kp
    by (simp add: section_of_def required_string_def rate_number_def get_field_def sel rates prov normalize_selector_list RateBand_fixed[OF assms]
        optional_reads(1)[OF sel(6)] optional_reads(1)[OF sel(7)] optional_reads(2)[OF rates(3)] optional_reads(2)[OF rates(4)]
        optional_reads(3)[OF prov(3)] optional_reads(3)[OF prov(4)] optional_integer_def[of sel "''min_input_tokens''"], cases b, simp)
  then show ?thesis using assms by simp
qed

section \<open>Made bands are fixed\<close>

lemma dropWhile_idem [simp]: "dropWhile P (dropWhile P xs) = dropWhile P xs"
  by (induction xs) simp_all

lemma dropWhile_rev_dropWhile: "dropWhile P (rev (dropWhile P (rev (dropWhile P xs)))) = rev (dropWhile P (rev (dropWhile P xs)))"
proof -
  define ys where "ys = dropWhile P xs"
  show ?thesis unfolding ys_def[symmetric]
  proof (cases ys)
    case (Cons y zs)
    then have y: "\<not> P y" by (metis hd_dropWhile list.discI list.sel(1) ys_def)
    have "dropWhile P (rev zs @ [y]) \<noteq> []" using y by simp
    moreover have "last (dropWhile P (rev zs @ [y])) = y" using y by (metis dropWhile_append3 last_snoc dropWhile_append1)
    ultimately have "rev (dropWhile P (rev ys)) \<noteq> [] \<and> hd (rev (dropWhile P (rev ys))) = y" using Cons by (simp add: hd_rev)
    then show "dropWhile P (rev (dropWhile P (rev ys))) = rev (dropWhile P (rev ys))"
      using y by (metis dropWhile_eq_self_iff)
  qed simp
qed

lemma strip_idem [simp]: "strip (strip s) = strip s"
  by (simp add: strip_def dropWhile_rev_dropWhile)

lemma is_space_lower [simp]: "is_space (lower_char c) = is_space c"
  by (auto simp: lower_char_def is_space_def Let_def code_char_of)

lemma strip_lower: "strip (lower s) = lower (strip s)"
  by (simp add: strip_def lower_def dropWhile_map comp_def rev_map)

lemma word_fixed [simp]: "lower (strip (lower (strip s))) = lower (strip s)"
  by (simp add: strip_lower)

lemma normalize_words_idem: "normalize_words vs = Inr ws \<Longrightarrow> normalize_words ws = Inr ws"
  by (auto simp: normalize_words_def Let_def ebind_eq_Inr comp_def)

lemma RateBand_idem: "RateBand pt b = Inr b' \<Longrightarrow> RateBand pt b' = Inr b'"
proof -
  assume r: "RateBand pt b = Inr b'"
  then obtain i out tiers regions where n: "normalize_words (rb_input_modalities b) = Inr i" "normalize_words (rb_output_modalities b) = Inr out"
      "normalize_words (rb_service_tiers b) = Inr tiers" "normalize_words (rb_regions b) = Inr regions"
    and b': "b' = b\<lparr>rb_band_id := strip (rb_band_id b), rb_input_modalities := i, rb_output_modalities := out, rb_service_tiers := tiers,
               rb_regions := regions, rb_source := lower (strip (rb_source b)), rb_source_url := strip (rb_source_url b)\<rparr>"
    unfolding RateBand_def Let_def ebind_eq_Inr by blast
  note n' = n[THEN normalize_words_idem]
  show ?thesis using r unfolding b' by (simp add: RateBand_def Let_def n n' ebind_eq_Inr)
qed

lemma from_mapping_valid:
  assumes "from_mapping pt v = Inr b"
  shows "RateBand pt b = Inr b"
proof -
  obtain b0 where "RateBand pt b0 = Inr b"
    using assms by (cases v) (simp_all add: from_mapping_def ebind_eq_Inr, blast)
  then show ?thesis by (rule RateBand_idem)
qed

section \<open>What a band covers\<close>

definition context_ok :: "pricing_context \<Rightarrow> bool" where
  "context_ok c \<longleftrightarrow> PricingContext c = Inr c"

definition footprint :: "rate_band \<Rightarrow> pricing_context set" where
  "footprint b = {c. context_ok c \<and> band_matches b c}"

definition a_word :: "string \<Rightarrow> bool" where
  "a_word w \<longleftrightarrow> w \<noteq> [] \<and> lower (strip w) = w"

definition words :: "string list \<Rightarrow> string set" where
  "words s = {w. a_word w \<and> selector_matches s w}"

definition lifetimes :: "int option \<Rightarrow> int option set" where
  "lifetimes t = {u. holds_for (\<lambda>n. 0 < n) u \<and> (t = None \<or> t = u)}"

definition sizes :: "rate_band \<Rightarrow> int option set" where
  "sizes b = {n. holds_for (\<lambda>k. 0 \<le> k) n \<and> range_matches b n}"

definition context_of :: "int option \<times> string \<times> string \<times> string \<times> string \<times> int option \<Rightarrow> pricing_context" where
  "context_of = (\<lambda>(n, i, out, tier, region, ttl). \<lparr>pc_input_tokens = n, pc_input_modality = i, pc_output_modality = out,
     pc_service_tier = tier, pc_region = region, pc_cache_ttl_seconds = ttl\<rparr>)"

lemma word_of_iff: "word_of w = Inr v \<longleftrightarrow> v = lower (strip w) \<and> v \<noteq> []"
  by (auto simp: word_of_def Let_def ebind_eq_Inr)

lemma context_ok_iff:
  "context_ok c \<longleftrightarrow> holds_for (\<lambda>n. 0 \<le> n) (pc_input_tokens c) \<and> holds_for (\<lambda>n. 0 < n) (pc_cache_ttl_seconds c) \<and>
     a_word (pc_input_modality c) \<and> a_word (pc_output_modality c) \<and> a_word (pc_service_tier c) \<and> a_word (pc_region c)"
  by (cases c) (auto simp: context_ok_def PricingContext_def ebind_eq_Inr word_of_iff a_word_def)

lemma footprint_product:
  "footprint b = context_of ` (sizes b \<times> words (rb_input_modalities b) \<times> words (rb_output_modalities b) \<times> words (rb_service_tiers b) \<times>
     words (rb_regions b) \<times> lifetimes (rb_cache_ttl_seconds b))" (is "_ = context_of ` ?P")
proof
  show "footprint b \<subseteq> context_of ` ?P"
  proof
    fix c assume c: "c \<in> footprint b"
    have "c = context_of (pc_input_tokens c, pc_input_modality c, pc_output_modality c, pc_service_tier c, pc_region c, pc_cache_ttl_seconds c)"
      by (simp add: context_of_def)
    moreover have "(pc_input_tokens c, pc_input_modality c, pc_output_modality c, pc_service_tier c, pc_region c, pc_cache_ttl_seconds c) \<in> ?P"
      using c by (auto simp: footprint_def context_ok_iff band_matches_def sizes_def words_def lifetimes_def)
    ultimately show "c \<in> context_of ` ?P" by blast
  qed
  show "context_of ` ?P \<subseteq> footprint b"
    by (auto simp: footprint_def context_ok_iff band_matches_def sizes_def words_def lifetimes_def context_of_def)
qed

lemma inj_context_of: "inj context_of"
  by (auto simp: inj_def context_of_def)

lemma selector_words:
  assumes "normalize_words s = Inr s"
  shows "words s = (if s = [any_word] then {w. a_word w} else set s)" "words s \<noteq> {}" "s \<noteq> [any_word] \<Longrightarrow> any_word \<notin> set s"
proof -
  note n = normalize_words_fixed[OF assms]
  have word: "a_word v" if "v \<in> set s" for v
  proof -
    have "map (\<lambda>v. lower (strip v)) s = map id s" using n by simp
    then have "lower (strip v) = v" using that unfolding map_eq_conv by simp
    then show ?thesis using n that by (auto simp: a_word_def)
  qed
  show w: "words s = (if s = [any_word] then {w. a_word w} else set s)"
    using word by (auto simp: words_def selector_matches_def)
  show "words s \<noteq> {}" unfolding w using n word by (cases s) auto
  show "any_word \<notin> set s" if "s \<noteq> [any_word]"
    using n that by (cases s) auto
qed

lemma words_infinite: "infinite {w. a_word w}"
proof -
  have c: "\<not> is_space CHR ''a''" "lower_char CHR ''a'' = CHR ''a''" by code_simp+
  have "dropWhile is_space (replicate m CHR ''a'') = replicate m CHR ''a''" for m using c(1) by (cases m) simp_all
  then have "a_word (replicate (Suc n) CHR ''a'')" for n
    by (simp add: a_word_def lower_def strip_def c(2) del: replicate_Suc)
  then have "range (\<lambda>n. replicate (Suc n) CHR ''a'') \<subseteq> {w. a_word w}" by auto
  moreover have "infinite (range (\<lambda>n. replicate (Suc n) CHR ''a''))"
    by (subst finite_image_iff) (auto simp: inj_on_def dest: arg_cong[where f = length])
  ultimately show ?thesis using finite_subset by blast
qed

lemma selector_subset_words:
  assumes "normalize_words l = Inr l" "normalize_words r = Inr r"
  shows "selector_subset l r = (words l \<subseteq> words r, words l \<subset> words r)"
proof -
  note l = selector_words[OF assms(1)] and r = selector_words[OF assms(2)]
  have "\<not> {w. a_word w} \<subseteq> set xs" for xs using words_infinite finite_subset by blast
  moreover have "set l \<subseteq> {w. a_word w}" if "l \<noteq> [any_word]" using l(1) that by (auto simp: words_def)
  ultimately show ?thesis
    unfolding selector_subset_def l(1) r(1) by (auto split: if_splits)
qed

lemma ttl_subset_lifetimes:
  assumes "holds_for (\<lambda>t. 0 < t) l" "holds_for (\<lambda>t. 0 < t) r"
  shows "ttl_subset l r = (lifetimes l \<subseteq> lifetimes r, lifetimes l \<subset> lifetimes r)" "lifetimes l \<noteq> {}"
proof -
  have eq: "lifetimes t = (if t = None then {u. holds_for (\<lambda>n. 0 < n) u} else {t})" if "holds_for (\<lambda>t. 0 < t) t" for t
    using that by (auto simp: lifetimes_def)
  have "None \<in> {u. holds_for (\<lambda>n::int. 0 < n) u}" by simp
  then show "ttl_subset l r = (lifetimes l \<subseteq> lifetimes r, lifetimes l \<subset> lifetimes r)" "lifetimes l \<noteq> {}"
    using assms unfolding ttl_subset_def eq[OF assms(1)] eq[OF assms(2)] by (auto split: if_splits)
qed

lemma range_subset_sizes:
  assumes "0 \<le> rb_min_input_tokens a" "holds_for (\<lambda>m. rb_min_input_tokens a < m) (rb_max_input_tokens a)"
    "0 \<le> rb_min_input_tokens b" "holds_for (\<lambda>m. rb_min_input_tokens b < m) (rb_max_input_tokens b)"
  shows "fst (range_subset a b) \<longleftrightarrow> sizes a \<subseteq> sizes b" "fst (range_subset a b) \<Longrightarrow> snd (range_subset a b) \<longleftrightarrow> sizes a \<noteq> sizes b" "sizes a \<noteq> {}"
proof -
  have low: "Some (rb_min_input_tokens c) \<in> sizes c" if "0 \<le> rb_min_input_tokens c" "holds_for (\<lambda>m. rb_min_input_tokens c < m) (rb_max_input_tokens c)" for c
    using that by (simp add: sizes_def range_matches_def)
  then show "sizes a \<noteq> {}" using assms by blast
  have mem: "Some n \<in> sizes c \<longleftrightarrow> 0 \<le> n \<and> rb_min_input_tokens c \<le> n \<and> holds_for (\<lambda>m. n < m) (rb_max_input_tokens c)" for n c
    by (auto simp: sizes_def range_matches_def)
  have sub: "fst (range_subset a b)" if s: "sizes a \<subseteq> sizes b"
  proof -
    have "rb_min_input_tokens b \<le> rb_min_input_tokens a" using low[of a] assms s mem[of _ b] by blast
    moreover have "case rb_max_input_tokens a of None \<Rightarrow> False | Some k \<Rightarrow> k \<le> m" if m: "rb_max_input_tokens b = Some m" for m
    proof (cases "rb_max_input_tokens a")
      case None
      have "Some (max m (rb_min_input_tokens a)) \<in> sizes a" using None assms(1) by (simp add: mem)
      then have "Some (max m (rb_min_input_tokens a)) \<in> sizes b" using s by blast
      then show ?thesis using m by (simp add: mem)
    next
      case (Some k)
      have "Some (k - 1) \<in> sizes a" using Some assms(1,2) by (simp add: mem)
      then have "Some (k - 1) \<in> sizes b" using s by blast
      then show ?thesis using m Some by (simp add: mem)
    qed
    ultimately show ?thesis by (auto simp: range_subset_def holds_for_def split: option.splits)
  qed
  have sup: "sizes a \<subseteq> sizes b" if "fst (range_subset a b)"
  proof
    fix n assume "n \<in> sizes a"
    then show "n \<in> sizes b" using that assms
      by (cases n) (auto simp: sizes_def range_matches_def range_subset_def holds_for_def split: option.splits)
  qed
  show "fst (range_subset a b) \<longleftrightarrow> sizes a \<subseteq> sizes b" using sub sup by blast
  assume f: "fst (range_subset a b)"
  show "snd (range_subset a b) \<longleftrightarrow> sizes a \<noteq> sizes b"
  proof
    assume "sizes a \<noteq> sizes b"
    moreover have "sizes a = sizes b" if "rb_min_input_tokens a = rb_min_input_tokens b" "rb_max_input_tokens a = rb_max_input_tokens b"
      unfolding sizes_def range_matches_def that ..
    ultimately show "snd (range_subset a b)"
      using f by (auto simp: range_subset_def holds_for_def split: option.splits)
  next
    assume "snd (range_subset a b)"
    then consider "rb_min_input_tokens b < rb_min_input_tokens a"
      | k where "rb_max_input_tokens a = Some k" "holds_for (\<lambda>m. k < m) (rb_max_input_tokens b)"
      by (auto simp: range_subset_def split: option.splits)
    then show "sizes a \<noteq> sizes b"
    proof cases
      case 1
      then have "Some (rb_min_input_tokens b) \<notin> sizes a" by (simp add: mem)
      then show ?thesis using low[of b] assms by blast
    next
      case 2
      have "rb_min_input_tokens b \<le> k" using f 2 assms(2) by (auto simp: range_subset_def)
      then have "Some k \<in> sizes b" "Some k \<notin> sizes a" using 2 assms(3) by (simp_all add: mem)
      then show ?thesis by blast
    qed
  qed
qed

text \<open>
  More specific means strictly narrower: for valid bands the comparison of selectors, lifetimes and
  ranges holds exactly if the contexts of the one are a proper subset of those of the other.
\<close>

lemma more_specific_is_subset:
  assumes "RateBand pt a = Inr a" "RateBand pt b = Inr b"
  shows "is_more_specific_than a b \<longleftrightarrow> footprint a \<subset> footprint b"
proof -
  note fa = RateBand_fixed[OF assms(1)] and fb = RateBand_fixed[OF assms(2)]
  note sel = selector_subset_words[OF fa(1) fb(1)] selector_subset_words[OF fa(2) fb(2)] selector_subset_words[OF fa(3) fb(3)]
    selector_subset_words[OF fa(4) fb(4)] ttl_subset_lifetimes(1)[OF fa(7) fb(7)]
  note ne = selector_words(2)[OF fa(1)] selector_words(2)[OF fa(2)] selector_words(2)[OF fa(3)] selector_words(2)[OF fa(4)]
    ttl_subset_lifetimes(2)[OF fa(7) fb(7)]
  note range = range_subset_sizes[OF fa(5,6) fb(5,6)]
  let ?P = "\<lambda>b. sizes b \<times> words (rb_input_modalities b) \<times> words (rb_output_modalities b) \<times> words (rb_service_tiers b) \<times>
     words (rb_regions b) \<times> lifetimes (rb_cache_ttl_seconds b)"
  have "footprint a \<subset> footprint b \<longleftrightarrow> ?P a \<subset> ?P b"
    unfolding footprint_product using inj_context_of by (simp add: psubset_eq inj_image_subset_iff inj_image_eq_iff)
  also have "\<dots> \<longleftrightarrow> is_more_specific_than a b"
    using ne range by (auto simp: is_more_specific_than_def sel psubset_eq times_subset_iff times_eq_iff)
  finally show ?thesis by simp
qed

lemma filter_single:
  assumes "filter P xs = [b]"
  shows "\<exists>us vs. xs = us @ b # vs \<and> P b \<and> (\<forall>x \<in> set us \<union> set vs. \<not> P x)"
proof -
  obtain us vs where xs: "xs = us @ b # vs" and P: "\<forall>u \<in> set us. \<not> P u" "P b" "[] = filter P vs"
    using filter_eq_ConsD[OF assms] by blast
  then have "\<forall>v \<in> set vs. \<not> P v" by (metis filter_empty_conv)
  with xs P show ?thesis by blast
qed

lemma selected_least:
  assumes "\<forall>b \<in> set bands. RateBand pt b = Inr b"
  shows "select_rate_band bands (Some c) = Inr (Some b) \<longleftrightarrow>
    (\<exists>us vs. filter (\<lambda>b. band_matches b c) bands = us @ b # vs \<and> (\<forall>other \<in> set us \<union> set vs. footprint b \<subset> footprint other))"
proof -
  define ms where "ms = filter (\<lambda>b. band_matches b c) bands"
  have spec: "is_more_specific_than x y \<longleftrightarrow> footprint x \<subset> footprint y" if "x \<in> set ms" "y \<in> set ms" for x y
    using that assms by (intro more_specific_is_subset[of pt]) (auto simp: ms_def)
  define least where "least = (\<lambda>b. \<not> list_ex (\<lambda>other. is_more_specific_than other b) ms)"
  have least: "least x \<longleftrightarrow> (\<forall>y \<in> set ms. \<not> footprint y \<subset> footprint x)" if "x \<in> set ms" for x
    using that spec by (auto simp: least_def list_ex_iff)
  have sel: "select_rate_band bands (Some c) = Inr (Some b) \<longleftrightarrow> filter least ms = [b]"
    unfolding select_rate_band_def option.case Let_def ms_def[symmetric] least_def[symmetric]
    by (cases "filter least ms" rule: remdups_adj.cases) auto
  show ?thesis unfolding sel ms_def[symmetric]
  proof
    assume "filter least ms = [b]"
    from filter_single[OF this] obtain us vs where ms: "ms = us @ b # vs" and others: "\<forall>x \<in> set us \<union> set vs. \<not> least x" by blast
    have "footprint b \<subset> footprint x" if x: "x \<in> set us \<union> set vs" for x
    proof -
      have "x \<in> set ms" "\<not> least x" using others x ms by auto
      with least[of x] obtain y where y: "y \<in> set ms" "footprint y \<subset> footprint x" by blast
      obtain m where m: "m \<in> footprint ` set ms" "m \<subseteq> footprint y" "\<forall>k \<in> footprint ` set ms. k \<subseteq> m \<longrightarrow> m = k"
        using finite_has_minimal2[of "footprint ` set ms" "footprint y"] y(1) by blast
      then obtain z where z: "z \<in> set ms" "m = footprint z" by blast
      then have "least z" using m(3) least by auto
      then have "z = b" using z(1) others ms by auto
      then show ?thesis using z m(2) y(2) by blast
    qed
    then show "\<exists>us vs. ms = us @ b # vs \<and> (\<forall>other \<in> set us \<union> set vs. footprint b \<subset> footprint other)" using ms by blast
  next
    assume "\<exists>us vs. ms = us @ b # vs \<and> (\<forall>other \<in> set us \<union> set vs. footprint b \<subset> footprint other)"
    then obtain us vs where ms: "ms = us @ b # vs" and below: "\<forall>other \<in> set us \<union> set vs. footprint b \<subset> footprint other" by blast
    have "least b" using below ms by (auto simp: least)
    moreover have "\<not> least x" if "x \<in> set us \<union> set vs" for x using that below ms by (auto simp: least)
    ultimately show "filter least ms = [b]" by (simp add: ms filter_empty_conv)
  qed
qed

text \<open>
  C23.  The selected band is the least one.  Given valid bands, a context selects a band exactly
  if that band matches the context and its contexts are a proper subset of those of every other
  band that matches; otherwise the choice is refused as ambiguous, or nothing matches.
\<close>

theorem selected_band_is_least:
  assumes "\<forall>b \<in> set bands. RateBand pt b = Inr b"
  shows "select_rate_band bands (Some c) = Inr (Some b) \<longleftrightarrow>
    (\<exists>us vs. filter (\<lambda>b. band_matches b c) bands = us @ b # vs \<and> (\<forall>other \<in> set us \<union> set vs. footprint b \<subset> footprint other))"
  using assms by (rule selected_least)

definition example_band :: rate_band where
  "example_band = \<lparr>rb_band_id = ''base'', rb_input_per_mtok = 3, rb_output_per_mtok = 15, rb_source = ''official'', rb_source_url = ''https://x'',
     rb_cache_read_per_mtok = Some (3 / 10), rb_cache_write_per_mtok = None, rb_min_input_tokens = 0, rb_max_input_tokens = None,
     rb_input_modalities = [any_word], rb_output_modalities = [''text''], rb_service_tiers = [any_word], rb_regions = [any_word],
     rb_cache_ttl_seconds = None, rb_verified_at = Some ''t1'', rb_expires_at = Some ''t2''\<rparr>"

definition long_band :: rate_band where
  "long_band = example_band\<lparr>rb_band_id := ''long'', rb_input_per_mtok := 6, rb_min_input_tokens := 200000, rb_regions := [''us'', ''global'']\<rparr>"

definition example_clock :: "string \<Rightarrow> secs option" where
  "example_clock s = (if s = ''t1'' then Some 1 else if s = ''t2'' then Some 2 else None)"

definition long_context :: pricing_context where
  "long_context = \<lparr>pc_input_tokens = Some 300000, pc_input_modality = ''text'', pc_output_modality = ''text'',
     pc_service_tier = ''standard'', pc_region = ''us'', pc_cache_ttl_seconds = None\<rparr>"

lemma example_bands: "RateBand example_clock example_band = Inr example_band" "RateBand example_clock long_band = Inr long_band"
  by code_simp+

theorem selected_band_is_least_witness:
  "select_rate_band [example_band, long_band] (Some long_context) = Inr (Some long_band) \<and> footprint long_band \<subset> footprint example_band"
proof -
  have s: "select_rate_band [example_band, long_band] (Some long_context) = Inr (Some long_band)" by code_simp
  have m: "filter (\<lambda>b. band_matches b long_context) [example_band, long_band] = [example_band, long_band]" by code_simp
  have "rb_band_id long_band \<noteq> rb_band_id example_band" by (simp add: long_band_def example_band_def)
  then have ne: "long_band \<noteq> example_band" by metis
  have v: "\<forall>b \<in> set [example_band, long_band]. RateBand example_clock b = Inr b" using example_bands by simp
  from selected_band_is_least[OF v, of long_context long_band] s obtain us vs where
    u: "[example_band, long_band] = us @ long_band # vs" and "\<forall>other \<in> set us \<union> set vs. footprint long_band \<subset> footprint other"
    unfolding m by blast
  moreover have "us = [example_band]" using u ne by (cases us) (auto simp: Cons_eq_append_conv)
  ultimately show ?thesis using s by simp
qed

end
