(* ===== verification/Registry.thy ===== *)
theory Registry
  imports Pricing
begin

text \<open>
  The registry of models (\<^verbatim>\<open>models/_registry.py\<close>, \<^verbatim>\<open>_families.py\<close>, \<^verbatim>\<open>__init__.py\<close>): what is known of a
  model, how an identifier is resolved to it, and what is inferred when it is not known.  The catalog file
  is a parameter, decoded and typed; a lock-protected method is one step.
\<close>

section \<open>Families\<close>

record family_rule =
  fr_pattern :: string
  fr_provider :: string
  fr_tier :: int
  fr_input_per_mtok :: rat
  fr_output_per_mtok :: rat
  fr_cache_read_mult :: "rat option"
  fr_cache_write_mult :: "rat option"
  fr_bedrock_template :: "string option"
  fr_vertex_template :: "string option"

definition family_matches :: "family_rule \<Rightarrow> string \<Rightarrow> bool" where
  "family_matches r model \<longleftrightarrow> startswith model (fr_pattern r)"

definition infer_cache_read :: "family_rule \<Rightarrow> rat \<Rightarrow> rat option" where
  "infer_cache_read r input_cost = map_option (\<lambda>m. py_round 6 (input_cost * m)) (fr_cache_read_mult r)"

definition infer_cache_write :: "family_rule \<Rightarrow> rat \<Rightarrow> rat option" where
  "infer_cache_write r input_cost = map_option (\<lambda>m. py_round 6 (input_cost * m)) (fr_cache_write_mult r)"

text \<open>\<^verbatim>\<open>str.replace\<close> of the place holder.\<close>

fun fill_template :: "string \<Rightarrow> string \<Rightarrow> string" where
  "fill_template [] model = []"
| "fill_template (c # s) model =
     (if startswith (c # s) ''{model_id}'' then model @ fill_template (drop 9 s) model else c # fill_template s model)"

definition infer_translation :: "family_rule \<Rightarrow> string \<Rightarrow> (string, string) dict" where
  "infer_translation r model =
     (case fr_bedrock_template r of None \<Rightarrow> [] | Some t \<Rightarrow> if t = [] then [] else [(''bedrock'', fill_template t model)]) @
     (case fr_vertex_template r of None \<Rightarrow> [] | Some t \<Rightarrow> if t = [] then [] else [(''vertex'', fill_template t model)])"

definition claude_rule :: "string \<Rightarrow> int \<Rightarrow> rat \<Rightarrow> rat \<Rightarrow> string \<Rightarrow> family_rule" where
  "claude_rule pattern tier inp out bedrock =
     \<lparr>fr_pattern = pattern, fr_provider = ''anthropic'', fr_tier = tier, fr_input_per_mtok = inp, fr_output_per_mtok = out,
      fr_cache_read_mult = Some (1 / 10), fr_cache_write_mult = Some (5 / 4), fr_bedrock_template = Some bedrock,
      fr_vertex_template = Some ''{model_id}@latest''\<rparr>"

definition plain_rule :: "string \<Rightarrow> string \<Rightarrow> int \<Rightarrow> rat \<Rightarrow> rat \<Rightarrow> rat option \<Rightarrow> family_rule" where
  "plain_rule pattern provider tier inp out cache_read =
     \<lparr>fr_pattern = pattern, fr_provider = provider, fr_tier = tier, fr_input_per_mtok = inp, fr_output_per_mtok = out,
      fr_cache_read_mult = cache_read, fr_cache_write_mult = None, fr_bedrock_template = None, fr_vertex_template = None\<rparr>"

definition BUILTIN_FAMILIES :: "family_rule list" where
  "BUILTIN_FAMILIES =
     [claude_rule ''claude-opus'' 4 5 25 ''anthropic.{model_id}-v1:0'',
      claude_rule ''claude-sonnet'' 2 3 15 ''anthropic.{model_id}-v1:0'',
      claude_rule ''claude-haiku'' 1 (4 / 5) 4 ''anthropic.{model_id}-v1:0'',
      claude_rule ''claude-3-opus'' 3 15 75 ''anthropic.{model_id}-v1:0'',
      claude_rule ''claude-3-5-sonnet'' 2 3 15 ''anthropic.{model_id}-v2:0'',
      claude_rule ''claude-3-sonnet'' 2 3 15 ''anthropic.{model_id}-v1:0'',
      claude_rule ''claude-3-5-haiku'' 1 (4 / 5) 4 ''anthropic.{model_id}-v1:0'',
      claude_rule ''claude-3-haiku'' 1 (1 / 4) (5 / 4) ''anthropic.{model_id}-v1:0'',
      claude_rule ''claude-'' 2 3 15 ''anthropic.{model_id}-v1:0'',
      plain_rule ''gpt-4o-mini'' ''openai'' 1 (3 / 20) (3 / 5) None,
      plain_rule ''gpt-4o'' ''openai'' 2 (5 / 2) 10 None,
      plain_rule ''gpt-4.1-nano'' ''openai'' 1 (1 / 10) (2 / 5) None,
      plain_rule ''gpt-4.1-mini'' ''openai'' 1 (2 / 5) (8 / 5) None,
      plain_rule ''gpt-4.1'' ''openai'' 2 2 8 None,
      plain_rule ''gpt-5'' ''openai'' 4 (5 / 4) 10 (Some (1 / 10)),
      plain_rule ''gpt-4'' ''openai'' 3 10 30 None,
      plain_rule ''gpt-3.5'' ''openai'' 1 (1 / 2) (3 / 2) None,
      plain_rule ''o4-mini'' ''openai'' 1 (11 / 10) (22 / 5) None,
      plain_rule ''o3-mini'' ''openai'' 1 (11 / 10) (22 / 5) None,
      plain_rule ''o1-mini'' ''openai'' 1 (11 / 10) (22 / 5) None,
      plain_rule ''o3'' ''openai'' 3 10 40 None,
      plain_rule ''o1'' ''openai'' 3 15 60 None,
      plain_rule ''o4'' ''openai'' 3 10 40 None,
      plain_rule ''codex'' ''openai'' 2 3 12 None,
      plain_rule ''gemini-'' ''google'' 2 (5 / 4) 5 None,
      plain_rule ''llama'' ''ollama'' 1 0 0 None,
      plain_rule ''mistral'' ''ollama'' 1 0 0 None,
      plain_rule ''mixtral'' ''ollama'' 2 0 0 None,
      plain_rule ''qwen'' ''ollama'' 1 0 0 None,
      plain_rule ''deepseek'' ''ollama'' 2 0 0 None,
      plain_rule ''phi'' ''ollama'' 1 0 0 None]"

definition get_sorted_families :: "family_rule list" where
  "get_sorted_families = sort_key (\<lambda>r. - int (length (fr_pattern r))) BUILTIN_FAMILIES"

definition PROVIDER_PREFIXES :: "(string, string) dict" where
  "PROVIDER_PREFIXES =
     [(''claude-'', ''anthropic''), (''claude'', ''anthropic''), (''gpt-'', ''openai''), (''o1-'', ''openai''), (''o1'', ''openai''),
      (''o3-'', ''openai''), (''o3'', ''openai''), (''o4-'', ''openai''), (''o4'', ''openai''), (''text-davinci'', ''openai''),
      (''codex'', ''openai''), (''gemini-'', ''google''), (''gemini'', ''google''), (''palm'', ''google''), (''llama'', ''ollama''),
      (''mistral'', ''ollama''), (''mixtral'', ''ollama''), (''qwen'', ''ollama''), (''deepseek'', ''ollama''), (''phi-'', ''ollama''),
      (''phi'', ''ollama'')]"

section \<open>The registry\<close>

record model_info =
  mi_model_id :: string
  mi_provider :: string
  mi_tier :: int
  mi_input_per_mtok :: rat
  mi_output_per_mtok :: rat
  mi_cache_read_per_mtok :: "rat option"
  mi_cache_write_per_mtok :: "rat option"
  mi_translations :: "(string, string) dict"
  mi_aliases :: "string list"
  mi_source :: string
  mi_max_input_tokens :: "int option"
  mi_rate_bands :: "rate_band list"

definition rate_band_for :: "model_info \<Rightarrow> pricing_context option \<Rightarrow> py_error + rate_band option" where
  "rate_band_for info c = select_rate_band (mi_rate_bands info) c"

definition ModelInfo :: "string \<Rightarrow> string \<Rightarrow> int \<Rightarrow> rat \<Rightarrow> rat \<Rightarrow> model_info" where
  "ModelInfo model provider tier inp out =
     \<lparr>mi_model_id = model, mi_provider = provider, mi_tier = tier, mi_input_per_mtok = inp, mi_output_per_mtok = out,
      mi_cache_read_per_mtok = None, mi_cache_write_per_mtok = None, mi_translations = [], mi_aliases = [], mi_source = ''seed'',
      mi_max_input_tokens = None, mi_rate_bands = []\<rparr>"

definition UNKNOWN_DEFAULT :: model_info where
  "UNKNOWN_DEFAULT = (ModelInfo ''unknown'' ''unknown'' 2 3 15)
     \<lparr>mi_cache_read_per_mtok := Some (3 / 10), mi_cache_write_per_mtok := Some (15 / 4), mi_source := ''inferred''\<rparr>"

record registry =
  rg_models :: "(string, model_info) dict"
  rg_aliases :: "(string, string) dict"
  rg_shadow_targets :: "(string, (string, string) dict) dict"
  rg_context_windows :: "(string, int) dict"
  rg_cache_multipliers :: "(string, (string, rat) dict) dict"
  rg_loaded :: bool

definition ModelRegistry :: registry where
  "ModelRegistry = \<lparr>rg_models = [], rg_aliases = [], rg_shadow_targets = [], rg_context_windows = [],
     rg_cache_multipliers = [], rg_loaded = False\<rparr>"

definition LONG_CONTEXT_SUFFIX :: string where "LONG_CONTEXT_SUFFIX = ''[1m]''"
definition LONG_CONTEXT_TOKENS :: int where "LONG_CONTEXT_TOKENS = 1000000"

text \<open>A trailing date of eight digits; the end of the text may be before a final newline.\<close>

definition dated :: "string \<Rightarrow> bool" where
  "dated s \<longleftrightarrow> 9 \<le> length s \<and> s ! (length s - 9) = CHR ''-'' \<and> list_all is_digit (drop (length s - 8) s)"

definition strip_date :: "string \<Rightarrow> string" where
  "strip_date s =
     (if dated s then take (length s - 9) s
      else if s \<noteq> [] \<and> last s = CHR 0x0A \<and> dated (butlast s) then take (length s - 10) s @ [CHR 0x0A]
      else s)"

text \<open>The longest key that satisfies a test, the first of that length; a key must have a length.\<close>

definition longest_key :: "(string \<Rightarrow> bool) \<Rightarrow> string list \<Rightarrow> string option" where
  "longest_key P ks =
     foldl (\<lambda>best k. if P k \<and> (case best of None \<Rightarrow> 0 | Some b \<Rightarrow> length b) < length k then Some k else best) None ks"

definition lookup_context_window :: "registry \<Rightarrow> string \<Rightarrow> int option" where
  "lookup_context_window rg model =
     (let windows = rg_context_windows rg in
      case map_of windows model of
        Some n \<Rightarrow> Some n
      | None \<Rightarrow>
          let suffix = snd (cut_at CHR ''/'' model) in
          (case (case suffix of None \<Rightarrow> None | Some x \<Rightarrow> map_of windows x) of
             Some n \<Rightarrow> Some n
           | None \<Rightarrow>
               let m = (case suffix of None \<Rightarrow> model | Some x \<Rightarrow> x); stripped = strip_date m in
               (case (if stripped \<noteq> m then map_of windows stripped else None) of
                  Some n \<Rightarrow> Some n
                | None \<Rightarrow>
                    (case longest_key (\<lambda>k. startswith m k \<or> startswith stripped k) (keys windows) of
                       None \<Rightarrow> None
                     | Some k \<Rightarrow> map_of windows k))))"

definition detect_provider :: "string \<Rightarrow> string" where
  "detect_provider model =
     (case find (\<lambda>(p, provider). startswith (lower model) p) PROVIDER_PREFIXES of None \<Rightarrow> ''unknown'' | Some (p, provider) \<Rightarrow> provider)"

definition provider_aware_default :: "string \<Rightarrow> model_info" where
  "provider_aware_default model =
     (let provider = detect_provider model in
      if provider = ''openai'' then (ModelInfo model ''openai'' 2 (5 / 2) 10)\<lparr>mi_source := ''inferred''\<rparr>
      else (ModelInfo model (if provider \<noteq> ''unknown'' then provider else ''anthropic'') 2 3 15)
             \<lparr>mi_cache_read_per_mtok := Some (3 / 10), mi_cache_write_per_mtok := Some (15 / 4), mi_source := ''inferred''\<rparr>)"

definition inferred_info :: "family_rule \<Rightarrow> string \<Rightarrow> model_info" where
  "inferred_info r model =
     (ModelInfo model (fr_provider r) (fr_tier r) (fr_input_per_mtok r) (fr_output_per_mtok r))
       \<lparr>mi_cache_read_per_mtok := infer_cache_read r (fr_input_per_mtok r),
        mi_cache_write_per_mtok := infer_cache_write r (fr_input_per_mtok r),
        mi_translations := infer_translation r model, mi_source := ''inferred''\<rparr>"

text \<open>An identifier that is a key, or the alias of one.\<close>

definition known_as :: "registry \<Rightarrow> string \<Rightarrow> model_info option" where
  "known_as rg model =
     (case map_of (rg_models rg) model of
        Some i \<Rightarrow> Some i
      | None \<Rightarrow> (case map_of (rg_aliases rg) model of
                   None \<Rightarrow> None
                 | Some c \<Rightarrow> if c = [] then None else map_of (rg_models rg) c))"

definition resolve :: "registry \<Rightarrow> string \<Rightarrow> model_info" where
  "resolve rg model =
     (if model = [] then UNKNOWN_DEFAULT
      else case known_as rg model of
        Some i \<Rightarrow> i
      | None \<Rightarrow>
          let stripped = strip_date model in
          (case (if stripped \<noteq> model then known_as rg stripped else None) of
             Some i \<Rightarrow> i
           | None \<Rightarrow>
               (case longest_key (startswith model) (keys (rg_models rg)) of
                  Some k \<Rightarrow> the (map_of (rg_models rg) k)
                | None \<Rightarrow>
                    (case find (\<lambda>r. family_matches r model) get_sorted_families of
                       Some r \<Rightarrow> inferred_info r model
                     | None \<Rightarrow> provider_aware_default model))))"

section \<open>Loading and changing\<close>

record catalog_entry =
  ce_provider :: "string option"
  ce_tier :: "int option"
  ce_input :: "rat option"
  ce_output :: "rat option"
  ce_cache_read :: "rat option"
  ce_cache_write :: "rat option"
  ce_translations :: "(string, string) dict"
  ce_aliases :: "string list"
  ce_bands :: "json list"

record catalog =
  ca_cache_multipliers :: "(string, (string, rat) dict) dict"
  ca_shadow_targets :: "(string, (string, string) dict) dict"
  ca_context_windows :: "(string, int) dict"
  ca_models :: "(string, catalog_entry) dict"

definition or_else :: "'a option \<Rightarrow> 'a \<Rightarrow> 'a" where
  "or_else v d = (case v of None \<Rightarrow> d | Some x \<Rightarrow> x)"

definition entry_info :: "(string \<Rightarrow> secs option) \<Rightarrow> registry \<Rightarrow> string \<Rightarrow> catalog_entry \<Rightarrow> py_error + model_info" where
  "entry_info pt rg model e =
     ebind (each_result (from_mapping pt) (ce_bands e)) (\<lambda>bands.
       Inr \<lparr>mi_model_id = model, mi_provider = or_else (ce_provider e) ''unknown'', mi_tier = or_else (ce_tier e) 2,
            mi_input_per_mtok = or_else (ce_input e) 3, mi_output_per_mtok = or_else (ce_output e) 15,
            mi_cache_read_per_mtok = ce_cache_read e, mi_cache_write_per_mtok = ce_cache_write e,
            mi_translations = ce_translations e, mi_aliases = ce_aliases e, mi_source = ''seed'',
            mi_max_input_tokens = lookup_context_window rg (lower model), mi_rate_bands = bands\<rparr>)"

definition register :: "model_info \<Rightarrow> registry \<Rightarrow> registry" where
  "register info rg =
     rg\<lparr>rg_models := AList.update (mi_model_id info) info (rg_models rg),
        rg_aliases := foldl (\<lambda>d a. AList.update a (mi_model_id info) d) (rg_aliases rg) (mi_aliases info)\<rparr>"

fun load_models :: "(string \<Rightarrow> secs option) \<Rightarrow> (string, catalog_entry) dict \<Rightarrow> registry \<Rightarrow> (py_error + unit) \<times> registry" where
  "load_models pt [] rg = (Inr (), rg)"
| "load_models pt ((model, e) # rest) rg =
     (case entry_info pt rg model e of
        Inl err \<Rightarrow> (Inl err, rg)
      | Inr info \<Rightarrow> load_models pt rest (register info rg))"

definition load_seed_catalog :: "(string \<Rightarrow> secs option) \<Rightarrow> catalog option \<Rightarrow> registry \<Rightarrow> (py_error + unit) \<times> registry" where
  "load_seed_catalog pt cat rg =
     (case cat of
        None \<Rightarrow> (Inr (), rg)
      | Some c \<Rightarrow>
          load_models pt (ca_models c)
            (rg\<lparr>rg_cache_multipliers := ca_cache_multipliers c, rg_shadow_targets := ca_shadow_targets c,
                rg_context_windows := foldl (\<lambda>d (k, n). AList.update (lower k) n d) [] (ca_context_windows c)\<rparr>))"

definition ensure_loaded :: "(string \<Rightarrow> secs option) \<Rightarrow> catalog option \<Rightarrow> registry \<Rightarrow> (py_error + unit) \<times> registry" where
  "ensure_loaded pt cat rg =
     (if rg_loaded rg then (Inr (), rg)
      else case load_seed_catalog pt cat rg of
             (Inl e, rg') \<Rightarrow> (Inl e, rg')
           | (Inr _, rg') \<Rightarrow> (Inr (), rg'\<lparr>rg_loaded := True\<rparr>))"

definition reload :: "(string \<Rightarrow> secs option) \<Rightarrow> catalog option \<Rightarrow> registry \<Rightarrow> (py_error + unit) \<times> registry" where
  "reload pt cat rg =
     load_seed_catalog pt cat (rg\<lparr>rg_models := [], rg_aliases := [], rg_shadow_targets := [], rg_context_windows := [],
       rg_cache_multipliers := []\<rparr>)"

section \<open>Queries\<close>

definition ends_with :: "string \<Rightarrow> string \<Rightarrow> bool" where
  "ends_with s suffix \<longleftrightarrow> length suffix \<le> length s \<and> drop (length s - length suffix) s = suffix"

definition get_max_context :: "registry \<Rightarrow> string option \<Rightarrow> int option" where
  "get_max_context rg model =
     (case model of
        None \<Rightarrow> None
      | Some name \<Rightarrow>
          let m = strip (lower name); long = ends_with m LONG_CONTEXT_SUFFIX;
              base = (if long then strip (take (length m - 4) m) else m) in
          if m = [] \<or> base = [] then None
          else (case lookup_context_window rg base of
                  None \<Rightarrow> None
                | Some n \<Rightarrow> Some (if long then max n LONG_CONTEXT_TOKENS else n)))"

definition context_window_models :: "registry \<Rightarrow> string list" where
  "context_window_models rg = sorted_keys (keys (rg_context_windows rg))"

definition translate_model :: "registry \<Rightarrow> string \<Rightarrow> string \<Rightarrow> string" where
  "translate_model rg model provider = or_else (map_of (mi_translations (resolve rg model)) provider) model"

definition get_shadow_target :: "registry \<Rightarrow> string \<Rightarrow> string \<times> string" where
  "get_shadow_target rg provider =
     (case map_of (rg_shadow_targets rg) (strip (lower provider)) of
        None \<Rightarrow> ([], [])
      | Some t \<Rightarrow> (or_else (map_of t ''url'') [], or_else (map_of t ''model'') []))"

text \<open>\<^verbatim>\<open>str.isdigit\<close>: the superscript digits count as well.\<close>

definition isdigit :: "char \<Rightarrow> bool" where
  "isdigit c \<longleftrightarrow> is_digit c \<or> code c \<in> {178, 179, 185}"

definition candidate_ok :: "model_info \<Rightarrow> int \<Rightarrow> string \<times> model_info \<Rightarrow> bool" where
  "candidate_ok info tier = (\<lambda>(mid, c).
     mi_provider c = mi_provider info \<and> mi_tier c = tier \<and> mi_source c = ''seed'' \<and>
     (list_ex isdigit mid \<or> mid \<in> {''codex'', ''o3'', ''o1''}))"

definition best_of :: "model_info list \<Rightarrow> model_info option" where
  "best_of cs = foldl (\<lambda>best c. case best of None \<Rightarrow> Some c
                 | Some b \<Rightarrow> if mi_input_per_mtok b < mi_input_per_mtok c then Some c else Some b) None cs"

text \<open>The tiers below, from the next one down, until one has a candidate.\<close>

fun search_tiers :: "registry \<Rightarrow> model_info \<Rightarrow> nat \<Rightarrow> model_info option" where
  "search_tiers rg info 0 = None"
| "search_tiers rg info (Suc n) =
     (case best_of (map snd (filter (candidate_ok info (int (Suc n))) (rg_models rg))) of
        Some b \<Rightarrow> Some b
      | None \<Rightarrow> search_tiers rg info n)"

definition get_cheaper_alternative :: "registry \<Rightarrow> string \<Rightarrow> (string \<times> rat) option" where
  "get_cheaper_alternative rg model =
     (let info = resolve rg model in
      if mi_tier info \<le> 1 then None
      else case search_tiers rg info (nat (mi_tier info - 1)) of
             None \<Rightarrow> None
           | Some b \<Rightarrow>
               Some (mi_model_id b,
                 py_round 2 (if 0 < mi_input_per_mtok info then 1 - mi_input_per_mtok b / mi_input_per_mtok info else 0)))"

definition get_all_tiers :: "registry \<Rightarrow> (string, int) dict" where
  "get_all_tiers rg =
     foldl (\<lambda>d (mid, i). AList.update (mi_provider i @ ''/'' @ mid) (mi_tier i) d)
       (map (\<lambda>(mid, i). (mid, mi_tier i)) (rg_models rg)) (rg_models rg)"

definition get_default_routes :: "registry \<Rightarrow> (string, string) dict" where
  "get_default_routes rg = map (\<lambda>(mid, i). (mid, mi_provider i)) (rg_models rg)"

definition all_models :: "registry \<Rightarrow> model_info list" where
  "all_models rg = map snd (rg_models rg)"

definition known_models :: "registry \<Rightarrow> string list" where
  "known_models rg = map mi_model_id (all_models rg)"

text \<open>The rates of a model, or of a context: a band's rates if one applies.\<close>

definition get_rates :: "registry \<Rightarrow> string option \<Rightarrow> pricing_context option \<Rightarrow> py_error + (string, rat) dict" where
  "get_rates rg model c =
     (case model of
        None \<Rightarrow> Inr [(''input'', 3), (''output'', 15), (''cached'', 3 / 10)]
      | Some m \<Rightarrow>
          if m = [] then Inr [(''input'', 3), (''output'', 15), (''cached'', 3 / 10)]
          else let info = resolve rg m in
            ebind (rate_band_for info c) (\<lambda>band.
              Inr (case band of
                     Some b \<Rightarrow> [(''input'', rb_input_per_mtok b), (''output'', rb_output_per_mtok b),
                                (''cached'', or_else (rb_cache_read_per_mtok b) (rb_input_per_mtok b))]
                   | None \<Rightarrow> [(''input'', mi_input_per_mtok info), (''output'', mi_output_per_mtok info),
                              (''cached'', or_else (mi_cache_read_per_mtok info) (mi_input_per_mtok info * (1 / 10)))])))"

definition get_tier :: "registry \<Rightarrow> string \<Rightarrow> int" where
  "get_tier rg model = mi_tier (resolve rg model)"

definition get_model_costs :: "registry \<Rightarrow> string \<Rightarrow> pricing_context option \<Rightarrow> py_error + (string, rat) dict" where
  "get_model_costs rg model c =
     (let info = resolve rg model in
      ebind (rate_band_for info c) (\<lambda>band.
        Inr (case band of
               Some b \<Rightarrow> [(''input'', rb_input_per_mtok b), (''output'', rb_output_per_mtok b)]
             | None \<Rightarrow> [(''input'', mi_input_per_mtok info), (''output'', mi_output_per_mtok info)])))"

definition get_pricing :: "registry \<Rightarrow> string \<Rightarrow> model_info option" where
  "get_pricing rg model = (if model = [] then None else Some (resolve rg model))"

section \<open>Consistency\<close>

definition registry_ok :: "registry \<Rightarrow> bool" where
  "registry_ok rg \<longleftrightarrow>
     wf_dict (rg_models rg) \<and> (\<forall>(k, i) \<in> set (rg_models rg). mi_model_id i = k) \<and>
     (\<forall>(a, k) \<in> set (rg_aliases rg). k \<in> set (keys (rg_models rg)))"

lemma registry_okD:
  assumes "registry_ok rg"
  shows "map_of (rg_models rg) k = Some i \<Longrightarrow> mi_model_id i = k" "wf_dict (rg_models rg)"
  using assms by (auto simp: registry_ok_def dest: map_of_SomeD)

lemma set_update_values: "set (AList.update k v d) \<subseteq> insert (k, v) (set d)"
  by (induction d) auto

lemma keys_update: "set (keys (AList.update k v d)) = insert k (set (keys d))"
  by (induction d) auto

lemma aliases_of:
  "set (foldl (\<lambda>d a. AList.update a k d) d as) \<subseteq> set d \<union> {(a, k) | a. a \<in> set as}"
proof (induction as arbitrary: d)
  case (Cons a as)
  show ?case using Cons.IH[of "AList.update a k d"] set_update_values[of a k d] by auto
qed simp

lemma register_ok:
  assumes "registry_ok rg"
  shows "registry_ok (register info rg)"
proof -
  let ?m = "AList.update (mi_model_id info) info (rg_models rg)"
  have "mi_model_id i = k" if "(k, i) \<in> set ?m" for k i
    using that assms set_update_values[of "mi_model_id info" info "rg_models rg"] by (auto simp: registry_ok_def)
  moreover have "k \<in> set (keys ?m)"
    if "(a, k) \<in> set (foldl (\<lambda>d a. AList.update a (mi_model_id info) d) (rg_aliases rg) (mi_aliases info))" for a k
    using that assms aliases_of[of "mi_model_id info" "rg_aliases rg" "mi_aliases info"] unfolding keys_update by (auto simp: registry_ok_def)
  ultimately show ?thesis
    using assms by (auto simp: registry_ok_def register_def wf_dict_update)
qed

lemma load_models_ok: "registry_ok rg \<Longrightarrow> registry_ok (snd (load_models pt es rg))"
  by (induction pt es rg rule: load_models.induct) (auto simp: register_ok split: sum.splits)

lemma load_seed_catalog_ok: "registry_ok rg \<Longrightarrow> registry_ok (snd (load_seed_catalog pt cat rg))"
  by (auto simp: load_seed_catalog_def intro!: load_models_ok split: option.splits) (simp add: registry_ok_def)

datatype registry_op =
    R_load "string \<Rightarrow> secs option" "catalog option"
  | R_reload "string \<Rightarrow> secs option" "catalog option"
  | R_register model_info

fun registry_step :: "registry_op \<Rightarrow> registry \<Rightarrow> registry" where
  "registry_step (R_load pt cat) rg = snd (ensure_loaded pt cat rg)"
| "registry_step (R_reload pt cat) rg = snd (reload pt cat rg)"
| "registry_step (R_register info) rg = register info rg"

lemma registry_step_ok:
  assumes "registry_ok rg"
  shows "registry_ok (registry_step op rg)"
proof (cases op)
  case (R_load pt cat)
  have "registry_ok (rg'\<lparr>rg_loaded := b\<rparr>) = registry_ok rg'" for rg' b by (simp add: registry_ok_def)
  then show ?thesis
    using R_load assms load_seed_catalog_ok[OF assms, of pt cat] by (auto simp: ensure_loaded_def split: prod.splits sum.splits)
next
  case (R_reload pt cat)
  have "registry_ok (rg\<lparr>rg_models := [], rg_aliases := [], rg_shadow_targets := [], rg_context_windows := [], rg_cache_multipliers := []\<rparr>)"
    by (simp add: registry_ok_def)
  from load_seed_catalog_ok[OF this] R_reload show ?thesis by (simp add: reload_def)
qed (simp add: assms register_ok)

lemma registry_run_ok: "registry_ok rg \<Longrightarrow> registry_ok (fold registry_step ops rg)"
  by (induction ops arbitrary: rg) (auto simp: registry_step_ok)

lemma registry_always_ok: "registry_ok (fold registry_step ops ModelRegistry)"
  by (rule registry_run_ok) (simp add: registry_ok_def ModelRegistry_def)

section \<open>Resolution\<close>

lemma longest_key_from:
  assumes "foldl (\<lambda>best k. if P k \<and> (case best of None \<Rightarrow> 0 | Some b \<Rightarrow> length b) < length k then Some k else best) best ks = r"
  shows "(r = best \<or> (\<exists>k \<in> set ks. r = Some k \<and> P k \<and> k \<noteq> [])) \<and>
         (\<forall>k \<in> set ks. P k \<longrightarrow> length k \<le> (case r of None \<Rightarrow> 0 | Some b \<Rightarrow> length b)) \<and>
         (case best of None \<Rightarrow> 0 | Some b \<Rightarrow> length b) \<le> (case r of None \<Rightarrow> 0 | Some b \<Rightarrow> length b)"
  using assms
proof (induction ks arbitrary: best)
  case (Cons k ks)
  let ?len = "\<lambda>b. case b of None \<Rightarrow> 0 | Some b \<Rightarrow> length b"
  show ?case
  proof (cases "P k \<and> ?len best < length k")
    case True
    with Cons.IH[of "Some k"] Cons.prems show ?thesis by fastforce
  next
    case False
    with Cons.IH[of best] Cons.prems show ?thesis by fastforce
  qed
qed simp

lemma longest_key_Some:
  assumes "longest_key P ks = Some k"
  shows "k \<in> set ks" "P k" "k' \<in> set ks \<Longrightarrow> P k' \<Longrightarrow> length k' \<le> length k"
  using longest_key_from[of P None ks "Some k"] assms by (auto simp: longest_key_def)

lemma longest_key_None: "longest_key P ks = None \<Longrightarrow> k \<in> set ks \<Longrightarrow> P k \<Longrightarrow> k = []"
  using longest_key_from[of P None ks None] by (auto simp: longest_key_def)

lemma find_sorted:
  fixes f :: "'a \<Rightarrow> 'b :: linorder"
  assumes "find P xs = Some r" "sorted (map f xs)"
  shows "r \<in> set xs" "P r" "x \<in> set xs \<Longrightarrow> P x \<Longrightarrow> f r \<le> f x"
  using assms by (induction xs) (auto split: if_splits)

lemma longest_family:
  assumes "find (\<lambda>r. family_matches r model) get_sorted_families = Some r"
  shows "r \<in> set BUILTIN_FAMILIES" "family_matches r model"
    "r' \<in> set BUILTIN_FAMILIES \<Longrightarrow> family_matches r' model \<Longrightarrow> length (fr_pattern r') \<le> length (fr_pattern r)"
  using find_sorted[OF assms, of "\<lambda>r. - int (length (fr_pattern r))"] by (auto simp: get_sorted_families_def)

text \<open>How near a catalog entry is to the identifier: the same, an alias, the dated form, or the longest prefix.\<close>

definition nearest_entry :: "registry \<Rightarrow> string \<Rightarrow> model_info \<Rightarrow> bool" where
  "nearest_entry rg model info \<longleftrightarrow>
     map_of (rg_models rg) (mi_model_id info) = Some info \<and>
     (mi_model_id info = model \<or> map_of (rg_aliases rg) model = Some (mi_model_id info) \<or>
      mi_model_id info = strip_date model \<or> map_of (rg_aliases rg) (strip_date model) = Some (mi_model_id info) \<or>
      (startswith model (mi_model_id info) \<and>
       (\<forall>k \<in> set (keys (rg_models rg)). startswith model k \<longrightarrow> length k \<le> length (mi_model_id info))))"

definition inferred_only :: "registry \<Rightarrow> string \<Rightarrow> model_info \<Rightarrow> bool" where
  "inferred_only rg model info \<longleftrightarrow>
     mi_model_id info = model \<and> mi_source info = ''inferred'' \<and> mi_rate_bands info = [] \<and>
     model \<notin> set (keys (rg_models rg)) \<and> (\<forall>k \<in> set (keys (rg_models rg)). startswith model k \<longrightarrow> k = []) \<and>
     ((\<exists>r \<in> set BUILTIN_FAMILIES. info = inferred_info r model \<and> family_matches r model \<and>
         (\<forall>r' \<in> set BUILTIN_FAMILIES. family_matches r' model \<longrightarrow> length (fr_pattern r') \<le> length (fr_pattern r))) \<or>
      (\<forall>r \<in> set BUILTIN_FAMILIES. \<not> family_matches r model) \<and> info = provider_aware_default model)"

lemma known_as_entry:
  assumes "registry_ok rg" "known_as rg m = Some i"
  shows "map_of (rg_models rg) (mi_model_id i) = Some i \<and> (mi_model_id i = m \<or> map_of (rg_aliases rg) m = Some (mi_model_id i))"
  using assms registry_okD[OF assms(1)] by (auto simp: known_as_def split: option.splits if_splits)

lemma inferred_infos:
  "mi_model_id (inferred_info r m) = m" "mi_source (inferred_info r m) = ''inferred''" "mi_rate_bands (inferred_info r m) = []"
  "mi_model_id (provider_aware_default m) = m" "mi_source (provider_aware_default m) = ''inferred''" "mi_rate_bands (provider_aware_default m) = []"
  by (simp_all add: inferred_info_def provider_aware_default_def ModelInfo_def Let_def)

lemma resolve_cases:
  assumes "registry_ok rg" "model \<noteq> []"
  shows "nearest_entry rg model (resolve rg model) \<or> inferred_only rg model (resolve rg model)"
proof -
  define dated_form where "dated_form = (if strip_date model \<noteq> model then known_as rg (strip_date model) else None)"
  have r: "resolve rg model =
      (case known_as rg model of
         Some i \<Rightarrow> i
       | None \<Rightarrow> (case dated_form of
             Some i \<Rightarrow> i
           | None \<Rightarrow> (case longest_key (startswith model) (keys (rg_models rg)) of
                  Some k \<Rightarrow> the (map_of (rg_models rg) k)
                | None \<Rightarrow> (case find (\<lambda>r. family_matches r model) get_sorted_families of
                       Some r \<Rightarrow> inferred_info r model | None \<Rightarrow> provider_aware_default model))))"
    using assms(2) unfolding resolve_def Let_def dated_form_def by simp
  consider (known) i where "known_as rg model = Some i"
    | (dated) i where "known_as rg model = None" "dated_form = Some i"
    | (prefix) k where "known_as rg model = None" "dated_form = None" "longest_key (startswith model) (keys (rg_models rg)) = Some k"
    | (none) "known_as rg model = None" "dated_form = None" "longest_key (startswith model) (keys (rg_models rg)) = None"
    by (metis option.exhaust)
  then show ?thesis
  proof cases
    case (known i)
    then show ?thesis using known_as_entry[OF assms(1)] r by (auto simp: nearest_entry_def)
  next
    case (dated i)
    then have "known_as rg (strip_date model) = Some i" by (auto simp: dated_form_def split: if_splits)
    then show ?thesis using dated known_as_entry[OF assms(1)] r by (auto simp: nearest_entry_def)
  next
    case (prefix k)
    note k = longest_key_Some[OF prefix(3)]
    then obtain i where i: "map_of (rg_models rg) k = Some i" by (metis image_eqI map_of_eq_None_iff not_None_eq list.set_map)
    then show ?thesis using prefix k registry_okD(1)[OF assms(1) i] r by (auto simp: nearest_entry_def)
  next
    case none
    have out: "model \<notin> set (keys (rg_models rg))"
      using none(1) by (auto simp: known_as_def map_of_eq_None_iff split: option.splits)
    have pre: "\<forall>k \<in> set (keys (rg_models rg)). startswith model k \<longrightarrow> k = []"
      using longest_key_None[OF none(3)] by blast
    have res: "resolve rg model = (case find (\<lambda>r. family_matches r model) get_sorted_families of
                       Some r \<Rightarrow> inferred_info r model | None \<Rightarrow> provider_aware_default model)"
      unfolding r none option.case ..
    show ?thesis
    proof (cases "find (\<lambda>r. family_matches r model) get_sorted_families")
      case None
      then have no: "\<forall>r \<in> set BUILTIN_FAMILIES. \<not> family_matches r model" by (auto simp: find_None_iff get_sorted_families_def)
      show ?thesis unfolding res None option.case inferred_only_def inferred_infos using out pre no by blast
    next
      case (Some f)
      show ?thesis unfolding res Some option.case inferred_only_def inferred_infos using out pre longest_family[OF Some] by blast
    qed
  qed
qed



text \<open>A seed entry that answers to the identifier itself is the registered one.\<close>

lemma resolve_exact:
  assumes "registry_ok rg" "mi_model_id (resolve rg m) = m" "mi_source (resolve rg m) = ''seed''"
  shows "map_of (rg_models rg) m = Some (resolve rg m)"
proof (cases "m = []")
  case True
  then show ?thesis using assms(3) by (simp add: resolve_def UNKNOWN_DEFAULT_def)
next
  case False
  from resolve_cases[OF assms(1) this] assms(2,3) show ?thesis by (auto simp: nearest_entry_def inferred_only_def)
qed

section \<open>Cheaper alternatives\<close>

definition opus_prices :: registry where
  "opus_prices = fold register
     [ModelInfo ''claude-opus-4-7'' ''anthropic'' 4 5 25, ModelInfo ''claude-opus-4-5'' ''anthropic'' 3 5 25,
      ModelInfo ''claude-3-opus-20240229'' ''anthropic'' 3 15 75] ModelRegistry"

text \<open>
  A cheaper alternative may cost more.  Within the next tier the search prefers the most
  expensive model, and nothing compares it with the model at hand: with these prices of the
  shipped catalog, the alternative offered for a model is three times as expensive.
\<close>

lemma cheaper_alternative_may_cost_more:
  "get_cheaper_alternative opus_prices ''claude-opus-4-7'' = Some (''claude-3-opus-20240229'', - 2) \<and>
   mi_input_per_mtok (resolve opus_prices ''claude-3-opus-20240229'') = 3 * mi_input_per_mtok (resolve opus_prices ''claude-opus-4-7'')"
  by code_simp

end
