(* ===== verification/Request_Pricing.thy ===== *)
theory Request_Pricing
  imports Registry Token_Accounting
begin

text \<open>
  Quotes and prices of one observed request (\<^verbatim>\<open>models/_quote.py\<close>, \<^verbatim>\<open>spend_guard/request_pricing.py\<close>, and
  the stored form of workloads in \<^verbatim>\<open>request_workload.py\<close>).  A price is bound to the exact catalog entry, to bands
  with official provenance and to the observed counts.  Rates and costs are rationals; JSON text, SHA-256 and
  the reading of time stamps are parameters.
\<close>

section \<open>Stored workloads\<close>

definition MAX_JSON :: nat where "MAX_JSON = 4096"

definition workload_to_dict :: "workload \<Rightarrow> json" where
  "workload_to_dict w = J_obj
     [(''body_sha256'', opt_json J_str (rw_body_sha256 w)), (''provider'', opt_json J_str (rw_provider w)),
      (''model'', opt_json J_str (rw_model w)), (''input_modality'', opt_json J_str (rw_input_modality w)),
      (''output_modality'', opt_json J_str (rw_output_modality w)), (''cache_ttl_seconds'', opt_json J_int (rw_cache_ttl_seconds w)),
      (''requested_service_tier'', opt_json J_str (rw_requested_service_tier w)),
      (''requested_region'', opt_json J_str (rw_requested_region w)), (''response_model'', opt_json J_str (rw_response_model w)),
      (''service_tier'', opt_json J_str (rw_service_tier w)), (''region'', opt_json J_str (rw_region w)),
      (''input_tokens'', opt_json J_int (rw_input_tokens w)), (''output_tokens'', opt_json J_int (rw_output_tokens w)),
      (''cache_read_tokens'', opt_json J_int (rw_cache_read_tokens w)), (''cache_write_tokens'', opt_json J_int (rw_cache_write_tokens w)),
      (''response_complete'', J_bool (rw_response_complete w)), (''reason_codes'', J_list (map J_str (rw_reason_codes w))),
      (''schema_version'', J_str ''native-request-workload/1'')]"

definition WORKLOAD_KEYS :: "string list" where
  "WORKLOAD_KEYS = [''body_sha256'', ''provider'', ''model'', ''input_modality'', ''output_modality'', ''cache_ttl_seconds'',
     ''requested_service_tier'', ''requested_region'', ''response_model'', ''service_tier'', ''region'', ''input_tokens'', ''output_tokens'',
     ''cache_read_tokens'', ''cache_write_tokens'', ''response_complete'', ''reason_codes'', ''schema_version'']"

definition workload_from_dict :: "json \<Rightarrow> py_error + workload" where
  "workload_from_dict j =
     (case j of
        J_obj d \<Rightarrow>
          ebind (demand (set (keys d) = set WORKLOAD_KEYS) ''invalid workload fields'') (\<lambda>_.
          ebind (demand (get_field d ''schema_version'' = J_str ''native-request-workload/1'') ''unsupported workload schema'') (\<lambda>_.
          ebind (opt_str_field d ''body_sha256'') (\<lambda>body. ebind (opt_str_field d ''provider'') (\<lambda>provider.
          ebind (opt_str_field d ''model'') (\<lambda>model. ebind (opt_str_field d ''input_modality'') (\<lambda>im.
          ebind (opt_str_field d ''output_modality'') (\<lambda>om. ebind (opt_int_field d ''cache_ttl_seconds'') (\<lambda>ttl.
          ebind (opt_str_field d ''requested_service_tier'') (\<lambda>rtier. ebind (opt_str_field d ''requested_region'') (\<lambda>rregion.
          ebind (opt_str_field d ''response_model'') (\<lambda>rmodel. ebind (opt_str_field d ''service_tier'') (\<lambda>tier.
          ebind (opt_str_field d ''region'') (\<lambda>region. ebind (opt_int_field d ''input_tokens'') (\<lambda>inp.
          ebind (opt_int_field d ''output_tokens'') (\<lambda>out. ebind (opt_int_field d ''cache_read_tokens'') (\<lambda>cr.
          ebind (opt_int_field d ''cache_write_tokens'') (\<lambda>cw. ebind (bool_field d ''response_complete'') (\<lambda>rc.
          ebind (strs_field d ''reason_codes'') (\<lambda>rs.
            RequestWorkload \<lparr>rw_body_sha256 = body, rw_provider = provider, rw_model = model, rw_input_modality = im,
              rw_output_modality = om, rw_cache_ttl_seconds = ttl, rw_requested_service_tier = rtier, rw_requested_region = rregion,
              rw_response_model = rmodel, rw_service_tier = tier, rw_region = region, rw_input_tokens = inp, rw_output_tokens = out,
              rw_cache_read_tokens = cr, rw_cache_write_tokens = cw, rw_response_complete = rc, rw_reason_codes = rs\<rparr>)))))))))))))))))))
      | _ \<Rightarrow> Inl (ValueError ''invalid workload fields''))"

definition workload_to_json :: "native_env \<Rightarrow> workload \<Rightarrow> string" where
  "workload_to_json env w = ne_dumps env (workload_to_dict w)"

definition workload_from_json :: "native_env \<Rightarrow> string \<Rightarrow> py_error + workload" where
  "workload_from_json env raw =
     ebind (demand (length raw \<le> MAX_JSON) ''invalid stored workload'') (\<lambda>_. ebind (strict_json (ne_pairs env) raw) workload_from_dict)"

section \<open>Applicability\<close>

definition context_for :: "workload \<Rightarrow> int option \<Rightarrow> py_error + pricing_context" where
  "context_for w ttl =
     (case (rw_input_modality w, rw_output_modality w, rw_service_tier w, rw_region w) of
        (Some im, Some om, Some tier, Some region) \<Rightarrow>
          PricingContext \<lparr>pc_input_tokens = rw_input_tokens w, pc_input_modality = im, pc_output_modality = om, pc_service_tier = tier,
                          pc_region = region, pc_cache_ttl_seconds = ttl\<rparr>
      | _ \<Rightarrow> Inl (ValueError ''context fields must be strings''))"

text \<open>A workload without cached tokens may lack the cache lifetime, and nothing else.\<close>

definition zero_cache_facts :: "workload \<Rightarrow> bool" where
  "zero_cache_facts w \<longleftrightarrow>
     rw_response_complete w \<and>
     None \<notin> {rw_body_sha256 w, rw_provider w, rw_model w, rw_response_model w, rw_input_modality w, rw_output_modality w,
              rw_service_tier w, rw_region w} \<and>
     None \<notin> {rw_input_tokens w, rw_output_tokens w} \<and> rw_model w = rw_response_model w \<and>
     (rw_requested_region w \<in> {None, Some []} \<or> rw_requested_region w = rw_region w) \<and>
     (rw_requested_service_tier w = Some ''standard_only'' \<longrightarrow> rw_service_tier w = Some ''standard'')"

definition check_priced_workload :: "native_env \<Rightarrow> workload \<Rightarrow> py_error + unit" where
  "check_priced_workload env w =
     ebind (if rw_reason_codes w = [''cache_ttl_unavailable'']
            then ebind (demand (rw_cache_ttl_seconds w = None \<and> rw_cache_read_tokens w = Some 0 \<and> rw_cache_write_tokens w = Some 0)
                          ''cache lifetime affects this charge'') (\<lambda>_.
                 demand (zero_cache_facts w) ''incomplete zero-cache workload'')
            else demand (rw_reason_codes w = []) ''workload is unavailable for pricing'') (\<lambda>_.
     ebind (workload_from_json env (workload_to_json env w)) (\<lambda>_. Inr ()))"

definition OFFICIAL_HOSTS :: "(string, string list) dict" where
  "OFFICIAL_HOSTS = [(''anthropic'', [''platform.claude.com'']), (''openai'', [''developers.openai.com'', ''platform.openai.com''])]"

text \<open>An address of the provider's own site, on the default port and without credentials.\<close>

definition official_url :: "string \<Rightarrow> bool \<Rightarrow> rate_band \<Rightarrow> py_error + bool" where
  "official_url provider bare b =
     ebind (urlsplit (rb_source_url b)) (\<lambda>p.
     let hostinfo = rev (takeWhile (\<lambda>c. c \<noteq> CHR ''@'') (rev (up_netloc p)));
         (host, port) = cut_at CHR '':'' hostinfo in
     if rb_source b \<noteq> ''official'' \<or> up_scheme p \<noteq> ''https'' \<or> CHR ''['' \<in> set hostinfo \<or> lower host \<notin> set (or_else (map_of OFFICIAL_HOSTS provider) []) \<or>
        CHR ''@'' \<in> set (up_netloc p) then Inr False
     else ebind (port_of port) (\<lambda>n.
       Inr ((n = None \<or> n = Some 443) \<and> (bare \<longrightarrow> up_query p = [] \<and> up_fragment p = []))))"

definition exact_selectors :: "rate_band \<Rightarrow> bool" where
  "exact_selectors b \<longleftrightarrow>
     any_word \<notin> set (rb_input_modalities b) \<and> any_word \<notin> set (rb_output_modalities b) \<and> any_word \<notin> set (rb_service_tiers b) \<and>
     any_word \<notin> set (rb_regions b) \<and> rb_max_input_tokens b \<noteq> None \<and> rb_cache_ttl_seconds b \<noteq> None"

definition exact_band :: "rate_band \<Rightarrow> bool" where
  "exact_band b \<longleftrightarrow> exact_selectors b \<and> rb_cache_read_per_mtok b \<noteq> None \<and> rb_cache_write_per_mtok b \<noteq> None"

definition check_price_band :: "(string \<Rightarrow> secs option) \<Rightarrow> workload \<Rightarrow> secs \<Rightarrow> rate_band \<Rightarrow> py_error + unit" where
  "check_price_band pt w priced_at b =
     ebind (demand (exact_band b) ''price band lacks exact workload applicability'') (\<lambda>_.
     ebind (context_for w (rb_cache_ttl_seconds b)) (\<lambda>c.
     ebind (demand (band_matches b c) ''price band lacks exact workload applicability'') (\<lambda>_.
     ebind (official_url (or_else (rw_provider w) []) True b) (\<lambda>ok.
     ebind (demand ok ''price band lacks public official provenance'') (\<lambda>_.
     ebind (parse_pricing_timestamp pt (rb_verified_at b)) (\<lambda>verified.
     ebind (demand (verified \<le> priced_at) ''price verification is in the future'') (\<lambda>_.
     ebind (optional_timestamp pt (rb_expires_at b)) (\<lambda>expires.
       demand (holds_for (\<lambda>e. priced_at < e) expires) ''price band expired before pricing''))))))))"

section \<open>Prices\<close>

record request_price =
  rp_workload :: workload
  rp_bands :: "rate_band list"
  rp_priced_at :: string

definition band_cost :: "workload \<Rightarrow> rate_band \<Rightarrow> rat" where
  "band_cost w b =
     (of_int (the (rw_input_tokens w) - the (rw_cache_read_tokens w) - the (rw_cache_write_tokens w)) * rb_input_per_mtok b
      + of_int (the (rw_output_tokens w)) * rb_output_per_mtok b
      + of_int (the (rw_cache_read_tokens w)) * the (rb_cache_read_per_mtok b)
      + of_int (the (rw_cache_write_tokens w)) * the (rb_cache_write_per_mtok b)) / 1000000"

definition cost_usd :: "request_price \<Rightarrow> rat" where
  "cost_usd p = band_cost (rp_workload p) (hd (rp_bands p))"

fun strictly_up :: "int list \<Rightarrow> bool" where
  "strictly_up (a # b # xs) \<longleftrightarrow> a < b \<and> strictly_up (b # xs)"
| "strictly_up _ \<longleftrightarrow> True"

fun all_checked :: "('a \<Rightarrow> 'e + unit) \<Rightarrow> 'a list \<Rightarrow> 'e + unit" where
  "all_checked f [] = Inr ()"
| "all_checked f (x # xs) = ebind (f x) (\<lambda>_. all_checked f xs)"

definition lifetimes_covered :: "workload \<Rightarrow> rate_band list \<Rightarrow> py_error + unit" where
  "lifetimes_covered w bands =
     (let ttls = map rb_cache_ttl_seconds bands in
      case rw_cache_ttl_seconds w of
        Some t \<Rightarrow> demand (ttls = [Some t]) ''request price lifetime mismatch''
      | None \<Rightarrow>
          ebind (demand (ttls = [Some 300, Some 3600]) ''prices do not cover the supported cache lifetimes'') (\<lambda>_.
            demand (card (set (map (\<lambda>b. (rb_input_per_mtok b, rb_output_per_mtok b)) bands)) = 1) ''unknown lifetime changes token prices''))"

definition RequestPrice :: "native_env \<Rightarrow> (string \<Rightarrow> secs option) \<Rightarrow> workload \<Rightarrow> rate_band list \<Rightarrow> string \<Rightarrow> py_error + request_price" where
  "RequestPrice env pt w bands priced_at =
     ebind (check_priced_workload env w) (\<lambda>_.
     ebind (parse_pricing_timestamp pt (Some priced_at)) (\<lambda>now.
     ebind (demand (bands \<noteq> [] \<and> length bands \<le> 8) ''invalid request price bands'') (\<lambda>_.
     ebind (demand (None \<notin> set (map rb_cache_ttl_seconds bands) \<and> strictly_up (map (the \<circ> rb_cache_ttl_seconds) bands))
              ''ambiguous request price lifetimes'') (\<lambda>_.
     ebind (all_checked (check_price_band pt w now) bands) (\<lambda>_.
     ebind (lifetimes_covered w bands) (\<lambda>_. Inr \<lparr>rp_workload = w, rp_bands = bands, rp_priced_at = priced_at\<rparr>))))))"

definition MAX_PRICE_RECEIPT :: nat where "MAX_PRICE_RECEIPT = 16 * 1024"

definition price_to_json :: "native_env \<Rightarrow> request_price \<Rightarrow> py_error + string" where
  "price_to_json env p =
     (let s = ne_dumps env (J_obj [(''schema_version'', J_str ''native-request-price/1''), (''workload'', workload_to_dict (rp_workload p)),
                (''bands'', J_list (map to_mapping (rp_bands p))), (''priced_at'', J_str (rp_priced_at p))]) in
      ebind (demand (length (utf8 s) \<le> MAX_PRICE_RECEIPT) ''request price receipt exceeds size limit'') (\<lambda>_. Inr s))"

text \<open>The workload inside a receipt is written out again (\<open>plain\<close>) and read by its own reader.\<close>

definition price_from_json :: "native_env \<Rightarrow> (json \<Rightarrow> string) \<Rightarrow> (string \<Rightarrow> secs option) \<Rightarrow> string \<Rightarrow> py_error + request_price" where
  "price_from_json env plain pt raw =
     ebind (demand (length (utf8 raw) \<le> MAX_PRICE_RECEIPT) ''invalid request price receipt'') (\<lambda>_.
     ebind (strict_json (ne_pairs env) raw) (\<lambda>j.
     case j of
       J_obj d \<Rightarrow>
         ebind (demand (set (keys d) = {''workload'', ''bands'', ''priced_at'', ''schema_version''}) ''invalid request price fields'') (\<lambda>_.
         case get_field d ''bands'' of
           J_list bs \<Rightarrow>
             ebind (demand (bs \<noteq> [] \<and> length bs \<le> 8) ''invalid request price bands'') (\<lambda>_.
             ebind (workload_from_json env (plain (get_field d ''workload''))) (\<lambda>w.
             ebind (each_result (from_mapping pt) bs) (\<lambda>bands.
             ebind (demand (get_field d ''schema_version'' = J_str ''native-request-price/1'') ''unsupported request price schema'') (\<lambda>_.
             case get_field d ''priced_at'' of
               J_str at_time \<Rightarrow> RequestPrice env pt w bands at_time
             | _ \<Rightarrow> Inl (ValueError ''pricing timestamp must be an ISO string with timezone'')))))
         | _ \<Rightarrow> Inl (ValueError ''invalid request price bands''))
     | _ \<Rightarrow> Inl (ValueError ''invalid request price fields'')))"

record usage_row =
  ur_model :: string
  ur_input_tokens :: "int option"
  ur_output_tokens :: "int option"
  ur_cache_read_tokens :: "int option"
  ur_cache_creation_tokens :: "int option"

definition require_row :: "request_price \<Rightarrow> usage_row \<Rightarrow> rat \<Rightarrow> py_error + unit" where
  "require_row p row cost =
     (let w = rp_workload p in
      ebind (demand (Some (ur_model row) = rw_model w \<and>
                     list_all (\<lambda>(actual, expected). actual \<noteq> None \<and> actual = expected)
                       [(ur_input_tokens row, rw_input_tokens w), (ur_output_tokens row, rw_output_tokens w),
                        (ur_cache_read_tokens row, rw_cache_read_tokens w), (ur_cache_creation_tokens row, rw_cache_write_tokens w)])
               ''request price does not match recorded workload'') (\<lambda>_.
        demand (cost = cost_usd p) ''request price does not match recorded cost''))"

section \<open>Pricing a request\<close>

definition the_band :: "model_info \<Rightarrow> workload \<Rightarrow> int option \<Rightarrow> py_error + rate_band option" where
  "the_band info w ttl = ebind (context_for w ttl) (\<lambda>c. rate_band_for info (Some c))"

definition matching_bands :: "workload \<Rightarrow> rate_band list \<Rightarrow> py_error + rate_band list" where
  "matching_bands w bands =
     ebind (each_result (\<lambda>b. ebind (context_for w (rb_cache_ttl_seconds b)) (\<lambda>c. Inr (b, band_matches b c))) bands) (\<lambda>bs.
       Inr (map fst (filter snd bs)))"

fun insert_int :: "int \<Rightarrow> int list \<Rightarrow> int list" where
  "insert_int n [] = [n]"
| "insert_int n (x # xs) = (if n < x then n # x # xs else if n = x then x # xs else x # insert_int n xs)"

definition sorted_ints :: "int list \<Rightarrow> int list" where
  "sorted_ints ns = foldr insert_int ns []"

definition bands_of :: "model_info \<Rightarrow> workload \<Rightarrow> py_error + rate_band list" where
  "bands_of info w =
     (case rw_cache_ttl_seconds w of
        Some t \<Rightarrow> ebind (the_band info w (Some t)) (\<lambda>b. Inr (case b of None \<Rightarrow> [] | Some b \<Rightarrow> [b]))
      | None \<Rightarrow>
          ebind (matching_bands w (mi_rate_bands info)) (\<lambda>cs.
          ebind (demand (None \<notin> set (map rb_cache_ttl_seconds cs)) ''unspecified lifetime price applicability'') (\<lambda>_.
            each_result (\<lambda>t. ebind (the_band info w (Some t)) (\<lambda>b.
              case b of None \<Rightarrow> Inl (ValueError ''invalid request price band'') | Some b \<Rightarrow> Inr b))
              (sorted_ints (map (the \<circ> rb_cache_ttl_seconds) cs)))))"

definition price_request :: "native_env \<Rightarrow> (string \<Rightarrow> secs option) \<Rightarrow> catalog option \<Rightarrow> string \<Rightarrow> workload \<Rightarrow> py_error + request_price" where
  "price_request env pt cat now w =
     ebind (check_priced_workload env w) (\<lambda>_.
     case ensure_loaded pt cat ModelRegistry of
       (Inl e, rg) \<Rightarrow> Inl e
     | (Inr _, rg) \<Rightarrow>
         let info = resolve rg (or_else (rw_model w) []) in
         ebind (demand (Some (mi_model_id info) = rw_model w \<and> Some (mi_provider info) = rw_provider w \<and> mi_source info = ''seed'')
                  ''exact catalog model and provider required'') (\<lambda>_.
         ebind (bands_of info w) (\<lambda>bands.
         ebind (RequestPrice env pt w bands now) (\<lambda>p.
         ebind (price_to_json env p) (\<lambda>_. Inr p)))))"

section \<open>Quotes\<close>

record pricing_quote =
  pq_provider :: string
  pq_model :: string
  pq_context :: pricing_context
  pq_band :: rate_band
  pq_as_of :: secs
  pq_valid_until :: secs
  pq_sha256 :: string

definition quote_digest :: "native_env \<Rightarrow> (secs \<Rightarrow> string) \<Rightarrow> string \<Rightarrow> string \<Rightarrow> pricing_context \<Rightarrow> rate_band \<Rightarrow> secs \<Rightarrow> secs \<Rightarrow> string" where
  "quote_digest env iso8601 provider model c b as_of valid_until =
     ne_sha256 env (ne_dumps env (J_obj [(''provider'', J_str provider), (''model'', J_str model),
       (''context'', J_obj [(''input_tokens'', opt_json J_int (pc_input_tokens c)), (''input_modality'', J_str (pc_input_modality c)),
          (''output_modality'', J_str (pc_output_modality c)), (''service_tier'', J_str (pc_service_tier c)), (''region'', J_str (pc_region c)),
          (''cache_ttl_seconds'', opt_json J_int (pc_cache_ttl_seconds c))]),
       (''band'', to_mapping b), (''as_of'', J_str (iso8601 as_of)), (''valid_until'', J_str (iso8601 valid_until)),
       (''unit_basis'', J_str ''USD_PER_1M'')]))"

definition quote_until :: "secs \<Rightarrow> int \<Rightarrow> secs option \<Rightarrow> secs" where
  "quote_until verified max_age expires =
     (case expires of None \<Rightarrow> verified + of_int max_age | Some e \<Rightarrow> min (verified + of_int max_age) e)"

definition quote_workload ::
  "native_env \<Rightarrow> (secs \<Rightarrow> string) \<Rightarrow> (string \<Rightarrow> secs option) \<Rightarrow> registry \<Rightarrow> string \<Rightarrow> string \<Rightarrow> pricing_context \<Rightarrow> secs \<Rightarrow> int \<Rightarrow>
   py_error + pricing_quote" where
  "quote_workload env iso8601 pt rg provider model ctx as_of max_age =
     ebind (demand (pc_input_tokens ctx \<noteq> None \<and> pc_cache_ttl_seconds ctx \<noteq> None) ''input count and cache lifetime must be explicit integers'') (\<lambda>_.
     ebind (demand (0 < max_age) ''a positive pricing freshness policy is required'') (\<lambda>_.
     ebind (demand (model \<noteq> [] \<and> strip model = model) ''an exact model identifier is required'') (\<lambda>_.
     ebind (demand (provider \<in> set (keys OFFICIAL_HOSTS)) ''provider pricing is not verified'') (\<lambda>_.
     ebind (PricingContext ctx) (\<lambda>c.
     ebind (demand (any_word \<notin> {pc_input_modality c, pc_output_modality c, pc_service_tier c, pc_region c}) ''workload fields cannot be wildcards'') (\<lambda>_.
     let info = resolve rg model in
     ebind (demand (mi_model_id info = model \<and> mi_source info = ''seed'' \<and> mi_provider info = provider)
              ''exact model and provider must have catalog evidence'') (\<lambda>_.
     ebind (rate_band_for info (Some c)) (\<lambda>found.
     case found of
       None \<Rightarrow> Inl (ValueError ''no price band matches the explicit workload'')
     | Some b \<Rightarrow>
         ebind (demand (exact_selectors b) ''price band has unspecified workload applicability'') (\<lambda>_.
         ebind (demand (exact_band b) ''price band lacks complete cache rates'') (\<lambda>_.
         ebind (official_url provider False b) (\<lambda>ok.
         ebind (demand ok ''price band lacks official provider provenance'') (\<lambda>_.
         ebind (parse_pricing_timestamp pt (rb_verified_at b)) (\<lambda>verified.
         ebind (demand (verified \<le> as_of) ''price verification is in the future'') (\<lambda>_.
         ebind (optional_timestamp pt (rb_expires_at b)) (\<lambda>expires.
         let valid_until = quote_until verified max_age expires in
         ebind (demand (as_of < valid_until) ''price verification is stale or expired'') (\<lambda>_.
           Inr \<lparr>pq_provider = provider, pq_model = model, pq_context = c, pq_band = b, pq_as_of = as_of, pq_valid_until = valid_until,
                pq_sha256 = quote_digest env iso8601 provider model c b as_of valid_until\<rparr>))))))))))))))))"

section \<open>Bands of a loaded catalog\<close>

definition bands_valid :: "(string \<Rightarrow> secs option) \<Rightarrow> registry \<Rightarrow> bool" where
  "bands_valid pt rg \<longleftrightarrow> (\<forall>(k, i) \<in> set (rg_models rg). \<forall>b \<in> set (mi_rate_bands i). RateBand pt b = Inr b)"

lemma each_result_members: "each_result f xs = Inr ys \<Longrightarrow> y \<in> set ys \<Longrightarrow> \<exists>x \<in> set xs. f x = Inr y"
  by (induction xs arbitrary: ys) (auto simp: ebind_eq_Inr)

lemma register_valid:
  assumes "bands_valid pt rg" "\<forall>b \<in> set (mi_rate_bands info). RateBand pt b = Inr b"
  shows "bands_valid pt (register info rg)"
  using assms set_update_values[of "mi_model_id info" info "rg_models rg"] by (fastforce simp: bands_valid_def register_def)

lemma entry_info_valid: "entry_info pt rg model e = Inr info \<Longrightarrow> b \<in> set (mi_rate_bands info) \<Longrightarrow> RateBand pt b = Inr b"
  by (auto simp: entry_info_def ebind_eq_Inr dest!: each_result_members from_mapping_valid)

lemma load_models_valid: "bands_valid pt rg \<Longrightarrow> bands_valid pt (snd (load_models pt es rg))"
proof (induction pt es rg rule: load_models.induct)
  case (2 pt model e rest rg)
  show ?case
  proof (cases "entry_info pt rg model e")
    case (Inr info)
    then show ?thesis using 2 register_valid entry_info_valid by simp
  qed (simp add: 2)
qed simp

lemma fresh_registry:
  assumes "ensure_loaded pt cat ModelRegistry = (r, rg)"
  shows "registry_ok rg" "bands_valid pt rg"
proof -
  show "registry_ok rg" using registry_always_ok[of "[R_load pt cat]"] assms by simp
  have "bands_valid pt (snd (load_seed_catalog pt cat ModelRegistry))"
    by (auto simp: load_seed_catalog_def ModelRegistry_def bands_valid_def intro!: load_models_valid[unfolded bands_valid_def] split: option.splits)
  moreover have "bands_valid pt (rg'\<lparr>rg_loaded := b\<rparr>) = bands_valid pt rg'" for rg' b by (simp add: bands_valid_def)
  ultimately show "bands_valid pt rg" using assms by (auto simp: ensure_loaded_def ModelRegistry_def split: if_splits sum.splits prod.splits)
qed

text \<open>The narrowest of the bands that apply.\<close>

definition least_band :: "rate_band list \<Rightarrow> pricing_context \<Rightarrow> rate_band \<Rightarrow> bool" where
  "least_band bands c b \<longleftrightarrow>
     b \<in> set bands \<and> band_matches b c \<and> (\<forall>other \<in> set bands. band_matches other c \<longrightarrow> other = b \<or> footprint b \<subset> footprint other)"

lemma rate_band_least:
  assumes "bands_valid pt rg" "map_of (rg_models rg) m = Some info" "rate_band_for info (Some c) = Inr (Some b)"
  shows "least_band (mi_rate_bands info) c b"
proof -
  have "\<forall>b \<in> set (mi_rate_bands info). RateBand pt b = Inr b" using assms(1) map_of_SomeD[OF assms(2)] by (auto simp: bands_valid_def)
  from selected_least[OF this] assms(3) obtain us vs where
    f: "filter (\<lambda>b. band_matches b c) (mi_rate_bands info) = us @ b # vs" and l: "\<forall>other \<in> set us \<union> set vs. footprint b \<subset> footprint other"
    unfolding rate_band_for_def by blast
  have ms: "{x \<in> set (mi_rate_bands info). band_matches x c} = insert b (set us \<union> set vs)"
    using arg_cong[OF f, of set] by simp
  then show ?thesis using l unfolding least_band_def by blast
qed

section \<open>Quotes are exact and current\<close>

definition current_at :: "(string \<Rightarrow> secs option) \<Rightarrow> secs \<Rightarrow> rate_band \<Rightarrow> bool" where
  "current_at pt now b \<longleftrightarrow>
     (\<exists>v. parse_pricing_timestamp pt (rb_verified_at b) = Inr v \<and> v \<le> now) \<and>
     (\<exists>e. optional_timestamp pt (rb_expires_at b) = Inr e \<and> holds_for (\<lambda>e. now < e) e)"


section \<open>Prices are bound to what was observed\<close>

lemma all_checked_Inr: "all_checked f xs = Inr u \<longleftrightarrow> (\<forall>x \<in> set xs. f x = Inr ())"
  by (induction xs) (auto simp: ebind_eq_Inr)

lemma check_price_bandD:
  assumes "check_price_band pt w now b = Inr ()"
  shows "exact_band b" "official_url (or_else (rw_provider w) []) True b = Inr True" "current_at pt now b"
  using assms by (auto simp: check_price_band_def ebind_eq_Inr current_at_def)

text \<open>A workload that may be priced has its counts, and without a cache lifetime it has no cached tokens.\<close>

lemma priced_workload:
  assumes "RequestWorkload w = Inr w" "check_priced_workload env w = Inr ()"
  obtains i out cr cw where "rw_input_tokens w = Some i" "rw_output_tokens w = Some out" "rw_cache_read_tokens w = Some cr"
    "rw_cache_write_tokens w = Some cw" "0 \<le> out" "0 \<le> cr" "0 \<le> cw" "cr + cw \<le> i" "rw_model w \<noteq> None"
    "rw_cache_ttl_seconds w = None \<Longrightarrow> cr = 0 \<and> cw = 0"
proof -
  have c: "check_workload w = Inr ()" using assms(1) by (simp add: RequestWorkload_def ebind_eq_Inr)
  have count: "holds_for count_ok (rw_input_tokens w)" "holds_for count_ok (rw_output_tokens w)"
    "holds_for count_ok (rw_cache_read_tokens w)" "holds_for count_ok (rw_cache_write_tokens w)"
    and usable: "rw_reason_codes w = [] \<Longrightarrow> usable_workload w"
    using c by (simp_all add: check_workload_def ebind_eq_Inr)
  show ?thesis
  proof (cases "rw_reason_codes w = [''cache_ttl_unavailable'']")
    case True
    then have z: "rw_cache_read_tokens w = Some 0" "rw_cache_write_tokens w = Some 0" "zero_cache_facts w"
      using assms(2) by (simp_all add: check_priced_workload_def ebind_eq_Inr)
    have "rw_input_tokens w \<noteq> None" "rw_output_tokens w \<noteq> None" "rw_model w \<noteq> None"
      using z(3) unfolding zero_cache_facts_def by (metis insertCI)+
    then obtain i out where "rw_input_tokens w = Some i" "rw_output_tokens w = Some out" "rw_model w \<noteq> None" by blast
    then show thesis using z count by (intro that[of i out 0 0]) (auto simp: holds_for_def count_ok_def)
  next
    case False
    then have "rw_reason_codes w = []" using assms(2) by (simp add: check_priced_workload_def ebind_eq_Inr)
    then have u: "usable_workload w" by (rule usable)
    have n: "rw_input_tokens w \<noteq> None" "rw_output_tokens w \<noteq> None" "rw_cache_read_tokens w \<noteq> None" "rw_cache_write_tokens w \<noteq> None"
      "rw_model w \<noteq> None" "rw_cache_ttl_seconds w \<noteq> None"
      using u unfolding usable_workload_def by (metis insertCI)+
    obtain i out cr cw where s: "rw_input_tokens w = Some i" "rw_output_tokens w = Some out" "rw_cache_read_tokens w = Some cr"
      "rw_cache_write_tokens w = Some cw" "rw_model w \<noteq> None" "rw_cache_ttl_seconds w \<noteq> None" using n by blast
    then have "cr + cw \<le> i" using u by (simp add: usable_workload_def)
    with s show thesis using count by (intro that[of i out cr cw]) (auto simp: holds_for_def count_ok_def)
  qed
qed

lemma RequestPriceD:
  assumes "RequestPrice env pt w bands now = Inr p"
  obtains t where "p = \<lparr>rp_workload = w, rp_bands = bands, rp_priced_at = now\<rparr>" "pt now = Some t" "bands \<noteq> []"
    "check_priced_workload env w = Inr ()" "\<forall>b \<in> set bands. check_price_band pt w t b = Inr ()" "lifetimes_covered w bands = Inr ()"
  using assms unfolding RequestPrice_def
  by (auto simp: ebind_eq_Inr parse_pricing_timestamp_def all_checked_Inr split: option.splits)

text \<open>If the lifetime of the cache is unknown, the bands for the different lifetimes cost the same.\<close>

lemma same_cost:
  assumes "RequestWorkload w = Inr w" "RequestPrice env pt w bands now = Inr p" "b \<in> set bands"
  shows "band_cost w b = cost_usd p"
proof -
  obtain t where p: "p = \<lparr>rp_workload = w, rp_bands = bands, rp_priced_at = now\<rparr>" and ne: "bands \<noteq> []"
    and ok: "check_priced_workload env w = Inr ()" "lifetimes_covered w bands = Inr ()"
    by (rule RequestPriceD[OF assms(2)]) blast
  have cost: "cost_usd p = band_cost w (hd bands)" by (simp add: cost_usd_def p)
  show ?thesis
  proof (cases "rw_cache_ttl_seconds w")
    case (Some t)
    then have "length bands = 1" using ok(2) arg_cong[of "map rb_cache_ttl_seconds bands" "[Some t]" length]
      by (auto simp: lifetimes_covered_def)
    then show ?thesis using assms(3) cost by (cases bands) auto
  next
    case None
    then have "card ((\<lambda>b. (rb_input_per_mtok b, rb_output_per_mtok b)) ` set bands) = 1"
      using ok(2) by (simp add: lifetimes_covered_def ebind_eq_Inr)
    then obtain x where "(\<lambda>b. (rb_input_per_mtok b, rb_output_per_mtok b)) ` set bands = {x}" by (auto simp: card_1_singleton_iff)
    then have "(rb_input_per_mtok b, rb_output_per_mtok b) = (rb_input_per_mtok (hd bands), rb_output_per_mtok (hd bands))"
      using assms(3) ne by (metis (no_types, lifting) image_eqI list.set_sel(1) singletonD)
    moreover obtain i out where "rw_cache_read_tokens w = Some 0" "rw_cache_write_tokens w = Some 0"
      using priced_workload[OF assms(1) ok(1)] None by metis
    ultimately show ?thesis by (simp add: cost band_cost_def)
  qed
qed

lemma bands_of_least:
  assumes "bands_valid pt rg" "map_of (rg_models rg) m = Some info" "bands_of info w = Inr bands" "b \<in> set bands"
  shows "\<exists>ttl c. context_for w (Some ttl) = Inr c \<and> least_band (mi_rate_bands info) c b"
proof -
  have one: "\<exists>ttl c. context_for w (Some ttl) = Inr c \<and> least_band (mi_rate_bands info) c b" if "the_band info w (Some t) = Inr (Some b)" for t
    using that rate_band_least[OF assms(1,2)] by (auto simp: the_band_def ebind_eq_Inr)
  show ?thesis
  proof (cases "rw_cache_ttl_seconds w")
    case (Some t)
    then show ?thesis using assms(3,4) one by (auto simp: bands_of_def ebind_eq_Inr split: option.splits)
  next
    case None
    obtain cs where "each_result (\<lambda>t. ebind (the_band info w (Some t)) (\<lambda>b.
        case b of None \<Rightarrow> Inl (ValueError ''invalid request price band'') | Some b \<Rightarrow> Inr b)) cs = Inr bands"
      using assms(3) None by (auto simp: bands_of_def ebind_eq_Inr)
    from each_result_members[OF this assms(4)] show ?thesis by (auto simp: ebind_eq_Inr intro: one split: option.splits)
  qed
qed

text \<open>What a price says: it is taken from the catalog entry of the observed model and every band fits and costs the same.\<close>

lemma price_requestD:
  assumes "RequestWorkload w = Inr w" "price_request env pt cat now w = Inr p" "ensure_loaded pt cat ModelRegistry = (r, rg)"
  obtains info t where "map_of (rg_models rg) (the (rw_model w)) = Some info" "get_pricing rg (the (rw_model w)) = Some info"
    "Some (mi_provider info) = rw_provider w" "pt now = Some t"
    "rp_workload p = w" "rp_bands p \<noteq> []" "\<forall>b \<in> set (rp_bands p). check_price_band pt w t b = Inr ()"
    "\<forall>b \<in> set (rp_bands p). \<exists>ttl c. context_for w (Some ttl) = Inr c \<and> least_band (mi_rate_bands info) c b"
    "\<forall>b \<in> set (rp_bands p). band_cost w b = cost_usd p" "RequestPrice env pt w (rp_bands p) now = Inr p"
proof -
  have "\<exists>i :: model_info. Some (mi_model_id i) = rw_model w"
    using assms(2) by (auto simp: price_request_def assms(3) ebind_eq_Inr Let_def split: sum.splits)
  then obtain m where m: "rw_model w = Some m" by metis
  define info where "info = resolve rg m"
  have "\<exists>bands. Some (mi_model_id info) = rw_model w \<and> Some (mi_provider info) = rw_provider w \<and> mi_source info = ''seed'' \<and>
      bands_of info w = Inr bands \<and> RequestPrice env pt w bands now = Inr p"
    using assms(2) by (auto simp: price_request_def assms(3) m or_else_def info_def Let_def ebind_eq_Inr split: sum.split_asm)
  then obtain bands where i: "mi_model_id info = m" "Some (mi_provider info) = rw_provider w" "mi_source info = ''seed''"
    and b: "bands_of info w = Inr bands" and p: "RequestPrice env pt w bands now = Inr p" using m by auto
  have e: "map_of (rg_models rg) m = Some info"
    using resolve_exact[OF fresh_registry(1)[OF assms(3)]] i unfolding info_def by blast
  have "m \<noteq> []" using i(3) by (auto simp: info_def resolve_def UNKNOWN_DEFAULT_def)
  then have g: "get_pricing rg m = Some info" by (simp add: get_pricing_def info_def)
  obtain t where t: "p = \<lparr>rp_workload = w, rp_bands = bands, rp_priced_at = now\<rparr>" "pt now = Some t" "bands \<noteq> []"
    "\<forall>b \<in> set bands. check_price_band pt w t b = Inr ()"
    by (rule RequestPriceD[OF p]) blast
  have sel: "rp_bands p = bands" "rp_workload p = w" using t(1) by simp_all
  show thesis
    by (rule that[of info t])
      (use e g i(2) t(2-4) m sel p same_cost[OF assms(1) p] bands_of_least[OF fresh_registry(2)[OF assms(3)] e b] in auto)
qed

lemma RateBand_rates:
  assumes "RateBand pt b = Inr b"
  shows "0 \<le> rb_input_per_mtok b" "0 \<le> rb_output_per_mtok b" "holds_for (\<lambda>x. 0 \<le> x) (rb_cache_read_per_mtok b)"
    "holds_for (\<lambda>x. 0 \<le> x) (rb_cache_write_per_mtok b)"
  using assms unfolding RateBand_def Let_def ebind_eq_Inr by simp_all

lemma band_cost_nonneg:
  assumes "RateBand pt b = Inr b" "rw_input_tokens w = Some i" "rw_output_tokens w = Some out" "rw_cache_read_tokens w = Some cr"
    "rw_cache_write_tokens w = Some cw" "0 \<le> out" "0 \<le> cr" "0 \<le> cw" "cr + cw \<le> i" "exact_band b"
  shows "0 \<le> band_cost w b"
proof -
  obtain x y where r: "rb_cache_read_per_mtok b = Some x" "rb_cache_write_per_mtok b = Some y" using assms(10) by (auto simp: exact_band_def)
  have "0 \<le> rb_input_per_mtok b" "0 \<le> rb_output_per_mtok b" "0 \<le> x" "0 \<le> y"
    using RateBand_rates[OF assms(1)] r by (simp_all add: holds_for_def)
  moreover have "0 \<le> (of_int (i - cr - cw) :: rat)" using assms(9) by simp
  ultimately show ?thesis unfolding band_cost_def assms(2-5) option.sel r
    by (intro divide_nonneg_pos add_nonneg_nonneg mult_nonneg_nonneg) (use assms(6-8) in simp_all)
qed

text \<open>
  C21.  A price is bound to the observed request.  The price of an observed workload is taken from
  the catalog entry of exactly the observed model and provider; each of its bands is the narrowest that
  applies, leaves no applicability open, comes from the provider's own site and is current at the time of pricing;
  all its bands charge the same amount, which is not negative; and it is accepted for a row of the ledger exactly if
  the row has the observed model and counts and that amount.
\<close>

theorem price_is_bound_to_workload:
  assumes "RequestWorkload w = Inr w" "ensure_loaded pt cat ModelRegistry = (r, rg)" "price_request env pt cat now w = Inr p"
  shows "\<exists>info t. map_of (rg_models rg) (the (rw_model w)) = Some info \<and> Some (mi_provider info) = rw_provider w \<and> pt now = Some t \<and>
    rp_bands p \<noteq> [] \<and>
    (\<forall>b \<in> set (rp_bands p). (\<exists>ttl c. context_for w (Some ttl) = Inr c \<and> least_band (mi_rate_bands info) c b) \<and> exact_band b \<and>
       official_url (mi_provider info) True b = Inr True \<and> current_at pt t b \<and> band_cost w b = cost_usd p) \<and> 0 \<le> cost_usd p \<and>
    (\<forall>row cost. require_row p row cost = Inr () \<longleftrightarrow>
       Some (ur_model row) = rw_model w \<and> ur_input_tokens row = rw_input_tokens w \<and> ur_output_tokens row = rw_output_tokens w \<and>
       ur_cache_read_tokens row = rw_cache_read_tokens w \<and> ur_cache_creation_tokens row = rw_cache_write_tokens w \<and> cost = cost_usd p)"
proof -
  obtain info t where e: "map_of (rg_models rg) (the (rw_model w)) = Some info" and "get_pricing rg (the (rw_model w)) = Some info"
    and e': "Some (mi_provider info) = rw_provider w" "pt now = Some t" "rp_workload p = w" "rp_bands p \<noteq> []"
    and bs: "\<forall>b \<in> set (rp_bands p). check_price_band pt w t b = Inr ()"
    "\<forall>b \<in> set (rp_bands p). \<exists>ttl c. context_for w (Some ttl) = Inr c \<and> least_band (mi_rate_bands info) c b"
    "\<forall>b \<in> set (rp_bands p). band_cost w b = cost_usd p" and p: "RequestPrice env pt w (rp_bands p) now = Inr p"
    by (rule price_requestD[OF assms(1,3,2)])
  note b = bs[rule_format]
  have ok: "check_priced_workload env w = Inr ()" by (rule RequestPriceD[OF p]) blast
  obtain i out cr cw where n: "rw_input_tokens w = Some i" "rw_output_tokens w = Some out" "rw_cache_read_tokens w = Some cr"
    "rw_cache_write_tokens w = Some cw" "0 \<le> out" "0 \<le> cr" "0 \<le> cw" "cr + cw \<le> i"
    by (rule priced_workload[OF assms(1) ok]) blast
  have valid: "RateBand pt b = Inr b" if "b \<in> set (rp_bands p)" for b
    using b(2)[OF that] fresh_registry(2)[OF assms(2)] map_of_SomeD[OF e] by (auto simp: bands_valid_def least_band_def)
  have row: "require_row p row cost = Inr () \<longleftrightarrow>
       Some (ur_model row) = rw_model w \<and> ur_input_tokens row = rw_input_tokens w \<and> ur_output_tokens row = rw_output_tokens w \<and>
       ur_cache_read_tokens row = rw_cache_read_tokens w \<and> ur_cache_creation_tokens row = rw_cache_write_tokens w \<and> cost = cost_usd p" for row cost
    using n(1-4) by (auto simp: require_row_def ebind_eq_Inr e'(3))
  have cost: "0 \<le> cost_usd p"
  proof -
    have h: "hd (rp_bands p) \<in> set (rp_bands p)" using e'(4) by simp
    show ?thesis using band_cost_nonneg[OF valid[OF h] n check_price_bandD(1)[OF b(1)[OF h]]] b(3)[OF h] by simp
  qed
  have "official_url (mi_provider info) True b = Inr True" if "b \<in> set (rp_bands p)" for b
    using check_price_bandD(2)[OF b(1)[OF that]] unfolding e'(1)[symmetric] or_else_def option.case .
  then have bands: "\<forall>b \<in> set (rp_bands p). (\<exists>ttl c. context_for w (Some ttl) = Inr c \<and> least_band (mi_rate_bands info) c b) \<and> exact_band b \<and>
       official_url (mi_provider info) True b = Inr True \<and> current_at pt t b \<and> band_cost w b = cost_usd p"
    using b(2,3) check_price_bandD(1,3)[OF b(1)] by blast
  show ?thesis by (intro exI[of _ info] exI[of _ t] conjI allI) (rule e e' bands cost row)+
qed

section \<open>Examples\<close>

definition official_band :: rate_band where
  "official_band = example_band\<lparr>rb_source_url := ''https://platform.claude.com/p'', rb_cache_write_per_mtok := Some (15 / 4),
     rb_max_input_tokens := Some 200000, rb_input_modalities := [''text''], rb_service_tiers := [''standard''], rb_regions := [''us''],
     rb_cache_ttl_seconds := Some 300\<rparr>"

definition example_catalog :: catalog where
  "example_catalog = \<lparr>ca_cache_multipliers = [], ca_shadow_targets = [], ca_context_windows = [(''claude-x'', 200000)],
     ca_models = [(''claude-x'', \<lparr>ce_provider = Some ''anthropic'', ce_tier = None, ce_input = Some 3, ce_output = Some 15, ce_cache_read = None,
        ce_cache_write = None, ce_translations = [], ce_aliases = [], ce_bands = [to_mapping official_band]\<rparr>)]\<rparr>"

definition priced_workload_example :: workload where
  "priced_workload_example = \<lparr>rw_body_sha256 = Some (replicate 64 CHR ''0''), rw_provider = Some ''anthropic'', rw_model = Some ''claude-x'',
     rw_input_modality = Some ''text'', rw_output_modality = Some ''text'', rw_cache_ttl_seconds = Some 300, rw_requested_service_tier = None,
     rw_requested_region = None, rw_response_model = Some ''claude-x'', rw_service_tier = Some ''standard'', rw_region = Some ''us'',
     rw_input_tokens = Some 1000, rw_output_tokens = Some 100, rw_cache_read_tokens = Some 400, rw_cache_write_tokens = Some 200,
     rw_response_complete = True, rw_reason_codes = []\<rparr>"

definition pricing_env :: native_env where
  "pricing_env = example_native\<lparr>ne_pairs := (\<lambda>s. Some (workload_to_dict priced_workload_example)), ne_dumps := (\<lambda>j. ''R'')\<rparr>"

definition example_info :: model_info where
  "example_info = (ModelInfo ''claude-x'' ''anthropic'' 2 3 15)\<lparr>mi_max_input_tokens := Some 200000, mi_rate_bands := [official_band]\<rparr>"

definition example_registry :: registry where
  "example_registry = ModelRegistry\<lparr>rg_models := [(''claude-x'', example_info)], rg_context_windows := [(''claude-x'', 200000)], rg_loaded := True\<rparr>"

definition example_price :: request_price where
  "example_price = \<lparr>rp_workload = priced_workload_example, rp_bands = [official_band], rp_priced_at = ''t1''\<rparr>"

definition example_context :: pricing_context where
  "example_context = \<lparr>pc_input_tokens = Some 1000, pc_input_modality = ''text'', pc_output_modality = ''text'',
     pc_service_tier = ''standard'', pc_region = ''us'', pc_cache_ttl_seconds = Some 300\<rparr>"

lemma example_load: "ensure_loaded example_clock (Some example_catalog) ModelRegistry = (Inr (), example_registry)"
  by code_simp

definition example_quote :: pricing_quote where
  "example_quote = \<lparr>pq_provider = ''anthropic'', pq_model = ''claude-x'', pq_context = example_context, pq_band = official_band, pq_as_of = 1,
     pq_valid_until = 2, pq_sha256 = replicate 64 CHR ''0''\<rparr>"


theorem price_is_bound_to_workload_witness:
  "price_request pricing_env example_clock (Some example_catalog) ''t1'' priced_workload_example = Inr example_price \<and>
   exact_band official_band \<and> current_at example_clock 1 official_band \<and>
   cost_usd example_price = 357 / 100000"
proof -
  have w: "RequestWorkload priced_workload_example = Inr priced_workload_example" by code_simp
  have p: "price_request pricing_env example_clock (Some example_catalog) ''t1'' priced_workload_example = Inr example_price"
    unfolding price_request_def example_load by code_simp
  have "cost_usd example_price = 357 / 100000" by code_simp
  moreover have "exact_band official_band \<and> current_at example_clock 1 official_band"
    using price_is_bound_to_workload[OF w example_load p] by (auto simp: example_price_def example_clock_def)
  ultimately show ?thesis using p by blast
qed

end
