(* ===== verification/Responses.thy ===== *)
theory Responses
  imports Directives Policy Rolling_Caps
begin

text \<open>
  The bodies the guard answers with (\<^verbatim>\<open>spend_guard/block_response.py\<close> and the two fail-closed bodies
  of \<^verbatim>\<open>spend_guard/__init__.py\<close>), as JSON documents; \<open>respond\<close> is \<^verbatim>\<open>json.dumps(payload).encode()\<close>.
  Python's number formatting (\<^verbatim>\<open>str\<close>, \<^verbatim>\<open>:.2f\<close> and \<^verbatim>\<open>:.4g\<close> of a float) is an argument.
  The long dash in two messages is written \<^verbatim>\<open>--\<close>.
\<close>

section \<open>Texts\<close>

record number_format =
  nf_str :: "rat \<Rightarrow> string"
  nf_fixed2 :: "rat \<Rightarrow> string"
  nf_general4 :: "rat \<Rightarrow> string"

record response_env =
  rs_codec :: json_codec
  rs_format :: number_format

definition respond :: "response_env \<Rightarrow> json \<Rightarrow> string" where
  "respond re payload = jc_encode (rs_codec re) (jc_dumps (rs_codec re) payload)"

definition respond_compact :: "response_env \<Rightarrow> json \<Rightarrow> string" where
  "respond_compact re payload = jc_encode (rs_codec re) (jc_dumps_compact (rs_codec re) payload)"

definition threshold_text :: "number_format \<Rightarrow> threshold \<Rightarrow> string" where
  "threshold_text nf t =
     (case t of
        Hard_stop_percent p m i \<Rightarrow>
          ''hard_stop_context_window_percent>='' @ show_int p @ '' max_context='' @ show_int m @
          '' projected_input='' @ show_int i
      | Hard_block_cost c \<Rightarrow> ''hard_block_cost_usd>='' @ nf_str nf c
      | Hard_block_tokens n \<Rightarrow> ''hard_block_tokens>='' @ show_int n
      | Session_block_cost c run \<Rightarrow> ''session_block_cost_usd>='' @ nf_str nf c @ '' running='' @ nf_fixed2 nf run
      | Tip_ceiling \<Rightarrow> ''tip_ceiling''
      | Context_percent p m i \<Rightarrow>
          ''default_context_window_percent>='' @ show_int p @ '' max_context='' @ show_int m @
          '' projected_input='' @ show_int i
      | Block_cost c \<Rightarrow> ''block_cost_usd>='' @ nf_str nf c
      | Block_tokens src n m \<Rightarrow>
          src @ ''>='' @ show_int n @ (case m of None \<Rightarrow> [] | Some k \<Rightarrow> '' max_context='' @ show_int k)
      | Tip_directive \<Rightarrow> ''tip_directive''
      | Warn_band \<Rightarrow> ''warn_band''
      | Anti_loop \<Rightarrow> ''anti_loop'')"

definition j_opt :: "('a \<Rightarrow> json) \<Rightarrow> 'a option \<Rightarrow> json" where
  "j_opt f v = (case v of None \<Rightarrow> J_null | Some x \<Rightarrow> f x)"

definition quote :: "string \<Rightarrow> string" where
  "quote s = [CHR 0x27] @ s @ [CHR 0x27]"

abbreviation (input) err :: "(string \<times> json) list \<Rightarrow> json" where
  "err kvs \<equiv> J_obj [(''error'', J_obj kvs)]"

section \<open>Constants\<close>

definition ERR_BLOCKED :: string where "ERR_BLOCKED = ''tokenpak_spend_guard_blocked''"
definition ERR_HARD_BLOCKED :: string where "ERR_HARD_BLOCKED = ''tokenpak_spend_guard_hard_blocked''"
definition ERR_PENDING_WAITING :: string where "ERR_PENDING_WAITING = ''tokenpak_spend_guard_pending''"
definition ERR_CANCELLED :: string where "ERR_CANCELLED = ''tokenpak_spend_guard_cancelled''"
definition ERR_REPROMPT :: string where "ERR_REPROMPT = ''tokenpak_spend_guard_reprompt''"
definition ERR_ROLLING_CAP_BLOCKED :: string where
  "ERR_ROLLING_CAP_BLOCKED = ''tokenpak_spend_guard_rolling_cap_blocked''"
definition INFO_ESTIMATE :: string where "INFO_ESTIMATE = ''tokenpak_spend_guard_estimate''"

section \<open>Bodies\<close>

text \<open>The fields a body repeats from the decision's estimate.\<close>

definition risk_fields :: "number_format \<Rightarrow> preflight_decision \<Rightarrow> (string \<times> json) list" where
  "risk_fields nf d =
     [(''reason'', J_str (pd_reason d)),
      (''threshold_hit'', j_opt (\<lambda>t. J_str (threshold_text nf t)) (pd_threshold_hit d)),
      (''projected_input_tokens'', j_opt (\<lambda>r. J_int (re_projected_input_tokens r)) (pd_risk d)),
      (''projected_output_tokens'', j_opt (\<lambda>r. J_int (re_projected_output_tokens r)) (pd_risk d)),
      (''projected_cost_usd'', j_opt (\<lambda>r. J_float (re_projected_cost_usd r)) (pd_risk d))]"

definition risk_model :: "preflight_decision \<Rightarrow> string \<times> json" where
  "risk_model d = (''model'', j_opt (\<lambda>r. J_str (re_model r)) (pd_risk d))"

definition risk_ratio :: "preflight_decision \<Rightarrow> string \<times> json" where
  "risk_ratio d = (''cache_hit_ratio'', j_opt (\<lambda>r. J_float (re_cache_hit_ratio r)) (pd_risk d))"

definition block_payload :: "number_format \<Rightarrow> preflight_decision \<Rightarrow> pending_request option \<Rightarrow> json" where
  "block_payload nf d p =
     err ([(''type'', J_str ERR_BLOCKED),
           (''message'', J_str (if pd_requires_approval d
              then ''TIP Spend Guard blocked this request before provider send. Reply '' @ quote ''yes'' @
                   '' to proceed, '' @ quote ''no'' @ '' to cancel, or prepend '' @ quote ''[TIP: allow=once]'' @ '' to bypass.''
              else ''TIP Spend Guard blocked this request before provider send. The configured limit cannot be overridden by approval. Reduce the request or wait for usage to fall below the limit.''))] @
          risk_fields nf d @
          [risk_ratio d, risk_model d,
           (''pending_id'', j_opt (\<lambda>r. J_str (pr_pending_id r)) p),
           (''expires_at'', j_opt (\<lambda>r. J_float (pr_expires_at r)) p),
           (''requires_approval'', J_bool (pd_requires_approval d)),
           (''approval_prompt'', if pd_requires_approval d then J_str ''Proceed? Yes / No'' else J_null),
           (''retryable'', J_bool (pd_requires_approval d)),
           (''recovery_status'', J_str (if pd_requires_approval d then ''user_action_required'' else ''operator_action_required''))])"

definition hard_block_payload :: "number_format \<Rightarrow> preflight_decision \<Rightarrow> json" where
  "hard_block_payload nf d =
     err ([(''type'', J_str ERR_HARD_BLOCKED),
           (''message'', J_str ''TIP Spend Guard hard-blocked this request. The projected cost or token count exceeds the immutable hard-block ceiling.'')] @
          risk_fields nf d @
          [risk_model d, (''retryable'', J_bool False), (''requires_approval'', J_bool False),
           (''recovery_status'', J_str ''terminally_blocked'')])"

definition store_unavailable_payload :: "number_format \<Rightarrow> preflight_decision \<Rightarrow> json" where
  "store_unavailable_payload nf d =
     err ([(''type'', J_str ERR_BLOCKED),
           (''message'', J_str (''TIP Spend Guard blocked this request before provider send, but could not persist it for later approval (the guard state store is unavailable). Reply-to-approve is not possible for this request. Repair the guard state store, or prepend '' @
              quote ''[TIP: allow=once]'' @ '' to bypass once.''))] @
          risk_fields nf d @
          [risk_ratio d, risk_model d, (''pending_id'', J_null), (''approval_prompt'', J_null),
           (''retryable'', J_bool False), (''recovery_status'', J_str ''operator_action_required'')])"

definition identity_unavailable_payload :: "number_format \<Rightarrow> preflight_decision \<Rightarrow> json" where
  "identity_unavailable_payload nf d =
     err ([(''type'', J_str ERR_BLOCKED),
           (''message'', J_str (''TIP Spend Guard blocked this request before provider send, but the client did not provide a stable session identity. Reply-to-approve cannot be scoped safely, so this request was not stored. Retry the original request with a session identifier, or prepend '' @
              quote ''[TIP: allow=once]'' @ '' to that request.''))] @
          risk_fields nf d @
          [risk_ratio d, risk_model d, (''pending_id'', J_null), (''approval_prompt'', J_null),
           (''approval_prompt_available'', J_bool False), (''retryable'', J_bool False),
           (''recovery_status'', J_str ''client_action_required'')])"

definition pending_waiting_payload :: "pending_request \<Rightarrow> json" where
  "pending_waiting_payload p =
     err [(''type'', J_str ERR_PENDING_WAITING),
          (''message'', J_str (''A previous request from this session is held by the Spend Guard awaiting approval. Reply '' @
             quote ''yes'' @ '' to proceed, '' @ quote ''no'' @ '' to cancel, or '' @ quote ''[TIP: cancel]'' @ '' to discard.'')),
          (''pending_id'', J_str (pr_pending_id p)), (''expires_at'', J_float (pr_expires_at p)),
          (''projected_cost_usd'', J_float (pr_projected_cost_usd p)),
          (''projected_tokens'', J_int (pr_projected_tokens p)),
          (''retryable'', J_bool True), (''recovery_status'', J_str ''user_action_required'')]"

definition cancelled_payload :: "pending_request \<Rightarrow> json" where
  "cancelled_payload p =
     J_obj [(''spend_guard'', J_obj
       [(''type'', J_str ERR_CANCELLED), (''message'', J_str ''Pending request cancelled. Session unblocked.''),
        (''pending_id'', J_str (pr_pending_id p)),
        (''projected_cost_avoided_usd'', J_float (pr_projected_cost_usd p))])]"

definition reprompt_payload :: "pending_request \<Rightarrow> json" where
  "reprompt_payload p =
     err [(''type'', J_str ERR_REPROMPT), (''message'', J_str ''Could not parse approval intent. Reply yes or no.''),
          (''pending_id'', J_str (pr_pending_id p)), (''approval_prompt'', J_str ''Proceed? Yes / No''),
          (''retryable'', J_bool True), (''recovery_status'', J_str ''user_action_required'')]"

definition estimate_payload :: "risk_estimate \<Rightarrow> json" where
  "estimate_payload r =
     J_obj [(''spend_guard'', J_obj
       [(''type'', J_str INFO_ESTIMATE), (''message'', J_str ''Risk estimate (no provider call performed).''),
        (''estimate'', J_obj
          [(''model'', J_str (re_model r)), (''current_context_tokens'', J_int (re_current_context_tokens r)),
           (''request_tokens'', J_int (re_request_tokens r)),
           (''projected_input_tokens'', J_int (re_projected_input_tokens r)),
           (''projected_output_tokens'', J_int (re_projected_output_tokens r)),
           (''projected_cost_usd'', J_float (re_projected_cost_usd r)),
           (''cache_hit_ratio'', J_float (re_cache_hit_ratio r)),
           (''rates'', J_obj (map (\<lambda>(k, x). (k, J_float x)) (re_rates r)))])])]"

definition rolling_attribution :: "number_format \<Rightarrow> cap_breach \<Rightarrow> string" where
  "rolling_attribution nf b =
     (let g = nf_general4 nf; window = show_int (br_window_seconds b) in
      if br_cap_dimension b = CAP_DIMENSION_UNMEASURABLE then
        ''rolling usage could not be measured: the usage database exists but is unreadable (locked, corrupt, or permission-denied). Blocking before provider send because caps cannot be verified.''
      else if startswith (br_cap_dimension b) ''per_fleet'' then
        ''triggered_by='' @ br_agent_id b @ '' (this caller tripped the cap; it is NOT necessarily the biggest spender). fleet_used='' @
        g (br_used b) @ '', fleet_cap='' @ g (br_cap b) @ '', would_add='' @ g (br_projected_add b) @ '', window='' @ window @
        ''s. fleet_used is the SUM of all tagged agents in the window, not '' @ br_agent_id b @ '' alone.''
      else
        ''agent='' @ br_agent_id b @ '' used='' @ g (br_used b) @ '' of its own cap='' @ g (br_cap b) @
        '' (this IS '' @ br_agent_id b @ [CHR 0x27] @ ''s rolling usage), would_add='' @ g (br_projected_add b) @
        '', window='' @ window @ ''s.'')"

definition rolling_message :: "number_format \<Rightarrow> cap_breach \<Rightarrow> string" where
  "rolling_message nf b =
     (if br_cap_dimension b = CAP_DIMENSION_UNMEASURABLE then
        ''TIP Spend Guard blocked this request: rolling_cap_unmeasurable. '' @ rolling_attribution nf b @
        '' Operator action required: repair (or remove) the usage database so rolling usage can be measured again. Approval cannot override this block.''
      else
        ''TIP Spend Guard rolling cap exceeded: '' @ br_cap_dimension b @ '' ['' @
        (if startswith (br_cap_dimension b) ''per_fleet'' then ''fleet'' else ''agent'') @ '']. '' @ rolling_attribution nf b @
        '' Approval cannot override this cap. Wait for usage to age out of the rolling window or reduce the request.'')"

definition rolling_cap_payload :: "number_format \<Rightarrow> cap_breach \<Rightarrow> json" where
  "rolling_cap_payload nf b =
     (let fleet = startswith (br_cap_dimension b) ''per_fleet'' in
      err [(''type'', J_str ERR_ROLLING_CAP_BLOCKED), (''message'', J_str (rolling_message nf b)),
           (''scope'', J_str (if fleet then ''fleet'' else ''agent'')), (''triggered_by'', J_str (br_agent_id b)),
           (''fleet_used'', if fleet then J_float (br_used b) else J_null),
           (''fleet_cap'', if fleet then J_float (br_cap b) else J_null),
           (''window_seconds'', J_int (br_window_seconds b)), (''cap_dimension'', J_str (br_cap_dimension b)),
           (''agent_id'', J_str (br_agent_id b)), (''used'', J_float (br_used b)), (''cap'', J_float (br_cap b)),
           (''projected_add'', J_float (br_projected_add b)),
           (''retry_after_seconds'', J_int (br_retry_after_seconds b)),
           (''bypass_directive'', J_null), (''requires_approval'', J_bool False)])"

section \<open>Fail-closed bodies\<close>

fun error_name :: "py_error \<Rightarrow> string" where
  "error_name (ValueError m) = ''ValueError''"
| "error_name (ReservationUnavailable m) = ''ReservationUnavailable''"
| "error_name (LockConflictError m) = ''LockConflictError''"
| "error_name (LockExpiredError m) = ''LockExpiredError''"
| "error_name (KeyError m) = ''KeyError''"
| "error_name (IntegrityError m) = ''IntegrityError''"
| "error_name (AttributeError m) = ''AttributeError''"
| "error_name StopIteration = ''StopIteration''"
| "error_name (TypeError m) = ''TypeError''"
| "error_name (FileNotFoundError m) = ''FileNotFoundError''"

definition no_projection :: "(string \<times> json) list" where
  "no_projection =
     [(''projected_input_tokens'', J_null), (''projected_output_tokens'', J_null), (''projected_cost_usd'', J_null),
      (''pending_id'', J_null), (''approval_prompt'', J_null), (''approval_prompt_available'', J_bool False),
      (''auto_proceed_available'', J_bool False), (''continuum_auto_proceed_available'', J_bool False),
      (''continuum_status'', J_str ''not_active'')]"

definition fail_closed_payload :: "py_error \<Rightarrow> json" where
  "fail_closed_payload e =
     err ([(''type'', J_str ERR_BLOCKED),
           (''message'', J_str ''Spend Guard hit an internal error and could not verify this request, so it was blocked before provider send (fail closed). This is a local guard-state fault, NOT a spend or budget block -- no spend threshold was evaluated or exceeded. No allow/stop prompt is available because no pending request could be recorded.''),
           (''reason'', J_str ''spend_guard_state_unavailable''),
           (''failure_kind'', J_str ''spend_guard_internal_error''),
           (''threshold_hit'', J_str (''internal_error:'' @ error_name e))] @ no_projection @
          [(''retryable'', J_bool False), (''recovery_status'', J_str ''operator_action_required''),
           (''recovery_actions'', J_list (map J_str [''run tokenpak doctor'',
              ''repair or restore the local Spend Guard state store'', ''restart the TokenPak proxy after repair''])),
           (''operator_note'', J_str ''Disable Spend Guard only as an explicit operator-approved emergency; auto-proceed is unsafe while spend cannot be verified.'')])"

definition state_busy_payload :: "nat \<Rightarrow> json" where
  "state_busy_payload retries =
     err ([(''type'', J_str ''tokenpak_spend_guard_unavailable''),
           (''message'', J_str (''Spend Guard state store is temporarily busy (lock contention persisted through '' @
              show_nat (retries + 1) @ '' evaluation attempts). This is a local infrastructure fault, NOT a spend or budget block -- no spend threshold was evaluated or exceeded. The request was blocked before provider send and is safe to retry as-is in a few seconds.'')),
           (''reason'', J_str ''guard_state_busy''), (''failure_kind'', J_str ''spend_guard_state_busy''),
           (''threshold_hit'', J_str ''state_busy:OperationalError'')] @ no_projection @
          [(''retryable'', J_bool True), (''retry_after_seconds'', J_int 5), (''recovery_status'', J_str ''retry_safe''),
           (''recovery_actions'', J_list (map J_str [''retry the same request after retry_after_seconds'',
              ''if this recurs, check host IO pressure and run tokenpak doctor''])),
           (''operator_note'', J_str (''Recurring guard_state_busy blocks indicate sustained IO contention on the guard state store'' @
              [CHR 0x27] @ ''s disk, not a Spend Guard policy problem.''))])"

end
