(* ===== verification/Request_Edge.thy ===== *)
theory Request_Edge
  imports Prelude
begin

text \<open>
  What the proxy does with a request at its edge: the traffic classifier and the internal-header
  rules (\<^verbatim>\<open>src/tokenpak/proxy/spend_guard/classifier.py\<close>), header sanitizing, the per-provider
  failure counters, the per-client token bucket, provider detection and model suggestion
  (the functions at the head of \<^verbatim>\<open>src/tokenpak/proxy/circuit_breaker.py\<close>), and the backoff
  calculator (\<^verbatim>\<open>src/tokenpak/proxy/handlers/rate_limit.py\<close>).  Header maps are dictionaries in
  insertion order; module globals are arguments and results.
\<close>

section \<open>Traffic classification\<close>

datatype request_class = Managed | Raw_claude_observed | External_untagged
datatype detection_reason = Header_agent | Header_managed | Env_launcher | Ua_claude_code | No_marker

record classification =
  cl_request_class :: request_class
  cl_reason :: detection_reason
  cl_agent_attribution :: string

definition Classification :: "request_class \<Rightarrow> detection_reason \<Rightarrow> string \<Rightarrow> classification" where
  "Classification c r a = \<lparr>cl_request_class = c, cl_reason = r, cl_agent_attribution = a\<rparr>"

fun header_lookup :: "(string, string) dict \<Rightarrow> string \<Rightarrow> string" where
  "header_lookup [] target = []"
| "header_lookup ((k, v) # hs) target = (if lower k = target then strip v else header_lookup hs target)"

definition header_value :: "(string, string) dict option \<Rightarrow> string \<Rightarrow> string" where
  "header_value headers name =
     (case headers of None \<Rightarrow> [] | Some hs \<Rightarrow> header_lookup hs (lower name))"

definition INTERNAL_HEADER_PREFIXES :: "string list" where
  "INTERNAL_HEADER_PREFIXES = [''x-tokenpak-'', ''x-tpk-'']"

definition is_internal_header :: "string \<Rightarrow> bool" where
  "is_internal_header name = list_ex (startswith (lower name)) INTERNAL_HEADER_PREFIXES"

definition classify :: "(string, string) dict option \<Rightarrow> classification" where
  "classify headers =
     (let agent = header_value headers ''x-tokenpak-agent'' in
      if agent \<noteq> [] then Classification Managed Header_agent (lower agent)
      else if header_value headers ''x-tokenpak-managed'' = ''1'' then Classification Managed Header_managed []
      else (let ua = lower (header_value headers ''user-agent'') in
            if ua \<noteq> [] \<and> contains ''claude-cli'' ua then Classification Raw_claude_observed Ua_claude_code []
            else Classification External_untagged No_marker []))"

fun strip_loop :: "string list \<Rightarrow> (string, string) dict \<Rightarrow> string list \<Rightarrow> string list \<times> (string, string) dict" where
  "strip_loop [] headers removed = (removed, headers)"
| "strip_loop (k # ks) headers removed =
     (if is_internal_header k
      then (if map_of headers k = None then strip_loop ks headers removed
            else strip_loop ks (AList.delete k headers) (removed @ [k]))
      else strip_loop ks headers removed)"

definition strip_managed_headers :: "(string, string) dict \<Rightarrow> string list \<times> (string, string) dict" where
  "strip_managed_headers headers = strip_loop (keys headers) headers []"

section \<open>Forwarded headers\<close>

definition BLOCKED_FORWARD_HEADERS :: "string list" where
  "BLOCKED_FORWARD_HEADERS =
    [''host'', ''proxy-connection'', ''proxy-authorization'', ''proxy-authenticate'', ''connection'',
     ''keep-alive'', ''transfer-encoding'', ''te'', ''trailer'', ''upgrade'', ''content-length'',
     ''accept-encoding'', ''x-forwarded-for'', ''x-real-ip'', ''x-forwarded-host'', ''x-tokenpak-bypass'']"

definition blocked_header :: "string \<Rightarrow> bool" where
  "blocked_header k = (lower k \<in> set BLOCKED_FORWARD_HEADERS \<or> is_internal_header k)"

fun sanitize_loop :: "(string, string) dict \<Rightarrow> (string, string) dict \<Rightarrow> (string, string) dict" where
  "sanitize_loop [] result = result"
| "sanitize_loop ((k, v) # hs) result =
     (if blocked_header k then sanitize_loop hs result else sanitize_loop hs (AList.update k v result))"

definition sanitize_headers :: "(string, string) dict \<Rightarrow> (string, string) dict" where
  "sanitize_headers raw = sanitize_loop raw []"

section \<open>Provider detection and model suggestion\<close>

definition provider_for_url :: "string \<Rightarrow> string" where
  "provider_for_url url =
     (if contains ''anthropic.com'' url then ''anthropic''
      else if contains ''openai.com'' url then ''openai''
      else if contains ''googleapis.com'' url then ''google''
      else [])"

definition PROVIDER_PATTERNS :: "(string \<times> string) list" where
  "PROVIDER_PATTERNS =
     [(''anthropic.com'', ''anthropic''), (''openai.com'', ''openai''), (''chatgpt.com'', ''openai''),
      (''googleapis.com'', ''google''), (''generativelanguage'', ''google''), (''azure.com'', ''azure''),
      (''ollama'', ''ollama''), (''groq.com'', ''groq''), (''together.xyz'', ''together''),
      (''cohere.com'', ''cohere'')]"

text \<open>The loop over the patterns; what follows it (the URL's host name) is not modelled.\<close>

definition provider_by_pattern :: "string \<Rightarrow> string option" where
  "provider_by_pattern url =
     map_option snd (find (\<lambda>(pattern, _). contains pattern (lower url)) PROVIDER_PATTERNS)"

fun suggest_family :: "string list \<Rightarrow> string \<Rightarrow> string list \<Rightarrow> string option" where
  "suggest_family known req [] = None"
| "suggest_family known req (prefix # ps) =
     (if startswith req prefix \<and> filter (\<lambda>m. startswith m prefix) known \<noteq> []
      then Some (last (filter (\<lambda>m. startswith m prefix) known))
      else suggest_family known req ps)"

definition suggest_model :: "string list \<Rightarrow> string \<Rightarrow> string option" where
  "suggest_model known requested =
     (if known = [] \<or> requested = [] then None
      else let req = lower requested in
           case find (\<lambda>m. contains req m \<or> contains m req) known of
             Some m \<Rightarrow> Some m
           | None \<Rightarrow>
               (case suggest_family known req [''claude'', ''gpt'', ''gemini''] of
                  Some m \<Rightarrow> Some m
                | None \<Rightarrow> Some (hd known)))"

section \<open>Per-provider failure counters\<close>

record provider_circuit =
  pc_failures :: int
  pc_open :: bool
  pc_last_failure :: secs
  pc_threshold :: int
  pc_cooldown :: secs

definition default_circuit :: provider_circuit where
  "default_circuit = \<lparr>pc_failures = 0, pc_open = False, pc_last_failure = 0, pc_threshold = 5, pc_cooldown = 60\<rparr>"

definition provider_circuits :: "(string, provider_circuit) dict" where
  "provider_circuits = [(''anthropic'', default_circuit), (''openai'', default_circuit), (''google'', default_circuit)]"

definition check_one :: "secs \<Rightarrow> provider_circuit \<Rightarrow> bool \<times> provider_circuit" where
  "check_one now cb =
     (if pc_open cb
      then (if pc_cooldown cb < now - pc_last_failure cb
            then (False, cb\<lparr>pc_open := False, pc_failures := 0\<rparr>) else (True, cb))
      else (False, cb))"

definition fail_one :: "secs \<Rightarrow> provider_circuit \<Rightarrow> provider_circuit" where
  "fail_one now cb =
     (let cb1 = cb\<lparr>pc_failures := pc_failures cb + 1, pc_last_failure := now\<rparr> in
      if pc_threshold cb1 \<le> pc_failures cb1 then cb1\<lparr>pc_open := True\<rparr> else cb1)"

definition succeed_one :: "provider_circuit \<Rightarrow> provider_circuit" where
  "succeed_one cb = cb\<lparr>pc_failures := 0, pc_open := False\<rparr>"

definition circuit_check ::
  "string \<Rightarrow> secs \<Rightarrow> (string, provider_circuit) dict \<Rightarrow> bool \<times> (string, provider_circuit) dict" where
  "circuit_check provider now d =
     (if provider = [] then (False, d)
      else case map_of d provider of
             None \<Rightarrow> (False, d)
           | Some cb \<Rightarrow> (case check_one now cb of (r, cb') \<Rightarrow> (r, AList.update provider cb' d)))"

definition circuit_record_failure ::
  "string \<Rightarrow> secs \<Rightarrow> (string, provider_circuit) dict \<Rightarrow> (string, provider_circuit) dict" where
  "circuit_record_failure provider now d =
     (if provider = [] then d
      else case map_of d provider of
             None \<Rightarrow> d | Some cb \<Rightarrow> AList.update provider (fail_one now cb) d)"

definition circuit_record_success ::
  "string \<Rightarrow> (string, provider_circuit) dict \<Rightarrow> (string, provider_circuit) dict" where
  "circuit_record_success provider d =
     (if provider = [] then d
      else case map_of d provider of
             None \<Rightarrow> d | Some cb \<Rightarrow> AList.update provider (succeed_one cb) d)"

text \<open>One round of the Ollama health loop: the probe's outcome updates the circuit.\<close>

record ollama_circuit =
  oc_open :: bool
  oc_last_failure :: secs
  oc_cooldown :: secs

definition ollama_health_round :: "bool \<Rightarrow> secs \<Rightarrow> ollama_circuit \<Rightarrow> ollama_circuit" where
  "ollama_health_round reachable now c =
     (if reachable then c\<lparr>oc_open := False\<rparr> else c\<lparr>oc_open := True, oc_last_failure := now\<rparr>)"

section \<open>Per-client token bucket\<close>

record rate_bucket =
  rb_tokens :: rat
  rb_last_refill :: secs

definition bucket_take :: "int \<Rightarrow> secs \<Rightarrow> rate_bucket \<Rightarrow> bool \<times> rate_bucket" where
  "bucket_take rpm now b =
     (let elapsed = now - rb_last_refill b;
          refill = elapsed * (of_int rpm / 60);
          b1 = b\<lparr>rb_tokens := min (of_int rpm) (rb_tokens b + refill), rb_last_refill := now\<rparr>
      in if 1 \<le> rb_tokens b1 then (True, b1\<lparr>rb_tokens := rb_tokens b1 - 1\<rparr>) else (False, b1))"

definition rate_limit_check ::
  "int \<Rightarrow> string \<Rightarrow> secs \<Rightarrow> (string, rate_bucket) dict \<Rightarrow> bool \<times> (string, rate_bucket) dict" where
  "rate_limit_check rpm client_ip now d =
     (if rpm \<le> 0 then (True, d)
      else with_entry \<lparr>rb_tokens = of_int rpm, rb_last_refill = now\<rparr> client_ip (bucket_take rpm now) d)"

section \<open>Backoff\<close>

record backoff =
  bo_base_wait :: secs
  bo_max_wait :: secs
  bo_jitter_factor :: rat

text \<open>\<open>rnd\<close> is the value of \<^verbatim>\<open>random.random()\<close>, in [0, 1).\<close>

definition wait_time :: "backoff \<Rightarrow> int \<Rightarrow> secs option \<Rightarrow> rat \<Rightarrow> secs" where
  "wait_time bo attempt retry_after rnd =
     (case retry_after of
        Some r \<Rightarrow> min r (bo_max_wait bo)
      | None \<Rightarrow>
          (let computed = bo_base_wait bo * (if 0 \<le> attempt then 2 ^ nat attempt else 1 / 2 ^ nat (- attempt));
               computed' = (if 0 < bo_jitter_factor bo then computed + rnd * bo_jitter_factor bo * computed
                            else computed)
           in min computed' (bo_max_wait bo)))"

section \<open>Header rules\<close>

lemma sanitize_loop_filter:
  "distinct (keys (result @ raw)) \<Longrightarrow>
   sanitize_loop raw result = result @ filter (\<lambda>p. \<not> blocked_header (fst p)) raw"
proof (induction raw result rule: sanitize_loop.induct)
  case (2 k v hs result)
  then have "map_of result k = None" by (auto simp: map_of_eq_None_iff)
  with 2 show ?case by (auto simp: update_new)
qed simp

text \<open>
  Sanitizing removes the forbidden headers and nothing else.  The forwarded map is the
  original one, in its order and with its values, without the headers whose name is on the
  block list or in the internal namespace under any capitalisation.
\<close>

lemma sanitize_headers_exact:
  assumes "wf_dict raw"
  shows "sanitize_headers raw = filter (\<lambda>p. \<not> blocked_header (fst p)) raw \<and>
         (\<forall>k \<in> set (keys (sanitize_headers raw)).
            lower k \<notin> set BLOCKED_FORWARD_HEADERS \<and>
            \<not> startswith (lower k) ''x-tokenpak-'' \<and> \<not> startswith (lower k) ''x-tpk-'') \<and>
         (\<forall>k. \<not> blocked_header k \<longrightarrow> map_of (sanitize_headers raw) k = map_of raw k)"
proof -
  have eq: "sanitize_headers raw = filter (\<lambda>p. \<not> blocked_header (fst p)) raw"
    using sanitize_loop_filter[of "[]" raw] assms by (simp add: sanitize_headers_def)
  moreover have "map_of (filter (\<lambda>p. \<not> blocked_header (fst p)) d) k = map_of d k"
    if "\<not> blocked_header k" for k and d :: "(string, string) dict"
    using that by (induction d) auto
  ultimately show ?thesis
    by (auto simp: blocked_header_def is_internal_header_def INTERNAL_HEADER_PREFIXES_def)
qed

theorem sanitize_headers_exact_witness:
  "sanitize_headers [(''Host'', ''h''), (''X-TokenPak-Agent'', ''a''), (''x-api-key'', ''k'')] = [(''x-api-key'', ''k'')]"
proof -
  have b: "blocked_header ''Host''" "blocked_header ''X-TokenPak-Agent''" "\<not> blocked_header ''x-api-key''"
    by code_simp+
  have "wf_dict [(''Host'', ''h''), (''X-TokenPak-Agent'', ''a''), (''x-api-key'', ''k'')]" by simp
  from sanitize_headers_exact[OF this] show ?thesis by (simp add: b)
qed

lemma header_lookup_internal_absent:
  "(\<And>k. k \<in> set (keys hs) \<Longrightarrow> lower k \<noteq> target) \<Longrightarrow> header_lookup hs target = []"
  by (induction hs target rule: header_lookup.induct) auto

lemma strip_loop_eq:
  "wf_dict headers \<Longrightarrow> distinct ks \<Longrightarrow> set ks \<subseteq> set (keys headers) \<Longrightarrow>
   strip_loop ks headers removed =
     (removed @ filter is_internal_header ks,
      filter (\<lambda>p. \<not> (is_internal_header (fst p) \<and> fst p \<in> set ks)) headers)"
proof (induction ks headers removed rule: strip_loop.induct)
  case (1 headers removed)
  then show ?case by simp
next
  case (2 k ks headers removed)
  then have some: "map_of headers k \<noteq> None"
    by (simp add: map_of_eq_None_iff)
  show ?case
  proof (cases "is_internal_header k")
    case True
    have sub: "set ks \<subseteq> set (keys (AList.delete k headers))"
      using "2.prems" by (auto simp del: set_map simp: set_keys_delete)
    have "strip_loop (k # ks) headers removed =
        ((removed @ [k]) @ filter is_internal_header ks,
         filter (\<lambda>p. \<not> (is_internal_header (fst p) \<and> fst p \<in> set ks)) (AList.delete k headers))"
      using True some "2.prems" sub "2.IH"(2)[OF True] by auto
    also have "filter (\<lambda>p. \<not> (is_internal_header (fst p) \<and> fst p \<in> set ks)) (AList.delete k headers) =
        filter (\<lambda>p. \<not> (is_internal_header (fst p) \<and> fst p \<in> set (k # ks))) headers"
      using True by (auto simp: AList.delete_eq intro: filter_cong)
    finally show ?thesis using True by simp
  next
    case False
    have "filter (\<lambda>p. \<not> (is_internal_header (fst p) \<and> fst p \<in> set ks)) headers =
        filter (\<lambda>p. \<not> (is_internal_header (fst p) \<and> fst p \<in> set (k # ks))) headers"
      using False by (auto intro: filter_cong)
    with False 2 show ?thesis by simp
  qed
qed

lemma strip_managed_headers_eq:
  assumes "wf_dict headers"
  shows "strip_managed_headers headers =
    (filter is_internal_header (keys headers), filter (\<lambda>p. \<not> is_internal_header (fst p)) headers)"
  using assms strip_loop_eq[of headers "keys headers" "[]"]
  by (auto simp: strip_managed_headers_def intro: filter_cong)

lemma internal_names:
  "is_internal_header k" if "lower k = ''x-tokenpak-agent'' \<or> lower k = ''x-tokenpak-managed''"
  using that by (auto simp: is_internal_header_def INTERNAL_HEADER_PREFIXES_def startswith_def)

text \<open>
  Internal markers do not survive a hop.  Stripping reports exactly the internal headers it
  removed, keeps all others in order, and a request forwarded after it can no longer be
  classified as managed.
\<close>

lemma stripped_request_not_managed:
  assumes "wf_dict headers" "strip_managed_headers headers = (removed, rest)"
  shows "removed = filter is_internal_header (keys headers) \<and>
         rest = filter (\<lambda>p. \<not> is_internal_header (fst p)) headers \<and>
         cl_request_class (classify (Some rest)) \<noteq> Managed"
proof -
  have r: "removed = filter is_internal_header (keys headers)"
    "rest = filter (\<lambda>p. \<not> is_internal_header (fst p)) headers"
    using assms(2) by (simp_all add: strip_managed_headers_eq[OF assms(1)])
  have low: "lower ''x-tokenpak-agent'' = ''x-tokenpak-agent''" "lower ''x-tokenpak-managed'' = ''x-tokenpak-managed''"
    by code_simp+
  have none: "header_lookup rest ''x-tokenpak-agent'' = []" "header_lookup rest ''x-tokenpak-managed'' = []"
    using internal_names by (auto simp: r(2) intro!: header_lookup_internal_absent)
  have "cl_request_class (classify (Some rest)) \<noteq> Managed"
    by (simp add: classify_def header_value_def low none Let_def Classification_def)
  with r show ?thesis by simp
qed

theorem stripped_request_not_managed_witness:
  "cl_request_class (classify (Some (snd (strip_managed_headers [(''X-Tokenpak-Managed'', ''1'')])))) \<noteq> Managed \<and>
   cl_request_class (classify (Some [(''X-Tokenpak-Managed'', ''1'')])) = Managed"
proof -
  have "cl_request_class (classify (Some [(''X-Tokenpak-Managed'', ''1'')])) = Managed" by code_simp
  moreover have "wf_dict [(''X-Tokenpak-Managed'', ''1'')]" by simp
  ultimately show ?thesis
    using stripped_request_not_managed[of "[(''X-Tokenpak-Managed'', ''1'')]"] by (metis prod.collapse)
qed

text \<open>The precedence chain: which marker decides the class.\<close>

lemma classify_precedence:
  "cl_reason (classify h) = Header_agent \<longleftrightarrow> header_value h ''x-tokenpak-agent'' \<noteq> []"
  "cl_reason (classify h) = Header_managed \<longleftrightarrow>
     header_value h ''x-tokenpak-agent'' = [] \<and> header_value h ''x-tokenpak-managed'' = ''1''"
  "cl_request_class (classify h) = Managed \<longleftrightarrow>
     cl_reason (classify h) = Header_agent \<or> cl_reason (classify h) = Header_managed"
  "cl_reason (classify h) \<noteq> Env_launcher"
  by (auto simp: classify_def Classification_def Let_def)

section \<open>Provider circuits\<close>

datatype pc_event = PC_check secs | PC_failure secs | PC_success

fun pc_step :: "string \<Rightarrow> pc_event \<Rightarrow> (string, provider_circuit) dict \<Rightarrow> (string, provider_circuit) dict" where
  "pc_step p (PC_check now) d = snd (circuit_check p now d)"
| "pc_step p (PC_failure now) d = circuit_record_failure p now d"
| "pc_step p PC_success d = circuit_record_success p d"

fun pc_step_one :: "pc_event \<Rightarrow> provider_circuit \<Rightarrow> provider_circuit" where
  "pc_step_one (PC_check now) cb = snd (check_one now cb)"
| "pc_step_one (PC_failure now) cb = fail_one now cb"
| "pc_step_one PC_success cb = succeed_one cb"

definition pc_view :: "string \<Rightarrow> (string, provider_circuit) dict \<Rightarrow> provider_circuit option" where
  "pc_view p d = (if p = [] then None else map_of d p)"

interpretation pc_entries: independent_entries pc_view pc_step "\<lambda>e. map_option (pc_step_one e)"
proof
  fix k' k e d
  show "pc_view k' (pc_step k e d) =
      (if k' = k then map_option (pc_step_one e) (pc_view k d) else pc_view k' d)"
    by (cases e) (auto simp: pc_view_def circuit_check_def circuit_record_failure_def
        circuit_record_success_def split: option.splits prod.splits)
qed

lemma fail_one_sel [simp]:
  "pc_failures (fail_one t cb) = pc_failures cb + 1"
  "pc_threshold (fail_one t cb) = pc_threshold cb"
  "pc_open (fail_one t cb) \<longleftrightarrow> pc_open cb \<or> pc_threshold cb \<le> pc_failures cb + 1"
  by (simp_all add: fail_one_def Let_def)

lemma fail_run:
  "pc_failures (fold (\<lambda>t. fail_one t) ts cb) = pc_failures cb + int (length ts)"
  "pc_threshold (fold (\<lambda>t. fail_one t) ts cb) = pc_threshold cb"
  by (induction ts arbitrary: cb) simp_all

lemma consecutive_failures_open:
  "pc_open cb \<longrightarrow> pc_threshold cb \<le> pc_failures cb \<Longrightarrow> ts \<noteq> [] \<Longrightarrow>
   pc_open (fold (\<lambda>t. fail_one t) ts cb) \<longleftrightarrow> pc_threshold cb \<le> pc_failures cb + int (length ts)"
proof (induction ts rule: rev_induct)
  case (snoc t ts)
  then show ?case
    by (cases "ts = []") (auto simp: fail_run)
qed simp

section \<open>The token bucket\<close>

definition bucket_ok :: "int \<Rightarrow> rate_bucket \<Rightarrow> bool" where
  "bucket_ok rpm b = (0 \<le> rb_tokens b \<and> rb_tokens b \<le> of_int rpm)"

fun bucket_run :: "int \<Rightarrow> secs list \<Rightarrow> rate_bucket \<Rightarrow> nat \<times> rate_bucket" where
  "bucket_run rpm [] b = (0, b)"
| "bucket_run rpm (t # ts) b =
     (case bucket_take rpm t b of
        (ok, b1) \<Rightarrow> (case bucket_run rpm ts b1 of (n, b2) \<Rightarrow> (if ok then Suc n else n, b2)))"

lemma bucket_take_bound:
  assumes "0 < rpm" "bucket_ok rpm b" "rb_last_refill b \<le> now" "bucket_take rpm now b = (ok, b')"
  shows "bucket_ok rpm b' \<and> rb_last_refill b' = now \<and>
         rb_tokens b' + (if ok then 1 else 0) \<le> rb_tokens b + (now - rb_last_refill b) * (of_int rpm / 60)"
proof -
  have "0 \<le> (now - rb_last_refill b) * (of_int rpm / 60)" using assms(1,3) by simp
  then show ?thesis
    using assms(2,4) by (auto simp: bucket_take_def bucket_ok_def Let_def split: if_splits)
qed

lemma bucket_run_bound:
  assumes "0 < rpm" "bucket_ok rpm b" "sorted (rb_last_refill b # ts)" "bucket_run rpm ts b = (n, b')"
  shows "bucket_ok rpm b' \<and>
         of_nat n + rb_tokens b' \<le>
           rb_tokens b + (last (rb_last_refill b # ts) - rb_last_refill b) * (of_int rpm / 60)"
  using assms
proof (induction ts arbitrary: b n b')
  case Nil
  then show ?case by simp
next
  case (Cons t ts)
  obtain ok b1 where take: "bucket_take rpm t b = (ok, b1)" by fastforce
  obtain m b2 where rec: "bucket_run rpm ts b1 = (m, b2)" by fastforce
  have t: "bucket_ok rpm b1" "rb_last_refill b1 = t"
    "rb_tokens b1 + (if ok then 1 else 0) \<le> rb_tokens b + (t - rb_last_refill b) * (of_int rpm / 60)"
    using bucket_take_bound[OF Cons.prems(1,2) _ take] Cons.prems(3) by auto
  have "bucket_ok rpm b2 \<and> of_nat m + rb_tokens b2 \<le>
      rb_tokens b1 + (last (t # ts) - t) * (of_int rpm / 60)"
    using Cons.IH[OF Cons.prems(1) t(1) _ rec] Cons.prems(3) t(2) by simp
  moreover have "n = (if ok then Suc m else m)" "b' = b2"
    using Cons.prems(4) take rec by auto
  ultimately show ?case
    using t(3) by (auto simp: left_diff_distrib diff_divide_distrib split: if_splits)
qed

lemma rate_limit_check_bucket:
  "0 < rpm \<Longrightarrow> entry dflt ip (snd (rate_limit_check rpm ip now d)) =
     snd (bucket_take rpm now (entry \<lparr>rb_tokens = of_int rpm, rb_last_refill = now\<rparr> ip d))"
  by (simp add: rate_limit_check_def with_entry_def entry_def split: prod.splits)

fun client_run :: "int \<Rightarrow> string \<Rightarrow> secs list \<Rightarrow> (string, rate_bucket) dict \<Rightarrow> nat \<times> (string, rate_bucket) dict" where
  "client_run rpm ip [] d = (0, d)"
| "client_run rpm ip (t # ts) d =
     (case rate_limit_check rpm ip t d of
        (ok, d1) \<Rightarrow> (case client_run rpm ip ts d1 of (n, d2) \<Rightarrow> (if ok then Suc n else n, d2)))"

lemma client_run_known:
  assumes "0 < rpm" "map_of d ip = Some b"
  shows "fst (client_run rpm ip ts d) = fst (bucket_run rpm ts b)"
  using assms(2)
proof (induction ts arbitrary: d b)
  case (Cons t ts)
  obtain ok b1 where take: "bucket_take rpm t b = (ok, b1)" by fastforce
  then have check: "rate_limit_check rpm ip t d = (ok, AList.update ip b1 d)"
    using Cons.prems assms(1) by (simp add: rate_limit_check_def with_entry_def entry_def)
  have "fst (client_run rpm ip ts (AList.update ip b1 d)) = fst (bucket_run rpm ts b1)"
    by (rule Cons.IH) simp
  with take check show ?case by (auto split: prod.splits)
qed simp

lemma client_run_new:
  assumes "0 < rpm" "map_of d ip = None" "ts \<noteq> []"
  shows "fst (client_run rpm ip ts d) =
    fst (bucket_run rpm ts \<lparr>rb_tokens = of_int rpm, rb_last_refill = hd ts\<rparr>)"
proof -
  obtain t us where ts: "ts = t # us" using assms(3) by (cases ts) auto
  obtain ok b1 where take: "bucket_take rpm t \<lparr>rb_tokens = of_int rpm, rb_last_refill = t\<rparr> = (ok, b1)"
    by fastforce
  then have check: "rate_limit_check rpm ip t d = (ok, AList.update ip b1 d)"
    using assms(1,2) by (simp add: rate_limit_check_def with_entry_def entry_def)
  have "fst (client_run rpm ip us (AList.update ip b1 d)) = fst (bucket_run rpm us b1)"
    by (rule client_run_known[OF assms(1)]) simp
  with take check ts show ?thesis by (auto split: prod.splits)
qed

text \<open>
  The per-client limit holds over every interval.  A client that has not been seen before
  gets at most \<open>rpm\<close> requests at once plus \<open>rpm\<close> per minute of elapsed time, whatever the
  arrival pattern.
\<close>

lemma rate_limit_bound:
  assumes "0 < rpm" "map_of d ip = None" "sorted (t # ts)"
  shows "of_nat (fst (client_run rpm ip (t # ts) d)) \<le>
           (of_int rpm :: rat) + (last (t # ts) - t) * (of_int rpm / 60)"
proof -
  let ?b = "\<lparr>rb_tokens = of_int rpm, rb_last_refill = t\<rparr>"
  obtain n b' where run: "bucket_run rpm (t # ts) ?b = (n, b')" by fastforce
  have "bucket_ok rpm ?b" using assms(1) by (simp add: bucket_ok_def)
  from bucket_run_bound[OF assms(1) this _ run] assms(3)
  have "bucket_ok rpm b'" "of_nat n + rb_tokens b' \<le> of_int rpm + (last (t # ts) - t) * (of_int rpm / 60)"
    by auto
  then have "of_nat n \<le> of_int rpm + (last (t # ts) - t) * (of_int rpm / 60)"
    by (auto simp: bucket_ok_def)
  then show ?thesis
    using client_run_new[OF assms(1,2), of "t # ts"] run by simp
qed

theorem rate_limit_bound_witness:
  "of_nat (fst (client_run 2 ''10.0.0.1'' [0, 0, 0, 1] [])) \<le> (2 + 1 * (2 / 60) :: rat)"
  using rate_limit_bound[of 2 "[]" "''10.0.0.1''" 0 "[0, 0, 1]"] by simp

section \<open>Backoff\<close>

lemma wait_time_bounds:
  assumes "0 \<le> bo_base_wait bo" "0 \<le> bo_max_wait bo" "0 \<le> rnd"
  shows "wait_time bo attempt None rnd \<le> bo_max_wait bo" "0 \<le> wait_time bo attempt None rnd"
proof -
  show "wait_time bo attempt None rnd \<le> bo_max_wait bo"
    by (simp add: wait_time_def Let_def)
  have "0 \<le> bo_base_wait bo * (if 0 \<le> attempt then 2 ^ nat attempt else 1 / 2 ^ nat (- attempt))"
    using assms(1) by simp
  then show "0 \<le> wait_time bo attempt None rnd"
    using assms(2,3) by (auto simp: wait_time_def Let_def intro!: add_nonneg_nonneg mult_nonneg_nonneg)
qed

lemma wait_time_mono:
  assumes "0 \<le> bo_base_wait bo" "bo_jitter_factor bo = 0" "0 \<le> a" "a \<le> a'"
  shows "wait_time bo a None r \<le> wait_time bo a' None r'"
proof -
  have "(2::rat) ^ nat a \<le> 2 ^ nat a'" using assms(4) by (intro power_increasing) auto
  then have "bo_base_wait bo * 2 ^ nat a \<le> bo_base_wait bo * 2 ^ nat a'"
    using assms(1) by (rule mult_left_mono)
  then show ?thesis
    using assms by (simp add: wait_time_def Let_def min.coboundedI1 min.coboundedI2)
qed

end
