(* ===== verification/Upstream_Retry.thy ===== *)
theory Upstream_Retry
  imports Directives Request_Edge
begin

text \<open>
  Sending a request upstream and trying again (\<^verbatim>\<open>proxy/upstream_retry.py\<close>, and the two send loops of
  \<^verbatim>\<open>proxy/server.py\<close>): the retry policy, the streaming and the plain loop, and the record kept of a
  request that failed for good.  What the upstream does in each attempt is a function of the
  attempt number; bytes are characters; an exception carries its class name and whether it is one
  of the transport exceptions of the HTTP library.
\<close>

section \<open>Helpers\<close>

record upstream_exc =
  ux_name :: string
  ux_retryable :: bool

definition RETRYABLE_UPSTREAM_STATUSES :: "int list" where
  "RETRYABLE_UPSTREAM_STATUSES = [429, 502, 503, 504]"

definition NON_RETRYABLE_UPSTREAM_STATUSES :: "int list" where
  "NON_RETRYABLE_UPSTREAM_STATUSES = [400, 401, 403, 404]"

definition RECOVERY_SENSITIVE_HEADERS :: "string list" where
  "RECOVERY_SENSITIVE_HEADERS =
     [''authorization'', ''proxy-authorization'', ''x-api-key'', ''api-key'', ''openai-api-key'', ''anthropic-api-key'',
      ''x-goog-api-key'', ''cookie'', ''set-cookie'']"

definition header_get :: "headers \<Rightarrow> string \<Rightarrow> string option" where
  "header_get hs name = map_option snd (find (\<lambda>(k, v). lower k = lower name) hs)"

text \<open>\<^verbatim>\<open>_header_get(...) or ""\<close>\<close>

definition header_or_empty :: "headers \<Rightarrow> string \<Rightarrow> string" where
  "header_or_empty hs name = (case header_get hs name of None \<Rightarrow> [] | Some v \<Rightarrow> v)"

definition parse_retry_after :: "string option \<Rightarrow> secs option" where
  "parse_retry_after raw =
     (case raw of
        None \<Rightarrow> None
      | Some s \<Rightarrow> (case py_float s of None \<Rightarrow> None | Some x \<Rightarrow> if x < 0 then None else Some x))"

definition float_env :: "string option \<Rightarrow> rat \<Rightarrow> rat" where
  "float_env raw dflt = (case raw of None \<Rightarrow> dflt | Some s \<Rightarrow> (case py_float s of None \<Rightarrow> dflt | Some x \<Rightarrow> x))"

definition looks_jsonish :: "headers \<Rightarrow> string \<Rightarrow> bool" where
  "looks_jsonish hs body =
     (contains ''json'' (lower (header_or_empty hs ''content-type'')) \<or>
      startswith (lstrip body) ''{'' \<or> startswith (lstrip body) ''['')"

text \<open>\<open>loads\<close> is \<^verbatim>\<open>json.loads(body.decode("utf-8"))\<close>, \<open>None\<close> when either raises.\<close>

definition local_json_body_is_valid :: "(string \<Rightarrow> json option) \<Rightarrow> string \<Rightarrow> headers \<Rightarrow> bool" where
  "local_json_body_is_valid loads body hs =
     (if body = [] \<or> \<not> looks_jsonish hs body then True else loads body \<noteq> None)"

definition dict_of :: "json \<Rightarrow> (string, json) dict option" where
  "dict_of v = (case v of J_obj d \<Rightarrow> Some d | _ \<Rightarrow> None)"

definition says_deterministic :: "json \<Rightarrow> bool" where
  "says_deterministic v = (case dict_of v of None \<Rightarrow> False | Some d \<Rightarrow> get_field d ''deterministic'' = J_bool True)"

definition request_is_deterministic :: "(string \<Rightarrow> json option) \<Rightarrow> string \<Rightarrow> headers \<Rightarrow> bool" where
  "request_is_deterministic loads body hs =
     (if lower (strip (header_or_empty hs ''x-tokenpak-deterministic'')) \<in> {''1'', ''true'', ''on''} then True
      else if body = [] then False
      else let lowered = sql_lower (take 8192 body) in
        if contains ''[tip:'' lowered \<and> contains ''deterministic=on'' lowered then True
        else case Option.bind (loads body) dict_of of
               None \<Rightarrow> False
             | Some data \<Rightarrow>
                 says_deterministic (get_field data ''tokenpak'') \<or>
                 (case dict_of (get_field data ''metadata'') of
                    None \<Rightarrow> False
                  | Some md \<Rightarrow> says_deterministic (get_field md ''tokenpak'') \<or> get_field md ''deterministic'' = J_bool True))"

definition PLAN_HEADERS :: "string list" where
  "PLAN_HEADERS = [''x-tokenpak-plan-id'', ''x-tip-plan-id'', ''x-tokenpak-tip-plan-id'', ''tip-plan-id'']"

definition PLAN_KEYS :: "string list" where
  "PLAN_KEYS = [''tip_plan_id'', ''plan_id'', ''request_plan_id'']"

definition first_plan :: "(json \<Rightarrow> string) \<Rightarrow> (string, json) dict \<Rightarrow> string option" where
  "first_plan str d =
     map_option (\<lambda>k. case get_field d k of J_str s \<Rightarrow> s | v \<Rightarrow> str v) (find (\<lambda>k. \<not> falsy (get_field d k)) PLAN_KEYS)"

definition extract_tip_plan_id ::
  "(json \<Rightarrow> string) \<Rightarrow> (string \<Rightarrow> json option) \<Rightarrow> headers \<Rightarrow> string \<Rightarrow> string \<Rightarrow> string" where
  "extract_tip_plan_id str loads hs body request_id =
     (case find (\<lambda>n. header_or_empty hs n \<noteq> []) PLAN_HEADERS of
        Some n \<Rightarrow> header_or_empty hs n
      | None \<Rightarrow>
          (let data = (if body = [] then None else Option.bind (loads body) dict_of);
               dflt = ''tip-plan-'' @ request_id in
           case data of
             None \<Rightarrow> dflt
           | Some d \<Rightarrow>
               (case first_plan str d of
                  Some p \<Rightarrow> p
                | None \<Rightarrow>
                    (case Option.bind (dict_of (get_field d ''metadata'')) (first_plan str) of None \<Rightarrow> dflt | Some p \<Rightarrow> p))))"

text \<open>How reading a response body as JSON fails: a decoder message, or bytes that are no UTF-8.\<close>

datatype json_problem = Json_error string | Unicode_error

definition response_has_truncated_json :: "(string \<Rightarrow> json_problem option) \<Rightarrow> int \<Rightarrow> headers \<Rightarrow> string \<Rightarrow> bool" where
  "response_has_truncated_json problem status hs body =
     (let enc = lower (header_or_empty hs ''content-encoding'') in
      if enc \<noteq> [] \<and> enc \<noteq> ''identity'' then False
      else if 400 \<le> status \<or> body = [] \<or> \<not> looks_jsonish hs body then False
      else case problem body of
             None \<Rightarrow> False
           | Some Unicode_error \<Rightarrow> True
           | Some (Json_error msg) \<Rightarrow>
               list_ex (\<lambda>p. contains p (lower msg))
                 [''unterminated'', ''expecting value'', ''expecting '' @ [CHR 0x27] @ '','' @ [CHR 0x27] @ '' delimiter'',
                  ''expecting property name''])"

section \<open>The policy\<close>

record retry_policy =
  rp_max_attempts :: int
  rp_retry_enabled :: bool
  rp_deterministic :: bool
  rp_local_request_valid :: bool
  rp_backoff :: "backoff option"

record retry_decision =
  rd_should_retry :: bool
  rd_delay_seconds :: secs
  rd_reason :: string

text \<open>The environment variables of \<^verbatim>\<open>from_env\<close>.\<close>

record retry_env =
  rv_retries :: "string option"
  rv_base_wait :: "string option"
  rv_max_wait :: "string option"

definition policy_from_env :: "(string \<Rightarrow> json option) \<Rightarrow> retry_env \<Rightarrow> string \<Rightarrow> headers \<Rightarrow> retry_policy" where
  "policy_from_env loads ev body hs =
     (let attempts = (case py_int (case rv_retries ev of None \<Rightarrow> ''3'' | Some s \<Rightarrow> s) of None \<Rightarrow> 3 | Some n \<Rightarrow> max 1 n);
          deterministic = request_is_deterministic loads body hs;
          valid = local_json_body_is_valid loads body hs
      in \<lparr>rp_max_attempts = attempts, rp_retry_enabled = (\<not> deterministic \<and> valid), rp_deterministic = deterministic,
          rp_local_request_valid = valid,
          rp_backoff = Some \<lparr>bo_base_wait = float_env (rv_base_wait ev) (1 / 5), bo_max_wait = float_env (rv_max_wait ev) 60,
                             bo_jitter_factor = 0\<rparr>\<rparr>)"

definition no_retry :: "string \<Rightarrow> retry_decision" where
  "no_retry reason = \<lparr>rd_should_retry = False, rd_delay_seconds = 0, rd_reason = reason\<rparr>"

definition blocked_reason :: "retry_policy \<Rightarrow> bool \<Rightarrow> string option" where
  "blocked_reason p stream_started =
     (if rp_deterministic p then Some ''deterministic_mode''
      else if \<not> rp_local_request_valid p then Some ''invalid_local_request_json''
      else if stream_started then Some ''client_output_already_started''
      else if \<not> rp_retry_enabled p then Some ''retry_disabled''
      else None)"

definition policy_backoff :: "retry_policy \<Rightarrow> backoff" where
  "policy_backoff p =
     (case rp_backoff p of Some b \<Rightarrow> b | None \<Rightarrow> \<lparr>bo_base_wait = 1 / 5, bo_max_wait = 5 / 2, bo_jitter_factor = 0\<rparr>)"

definition delay :: "retry_policy \<Rightarrow> nat \<Rightarrow> string option \<Rightarrow> secs" where
  "delay p attempt retry_after = wait_time (policy_backoff p) (int attempt) (parse_retry_after retry_after) 0"

definition retry_for_exception :: "retry_policy \<Rightarrow> upstream_exc \<Rightarrow> nat \<Rightarrow> bool \<Rightarrow> retry_decision" where
  "retry_for_exception p exc attempt stream_started =
     (case blocked_reason p stream_started of
        Some r \<Rightarrow> no_retry r
      | None \<Rightarrow>
          if \<not> ux_retryable exc then no_retry ''non_retryable_exception''
          else if rp_max_attempts p - 1 \<le> int attempt then no_retry ''attempts_exhausted''
          else \<lparr>rd_should_retry = True, rd_delay_seconds = delay p attempt None, rd_reason = ux_name exc\<rparr>)"

definition retry_for_response :: "retry_policy \<Rightarrow> int \<Rightarrow> headers \<Rightarrow> nat \<Rightarrow> bool \<Rightarrow> retry_decision" where
  "retry_for_response p status hs attempt stream_started =
     (case blocked_reason p stream_started of
        Some r \<Rightarrow> no_retry r
      | None \<Rightarrow>
          if status \<in> set NON_RETRYABLE_UPSTREAM_STATUSES then no_retry (''non_retryable_http_'' @ show_int status)
          else if status \<notin> set RETRYABLE_UPSTREAM_STATUSES then no_retry (''non_retryable_http_'' @ show_int status)
          else if rp_max_attempts p - 1 \<le> int attempt then no_retry ''attempts_exhausted''
          else \<lparr>rd_should_retry = True,
                rd_delay_seconds = delay p attempt (if status = 429 then header_get hs ''retry-after'' else None),
                rd_reason = ''http_'' @ show_int status\<rparr>)"

definition retry_for_truncated_json :: "retry_policy \<Rightarrow> nat \<Rightarrow> bool \<Rightarrow> retry_decision" where
  "retry_for_truncated_json p attempt stream_started =
     (case blocked_reason p stream_started of
        Some r \<Rightarrow> no_retry r
      | None \<Rightarrow>
          if rp_max_attempts p - 1 \<le> int attempt then no_retry ''attempts_exhausted''
          else \<lparr>rd_should_retry = True, rd_delay_seconds = delay p attempt None, rd_reason = ''truncated_upstream_json''\<rparr>)"

section \<open>Attempts\<close>

text \<open>
  \<^verbatim>\<open>for attempt in range(max_attempts)\<close>: an attempt ends the loop with a result or asks for another
  after a delay.  The result is \<open>None\<close> if the range runs out; the sleeps and the number of sends are
  kept.
\<close>

datatype ('s, 'r) attempt = Again 's secs | Done 'r

fun attempt_loop :: "(nat \<Rightarrow> 's \<Rightarrow> ('s, 'r) attempt) \<Rightarrow> nat \<Rightarrow> nat \<Rightarrow> 's \<Rightarrow> 'r option \<times> secs list \<times> nat" where
  "attempt_loop att k 0 s = (None, [], 0)"
| "attempt_loop att k (Suc n) s =
     (case att k s of
        Done r \<Rightarrow> (Some r, [], 1)
      | Again s' d \<Rightarrow> (case attempt_loop att (Suc k) n s' of (r, sleeps, sends) \<Rightarrow> (r, d # sleeps, Suc sends)))"

datatype stream_event =
    Raises upstream_exc
  | Responds int headers "string list" "upstream_exc option"

datatype client_write = W_error int string | W_head int headers | W_chunk string

datatype stream_end = Ended int | Raised upstream_exc

text \<open>The handler of the transport exceptions; the state is what the client has been sent.\<close>

definition on_exception ::
  "retry_policy \<Rightarrow> nat \<Rightarrow> upstream_exc \<Rightarrow> client_write list \<Rightarrow> (client_write list, client_write list \<times> stream_end) attempt" where
  "on_exception p k e writes =
     (let d = retry_for_exception p e k (writes \<noteq> []) in
      if ux_retryable e \<and> rd_should_retry d then Again writes (rd_delay_seconds d) else Done (writes, Raised e))"

text \<open>The headers of a stream: hop-by-hop ones are dropped, those an event stream needs are added.\<close>

definition stream_headers :: "string \<Rightarrow> headers \<Rightarrow> headers" where
  "stream_headers rid hs =
     filter (\<lambda>(k, v). lower k \<notin> {''connection'', ''keep-alive'', ''transfer-encoding'', ''content-length''}) hs @
     (if list_ex (\<lambda>(k, v). lower k = ''content-type'') hs then [] else [(''Content-Type'', ''text/event-stream'')]) @
     (if list_ex (\<lambda>(k, v). lower k = ''cache-control'') hs then [] else [(''Cache-Control'', ''no-cache'')]) @
     [(''X-Accel-Buffering'', ''no''), (''X-Request-ID'', rid)]"

text \<open>
  One attempt of the streaming loop.  \<open>norm_error\<close> is \<^verbatim>\<open>normalize_upstream_error\<close>; \<open>rid\<close> the request id; \<open>drops\<close> is the number of chunks
  after which the client is gone, if it goes.
\<close>

definition stream_attempt ::
  "retry_policy \<Rightarrow> (nat \<Rightarrow> stream_event) \<Rightarrow> (int \<Rightarrow> string \<Rightarrow> string) \<Rightarrow> string \<Rightarrow> nat option \<Rightarrow> nat \<Rightarrow> client_write list \<Rightarrow>
   (client_write list, client_write list \<times> stream_end) attempt" where
  "stream_attempt p upstream norm_error rid drops k writes =
     (case upstream k of
        Raises e \<Rightarrow> on_exception p k e writes
      | Responds status hs chunks err \<Rightarrow>
          let d = retry_for_response p status hs k (writes \<noteq> []) in
          if rd_should_retry d then
            (case err of None \<Rightarrow> Again writes (rd_delay_seconds d) | Some e \<Rightarrow> on_exception p k e writes)
          else if 400 \<le> status then
            (case err of
               None \<Rightarrow> Done (writes @ [W_error status (norm_error status (concat chunks))], Ended status)
             | Some e \<Rightarrow> on_exception p k e writes)
          else
            let data = filter (\<lambda>c. c \<noteq> []) chunks;
                sent = writes @ [W_head status (stream_headers rid hs)] @ map W_chunk (case drops of None \<Rightarrow> data | Some m \<Rightarrow> take m data)
            in case (if (case drops of None \<Rightarrow> False | Some m \<Rightarrow> m < length data) then None else err) of
                 None \<Rightarrow> Done (sent, Ended status)
               | Some e \<Rightarrow> on_exception p k e sent)"

definition stream_send ::
  "retry_policy \<Rightarrow> (nat \<Rightarrow> stream_event) \<Rightarrow> (int \<Rightarrow> string \<Rightarrow> string) \<Rightarrow> string \<Rightarrow> nat option \<Rightarrow>
   (client_write list \<times> stream_end) option \<times> secs list \<times> nat" where
  "stream_send p upstream norm_error rid drops =
     attempt_loop (stream_attempt p upstream norm_error rid drops) 0 (nat (rp_max_attempts p)) []"

datatype reply_event = Fails upstream_exc | Replies int headers string

datatype reply_end = Got int headers string | Truncated | Gave_up upstream_exc

definition plain_attempt ::
  "retry_policy \<Rightarrow> (string \<Rightarrow> json_problem option) \<Rightarrow> (nat \<Rightarrow> reply_event) \<Rightarrow> nat \<Rightarrow> unit \<Rightarrow> (unit, reply_end) attempt" where
  "plain_attempt p problem upstream k u =
     (case upstream k of
        Fails e \<Rightarrow>
          let d = retry_for_exception p e k False in
          if ux_retryable e \<and> rd_should_retry d then Again () (rd_delay_seconds d) else Done (Gave_up e)
      | Replies status hs body \<Rightarrow>
          let d = retry_for_response p status hs k False in
          if rd_should_retry d then Again () (rd_delay_seconds d)
          else if response_has_truncated_json problem status hs body then
            let d = retry_for_truncated_json p k False in
            if rd_should_retry d then Again () (rd_delay_seconds d) else Done Truncated
          else Done (Got status hs body))"

definition plain_send ::
  "retry_policy \<Rightarrow> (string \<Rightarrow> json_problem option) \<Rightarrow> (nat \<Rightarrow> reply_event) \<Rightarrow> reply_end option \<times> secs list \<times> nat" where
  "plain_send p problem upstream = attempt_loop (plain_attempt p problem upstream) 0 (nat (rp_max_attempts p)) ()"

section \<open>The record of a failed request\<close>

definition build_terminal_recovery_payload ::
  "string \<Rightarrow> string \<Rightarrow> string \<Rightarrow> string \<Rightarrow> bool \<Rightarrow> string option \<Rightarrow> json" where
  "build_terminal_recovery_payload request_id tip_plan_id error_type message stream_started recovery_record =
     J_obj [(''error'', J_obj
       ([(''type'', J_str error_type), (''message'', J_str message), (''request_id'', J_str request_id),
         (''tip_plan_id'', J_str tip_plan_id), (''recovery_status'', J_str ''terminally_failed''), (''retryable'', J_bool False),
         (''stream_started'', J_bool stream_started), (''continue_later'', J_bool True)] @
        (case recovery_record of Some r \<Rightarrow> if r = [] then [] else [(''recovery_record'', J_str r)] | None \<Rightarrow> [])))]"

definition redact_recovery_headers :: "headers \<Rightarrow> headers" where
  "redact_recovery_headers hs = filter (\<lambda>(k, v). lower k \<notin> set RECOVERY_SENSITIVE_HEADERS) hs"

definition recovery_record ::
  "(string \<Rightarrow> string) \<Rightarrow> (string \<Rightarrow> string) \<Rightarrow> bool \<Rightarrow> string \<Rightarrow> string \<Rightarrow> string \<Rightarrow> string \<Rightarrow> headers \<Rightarrow> string \<Rightarrow> bool \<Rightarrow>
   string \<Rightarrow> string \<Rightarrow> string \<Rightarrow> secs \<Rightarrow> (string, json) dict" where
  "recovery_record sha256 decode persist_body request_id tip_plan_id target_url http_method hs body stream_started
     recovery_status error_type error_message now =
     [(''request_id'', J_str request_id), (''tip_plan_id'', J_str tip_plan_id), (''target_url'', J_str target_url),
      (''method'', J_str http_method), (''headers'', J_obj (map (\<lambda>(k, v). (k, J_str v)) (redact_recovery_headers hs))),
      (''body_sha256'', J_str (if body = [] then [] else sha256 body)), (''body_bytes'', J_int (int (length body))),
      (''body_preview_utf8'', J_str (decode (take 2048 body))), (''stream_started'', J_bool stream_started),
      (''recovery_status'', J_str recovery_status), (''error_type'', J_str error_type),
      (''error_message'', J_str (take 1000 error_message)), (''created_at'', J_float now),
      (''supports_hidden_replay'', J_bool False), (''continue_requires_visible_turn'', J_bool stream_started)] @
     (if persist_body then [(''body_utf8'', J_str (decode body))] else [])"

section \<open>Bounded attempts\<close>

text \<open>
  The contract of a retry loop: it asks for another attempt only while one is left, after a delay
  of at most \<open>cap\<close>.  Then it returns, sends at most as often as allowed and sleeps a bounded time.
\<close>

locale bounded_attempts =
  fixes att :: "nat \<Rightarrow> 's \<Rightarrow> ('s, 'r) attempt" and limit :: nat and cap :: secs
  assumes again: "att k s = Again s' d \<Longrightarrow> Suc k < limit \<and> d \<le> cap"
begin

lemma loop_returns:
  assumes "k + n = limit" "0 < n"
  shows "\<exists>r sleeps sends. attempt_loop att k n s = (Some r, sleeps, sends) \<and> 0 < sends \<and> sends \<le> n \<and>
           length sleeps = sends - 1 \<and> (\<forall>d\<in>set sleeps. d \<le> cap)"
  using assms
proof (induction n arbitrary: k s)
  case (Suc n)
  show ?case
  proof (cases "att k s")
    case (Again s' d)
    then have "Suc k < limit" "d \<le> cap" using again by simp_all
    then obtain r sleeps sends where "attempt_loop att (Suc k) n s' = (Some r, sleeps, sends)" "0 < sends" "sends \<le> n"
      "length sleeps = sends - 1" "\<forall>d\<in>set sleeps. d \<le> cap"
      using Suc.IH[of "Suc k" s'] Suc.prems by auto
    then show ?thesis using Again \<open>d \<le> cap\<close> by auto
  qed simp
qed simp

text \<open>The result is that of the last attempt, reached through attempts that asked for another.\<close>

lemma loop_last:
  assumes "attempt_loop att k n s = (Some r, sleeps, sends)"
  shows "\<exists>s'. att (k + (sends - 1)) s' = Done r \<and> (sends = 1 \<longrightarrow> s' = s)"
  using assms
proof (induction n arbitrary: k s sleeps sends)
  case (Suc n)
  show ?case
  proof (cases "att k s")
    case (Again s' d)
    then obtain sl m where m: "attempt_loop att (Suc k) n s' = (Some r, sl, m)" "sends = Suc m"
      using Suc.prems by (auto split: prod.splits)
    have "0 < m" using m(1) by (cases n) (auto split: attempt.splits prod.splits)
    then show ?thesis using Suc.IH[OF m(1)] m(2) by auto
  qed (use Suc.prems in auto)
qed simp

text \<open>What every attempt that asks for another keeps of the state holds at the end.\<close>

lemma loop_invariant:
  assumes "attempt_loop att k n s = (Some r, sleeps, sends)" "P s" "\<And>k s s' d. P s \<Longrightarrow> att k s = Again s' d \<Longrightarrow> P s'"
  shows "\<exists>s'. att (k + (sends - 1)) s' = Done r \<and> P s'"
  using assms(1,2)
proof (induction n arbitrary: k s sleeps sends)
  case (Suc n)
  show ?case
  proof (cases "att k s")
    case (Again s' d)
    then obtain sl m where m: "attempt_loop att (Suc k) n s' = (Some r, sl, m)" "sends = Suc m"
      using Suc.prems by (auto split: prod.splits)
    have "0 < m" using m(1) by (cases n) (auto split: attempt.splits prod.splits)
    then show ?thesis using Suc.IH[OF m(1) assms(3)[OF Suc.prems(2) Again]] m(2) by auto
  qed (use Suc.prems in auto)
qed simp

end

lemma delay_le: "delay p k ra \<le> bo_max_wait (policy_backoff p)"
  by (simp add: delay_def wait_time_def Let_def split: option.splits)

lemmas retry_defs = retry_for_exception_def retry_for_response_def retry_for_truncated_json_def

lemma should_retry_bounds:
  shows exception_retry: "rd_should_retry (retry_for_exception p e k w) \<Longrightarrow>
      \<not> w \<and> rp_retry_enabled p \<and> \<not> rp_deterministic p \<and> rp_local_request_valid p \<and> Suc k < nat (rp_max_attempts p) \<and>
      rd_delay_seconds (retry_for_exception p e k w) \<le> bo_max_wait (policy_backoff p)"
    and response_retry: "rd_should_retry (retry_for_response p st hs k w) \<Longrightarrow>
      \<not> w \<and> rp_retry_enabled p \<and> \<not> rp_deterministic p \<and> rp_local_request_valid p \<and> Suc k < nat (rp_max_attempts p) \<and>
      st \<in> set RETRYABLE_UPSTREAM_STATUSES \<and>
      rd_delay_seconds (retry_for_response p st hs k w) \<le> bo_max_wait (policy_backoff p)"
    and truncated_retry: "rd_should_retry (retry_for_truncated_json p k w) \<Longrightarrow>
      \<not> w \<and> rp_retry_enabled p \<and> \<not> rp_deterministic p \<and> rp_local_request_valid p \<and> Suc k < nat (rp_max_attempts p) \<and>
      rd_delay_seconds (retry_for_truncated_json p k w) \<le> bo_max_wait (policy_backoff p)"
  by (auto simp: retry_defs blocked_reason_def no_retry_def delay_le split: if_splits)

lemma on_exception_again:
  "on_exception p k e writes = Again s d \<Longrightarrow>
     s = writes \<and> writes = [] \<and> rp_retry_enabled p \<and> Suc k < nat (rp_max_attempts p) \<and> d \<le> bo_max_wait (policy_backoff p)"
  using exception_retry[of p e k "writes \<noteq> []"] by (auto simp: on_exception_def Let_def split: if_splits)

lemma stream_attempt_again:
  assumes "stream_attempt p upstream norm_error rid drops k writes = Again s d"
  shows "s = [] \<and> writes = [] \<and> rp_retry_enabled p \<and> Suc k < nat (rp_max_attempts p) \<and> d \<le> bo_max_wait (policy_backoff p)"
proof (cases "upstream k")
  case (Raises e)
  then show ?thesis using assms on_exception_again[of p k e writes s d] by (simp add: stream_attempt_def)
next
  case (Responds st hs chunks err)
  show ?thesis
  proof (cases "rd_should_retry (retry_for_response p st hs k (writes \<noteq> []))")
    case True
    then show ?thesis using assms Responds response_retry[OF True] on_exception_again[of p k _ writes s d]
      by (auto simp: stream_attempt_def Let_def split: option.splits)
  next
    case False
    then show ?thesis using assms Responds on_exception_again
      by (auto simp: stream_attempt_def Let_def split: option.splits if_splits dest!: on_exception_again)
  qed
qed

interpretation streaming: bounded_attempts "stream_attempt p upstream norm_error rid drops" "nat (rp_max_attempts p)"
    "bo_max_wait (policy_backoff p)" for p upstream norm_error rid drops
  by unfold_locales (use stream_attempt_again in blast)

lemma plain_attempt_again:
  assumes "plain_attempt p problem upstream k u = Again s d"
  shows "rp_retry_enabled p \<and> Suc k < nat (rp_max_attempts p) \<and> d \<le> bo_max_wait (policy_backoff p)"
  using assms
  by (cases "upstream k")
    (auto simp: plain_attempt_def Let_def split: if_splits dest!: exception_retry response_retry truncated_retry)

interpretation plain: bounded_attempts "plain_attempt p problem upstream" "nat (rp_max_attempts p)"
    "bo_max_wait (policy_backoff p)" for p problem upstream
  by unfold_locales (use plain_attempt_again in blast)

section \<open>Properties\<close>

lemma stream_done:
  assumes "stream_attempt p upstream norm_error rid drops k [] = Done (writes, e)"
  shows "writes = [] \<or> (\<exists>st hs chunks err. upstream k = Responds st hs chunks err \<and>
           (if 400 \<le> st then writes = [W_error st (norm_error st (concat chunks))]
            else \<exists>m. writes = W_head st (stream_headers rid hs) # map W_chunk (take m (filter (\<lambda>c. c \<noteq> []) chunks))))"
proof (cases "upstream k")
  case (Raises e)
  then show ?thesis using assms by (auto simp: stream_attempt_def on_exception_def Let_def split: if_splits)
next
  case (Responds st hs chunks err)
  let ?data = "filter (\<lambda>c. c \<noteq> []) chunks"
  obtain m where m: "(case drops of None \<Rightarrow> ?data | Some m \<Rightarrow> take m ?data) = take m ?data"
  proof (cases drops)
    case None
    then show ?thesis using that[of "length ?data"] by simp
  next
    case (Some m)
    then show ?thesis using that[of m] by simp
  qed
  show ?thesis
    using assms Responds unfolding stream_attempt_def Let_def
    by (simp only: stream_event.case m)
      (auto simp: on_exception_def Let_def split: option.splits if_splits)
qed

text \<open>
  C31.  The client sees one response.  Whatever the upstream does over the attempts (errors before,
  during and after a response, status codes, chunks) and whenever the client goes away: the send
  ends, with at most the configured number of requests and pauses no longer than the configured
  maximum; and what the client has been written is nothing, one complete error answer, or the head
  and a prefix of the chunks of one single attempt, the last.  A stream is never restarted.
\<close>

theorem client_sees_one_response:
  assumes "1 \<le> rp_max_attempts p"
  shows "\<exists>writes e sleeps sends. stream_send p upstream norm_error rid drops = (Some (writes, e), sleeps, sends) \<and>
           0 < sends \<and> int sends \<le> rp_max_attempts p \<and> length sleeps = sends - 1 \<and>
           (\<forall>d\<in>set sleeps. d \<le> bo_max_wait (policy_backoff p)) \<and>
           (writes = [] \<or> (\<exists>st hs chunks err. upstream (sends - 1) = Responds st hs chunks err \<and>
              (if 400 \<le> st then writes = [W_error st (norm_error st (concat chunks))]
               else \<exists>m. writes = W_head st (stream_headers rid hs) # map W_chunk (take m (filter (\<lambda>c. c \<noteq> []) chunks)))))"
proof -
  obtain w e sleeps sends where l: "stream_send p upstream norm_error rid drops = (Some (w, e), sleeps, sends)"
    "0 < sends" "sends \<le> nat (rp_max_attempts p)" "length sleeps = sends - 1" "\<forall>d\<in>set sleeps. d \<le> bo_max_wait (policy_backoff p)"
    using streaming.loop_returns[of 0 "nat (rp_max_attempts p)" p upstream norm_error rid drops "[]"] assms
    by (auto simp: stream_send_def)
  have "\<exists>s'. stream_attempt p upstream norm_error rid drops (sends - 1) s' = Done (w, e) \<and> s' = []"
    using streaming.loop_invariant[OF l(1)[unfolded stream_send_def], of "\<lambda>s. s = []"] stream_attempt_again by force
  then have "w = [] \<or> (\<exists>st hs chunks err. upstream (sends - 1) = Responds st hs chunks err \<and>
       (if 400 \<le> st then w = [W_error st (norm_error st (concat chunks))]
        else \<exists>m. w = W_head st (stream_headers rid hs) # map W_chunk (take m (filter (\<lambda>c. c \<noteq> []) chunks))))"
    using stream_done by blast
  then show ?thesis using l assms by (intro exI[of _ w] exI[of _ e] exI[of _ sleeps] exI[of _ sends]) auto
qed

definition example_policy :: retry_policy where
  "example_policy = \<lparr>rp_max_attempts = 3, rp_retry_enabled = True, rp_deterministic = False, rp_local_request_valid = True,
                     rp_backoff = None\<rparr>"

definition flaky :: "nat \<Rightarrow> stream_event" where
  "flaky k = (if k = 0 then Raises \<lparr>ux_name = ''ConnectError'', ux_retryable = True\<rparr>
              else Responds 200 [] [''a'', ''b''] (Some \<lparr>ux_name = ''ReadError'', ux_retryable = True\<rparr>))"

theorem client_sees_one_response_witness:
  "\<exists>writes e sleeps sends. stream_send example_policy flaky (\<lambda>st b. b) ''r'' None = (Some (writes, e), sleeps, sends) \<and> int sends \<le> 3"
  using client_sees_one_response[of example_policy flaky "\<lambda>st b. b" "''r''" None]
  by (auto simp: example_policy_def)

definition transient :: "stream_event \<Rightarrow> bool" where
  "transient ev = (case ev of Raises e \<Rightarrow> ux_retryable e
     | Responds st hs chunks err \<Rightarrow> st \<in> set RETRYABLE_UPSTREAM_STATUSES \<and> (\<forall>e. err = Some e \<longrightarrow> ux_retryable e))"

lemma transient_again:
  assumes "transient (upstream k)" "blocked_reason p False = None" "int (Suc k) < rp_max_attempts p"
  shows "\<exists>d. stream_attempt p upstream norm_error rid drops k [] = Again [] d"
proof -
  have exn: "rd_should_retry (retry_for_exception p e k False)" if "ux_retryable e" for e
    using assms(2,3) that by (simp add: retry_for_exception_def)
  have "rd_should_retry (retry_for_response p st hs k False)" if "st \<in> set RETRYABLE_UPSTREAM_STATUSES" for st hs
    using assms(2,3) that by (auto simp: retry_for_response_def RETRYABLE_UPSTREAM_STATUSES_def NON_RETRYABLE_UPSTREAM_STATUSES_def)
  then show ?thesis using assms(1) exn
    by (auto simp: stream_attempt_def transient_def on_exception_def Let_def split: stream_event.splits option.splits)
qed

lemma attempt_loop_skip:
  assumes "\<And>j. j < m \<Longrightarrow> \<exists>d. att (k + j) s = Again s d" "att (k + m) s = Done r" "m < n"
  shows "\<exists>sleeps. attempt_loop att k n s = (Some r, sleeps, Suc m)"
  using assms
proof (induction m arbitrary: k n)
  case 0
  then show ?case by (cases n) simp_all
next
  case (Suc m)
  obtain d where "att k s = Again s d" using Suc.prems(1)[of 0] by auto
  moreover obtain n' where "n = Suc n'" using Suc.prems(3) by (cases n) auto
  moreover obtain sleeps where "attempt_loop att (Suc k) n' s = (Some r, sleeps, Suc m)"
    using Suc.IH[of "Suc k" n'] Suc.prems \<open>n = Suc n'\<close> by (metis Suc_less_eq add_Suc_shift add_Suc)
  ultimately show ?case by simp
qed

text \<open>
  C32.  Transient failures are overcome.  With retries on, if every attempt before the \<open>k\<close>-th fails with
  a transport exception or a retryable status, there is a \<open>k\<close>-th, and it answers with a complete
  stream, the client receives exactly that stream, after \<open>k + 1\<close> requests.
\<close>

theorem transient_failures_are_overcome:
  assumes "blocked_reason p False = None" "int k < rp_max_attempts p" "\<forall>j<k. transient (upstream j)"
    "upstream k = Responds st hs chunks None" "st < 400" "st \<notin> set RETRYABLE_UPSTREAM_STATUSES"
  shows "\<exists>sleeps. stream_send p upstream norm_error rid None =
           (Some (W_head st (stream_headers rid hs) # map W_chunk (filter (\<lambda>c. c \<noteq> []) chunks), Ended st), sleeps, Suc k)"
  unfolding stream_send_def
proof (rule attempt_loop_skip)
  show "\<exists>d. stream_attempt p upstream norm_error rid None (0 + j) [] = Again [] d" if "j < k" for j
    using transient_again[of upstream j p norm_error rid None] assms(1-3) that by auto
  have "\<not> rd_should_retry (retry_for_response p st hs k False)"
    using assms(1,6) by (simp add: retry_for_response_def no_retry_def)
  then show "stream_attempt p upstream norm_error rid None (0 + k) [] =
      Done (W_head st (stream_headers rid hs) # map W_chunk (filter (\<lambda>c. c \<noteq> []) chunks), Ended st)"
    using assms(4,5) by (simp add: stream_attempt_def Let_def)
  show "k < nat (rp_max_attempts p)" using assms(2) by simp
qed

definition recovers :: "nat \<Rightarrow> stream_event" where
  "recovers k = (if k = 0 then Raises \<lparr>ux_name = ''ConnectError'', ux_retryable = True\<rparr>
                 else if k = 1 then Responds 503 [] [] None else Responds 200 [] [''a'', ''b''] None)"

theorem transient_failures_are_overcome_witness:
  "\<exists>sleeps. stream_send example_policy recovers (\<lambda>st b. b) ''r'' None =
     (Some ([W_head 200 (stream_headers ''r'' []), W_chunk ''a'', W_chunk ''b''], Ended 200), sleeps, Suc 2)"
  using transient_failures_are_overcome[of example_policy 2 recovers 200 "[]" "[''a'', ''b'']" "\<lambda>st b. b"]
  by (simp add: example_policy_def blocked_reason_def recovers_def transient_def RETRYABLE_UPSTREAM_STATUSES_def
      less_Suc_eq numeral_2_eq_2)

text \<open>
  A plain send never ends without an answer or an error.  Whatever the upstream does, the loop
  ends with a reply to hand on, a truncated reply or the exception of the last attempt, never by
  running out of attempts, after at most the configured number of requests; and in deterministic
  mode, or when the request itself is no valid JSON, after exactly one.
\<close>

lemma plain_send_answers:
  assumes "1 \<le> rp_max_attempts p"
  shows "\<exists>r sleeps sends. plain_send p problem upstream = (Some r, sleeps, sends) \<and> 0 < sends \<and>
           int sends \<le> rp_max_attempts p \<and> (rp_deterministic p \<or> \<not> rp_local_request_valid p \<longrightarrow> sends = 1) \<and>
           (\<forall>st hs body. r = Got st hs body \<longrightarrow> upstream (sends - 1) = Replies st hs body) \<and>
           (\<forall>e. r = Gave_up e \<longrightarrow> upstream (sends - 1) = Fails e)"
proof -
  obtain r sleeps sends where l: "plain_send p problem upstream = (Some r, sleeps, sends)" "0 < sends"
    "sends \<le> nat (rp_max_attempts p)"
    using plain.loop_returns[of 0 "nat (rp_max_attempts p)" p problem upstream "()"] assms by (auto simp: plain_send_def)
  have last: "plain_attempt p problem upstream (sends - 1) () = Done r"
    using plain.loop_last[OF l(1)[unfolded plain_send_def]] by auto
  have one: "sends = 1" if "rp_deterministic p \<or> \<not> rp_local_request_valid p"
  proof -
    have "blocked_reason p False \<noteq> None" using that by (auto simp: blocked_reason_def)
    then have "\<exists>r'. plain_attempt p problem upstream 0 () = Done r'"
      by (cases "upstream 0") (auto simp: plain_attempt_def retry_defs no_retry_def Let_def)
    then show ?thesis using l(1) assms by (cases "nat (rp_max_attempts p)") (auto simp: plain_send_def)
  qed
  show ?thesis using l one last assms
    by (intro exI[of _ r] exI[of _ sleeps] exI[of _ sends])
      (cases "upstream (sends - 1)", auto simp: plain_attempt_def Let_def split: if_splits)
qed

theorem plain_send_answers_witness:
  "\<exists>r sleeps sends. plain_send example_policy (\<lambda>_. None) (\<lambda>_. Replies 503 [] []) = (Some r, sleeps, sends) \<and> int sends \<le> 3"
  using plain_send_answers[of example_policy "\<lambda>_. None" "\<lambda>_. Replies 503 [] []"] by (auto simp: example_policy_def)

text \<open>No credential header survives in the record of a failed request.\<close>

lemma recovery_record_keeps_no_credential:
  assumes "map_of (recovery_record sha256 decode pb rid plan url meth hs body st rs et em now) ''headers'' = Some (J_obj d)"
    "lower k \<in> set RECOVERY_SENSITIVE_HEADERS"
  shows "map_of d k = None"
proof -
  have "d = map (\<lambda>(k, v). (k, J_str v)) (redact_recovery_headers hs)" using assms(1) by (auto simp: recovery_record_def)
  then show ?thesis using assms(2) by (auto simp: map_of_eq_None_iff redact_recovery_headers_def)
qed

end
