(* ===== verification/Request_Accounting.thy ===== *)
theory Request_Accounting
  imports Request_Pricing Responses Upstream_Retry
begin

text \<open>
  The accounting of one request from its preflight to the sends to the provider (\<^verbatim>\<open>spend_guard/request_accounting.py\<close>,
  \<^verbatim>\<open>serving_basis.py\<close>).  The object is a record; a method returns its value or its exception together
  with the object and the databases it leaves behind, so what was changed before an exception stays
  changed.  Reading the configuration and opening the databases are parameters, as are
  the clock, fresh identifiers and the environment variables.
\<close>

section \<open>The serving basis\<close>

definition coerce_bool :: "string option \<Rightarrow> bool" where
  "coerce_bool v = (case v of None \<Rightarrow> False | Some s \<Rightarrow> lower (strip s) \<in> {''1'', ''true'', ''yes'', ''on''})"

definition BASIS_ENV :: string where "BASIS_ENV = ''TOKENPAK_SPEND_GUARD_ACCOUNTING_BASIS''"
definition SWITCHES :: "string list" where
  "SWITCHES = [''TOKENPAK_SPEND_GUARD_ENABLED'', ''TOKENPAK_SPEND_GUARD_RESERVATIONS_ENABLED'']"

definition basis_value :: "string \<Rightarrow> py_error + string" where
  "basis_value v = ebind (demand (v \<in> {''priced_usage'', ''provider_tokens''}) ''unsupported accounting basis'') (\<lambda>_. Inr v)"

definition explicitly_disabled :: "(string, string) dict \<Rightarrow> bool" where
  "explicitly_disabled vars = list_ex (\<lambda>n. map_of vars n \<noteq> None \<and> \<not> coerce_bool (map_of vars n)) SWITCHES"

definition ServingBasis :: "string \<Rightarrow> py_error + string" where
  "ServingBasis b = basis_value b"

definition explicit_basis :: "(string, string) dict \<Rightarrow> py_error + string option" where
  "explicit_basis vars = (case map_of vars BASIS_ENV of None \<Rightarrow> Inr None | Some v \<Rightarrow> ebind (basis_value v) (\<lambda>b. Inr (Some b)))"

definition check_environment :: "(string, string) dict \<Rightarrow> string option \<Rightarrow> py_error + unit" where
  "check_environment vars intent =
     ebind (explicit_basis vars) (\<lambda>explicit.
     ebind (demand (intent = None \<or> explicit = None \<or> explicit = intent) ''accounting basis changed; start a new serving generation'') (\<lambda>_.
       demand (\<not> ((if intent \<noteq> None then intent else explicit) = Some ''provider_tokens'' \<and> explicitly_disabled vars))
         ''provider-token accounting requires enabled guard and reservations''))"

definition check_policy :: "spend_guard_config \<Rightarrow> string option \<Rightarrow> py_error + unit" where
  "check_policy cfg intent =
     demand (intent = None \<or> intent = Some (cfg_accounting_basis cfg)) ''accounting basis changed; start a new serving generation''"

text \<open>
  The basis captured before the proxy listens.  \<open>raw\<close> is the configuration file, decoded, or the exception of reading it;
  \<open>load\<close> is the policy's own reader of it.
\<close>

definition dict_section :: "json_fields \<Rightarrow> string \<Rightarrow> json_fields" where
  "dict_section raw k = (case map_of raw k of Some (J_obj d) \<Rightarrow> d | _ \<Rightarrow> [])"

definition declared_basis :: "json option \<Rightarrow> py_error + string" where
  "declared_basis v =
     (case v of
        None \<Rightarrow> Inr ''priced_usage''
      | Some (J_str s) \<Rightarrow> basis_value s
      | Some _ \<Rightarrow> Inl (ValueError ''unsupported accounting basis''))"

definition capture_serving_basis ::
  "(string, string) dict \<Rightarrow> py_error + json_fields \<Rightarrow> (json_fields \<Rightarrow> py_error + spend_guard_config) \<Rightarrow> py_error + string" where
  "capture_serving_basis vars raw load =
     ebind (explicit_basis vars) (\<lambda>explicit.
     ebind (if explicit = None then Inr () else check_environment vars explicit) (\<lambda>_.
     ebind (case raw of
              Inr d \<Rightarrow> Inr d
            | Inl e \<Rightarrow> (if explicit = Some ''provider_tokens'' then Inl e
                        else case e of FileNotFoundError _ \<Rightarrow> Inr [] | ValueError _ \<Rightarrow> Inr [] | _ \<Rightarrow> Inl e)) (\<lambda>d.
     ebind (case explicit of
              Some b \<Rightarrow> basis_value b
            | None \<Rightarrow> declared_basis (case map_of (dict_section d ''tip_spend_guard'') ''accounting_basis'' of
                         Some v \<Rightarrow> Some v
                       | None \<Rightarrow> map_of (dict_section d ''spend_guard'') ''accounting_basis'')) (\<lambda>selected.
     ebind (ServingBasis selected) (\<lambda>intent.
     ebind (check_environment vars (Some intent)) (\<lambda>_.
     ebind (if selected = ''provider_tokens'' then ebind (load d) (\<lambda>cfg. check_policy cfg (Some intent)) else Inr ()) (\<lambda>_.
       Inr intent)))))))"

definition request_config ::
  "(string, string) dict \<Rightarrow> py_error + spend_guard_config \<Rightarrow> py_error + spend_guard_config \<Rightarrow> string option \<Rightarrow> py_error + spend_guard_config" where
  "request_config vars effective absent intent =
     ebind (check_environment vars intent) (\<lambda>_.
     if explicitly_disabled vars then Inr (SpendGuardConfig\<lparr>cfg_reservations_enabled := False\<rparr>)
     else ebind (case effective of
                   Inl (FileNotFoundError m) \<Rightarrow>
                     if coerce_bool (map_of vars ''TOKENPAK_SPEND_GUARD_RESERVATIONS_ENABLED'') then Inl (FileNotFoundError m) else absent
                 | r \<Rightarrow> r) (\<lambda>cfg.
          ebind (check_policy cfg intent) (\<lambda>_. Inr cfg)))"

section \<open>The object\<close>

record accounting =
  ac_serving_basis :: "string option"
  ac_config :: spend_guard_config
  ac_store :: "store_config option"
  ac_ref :: "reservation_ref option"
  ac_attempts :: nat
  ac_workload :: "workload option"
  ac_tokens :: "token_observation option"
  ac_credential_kind :: "string option"
  ac_price :: "request_price option"
  ac_force :: bool
  ac_session_id :: string
  ac_agent_id :: string
  ac_owner_id :: string
  ac_coverage_id :: string
  ac_finished :: bool

type_synonym books = "reservation_db \<times> monitor_state"

definition client_header :: "headers \<Rightarrow> string \<Rightarrow> string option" where
  "client_header hs name = (case header_get hs name of Some v \<Rightarrow> if v = [] then None else Some v | None \<Rightarrow> None)"

definition resolve_session_id :: "headers \<Rightarrow> string \<Rightarrow> string" where
  "resolve_session_id hs model =
     or_else (find (\<lambda>v. v \<noteq> []) (List.map_filter (client_header hs)
       [''X-Claude-Code-Session-Id'', ''X-TokenPak-Session'', ''session-id'', ''thread-id''])) model"

definition resolve_agent_id :: "headers \<Rightarrow> string" where
  "resolve_agent_id hs = (case find (\<lambda>(k, v). lower k = ''x-tokenpak-agent'') hs of None \<Rightarrow> [] | Some (k, v) \<Rightarrow> lower (strip v))"

definition SESSION_HEADERS :: "string list" where
  "SESSION_HEADERS = [''x-claude-code-session-id'', ''x-tokenpak-session'', ''session-id'', ''thread-id'']"

text \<open>The proxy that serves the request: its captured basis, its identity, and whether it has a monitor.\<close>

record proxy_owner =
  ow_serving_basis :: "string option"
  ow_snapshot_owner_id :: string
  ow_has_monitor :: bool

definition fresh_accounting :: "string option \<Rightarrow> spend_guard_config \<Rightarrow> headers \<Rightarrow> accounting" where
  "fresh_accounting intent cfg hs =
     \<lparr>ac_serving_basis = intent, ac_config = cfg, ac_store = None, ac_ref = None, ac_attempts = 0, ac_workload = None, ac_tokens = None,
      ac_credential_kind = None, ac_price = None, ac_force = False, ac_session_id = resolve_session_id hs [],
      ac_agent_id = resolve_agent_id hs, ac_owner_id = [], ac_coverage_id = [], ac_finished = False\<rparr>"

definition RequestAccounting ::
  "(string, string) dict \<Rightarrow> py_error + spend_guard_config \<Rightarrow> py_error + spend_guard_config \<Rightarrow> proxy_owner \<Rightarrow> (spend_guard_config \<Rightarrow> py_error + store_config) \<Rightarrow> string \<Rightarrow> secs \<Rightarrow> headers \<Rightarrow> books \<Rightarrow>
   (py_error + accounting) \<times> books" where
  "RequestAccounting vars effective absent owner open_store cid now hs s =
     (case ebind (request_config vars effective absent (ow_serving_basis owner)) (\<lambda>cfg. ebind (validate_accounting_basis cfg) (\<lambda>_. Inr cfg)) of
        Inl e \<Rightarrow> (Inl e, s)
      | Inr cfg \<Rightarrow>
          let ac = fresh_accounting (ow_serving_basis owner) cfg hs in
          if \<not> cfg_enabled cfg \<or> \<not> cfg_reservations_enabled cfg then (Inr ac, s)
          else if list_ex (\<lambda>(k, v). lower k \<in> set SESSION_HEADERS \<and> v \<noteq> ac_session_id ac) hs
          then (Inl (ValueError ''contradictory session attribution''), s)
          else if \<not> ow_has_monitor owner then (unavailable ''native monitor unavailable'', s)
          else (case open_store cfg of
                  Inl e \<Rightarrow> (Inl e, s)
                | Inr st \<Rightarrow>
                    (case begin_request st cid (ac_session_id ac) (ow_snapshot_owner_id owner) (cfg_rolling_caps_window_seconds cfg) now s of
                       (Inl e, s') \<Rightarrow> (Inl e, s')
                     | (Inr c, s') \<Rightarrow>
                         (Inr (ac\<lparr>ac_store := Some st, ac_owner_id := ow_snapshot_owner_id owner, ac_coverage_id := c\<rparr>), s'))))"

definition preflight_config :: "accounting \<Rightarrow> spend_guard_config" where
  "preflight_config ac = (ac_config ac)\<lparr>cfg_rolling_caps_enabled := False\<rparr>"

definition on_tokens :: "accounting \<Rightarrow> bool" where
  "on_tokens ac \<longleftrightarrow> cfg_accounting_basis (ac_config ac) = ''provider_tokens''"

definition observe_directive :: "json_codec \<Rightarrow> string \<Rightarrow> accounting \<Rightarrow> (py_error + unit) \<times> accounting" where
  "observe_directive jc body ac =
     (case fst (parse_and_strip_tip_header jc body) of
        None \<Rightarrow> (Inr (), ac\<lparr>ac_force := False\<rparr>)
      | Some t \<Rightarrow>
          if on_tokens ac \<and> tip_max_cost_usd t \<noteq> None
          then (unavailable ''provider-token accounting cannot enforce a request monetary cap'', ac)
          else (Inr (), ac\<lparr>ac_force := tip_bypass t \<or> tip_allow_scope t \<noteq> None\<rparr>))"

section \<open>Admission\<close>

definition LIMIT_KEYS :: "string list" where
  "LIMIT_KEYS = [''max_tokens'', ''max_completion_tokens'', ''max_output_tokens'']"

definition declared_limits :: "json_fields \<Rightarrow> json list" where
  "declared_limits d =
     List.map_filter (map_of d) LIMIT_KEYS @
     (case map_of d ''generationConfig'' of
        Some (J_obj g) \<Rightarrow> (case map_of g ''maxOutputTokens'' of None \<Rightarrow> [] | Some v \<Rightarrow> [v])
      | _ \<Rightarrow> [])"

definition positive_int :: "json \<Rightarrow> bool" where
  "positive_int v = (case v of J_int n \<Rightarrow> 0 < n | _ \<Rightarrow> False)"

text \<open>The declared limit on the output, if any; a document that is not an object has no fields to read.\<close>

definition output_limit :: "json option \<Rightarrow> py_error + int option" where
  "output_limit doc =
     (case doc of
        None \<Rightarrow> Inl (ValueError ''JSONDecodeError'')
      | Some (J_obj d) \<Rightarrow>
          let ls = declared_limits d in
          ebind (demand (list_all positive_int ls \<and> length (remdups ls) \<le> 1) ''ambiguous or invalid output-token limit'') (\<lambda>_.
            Inr (case ls of J_int n # _ \<Rightarrow> Some n | _ \<Rightarrow> None))
      | Some _ \<Rightarrow> Inl (TypeError ''request is not an object''))"

text \<open>The highest rates of any band that is known for the model.\<close>

definition rate_quads :: "model_info \<Rightarrow> (rat \<times> rat \<times> rat option \<times> rat option) list" where
  "rate_quads info =
     (mi_input_per_mtok info, mi_output_per_mtok info, mi_cache_write_per_mtok info, mi_cache_read_per_mtok info) #
     map (\<lambda>b. (rb_input_per_mtok b, rb_output_per_mtok b, rb_cache_write_per_mtok b, rb_cache_read_per_mtok b)) (mi_rate_bands info)"

definition top_rates :: "(rat \<times> rat \<times> rat option \<times> rat option) list \<Rightarrow> rat \<times> rat \<Rightarrow> rat \<times> rat" where
  "top_rates qs start =
     foldl (\<lambda>(i, out) (qi, qo, cw, cr). (max (max i qi) (max (or_else cw 0) (or_else cr 0)), max out qo)) start qs"

definition reservation_rates :: "registry \<Rightarrow> string \<Rightarrow> risk_estimate \<Rightarrow> py_error + (rat \<times> rat)" where
  "reservation_rates rg model est =
     (case (map_of (re_rates est) ''input'', map_of (re_rates est) ''output'') of
        (Some i, Some out) \<Rightarrow> Inr (case get_pricing rg model of None \<Rightarrow> (i, out) | Some info \<Rightarrow> top_rates (rate_quads info) (i, out))
      | _ \<Rightarrow> Inl (KeyError ''rates''))"

definition project :: "accounting \<Rightarrow> registry \<Rightarrow> json option \<Rightarrow> string \<Rightarrow> risk_estimate \<Rightarrow> py_error + projection" where
  "project ac rg doc model est =
     (let context = get_max_context rg (Some model) in
      ebind (output_limit doc) (\<lambda>declared.
      ebind (pessimistic_output_reservation declared context (re_projected_input_tokens est)) (\<lambda>out.
      ebind (reservation_rates rg model est) (\<lambda>(input_rate, output_rate).
      ebind (raise_if (on_tokens ac \<and> \<not> ((case context of None \<Rightarrow> False | Some n \<Rightarrow> 0 < n) \<and> declared \<noteq> None \<and>
                         get_pricing rg model \<noteq> None \<and> 0 < input_rate \<and> 0 < output_rate))
               (ReservationUnavailable ''provider-token admission requires a known context, rates and explicit output bound'')) (\<lambda>_.
      let reserved = (if on_tokens ac then or_else context 0 else re_projected_input_tokens est) in
        Projection ((of_int reserved * input_rate + of_int out * output_rate) / 1000000) reserved out reserved)))))"

definition caps_of :: "spend_guard_config \<Rightarrow> rolling_caps_config" where
  "caps_of cfg =
     \<lparr>rcc_enabled = cfg_rolling_caps_enabled cfg, rcc_window_seconds = cfg_rolling_caps_window_seconds cfg,
      rcc_per_agent_max_cost_usd = cfg_rc_per_agent_max_cost_usd cfg, rcc_per_agent_max_tokens_total = cfg_rc_per_agent_max_tokens_total cfg,
      rcc_per_agent_max_cache_read_tokens = cfg_rc_per_agent_max_cache_read_tokens cfg,
      rcc_per_fleet_max_cost_usd = cfg_rc_per_fleet_max_cost_usd cfg, rcc_per_fleet_max_tokens_total = cfg_rc_per_fleet_max_tokens_total cfg,
      rcc_per_fleet_max_cache_read_tokens = cfg_rc_per_fleet_max_cache_read_tokens cfg\<rparr>"

definition breach_payload :: "reservation_breach \<Rightarrow> json" where
  "breach_payload b = J_obj [(''error'', J_obj
     [(''type'', J_str ''tokenpak_spend_guard_reservation_blocked''),
      (''message'', J_str ''Concurrent reserved and recorded usage would exceed the configured cap.''),
      (''cap_dimension'', J_str (br_cap_dimension b)), (''agent_id'', J_str (br_agent_id b)), (''window_seconds'', J_int (br_window_seconds b)),
      (''used'', J_float (br_used b)), (''cap'', J_float (br_cap b)), (''projected_add'', J_float (br_projected_add b)),
      (''retry_after_seconds'', J_int (br_retry_after_seconds b)), (''settled_used'', J_float (rb_settled_used b)),
      (''reserved_active'', J_float (rb_reserved_active b)), (''retryable'', J_bool True), (''approval_prompt_available'', J_bool False)])]"

record admission_env =
  ad_estimator :: estimator_env
  ad_response :: response_env
  ad_ledger :: ledger_env
  ad_registry :: registry

definition reserve_args_of :: "accounting \<Rightarrow> string \<Rightarrow> projection \<Rightarrow> reserve_args" where
  "reserve_args_of ac request_id pj =
     \<lparr>ra_session_id = ac_session_id ac, ra_agent_id = ac_agent_id ac, ra_owner = ac_owner_id ac, ra_request_id = request_id,
      ra_projection = pj, ra_caps = caps_of (ac_config ac), ra_ttl_seconds = cfg_reservation_ttl_seconds (ac_config ac), ra_force = ac_force ac\<rparr>"

definition hold_projection ::
  "admission_env \<Rightarrow> store_config \<Rightarrow> string \<Rightarrow> string \<Rightarrow> secs \<Rightarrow> projection \<Rightarrow> accounting \<Rightarrow> books \<Rightarrow>
   (py_error + guard_outcome option) \<times> accounting \<times> books" where
  "hold_projection env st request_id rid now pj ac s =
     (case reserve (ad_ledger env) st (reserve_args_of ac request_id pj) rid now s of
        (Inl e, s') \<Rightarrow> (Inl e, ac, s')
      | (Inr (ref, breach), s') \<Rightarrow>
          (Inr (map_option (\<lambda>b. (GuardOutcome Blocked)\<lparr>go_response_body := Some (respond (ad_response env) (breach_payload b)),
                  go_http_status := 402, go_audit_event := Some ''reservation_block''\<rparr>) breach),
           ac\<lparr>ac_ref := ref\<rparr>, s'))"

definition admit_stage ::
  "admission_env \<Rightarrow> string \<Rightarrow> string \<Rightarrow> string \<Rightarrow> string \<Rightarrow> secs \<Rightarrow> store_config \<Rightarrow> risk_estimate \<Rightarrow> accounting \<Rightarrow> books \<Rightarrow>
   (py_error + guard_outcome option) \<times> accounting \<times> books" where
  "admit_stage env body model request_id rid now st est ac s =
     (let d = decide est (ac_config ac) None 0 (get_max_context (ad_registry env) (Some model)) False False in
      if pd_decision d = Hard_block
      then (Inr (Some ((GuardOutcome Hard_blocked)\<lparr>go_response_body := Some (respond (ad_response env)
                  (hard_block_payload (rs_format (ad_response env)) d)), go_http_status := 402, go_decision := Some d\<rparr>)), ac, s)
      else (case project ac (ad_registry env) (jc_loads_bytes (es_codec (ad_estimator env)) body) model est of
              Inl e \<Rightarrow> (Inl e, ac, s)
            | Inr pj \<Rightarrow> hold_projection env st request_id rid now pj ac s))"

definition admit ::
  "admission_env \<Rightarrow> string \<Rightarrow> string \<Rightarrow> string \<Rightarrow> headers \<Rightarrow> string \<Rightarrow> secs \<Rightarrow> accounting \<Rightarrow> books \<Rightarrow>
   (py_error + guard_outcome option) \<times> accounting \<times> books" where
  "admit env body model request_id hs rid now ac s =
     (case ac_store ac of
        None \<Rightarrow> (Inr None, ac, s)
      | Some st \<Rightarrow>
          if resolve_session_id hs [] \<noteq> ac_session_id ac \<or> resolve_agent_id hs \<noteq> ac_agent_id ac
          then (Inl (ValueError ''forward attribution changed during preflight''), ac, s)
          else (case estimate (ad_estimator env) body model 0 of
                  Inl e \<Rightarrow>
                    if on_tokens ac then (unavailable ''provider-token admission requires a measurable request'', ac, s)
                    else (Inr None, ac, s)
                | Inr est \<Rightarrow> admit_stage env body model request_id rid now st est ac s))"

section \<open>Sending and observing\<close>

text \<open>The store writes an observation only after it has read back what it would write.\<close>

definition stored_workload :: "native_env \<Rightarrow> workload \<Rightarrow> py_error + string" where
  "stored_workload env w = ebind (workload_from_json env (workload_to_json env w)) (\<lambda>w'. Inr (workload_to_json env w'))"

definition stored_tokens :: "native_env \<Rightarrow> token_observation \<Rightarrow> py_error + string" where
  "stored_tokens env t = ebind (tokens_to_json env t) (\<lambda>raw. ebind (tokens_from_json env (Some raw)) (tokens_to_json env))"

definition store_send ::
  "native_env \<Rightarrow> store_config \<Rightarrow> string \<Rightarrow> reservation_ref option \<Rightarrow> workload \<Rightarrow> reservation_db \<Rightarrow> (py_error + unit) \<times> reservation_db" where
  "store_send env st cid ref w db =
     (if holds_for (same_scope st) ref
      then (case stored_workload env w of Inl e \<Rightarrow> (Inl e, db) | Inr raw \<Rightarrow> attempted_send st cid ref (Some raw) db)
      else (Inl (ValueError ''reservation reference belongs to another accounting scope''), db))"

definition store_workload :: "native_env \<Rightarrow> store_config \<Rightarrow> string \<Rightarrow> workload \<Rightarrow> reservation_db \<Rightarrow> (py_error + unit) \<times> reservation_db" where
  "store_workload env st cid w db = (case stored_workload env w of Inl e \<Rightarrow> (Inl e, db) | Inr raw \<Rightarrow> record_workload st cid raw db)"

definition store_tokens :: "native_env \<Rightarrow> store_config \<Rightarrow> string \<Rightarrow> token_observation \<Rightarrow> reservation_db \<Rightarrow> (py_error + unit) \<times> reservation_db" where
  "store_tokens env st cid t db = (case stored_tokens env t of Inl e \<Rightarrow> (Inl e, db) | Inr raw \<Rightarrow> record_tokens st cid raw db)"

text \<open>On the token basis: one send only, of a request that was admitted and whose tokens can be observed.\<close>

definition token_send_check ::
  "native_env \<Rightarrow> string option \<Rightarrow> string option \<Rightarrow> headers \<Rightarrow> accounting \<Rightarrow> (py_error + unit) \<times> accounting" where
  "token_send_check env body url hs ac =
     (if \<not> on_tokens ac then (Inr (), ac)
      else if 0 < ac_attempts ac then (unavailable ''provider-token accounting does not permit automatic retries'', ac)
      else (case observe_tokens env body url hs (ac_credential_kind ac) of
              Inl e \<Rightarrow> (Inl e, ac)
            | Inr t \<Rightarrow>
                let ac' = ac\<lparr>ac_tokens := Some t\<rparr> in
                if ac_ref ac = None \<or> to_token_reason_codes t \<noteq> [''response_unavailable'']
                then (unavailable ''final forwarding is unsupported for provider-token accounting'', ac')
                else (Inr (), ac')))"

definition counted_send ::
  "native_env \<Rightarrow> store_config \<Rightarrow> workload \<Rightarrow> accounting \<Rightarrow> reservation_db \<Rightarrow> (py_error + unit) \<times> accounting \<times> reservation_db" where
  "counted_send env st w ac db =
     (case store_send env st (ac_coverage_id ac) (ac_ref ac) w db of
        (Inl e, db1) \<Rightarrow> (Inl e, ac, db1)
      | (Inr _, db1) \<Rightarrow>
          (case (case ac_tokens ac of None \<Rightarrow> (Inr (), db1) | Some t \<Rightarrow> store_tokens env st (ac_coverage_id ac) t db1) of
             (Inl e, db2) \<Rightarrow> (Inl e, ac, db2)
           | (Inr _, db2) \<Rightarrow> (Inr (), ac\<lparr>ac_attempts := ac_attempts ac + 1\<rparr>, db2)))"

definition before_send ::
  "native_env \<Rightarrow> (string, string) dict \<Rightarrow> string option \<Rightarrow> string option \<Rightarrow> headers \<Rightarrow> accounting \<Rightarrow> reservation_db \<Rightarrow>
   (py_error + unit) \<times> accounting \<times> reservation_db" where
  "before_send env vars body url hs ac db =
     (case check_environment vars (ac_serving_basis ac) of
        Inl e \<Rightarrow> (Inl e, ac, db)
      | Inr _ \<Rightarrow>
          let ac0 = ac\<lparr>ac_price := None\<rparr> in
          (case ac_store ac of
             None \<Rightarrow> (Inr (), ac0\<lparr>ac_attempts := ac_attempts ac + 1\<rparr>, db)
           | Some st \<Rightarrow>
               (case observe_workload env body url hs of
                  Inl e \<Rightarrow> (Inl e, ac0, db)
                | Inr w \<Rightarrow>
                    (case token_send_check env body url hs (ac0\<lparr>ac_workload := Some w\<rparr>) of
                       (Inl e, ac1) \<Rightarrow> (Inl e, ac1, db)
                     | (Inr _, ac1) \<Rightarrow> counted_send env st w ac1 db))))"

definition record_token_response ::
  "native_env \<Rightarrow> store_config \<Rightarrow> string \<Rightarrow> bool \<Rightarrow> bool \<Rightarrow> int \<Rightarrow> accounting \<Rightarrow> reservation_db \<Rightarrow> accounting \<times> reservation_db" where
  "record_token_response env st raw streaming ended status ac db =
     (case ac_tokens ac of
        None \<Rightarrow> (ac, db)
      | Some t \<Rightarrow>
          (case observe_tokens_response env t raw streaming ended status of
             Inl e \<Rightarrow> (ac, db)
           | Inr t' \<Rightarrow>
               (case store_tokens env st (ac_coverage_id ac) t' db of
                  (Inl e, db') \<Rightarrow> (ac, db')
                | (Inr _, db') \<Rightarrow> (ac\<lparr>ac_tokens := Some t'\<rparr>, db'))))"

definition record_response ::
  "native_env \<Rightarrow> string \<Rightarrow> bool \<Rightarrow> bool \<Rightarrow> int \<Rightarrow> accounting \<Rightarrow> reservation_db \<Rightarrow> accounting \<times> reservation_db" where
  "record_response env raw streaming ended status ac db =
     (case (ac_store ac, ac_workload ac) of
        (Some st, Some w) \<Rightarrow>
          (case observe_workload_response env w raw streaming ended status of
             Inl e \<Rightarrow> (ac, db)
           | Inr w' \<Rightarrow>
               (case store_workload env st (ac_coverage_id ac) w' db of
                  (Inl e, db') \<Rightarrow> (ac, db')
                | (Inr _, db') \<Rightarrow> record_token_response env st raw streaming ended status (ac\<lparr>ac_workload := Some w'\<rparr>) db'))
      | _ \<Rightarrow> (ac, db))"

section \<open>Usage\<close>

record cost_observation =
  co_cost_basis :: string
  co_pricing_source :: string
  co_input_tokens :: "int option"
  co_output_tokens :: "int option"
  co_cache_read_tokens :: "int option"
  co_cache_creation_tokens :: "int option"

record provider_usage =
  pu_source :: "string option"
  pu_input_tokens :: "int option"
  pu_output_tokens :: "int option"
  pu_cache_read_tokens :: "int option"
  pu_cache_creation_tokens :: "int option"

definition row_of :: "cost_observation \<Rightarrow> string \<Rightarrow> usage_row" where
  "row_of obs model = \<lparr>ur_model = model, ur_input_tokens = co_input_tokens obs, ur_output_tokens = co_output_tokens obs,
     ur_cache_read_tokens = co_cache_read_tokens obs, ur_cache_creation_tokens = co_cache_creation_tokens obs\<rparr>"

definition price_usage ::
  "native_env \<Rightarrow> (string \<Rightarrow> secs option) \<Rightarrow> catalog option \<Rightarrow> string \<Rightarrow> cost_observation \<Rightarrow> string \<Rightarrow> accounting \<Rightarrow>
   request_price option \<times> accounting" where
  "price_usage env pt cat now obs model ac =
     (let ac0 = ac\<lparr>ac_price := None\<rparr> in
      case ac_workload ac of
        None \<Rightarrow> (None, ac0)
      | Some w \<Rightarrow>
          if on_tokens ac \<or> ac_ref ac = None \<or> ac_attempts ac \<noteq> 1 \<or> co_cost_basis obs \<noteq> ''provider_usage_rate_estimate'' then (None, ac0)
          else (case ebind (price_request env pt cat now w) (\<lambda>p. ebind (require_row p (row_of obs model) (cost_usd p)) (\<lambda>_. Inr p)) of
                  Inl e \<Rightarrow> (None, ac0)
                | Inr p \<Rightarrow> (Some p, ac0\<lparr>ac_price := Some p\<rparr>)))"

definition complete_usage :: "cost_observation \<Rightarrow> provider_usage \<Rightarrow> bool \<Rightarrow> accounting \<Rightarrow> bool" where
  "complete_usage obs usage response_complete ac \<longleftrightarrow>
     cfg_accounting_basis (ac_config ac) = ''priced_usage'' \<and> ac_ref ac \<noteq> None \<and> response_complete \<and> ac_attempts ac = 1 \<and>
     co_cost_basis obs = ''provider_usage_rate_estimate'' \<and> co_pricing_source obs \<in> {''seed'', ''discovered''} \<and>
     pu_source usage = Some ''provider_usage_object'' \<and> pu_cache_read_tokens usage \<noteq> None \<and> pu_cache_creation_tokens usage \<noteq> None"

definition complete_token_usage :: "provider_usage \<Rightarrow> bool \<Rightarrow> accounting \<Rightarrow> bool" where
  "complete_token_usage usage response_complete ac =
     (case ac_tokens ac of
        None \<Rightarrow> False
      | Some t \<Rightarrow>
          on_tokens ac \<and> ac_ref ac \<noteq> None \<and> ac_attempts ac = 1 \<and> response_complete \<and> to_token_usage_complete t \<and>
          pu_source usage = Some ''provider_usage_object'' \<and>
          list_all (\<lambda>(actual, expected). actual \<noteq> None \<and> actual = expected)
            [(pu_input_tokens usage, to_uncached_input_tokens t), (pu_output_tokens usage, to_output_tokens t),
             (pu_cache_read_tokens usage, to_cache_read_tokens t), (pu_cache_creation_tokens usage, to_cache_creation_tokens t)])"

definition record_credential_kind :: "string \<Rightarrow> string \<Rightarrow> accounting \<Rightarrow> accounting" where
  "record_credential_kind platform kind ac =
     ac\<lparr>ac_credential_kind := (if platform = ''anthropic'' \<and> kind \<in> {''oauth'', ''api_key''} then Some kind else None)\<rparr>"

section \<open>Finishing\<close>

definition finish :: "secs \<Rightarrow> accounting \<Rightarrow> reservation_db \<Rightarrow> accounting \<times> reservation_db" where
  "finish now ac db =
     (case ac_store ac of
        None \<Rightarrow> (ac, db)
      | Some st \<Rightarrow>
          if ac_finished ac then (ac, db)
          else (case (case ac_ref ac of
                        Some ref \<Rightarrow> if ac_attempts ac = 0 then release_unsent st ref now db else (Inr False, db)
                      | None \<Rightarrow> (Inr False, db)) of
                  (Inl e, db1) \<Rightarrow> (ac, db1)
                | (Inr _, db1) \<Rightarrow>
                    (case finish_request st (ac_coverage_id ac) now db1 of
                       (Inl e, db2) \<Rightarrow> (ac, db2)
                     | (Inr _, db2) \<Rightarrow> (ac\<lparr>ac_finished := True\<rparr>, db2))))"

section \<open>The durable record of the sends\<close>

text \<open>How the row of a request may change: it counts no fewer sends, and it becomes unsent only if it counts none.\<close>

definition row_kept :: "coverage_row \<Rightarrow> coverage_row \<Rightarrow> bool" where
  "row_kept c c' \<longleftrightarrow>
     cov_id c' = cov_id c \<and> cov_ledger_key c' = cov_ledger_key c \<and> cov_attempts c \<le> cov_attempts c' \<and>
     (cov_state c' = Cov_unsent \<longrightarrow> cov_attempts c' = 0 \<or> cov_state c = Cov_unsent \<and> cov_attempts c' = cov_attempts c)"

definition rows_kept :: "coverage_row list \<Rightarrow> coverage_row list \<Rightarrow> bool" where
  "rows_kept cs cs' \<longleftrightarrow> (\<forall>c' \<in> set cs'. \<exists>c \<in> set cs. row_kept c c')"

definition covered :: "string \<Rightarrow> string \<Rightarrow> nat \<Rightarrow> reservation_db \<Rightarrow> bool" where
  "covered key cid n db \<longleftrightarrow>
     (\<forall>c \<in> set (rd_coverage db). cov_ledger_key c = key \<and> cov_id c = cid \<longrightarrow>
        n \<le> cov_attempts c \<and> (cov_state c = Cov_unsent \<longrightarrow> cov_attempts c = 0))"

lemma row_kept_refl [simp]: "row_kept c c"
  by (simp add: row_kept_def)

lemma rows_kept_subset: "set cs' \<subseteq> set cs \<Longrightarrow> rows_kept cs cs'"
  by (auto simp: rows_kept_def intro: row_kept_refl)

lemma rows_kept_refl [simp]: "rows_kept cs cs"
  by (simp add: rows_kept_subset)

lemma rows_kept_update: "(\<And>c. P c \<Longrightarrow> row_kept c (f c)) \<Longrightarrow> rows_kept cs (snd (update_where P f cs))"
  by (auto simp: rows_kept_def update_where_def) (metis row_kept_refl)+

lemma covered_kept: "rows_kept (rd_coverage db) (rd_coverage db') \<Longrightarrow> covered key cid n db \<Longrightarrow> covered key cid n db'"
  by (fastforce simp: covered_def rows_kept_def row_kept_def)

lemma maintain_history_coverage: "maintain_history st window now db = Inr db' \<Longrightarrow> set (rd_coverage db') \<subseteq> set (rd_coverage db)"
  by (elim maintain_historyE) (auto dest!: drop_matching_split split: if_splits)

lemma transact_cases: "snd (transact body db) = db \<or> (\<exists>r. body db = Inr (r, snd (transact body db)))"
  by (auto simp: transact_def split: sum.splits)

lemma reserve_body_coverage: "reserve_body env st a rid now mo db = Inr (b, db') \<Longrightarrow> set (rd_coverage db') \<subseteq> set (rd_coverage db)"
  by (auto simp: reserve_body_def ebind_eq_Inr insert_reservation_def dest!: bind_basis_rows maintain_history_coverage
      split: option.splits if_splits)

lemma update_coverage_kept:
  assumes "update_coverage st cid f db = Inr (u, db')" "\<And>c. row_kept c (f c)"
  shows "rows_kept (rd_coverage db) (rd_coverage db')"
  using assms(1) rows_kept_update[of "\<lambda>c. cov_id c = cid \<and> cov_ledger_key c = sc_ledger_key st" f "rd_coverage db"] assms(2)
  by (auto simp: update_coverage_def split: prod.splits if_splits)

lemma release_body_coverage: "release_body st ref now db = Inr (b, db') \<Longrightarrow> rd_coverage db' = rd_coverage db"
  by (auto simp: release_body_def ebind_eq_Inr split: prod.splits if_splits)

lemma settle_body_kept: "settle_body st ref actual row now db = Inr (b, db') \<Longrightarrow> rows_kept (rd_coverage db) (rd_coverage db')"
  by (auto simp: settle_body_def row_kept_def intro!: rows_kept_update split: option.splits prod.splits if_splits)

lemma settle_tokens_body_kept: "settle_tokens_body env st ref now ledger db = Inr (b, db') \<Longrightarrow> rows_kept (rd_coverage db) (rd_coverage db')"
  by (elim settle_tokens_bodyE) (auto simp: mark_recorded_def row_kept_def intro!: rows_kept_update)

lemma send_body_kept: "send_body st cid rid w db = Inr (u, db') \<Longrightarrow> rows_kept (rd_coverage db) (rd_coverage db')"
  by (auto simp: send_body_def row_kept_def split: if_splits elim!: update_coverage_kept)

text \<open>The operations that start a request under the given identifier.\<close>

fun begins :: "string \<Rightarrow> string \<Rightarrow> accounting_op \<Rightarrow> bool" where
  "begins key cid (Guard_op (S_begin st c session owner window now mo)) \<longleftrightarrow> sc_ledger_key st = key \<and> c = cid"
| "begins key cid _ \<longleftrightarrow> False"

lemma begin_body_coverage:
  assumes "begin_body st c session owner window now db = Inr (r, db')"
  shows "set (rd_coverage db') \<subseteq> insert (coverage_of st c session owner now) (set (rd_coverage db))" "r = c"
    "c' \<in> set (rd_coverage db') \<Longrightarrow> cov_id c' = c \<Longrightarrow> c' = coverage_of st c session owner now"
  using assms by (auto simp: begin_body_def ebind_eq_Inr dest!: bind_basis_rows maintain_history_coverage)

lemma coverage_of_simps [simp]:
  "cov_id (coverage_of st c session owner now) = c" "cov_ledger_key (coverage_of st c session owner now) = sc_ledger_key st"
  "cov_attempts (coverage_of st c session owner now) = 0" "cov_state (coverage_of st c session owner now) = Cov_preflight"
  by (simp_all add: coverage_of_def)

lemma kept_transact:
  "(\<And>r db'. body db = Inr (r, db') \<Longrightarrow> rows_kept (rd_coverage db) (rd_coverage db')) \<Longrightarrow> rows_kept (rd_coverage db) (rd_coverage (snd (transact body db)))"
  using transact_cases[of body db] by fastforce

lemma store_step_kept:
  assumes "\<And>st c session owner window now mo. op \<noteq> S_begin st c session owner window now mo"
  shows "rows_kept (rd_coverage db) (rd_coverage (store_step op db))"
proof (cases op)
  case (S_reserve env st a rid now mo)
  then show ?thesis
    using fst_snd_reserve[of env st a rid now db mo] kept_transact[OF rows_kept_subset[OF reserve_body_coverage]] by fastforce
next
  case (S_settle st ref p now mo)
  then show ?thesis by (auto simp: settle_after_commit_def split: sum.splits intro: kept_transact settle_body_kept)
next
  case (S_release st ref now)
  then show ?thesis by (auto simp: release_unsent_def intro!: kept_transact dest!: release_body_coverage)
next
  case (S_send st cid ref w)
  then show ?thesis by (auto simp: attempted_send_def split: option.splits intro: kept_transact send_body_kept)
next
  case (S_workload st cid raw)
  then show ?thesis by (auto simp: record_workload_def row_kept_def intro!: kept_transact elim!: update_coverage_kept)
next
  case (S_tokens st cid raw)
  then show ?thesis by (auto simp: record_tokens_def row_kept_def intro!: kept_transact elim!: update_coverage_kept)
next
  case (S_finish st cid now)
  then show ?thesis by (auto simp: finish_request_def row_kept_def intro!: kept_transact elim!: update_coverage_kept split: if_splits)
qed (use assms in blast)

lemma covered_begin:
  assumes "covered key cid n db" "\<not> (sc_ledger_key st = key \<and> c = cid)"
  shows "covered key cid n (fst (snd (begin_request st c session owner window now (db, mo))))"
proof -
  let ?db = "snd (transact (begin_body st c session owner window now) db)"
  have "covered key cid n ?db"
    using transact_cases[of "begin_body st c session owner window now" db]
  proof
    assume "\<exists>r. begin_body st c session owner window now db = Inr (r, ?db)"
    then obtain r where "begin_body st c session owner window now db = Inr (r, ?db)" by blast
    from begin_body_coverage(1)[OF this] show ?thesis using assms by (fastforce simp: covered_def)
  qed (simp add: assms)
  with fst_snd_begin[of st c session owner window now db mo] assms(1) show ?thesis by auto
qed

lemma covered_step:
  assumes "covered key cid n db" "\<not> begins key cid op"
  shows "covered key cid n (accounting_step op db)"
proof (cases "\<exists>st c session owner window now mo. op = Guard_op (S_begin st c session owner window now mo)")
  case True
  then show ?thesis using assms covered_begin by auto
next
  case False
  have "rows_kept (rd_coverage db) (rd_coverage (accounting_step op db))"
  proof (cases op)
    case (Guard_op sop)
    then show ?thesis using False store_step_kept[of sop] by auto
  next
    case (Token_settle env st ref now ledger)
    then show ?thesis by (auto simp: settle_tokens_def intro: kept_transact settle_tokens_body_kept)
  qed
  then show ?thesis using assms(1) by (rule covered_kept)
qed

section \<open>Runs of one request\<close>

text \<open>The methods of the object, and what others do to the store and to the ledger between them.\<close>

datatype request_op =
    Q_directive json_codec string
  | Q_admit admission_env string string string headers string secs
  | Q_credential string string
  | Q_send native_env "(string, string) dict" "string option" "string option" headers
  | Q_response native_env string bool bool int
  | Q_price native_env "string \<Rightarrow> secs option" "catalog option" string cost_observation string
  | Q_finish secs
  | Q_other accounting_op monitor_state

fun request_step :: "request_op \<Rightarrow> accounting \<times> books \<Rightarrow> accounting \<times> books" where
  "request_step (Q_directive jc body) (ac, s) = (snd (observe_directive jc body ac), s)"
| "request_step (Q_admit env body model request_id hs rid now) (ac, s) = snd (admit env body model request_id hs rid now ac s)"
| "request_step (Q_credential platform kind) (ac, s) = (record_credential_kind platform kind ac, s)"
| "request_step (Q_send env vars body url hs) (ac, db, mo) =
     (case snd (before_send env vars body url hs ac db) of (ac', db') \<Rightarrow> (ac', db', mo))"
| "request_step (Q_response env raw streaming ended status) (ac, db, mo) =
     (case record_response env raw streaming ended status ac db of (ac', db') \<Rightarrow> (ac', db', mo))"
| "request_step (Q_price env pt cat now obs model) (ac, s) = (snd (price_usage env pt cat now obs model ac), s)"
| "request_step (Q_finish now) (ac, db, mo) = (case finish now ac db of (ac', db') \<Rightarrow> (ac', db', mo))"
| "request_step (Q_other op mo') (ac, db, mo) = (ac, accounting_step op db, mo')"

fun restarts :: "string \<Rightarrow> string \<Rightarrow> request_op \<Rightarrow> bool" where
  "restarts key cid (Q_other op mo) = begins key cid op"
| "restarts key cid _ = False"

definition on_record :: "store_config \<Rightarrow> string \<Rightarrow> string \<Rightarrow> accounting \<times> books \<Rightarrow> bool" where
  "on_record st cid basis_name x \<longleftrightarrow>
     (case x of (ac, db, mo) \<Rightarrow>
        ac_store ac = Some st \<and> ac_coverage_id ac = cid \<and> cfg_accounting_basis (ac_config ac) = basis_name \<and>
        covered (sc_ledger_key st) cid (ac_attempts ac) db \<and> (basis_name = ''provider_tokens'' \<longrightarrow> ac_attempts ac \<le> 1))"

lemma snd_reserve_covered:
  "covered key cid n (fst s) \<Longrightarrow> covered key cid n (fst (snd (reserve env st a rid now s)))"
  using covered_step[of key cid n "fst s" "Guard_op (S_reserve env st a rid now (snd s))"] by simp

lemma hold_projection_keeps:
  assumes "hold_projection env st request_id rid now pj ac s = (r, ac', s')"
  shows "\<exists>ref. ac' = ac\<lparr>ac_ref := ref\<rparr>" "covered key cid n (fst s) \<Longrightarrow> covered key cid n (fst s')"
proof -
  obtain rr s1 where h: "reserve (ad_ledger env) st (reserve_args_of ac request_id pj) rid now s = (rr, s1)"
    using prod.exhaust by blast
  then have c: "covered key cid n (fst s) \<Longrightarrow> covered key cid n (fst s1)"
    using snd_reserve_covered[of key cid n s "ad_ledger env" st "reserve_args_of ac request_id pj" rid now] by simp
  have "ac = ac\<lparr>ac_ref := ac_ref ac\<rparr>" by simp
  then have self: "\<exists>ref. ac = ac\<lparr>ac_ref := ref\<rparr>" by (rule exI)
  have "ac' = ac \<or> (\<exists>ref. ac' = ac\<lparr>ac_ref := ref\<rparr>)"
    using assms h by (cases rr) (auto simp: hold_projection_def split: prod.splits)
  then show "\<exists>ref. ac' = ac\<lparr>ac_ref := ref\<rparr>" using self by blast
  show "covered key cid n (fst s')" if "covered key cid n (fst s)"
    using assms h c[OF that] by (cases rr) (auto simp: hold_projection_def split: prod.splits)
qed

lemma admit_keeps:
  assumes "admit env body model request_id hs rid now ac s = (r, ac', s')"
  shows "\<exists>ref. ac' = ac\<lparr>ac_ref := ref\<rparr>" "covered key cid n (fst s) \<Longrightarrow> covered key cid n (fst s')"
proof -
  have self: "ac = ac\<lparr>ac_ref := ac_ref ac\<rparr>" by simp
  have "ac' = ac \<and> s' = s \<or> (\<exists>st pj. hold_projection env st request_id rid now pj ac s = (r, ac', s'))"
    using assms by (auto simp: admit_def admit_stage_def Let_def split: option.splits if_splits sum.splits)
  then consider (same) "ac' = ac" "s' = s" | (held) st pj where "hold_projection env st request_id rid now pj ac s = (r, ac', s')" by blast
  note both = this
  show "\<exists>ref. ac' = ac\<lparr>ac_ref := ref\<rparr>" using both self hold_projection_keeps(1) by cases metis+
  show "covered key cid n (fst s')" if "covered key cid n (fst s)" using both that hold_projection_keeps(2) by cases metis+
qed

lemma covered_sent:
  assumes "covered key cid n db" "rd_coverage db' = snd (update_where (\<lambda>c. cov_id c = cid \<and> cov_ledger_key c = key) f (rd_coverage db))"
    "\<And>c. cov_attempts (f c) = cov_attempts c + 1" "\<And>c. cov_state (f c) = Cov_sending"
  shows "covered key cid (n + 1) db'"
  unfolding covered_def
proof (intro ballI impI)
  fix c assume c: "c \<in> set (rd_coverage db')" "cov_ledger_key c = key \<and> cov_id c = cid"
  then obtain c0 where c0: "c0 \<in> set (rd_coverage db)" "c = (if cov_id c0 = cid \<and> cov_ledger_key c0 = key then f c0 else c0)"
    unfolding assms(2) update_where_def by auto
  with c(2) have m: "cov_id c0 = cid \<and> cov_ledger_key c0 = key" "c = f c0" by (auto split: if_splits)
  with assms(1) c0(1) have "n \<le> cov_attempts c0" by (auto simp: covered_def)
  then show "n + 1 \<le> cov_attempts c \<and> (cov_state c = Cov_unsent \<longrightarrow> cov_attempts c = 0)" unfolding m(2) assms(3,4) by simp
qed

lemma store_send_ok:
  assumes "store_send env st cid ref w db = (r, db')" "covered (sc_ledger_key st) cid n db"
  shows "covered (sc_ledger_key st) cid (n + (if r = Inr () then 1 else 0)) db'"
proof -
  have step: "covered (sc_ledger_key st) cid n (snd (attempted_send st cid ref (Some raw) db))" for raw
    using covered_step[OF assms(2), of "Guard_op (S_send st cid ref (Some raw))"] by simp
  show ?thesis
  proof (cases "r = Inr ()")
    case True
    then obtain raw where "attempted_send st cid ref (Some raw) db = (Inr (), db')"
      using assms(1) by (auto simp: store_send_def split: if_splits sum.splits)
    then obtain rid where "transact (send_body st cid rid (Some raw)) db = (Inr (), db')"
      by (auto simp: attempted_send_def split: if_splits option.splits)
    then have "send_body st cid rid (Some raw) db = Inr ((), db')" by (auto simp: transact_def split: sum.splits)
    then have "rd_coverage db' = snd (update_where (\<lambda>c. cov_id c = cid \<and> cov_ledger_key c = sc_ledger_key st)
        (\<lambda>c. c\<lparr>cov_attempts := cov_attempts c + 1, cov_reservation_id := rid, cov_state := Cov_sending, cov_workload := Some raw\<rparr>) (rd_coverage db))"
      by (auto simp: send_body_def update_coverage_def split: if_splits prod.splits)
    then have "covered (sc_ledger_key st) cid (n + 1) db'" by (rule covered_sent[OF assms(2)]) simp_all
    then show ?thesis using True by simp
  next
    case False
    then show ?thesis
      using assms step by (auto simp: store_send_def split: if_splits sum.splits) (metis snd_conv)
  qed
qed

lemma store_tokens_covered: "covered key cid n db \<Longrightarrow> covered key cid n (snd (store_tokens env st c t db))"
  using covered_step[of key cid n db "Guard_op (S_tokens st c raw)" for raw] by (auto simp: store_tokens_def split: sum.splits)

lemma store_workload_covered: "covered key cid n db \<Longrightarrow> covered key cid n (snd (store_workload env st c w db))"
  using covered_step[of key cid n db "Guard_op (S_workload st c raw)" for raw] by (auto simp: store_workload_def split: sum.splits)

lemma covered_mono: "covered key cid n db \<Longrightarrow> m \<le> n \<Longrightarrow> covered key cid m db"
  by (fastforce simp: covered_def)

lemma token_send_check_keeps:
  assumes "token_send_check env body url hs ac = (r, ac')"
  shows "ac_store ac' = ac_store ac" "ac_coverage_id ac' = ac_coverage_id ac" "ac_config ac' = ac_config ac" "ac_attempts ac' = ac_attempts ac"
    "on_tokens ac \<Longrightarrow> r = Inr () \<Longrightarrow> ac_attempts ac = 0"
  using assms by (auto simp: token_send_check_def Let_def unavailable_def split: if_splits sum.splits)

lemma counted_send_keeps:
  assumes "counted_send env st w ac db = (r, ac', db')" "covered (sc_ledger_key st) (ac_coverage_id ac) (ac_attempts ac) db"
  shows "ac_store ac' = ac_store ac" "ac_coverage_id ac' = ac_coverage_id ac" "ac_config ac' = ac_config ac"
    "ac_attempts ac' \<le> ac_attempts ac + 1" "covered (sc_ledger_key st) (ac_coverage_id ac) (ac_attempts ac') db'"
proof -
  obtain r1 db1 where s: "store_send env st (ac_coverage_id ac) (ac_ref ac) w db = (r1, db1)" using prod.exhaust by blast
  note c = store_send_ok[OF s assms(2)]
  define tk where "tk = (case ac_tokens ac of None \<Rightarrow> (Inr (), db1) | Some t \<Rightarrow> store_tokens env st (ac_coverage_id ac) t db1)"
  obtain r2 db2 where t: "tk = (r2, db2)" using prod.exhaust by blast
  have c2: "covered (sc_ledger_key st) (ac_coverage_id ac) n db2" if "covered (sc_ledger_key st) (ac_coverage_id ac) n db1" for n
    using store_tokens_covered[OF that, of env st "ac_coverage_id ac"] t that by (auto simp: tk_def split: option.splits) (metis snd_conv)
  have e: "counted_send env st w ac db = (case r1 of Inl e \<Rightarrow> (Inl e, ac, db1) | Inr _ \<Rightarrow>
      (case r2 of Inl e \<Rightarrow> (Inl e, ac, db2) | Inr _ \<Rightarrow> (Inr (), ac\<lparr>ac_attempts := ac_attempts ac + 1\<rparr>, db2)))"
    using t[unfolded tk_def] by (cases r1; cases r2) (simp_all add: counted_send_def s)
  consider (unsent) x where "r1 = Inl x" "ac' = ac" "db' = db1" | (failed) x where "r1 = Inr ()" "r2 = Inl x" "ac' = ac" "db' = db2"
    | (sent) "r1 = Inr ()" "ac' = ac\<lparr>ac_attempts := ac_attempts ac + 1\<rparr>" "db' = db2"
    using assms(1) unfolding e by (auto split: sum.splits)
  note three = this
  have "ac' = ac \<or> ac' = ac\<lparr>ac_attempts := ac_attempts ac + 1\<rparr>" using three by blast
  then show "ac_store ac' = ac_store ac" "ac_coverage_id ac' = ac_coverage_id ac" "ac_config ac' = ac_config ac" "ac_attempts ac' \<le> ac_attempts ac + 1"
    by (elim disjE; simp)+
  show "covered (sc_ledger_key st) (ac_coverage_id ac) (ac_attempts ac') db'"
    using three
  proof cases
    case unsent
    then show ?thesis using c by simp
  next
    case failed
    then show ?thesis using c c2 covered_mono by simp
  next
    case sent
    then show ?thesis using c c2 by simp
  qed
qed

lemma before_send_keeps:
  assumes "before_send env vars body url hs ac db = (r, ac', db')" "on_record st cid b (ac, db, mo)"
  shows "on_record st cid b (ac', db', mo')"
proof -
  have i: "ac_store ac = Some st" "ac_coverage_id ac = cid" "cfg_accounting_basis (ac_config ac) = b"
    "covered (sc_ledger_key st) cid (ac_attempts ac) db" "b = ''provider_tokens'' \<longrightarrow> ac_attempts ac \<le> 1"
    using assms(2) by (simp_all add: on_record_def)
  consider (early) p w where "ac' = ac\<lparr>ac_price := p, ac_workload := w\<rparr>" "db' = db"
    | (checked) w r1 ac1 where "token_send_check env body url hs (ac\<lparr>ac_price := None, ac_workload := Some w\<rparr>) = (r1, ac1)"
        "(\<exists>x. r1 = Inl x) \<and> ac' = ac1 \<and> db' = db \<or> r1 = Inr () \<and> counted_send env st w ac1 db = (r, ac', db')"
  proof (cases "check_environment vars (ac_serving_basis ac)")
    case (Inl e)
    then have "ac' = ac\<lparr>ac_price := ac_price ac, ac_workload := ac_workload ac\<rparr>" "db' = db" using assms(1) by (simp_all add: before_send_def)
    then show thesis by (rule early)
  next
    case (Inr u)
    show thesis
    proof (cases "observe_workload env body url hs")
      case (Inl e)
      then have "ac' = ac\<lparr>ac_price := None, ac_workload := ac_workload ac\<rparr>" "db' = db" using assms(1) Inr i(1) by (auto simp: before_send_def Let_def)
      then show thesis by (rule early)
    next
      case w: (Inr w)
      obtain r1 ac1 where t: "token_send_check env body url hs (ac\<lparr>ac_price := None, ac_workload := Some w\<rparr>) = (r1, ac1)" using prod.exhaust by blast
      then have "(\<exists>x. r1 = Inl x) \<and> ac' = ac1 \<and> db' = db \<or> r1 = Inr () \<and> counted_send env st w ac1 db = (r, ac', db')"
        using assms(1) Inr i(1) w by (cases r1) (auto simp: before_send_def Let_def)
      with t show thesis by (rule checked)
    qed
  qed
  then show ?thesis
  proof cases
    case (early p w)
    then show ?thesis using i by (simp add: on_record_def)
  next
    case (checked w r1 ac1)
    note k = token_send_check_keeps[OF checked(1)]
    have i1: "ac_store ac1 = Some st" "ac_coverage_id ac1 = cid" "cfg_accounting_basis (ac_config ac1) = b" "ac_attempts ac1 = ac_attempts ac"
      using k(1-4) i by simp_all
    show ?thesis
    proof (cases "\<exists>x. r1 = Inl x")
      case True
      then have "ac' = ac1" "db' = db" using checked(2) by auto
      then show ?thesis using i i1 by (simp add: on_record_def)
    next
      case False
      then have r1: "r1 = Inr ()" and s: "counted_send env st w ac1 db = (r, ac', db')" using checked(2) by auto
      note c = counted_send_keeps[OF s, unfolded i1, OF i(4)]
      have "b = ''provider_tokens'' \<Longrightarrow> ac_attempts ac = 0" using k(5) r1 i(3) by (simp add: on_tokens_def)
      then show ?thesis using c i1 by (auto simp: on_record_def)
    qed
  qed
qed

lemma record_token_response_keeps:
  assumes "on_record st cid b (ac, db, mo)" "record_token_response env st raw streaming ended status ac db = (ac', db')"
  shows "on_record st cid b (ac', db', mo')"
proof -
  have i: "ac_store ac = Some st" "ac_coverage_id ac = cid" "cfg_accounting_basis (ac_config ac) = b"
    "covered (sc_ledger_key st) cid (ac_attempts ac) db" "b = ''provider_tokens'' \<longrightarrow> ac_attempts ac \<le> 1"
    using assms(1) by (simp_all add: on_record_def)
  have "(\<exists>t. ac' = ac \<or> ac' = ac\<lparr>ac_tokens := t\<rparr>) \<and> covered (sc_ledger_key st) cid (ac_attempts ac) db'"
  proof (cases "\<exists>t t'. ac_tokens ac = Some t \<and> observe_tokens_response env t raw streaming ended status = Inr t'")
    case True
    then obtain t t' where t: "ac_tokens ac = Some t" "observe_tokens_response env t raw streaming ended status = Inr t'" by blast
    obtain r1 db1 where s: "store_tokens env st cid t' db = (r1, db1)" using prod.exhaust by blast
    show ?thesis
      using assms(2) t s store_tokens_covered[OF i(4), of env st cid t'] by (cases r1) (auto simp: record_token_response_def i(2))
  next
    case False
    then have "ac' = ac \<and> db' = db" using assms(2) by (auto simp: record_token_response_def split: option.splits sum.splits)
    then show ?thesis using i(4) by blast
  qed
  then show ?thesis using i by (auto simp: on_record_def)
qed

lemma record_response_keeps:
  assumes "record_response env raw streaming ended status ac db = (ac', db')" "on_record st cid b (ac, db, mo)"
  shows "on_record st cid b (ac', db', mo')"
proof -
  have i: "ac_store ac = Some st" "ac_coverage_id ac = cid" "cfg_accounting_basis (ac_config ac) = b"
    "covered (sc_ledger_key st) cid (ac_attempts ac) db" "b = ''provider_tokens'' \<longrightarrow> ac_attempts ac \<le> 1"
    using assms(2) by (simp_all add: on_record_def)
  show ?thesis
  proof (cases "\<exists>w w'. ac_workload ac = Some w \<and> observe_workload_response env w raw streaming ended status = Inr w'")
    case True
    then obtain w w' where w: "ac_workload ac = Some w" "observe_workload_response env w raw streaming ended status = Inr w'" by blast
    obtain r1 db1 where s: "store_workload env st cid w' db = (r1, db1)" using prod.exhaust by blast
    have c: "covered (sc_ledger_key st) cid (ac_attempts ac) db1" using store_workload_covered[OF i(4), of env st cid w'] s by simp
    show ?thesis
    proof (cases r1)
      case (Inl e)
      then have "ac' = ac" "db' = db1" using assms(1) i(1,2) w s by (auto simp: record_response_def)
      then show ?thesis using i c by (simp add: on_record_def)
    next
      case (Inr u)
      then have "record_token_response env st raw streaming ended status (ac\<lparr>ac_workload := Some w'\<rparr>) db1 = (ac', db')"
        using assms(1) i(1,2) w s by (simp add: record_response_def)
      moreover have "on_record st cid b (ac\<lparr>ac_workload := Some w'\<rparr>, db1, mo)" using i c by (simp add: on_record_def)
      ultimately show ?thesis using record_token_response_keeps by blast
    qed
  next
    case False
    then have "ac' = ac \<and> db' = db" using assms(1) i(1) by (auto simp: record_response_def split: option.splits sum.splits)
    then show ?thesis using i by (simp add: on_record_def)
  qed
qed

lemma finish_keeps:
  assumes "finish now ac db = (ac', db')" "on_record st cid b (ac, db, mo)"
  shows "on_record st cid b (ac', db', mo')"
proof -
  have i: "ac_store ac = Some st" "ac_coverage_id ac = cid" "cfg_accounting_basis (ac_config ac) = b"
    "covered (sc_ledger_key st) cid (ac_attempts ac) db" "b = ''provider_tokens'' \<longrightarrow> ac_attempts ac \<le> 1"
    using assms(2) by (simp_all add: on_record_def)
  define rel where "rel = (case ac_ref ac of
      Some ref \<Rightarrow> if ac_attempts ac = 0 then release_unsent st ref now db else (Inr False, db) | None \<Rightarrow> (Inr False, db))"
  obtain r1 db1 where r: "rel = (r1, db1)" using prod.exhaust by blast
  have c1: "covered (sc_ledger_key st) cid (ac_attempts ac) db1"
    using r i(4) covered_step[OF i(4), of "Guard_op (S_release st ref now)" for ref]
    by (auto simp: rel_def split: option.splits if_splits) (metis snd_conv)
  have c2: "covered (sc_ledger_key st) cid (ac_attempts ac) (snd (finish_request st cid now db1))"
    using covered_step[OF c1, of "Guard_op (S_finish st cid now)"] by simp
  have "(ac' = ac \<or> ac' = ac\<lparr>ac_finished := True\<rparr>) \<and> (db' = db \<or> db' = db1 \<or> db' = snd (finish_request st cid now db1))"
    using assms(1) i(1,2) r[unfolded rel_def] by (auto simp: finish_def split: if_splits sum.splits prod.splits)
  then have "covered (sc_ledger_key st) cid (ac_attempts ac) db'" "ac' = ac \<or> ac' = ac\<lparr>ac_finished := True\<rparr>" using i(4) c1 c2 by auto
  then show ?thesis using i by (auto simp: on_record_def)
qed

lemma request_step_keeps:
  assumes "on_record st cid b x" "\<not> restarts (sc_ledger_key st) cid op"
  shows "on_record st cid b (request_step op x)"
proof -
  obtain ac db mo where x: "x = (ac, db, mo)" using prod.exhaust by metis
  show ?thesis
  proof (cases op)
    case (Q_directive jc body)
    then show ?thesis using assms(1) x by (auto simp: on_record_def observe_directive_def split: option.splits)
  next
    case (Q_admit env body model request_id hs rid now)
    obtain r ac' s' where a: "admit env body model request_id hs rid now ac (db, mo) = (r, ac', s')" using prod.exhaust by metis
    from admit_keeps(1)[OF a] obtain ref where "ac' = ac\<lparr>ac_ref := ref\<rparr>" by blast
    then show ?thesis using Q_admit assms(1) x a admit_keeps(2)[OF a, of "sc_ledger_key st" cid] by (auto simp: on_record_def split: prod.splits)
  next
    case (Q_credential platform kind)
    then show ?thesis using assms(1) x by (auto simp: on_record_def record_credential_kind_def)
  next
    case (Q_send env vars body url hs)
    obtain r ac' db' where "before_send env vars body url hs ac db = (r, ac', db')" using prod.exhaust by metis
    then show ?thesis using Q_send x before_send_keeps assms(1) by simp
  next
    case (Q_response env raw streaming ended status)
    obtain ac' db' where "record_response env raw streaming ended status ac db = (ac', db')" using prod.exhaust by metis
    then show ?thesis using Q_response x record_response_keeps assms(1) by simp
  next
    case (Q_price env pt cat now obs model)
    have "\<exists>p. snd (price_usage env pt cat now obs model ac) = ac\<lparr>ac_price := p\<rparr>"
      unfolding price_usage_def Let_def by (auto split: option.splits sum.splits)
    then show ?thesis using Q_price assms(1) x by (auto simp: on_record_def)
  next
    case (Q_finish now)
    obtain ac' db' where "finish now ac db = (ac', db')" using prod.exhaust by metis
    then show ?thesis using Q_finish x finish_keeps assms(1) by simp
  next
    case (Q_other aop mo')
    then show ?thesis using assms x covered_step by (auto simp: on_record_def)
  qed
qed

lemma request_run_keeps:
  assumes "on_record st cid b x" "\<forall>op \<in> set ops. \<not> restarts (sc_ledger_key st) cid op"
  shows "on_record st cid b (fold request_step ops x)"
  using assms by (induction ops arbitrary: x) (auto simp: request_step_keeps)

lemma started_on_record:
  assumes "RequestAccounting vars effective absent owner open_store cid now hs s = (Inr ac, s')" "ac_store ac = Some st"
  shows "on_record st (ac_coverage_id ac) (cfg_accounting_basis (ac_config ac)) (ac, s')"
proof -
  obtain cfg st' where
    "(case begin_request st' cid (resolve_session_id hs []) (ow_snapshot_owner_id owner) (cfg_rolling_caps_window_seconds cfg) now s of
           (Inl e, s') \<Rightarrow> (Inl e, s')
         | (Inr c, s') \<Rightarrow> (Inr ((fresh_accounting (ow_serving_basis owner) cfg hs)\<lparr>ac_store := Some st',
              ac_owner_id := ow_snapshot_owner_id owner, ac_coverage_id := c\<rparr>), s')) = (Inr ac, s')"
    using assms unfolding RequestAccounting_def Let_def
    by (auto simp: fresh_accounting_def unavailable_def split: sum.splits if_splits)
  then obtain c where b: "begin_request st cid (resolve_session_id hs []) (ow_snapshot_owner_id owner) (cfg_rolling_caps_window_seconds cfg) now s = (Inr c, s')"
    and ac: "ac = (fresh_accounting (ow_serving_basis owner) cfg hs)\<lparr>ac_store := Some st, ac_owner_id := ow_snapshot_owner_id owner, ac_coverage_id := c\<rparr>"
    using assms(2) by (auto split: sum.splits prod.splits)
  obtain db mo where s': "s' = (db, mo)" using prod.exhaust by blast
  have "begin_body st cid (resolve_session_id hs []) (ow_snapshot_owner_id owner) (cfg_rolling_caps_window_seconds cfg) now (fst s) = Inr (c, db)"
    using b s' by (auto simp: begin_request_def transact_def split: sum.splits prod.splits)
  note new = begin_body_coverage(2,3)[OF this]
  have "cov_attempts x = 0" if "x \<in> set (rd_coverage db)" "cov_id x = c" for x
    using new(2)[OF that(1)] that(2) new(1) by simp
  then have "covered (sc_ledger_key st) c 0 db" by (simp add: covered_def)
  then show ?thesis by (simp add: on_record_def ac s' fresh_accounting_def)
qed

lemma finish_result:
  assumes "ac_store ac = Some st" "\<not> ac_finished ac" "finish now ac db = (ac', db')"
  shows "0 < ac_attempts ac \<Longrightarrow> rd_reservations db' = rd_reservations db"
    "ac_finished ac' \<Longrightarrow> \<exists>c \<in> set (rd_coverage db'). cov_ledger_key c = sc_ledger_key st \<and> cov_id c = ac_coverage_id ac \<and> cov_ended_at c = Some now"
    "ac_finished ac' \<Longrightarrow> ac_attempts ac = 0 \<Longrightarrow> ac_ref ac = Some ref \<Longrightarrow> r \<in> set (rd_reservations db') \<Longrightarrow>
       rv_id r = ref_reservation_id ref \<Longrightarrow> rv_ledger_key r = sc_ledger_key st \<Longrightarrow> rv_status r \<noteq> Rv_active"
proof -
  define rel where "rel = (case ac_ref ac of
      Some ref \<Rightarrow> if ac_attempts ac = 0 then release_unsent st ref now db else (Inr False, db) | None \<Rightarrow> (Inr False, db))"
  obtain r1 db1 where r: "rel = (r1, db1)" using prod.exhaust by blast
  define fin where "fin = finish_request st (ac_coverage_id ac) now db1"
  obtain r2 db2 where f: "fin = (r2, db2)" using prod.exhaust by blast
  have e: "finish now ac db = (case r1 of Inl e \<Rightarrow> (ac, db1) | Inr _ \<Rightarrow> (case r2 of Inl e \<Rightarrow> (ac, db2) | Inr _ \<Rightarrow> (ac\<lparr>ac_finished := True\<rparr>, db2)))"
    using assms(1,2) r[unfolded rel_def] f[unfolded fin_def] by (cases r1; cases r2) (simp_all add: finish_def)
  have res: "rd_reservations db2 = rd_reservations db1"
    using f by (auto simp: fin_def finish_request_def transact_def update_coverage_def split: sum.splits prod.splits if_splits)
  show "rd_reservations db' = rd_reservations db" if "0 < ac_attempts ac"
  proof -
    have "db1 = db" using r that by (auto simp: rel_def split: option.splits)
    then show ?thesis using e assms(3) res by (auto split: sum.splits)
  qed
  assume fi: "ac_finished ac'"
  then have ok: "\<exists>x. r1 = Inr x" "r2 = Inr ()" "db' = db2" using e assms(2,3) by (auto split: sum.splits)
  then have u: "update_coverage st (ac_coverage_id ac) (\<lambda>c. c\<lparr>cov_ended_at := Some now,
        cov_state := (if cov_attempts c = 0 then Cov_unsent else if cov_state c = Cov_recorded then Cov_recorded else Cov_awaiting_usage)\<rparr>) db1 = Inr ((), db2)"
    using f by (auto simp: fin_def finish_request_def transact_def split: sum.splits)
  show "\<exists>c \<in> set (rd_coverage db'). cov_ledger_key c = sc_ledger_key st \<and> cov_id c = ac_coverage_id ac \<and> cov_ended_at c = Some now"
  proof -
    have "length (filter (\<lambda>c. cov_id c = ac_coverage_id ac \<and> cov_ledger_key c = sc_ledger_key st) (rd_coverage db1)) = 1"
      using u by (auto simp: update_coverage_def update_where_def split: if_splits)
    then obtain c where c: "c \<in> set (rd_coverage db1)" "cov_id c = ac_coverage_id ac" "cov_ledger_key c = sc_ledger_key st"
      by (metis (mono_tags, lifting) filter_False length_0_conv zero_neq_one)
    then have "\<exists>f. f c \<in> set (rd_coverage db2) \<and> cov_ledger_key (f c) = cov_ledger_key c \<and> cov_id (f c) = cov_id c \<and> cov_ended_at (f c) = Some now"
      using u by (intro exI[of _ "\<lambda>c. c\<lparr>cov_ended_at := Some now,
        cov_state := (if cov_attempts c = 0 then Cov_unsent else if cov_state c = Cov_recorded then Cov_recorded else Cov_awaiting_usage)\<rparr>"])
        (auto simp: update_coverage_def update_where_def image_iff split: if_splits intro!: bexI[of _ c])
    then show ?thesis using c ok(3) by auto
  qed
  assume z: "ac_attempts ac = 0" "ac_ref ac = Some ref" and row: "r \<in> set (rd_reservations db')" "rv_id r = ref_reservation_id ref" "rv_ledger_key r = sc_ledger_key st"
  have "release_unsent st ref now db = (r1, db1)" using r z by (simp add: rel_def)
  then obtain won where "release_body st ref now db = Inr (won, db1)"
    using ok(1) by (auto simp: release_unsent_def transact_def split: if_splits sum.splits)
  then have "\<forall>r \<in> set (rd_reservations db1). \<not> (rv_id r = ref_reservation_id ref \<and> rv_ledger_key r = sc_ledger_key st \<and> rv_status r = Rv_active)"
    by (auto simp: release_body_def ebind_eq_Inr update_where_def filter_empty_conv split: if_splits)
  then show "rv_status r \<noteq> Rv_active" using row ok(3) res by auto
qed

text \<open>
  C11.  Every send of a request stays on record.  However the methods of a request are called and
  whatever other requests and processes do to the store in between, once the request is finished its row in the guard
  database is closed, counts at least the sends that were made, and is not marked as unsent if there was one; with a send
  the reservation is left to settlement or expiry, without one it is no longer active; and on the
  token basis there was at most one send.
\<close>

theorem sends_stay_on_record:
  assumes "RequestAccounting vars effective absent owner open_store cid t0 hs s0 = (Inr ac0, s1)" "ac_store ac0 = Some st"
    "\<forall>op \<in> set ops. \<not> restarts (sc_ledger_key st) (ac_coverage_id ac0) op"
    "fold request_step ops (ac0, s1) = (ac, db, mo)" "\<not> ac_finished ac" "finish now ac db = (ac', db')" "ac_finished ac'"
  shows "(on_tokens ac \<longrightarrow> ac_attempts ac \<le> 1) \<and>
    (\<exists>c \<in> set (rd_coverage db'). cov_ledger_key c = sc_ledger_key st \<and> cov_id c = ac_coverage_id ac0 \<and> cov_ended_at c = Some now \<and>
       ac_attempts ac \<le> cov_attempts c \<and> (0 < ac_attempts ac \<longrightarrow> cov_state c \<noteq> Cov_unsent)) \<and>
    (if 0 < ac_attempts ac then rd_reservations db' = rd_reservations db
     else \<forall>ref r. ac_ref ac = Some ref \<and> r \<in> set (rd_reservations db') \<and> rv_id r = ref_reservation_id ref \<and> rv_ledger_key r = sc_ledger_key st \<longrightarrow>
            rv_status r \<noteq> Rv_active)"
proof -
  have run: "on_record st (ac_coverage_id ac0) (cfg_accounting_basis (ac_config ac0)) (ac, db, mo)"
    using request_run_keeps[OF started_on_record[OF assms(1,2)] assms(3)] assms(4) by simp
  have i: "ac_store ac = Some st" "ac_coverage_id ac = ac_coverage_id ac0" "on_tokens ac \<Longrightarrow> ac_attempts ac \<le> 1"
    using run by (auto simp: on_record_def on_tokens_def)
  have "on_record st (ac_coverage_id ac0) (cfg_accounting_basis (ac_config ac0)) (ac', db', mo)" by (rule finish_keeps[OF assms(6) run])
  moreover have "ac_attempts ac' = ac_attempts ac" using assms(6) by (auto simp: finish_def split: option.splits if_splits sum.splits prod.splits)
  ultimately have c: "covered (sc_ledger_key st) (ac_coverage_id ac0) (ac_attempts ac) db'" by (simp add: on_record_def)
  note f = finish_result[OF i(1) assms(5,6)]
  obtain c where row: "c \<in> set (rd_coverage db')" "cov_ledger_key c = sc_ledger_key st" "cov_id c = ac_coverage_id ac0" "cov_ended_at c = Some now"
    using f(2)[OF assms(7)] i(2) by auto
  moreover have "ac_attempts ac \<le> cov_attempts c" "0 < ac_attempts ac \<longrightarrow> cov_state c \<noteq> Cov_unsent"
    using c row(1-3) by (auto simp: covered_def)
  ultimately show ?thesis using i(3) f(1) f(3)[OF assms(7)] by auto
qed

section \<open>The reservation covers the price\<close>

lemma top_rates_above:
  assumes "top_rates qs (i, out) = (ir, ors)"
  shows "i \<le> ir \<and> out \<le> ors \<and> (\<forall>(qi, qo, cw, cr) \<in> set qs. qi \<le> ir \<and> qo \<le> ors \<and> or_else cw 0 \<le> ir \<and> or_else cr 0 \<le> ir)"
  using assms
proof (induction qs arbitrary: i out)
  case (Cons q qs)
  obtain qi qo cw cr where q: "q = (qi, qo, cw, cr)" by (cases q)
  have "top_rates qs (max (max i qi) (max (or_else cw 0) (or_else cr 0)), max out qo) = (ir, ors)"
    using Cons.prems by (simp add: top_rates_def q)
  from Cons.IH[OF this] show ?case by (auto simp: q)
qed (simp add: top_rates_def)

lemma reservation_rates_above:
  assumes "reservation_rates rg model est = Inr (ir, ors)" "get_pricing rg model = Some info" "b \<in> set (mi_rate_bands info)"
  shows "rb_input_per_mtok b \<le> ir" "rb_output_per_mtok b \<le> ors" "or_else (rb_cache_write_per_mtok b) 0 \<le> ir" "or_else (rb_cache_read_per_mtok b) 0 \<le> ir"
proof -
  obtain i out where "top_rates (rate_quads info) (i, out) = (ir, ors)"
    using assms(1,2) by (auto simp: reservation_rates_def split: option.splits)
  from top_rates_above[OF this] assms(3)
  show "rb_input_per_mtok b \<le> ir" "rb_output_per_mtok b \<le> ors" "or_else (rb_cache_write_per_mtok b) 0 \<le> ir" "or_else (rb_cache_read_per_mtok b) 0 \<le> ir"
    by (auto simp: rate_quads_def)
qed

lemma band_cost_below:
  assumes "rw_input_tokens w = Some i" "rw_output_tokens w = Some out" "rw_cache_read_tokens w = Some cr" "rw_cache_write_tokens w = Some cw"
    "0 \<le> out" "0 \<le> cr" "0 \<le> cw" "cr + cw \<le> i" "RateBand pt b = Inr b" "exact_band b"
    "rb_input_per_mtok b \<le> ir" "rb_output_per_mtok b \<le> ors" "or_else (rb_cache_write_per_mtok b) 0 \<le> ir" "or_else (rb_cache_read_per_mtok b) 0 \<le> ir"
    "i \<le> ri" "out \<le> ro"
  shows "band_cost w b \<le> (of_int ri * ir + of_int ro * ors) / 1000000"
proof -
  obtain x y where r: "rb_cache_read_per_mtok b = Some x" "rb_cache_write_per_mtok b = Some y" using assms(10) by (auto simp: exact_band_def)
  have le: "x \<le> ir" "y \<le> ir" using assms(13,14) r by (simp_all add: or_else_def)
  have pos: "0 \<le> ir" "0 \<le> ors" using RateBand_rates(1,2)[OF assms(9)] assms(11,12) by simp_all
  have "of_int (i - cr - cw) * rb_input_per_mtok b \<le> of_int (i - cr - cw) * ir"
    using assms(8,11) by (intro mult_left_mono) simp_all
  moreover have "of_int cr * x \<le> of_int cr * ir" "of_int cw * y \<le> of_int cw * ir"
    using le assms(6,7) by (auto intro: mult_left_mono)
  moreover have "of_int out * rb_output_per_mtok b \<le> of_int out * ors" using assms(5,12) by (intro mult_left_mono) simp_all
  ultimately have "of_int (i - cr - cw) * rb_input_per_mtok b + of_int out * rb_output_per_mtok b + of_int cr * x + of_int cw * y
      \<le> of_int i * ir + of_int out * ors" by (simp add: algebra_simps)
  also have "\<dots> \<le> of_int ri * ir + of_int ro * ors"
    using assms(15,16) pos by (intro add_mono mult_right_mono) simp_all
  finally show ?thesis unfolding band_cost_def assms(1-4) option.sel r by (intro divide_right_mono) simp_all
qed

lemma admit_reserves:
  assumes "admit env body model request_id hs rid now ac (db, mo) = (Inr None, ac', db', mo')" "ac_store ac = Some st"
    "ac_ref ac = None" "ac_ref ac' = Some ref"
  obtains est pj where "project ac (ad_registry env) (jc_loads_bytes (es_codec (ad_estimator env)) body) model est = Inr pj"
    "ref_reservation_id ref = rid" "reservation_of st rid now (reserve_args_of ac request_id pj) \<in> set (rd_reservations db')"
proof -
  have ne: "ac' \<noteq> ac" using assms(3,4) by auto
  obtain est where a: "admit_stage env body model request_id rid now st est ac (db, mo) = (Inr None, ac', db', mo')"
    using assms(1,2) ne by (auto simp: admit_def unavailable_def split: if_splits sum.splits)
  then obtain pj where pj: "project ac (ad_registry env) (jc_loads_bytes (es_codec (ad_estimator env)) body) model est = Inr pj"
    and h: "hold_projection env st request_id rid now pj ac (db, mo) = (Inr None, ac', db', mo')"
    by (auto simp: admit_stage_def Let_def split: if_splits sum.splits)
  have "reserve (ad_ledger env) st (reserve_args_of ac request_id pj) rid now (db, mo) = (Inr (Some ref, None), db', mo')"
    using h assms(4) by (auto simp: hold_projection_def split: sum.splits prod.splits)
  then have "ref_reservation_id ref = rid" "reservation_of st rid now (reserve_args_of ac request_id pj) \<in> set (rd_reservations db')"
    by (auto elim!: reserve_okE simp: ReservationRef_def ebind_eq_Inr)
  with pj show thesis by (rule that)
qed

lemma projectE:
  assumes "project ac rg doc model est = Inr pj"
  obtains ir ors where "reservation_rates rg model est = Inr (ir, ors)"
    "pj_cost_usd pj = (of_int (pj_input_tokens pj) * ir + of_int (pj_output_tokens pj) * ors) / 1000000"
  using assms by (auto simp: project_def Let_def ebind_eq_Inr Projection_def split: prod.splits)

text \<open>
  C12.  The reservation covers the price.  If a request was admitted with a reservation and later priced with the
  catalog the admission used, then as long as it used no more input and output tokens than were reserved, its price
  is at most the reserved amount, whatever share of the input was cached and whichever of the known bands applied.
\<close>

theorem reservation_covers_price:
  assumes "admit env body model request_id hs rid now ac (db, mo) = (Inr None, ac', db', mo')" "ac_store ac = Some st"
    "ac_ref ac = None" "ac_ref ac' = Some ref"
    "ensure_loaded pt cat ModelRegistry = (r, ad_registry env)" "RequestWorkload w = Inr w" "rw_model w = Some model"
    "price_request nenv pt cat priced_at w = Inr p"
  shows "\<exists>row \<in> set (rd_reservations db'). rv_id row = ref_reservation_id ref \<and> rv_status row = Rv_active \<and>
    (the (rw_input_tokens w) \<le> rv_input_tokens row \<and> the (rw_output_tokens w) \<le> rv_output_tokens row \<longrightarrow> cost_usd p \<le> rv_cost_usd row)"
proof -
  let ?rg = "ad_registry env"
  obtain est pj where pj: "project ac ?rg (jc_loads_bytes (es_codec (ad_estimator env)) body) model est = Inr pj"
    and ref: "ref_reservation_id ref = rid" and row: "reservation_of st rid now (reserve_args_of ac request_id pj) \<in> set (rd_reservations db')"
    by (rule admit_reserves[OF assms(1-4)])
  obtain ir ors where rates: "reservation_rates ?rg model est = Inr (ir, ors)"
    and cost: "pj_cost_usd pj = (of_int (pj_input_tokens pj) * ir + of_int (pj_output_tokens pj) * ors) / 1000000"
    by (rule projectE[OF pj])
  obtain info t where e: "map_of (rg_models ?rg) model = Some info" "get_pricing ?rg model = Some info"
    and "Some (mi_provider info) = rw_provider w" "pt priced_at = Some t" "rp_workload p = w" and e': "rp_bands p \<noteq> []"
    and bs: "\<forall>b \<in> set (rp_bands p). check_price_band pt w t b = Inr ()"
    "\<forall>b \<in> set (rp_bands p). \<exists>ttl c. context_for w (Some ttl) = Inr c \<and> least_band (mi_rate_bands info) c b"
    "\<forall>b \<in> set (rp_bands p). band_cost w b = cost_usd p" and p: "RequestPrice nenv pt w (rp_bands p) priced_at = Inr p"
    by (rule price_requestD[OF assms(6,8,5), unfolded assms(7) option.sel])
  note b = bs[rule_format]
  have ok: "check_priced_workload nenv w = Inr ()" by (rule RequestPriceD[OF p]) blast
  obtain i out cr cw where n: "rw_input_tokens w = Some i" "rw_output_tokens w = Some out" "rw_cache_read_tokens w = Some cr"
    "rw_cache_write_tokens w = Some cw" "0 \<le> out" "0 \<le> cr" "0 \<le> cw" "cr + cw \<le> i"
    by (rule priced_workload[OF assms(6) ok]) blast
  define h where "h = hd (rp_bands p)"
  have h: "h \<in> set (rp_bands p)" using e' by (simp add: h_def)
  then have hb: "h \<in> set (mi_rate_bands info)" using b(2) by (auto simp: least_band_def)
  have valid: "RateBand pt h = Inr h"
    using hb fresh_registry(2)[OF assms(5)] map_of_SomeD[OF e(1)] by (auto simp: bands_valid_def)
  have "cost_usd p \<le> pj_cost_usd pj" if "i \<le> pj_input_tokens pj" "out \<le> pj_output_tokens pj"
    unfolding cost using band_cost_below[OF n valid check_price_bandD(1)[OF b(1)[OF h]] reservation_rates_above[OF rates e(2) hb] that] b(3)[OF h] by simp
  then show ?thesis using row ref n(1,2) by (intro bexI[OF _ row]) (simp add: reservation_of_def reserve_args_of_def)
qed

section \<open>Examples\<close>

definition small_workload :: workload where
  "small_workload = priced_workload_example\<lparr>rw_input_tokens := Some 10, rw_output_tokens := Some 5, rw_cache_read_tokens := Some 4,
     rw_cache_write_tokens := Some 2\<rparr>"

definition small_env :: native_env where
  "small_env = pricing_env\<lparr>ne_pairs := (\<lambda>s. Some (workload_to_dict small_workload))\<rparr>"

definition request_document :: json_fields where
  "request_document = [(''model'', J_str ''claude-x''), (''max_tokens'', J_int 50),
     (''messages'', J_list [J_obj [(''role'', J_str ''user''), (''content'', J_str (replicate 80 CHR ''x''))]])]"

definition request_codec :: json_codec where
  "request_codec = plain_codec\<lparr>jc_loads := (\<lambda>_. Some (J_obj request_document)), jc_loads_bytes := (\<lambda>_. Some (J_obj request_document))\<rparr>"

definition example_admission :: admission_env where
  "example_admission = \<lparr>ad_estimator = example_es\<lparr>es_codec := request_codec\<rparr>,
     ad_response = \<lparr>rs_codec = plain_codec, rs_format = \<lparr>nf_str = (\<lambda>_. []), nf_fixed2 = (\<lambda>_. []), nf_general4 = (\<lambda>_. [])\<rparr>\<rparr>,
     ad_ledger = example_env, ad_registry = example_registry\<rparr>"

definition example_config :: spend_guard_config where
  "example_config = SpendGuardConfig\<lparr>cfg_reservations_enabled := True, cfg_rolling_caps_enabled := False\<rparr>"

definition example_owner :: proxy_owner where
  "example_owner = \<lparr>ow_serving_basis = None, ow_snapshot_owner_id = ''w'', ow_has_monitor = True\<rparr>"

definition started_request :: accounting where
  "started_request = (fresh_accounting None example_config [])\<lparr>ac_store := Some example_store, ac_owner_id := ''w'', ac_coverage_id := ''c1''\<rparr>"

definition example_ref :: reservation_ref where
  "example_ref = \<lparr>ref_store_path = ''/guard.db'', ref_ledger_key = replicate 64 CHR ''a'', ref_reservation_id = example_rid, ref_accounting_basis = Priced_usage\<rparr>"

definition started_db :: reservation_db where
  "started_db = \<lparr>rd_reservations = [], rd_coverage = [coverage_of example_store ''c1'' [] ''w'' 1],
     rd_generation = [(replicate 64 CHR ''a'', \<lparr>gn_generation = 1, gn_basis = Some Priced_usage\<rparr>)]\<rparr>"

definition admitted_row :: reservation_row where
  "admitted_row = reservation_of example_store example_rid 2 (reserve_args_of started_request ''r1''
     \<lparr>pj_cost_usd = 81 / 20000, pj_input_tokens = 20, pj_output_tokens = 50, pj_cache_read_tokens = 20\<rparr>)"

definition admitted_db :: reservation_db where
  "admitted_db = started_db\<lparr>rd_reservations := [admitted_row],
     rd_generation := [(replicate 64 CHR ''a'', \<lparr>gn_generation = 2, gn_basis = Some Priced_usage\<rparr>)]\<rparr>"

lemma example_started:
  "RequestAccounting [] (Inr example_config) (Inr example_config) example_owner (\<lambda>_. Inr example_store) ''c1'' 1 [] (example_rdb, example_mo) =
   (Inr started_request, started_db, bound_mo)"
  by code_simp

lemma started_fields: "ac_store started_request = Some example_store" "ac_ref started_request = None" "ac_coverage_id started_request = ''c1''" "\<not> ac_finished started_request"
  by (simp_all add: started_request_def fresh_accounting_def)

lemma example_admitted:
  "admit example_admission ''body'' ''claude-x'' ''r1'' [] example_rid 2 started_request (started_db, bound_mo) =
   (Inr None, started_request\<lparr>ac_ref := Some example_ref\<rparr>, admitted_db, bound_mo)"
  by code_simp

definition small_price :: request_price where
  "small_price = \<lparr>rp_workload = small_workload, rp_bands = [official_band], rp_priced_at = ''t1''\<rparr>"

theorem reservation_covers_price_witness:
  "price_request small_env example_clock (Some example_catalog) ''t1'' small_workload = Inr small_price \<and>
   0 < cost_usd small_price \<and> (\<exists>row \<in> set (rd_reservations admitted_db). cost_usd small_price \<le> rv_cost_usd row)"
proof -
  have p: "price_request small_env example_clock (Some example_catalog) ''t1'' small_workload = Inr small_price"
    unfolding price_request_def example_load by code_simp
  have l: "ensure_loaded example_clock (Some example_catalog) ModelRegistry = (Inr (), ad_registry example_admission)"
    using example_load by (simp add: example_admission_def)
  have w: "RequestWorkload small_workload = Inr small_workload" by code_simp
  have f: "rw_model small_workload = Some ''claude-x''" "rw_input_tokens small_workload = Some 10" "rw_output_tokens small_workload = Some 5"
    by (simp_all add: small_workload_def priced_workload_example_def)
  have "0 < cost_usd small_price" by code_simp
  moreover have "rd_reservations admitted_db = [admitted_row]" "rv_input_tokens admitted_row = 20" "rv_output_tokens admitted_row = 50"
    by (simp_all add: admitted_db_def admitted_row_def reservation_of_def reserve_args_of_def)
  ultimately show ?thesis
    using p reservation_covers_price[OF example_admitted started_fields(1,2) _ l w f(1) p, of example_ref] f(2,3) by auto
qed

definition plain_send_env :: native_env where
  "plain_send_env = pricing_env\<lparr>ne_pairs := (\<lambda>s. Some (workload_to_dict
     (no_workload\<lparr>rw_reason_codes := [''request_unavailable'', ''response_unavailable'']\<rparr>)))\<rparr>"

definition example_ops :: "request_op list" where
  "example_ops = [Q_admit example_admission ''body'' ''claude-x'' ''r1'' [] example_rid 2, Q_send plain_send_env [] None None []]"

definition sent_run :: "accounting \<times> books" where
  "sent_run = request_step (Q_send plain_send_env [] None None []) (started_request\<lparr>ac_ref := Some example_ref\<rparr>, admitted_db, bound_mo)"

lemma example_sent:
  "(case sent_run of (ac, db, mo) \<Rightarrow> ac_attempts ac = 1 \<and> \<not> ac_finished ac \<and> ac_finished (fst (finish 3 ac db)))"
  by code_simp

theorem sends_stay_on_record_witness:
  "\<exists>ac db mo. fold request_step example_ops (started_request, started_db, bound_mo) = (ac, db, mo) \<and> ac_attempts ac = 1 \<and>
     (\<exists>c \<in> set (rd_coverage (snd (finish 3 ac db))). cov_id c = ''c1'' \<and> cov_ended_at c = Some 3 \<and> 1 \<le> cov_attempts c \<and> cov_state c \<noteq> Cov_unsent) \<and>
     rd_reservations (snd (finish 3 ac db)) = rd_reservations db"
proof -
  obtain ac db mo where s: "sent_run = (ac, db, mo)" using prod.exhaust by metis
  have run: "fold request_step example_ops (started_request, started_db, bound_mo) = (ac, db, mo)"
    using s by (simp add: example_ops_def sent_run_def example_admitted)
  have n: "ac_attempts ac = 1" "\<not> ac_finished ac" "ac_finished (fst (finish 3 ac db))" using example_sent unfolding s prod.case by blast+
  have o: "\<forall>op \<in> set example_ops. \<not> restarts (sc_ledger_key example_store) (ac_coverage_id started_request) op" by (simp add: example_ops_def)
  have f: "finish 3 ac db = (fst (finish 3 ac db), snd (finish 3 ac db))" by simp
  from sends_stay_on_record[OF example_started started_fields(1) o run n(2) f n(3)] run n(1) started_fields(3) show ?thesis by auto
qed

end
