(* ===== verification/Guard_Snapshot.thy ===== *)
theory Guard_Snapshot
  imports Request_Accounting
begin

text \<open>
  The guard's view of its books on the priced basis (\<^verbatim>\<open>ReservationStore.snapshot\<close> in \<^verbatim>\<open>spend_guard/reservation.py\<close>): usage
  recorded and pending, whether the view is evidence, and the latest workload of a session.  The rows of the ledger carry
  their price receipts, which are read here by \<open>price_from_json\<close>.  The guard database is read twice, the second time only for
  its generation; the deadline of the queries is not modelled.
\<close>

section \<open>Priced rows\<close>

record priced_row = monitor_row +
  pw_model :: string
  pw_cache_creation_tokens :: "int option"
  pw_guard_price_json :: "string option"

record priced_ledger =
  pl_domain :: "(string \<times> string option) option"
  pl_rows :: "priced_row list"

definition plain_rows :: "priced_row list \<Rightarrow> monitor_row list" where
  "plain_rows rows = map monitor_row.truncate rows"

definition recent_rows :: "string \<Rightarrow> priced_row list \<Rightarrow> priced_row list" where
  "recent_rows cutoff rows = filter (\<lambda>r. str_le cutoff (mr_timestamp r)) rows"

definition priced_usage_row :: "priced_row \<Rightarrow> usage_row" where
  "priced_usage_row r =
     \<lparr>ur_model = pw_model r, ur_input_tokens = mr_input_tokens r, ur_output_tokens = mr_output_tokens r,
      ur_cache_read_tokens = mr_cache_read_tokens r, ur_cache_creation_tokens = pw_cache_creation_tokens r\<rparr>"

text \<open>What the receipt of a row establishes; a cost that is absent matches no price.\<close>

definition receipt_of :: "native_env \<Rightarrow> (json \<Rightarrow> string) \<Rightarrow> (string \<Rightarrow> secs option) \<Rightarrow> priced_row \<Rightarrow> price_receipt" where
  "receipt_of env plain pt r =
     (case pw_guard_price_json r of
        None \<Rightarrow> Price_missing
      | Some raw \<Rightarrow>
          if MAX_PRICE_RECEIPT < length (utf8 raw) then Price_missing
          else (case ebind (price_from_json env plain pt raw) (\<lambda>p.
                       case mr_estimated_cost r of
                         None \<Rightarrow> Inl (ValueError ''request price does not match recorded cost'')
                       | Some cost \<Rightarrow> require_row p (priced_usage_row r) cost) of
                  Inl e \<Rightarrow> Price_invalid
                | Inr _ \<Rightarrow> Price_ok))"

definition validate_priced_rows :: "(priced_row \<Rightarrow> price_receipt) \<Rightarrow> priced_row list \<Rightarrow> py_error + unit" where
  "validate_priced_rows receipt recent =
     ebind (raise_if (list_ex (\<lambda>r. receipt r = Price_missing) recent) (ReservationUnavailable ''recorded monetary pricing is incomplete'')) (\<lambda>_.
     ebind (raise_if (list_ex (\<lambda>r. receipt r = Price_invalid) (take 100000 recent))
              (ReservationUnavailable ''recorded monetary pricing is invalid'')) (\<lambda>_.
       raise_if (100000 < length recent) (ReservationUnavailable ''recorded monetary pricing row limit exceeded'')))"

section \<open>Reasons against the evidence\<close>

definition snapshot_agents :: "string \<Rightarrow> priced_row list \<Rightarrow> string list" where
  "snapshot_agents session recent = remdups (map (\<lambda>r. sql_lower (mr_agent_id r)) (filter (\<lambda>r. mr_session_id r = session) recent))"

definition one_agent :: "string list \<Rightarrow> string" where
  "one_agent agents = (case agents of [a] \<Rightarrow> a | _ \<Rightarrow> [])"

definition snapshot_committed :: "string \<Rightarrow> priced_row list \<Rightarrow> committed" where
  "snapshot_committed key recent =
     foldl (\<lambda>d r. AList.update (mr_guard_reservation_id r) (mr_session_id r, sql_lower (mr_agent_id r)) d) []
       (filter (\<lambda>r. mr_guard_ledger_key r = key \<and> mr_guard_usage_complete r) recent)"

text \<open>A row whose reservation is known under its session and agent, and whose request was sent once.\<close>

definition row_covered :: "store_config \<Rightarrow> reservation_db \<Rightarrow> coverage_row list \<Rightarrow> priced_row \<Rightarrow> bool" where
  "row_covered st db cov r \<longleftrightarrow>
     mr_guard_reservation_id r \<noteq> [] \<and>
     list_ex (\<lambda>c. cov_attempts c = 1 \<and> cov_reservation_id c = mr_guard_reservation_id r) cov \<and>
     map_option (\<lambda>v. (rv_session_id v, rv_agent_id v)) (find_reservation (mr_guard_reservation_id r) (sc_ledger_key st) db) =
       Some (mr_session_id r, sql_lower (mr_agent_id r)) \<and>
     mr_guard_ledger_key r = sc_ledger_key st \<and> mr_guard_usage_complete r"

definition request_reasons :: "committed \<Rightarrow> coverage_row list \<Rightarrow> string list" where
  "request_reasons com cov =
     (if list_ex (\<lambda>c. cov_ended_at c = None) cov then [''request_in_progress''] else []) @
     (if list_ex (\<lambda>c. cov_ended_at c \<noteq> None \<and> 0 < cov_attempts c \<and>
                      \<not> (cov_attempts c = 1 \<and> map_of com (cov_reservation_id c) \<noteq> None)) cov
      then [''forward_usage_unresolved''] else [])"

definition snapshot_reasons ::
  "(priced_row \<Rightarrow> price_receipt) \<Rightarrow> store_config \<Rightarrow> string list \<Rightarrow> committed \<Rightarrow> coverage_row list \<Rightarrow> priced_row list \<Rightarrow> reservation_db \<Rightarrow> string list" where
  "snapshot_reasons receipt st agents com cov recent db =
     (if validate_priced_rows receipt recent \<noteq> Inr () then [''ledger_pricing_incomplete''] else []) @
     (if \<not> list_all (row_covered st db cov) recent then [''ledger_coverage_incomplete''] else []) @
     (if uncovered_reservation st db then [''reservation_coverage_incomplete''] else []) @ request_reasons com cov @
     (if agents = [] then [''session_unobserved''] else []) @ (if 1 < length agents then [''session_agent_contradiction''] else [])"

section \<open>The latest workload\<close>

record workload_observation =
  wo_available :: bool
  wo_reasons :: "string list"
  wo_request_sha256 :: "string option"
  wo_started_at :: "secs option"
  wo_completed_at :: "secs option"
  wo_workload :: "workload option"

definition not_observed :: "string \<Rightarrow> workload_observation" where
  "not_observed reason = \<lparr>wo_available = False, wo_reasons = [reason], wo_request_sha256 = None, wo_started_at = None,
     wo_completed_at = None, wo_workload = None\<rparr>"

definition ledger_facts :: "priced_row \<Rightarrow> int option \<times> int option \<times> int option \<times> int option \<times> string option \<times> bool \<times> string" where
  "ledger_facts r = (mr_input_tokens r, mr_output_tokens r, mr_cache_read_tokens r, pw_cache_creation_tokens r, Some (pw_model r),
     mr_guard_usage_complete r, mr_session_id r)"

definition workload_facts :: "workload \<Rightarrow> string \<Rightarrow> int option \<times> int option \<times> int option \<times> int option \<times> string option \<times> bool \<times> string" where
  "workload_facts w session = (rw_input_tokens w, rw_output_tokens w, rw_cache_read_tokens w, rw_cache_write_tokens w, rw_model w, True, session)"

definition rows_of_request :: "coverage_row \<Rightarrow> priced_row list \<Rightarrow> priced_row list" where
  "rows_of_request c rows =
     filter (\<lambda>r. mr_guard_reservation_id r = cov_reservation_id c \<and> mr_guard_ledger_key r = cov_ledger_key c) rows"

definition request_identity :: "coverage_row \<Rightarrow> string \<Rightarrow> reservation_db \<Rightarrow> string option" where
  "request_identity c session db =
     map_option rv_request_id (find (\<lambda>r. rv_id r = cov_reservation_id c \<and> rv_ledger_key r = cov_ledger_key c \<and> rv_session_id r = session)
       (rd_reservations db))"

definition shown_workload ::
  "native_env \<Rightarrow> string \<Rightarrow> secs \<Rightarrow> coverage_row \<Rightarrow> workload \<Rightarrow> priced_row list \<Rightarrow> reservation_db \<Rightarrow> py_error + workload_observation" where
  "shown_workload env session now c w rows db =
     (let identity = request_identity c session db; started = cov_started_at c; ended = the (cov_ended_at c);
          reasons = rw_reason_codes w @
            (if map ledger_facts (rows_of_request c rows) \<noteq> [workload_facts w session] \<or> identity = None then [''workload_ledger_mismatch''] else []) in
      ebind (number_ok started ''started_at'') (\<lambda>_. ebind (number_ok ended ''ended_at'') (\<lambda>_.
      ebind (raise_if (ended < started \<or> now < ended) (ReservationUnavailable ''contradictory workload timestamps'')) (\<lambda>_.
      ebind (case identity of None \<Rightarrow> Inr () | Some i \<Rightarrow> identity_ok i ''request_id'' False) (\<lambda>_.
        Inr \<lparr>wo_available = (reasons = []), wo_reasons = sorted_keys (remdups reasons), wo_request_sha256 = map_option (ne_sha256 env) identity,
             wo_started_at = Some started, wo_completed_at = Some ended, wo_workload = Some w\<rparr>)))))"

definition observe_latest ::
  "native_env \<Rightarrow> string \<Rightarrow> secs \<Rightarrow> coverage_row list \<Rightarrow> priced_row list \<Rightarrow> reservation_db \<Rightarrow> py_error + workload_observation" where
  "observe_latest env session now cov rows db =
     (let candidates = filter (\<lambda>c. cov_session_id c = session \<and> 0 < cov_attempts c) cov in
      case latest_of candidates of
        None \<Rightarrow> Inr (not_observed ''workload_unobserved'')
      | Some c \<Rightarrow>
          if cov_attempts c \<noteq> 1 \<or> cov_ended_at c = None \<or> cov_state c \<noteq> Cov_recorded then Inr (not_observed ''latest_request_unresolved'')
          else if list_ex (\<lambda>x. cov_id x \<noteq> cov_id c \<and> (case cov_ended_at x of None \<Rightarrow> True | Some t \<Rightarrow> cov_started_at c < t)) candidates
          then Inr (not_observed ''session_request_order_ambiguous'')
          else (case cov_workload c of
                  None \<Rightarrow> Inr (not_observed ''workload_unobserved'')
                | Some raw \<Rightarrow> ebind (workload_from_json env (take 4097 raw)) (\<lambda>w. shown_workload env session now c w rows db)))"

section \<open>The snapshot\<close>

record priced_view =
  pv_agent_cost_usd :: "money option"
  pv_agent_tokens_total :: "int option"
  pv_agent_cache_read_tokens :: "int option"
  pv_fleet_cost_usd :: money
  pv_fleet_tokens_total :: int
  pv_fleet_cache_read_tokens :: int

definition priced_view_of :: "string \<Rightarrow> rolling_usage \<Rightarrow> priced_view" where
  "priced_view_of agent u =
     \<lparr>pv_agent_cost_usd = (if agent = [] then None else Some (ru_agent_cost_usd u)),
      pv_agent_tokens_total = (if agent = [] then None else Some (ru_agent_tokens_total u)),
      pv_agent_cache_read_tokens = (if agent = [] then None else Some (ru_agent_cache_read_tokens u)),
      pv_fleet_cost_usd = ru_fleet_cost_usd u, pv_fleet_tokens_total = ru_fleet_tokens_total u,
      pv_fleet_cache_read_tokens = ru_fleet_cache_read_tokens u\<rparr>"

record guard_snapshot =
  sn_observed_at :: secs
  sn_window_seconds :: int
  sn_ledger_scope :: string
  sn_generation :: int
  sn_session_observed :: bool
  sn_agent_applicable :: bool
  sn_recorded :: priced_view
  sn_pending :: priced_view
  sn_evidence_eligible :: bool
  sn_reasons :: "string list"
  sn_workload :: "workload_observation option"

definition usage_numbers :: "rolling_usage \<Rightarrow> py_error + unit" where
  "usage_numbers u =
     ebind (number_ok (ru_agent_cost_usd u) ''agent_cost_usd'') (\<lambda>_. ebind (number_ok (of_int (ru_agent_tokens_total u)) ''agent_tokens_total'') (\<lambda>_.
     ebind (number_ok (of_int (ru_agent_cache_read_tokens u)) ''agent_cache_read_tokens'') (\<lambda>_.
     ebind (number_ok (ru_fleet_cost_usd u) ''fleet_cost_usd'') (\<lambda>_. ebind (number_ok (of_int (ru_fleet_tokens_total u)) ''fleet_tokens_total'') (\<lambda>_.
       number_ok (of_int (ru_fleet_cache_read_tokens u)) ''fleet_cache_read_tokens'')))))"

definition tie_workload :: "string list \<Rightarrow> workload_observation \<Rightarrow> workload_observation" where
  "tie_workload reasons o' =
     (if reasons = [] then o'
      else o'\<lparr>wo_available := False, wo_reasons := sorted_keys (remdups (''accounting_ineligible'' # wo_reasons o'))\<rparr>)"

definition snapshot_of ::
  "native_env \<Rightarrow> (json \<Rightarrow> string) \<Rightarrow> (string \<Rightarrow> secs option) \<Rightarrow> (secs \<Rightarrow> string) \<Rightarrow> store_config \<Rightarrow> string \<Rightarrow> int \<Rightarrow> bool \<Rightarrow> secs \<Rightarrow>
   priced_ledger \<Rightarrow> reservation_db \<Rightarrow> reservation_db \<Rightarrow> py_error + guard_snapshot" where
  "snapshot_of env plain pt stamp st session window include_workload now ledger db fence =
     ebind (raise_if (sc_basis st \<noteq> Priced_usage) (ReservationUnavailable ''token-only accounting is not priced guard evidence'')) (\<lambda>_.
     ebind (identity_ok session ''session_id'' False) (\<lambda>_.
     ebind (number_ok (of_int window) ''window_seconds'') (\<lambda>_.
     ebind (raise_if (window = 0) (ValueError ''window must be positive'')) (\<lambda>_.
     let recent = recent_rows (stamp (now - of_int window)) (pl_rows ledger); cov = recent_coverage st (now - of_int window) db in
     ebind (read_generation st db) (\<lambda>gen.
     ebind (raise_if (ROW_LIMIT < int (length cov)) (ReservationUnavailable ''snapshot coverage limit exceeded'')) (\<lambda>_.
     ebind (check_domain st \<lparr>mo_domain = pl_domain ledger, mo_rows = []\<rparr>) (\<lambda>_.
     let agents = snapshot_agents session recent; agent = one_agent agents in
     ebind (raise_if (ROW_LIMIT < int (length recent)) (ReservationUnavailable ''snapshot row limit exceeded'')) (\<lambda>_.
     ebind (validate_recorded_rows (stamp (now - of_int window)) (plain_rows (pl_rows ledger))) (\<lambda>_.
     let rec = query_recorded_usage (plain_rows (pl_rows ledger)) (stamp (now - of_int window)) [] (Some agent);
         com = snapshot_committed (sc_ledger_key st) recent;
         reasons = snapshot_reasons (receipt_of env plain pt) st agents com cov recent db in
     ebind (usage_numbers rec) (\<lambda>_.
     ebind (active st agent now com db) (\<lambda>pending.
     ebind (if include_workload then ebind (observe_latest env session now cov (pl_rows ledger) db) (\<lambda>o'. Inr (Some o')) else Inr None) (\<lambda>shown.
     ebind (read_generation st fence) (\<lambda>gen'.
     ebind (raise_if (gen' \<noteq> gen) (ReservationUnavailable ''accounting changed during observation'')) (\<lambda>_.
       Inr \<lparr>sn_observed_at = now, sn_window_seconds = window, sn_ledger_scope = sc_ledger_key st, sn_generation = gen,
            sn_session_observed = (agents \<noteq> []), sn_agent_applicable = (agent \<noteq> []), sn_recorded = priced_view_of agent rec,
            sn_pending = priced_view_of agent pending, sn_evidence_eligible = (reasons = []),
            sn_reasons = sorted_keys (remdups reasons), sn_workload = map_option (tie_workload reasons) shown\<rparr>))))))))))))))"

section \<open>What eligible evidence establishes\<close>

text \<open>A row with a receipt: the price was bound to the recorded model and counts, and is the recorded cost.\<close>

definition row_priced :: "native_env \<Rightarrow> (json \<Rightarrow> string) \<Rightarrow> (string \<Rightarrow> secs option) \<Rightarrow> priced_row \<Rightarrow> bool" where
  "row_priced env plain pt r \<longleftrightarrow>
     (\<exists>raw p. pw_guard_price_json r = Some raw \<and> price_from_json env plain pt raw = Inr p \<and>
        mr_estimated_cost r = Some (cost_usd p) \<and> Some (pw_model r) = rw_model (rp_workload p) \<and>
        mr_input_tokens r = rw_input_tokens (rp_workload p) \<and> mr_output_tokens r = rw_output_tokens (rp_workload p) \<and>
        mr_cache_read_tokens r = rw_cache_read_tokens (rp_workload p) \<and> pw_cache_creation_tokens r = rw_cache_write_tokens (rp_workload p))"

lemma receipt_ok_priced:
  assumes "receipt_of env plain pt r = Price_ok"
  shows "row_priced env plain pt r"
proof -
  obtain raw where raw: "pw_guard_price_json r = Some raw" using assms by (auto simp: receipt_of_def split: option.splits)
  then obtain p cost where p: "price_from_json env plain pt raw = Inr p" "mr_estimated_cost r = Some cost"
    "require_row p (priced_usage_row r) cost = Inr ()"
    using assms by (auto simp: receipt_of_def ebind_eq_Inr split: if_splits sum.splits option.splits)
  then show ?thesis unfolding row_priced_def using raw
    by (intro exI[of _ raw] exI[of _ p]) (auto simp: require_row_def Let_def ebind_eq_Inr priced_usage_row_def)
qed

lemma validate_priced_rows_ok:
  assumes "validate_priced_rows receipt recent = Inr ()" "r \<in> set recent"
  shows "receipt r = Price_ok"
proof -
  have "list_ex (\<lambda>r. receipt r = Price_invalid) recent = False" "list_ex (\<lambda>r. receipt r = Price_missing) recent = False"
    using assms(1) by (auto simp: validate_priced_rows_def ebind_eq_Inr not_less raise_if_def split: if_splits)
  then show ?thesis using assms(2) by (cases "receipt r") (auto simp: list_ex_iff)
qed

lemma foldl_update_keys:
  "set (keys (foldl (\<lambda>d r. AList.update (g r) (f r) d) d rs)) \<subseteq> set (keys d) \<union> g ` set rs"
proof (induction rs arbitrary: d)
  case (Cons r rs)
  have "set (keys (AList.update (g r) (f r) d)) = insert (g r) (set (keys d))" by (rule keys_update)
  with Cons.IH[of "AList.update (g r) (f r) d"] show ?case by auto
qed simp

lemma snapshot_committed_keys:
  assumes "map_of (snapshot_committed key recent) k \<noteq> None"
  shows "k \<in> mr_guard_reservation_id ` set recent"
proof -
  have "k \<in> set (keys (snapshot_committed key recent))" using assms by (metis map_of_eq_None_iff set_map)
  then show ?thesis unfolding snapshot_committed_def using subsetD[OF foldl_update_keys] by fastforce
qed

lemma request_reasons_none:
  assumes "request_reasons com cov = []" "c \<in> set cov"
  shows "cov_ended_at c \<noteq> None" "0 < cov_attempts c \<Longrightarrow> cov_attempts c = 1 \<and> map_of com (cov_reservation_id c) \<noteq> None"
  using assms by (auto simp: request_reasons_def list_ex_iff split: if_splits) fastforce+

lemma plain_rows_cost:
  "ru_fleet_cost_usd (query_recorded_usage (plain_rows rows) cutoff [] who) = sum_list (map (\<lambda>r. col (mr_estimated_cost r)) (recent_rows cutoff rows))"
  by (induction rows) (auto simp: query_recorded_usage_def Let_def sum_columns_def plain_rows_def recent_rows_def sum_where_def monitor_row.truncate_def
      split: prod.splits option.splits)

lemma shown_workload_facts:
  assumes "shown_workload env session now c w rows db = Inr o'" "wo_available o'"
  shows "wo_workload o' = Some w" "rw_reason_codes w = []" "\<exists>r \<in> set rows. ledger_facts r = workload_facts w session"
proof -
  have m: "map ledger_facts (rows_of_request c rows) = [workload_facts w session]" "rw_reason_codes w = []" "wo_workload o' = Some w"
    using assms by (auto simp: shown_workload_def Let_def ebind_eq_Inr split: if_splits)
  then show "wo_workload o' = Some w" "rw_reason_codes w = []" by simp_all
  from m(1) obtain r where "r \<in> set (rows_of_request c rows)" "ledger_facts r = workload_facts w session"
    by (cases "rows_of_request c rows") auto
  then show "\<exists>r \<in> set rows. ledger_facts r = workload_facts w session" by (auto simp: rows_of_request_def)
qed

lemma observe_latest_facts:
  assumes "observe_latest env session now cov rows db = Inr o'" "wo_available o'"
  shows "\<exists>w. wo_workload o' = Some w \<and> rw_reason_codes w = [] \<and> (\<exists>r \<in> set rows. ledger_facts r = workload_facts w session)"
proof -
  obtain c w where "shown_workload env session now c w rows db = Inr o'"
    using assms by (auto simp: observe_latest_def Let_def ebind_eq_Inr not_observed_def split: option.splits if_splits)
  from shown_workload_facts[OF this assms(2)] show ?thesis by blast
qed

lemma tie_workload_available:
  "wo_available (tie_workload reasons o') \<Longrightarrow> reasons = [] \<and> tie_workload reasons o' = o'"
  by (simp add: tie_workload_def split: if_splits)

lemma snapshot_reasons_none:
  assumes "snapshot_reasons receipt st agents com cov recent db = []"
  shows "validate_priced_rows receipt recent = Inr ()" "list_all (row_covered st db cov) recent" "\<not> uncovered_reservation st db"
    "request_reasons com cov = []" "length agents = 1"
  using assms by (auto simp: snapshot_reasons_def split: if_splits) (cases agents; simp)

lemma snapshotE:
  assumes "snapshot_of env plain pt stamp st session window inc now ledger db fence = Inr snap"
  defines "recent \<equiv> recent_rows (stamp (now - of_int window)) (pl_rows ledger)" and "cov \<equiv> recent_coverage st (now - of_int window) db"
  obtains agent reasons pending where
    "generation (sc_ledger_key st) db = sn_generation snap" "generation (sc_ledger_key st) fence = sn_generation snap"
    "sn_recorded snap = priced_view_of agent (query_recorded_usage (plain_rows (pl_rows ledger)) (stamp (now - of_int window)) [] (Some agent))"
    "active st agent now (snapshot_committed (sc_ledger_key st) recent) db = Inr pending" "sn_pending snap = priced_view_of agent pending"
    "sn_evidence_eligible snap \<longleftrightarrow> reasons = []"
    "reasons = snapshot_reasons (receipt_of env plain pt) st (snapshot_agents session recent) (snapshot_committed (sc_ledger_key st) recent) cov recent db"
    "\<And>w. sn_workload snap = Some w \<Longrightarrow> \<exists>o'. observe_latest env session now cov (pl_rows ledger) db = Inr o' \<and> w = tie_workload reasons o'"
proof -
  define agents where "agents = snapshot_agents session recent"
  define agent where "agent = one_agent agents"
  define com where "com = snapshot_committed (sc_ledger_key st) recent"
  define reasons where "reasons = snapshot_reasons (receipt_of env plain pt) st agents com cov recent db"
  define rec where "rec = query_recorded_usage (plain_rows (pl_rows ledger)) (stamp (now - of_int window)) [] (Some agent)"
  obtain gen pending shown where g: "read_generation st db = Inr gen" "read_generation st fence = Inr gen"
    and act: "active st agent now com db = Inr pending"
    and shown: "(if inc then ebind (observe_latest env session now cov (pl_rows ledger) db) (\<lambda>o'. Inr (Some o')) else Inr None) = Inr shown"
    and snap: "sn_generation snap = gen" "sn_recorded snap = priced_view_of agent rec" "sn_pending snap = priced_view_of agent pending"
      "sn_evidence_eligible snap \<longleftrightarrow> reasons = []" "sn_workload snap = map_option (tie_workload reasons) shown"
    using assms(1) unfolding snapshot_of_def Let_def ebind_eq_Inr recent_def[symmetric] cov_def[symmetric] agents_def[symmetric]
      agent_def[symmetric] com_def[symmetric] reasons_def[symmetric] rec_def[symmetric] by auto
  have w: "\<exists>o'. observe_latest env session now cov (pl_rows ledger) db = Inr o' \<and> w = tie_workload reasons o'"
    if "sn_workload snap = Some w" for w
    using that shown snap(5) by (auto simp: ebind_eq_Inr split: if_splits)
  show thesis
    using that[OF _ _ snap(2)[unfolded rec_def] act[unfolded com_def] snap(3,4) reasons_def[unfolded agents_def com_def] w]
      read_generation_is[OF g(1)] read_generation_is[OF g(2)] snap(1) by simp
qed

text \<open>
  C17.  What a guard snapshot is evidence of.  If other processes write to the guard database in any way
  between the reading and the final check, and the snapshot is still returned, then no reservation and
  no coverage record of the ledger has changed.  Its recorded cost is the sum of the costs of the
  window's rows.  If it is eligible as evidence, every row of the window has a receipt whose price is
  the recorded cost and was bound to the recorded model and token counts, and a reservation known
  under the row's session and agent whose request was sent once; and every recent request has ended, and
  if it was sent, was sent once and has its row in the window.  A workload that it shows as available
  agrees with a ledger row of the session, and only eligible snapshots show one.
\<close>

theorem eligible_snapshot_is_accounted:
  assumes "snapshot_of env plain pt stamp st session window inc now ledger db (fold accounting_step ops db) = Inr snap"
  defines "rows \<equiv> recent_rows (stamp (now - of_int window)) (pl_rows ledger)" and "cov \<equiv> recent_coverage st (now - of_int window) db"
  shows "ledger_rows (sc_ledger_key st) (fold accounting_step ops db) = ledger_rows (sc_ledger_key st) db \<and>
         pv_fleet_cost_usd (sn_recorded snap) = sum_list (map (\<lambda>r. col (mr_estimated_cost r)) rows) \<and>
         (sn_evidence_eligible snap \<longrightarrow>
            (\<forall>r \<in> set rows. row_priced env plain pt r \<and> row_covered st db cov r) \<and>
            (\<forall>c \<in> set cov. cov_ended_at c \<noteq> None \<and>
               (0 < cov_attempts c \<longrightarrow> cov_attempts c = 1 \<and> cov_reservation_id c \<in> mr_guard_reservation_id ` set rows))) \<and>
         (\<forall>o'. sn_workload snap = Some o' \<and> wo_available o' \<longrightarrow> sn_evidence_eligible snap \<and>
            (\<exists>w. wo_workload o' = Some w \<and> (\<exists>r \<in> set (pl_rows ledger). ledger_facts r = workload_facts w session)))"
proof -
  obtain agent reasons where g: "generation (sc_ledger_key st) db = sn_generation snap"
      "generation (sc_ledger_key st) (fold accounting_step ops db) = sn_generation snap"
    and rec: "sn_recorded snap = priced_view_of agent (query_recorded_usage (plain_rows (pl_rows ledger)) (stamp (now - of_int window)) [] (Some agent))"
    and elig: "sn_evidence_eligible snap \<longleftrightarrow> reasons = []"
    and reasons: "reasons = snapshot_reasons (receipt_of env plain pt) st (snapshot_agents session rows) (snapshot_committed (sc_ledger_key st) rows) cov rows db"
    and work: "\<And>w. sn_workload snap = Some w \<Longrightarrow> \<exists>o'. observe_latest env session now cov (pl_rows ledger) db = Inr o' \<and> w = tie_workload reasons o'"
    unfolding rows_def cov_def by (rule snapshotE[OF assms(1)]) blast
  have "ledger_rows (sc_ledger_key st) (fold accounting_step ops db) = ledger_rows (sc_ledger_key st) db"
    using fenced_accounting_run[of "sc_ledger_key st" db ops] g by (simp add: fenced_def)
  moreover have "pv_fleet_cost_usd (sn_recorded snap) = sum_list (map (\<lambda>r. col (mr_estimated_cost r)) rows)"
    by (simp add: rec priced_view_of_def plain_rows_cost rows_def)
  moreover have "row_priced env plain pt r \<and> row_covered st db cov r" if "sn_evidence_eligible snap" "r \<in> set rows" for r
    using snapshot_reasons_none(1,2)[OF elig[THEN iffD1, OF that(1), unfolded reasons]] that(2)
    by (auto simp: list_all_iff intro: receipt_ok_priced validate_priced_rows_ok)
  moreover have "cov_ended_at c \<noteq> None \<and> (0 < cov_attempts c \<longrightarrow> cov_attempts c = 1 \<and> cov_reservation_id c \<in> mr_guard_reservation_id ` set rows)"
    if "sn_evidence_eligible snap" "c \<in> set cov" for c
    using request_reasons_none[OF snapshot_reasons_none(4)[OF elig[THEN iffD1, OF that(1), unfolded reasons]] that(2)] snapshot_committed_keys by blast
  moreover have "sn_evidence_eligible snap \<and> (\<exists>w. wo_workload o' = Some w \<and> (\<exists>r \<in> set (pl_rows ledger). ledger_facts r = workload_facts w session))"
    if o: "sn_workload snap = Some o'" "wo_available o'" for o'
  proof -
    obtain o0 where o0: "observe_latest env session now cov (pl_rows ledger) db = Inr o0" "o' = tie_workload reasons o0" using work[OF o(1)] by blast
    with tie_workload_available[of reasons o0] o(2) have "reasons = []" "o' = o0" by auto
    moreover have "wo_available o0" using o(2) calculation by simp
    ultimately show ?thesis using observe_latest_facts[OF o0(1)] elig by auto
  qed
  ultimately show ?thesis by blast
qed

section \<open>An eligible snapshot\<close>

definition receipt_document :: json where
  "receipt_document = J_obj [(''workload'', workload_to_dict small_workload), (''bands'', J_list [to_mapping official_band]),
     (''priced_at'', J_str ''t1''), (''schema_version'', J_str ''native-request-price/1'')]"

definition snapshot_env :: native_env where
  "snapshot_env = small_env\<lparr>ne_pairs := (\<lambda>s. Some (if s = ''P'' then receipt_document else workload_to_dict small_workload))\<rparr>"

definition settled_db :: reservation_db where
  "settled_db = \<lparr>rd_reservations = [(reservation_of example_store ''tpr'' 900 example_args)\<lparr>rv_status := Rv_settled\<rparr>],
     rd_coverage = [(coverage_of example_store ''c'' ''s'' ''w'' 900)\<lparr>cov_attempts := 1, cov_reservation_id := ''tpr'',
                      cov_ended_at := Some 950, cov_state := Cov_recorded, cov_workload := Some ''W''\<rparr>],
     rd_generation = [(sc_ledger_key example_store, \<lparr>gn_generation = 3, gn_basis = Some Priced_usage\<rparr>)]\<rparr>"

definition settled_row :: priced_row where
  "settled_row = \<lparr>mr_timestamp = ''2026'', mr_session_id = ''s'', mr_agent_id = ''A'', mr_estimated_cost = Some (cost_usd small_price),
     mr_input_tokens = Some 10, mr_output_tokens = Some 5, mr_cache_read_tokens = Some 4, mr_guard_reservation_id = ''tpr'',
     mr_guard_ledger_key = sc_ledger_key example_store, mr_guard_usage_complete = True, pw_model = ''claude-x'',
     pw_cache_creation_tokens = Some 2, pw_guard_price_json = Some ''P''\<rparr>"

definition settled_ledger :: priced_ledger where
  "settled_ledger = \<lparr>pl_domain = Some (''led'', Some ''sha''), pl_rows = [settled_row]\<rparr>"

definition settled_snapshot :: "py_error + guard_snapshot" where
  "settled_snapshot = snapshot_of snapshot_env (\<lambda>_. ''W'') example_clock (\<lambda>_. ''2026'') example_store ''s'' 3600 True 1000 settled_ledger
     settled_db (fold accounting_step [Guard_op (S_finish example_store ''other'' 999)] settled_db)"

lemma settled_parts:
  "fold accounting_step [Guard_op (S_finish example_store ''other'' 999)] settled_db = settled_db"
  "read_generation example_store settled_db = Inr 3" "recent_rows ''2026'' [settled_row] = [settled_row]"
  "recent_coverage example_store (1000 - of_int 3600) settled_db = rd_coverage settled_db" "pl_rows settled_ledger = [settled_row]"
  "snapshot_agents ''s'' [settled_row] = [''a'']" "identity_ok ''s'' ''session_id'' False = Inr ()"
  "number_ok (of_int 3600) ''window_seconds'' = Inr ()" "\<not> ROW_LIMIT < int (length (rd_coverage settled_db))" "\<not> ROW_LIMIT < 1"
  "check_domain example_store \<lparr>mo_domain = pl_domain settled_ledger, mo_rows = []\<rparr> = Inr ()" "sc_basis example_store = Priced_usage"
  by code_simp+

lemma settled_usage:
  "validate_recorded_rows ''2026'' (plain_rows [settled_row]) = Inr ()"
  "usage_numbers (query_recorded_usage (plain_rows [settled_row]) ''2026'' [] (Some ''a'')) = Inr ()"
  "\<not> isl (active example_store ''a'' 1000 (snapshot_committed (sc_ledger_key example_store) [settled_row]) settled_db)"
  by code_simp+

lemma settled_receipt: "receipt_of snapshot_env (\<lambda>_. ''W'') example_clock settled_row = Price_ok"
  by code_simp

lemma settled_reasons:
  "snapshot_reasons (receipt_of snapshot_env (\<lambda>_. ''W'') example_clock) example_store [''a'']
     (snapshot_committed (sc_ledger_key example_store) [settled_row]) (rd_coverage settled_db) [settled_row] settled_db = []"
proof -
  have "row_covered example_store settled_db (rd_coverage settled_db) settled_row" "\<not> uncovered_reservation example_store settled_db"
    "request_reasons (snapshot_committed (sc_ledger_key example_store) [settled_row]) (rd_coverage settled_db) = []" by code_simp+
  then show ?thesis by (simp add: snapshot_reasons_def validate_priced_rows_def settled_receipt)
qed

lemma settled_observation:
  "case observe_latest snapshot_env ''s'' 1000 (rd_coverage settled_db) [settled_row] settled_db of Inr o' \<Rightarrow> wo_available o' | _ \<Rightarrow> False"
  by code_simp

lemma settled_eligible:
  obtains snap o' where "settled_snapshot = Inr snap" "sn_evidence_eligible snap" "sn_workload snap = Some o'" "wo_available o'"
proof -
  obtain pending where p: "active example_store ''a'' 1000 (snapshot_committed (sc_ledger_key example_store) [settled_row]) settled_db = Inr pending"
    using sum.collapse(2)[OF settled_usage(3)] by metis
  obtain o' where o: "observe_latest snapshot_env ''s'' 1000 (rd_coverage settled_db) [settled_row] settled_db = Inr o'" "wo_available o'"
    using settled_observation by (auto split: sum.splits)
  have a: "one_agent [''a''] = ''a''" by (simp add: one_agent_def)
  have w: "(3600 :: int) \<noteq> 0" by simp
  have "\<exists>snap. settled_snapshot = Inr snap \<and> sn_evidence_eligible snap \<and> sn_workload snap = Some o'"
    unfolding settled_snapshot_def snapshot_of_def Let_def settled_parts
    by (simp add: settled_parts settled_usage(1,2) settled_reasons p o a tie_workload_def)
  with o(2) that show thesis by blast
qed

theorem eligible_snapshot_is_accounted_witness:
  "\<exists>snap o' w. settled_snapshot = Inr snap \<and> sn_evidence_eligible snap \<and> row_priced snapshot_env (\<lambda>_. ''W'') example_clock settled_row \<and>
     pv_fleet_cost_usd (sn_recorded snap) = cost_usd small_price \<and> sn_workload snap = Some o' \<and> wo_workload o' = Some w \<and>
     ledger_facts settled_row = workload_facts w ''s''"
proof -
  obtain snap o' where s: "settled_snapshot = Inr snap" "sn_evidence_eligible snap" "sn_workload snap = Some o'" "wo_available o'"
    by (rule settled_eligible)
  have cost: "mr_estimated_cost settled_row = Some (cost_usd small_price)" by (simp add: settled_row_def)
  note e = eligible_snapshot_is_accounted[OF s(1)[unfolded settled_snapshot_def], unfolded settled_parts(3,5)]
  from e s(2) have "row_priced snapshot_env (\<lambda>_. ''W'') example_clock settled_row" by simp
  moreover from e have "pv_fleet_cost_usd (sn_recorded snap) = cost_usd small_price" by (simp add: cost col_def)
  moreover from e s(3,4) obtain w where "wo_workload o' = Some w" "ledger_facts settled_row = workload_facts w ''s''" by auto
  ultimately show ?thesis using s by blast
qed

end
