(* ===== verification/Pending_Store.thy ===== *)
theory Pending_Store
  imports Contracts
begin

text \<open>
  The holding cell for blocked requests and the approvals that live in the same database
  (\<^verbatim>\<open>src/tokenpak/proxy/spend_guard/pending.py\<close>, \<^verbatim>\<open>approvals.py\<close>).  A table is the list of its
  rows in row-id order; every method commits before it returns, so each is one step, and
  \<^verbatim>\<open>UPDATE ... WHERE\<close> is \<open>update_where\<close>.  Where SQL leaves the order of rows with equal
  \<^verbatim>\<open>created_at\<close> open, the model takes SQLite's: row-id order.  Compression and JSON storage of
  a row are transparent.  The two digests (\<^verbatim>\<open>sha256\<close>, \<^verbatim>\<open>blake2b\<close>) are parameters.
\<close>

section \<open>Headers and digests\<close>

definition SENSITIVE_HEADERS :: "string list" where
  "SENSITIVE_HEADERS =
     [''authorization'', ''proxy-authorization'', ''x-api-key'', ''api-key'', ''openai-api-key'',
      ''anthropic-api-key'', ''x-goog-api-key'', ''cookie'', ''set-cookie'']"

definition redact_headers :: "headers \<Rightarrow> headers" where
  "redact_headers hs = filter (\<lambda>(k, v). lower k \<notin> set SENSITIVE_HEADERS) hs"

definition hash_request :: "(string \<Rightarrow> string) \<Rightarrow> string \<Rightarrow> string \<Rightarrow> string" where
  "hash_request blake2b body model = blake2b (utf8 model @ [CHR 0x00] @ body)"

definition normalize_headers :: "headers \<Rightarrow> headers" where
  "normalize_headers hs = foldl (\<lambda>d (k, v). AList.update (lower k) (strip v) d) [] hs"

definition get_default :: "headers \<Rightarrow> string \<Rightarrow> string" where
  "get_default d k = (case map_of d k of None \<Rightarrow> [] | Some v \<Rightarrow> v)"

definition scope_key :: "(string \<Rightarrow> string) \<Rightarrow> string \<Rightarrow> string \<Rightarrow> headers \<Rightarrow> string" where
  "scope_key sha256 session model hs =
     (let normalized = normalize_headers hs in
      sha256 (''['' @ json_string session @ '', '' @ json_string model @ '', '' @
              json_string (get_default normalized ''x-tokenpak-fleet'') @ '', '' @
              json_string (get_default normalized ''x-tokenpak-agent'') @ '']''))"

section \<open>State\<close>

record approval =
  ap_expires_at :: "secs option"
  ap_max_tokens :: "int option"
  ap_remaining_cost :: "money option"

record guard_db =
  db_pending :: "pending_request list"
  db_approvals :: "(string, approval) dict"
  db_reply_uses :: "(string \<times> string) list"

definition empty_db :: guard_db where
  "empty_db = \<lparr>db_pending = [], db_approvals = [], db_reply_uses = []\<rparr>"

section \<open>Holding and finding requests\<close>

record hold_args =
  ha_session_id :: string
  ha_body :: string
  ha_headers :: headers
  ha_target_url :: string
  ha_provider :: string
  ha_model :: string
  ha_projected_tokens :: int
  ha_projected_cost_usd :: money
  ha_ttl_seconds :: int
  ha_projected_input_tokens :: "int option"

definition new_hold :: "(string \<Rightarrow> string) \<Rightarrow> string \<Rightarrow> secs \<Rightarrow> hold_args \<Rightarrow> pending_request" where
  "new_hold blake2b pending_id now a =
     \<lparr>pr_pending_id = pending_id, pr_session_id = ha_session_id a, pr_created_at = now,
      pr_expires_at = now + of_int (ha_ttl_seconds a),
      pr_request_hash = hash_request blake2b (ha_body a) (ha_model a),
      pr_provider = ha_provider a, pr_model = ha_model a, pr_projected_tokens = ha_projected_tokens a,
      pr_projected_cost_usd = ha_projected_cost_usd a, pr_raw_request_blob = ha_body a,
      pr_raw_request_headers = redact_headers (ha_headers a), pr_target_url = ha_target_url a,
      pr_status = Pending, pr_projected_input_tokens = ha_projected_input_tokens a,
      pr_block_response = None\<rparr>"

definition store ::
  "(string \<Rightarrow> string) \<Rightarrow> string \<Rightarrow> secs \<Rightarrow> hold_args \<Rightarrow> guard_db \<Rightarrow> (py_error + pending_request) \<times> guard_db" where
  "store blake2b pending_id now a db =
     (if ha_session_id a = [] then (Inl (ValueError ''pending requests require a non-empty session id''), db)
      else if pending_id \<in> set (map pr_pending_id (db_pending db))
      then (Inl (IntegrityError ''pending_requests.pending_id''), db)
      else let row = new_hold blake2b pending_id now a
           in (Inr row, db\<lparr>db_pending := db_pending db @ [row]\<rparr>))"

definition remember_block_response :: "string \<Rightarrow> string \<Rightarrow> guard_db \<Rightarrow> guard_db" where
  "remember_block_response pending_id response db =
     db\<lparr>db_pending := snd (update_where (\<lambda>r. pr_pending_id r = pending_id)
        (\<lambda>r. r\<lparr>pr_block_response := Some response\<rparr>) (db_pending db))\<rparr>"

text \<open>\<^verbatim>\<open>ORDER BY created_at DESC, rowid DESC\<close>.\<close>

definition newest_first :: "pending_request list \<Rightarrow> pending_request list" where
  "newest_first rows = rev (sort_key pr_created_at rows)"

fun hold_loop :: "(string \<Rightarrow> string) \<Rightarrow> string \<Rightarrow> string option \<Rightarrow> pending_request list \<Rightarrow> pending_request option" where
  "hold_loop sha256 session key [] = None"
| "hold_loop sha256 session key (r # rows) =
     (if key \<noteq> None \<and> Some (scope_key sha256 session (pr_model r) (pr_raw_request_headers r)) \<noteq> key
      then hold_loop sha256 session key rows
      else if pr_status r \<notin> {Pending, Expired} then None else Some r)"

definition latest_hold ::
  "(string \<Rightarrow> string) \<Rightarrow> string \<Rightarrow> string option \<Rightarrow> headers option \<Rightarrow> guard_db \<Rightarrow> pending_request option" where
  "latest_hold sha256 session_id model hs db =
     (if session_id = [] then None
      else let key = (case model of
                        None \<Rightarrow> None
                      | Some m \<Rightarrow> Some (scope_key sha256 session_id m (case hs of None \<Rightarrow> [] | Some h \<Rightarrow> h)))
           in hold_loop sha256 session_id key
                (newest_first (filter (\<lambda>r. pr_session_id r = session_id) (db_pending db))))"

definition discard_expired :: "string \<Rightarrow> string \<Rightarrow> secs \<Rightarrow> guard_db \<Rightarrow> guard_db" where
  "discard_expired session_id keep_id now db =
     db\<lparr>db_pending := snd (update_where
        (\<lambda>r. pr_session_id r = session_id \<and> pr_status r \<in> {Pending, Expired} \<and>
             pr_expires_at r \<le> now \<and> pr_pending_id r \<noteq> keep_id)
        (\<lambda>r. r\<lparr>pr_status := Discarded\<rparr>) (db_pending db))\<rparr>"

text \<open>\<^verbatim>\<open>ORDER BY created_at DESC LIMIT 1\<close> on the selected rows.\<close>

definition top_row :: "pending_request list \<Rightarrow> pending_request option" where
  "top_row rows = (case sort_key (\<lambda>r. - pr_created_at r) rows of [] \<Rightarrow> None | r # _ \<Rightarrow> Some r)"

definition get_by_session :: "string \<Rightarrow> secs \<Rightarrow> guard_db \<Rightarrow> pending_request option" where
  "get_by_session session_id now db =
     (if session_id = [] then None
      else top_row (filter (\<lambda>r. pr_session_id r = session_id \<and> pr_status r = Pending \<and> now < pr_expires_at r)
                     (db_pending db)))"

definition get_by_id :: "string \<Rightarrow> guard_db \<Rightarrow> pending_request option" where
  "get_by_id pending_id db = find (\<lambda>r. pr_pending_id r = pending_id) (db_pending db)"

definition recent_block_by_hash :: "string \<Rightarrow> secs \<Rightarrow> string \<Rightarrow> secs \<Rightarrow> guard_db \<Rightarrow> pending_request option" where
  "recent_block_by_hash request_hash within_seconds session_id now db =
     (if session_id = [] then None
      else top_row (filter (\<lambda>r. pr_request_hash r = request_hash \<and> pr_session_id r = session_id \<and>
                                now - within_seconds < pr_created_at r) (db_pending db)))"

section \<open>Settling holds\<close>

definition set_status :: "(pending_request \<Rightarrow> bool) \<Rightarrow> hold_status \<Rightarrow> guard_db \<Rightarrow> nat \<times> guard_db" where
  "set_status P st db =
     (case update_where P (\<lambda>r. r\<lparr>pr_status := st\<rparr>) (db_pending db) of
        (n, rows) \<Rightarrow> (n, db\<lparr>db_pending := rows\<rparr>))"

definition consume :: "string \<Rightarrow> guard_db \<Rightarrow> pending_request option \<times> guard_db" where
  "consume pending_id db =
     (case set_status (\<lambda>r. pr_pending_id r = pending_id \<and> pr_status r = Pending) Consumed db of
        (n, db') \<Rightarrow> if n \<noteq> 1 then (None, db') else (get_by_id pending_id db', db'))"

definition discard :: "string \<Rightarrow> guard_db \<Rightarrow> bool \<times> guard_db" where
  "discard pending_id db =
     (case set_status (\<lambda>r. pr_pending_id r = pending_id \<and> pr_status r \<in> {Pending, Expired}) Discarded db of
        (n, db') \<Rightarrow> (0 < n, db'))"

definition expire_old :: "secs \<Rightarrow> guard_db \<Rightarrow> nat \<times> guard_db" where
  "expire_old now db = set_status (\<lambda>r. pr_status r = Pending \<and> pr_expires_at r < now) Expired db"

definition redact_existing_rows :: "guard_db \<Rightarrow> guard_db" where
  "redact_existing_rows db =
     db\<lparr>db_pending := map (\<lambda>r. r\<lparr>pr_raw_request_headers := redact_headers (pr_raw_request_headers r)\<rparr>)
        (db_pending db)\<rparr>"

section \<open>Approvals\<close>

definition create_approval :: "string \<Rightarrow> tip_directive \<Rightarrow> risk_estimate \<Rightarrow> secs \<Rightarrow> guard_db \<Rightarrow> guard_db" where
  "create_approval key tip risk now db =
     (if tip_allow_scope tip \<notin> {Some Fifteen_minutes, Some Whole_session} then db
      else db\<lparr>db_approvals := AList.update key
             \<lparr>ap_expires_at = (if tip_allow_scope tip = Some Fifteen_minutes then Some (now + 900) else None),
              ap_max_tokens = tip_max_tokens tip,
              ap_remaining_cost = map_option (\<lambda>m. max 0 (m - re_projected_cost_usd risk)) (tip_max_cost_usd tip)\<rparr>
             (db_approvals db)\<rparr>)"

definition revoke :: "string \<Rightarrow> guard_db \<Rightarrow> guard_db" where
  "revoke key db = db\<lparr>db_approvals := AList.delete key (db_approvals db)\<rparr>"

definition approval_spent :: "risk_estimate \<Rightarrow> secs \<Rightarrow> approval \<Rightarrow> bool" where
  "approval_spent risk now ap =
     ((case ap_expires_at ap of None \<Rightarrow> False | Some e \<Rightarrow> e \<le> now) \<or>
      (case ap_max_tokens ap of None \<Rightarrow> False
       | Some m \<Rightarrow> m < re_projected_input_tokens risk + re_projected_output_tokens risk) \<or>
      (case ap_remaining_cost ap of None \<Rightarrow> False | Some c \<Rightarrow> c < re_projected_cost_usd risk))"

definition redeem :: "string \<Rightarrow> risk_estimate \<Rightarrow> secs \<Rightarrow> guard_db \<Rightarrow> bool \<times> guard_db" where
  "redeem key risk now db =
     (case map_of (db_approvals db) key of
        None \<Rightarrow> (False, db)
      | Some ap \<Rightarrow>
          if approval_spent risk now ap then (False, revoke key db)
          else case ap_remaining_cost ap of
                 None \<Rightarrow> (True, db)
               | Some c \<Rightarrow>
                   (True, db\<lparr>db_approvals := AList.update key
                      (ap\<lparr>ap_remaining_cost := Some (max 0 (c - re_projected_cost_usd risk))\<rparr>)
                      (db_approvals db)\<rparr>))"

definition reply_used :: "string \<Rightarrow> string \<Rightarrow> guard_db \<Rightarrow> bool" where
  "reply_used key reply_hash db = ((key, reply_hash) \<in> set (db_reply_uses db))"

definition remember_reply :: "string \<Rightarrow> string \<Rightarrow> guard_db \<Rightarrow> guard_db" where
  "remember_reply key reply_hash db =
     (if reply_used key reply_hash db then db
      else db\<lparr>db_reply_uses := db_reply_uses db @ [(key, reply_hash)]\<rparr>)"

definition consume_expired :: "string \<Rightarrow> string \<Rightarrow> string \<Rightarrow> secs \<Rightarrow> guard_db \<Rightarrow> bool \<times> guard_db" where
  "consume_expired key pending_id reply_hash now db =
     (if reply_used key reply_hash db then (False, db)
      else case set_status (\<lambda>r. pr_pending_id r = pending_id \<and> pr_status r \<in> {Pending, Expired} \<and>
                                pr_expires_at r \<le> now) Consumed db of
             (n, db') \<Rightarrow>
               if n \<noteq> 1 then (False, db')
               else (True, db'\<lparr>db_reply_uses := db_reply_uses db' @ [(key, reply_hash)]\<rparr>))"

section \<open>Operations as steps\<close>

datatype db_op =
    D_store "string \<Rightarrow> string" string secs hold_args
  | D_remember string string
  | D_discard_expired string string secs
  | D_consume string
  | D_discard string
  | D_expire secs
  | D_redact
  | D_create string tip_directive risk_estimate secs
  | D_revoke string
  | D_redeem string risk_estimate secs
  | D_remember_reply string string
  | D_consume_expired string string string secs

fun db_step :: "db_op \<Rightarrow> guard_db \<Rightarrow> guard_db" where
  "db_step (D_store blake i now a) db = snd (store blake i now a db)"
| "db_step (D_remember i resp) db = remember_block_response i resp db"
| "db_step (D_discard_expired sess keep now) db = discard_expired sess keep now db"
| "db_step (D_consume i) db = snd (consume i db)"
| "db_step (D_discard i) db = snd (discard i db)"
| "db_step (D_expire now) db = snd (expire_old now db)"
| "db_step D_redact db = redact_existing_rows db"
| "db_step (D_create key tip risk now) db = create_approval key tip risk now db"
| "db_step (D_revoke key) db = revoke key db"
| "db_step (D_redeem key risk now) db = snd (redeem key risk now db)"
| "db_step (D_remember_reply key h) db = remember_reply key h db"
| "db_step (D_consume_expired key i h now) db = snd (consume_expired key i h now db)"

section \<open>The life of a held request\<close>

definition status_moves :: "hold_status \<Rightarrow> hold_status \<Rightarrow> bool" where
  "status_moves a b = (a = b \<or> (a = Pending \<and> b \<noteq> Pending) \<or> (a = Expired \<and> b \<in> {Consumed, Discarded}))"

text \<open>
  \<open>advances r r'\<close>: the same held request at a later time.  Everything that will be replayed is
  unchanged; the status has moved along its life cycle; credentials may have been removed.
\<close>

definition advances :: "pending_request \<Rightarrow> pending_request \<Rightarrow> bool" where
  "advances r r' =
     (pr_pending_id r' = pr_pending_id r \<and> pr_session_id r' = pr_session_id r \<and>
      pr_created_at r' = pr_created_at r \<and> pr_expires_at r' = pr_expires_at r \<and>
      pr_request_hash r' = pr_request_hash r \<and> pr_provider r' = pr_provider r \<and>
      pr_model r' = pr_model r \<and> pr_projected_tokens r' = pr_projected_tokens r \<and>
      pr_projected_cost_usd r' = pr_projected_cost_usd r \<and>
      pr_raw_request_blob r' = pr_raw_request_blob r \<and> pr_target_url r' = pr_target_url r \<and>
      pr_projected_input_tokens r' = pr_projected_input_tokens r \<and>
      status_moves (pr_status r) (pr_status r') \<and>
      (pr_raw_request_headers r' = pr_raw_request_headers r \<or>
       pr_raw_request_headers r' = redact_headers (pr_raw_request_headers r)))"

lemma redact_idem [simp]: "redact_headers (redact_headers hs) = redact_headers hs"
  by (simp add: redact_headers_def)

lemma redact_none: "k \<in> fst ` set (redact_headers hs) \<Longrightarrow> lower k \<notin> set SENSITIVE_HEADERS"
  by (auto simp: redact_headers_def)

lemma status_moves_trans: "status_moves a b \<Longrightarrow> status_moves b c \<Longrightarrow> status_moves a c"
  by (cases a; cases b; cases c) (simp_all add: status_moves_def)

lemma advances_refl [simp]: "advances r r"
  by (simp add: advances_def status_moves_def)

lemma advances_trans: "advances r s \<Longrightarrow> advances s t \<Longrightarrow> advances r t"
  unfolding advances_def using status_moves_trans by (metis redact_idem)

lemma advances_map: "(\<And>r. advances r (f r)) \<Longrightarrow> list_all2 advances rows (map f rows)"
  by (induction rows) simp_all

lemma advances_set_status:
  assumes "\<And>r. P r \<Longrightarrow> status_moves (pr_status r) st"
  shows "list_all2 advances (db_pending db) (db_pending (snd (set_status P st db)))"
  using assms
  by (auto simp: set_status_def update_where_def intro!: advances_map) (auto simp: advances_def)

lemma advances_remember:
  "list_all2 advances (db_pending db) (db_pending (remember_block_response i resp db))"
  by (auto simp: remember_block_response_def update_where_def intro!: advances_map)
    (auto simp: advances_def status_moves_def)

lemma advances_discard_expired:
  "list_all2 advances (db_pending db) (db_pending (discard_expired sess keep now db))"
  by (auto simp: discard_expired_def update_where_def intro!: advances_map)
    (auto simp: advances_def status_moves_def)

lemma advances_redact: "list_all2 advances (db_pending db) (db_pending (redact_existing_rows db))"
  by (auto simp: redact_existing_rows_def intro!: advances_map) (auto simp: advances_def status_moves_def)

lemma snd_consume: "snd (consume i db) =
    snd (set_status (\<lambda>r. pr_pending_id r = i \<and> pr_status r = Pending) Consumed db)"
  by (simp add: consume_def split: prod.splits)

lemma snd_discard: "snd (discard i db) =
    snd (set_status (\<lambda>r. pr_pending_id r = i \<and> pr_status r \<in> {Pending, Expired}) Discarded db)"
  by (simp add: discard_def split: prod.splits)

lemma pending_consume_expired: "db_pending (snd (consume_expired key i h now db)) =
    (if reply_used key h db then db_pending db
     else db_pending (snd (set_status (\<lambda>r. pr_pending_id r = i \<and> pr_status r \<in> {Pending, Expired} \<and>
            pr_expires_at r \<le> now) Consumed db)))"
  by (simp add: consume_expired_def split: prod.splits)

lemma pending_approvals [simp]:
  "db_pending (create_approval key tip risk now db) = db_pending db"
  "db_pending (revoke key db) = db_pending db"
  "db_pending (snd (redeem key risk now db)) = db_pending db"
  "db_pending (remember_reply key h db) = db_pending db"
  by (auto simp: create_approval_def revoke_def redeem_def remember_reply_def split: option.splits)

lemma advances_list_refl [simp]: "list_all2 advances rows rows"
  by (induction rows) simp_all

definition rows_grow :: "guard_db \<Rightarrow> guard_db \<Rightarrow> bool" where
  "rows_grow db db' =
     (\<exists>old new. db_pending db' = old @ new \<and> list_all2 advances (db_pending db) old \<and>
        distinct (map pr_pending_id new) \<and>
        set (map pr_pending_id new) \<inter> set (map pr_pending_id (db_pending db)) = {})"

lemma rows_growI: "list_all2 advances (db_pending db) (db_pending db') \<Longrightarrow> rows_grow db db'"
  unfolding rows_grow_def by (intro exI[of _ "db_pending db'"] exI[of _ "[]"]) simp

lemma rows_grow_store: "rows_grow db (snd (store blake i now a db))"
proof (cases "ha_session_id a = [] \<or> i \<in> set (map pr_pending_id (db_pending db))")
  case True
  then show ?thesis by (intro rows_growI) (auto simp: store_def)
next
  case False
  then have "db_pending (snd (store blake i now a db)) = db_pending db @ [new_hold blake i now a]"
    by (simp add: store_def Let_def)
  with False show ?thesis
    unfolding rows_grow_def
    by (intro exI[of _ "db_pending db"] exI[of _ "[new_hold blake i now a]"]) (simp add: new_hold_def)
qed

lemma db_step_rows: "rows_grow db (db_step op db)"
proof (cases op)
  case (D_store blake i now a)
  then show ?thesis using rows_grow_store by simp
next
  case (D_consume i)
  then show ?thesis by (auto simp: snd_consume status_moves_def intro!: rows_growI advances_set_status)
next
  case (D_discard i)
  then show ?thesis by (auto simp: snd_discard status_moves_def intro!: rows_growI advances_set_status)
next
  case (D_expire now)
  then show ?thesis by (auto simp: expire_old_def status_moves_def intro!: rows_growI advances_set_status)
next
  case (D_consume_expired key i h now)
  then show ?thesis
    by (auto simp: pending_consume_expired status_moves_def intro!: rows_growI advances_set_status)
qed (simp_all add: rows_growI advances_remember advances_discard_expired advances_redact)

definition db_ok :: "guard_db \<Rightarrow> bool" where
  "db_ok db = distinct (map pr_pending_id (db_pending db))"

lemma advances_ids: "list_all2 advances rows old \<Longrightarrow> map pr_pending_id old = map pr_pending_id rows"
  by (induction rule: list_all2_induct) (auto simp: advances_def)

lemma db_step_ok: "db_ok db \<Longrightarrow> db_ok (db_step op db)"
proof -
  assume ok: "db_ok db"
  obtain old new where o: "db_pending (db_step op db) = old @ new" "list_all2 advances (db_pending db) old"
    "distinct (map pr_pending_id new)"
    "set (map pr_pending_id new) \<inter> set (map pr_pending_id (db_pending db)) = {}"
    using db_step_rows[of db op] by (auto simp: rows_grow_def)
  then show ?thesis
    using ok advances_ids[OF o(2)] unfolding db_ok_def by (simp add: Int_commute del: set_map)
qed

lemma db_run_ok: "db_ok db \<Longrightarrow> db_ok (fold db_step ops db)"
  by (induction ops arbitrary: db) (simp_all add: db_step_ok)

lemma db_step_advances:
  "r \<in> set (db_pending db) \<Longrightarrow> \<exists>r' \<in> set (db_pending (db_step op db)). advances r r'"
proof -
  assume r: "r \<in> set (db_pending db)"
  obtain old new where o: "db_pending (db_step op db) = old @ new" "list_all2 advances (db_pending db) old"
    using db_step_rows[of db op] by (auto simp: rows_grow_def)
  obtain i where i: "i < length (db_pending db)" "db_pending db ! i = r"
    using r by (auto simp: in_set_conv_nth)
  then have "advances r (old ! i)" "i < length old"
    using o(2) by (auto simp: list_all2_conv_all_nth)
  then show ?thesis using o(1) by auto
qed

lemma db_run_advances:
  "r \<in> set (db_pending db) \<Longrightarrow> \<exists>r' \<in> set (db_pending (fold db_step ops db)). advances r r'"
proof (induction ops arbitrary: db r)
  case (Cons op ops)
  obtain r1 where r1: "r1 \<in> set (db_pending (db_step op db))" "advances r r1"
    using db_step_advances[OF Cons.prems] by blast
  obtain r2 where "r2 \<in> set (db_pending (fold db_step ops (db_step op db)))" "advances r1 r2"
    using Cons.IH[OF r1(1)] by blast
  with r1(2) show ?case using advances_trans by auto
next
  case Nil
  then show ?case by (auto intro!: bexI[of _ r])
qed

text \<open>
  A hold is never lost, altered or revived.  Whatever operations run on the database, a held
  request is still there under its id with the same bytes, target and projection; its status
  only moves from pending to expired, and from either to consumed or discarded, and once
  consumed or discarded it never changes again.
\<close>

lemma hold_lifecycle:
  assumes "r \<in> set (db_pending db)"
  shows "\<exists>r' \<in> set (db_pending (fold db_step ops db)).
           advances r r' \<and> (pr_status r \<in> {Consumed, Discarded} \<longrightarrow> pr_status r' = pr_status r)"
proof -
  obtain r' where "r' \<in> set (db_pending (fold db_step ops db))" "advances r r'"
    using db_run_advances[OF assms] by blast
  then show ?thesis by (intro bexI[of _ r']) (auto simp: advances_def status_moves_def)
qed

definition example_args :: hold_args where
  "example_args = \<lparr>ha_session_id = ''s'', ha_body = ''body'', ha_headers = [(''Authorization'', ''k''), (''X-A'', ''1'')],
     ha_target_url = ''u'', ha_provider = ''p'', ha_model = ''m'', ha_projected_tokens = 10,
     ha_projected_cost_usd = 1, ha_ttl_seconds = 600, ha_projected_input_tokens = None\<rparr>"

definition example_db :: guard_db where
  "example_db = snd (store id ''tpg_1'' 0 example_args empty_db)"

lemma example_db_rows: "db_pending example_db = [new_hold id ''tpg_1'' 0 example_args]"
  by (simp add: example_db_def store_def empty_db_def example_args_def Let_def)

theorem hold_lifecycle_witness:
  "\<exists>r' \<in> set (db_pending (fold db_step [D_consume ''tpg_1'', D_discard ''tpg_1''] example_db)).
     advances (new_hold id ''tpg_1'' 0 example_args) r' \<and>
     (pr_status (new_hold id ''tpg_1'' 0 example_args) \<in> {Consumed, Discarded} \<longrightarrow>
        pr_status r' = pr_status (new_hold id ''tpg_1'' 0 example_args))"
  by (rule hold_lifecycle) (simp add: example_db_rows)

section \<open>A hold is taken once\<close>

fun takes :: "string \<Rightarrow> db_op \<Rightarrow> guard_db \<Rightarrow> bool" where
  "takes i (D_consume j) db = (j = i \<and> fst (consume j db) \<noteq> None)"
| "takes i (D_consume_expired key j h now) db = (j = i \<and> fst (consume_expired key j h now db))"
| "takes i _ db = False"

definition hold_act :: "string \<Rightarrow> db_op \<Rightarrow> guard_db \<Rightarrow> bool \<times> guard_db" where
  "hold_act i op db = (takes i op db, db_step op db)"

definition hold_open :: "string \<Rightarrow> guard_db \<Rightarrow> bool" where
  "hold_open i db = (\<forall>r \<in> set (db_pending db). pr_pending_id r = i \<longrightarrow> pr_status r \<in> {Pending, Expired})"

lemma settled_stays:
  assumes "db_ok db" "\<not> hold_open i db"
  shows "\<not> hold_open i (db_step op db)"
proof -
  obtain r where r: "r \<in> set (db_pending db)" "pr_pending_id r = i" "pr_status r \<notin> {Pending, Expired}"
    using assms(2) by (auto simp: hold_open_def)
  obtain r' where r': "r' \<in> set (db_pending (db_step op db))" "advances r r'"
    using db_step_advances[OF r(1)] by blast
  then have "pr_pending_id r' = i" "pr_status r' \<notin> {Pending, Expired}"
    using r(2,3) by (cases "pr_status r"; auto simp: advances_def status_moves_def)+
  with r'(1) show ?thesis by (auto simp: hold_open_def)
qed

lemma set_status_one:
  assumes "set_status P st db = (n, db')" "n \<noteq> 0"
  shows "\<exists>r \<in> set (db_pending db). P r \<and> r\<lparr>pr_status := st\<rparr> \<in> set (db_pending db')"
proof -
  have n: "n = length (filter P (db_pending db))"
    and rows: "db_pending db' = map (\<lambda>r. if P r then r\<lparr>pr_status := st\<rparr> else r) (db_pending db)"
    using assms(1) by (auto simp: set_status_def update_where_def)
  then obtain r where "r \<in> set (db_pending db)" "P r"
    using assms(2) by (metis filter_False length_0_conv)
  moreover have "r\<lparr>pr_status := st\<rparr> \<in> set (db_pending db')"
    using calculation by (auto simp: rows image_iff intro!: bexI[of _ r])
  ultimately show ?thesis by blast
qed

lemma same_id_same_row:
  "db_ok db \<Longrightarrow> r \<in> set (db_pending db) \<Longrightarrow> q \<in> set (db_pending db) \<Longrightarrow> pr_pending_id q = pr_pending_id r \<Longrightarrow> q = r"
  by (auto simp: db_ok_def distinct_map inj_on_def)

lemma take_closes:
  assumes "db_ok db" "takes i op db"
  shows "hold_open i db \<and> \<not> hold_open i (db_step op db)"
proof -
  define P :: "pending_request \<Rightarrow> bool" where "P = (case op of
      D_consume j \<Rightarrow> (\<lambda>r. pr_pending_id r = j \<and> pr_status r = Pending)
    | D_consume_expired key j h now \<Rightarrow>
        (\<lambda>r. pr_pending_id r = j \<and> pr_status r \<in> {Pending, Expired} \<and> pr_expires_at r \<le> now)
    | _ \<Rightarrow> (\<lambda>r. False))"
  obtain n db' where ss: "set_status P Consumed db = (n, db')" by fastforce
  have n: "n \<noteq> 0" "db_pending (db_step op db) = db_pending db'"
    and Pi: "\<And>r. P r \<Longrightarrow> pr_pending_id r = i \<and> pr_status r \<in> {Pending, Expired}"
    using assms(2) ss
    by (cases op; auto simp: P_def consume_def consume_expired_def split: prod.splits if_splits)+
  obtain r where r: "r \<in> set (db_pending db)" "P r" "r\<lparr>pr_status := Consumed\<rparr> \<in> set (db_pending db')"
    using set_status_one[OF ss n(1)] by blast
  have "hold_open i db"
    using same_id_same_row[OF assms(1) r(1)] Pi[OF r(2)] by (auto simp: hold_open_def)
  moreover have "\<not> hold_open i (db_step op db)"
    using r(3) Pi[OF r(2)] unfolding hold_open_def n(2) by force
  ultimately show ?thesis ..
qed

interpretation hold_once: one_shot "hold_act i" "hold_open i" db_ok for i
  by unfold_locales (auto simp: hold_act_def db_step_ok settled_stays take_closes)

text \<open>
  C25.  A held request is handed out once.  In any interleaving of any number of consumers,
  expired-approval consumers and other operations, at most one of them obtains a given hold.
\<close>

theorem hold_consumed_at_most_once:
  assumes "db_ok db"
  shows "wins (hold_act i) ops db \<le> 1"
  by (rule hold_once.wins_at_most_once[OF assms])

theorem hold_consumed_at_most_once_witness:
  "wins (hold_act ''tpg_1'') [D_consume ''tpg_1'', D_consume ''tpg_1''] example_db \<le> 1"
  by (rule hold_consumed_at_most_once) (simp add: db_ok_def example_db_rows)

section \<open>What is replayed\<close>

lemma get_by_id_mem: "get_by_id i db = Some r \<Longrightarrow> r \<in> set (db_pending db) \<and> pr_pending_id r = i"
  by (auto simp: get_by_id_def find_Some_iff)

lemma get_by_id_unique:
  assumes "db_ok db" "r \<in> set (db_pending db)" "pr_pending_id r = i"
  shows "get_by_id i db = Some r"
proof (cases "get_by_id i db")
  case None
  with assms(2,3) show ?thesis by (auto simp: get_by_id_def find_None_iff)
next
  case (Some q)
  with get_by_id_mem[OF Some] same_id_same_row[OF assms(1,2)] assms(3) show ?thesis by simp
qed

lemma consume_result:
  assumes "db_ok db" "consume i db = (Some r', db')" "r \<in> set (db_pending db)" "pr_pending_id r = i"
  shows "r' = r\<lparr>pr_status := Consumed\<rparr> \<and> pr_status r = Pending"
proof -
  obtain n db1 where ss: "set_status (\<lambda>r. pr_pending_id r = i \<and> pr_status r = Pending) Consumed db = (n, db1)"
    by fastforce
  then have n: "n \<noteq> 0" "db' = db1" "get_by_id i db1 = Some r'"
    using assms(2) by (auto simp: consume_def split: if_splits)
  obtain q where q: "q \<in> set (db_pending db)" "pr_pending_id q = i" "pr_status q = Pending"
    "q\<lparr>pr_status := Consumed\<rparr> \<in> set (db_pending db1)"
    using set_status_one[OF ss n(1)] by blast
  have "db_ok db1" using db_step_ok[OF assms(1), of "D_consume i"] assms(2) n(2) by simp
  then have "get_by_id i db1 = Some (q\<lparr>pr_status := Consumed\<rparr>)"
    using q(2,4) by (intro get_by_id_unique) simp_all
  moreover have "q = r" using same_id_same_row[OF assms(1,3) q(1)] q(2) assms(4) by simp
  ultimately show ?thesis using n(3) q(3) by simp
qed

text \<open>
  Replay is verbatim and carries no credentials.  If a request is held, and after any
  sequence of operations a consumer obtains it, the consumer gets exactly the bytes, target
  and model that were held, and headers from which every credential header has been removed
  whatever its capitalisation; no credential is ever in the table.
\<close>

lemma replay_is_verbatim:
  assumes "db_ok db" "store blake i now a db = (Inr row, db1)"
    and "consume i (fold db_step ops db1) = (Some r, db2)"
  shows "pr_raw_request_blob r = ha_body a \<and> pr_target_url r = ha_target_url a \<and> pr_model r = ha_model a \<and>
         pr_session_id r = ha_session_id a \<and>
         pr_raw_request_headers r = redact_headers (ha_headers a) \<and>
         (\<forall>k \<in> set (map fst (pr_raw_request_headers r)). lower k \<notin> set SENSITIVE_HEADERS)"
proof -
  have row: "row = new_hold blake i now a" "row \<in> set (db_pending db1)"
    using assms(2) by (auto simp: store_def Let_def split: if_splits)
  have "db1 = db_step (D_store blake i now a) db" using assms(2) by simp
  then have ok: "db_ok (fold db_step ops db1)" using assms(1) db_step_ok db_run_ok by metis
  obtain r0 where r0: "r0 \<in> set (db_pending (fold db_step ops db1))" "advances row r0"
    using db_run_advances[OF row(2)] by blast
  then have "pr_pending_id r0 = i" using row(1) by (simp add: advances_def new_hold_def)
  then have "r = r0\<lparr>pr_status := Consumed\<rparr>" using consume_result[OF ok assms(3) r0(1)] by simp
  moreover have "pr_raw_request_headers r0 = redact_headers (ha_headers a)"
    using r0(2) row(1) by (auto simp: advances_def new_hold_def)
  ultimately show ?thesis
    using r0(2) row(1) redact_none[of _ "ha_headers a"] by (auto simp: advances_def new_hold_def)
qed

theorem replay_is_verbatim_witness:
  "fst (consume ''tpg_1'' (fold db_step [D_expire 0] example_db)) \<noteq> None \<and>
   pr_raw_request_blob (the (fst (consume ''tpg_1'' (fold db_step [D_expire 0] example_db)))) = ''body''"
proof -
  have st: "store id ''tpg_1'' 0 example_args empty_db = (Inr (new_hold id ''tpg_1'' 0 example_args), example_db)"
    by (simp add: example_db_def store_def empty_db_def example_args_def Let_def)
  have some: "fst (consume ''tpg_1'' (fold db_step [D_expire 0] example_db)) \<noteq> None"
    by (simp add: consume_def set_status_def update_where_def get_by_id_def expire_old_def
        example_db_rows new_hold_def example_args_def)
  then obtain r db2 where run: "consume ''tpg_1'' (fold db_step [D_expire 0] example_db) = (Some r, db2)"
    by (metis not_None_eq prod.collapse)
  have "pr_raw_request_blob r = ''body''"
    using replay_is_verbatim[OF _ st run] by (simp add: db_ok_def empty_db_def example_args_def)
  with some run show ?thesis by simp
qed

section \<open>Approval budgets\<close>

fun redeem_run :: "string \<Rightarrow> (risk_estimate \<times> secs) list \<Rightarrow> guard_db \<Rightarrow> money \<times> guard_db" where
  "redeem_run key [] db = (0, db)"
| "redeem_run key ((risk, now) # qs) db =
     (case redeem key risk now db of
        (ok, db1) \<Rightarrow> (case redeem_run key qs db1 of
                       (spent, db2) \<Rightarrow> (if ok then re_projected_cost_usd risk + spent else spent, db2)))"

lemma redeem_absent: "map_of (db_approvals db) key = None \<Longrightarrow> redeem_run key qs db = (0, db)"
proof (induction qs)
  case (Cons q qs)
  then show ?case by (cases q) (simp add: redeem_def)
qed simp


definition cheap_risk :: risk_estimate where
  "cheap_risk = \<lparr>re_model = ''m'', re_current_context_tokens = 0, re_request_tokens = 0,
     re_projected_input_tokens = 1, re_projected_output_tokens = 1, re_projected_cost_usd = 2,
     re_cache_hit_ratio = 0, re_rates = []\<rparr>"


section \<open>A late reply approves once\<close>

fun reply_wins :: "string \<Rightarrow> string \<Rightarrow> db_op \<Rightarrow> guard_db \<Rightarrow> bool" where
  "reply_wins key h (D_consume_expired key' i h' now) db =
     (key' = key \<and> h' = h \<and> fst (consume_expired key' i h' now db))"
| "reply_wins key h _ db = False"

definition reply_act :: "string \<Rightarrow> string \<Rightarrow> db_op \<Rightarrow> guard_db \<Rightarrow> bool \<times> guard_db" where
  "reply_act key h op db = (reply_wins key h op db, db_step op db)"

lemma reply_uses_grow: "set (db_reply_uses db) \<subseteq> set (db_reply_uses (db_step op db))"
  by (cases op) (auto simp: store_def Let_def remember_block_response_def discard_expired_def snd_consume
      snd_discard expire_old_def set_status_def redact_existing_rows_def create_approval_def revoke_def
      redeem_def remember_reply_def consume_expired_def split: prod.splits option.splits)

lemma reply_win_used:
  "reply_wins key h op db \<Longrightarrow> \<not> reply_used key h db \<and> reply_used key h (db_step op db)"
  by (cases op) (auto simp: consume_expired_def reply_used_def split: prod.splits if_splits)

interpretation reply_once: one_shot "reply_act key h" "\<lambda>db. \<not> reply_used key h db" "\<lambda>db. True" for key h
proof
  fix s s' e
  assume "reply_act key h e s = (True, s')"
  then show "\<not> reply_used key h s \<and> \<not> \<not> reply_used key h s'"
    using reply_win_used by (auto simp: reply_act_def)
next
  fix s s' e w
  assume "\<not> \<not> reply_used key h s" "reply_act key h e s = (w, s')"
  then show "\<not> \<not> reply_used key h s'"
    using reply_uses_grow[of s e] by (auto simp: reply_act_def reply_used_def)
qed simp

text \<open>
  One late reply approves at most one expired hold: over any run of operations, at most one
  expired hold is consumed under a given scope and reply, and none once the reply was noted.
\<close>

lemma late_reply_approves_once:
  "wins (reply_act key h) ops db \<le> 1 \<and>
   wins (reply_act key h) ops (remember_reply key h db) = 0"
proof -
  have "reply_used key h (remember_reply key h db)"
    by (auto simp: remember_reply_def reply_used_def)
  then show ?thesis
    using reply_once.wins_at_most_once reply_once.no_wins_when_used by simp
qed

section \<open>Scope of the lookups\<close>

lemma latest_hold_scope:
  "latest_hold sha256 sess model hs db = Some r \<Longrightarrow>
   pr_session_id r = sess \<and> pr_status r \<in> {Pending, Expired} \<and> r \<in> set (db_pending db)"
proof -
  assume "latest_hold sha256 sess model hs db = Some r"
  moreover have "hold_loop sha256 sess key rows = Some r \<Longrightarrow>
      r \<in> set rows \<and> pr_status r \<in> {Pending, Expired}" for key rows
    by (induction sha256 sess key rows rule: hold_loop.induct) (auto split: if_splits)
  ultimately have "r \<in> set (newest_first (filter (\<lambda>r. pr_session_id r = sess) (db_pending db))) \<and>
      pr_status r \<in> {Pending, Expired}"
    by (auto simp: latest_hold_def Let_def split: if_splits)
  then show ?thesis by (simp add: newest_first_def)
qed

lemma top_row_mem: "top_row rows = Some r \<Longrightarrow> r \<in> set rows \<and> (\<forall>q \<in> set rows. pr_created_at q \<le> pr_created_at r)"
proof -
  assume "top_row rows = Some r"
  then obtain qs where qs: "sort_key (\<lambda>r. - pr_created_at r) rows = r # qs"
    by (auto simp: top_row_def split: list.splits)
  have "sorted (map (\<lambda>r. - pr_created_at r) (r # qs))"
    by (metis qs sorted_sort_key)
  moreover have "set rows = set (r # qs)" by (metis qs set_sort)
  ultimately show ?thesis by auto
qed

lemma get_by_session_sound:
  "get_by_session sess now db = Some r \<Longrightarrow>
   pr_session_id r = sess \<and> pr_status r = Pending \<and> now < pr_expires_at r \<and> r \<in> set (db_pending db)"
  by (auto simp: get_by_session_def split: if_splits dest: top_row_mem)

end
