(* ===== verification/Circuit_Breaker.thy ===== *)
theory Circuit_Breaker
  imports Prelude
begin

text \<open>
  The per-provider circuit breaker, its registry, and the breaker for 429 responses
  (\<^verbatim>\<open>src/tokenpak/proxy/circuit_breaker.py\<close>, classes \<^verbatim>\<open>CircuitBreaker\<close>,
  \<^verbatim>\<open>CircuitBreakerRegistry\<close>, \<^verbatim>\<open>RateLimitCircuitBreaker\<close> and its registry).  Every method
  runs under the object's lock, so each is one step; \<^verbatim>\<open>time.monotonic()\<close> is the argument \<open>now\<close>
  and the identity of a probe's owner is a number.  \<open>cb_reach\<close> is the set of breaker states
  reachable by calls at times that never go back.
\<close>

section \<open>The breaker\<close>

datatype circuit_state = CLOSED | OPEN | HALF_OPEN

record cb_config =
  cbc_enabled :: bool
  cbc_failure_threshold :: int
  cbc_recovery_timeout :: secs
  cbc_window_seconds :: secs
  cbc_min_failure_ratio :: rat

definition CircuitBreakerConfig :: cb_config where
  "CircuitBreakerConfig = \<lparr>cbc_enabled = True, cbc_failure_threshold = 5, cbc_recovery_timeout = 60,
     cbc_window_seconds = 60, cbc_min_failure_ratio = 1 / 2\<rparr>"

record breaker =
  cb_provider :: string
  cb_cfg :: cb_config
  cb_state :: circuit_state
  cb_failure_times :: "secs list"
  cb_success_times :: "secs list"
  cb_opened_at :: secs
  cb_probe_in_flight :: bool
  cb_probe_owner :: "nat option"
  cb_total_trips :: nat
  cb_total_successes :: nat
  cb_total_failures :: nat

definition CircuitBreaker :: "string \<Rightarrow> cb_config \<Rightarrow> breaker" where
  "CircuitBreaker provider config =
     \<lparr>cb_provider = provider, cb_cfg = config, cb_state = CLOSED, cb_failure_times = [],
      cb_success_times = [], cb_opened_at = 0, cb_probe_in_flight = False, cb_probe_owner = None,
      cb_total_trips = 0, cb_total_successes = 0, cb_total_failures = 0\<rparr>"

definition allow_request :: "nat option \<Rightarrow> secs \<Rightarrow> breaker \<Rightarrow> bool \<times> breaker" where
  "allow_request probe_owner now b =
     (if \<not> cbc_enabled (cb_cfg b) then (True, b)
      else case cb_state b of
             CLOSED \<Rightarrow> (True, b)
           | OPEN \<Rightarrow>
               if cbc_recovery_timeout (cb_cfg b) \<le> now - cb_opened_at b
               then (True, b\<lparr>cb_state := HALF_OPEN, cb_probe_in_flight := True, cb_probe_owner := probe_owner\<rparr>)
               else (False, b)
           | HALF_OPEN \<Rightarrow>
               if \<not> cb_probe_in_flight b
               then (True, b\<lparr>cb_probe_in_flight := True, cb_probe_owner := probe_owner\<rparr>)
               else (False, b))"

definition release_probe :: "nat option \<Rightarrow> breaker \<Rightarrow> bool \<times> breaker" where
  "release_probe owner b =
     (if owner = None \<or> owner \<noteq> cb_probe_owner b \<or> cb_state b \<noteq> HALF_OPEN \<or> \<not> cb_probe_in_flight b
      then (False, b)
      else (True, b\<lparr>cb_probe_in_flight := False, cb_probe_owner := None\<rparr>))"

definition push_success :: "secs \<Rightarrow> breaker \<Rightarrow> breaker" where
  "push_success now b =
     b\<lparr>cb_total_successes := cb_total_successes b + 1,
       cb_success_times := popleft_older (now - cbc_window_seconds (cb_cfg b)) (cb_success_times b @ [now])\<rparr>"

definition record_success :: "secs \<Rightarrow> breaker \<Rightarrow> breaker" where
  "record_success now b =
     (let b1 = push_success now b in
      if cb_state b1 = HALF_OPEN
      then b1\<lparr>cb_state := CLOSED, cb_failure_times := [], cb_probe_in_flight := False, cb_probe_owner := None\<rparr>
      else b1)"

definition push_failure :: "secs \<Rightarrow> breaker \<Rightarrow> breaker" where
  "push_failure now b =
     (let cutoff = now - cbc_window_seconds (cb_cfg b) in
      b\<lparr>cb_failure_times := popleft_older cutoff (cb_failure_times b @ [now]),
        cb_success_times := popleft_older cutoff (cb_success_times b)\<rparr>)"

definition failure_ratio :: "breaker \<Rightarrow> rat" where
  "failure_ratio b =
     (let fails = length (cb_failure_times b); total = fails + length (cb_success_times b) in
      if 0 < total then of_nat fails / of_nat total else 1)"

definition record_failure :: "secs \<Rightarrow> breaker \<Rightarrow> breaker" where
  "record_failure now b =
     (let b0 = b\<lparr>cb_total_failures := cb_total_failures b + 1\<rparr> in
      case cb_state b0 of
        HALF_OPEN \<Rightarrow> b0\<lparr>cb_state := OPEN, cb_opened_at := now, cb_probe_in_flight := False, cb_probe_owner := None\<rparr>
      | OPEN \<Rightarrow> b0
      | CLOSED \<Rightarrow>
          (let b1 = push_failure now b0 in
           if cbc_failure_threshold (cb_cfg b1) \<le> int (length (cb_failure_times b1)) \<and>
              cbc_min_failure_ratio (cb_cfg b1) \<le> failure_ratio b1
           then b1\<lparr>cb_state := OPEN, cb_opened_at := now, cb_total_trips := cb_total_trips b1 + 1\<rparr>
           else b1))"

record cb_status =
  cs_state :: circuit_state
  cs_failures_in_window :: nat
  cs_successes_in_window :: nat
  cs_failure_ratio :: rat
  cs_failure_threshold :: int
  cs_min_failure_ratio :: rat
  cs_time_until_probe :: "secs option"
  cs_total_trips :: nat
  cs_total_successes :: nat
  cs_total_failures :: nat

definition trim_windows :: "secs \<Rightarrow> breaker \<Rightarrow> breaker" where
  "trim_windows now b =
     (let cutoff = now - cbc_window_seconds (cb_cfg b) in
      b\<lparr>cb_success_times := popleft_older cutoff (cb_success_times b),
        cb_failure_times := popleft_older cutoff (cb_failure_times b)\<rparr>)"

definition status :: "secs \<Rightarrow> breaker \<Rightarrow> cb_status \<times> breaker" where
  "status now b =
     (let b1 = trim_windows now b;
          fails = length (cb_failure_times b1); successes = length (cb_success_times b1);
          total = fails + successes
      in (\<lparr>cs_state = cb_state b1, cs_failures_in_window = fails, cs_successes_in_window = successes,
           cs_failure_ratio = py_round 3 (if 0 < total then of_nat fails / of_nat total else 0),
           cs_failure_threshold = cbc_failure_threshold (cb_cfg b1),
           cs_min_failure_ratio = cbc_min_failure_ratio (cb_cfg b1),
           cs_time_until_probe =
             (if cb_state b1 = OPEN
              then Some (max 0 (py_round 1 (cbc_recovery_timeout (cb_cfg b1) - (now - cb_opened_at b1))))
              else None),
           cs_total_trips = cb_total_trips b1, cs_total_successes = cb_total_successes b1,
           cs_total_failures = cb_total_failures b1\<rparr>, b1))"

definition reset :: "breaker \<Rightarrow> breaker" where
  "reset b = b\<lparr>cb_state := CLOSED, cb_failure_times := [], cb_success_times := [],
     cb_probe_in_flight := False, cb_probe_owner := None, cb_opened_at := 0\<rparr>"

section \<open>The registry\<close>

record cb_registry =
  reg_config :: cb_config
  reg_breakers :: "(string, breaker) dict"

definition get_or_create :: "string \<Rightarrow> cb_registry \<Rightarrow> breaker" where
  "get_or_create provider g = entry (CircuitBreaker provider (reg_config g)) provider (reg_breakers g)"

definition call_breaker :: "string \<Rightarrow> (breaker \<Rightarrow> 'r \<times> breaker) \<Rightarrow> cb_registry \<Rightarrow> 'r \<times> cb_registry" where
  "call_breaker provider call g =
     (case with_entry (CircuitBreaker provider (reg_config g)) provider call (reg_breakers g) of
        (r, d) \<Rightarrow> (r, g\<lparr>reg_breakers := d\<rparr>))"

datatype cb_event =
    Allow_request "nat option" secs
  | Release_probe "nat option"
  | Record_success secs
  | Record_failure secs
  | Status secs
  | Reset

fun cb_step :: "cb_event \<Rightarrow> breaker \<Rightarrow> bool \<times> breaker" where
  "cb_step (Allow_request owner now) b = allow_request owner now b"
| "cb_step (Release_probe owner) b = release_probe owner b"
| "cb_step (Record_success now) b = (True, record_success now b)"
| "cb_step (Record_failure now) b = (True, record_failure now b)"
| "cb_step (Status now) b = (True, snd (status now b))"
| "cb_step Reset b = (True, reset b)"

definition reg_step :: "string \<Rightarrow> cb_event \<Rightarrow> cb_registry \<Rightarrow> bool \<times> cb_registry" where
  "reg_step provider e g = call_breaker provider (cb_step e) g"

definition reload_config :: "cb_config \<Rightarrow> cb_registry \<Rightarrow> cb_registry" where
  "reload_config new_config g =
     g\<lparr>reg_config := new_config, reg_breakers := map (\<lambda>(k, b). (k, b\<lparr>cb_cfg := new_config\<rparr>)) (reg_breakers g)\<rparr>"

definition all_statuses :: "secs \<Rightarrow> cb_registry \<Rightarrow> (string, cb_status) dict \<times> cb_registry" where
  "all_statuses now g =
     (map (\<lambda>(k, b). (k, fst (status now b))) (reg_breakers g),
      g\<lparr>reg_breakers := map (\<lambda>(k, b). (k, snd (status now b))) (reg_breakers g)\<rparr>)"

definition reset_all :: "cb_registry \<Rightarrow> cb_registry" where
  "reset_all g = g\<lparr>reg_breakers := map (\<lambda>(k, b). (k, reset b)) (reg_breakers g)\<rparr>"

section \<open>The 429 breaker\<close>

record rl_breaker =
  rl_window_sec :: secs
  rl_threshold :: int
  rl_cooldown_sec :: secs
  rl_429_times :: "secs list"
  rl_opened_at :: secs
  rl_is_open :: bool

definition RateLimitCircuitBreaker :: "secs option \<Rightarrow> int option \<Rightarrow> secs option \<Rightarrow> rl_breaker" where
  "RateLimitCircuitBreaker window threshold cooldown =
     \<lparr>rl_window_sec = (case window of None \<Rightarrow> 60 | Some w \<Rightarrow> w),
      rl_threshold = (case threshold of None \<Rightarrow> 5 | Some n \<Rightarrow> n),
      rl_cooldown_sec = (case cooldown of None \<Rightarrow> 30 | Some c \<Rightarrow> c),
      rl_429_times = [], rl_opened_at = 0, rl_is_open = False\<rparr>"

definition push_429 :: "secs \<Rightarrow> rl_breaker \<Rightarrow> rl_breaker" where
  "push_429 now b = b\<lparr>rl_429_times := popleft_older (now - rl_window_sec b) (rl_429_times b @ [now])\<rparr>"

definition record_429 :: "secs \<Rightarrow> rl_breaker \<Rightarrow> rl_breaker" where
  "record_429 now b =
     (let b1 = push_429 now b in
      if \<not> rl_is_open b1 \<and> rl_threshold b1 \<le> int (length (rl_429_times b1))
      then b1\<lparr>rl_is_open := True, rl_opened_at := now\<rparr> else b1)"

definition rl_reset :: "rl_breaker \<Rightarrow> rl_breaker" where
  "rl_reset b = b\<lparr>rl_is_open := False, rl_429_times := [], rl_opened_at := 0\<rparr>"

definition is_open :: "secs \<Rightarrow> rl_breaker \<Rightarrow> bool \<times> rl_breaker" where
  "is_open now b =
     (if \<not> rl_is_open b then (False, b)
      else if rl_cooldown_sec b \<le> now - rl_opened_at b then (False, rl_reset b)
      else (True, b))"

record rl_status =
  rs_is_open :: bool
  rs_window_sec :: secs
  rs_threshold :: int
  rs_cooldown_sec :: secs
  rs_recent_429s :: nat
  rs_cooldown_remaining :: "secs option"

definition rl_status_of :: "secs \<Rightarrow> rl_breaker \<Rightarrow> rl_status" where
  "rl_status_of now b =
     \<lparr>rs_is_open = rl_is_open b, rs_window_sec = rl_window_sec b, rs_threshold = rl_threshold b,
      rs_cooldown_sec = rl_cooldown_sec b, rs_recent_429s = length (rl_429_times b),
      rs_cooldown_remaining =
        (if rl_is_open b then Some (py_round 1 (max 0 (rl_cooldown_sec b - (now - rl_opened_at b)))) else None)\<rparr>"

record rl_registry =
  rlr_window_sec :: "secs option"
  rlr_threshold :: "int option"
  rlr_cooldown_sec :: "secs option"
  rlr_breakers :: "(string, rl_breaker) dict"

datatype rl_event = Record_429 secs | Is_open secs | Rl_reset

fun rl_step :: "rl_event \<Rightarrow> rl_breaker \<Rightarrow> bool \<times> rl_breaker" where
  "rl_step (Record_429 now) b = (True, record_429 now b)"
| "rl_step (Is_open now) b = is_open now b"
| "rl_step Rl_reset b = (True, rl_reset b)"

definition rl_fresh :: "rl_registry \<Rightarrow> rl_breaker" where
  "rl_fresh g = RateLimitCircuitBreaker (rlr_window_sec g) (rlr_threshold g) (rlr_cooldown_sec g)"

definition rl_reg_step :: "string \<Rightarrow> rl_event \<Rightarrow> rl_registry \<Rightarrow> bool \<times> rl_registry" where
  "rl_reg_step provider e g =
     (case with_entry (rl_fresh g) provider (rl_step e) (rlr_breakers g) of
        (r, d) \<Rightarrow> (r, g\<lparr>rlr_breakers := d\<rparr>))"

definition rl_reset_all :: "rl_registry \<Rightarrow> rl_registry" where
  "rl_reset_all g = g\<lparr>rlr_breakers := map (\<lambda>(k, b). (k, rl_reset b)) (rlr_breakers g)\<rparr>"

section \<open>Reachable states\<close>

text \<open>
  \<open>cb_reach c t b\<close>: \<open>b\<close> is a state that some sequence of method calls, made with configuration
  \<open>c\<close> at clock readings that never decrease and end at \<open>t\<close>, leads to from a new breaker.
\<close>

fun event_time :: "cb_event \<Rightarrow> secs option" where
  "event_time (Allow_request owner now) = Some now"
| "event_time (Record_success now) = Some now"
| "event_time (Record_failure now) = Some now"
| "event_time (Status now) = Some now"
| "event_time _ = None"

inductive cb_reach :: "cb_config \<Rightarrow> secs \<Rightarrow> breaker \<Rightarrow> bool" for c :: cb_config where
  start: "0 \<le> t \<Longrightarrow> cb_reach c t (CircuitBreaker p c)"
| step: "cb_reach c t b \<Longrightarrow> t \<le> t' \<Longrightarrow> (case event_time e of None \<Rightarrow> True | Some now \<Rightarrow> now = t')
    \<Longrightarrow> cb_reach c t' (snd (cb_step e b))"

inductive_cases cb_reachE: "cb_reach c t b"

definition cb_inv :: "cb_config \<Rightarrow> secs \<Rightarrow> breaker \<Rightarrow> bool" where
  "cb_inv c t b =
     (cb_cfg b = c \<and>
      (cb_probe_in_flight b \<longrightarrow> cb_state b = HALF_OPEN) \<and>
      (\<not> cb_probe_in_flight b \<longrightarrow> cb_probe_owner b = None) \<and>
      sorted (cb_failure_times b) \<and> sorted (cb_success_times b) \<and>
      (\<forall>x \<in> set (cb_failure_times b). x \<le> t) \<and> (\<forall>x \<in> set (cb_success_times b). x \<le> t) \<and>
      cb_opened_at b \<le> t \<and>
      length (cb_failure_times b) \<le> cb_total_failures b \<and>
      length (cb_success_times b) \<le> cb_total_successes b)"

lemmas cb_defs = allow_request_def release_probe_def record_success_def record_failure_def
  push_success_def push_failure_def status_def trim_windows_def reset_def

lemma length_popleft_older: "length (popleft_older c ts) \<le> length ts"
  by (simp add: popleft_older_def length_dropWhile_le)

lemma clocked_push_old:
  "sorted ts \<Longrightarrow> \<forall>x \<in> set ts. x \<le> now \<Longrightarrow>
   sorted (popleft_older c (ts @ [now])) \<and> (\<forall>x \<in> set (popleft_older c (ts @ [now])). x \<le> now)"
  using set_popleft_older[of c "ts @ [now]"] sorted_popleft_older[OF sorted_snoc[of ts now], of c]
  by fastforce

lemma popleft_bound: "\<forall>x \<in> set ts. x \<le> now \<Longrightarrow> \<forall>x \<in> set (popleft_older c ts). x \<le> now"
  using set_popleft_older[of c ts] by fastforce

lemma length_push: "length ts \<le> n \<Longrightarrow> length (popleft_older c (ts @ [x])) \<le> Suc n"
  using length_popleft_older[of c "ts @ [x]"] by simp

lemma cb_inv_mono: "cb_inv c t b \<Longrightarrow> t \<le> t' \<Longrightarrow> cb_inv c t' b"
  by (simp add: cb_inv_def) (meson order_trans)

lemma allow_request_inv: "cb_inv c now b \<Longrightarrow> cb_inv c now (snd (allow_request owner now b))"
  by (simp add: cb_inv_def allow_request_def split: circuit_state.splits)

lemma release_probe_inv: "cb_inv c now b \<Longrightarrow> cb_inv c now (snd (release_probe owner b))"
  by (simp add: cb_inv_def release_probe_def)

lemma push_success_inv: "cb_inv c now b \<Longrightarrow> cb_inv c now (push_success now b)"
  using clocked_push_old[of "cb_success_times b" now "now - cbc_window_seconds c"]
    length_push[of "cb_success_times b" "cb_total_successes b" "now - cbc_window_seconds c" now]
  by (simp add: cb_inv_def push_success_def)

lemma record_success_inv: "cb_inv c now b \<Longrightarrow> cb_inv c now (record_success now b)"
  using push_success_inv[of c now b] by (simp add: cb_inv_def record_success_def Let_def)

lemma push_failure_inv:
  "cb_inv c now b \<Longrightarrow>
   cb_inv c now (push_failure now (b\<lparr>cb_total_failures := cb_total_failures b + 1\<rparr>))"
  using clocked_push_old[of "cb_failure_times b" now "now - cbc_window_seconds c"]
    popleft_bound[of "cb_success_times b" now "now - cbc_window_seconds c"]
    length_popleft_older[of "now - cbc_window_seconds c" "cb_success_times b"]
    length_push[of "cb_failure_times b" "cb_total_failures b" "now - cbc_window_seconds c" now]
  by (simp add: cb_inv_def push_failure_def Let_def)

lemma record_failure_inv: "cb_inv c now b \<Longrightarrow> cb_inv c now (record_failure now b)"
  using push_failure_inv[of c now b]
  by (cases "cb_state b") (simp_all add: cb_inv_def record_failure_def Let_def push_failure_def)

lemma status_inv: "cb_inv c now b \<Longrightarrow> cb_inv c now (snd (status now b))"
  using popleft_bound[of "cb_success_times b" now "now - cbc_window_seconds c"]
    popleft_bound[of "cb_failure_times b" now "now - cbc_window_seconds c"]
    length_popleft_older[of "now - cbc_window_seconds c" "cb_success_times b"]
    length_popleft_older[of "now - cbc_window_seconds c" "cb_failure_times b"]
  by (simp add: cb_inv_def status_def trim_windows_def Let_def)

lemma reset_inv: "cb_inv c now b \<Longrightarrow> 0 \<le> now \<Longrightarrow> cb_inv c now (reset b)"
  by (simp add: cb_inv_def reset_def)

lemmas cb_inv_intros = allow_request_inv release_probe_inv record_success_inv record_failure_inv
  status_inv reset_inv

lemma cb_reach_inv: "cb_reach c t b \<Longrightarrow> 0 \<le> t \<and> cb_inv c t b"
proof (induction rule: cb_reach.induct)
  case (start t p)
  then show ?case by (simp add: cb_inv_def CircuitBreaker_def)
next
  case (step t b t' e)
  then have "0 \<le> t'" "cb_inv c t' b" by (auto intro: cb_inv_mono)
  with step.hyps(3) show ?case by (cases e) (simp_all add: cb_inv_intros)
qed

section \<open>The window interface\<close>

interpretation failure_window: window_deque cb_failure_times push_failure "\<lambda>b. cbc_window_seconds (cb_cfg b)"
  by unfold_locales (simp_all add: push_failure_def Let_def)

interpretation success_window: window_deque cb_success_times push_success "\<lambda>b. cbc_window_seconds (cb_cfg b)"
  by unfold_locales (simp_all add: push_success_def)

interpretation rl_window: window_deque rl_429_times push_429 rl_window_sec
  by unfold_locales (simp_all add: push_429_def)

text \<open>
  Every reachable breaker is well formed: a probe is in flight only while half open, an owner
  is remembered only while its probe is in flight, both deques are sorted and hold no future
  time, the opening time is not in the future, and the running totals bound the windows.
\<close>

lemma breaker_invariant:
  assumes "cb_reach c t b"
  shows "cb_inv c t b"
  using cb_reach_inv[OF assms] by simp

theorem breaker_invariant_witness:
  "cb_inv CircuitBreakerConfig 7
     (snd (cb_step (Record_failure 7) (CircuitBreaker ''openai'' CircuitBreakerConfig)))"
  by (rule breaker_invariant, rule cb_reach.step[OF cb_reach.start[of 0]]) simp_all

text \<open>
  The exact trip condition.  In a reachable closed breaker a failure at time \<open>now\<close> opens the
  circuit if and only if the failures inside the window that ends now, this one included, reach
  the threshold and their share of all outcomes in that window reaches the configured ratio.
\<close>

lemma trip_condition:
  assumes "cb_reach c t b" "t \<le> now" "cb_state b = CLOSED" "0 \<le> cbc_window_seconds c"
  shows "cb_state (record_failure now b) = OPEN \<longleftrightarrow>
    (let recent = \<lambda>x. now - cbc_window_seconds c \<le> x;
         fails = Suc (length (filter recent (cb_failure_times b)));
         successes = length (filter recent (cb_success_times b))
     in cbc_failure_threshold c \<le> int fails \<and>
        cbc_min_failure_ratio c \<le> of_nat fails / of_nat (fails + successes))"
proof -
  have inv: "cb_inv c t b" using cb_reach_inv[OF assms(1)] by simp
  then have clk: "failure_window.clocked t b" and cfg: "cb_cfg b = c" and srt: "sorted (cb_success_times b)"
    by (auto simp: failure_window.clocked_def cb_inv_def)
  have ft: "cb_failure_times (push_failure now (b\<lparr>cb_total_failures := n\<rparr>)) =
      filter (\<lambda>x. now - cbc_window_seconds c \<le> x) (cb_failure_times b) @ [now]" for n
    using failure_window.push_window[OF clk assms(2)] assms(4) cfg by (simp add: push_failure_def Let_def)
  have st: "cb_success_times (push_failure now (b\<lparr>cb_total_failures := n\<rparr>)) =
      filter (\<lambda>x. now - cbc_window_seconds c \<le> x) (cb_success_times b)" for n
    using srt cfg by (simp add: push_failure_def Let_def popleft_older_filter)
  have keep: "cb_cfg (push_failure now (b\<lparr>cb_total_failures := n\<rparr>)) = c"
    "cb_state (push_failure now (b\<lparr>cb_total_failures := n\<rparr>)) = CLOSED" for n
    using cfg assms(3) by (simp_all add: push_failure_def Let_def)
  show ?thesis
    using assms(3) by (simp add: record_failure_def Let_def ft st keep failure_ratio_def add.assoc)
qed

theorem trip_condition_witness:
  "cb_state (record_failure 3 (CircuitBreaker ''p'' CircuitBreakerConfig)) \<noteq> OPEN"
proof -
  have r: "cb_reach CircuitBreakerConfig 0 (CircuitBreaker ''p'' CircuitBreakerConfig)"
    by (rule cb_reach.start) simp
  show ?thesis
    using trip_condition[OF r, of 3] by (simp add: CircuitBreaker_def CircuitBreakerConfig_def Let_def)
qed

section \<open>Fast failing and probing\<close>

fun cb_answers :: "cb_event list \<Rightarrow> breaker \<Rightarrow> bool list \<times> breaker" where
  "cb_answers [] b = ([], b)"
| "cb_answers (e # es) b =
     (case cb_step e b of
        (r, b1) \<Rightarrow> (case cb_answers es b1 of
                     (rs, b2) \<Rightarrow> ((case e of Allow_request _ _ \<Rightarrow> r # rs | _ \<Rightarrow> rs), b2)))"

definition before_recovery :: "secs \<Rightarrow> cb_event \<Rightarrow> bool" where
  "before_recovery deadline e =
     (e \<noteq> Reset \<and> (case event_time e of None \<Rightarrow> True | Some now \<Rightarrow> now < deadline))"

lemma open_step:
  assumes "cb_state b = OPEN" "cbc_enabled (cb_cfg b)"
    and "before_recovery (cb_opened_at b + cbc_recovery_timeout (cb_cfg b)) e"
    and "cb_step e b = (r, b')"
  shows "cb_state b' = OPEN \<and> cb_opened_at b' = cb_opened_at b \<and> cb_cfg b' = cb_cfg b \<and>
         (\<forall>owner now. e = Allow_request owner now \<longrightarrow> \<not> r)"
  using assms by (cases e) (auto simp: before_recovery_def cb_defs Let_def)

text \<open>
  An open circuit fails fast.  Whatever successes, failures, releases, status queries and
  requests arrive before the recovery timeout has passed, every request is refused and the
  circuit stays open with its timer unchanged.
\<close>

lemma open_circuit_fails_fast:
  assumes "cb_state b = OPEN" "cbc_enabled (cb_cfg b)"
    and "list_all (before_recovery (cb_opened_at b + cbc_recovery_timeout (cb_cfg b))) es"
    and "cb_answers es b = (rs, b')"
  shows "True \<notin> set rs \<and> cb_state b' = OPEN \<and> cb_opened_at b' = cb_opened_at b"
  using assms
proof (induction es arbitrary: b rs b')
  case Nil
  then show ?case by simp
next
  case (Cons e es)
  obtain r b1 where step: "cb_step e b = (r, b1)" by fastforce
  obtain rs1 b2 where rec: "cb_answers es b1 = (rs1, b2)" by fastforce
  have opn: "cb_state b1 = OPEN" "cb_opened_at b1 = cb_opened_at b" "cb_cfg b1 = cb_cfg b"
    "\<And>owner now. e = Allow_request owner now \<Longrightarrow> \<not> r"
    using open_step[OF Cons.prems(1,2) _ step] Cons.prems(3) by auto
  have "True \<notin> set rs1 \<and> cb_state b2 = OPEN \<and> cb_opened_at b2 = cb_opened_at b1"
    using Cons.IH[OF opn(1) _ _ rec] Cons.prems(2,3) opn(2,3) by simp
  with Cons.prems(4) step rec opn show ?case
    by (cases e) auto
qed

theorem open_circuit_fails_fast_witness:
  "fst (cb_answers [Record_success 20, Allow_request None 30, Allow_request (Some 1) 59]
     ((CircuitBreaker ''p'' CircuitBreakerConfig)\<lparr>cb_state := OPEN\<rparr>)) = [False, False]"
proof -
  let ?b = "(CircuitBreaker ''p'' CircuitBreakerConfig)\<lparr>cb_state := OPEN\<rparr>"
  let ?es = "[Record_success 20, Allow_request None 30, Allow_request (Some 1) 59]"
  have "True \<notin> set (fst (cb_answers ?es ?b))"
    using open_circuit_fails_fast[of ?b ?es "fst (cb_answers ?es ?b)" "snd (cb_answers ?es ?b)"]
    by (simp add: CircuitBreaker_def CircuitBreakerConfig_def before_recovery_def)
  moreover have "length (fst (cb_answers ?es ?b)) = 2" by (simp split: prod.splits)
  ultimately show ?thesis
    by (auto simp: length_Suc_conv numeral_2_eq_2)
qed

interpretation breaker_gate: probe_gate "\<lambda>(owner, now). allow_request owner now"
  "\<lambda>b. cbc_enabled (cb_cfg b) \<and> cb_state b \<noteq> CLOSED" "\<lambda>b. cb_state b = HALF_OPEN \<and> cb_probe_in_flight b"
  by unfold_locales (auto simp: allow_request_def split: circuit_state.splits if_splits)

text \<open>
  C29.  At most one probe.  As long as no outcome is recorded and the probe is not released, a
  breaker that is not closed lets at most one of any number of requests through.
\<close>

theorem at_most_one_probe:
  assumes "cb_state b \<noteq> CLOSED" "cbc_enabled (cb_cfg b)"
  shows "length (filter id (fst (grants (\<lambda>(owner, now). allow_request owner now) requests b))) \<le> 1"
  by (rule breaker_gate.at_most_one_grant) (simp add: assms)

theorem at_most_one_probe_witness:
  "length (filter id (fst (grants (\<lambda>(owner, now). allow_request owner now) [(Some 1, 60), (Some 2, 61)]
     ((CircuitBreaker ''p'' CircuitBreakerConfig)\<lparr>cb_state := OPEN\<rparr>)))) \<le> 1"
  by (rule at_most_one_probe) (simp_all add: CircuitBreaker_def CircuitBreakerConfig_def)

text \<open>
  A probe is released only by the request that holds it.  A release succeeds exactly when its
  owner is the one recorded for a probe in flight, it then frees the probe and nothing else,
  and in every other case it changes nothing.  After a released probe, the next request is
  admitted as the new probe.
\<close>

lemma release_probe_owned:
  "(fst (release_probe owner b) \<longleftrightarrow>
      owner \<noteq> None \<and> owner = cb_probe_owner b \<and> cb_state b = HALF_OPEN \<and> cb_probe_in_flight b) \<and>
   snd (release_probe owner b) =
     (if fst (release_probe owner b) then b\<lparr>cb_probe_in_flight := False, cb_probe_owner := None\<rparr> else b) \<and>
   fst (allow_request owner' now b) =
     (\<not> cbc_enabled (cb_cfg b) \<or> cb_state b = CLOSED \<or>
      (cb_state b = OPEN \<and> cbc_recovery_timeout (cb_cfg b) \<le> now - cb_opened_at b) \<or>
      (cb_state b = HALF_OPEN \<and> \<not> cb_probe_in_flight b))"
  by (cases "cb_state b") (auto simp: release_probe_def allow_request_def)

section \<open>The registries keep their breakers apart\<close>

lemma get_or_create_step:
  "get_or_create k' (snd (reg_step k e g)) =
     (if k' = k then snd (cb_step e (get_or_create k g)) else get_or_create k' g)"
  by (auto simp: reg_step_def call_breaker_def get_or_create_def entry_def with_entry_def
      split: prod.splits option.splits)

interpretation reg_entries: independent_entries get_or_create "\<lambda>k e g. snd (reg_step k e g)"
  "\<lambda>e b. snd (cb_step e b)"
  by unfold_locales (rule get_or_create_step)

definition rl_view :: "string \<Rightarrow> rl_registry \<Rightarrow> rl_breaker" where
  "rl_view k g = entry (rl_fresh g) k (rlr_breakers g)"

interpretation rl_entries: independent_entries rl_view "\<lambda>k e g. snd (rl_reg_step k e g)"
  "\<lambda>e b. snd (rl_step e b)"
proof
  fix k' k e g
  have "rl_fresh (snd (rl_reg_step k e g)) = rl_fresh g"
    by (simp add: rl_reg_step_def rl_fresh_def split: prod.splits)
  then show "rl_view k' (snd (rl_reg_step k e g)) =
      (if k' = k then snd (rl_step e (rl_view k g)) else rl_view k' g)"
    by (auto simp: rl_view_def rl_reg_step_def entry_def with_entry_def split: prod.splits option.splits)
qed

text \<open>
  Providers are isolated.  After any interleaving of calls for any providers, the breaker of
  one provider is in the state its own calls alone would have produced, in both registries.
\<close>

lemma registry_isolation:
  "get_or_create p (fold (\<lambda>(k, e) g. snd (reg_step k e g)) es g) =
     fold (\<lambda>e b. snd (cb_step e b)) (map snd (filter (\<lambda>q. fst q = p) es)) (get_or_create p g) \<and>
   rl_view p (fold (\<lambda>(k, e) g. snd (rl_reg_step k e g)) res rg) =
     fold (\<lambda>e b. snd (rl_step e b)) (map snd (filter (\<lambda>q. fst q = p) res)) (rl_view p rg)"
  using reg_entries.view_run[of p es g] rl_entries.view_run[of p res rg] by simp

section \<open>The 429 breaker\<close>

definition rl_clocked :: "secs \<Rightarrow> rl_breaker \<Rightarrow> bool" where
  "rl_clocked t b = rl_window.clocked t b"

text \<open>
  The 429 breaker opens exactly at the threshold and closes exactly after the cooldown.  A
  closed breaker opens on a 429 if and only if the 429s inside the window reach the threshold;
  an open one answers True until the cooldown has passed, then closes with an empty window.
\<close>

lemma rate_limit_breaker_opens_and_closes:
  assumes "rl_clocked t b" "t \<le> now" "0 \<le> rl_window_sec b" "\<not> rl_is_open b"
    and "b' = record_429 now b"
  shows "(rl_is_open b' \<longleftrightarrow>
            rl_threshold b \<le> int (Suc (length (filter (\<lambda>x. now - rl_window_sec b \<le> x) (rl_429_times b))))) \<and>
         fst (is_open later b') = (rl_is_open b' \<and> later < now + rl_cooldown_sec b) \<and>
         (rl_is_open b' \<and> now + rl_cooldown_sec b \<le> later \<longrightarrow>
            snd (is_open later b') = b\<lparr>rl_429_times := [], rl_opened_at := 0, rl_is_open := False\<rparr>)"
proof -
  have "rl_429_times (push_429 now b) = filter (\<lambda>x. now - rl_window_sec b \<le> x) (rl_429_times b) @ [now]"
    using rl_window.push_window[of t b now] assms(1-3) by (simp add: rl_clocked_def)
  then have opn: "rl_is_open b' \<longleftrightarrow>
      rl_threshold b \<le> int (Suc (length (filter (\<lambda>x. now - rl_window_sec b \<le> x) (rl_429_times b))))"
    using assms(4) by (simp add: assms(5) record_429_def Let_def push_429_def)
  moreover have "rl_opened_at b' = now" if "rl_is_open b'"
    using that assms(4) by (auto simp: assms(5) record_429_def Let_def push_429_def split: if_splits)
  moreover have "rl_cooldown_sec b' = rl_cooldown_sec b"
    by (simp add: assms(5) record_429_def Let_def push_429_def)
  moreover have "rl_reset b' = b\<lparr>rl_429_times := [], rl_opened_at := 0, rl_is_open := False\<rparr>"
    by (simp add: assms(5) record_429_def Let_def push_429_def rl_reset_def)
  ultimately show ?thesis
    by (auto simp: is_open_def algebra_simps)
qed

theorem rate_limit_breaker_opens_and_closes_witness:
  "rl_is_open (record_429 5 (RateLimitCircuitBreaker None (Some 1) None)) \<and>
   fst (is_open 34 (record_429 5 (RateLimitCircuitBreaker None (Some 1) None)))"
proof -
  have c: "rl_clocked 0 (RateLimitCircuitBreaker None (Some 1) None)"
    by (simp add: rl_clocked_def rl_window.clocked_def RateLimitCircuitBreaker_def)
  show ?thesis
    using rate_limit_breaker_opens_and_closes[OF c, of 5 _ 34]
    by (simp add: RateLimitCircuitBreaker_def)
qed

end
