(* ===== verification/Failover.thy ===== *)
theory Failover
  imports Prelude "HOL-Library.Sublist"
begin

text \<open>
  Provider failover: the provider chain (\<^verbatim>\<open>src/tokenpak/proxy/failover.py\<close>), error
  classification, the engine's own circuit breaker, the event log and the engine
  (\<^verbatim>\<open>src/tokenpak/proxy/failover_engine.py\<close>).  The environment is a dictionary argument.  The
  generator \<^verbatim>\<open>iter_attempts\<close> checks a provider's circuit only when the caller asks for the next
  attempt; \<open>next_attempt\<close> is one resumption of it, and \<open>serve\<close> is the loop the engine's class
  documentation prescribes to its callers, with the outcome of each provider call as an
  argument.  Texts shown to people are kept as the template that produces them.
\<close>

section \<open>The provider chain\<close>

record provider_entry =
  pe_provider :: string
  pe_model_map :: "(string, string) dict"
  pe_credential_env :: string

record failover_config =
  fc_enabled :: bool
  fc_chain :: "provider_entry list"

definition credential_available :: "(string, string) dict \<Rightarrow> provider_entry \<Rightarrow> bool" where
  "credential_available env e =
     (strip (case map_of env (pe_credential_env e) of None \<Rightarrow> [] | Some v \<Rightarrow> v) \<noteq> [])"

definition get_credential :: "(string, string) dict \<Rightarrow> provider_entry \<Rightarrow> string option" where
  "get_credential env e =
     (case map_of env (pe_credential_env e) of
        None \<Rightarrow> None | Some v \<Rightarrow> if v = [] then None else Some v)"

definition available_chain :: "(string, string) dict \<Rightarrow> failover_config \<Rightarrow> provider_entry list" where
  "available_chain env cfg = filter (credential_available env) (fc_chain cfg)"

definition map_entry :: "provider_entry \<Rightarrow> string \<Rightarrow> string" where
  "map_entry e model = (case map_of (pe_model_map e) model of None \<Rightarrow> model | Some m \<Rightarrow> m)"

definition map_model :: "failover_config \<Rightarrow> string \<Rightarrow> string \<Rightarrow> string" where
  "map_model cfg original_model provider =
     (case find (\<lambda>e. pe_provider e = provider) (fc_chain cfg) of
        None \<Rightarrow> original_model | Some e \<Rightarrow> map_entry e original_model)"

record failover_result =
  fr_provider :: string
  fr_model :: string
  fr_credential_env :: string
  fr_skipped_providers :: "string list"

text \<open>Python's \<^verbatim>\<open>sorted\<close> with a Boolean key is stable, like \<open>sort_key\<close>.\<close>

definition prefer_first :: "string option \<Rightarrow> provider_entry list \<Rightarrow> provider_entry list" where
  "prefer_first preferred es =
     (case preferred of
        None \<Rightarrow> es
      | Some p \<Rightarrow> if p = [] then es else sort_key (\<lambda>e. if pe_provider e \<noteq> p then 1 else (0::nat)) es)"

fun yield_results :: "string \<Rightarrow> string list \<Rightarrow> provider_entry list \<Rightarrow> failover_result list" where
  "yield_results model skipped [] = []"
| "yield_results model skipped (e # es) =
     \<lparr>fr_provider = pe_provider e, fr_model = map_entry e model, fr_credential_env = pe_credential_env e,
      fr_skipped_providers = skipped\<rparr> # yield_results model (skipped @ [pe_provider e]) es"

definition iter_providers ::
  "(string, string) dict \<Rightarrow> failover_config \<Rightarrow> string \<Rightarrow> string option \<Rightarrow> failover_result list" where
  "iter_providers env cfg model preferred =
     (if \<not> fc_enabled cfg then [] else yield_results model [] (prefer_first preferred (available_chain env cfg)))"

definition get_provider_for ::
  "(string, string) dict \<Rightarrow> failover_config \<Rightarrow> string \<Rightarrow> string option \<Rightarrow> failover_result option" where
  "get_provider_for env cfg model preferred =
     (case iter_providers env cfg model preferred of [] \<Rightarrow> None | r # _ \<Rightarrow> Some r)"

section \<open>Error classification and the decision table\<close>

datatype error_type = Rate_limit | Server_error | Timeout | Auth_error | Unknown_error

datatype error_message =
    Rate_limit_text | Auth_text int | Server_text int | Timeout_text string | Connection_text string
  | Plain_text string

record classified_error =
  ce_error_type :: error_type
  ce_http_status :: "int option"
  ce_message :: error_message

text \<open>An exception: its class name, whether it is a \<^verbatim>\<open>TimeoutError\<close>, and its text.\<close>

record exn =
  ex_class_name :: string
  ex_is_timeout_error :: bool
  ex_text :: string

definition ClassifiedError :: "error_type \<Rightarrow> int option \<Rightarrow> error_message \<Rightarrow> classified_error" where
  "ClassifiedError t s m = \<lparr>ce_error_type = t, ce_http_status = s, ce_message = m\<rparr>"

definition classify_status :: "int option \<Rightarrow> classified_error option" where
  "classify_status http_status =
     (case http_status of
        None \<Rightarrow> None
      | Some n \<Rightarrow>
          if n = 429 then Some (ClassifiedError Rate_limit (Some n) Rate_limit_text)
          else if n = 401 \<or> n = 403 then Some (ClassifiedError Auth_error (Some n) (Auth_text n))
          else if 500 \<le> n then Some (ClassifiedError Server_error (Some n) (Server_text n))
          else None)"

definition classify_exception :: "exn option \<Rightarrow> classified_error option" where
  "classify_exception exception =
     (case exception of
        None \<Rightarrow> None
      | Some e \<Rightarrow>
          let exc_name = lower (ex_class_name e) in
          if contains ''timeout'' exc_name \<or> ex_is_timeout_error e
          then Some (ClassifiedError Timeout None (Timeout_text (ex_text e)))
          else if contains ''connection'' exc_name \<or> contains ''broken'' exc_name
          then Some (ClassifiedError Server_error None (Connection_text (ex_text e)))
          else None)"

definition classify_error :: "int option \<Rightarrow> exn option \<Rightarrow> classified_error" where
  "classify_error http_status exception =
     (case classify_status http_status of
        Some c \<Rightarrow> c
      | None \<Rightarrow>
          (case classify_exception exception of
             Some c \<Rightarrow> c
           | None \<Rightarrow> ClassifiedError Unknown_error http_status
                       (Plain_text (case exception of Some e \<Rightarrow> ex_text e | None \<Rightarrow> ''Unknown error''))))"

definition should_switch :: "classified_error \<Rightarrow> bool" where
  "should_switch e = (ce_error_type e \<in> {Server_error, Timeout, Rate_limit})"

datatype action = Retry_wait | Switch | Alert_abort | Abort

datatype decision_reason =
    Waiting_then_switching "int option" | Check_credentials "int option" | Switching error_type | Unhandled

record failover_decision =
  fd_action :: action
  fd_wait_seconds :: secs
  fd_reason :: decision_reason

definition RATE_LIMIT_WAIT_SECONDS :: secs where "RATE_LIMIT_WAIT_SECONDS = 2"

definition decide_error :: "classified_error \<Rightarrow> failover_decision" where
  "decide_error error =
     (if ce_error_type error = Rate_limit
      then \<lparr>fd_action = Switch, fd_wait_seconds = RATE_LIMIT_WAIT_SECONDS,
            fd_reason = Waiting_then_switching (ce_http_status error)\<rparr>
      else if ce_error_type error = Auth_error
      then \<lparr>fd_action = Alert_abort, fd_wait_seconds = 0, fd_reason = Check_credentials (ce_http_status error)\<rparr>
      else if ce_error_type error \<in> {Server_error, Timeout, Unknown_error}
      then \<lparr>fd_action = Switch, fd_wait_seconds = 0, fd_reason = Switching (ce_error_type error)\<rparr>
      else \<lparr>fd_action = Switch, fd_wait_seconds = 0, fd_reason = Unhandled\<rparr>)"

section \<open>The engine's circuit breaker\<close>

record fo_circuit =
  fo_provider :: string
  fo_failure_count :: int
  fo_last_failure_ts :: secs
  fo_is_open :: bool
  fo_half_open_attempt :: bool

record fo_breaker =
  fb_threshold :: int
  fb_cool_down :: secs
  fb_states :: "(string, fo_circuit) dict"

definition new_circuit :: "string \<Rightarrow> fo_circuit" where
  "new_circuit p = \<lparr>fo_provider = p, fo_failure_count = 0, fo_last_failure_ts = 0, fo_is_open = False,
     fo_half_open_attempt = False\<rparr>"

definition FailoverBreaker :: fo_breaker where
  "FailoverBreaker = \<lparr>fb_threshold = 3, fb_cool_down = 300, fb_states = []\<rparr>"

definition circuit_of :: "string \<Rightarrow> fo_breaker \<Rightarrow> fo_circuit" where
  "circuit_of p b = entry (new_circuit p) p (fb_states b)"

definition on_circuit :: "string \<Rightarrow> (fo_circuit \<Rightarrow> 'r \<times> fo_circuit) \<Rightarrow> fo_breaker \<Rightarrow> 'r \<times> fo_breaker" where
  "on_circuit p call b =
     (case with_entry (new_circuit p) p call (fb_states b) of (r, d) \<Rightarrow> (r, b\<lparr>fb_states := d\<rparr>))"

definition probe_circuit :: "secs \<Rightarrow> secs \<Rightarrow> fo_circuit \<Rightarrow> bool \<times> fo_circuit" where
  "probe_circuit cool_down now c =
     (if \<not> fo_is_open c then (True, c)
      else if cool_down \<le> now - fo_last_failure_ts c
      then (if \<not> fo_half_open_attempt c then (True, c\<lparr>fo_half_open_attempt := True\<rparr>) else (False, c))
      else (False, c))"

definition fail_circuit :: "int \<Rightarrow> secs \<Rightarrow> fo_circuit \<Rightarrow> bool \<times> fo_circuit" where
  "fail_circuit threshold now c =
     (let c1 = c\<lparr>fo_failure_count := fo_failure_count c + 1, fo_last_failure_ts := now,
                 fo_half_open_attempt := False\<rparr>
      in if threshold \<le> fo_failure_count c1 \<and> \<not> fo_is_open c1
         then (True, c1\<lparr>fo_is_open := True\<rparr>) else (False, c1))"

definition close_circuit :: "fo_circuit \<Rightarrow> unit \<times> fo_circuit" where
  "close_circuit c = ((), c\<lparr>fo_failure_count := 0, fo_is_open := False, fo_half_open_attempt := False\<rparr>)"

definition is_available :: "string \<Rightarrow> secs \<Rightarrow> fo_breaker \<Rightarrow> bool \<times> fo_breaker" where
  "is_available p now b = on_circuit p (probe_circuit (fb_cool_down b) now) b"

definition fo_record_failure :: "string \<Rightarrow> secs \<Rightarrow> fo_breaker \<Rightarrow> bool \<times> fo_breaker" where
  "fo_record_failure p now b = on_circuit p (fail_circuit (fb_threshold b) now) b"

definition fo_record_success :: "string \<Rightarrow> fo_breaker \<Rightarrow> fo_breaker" where
  "fo_record_success p b = snd (on_circuit p close_circuit b)"

definition fo_reset :: "string \<Rightarrow> fo_breaker \<Rightarrow> fo_breaker" where
  "fo_reset p b = b\<lparr>fb_states := AList.update p (new_circuit p) (fb_states b)\<rparr>"

record circuit_view =
  cv_provider :: string
  cv_is_open :: bool
  cv_failure_count :: int
  cv_seconds_until_retry :: int

definition get_state :: "string \<Rightarrow> secs \<Rightarrow> fo_breaker \<Rightarrow> circuit_view \<times> fo_breaker" where
  "get_state p now b =
     on_circuit p (\<lambda>c. (\<lparr>cv_provider = fo_provider c, cv_is_open = fo_is_open c,
        cv_failure_count = fo_failure_count c,
        cv_seconds_until_retry =
          (if fo_is_open c then max 0 (trunc (fb_cool_down b - (now - fo_last_failure_ts c))) else 0)\<rparr>, c)) b"

section \<open>Events\<close>

datatype event_text = Decision_text decision_reason | Served_text string string

record failover_event =
  fe_timestamp :: string
  fe_original_provider :: string
  fe_failover_provider :: string
  fe_error_type :: "error_type option"
  fe_http_status :: "int option"
  fe_model :: string
  fe_succeeded :: bool
  fe_message :: event_text

definition MAX_EVENTS :: nat where "MAX_EVENTS = 100"

definition record_event :: "failover_event \<Rightarrow> failover_event list \<Rightarrow> failover_event list" where
  "record_event e events = deque_append MAX_EVENTS e events"

definition get_recent :: "int \<Rightarrow> failover_event list \<Rightarrow> failover_event list" where
  "get_recent limit events =
     rev (if 0 < limit then drop (length events - nat limit) events else drop (nat (- limit)) events)"

section \<open>The engine\<close>

record provider_attempt =
  pa_provider :: string
  pa_model :: string
  pa_credential_env :: string
  pa_is_primary :: bool
  pa_skipped_providers :: "string list"

record engine =
  en_config :: failover_config
  en_circuit :: fo_breaker
  en_log :: "failover_event list"

text \<open>
  The generator's local state: the results still to come, the providers skipped, whether an
  attempt has been yielded.  A disabled engine yields the original provider once.
\<close>

record attempt_gen =
  ag_results :: "failover_result list"
  ag_skipped :: "string list"
  ag_first :: bool

definition iter_attempts :: "(string, string) dict \<Rightarrow> engine \<Rightarrow> string \<Rightarrow> string \<Rightarrow> attempt_gen" where
  "iter_attempts env en original_model original_provider =
     \<lparr>ag_results =
        (if \<not> fc_enabled (en_config en)
         then [\<lparr>fr_provider = original_provider, fr_model = original_model, fr_credential_env = [],
                fr_skipped_providers = []\<rparr>]
         else iter_providers env (en_config en) original_model (Some original_provider)),
      ag_skipped = [], ag_first = True\<rparr>"

fun next_attempt ::
  "bool \<Rightarrow> secs \<Rightarrow> failover_result list \<Rightarrow> string list \<Rightarrow> bool \<Rightarrow> fo_breaker \<Rightarrow>
   (provider_attempt \<times> attempt_gen) option \<times> fo_breaker" where
  "next_attempt enabled now [] skipped first b = (None, b)"
| "next_attempt enabled now (r # rs) skipped first b =
     (case (if enabled then is_available (fr_provider r) now b else (True, b)) of
        (False, b1) \<Rightarrow> next_attempt enabled now rs (skipped @ [fr_provider r]) first b1
      | (True, b1) \<Rightarrow>
          (Some (\<lparr>pa_provider = fr_provider r, pa_model = fr_model r, pa_credential_env = fr_credential_env r,
                  pa_is_primary = first, pa_skipped_providers = skipped\<rparr>,
                 \<lparr>ag_results = rs, ag_skipped = skipped, ag_first = False\<rparr>), b1))"

definition handle_error ::
  "provider_attempt \<Rightarrow> classified_error \<Rightarrow> string \<Rightarrow> string \<Rightarrow> string \<Rightarrow> secs \<Rightarrow> engine \<Rightarrow>
   (bool \<times> secs) \<times> engine" where
  "handle_error attempt error original_provider original_model ts now en =
     (let decision = decide_error error;
          en1 = en\<lparr>en_circuit := snd (fo_record_failure (pa_provider attempt) now (en_circuit en))\<rparr>;
          ev = \<lparr>fe_timestamp = ts, fe_original_provider = original_provider,
                fe_failover_provider = pa_provider attempt, fe_error_type = Some (ce_error_type error),
                fe_http_status = ce_http_status error, fe_model = original_model, fe_succeeded = False,
                fe_message = Decision_text (fd_reason decision)\<rparr>;
          en2 = (if \<not> pa_is_primary attempt \<or> fd_action decision = Switch
                 then en1\<lparr>en_log := record_event ev (en_log en1)\<rparr> else en1)
      in if fd_action decision = Alert_abort then ((False, 0), en2)
         else ((True, fd_wait_seconds decision), en2))"

definition engine_record_success ::
  "string \<Rightarrow> string \<Rightarrow> string \<Rightarrow> bool \<Rightarrow> string \<Rightarrow> engine \<Rightarrow> engine" where
  "engine_record_success provider original_provider original_model was_failover ts en =
     (let en1 = en\<lparr>en_circuit := fo_record_success provider (en_circuit en)\<rparr> in
      if was_failover
      then en1\<lparr>en_log := record_event
             \<lparr>fe_timestamp = ts, fe_original_provider = original_provider, fe_failover_provider = provider,
              fe_error_type = None, fe_http_status = None, fe_model = original_model, fe_succeeded = True,
              fe_message = Served_text provider original_provider\<rparr> (en_log en1)\<rparr>
      else en1)"

fun circuit_states :: "string list \<Rightarrow> secs \<Rightarrow> fo_breaker \<Rightarrow> circuit_view list \<times> fo_breaker" where
  "circuit_states [] now b = ([], b)"
| "circuit_states (p # ps) now b =
     (case get_state p now b of
        (v, b1) \<Rightarrow> (case circuit_states ps now b1 of (vs, b2) \<Rightarrow> (v # vs, b2)))"

definition get_circuit_states :: "secs \<Rightarrow> engine \<Rightarrow> circuit_view list \<times> engine" where
  "get_circuit_states now en =
     (case circuit_states (map pe_provider (fc_chain (en_config en))) now (en_circuit en) of
        (vs, b) \<Rightarrow> (vs, en\<lparr>en_circuit := b\<rparr>))"

section \<open>The caller's loop\<close>

text \<open>
  \<open>outcome\<close> says how the call to a provider ends: \<open>None\<close> is success.  The result lists the
  attempts made, the last first, and whether the last one succeeded.  Each attempt takes one
  result of the chain, so the length of the chain bounds the recursion.
\<close>

function serve ::
  "(provider_attempt \<Rightarrow> classified_error option) \<Rightarrow> string \<Rightarrow> string \<Rightarrow> string \<Rightarrow> secs \<Rightarrow> attempt_gen \<Rightarrow>
   provider_attempt list \<Rightarrow> engine \<Rightarrow> (bool \<times> provider_attempt list) \<times> engine" where
  "serve outcome original_provider original_model ts now g made en =
     (case next_attempt (fc_enabled (en_config en)) now (ag_results g) (ag_skipped g) (ag_first g)
             (en_circuit en) of
        (None, b) \<Rightarrow> ((False, made), en\<lparr>en_circuit := b\<rparr>)
      | (Some (a, g'), b) \<Rightarrow>
          let en1 = en\<lparr>en_circuit := b\<rparr> in
          (case outcome a of
             None \<Rightarrow> ((True, a # made),
                      engine_record_success (pa_provider a) original_provider original_model
                        (\<not> pa_is_primary a) ts en1)
           | Some err \<Rightarrow>
               (case handle_error a err original_provider original_model ts now en1 of
                  ((True, _), en2) \<Rightarrow> serve outcome original_provider original_model ts now g' (a # made) en2
                | ((False, _), en2) \<Rightarrow> ((False, a # made), en2))))"
  by pat_completeness auto

lemma next_attempt_SomeD:
  "next_attempt enabled now rs skipped first b = (Some (a, g), b') \<Longrightarrow>
   \<exists>us r. rs = us @ r # ag_results g \<and> pa_provider a = fr_provider r \<and> pa_model a = fr_model r \<and>
          pa_credential_env a = fr_credential_env r \<and> pa_is_primary a = first \<and>
          pa_skipped_providers a = skipped @ map fr_provider us \<and>
          ag_skipped g = skipped @ map fr_provider us \<and> \<not> ag_first g"
proof (induction enabled now rs skipped first b rule: next_attempt.induct)
  case (2 enabled now r rs skipped first b)
  obtain ok b1 where av: "(if enabled then is_available (fr_provider r) now b else (True, b)) = (ok, b1)"
    by fastforce
  show ?case
  proof (cases ok)
    case True
    with 2(2) av show ?thesis by fastforce
  next
    case False
    with 2(2) av have "next_attempt enabled now rs (skipped @ [fr_provider r]) first b1 = (Some (a, g), b')"
      by simp
    from 2(1)[OF av[symmetric] _ this] False obtain us r' where
      "rs = us @ r' # ag_results g \<and> pa_provider a = fr_provider r' \<and> pa_model a = fr_model r' \<and>
       pa_credential_env a = fr_credential_env r' \<and> pa_is_primary a = first \<and>
       pa_skipped_providers a = (skipped @ [fr_provider r]) @ map fr_provider us \<and>
       ag_skipped g = (skipped @ [fr_provider r]) @ map fr_provider us \<and> \<not> ag_first g"
      by auto
    then show ?thesis by (intro exI[of _ "r # us"] exI[of _ r']) simp
  qed
qed simp

termination serve
  by (relation "measure (\<lambda>(_, _, _, _, _, g, _, _). length (ag_results g))")
    (auto dest!: next_attempt_SomeD[OF sym])

declare serve.simps [simp del]

section \<open>The breaker behind the engine\<close>

lemma circuit_of_on:
  "circuit_of q (snd (on_circuit p call b)) = (if q = p then snd (call (circuit_of p b)) else circuit_of q b)"
  "fst (on_circuit p call b) = fst (call (circuit_of p b))"
  "fb_threshold (snd (on_circuit p call b)) = fb_threshold b"
  "fb_cool_down (snd (on_circuit p call b)) = fb_cool_down b"
  by (auto simp: circuit_of_def on_circuit_def entry_def with_entry_def split: prod.splits option.splits)

datatype fo_event = Ask secs | Failed secs | Succeeded | Forced_reset

fun fo_step :: "string \<Rightarrow> fo_event \<Rightarrow> fo_breaker \<Rightarrow> fo_breaker" where
  "fo_step p (Ask now) b = snd (is_available p now b)"
| "fo_step p (Failed now) b = snd (fo_record_failure p now b)"
| "fo_step p Succeeded b = fo_record_success p b"
| "fo_step p Forced_reset b = fo_reset p b"

lemma fo_step_isolated:
  "q \<noteq> p \<Longrightarrow> circuit_of q (fo_step p e b) = circuit_of q b"
  by (cases e) (auto simp: is_available_def fo_record_failure_def fo_record_success_def fo_reset_def
      circuit_of_on, auto simp: circuit_of_def entry_def)

lemma fail_circuit_sel [simp]:
  "fo_failure_count (snd (fail_circuit th now c)) = fo_failure_count c + 1"
  "fo_is_open (snd (fail_circuit th now c)) \<longleftrightarrow> fo_is_open c \<or> th \<le> fo_failure_count c + 1"
  "fo_last_failure_ts (snd (fail_circuit th now c)) = now"
  "fo_half_open_attempt (snd (fail_circuit th now c)) = False"
  by (auto simp: fail_circuit_def Let_def)

interpretation engine_gate: probe_gate "probe_circuit cool_down" "fo_is_open" "fo_half_open_attempt"
  for cool_down
  by unfold_locales (auto simp: probe_circuit_def split: if_splits)

lemma step_Failed [simp]:
  "circuit_of p (fo_step p (Failed t) b) = snd (fail_circuit (fb_threshold b) t (circuit_of p b))"
  "fb_threshold (fo_step p (Failed t) b) = fb_threshold b"
  by (simp_all add: fo_record_failure_def circuit_of_on)

declare fo_step.simps(2) [simp del]

lemma failures_run:
  "fo_failure_count (circuit_of p (fold (\<lambda>t. fo_step p (Failed t)) ts b)) =
     fo_failure_count (circuit_of p b) + int (length ts)"
  "fb_threshold (fold (\<lambda>t. fo_step p (Failed t)) ts b) = fb_threshold b"
  by (induction ts arbitrary: b) simp_all

lemma failures_open:
  assumes "fo_failure_count (circuit_of p b) = 0" "\<not> fo_is_open (circuit_of p b)"
  shows "fo_is_open (circuit_of p (fold (\<lambda>t. fo_step p (Failed t)) us b)) \<Longrightarrow>
    fb_threshold b \<le> int (length us)"
  by (induction us rule: rev_induct) (use assms in \<open>auto simp: failures_run\<close>)

lemma failures_elsewhere:
  "q \<noteq> p \<Longrightarrow> circuit_of q (fold (\<lambda>t. fo_step p (Failed t)) us c) = circuit_of q c"
  by (induction us arbitrary: c) (simp_all add: fo_step_isolated)

text \<open>
  The engine's breaker opens after exactly its threshold of consecutive failures, refuses the
  provider until the cool-down has passed since the last of them, then lets a single probe
  through; other providers are never affected.
\<close>

lemma engine_breaker_behaviour:
  assumes "fo_failure_count (circuit_of p b) = 0" "\<not> fo_is_open (circuit_of p b)"
    and "b' = fold (\<lambda>t. fo_step p (Failed t)) (ts @ [t]) b"
  shows "(fo_is_open (circuit_of p b') \<longleftrightarrow> fb_threshold b \<le> int (length ts) + 1) \<and>
         (fo_is_open (circuit_of p b') \<longrightarrow>
            fst (is_available p now b') = (fb_cool_down b' \<le> now - t) \<and>
            length (filter id (fst (grants (probe_circuit (fb_cool_down b')) asks (circuit_of p b')))) \<le> 1) \<and>
         (q \<noteq> p \<longrightarrow> circuit_of q b' = circuit_of q b)"
proof -
  let ?b0 = "fold (\<lambda>t. fo_step p (Failed t)) ts b"
  have b': "circuit_of p b' = snd (fail_circuit (fb_threshold b) t (circuit_of p ?b0))"
    using assms(3) by (simp add: failures_run)
  have op: "fo_is_open (circuit_of p b') \<longleftrightarrow> fb_threshold b \<le> int (length ts) + 1"
    using assms(1) failures_open[OF assms(1,2), of ts] by (auto simp: b' failures_run)
  have av: "fst (is_available p now b') = (fb_cool_down b' \<le> now - t)" if "fo_is_open (circuit_of p b')"
    using that by (simp add: is_available_def circuit_of_on probe_circuit_def b')
  show ?thesis
    using op av failures_elsewhere[of q p "ts @ [t]" b] engine_gate.at_most_one_grant
    unfolding assms(3) by blast
qed

theorem engine_breaker_behaviour_witness:
  "fo_is_open (circuit_of ''openai'' (fold (\<lambda>t. fo_step ''openai'' (Failed t)) ([1, 2] @ [3]) FailoverBreaker))"
  using engine_breaker_behaviour[of "''openai''" FailoverBreaker _ "[1, 2]" 3]
  by (simp add: circuit_of_def entry_def FailoverBreaker_def new_circuit_def)

section \<open>The order of the chain\<close>

lemma insort_binary:
  "\<forall>a \<in> set as. \<not> P a \<Longrightarrow> \<forall>b \<in> set bs. P b \<Longrightarrow>
   insort_key (\<lambda>e. if P e then 1 else (0::nat)) x (as @ bs) = (if P x then as @ x # bs else x # as @ bs)"
proof (induction as)
  case Nil
  then show ?case by (cases bs) auto
next
  case (Cons a as)
  then show ?case by simp
qed

lemma sort_key_binary:
  "sort_key (\<lambda>e. if P e then 1 else (0::nat)) xs = filter (\<lambda>e. \<not> P e) xs @ filter P xs"
  by (induction xs) (simp_all add: insort_binary)

lemma map_provider_results: "map fr_provider (yield_results m sk es) = map pe_provider es"
  by (induction m sk es rule: yield_results.induct) auto

text \<open>
  The chain a request goes through consists of exactly the configured providers whose
  credential variable is set and not blank; the preferred one comes first and all others keep
  their configured order; a disabled configuration yields nothing.
\<close>

lemma chain_order:
  "map fr_provider (iter_providers env cfg model (Some p)) =
     (if \<not> fc_enabled cfg then []
      else map pe_provider
             (if p = [] then available_chain env cfg
              else filter (\<lambda>e. pe_provider e = p) (available_chain env cfg) @
                   filter (\<lambda>e. pe_provider e \<noteq> p) (available_chain env cfg))) \<and>
   set (map fr_provider (iter_providers env cfg model None)) =
     (if fc_enabled cfg then pe_provider ` {e \<in> set (fc_chain cfg). credential_available env e} else {})"
proof -
  have "map fr_provider (iter_providers env cfg model (Some p)) =
     (if \<not> fc_enabled cfg then []
      else map pe_provider
             (if p = [] then available_chain env cfg
              else filter (\<lambda>e. pe_provider e = p) (available_chain env cfg) @
                   filter (\<lambda>e. pe_provider e \<noteq> p) (available_chain env cfg)))"
    by (simp add: iter_providers_def prefer_first_def map_provider_results sort_key_binary)
  moreover have "set (map fr_provider (iter_providers env cfg model None)) =
     (if fc_enabled cfg then pe_provider ` {e \<in> set (fc_chain cfg). credential_available env e} else {})"
    unfolding iter_providers_def prefer_first_def available_chain_def
    by (simp add: map_provider_results del: set_map) auto
  ultimately show ?thesis by blast
qed

section \<open>Runs of the caller's loop\<close>

lemma decide_abort_iff: "fd_action (decide_error e) = Alert_abort \<longleftrightarrow> ce_error_type e = Auth_error"
  by (simp add: decide_error_def)

lemma handle_error_result:
  assumes "handle_error a e op om ts now en = ((go, w), en')"
  shows "go \<longleftrightarrow> ce_error_type e \<noteq> Auth_error" "en_config en' = en_config en"
    "en_circuit en' = snd (fo_record_failure (pa_provider a) now (en_circuit en))"
  using assms by (auto simp: handle_error_def Let_def decide_abort_iff split: if_splits)

definition serve_spec ::
  "(provider_attempt \<Rightarrow> classified_error option) \<Rightarrow> failover_result list \<Rightarrow> bool \<Rightarrow> provider_attempt list \<Rightarrow> bool" where
  "serve_spec outcome rs ok as =
     (subseq (map pa_provider as) (map fr_provider rs) \<and>
      (\<forall>a \<in> set (butlast as). \<exists>e. outcome a = Some e \<and> ce_error_type e \<noteq> Auth_error) \<and>
      (ok \<longleftrightarrow> as \<noteq> [] \<and> outcome (last as) = None))"

lemma serve_spec_Cons:
  assumes "serve_spec outcome rs' ok as" "outcome a = Some e" "ce_error_type e \<noteq> Auth_error"
    and "rs = us @ r # rs'" "pa_provider a = fr_provider r"
  shows "serve_spec outcome rs ok (a # as)"
proof -
  have "subseq (map pa_provider (a # as)) (map fr_provider (r # rs'))"
    using assms(1,5) by (simp add: serve_spec_def)
  then have "subseq (map pa_provider (a # as)) (map fr_provider rs)"
    unfolding assms(4) map_append by (rule subseq_drop_many)
  with assms(1-3) show ?thesis by (auto simp: serve_spec_def)
qed

lemma serve_spec_single:
  assumes "rs = us @ r # rs'" "pa_provider a = fr_provider r"
  shows "serve_spec outcome rs (outcome a = None) [a]"
  using assms by (simp add: serve_spec_def subseq_singleton_left)

lemma serve_runs:
  "serve outcome op om ts now g made en = ((ok, made'), en') \<Longrightarrow>
   \<exists>as. made' = rev as @ made \<and> serve_spec outcome (ag_results g) ok as"
proof (induction outcome op om ts now g made en arbitrary: ok made' en' rule: serve.induct)
  case (1 outcome op om ts now g made en)
  obtain n b where na: "next_attempt (fc_enabled (en_config en)) now (ag_results g) (ag_skipped g)
      (ag_first g) (en_circuit en) = (n, b)" by fastforce
  show ?case
  proof (cases n)
    case None
    with na "1.prems" show ?thesis by (simp add: serve.simps[of outcome] serve_spec_def)
  next
    case (Some ag)
    obtain a g' where ag: "ag = (a, g')" by fastforce
    obtain us r where r: "ag_results g = us @ r # ag_results g'" "pa_provider a = fr_provider r"
      using next_attempt_SomeD na Some ag by blast
    show ?thesis
    proof (cases "outcome a")
      case None
      with na Some ag "1.prems" serve_spec_single[OF r, of outcome] show ?thesis
        by (intro exI[of _ "[a]"]) (auto simp: serve.simps[of outcome] Let_def)
    next
      case err: (Some e)
      obtain go w en2 where he: "handle_error a e op om ts now (en\<lparr>en_circuit := b\<rparr>) = ((go, w), en2)"
        by (metis prod.exhaust)
      show ?thesis
      proof (cases go)
        case True
        then have goT: "go = True" by simp
        from True na Some ag err he "1.prems"
        have rec: "serve outcome op om ts now g' (a # made) en2 = ((ok, made'), en')"
          by (simp add: serve.simps[of outcome _ _ _ _ g] Let_def)
        obtain as where as: "made' = rev as @ a # made" "serve_spec outcome (ag_results g') ok as"
          using "1.IH"[OF na[symmetric] Some ag[symmetric] refl err he[symmetric] refl goT rec] by auto
        have "ce_error_type e \<noteq> Auth_error" using True handle_error_result(1)[OF he] by simp
        from serve_spec_Cons[where outcome = outcome, OF as(2) err this r] as(1) show ?thesis
          by (intro exI[of _ "a # as"]) simp
      next
        case False
        with na Some ag err he "1.prems" serve_spec_single[OF r, of outcome] show ?thesis
          by (intro exI[of _ "[a]"]) (auto simp: serve.simps[of outcome] Let_def)
      qed
    qed
  qed
qed


definition example_engine :: engine where
  "example_engine =
     \<lparr>en_config = \<lparr>fc_enabled = True,
        fc_chain = [\<lparr>pe_provider = ''anthropic'', pe_model_map = [], pe_credential_env = ''A''\<rparr>,
                    \<lparr>pe_provider = ''openai'', pe_model_map = [(''c'', ''g'')], pe_credential_env = ''B''\<rparr>]\<rparr>,
      en_circuit = FailoverBreaker, en_log = []\<rparr>"

definition example_outcome :: "provider_attempt \<Rightarrow> classified_error option" where
  "example_outcome a =
     (if pa_provider a = ''anthropic'' then Some (classify_error (Some 503) None) else None)"


section \<open>A healthy provider is found\<close>

lemma is_available_closed:
  "\<not> fo_is_open (circuit_of p b) \<Longrightarrow> fst (is_available p now b)"
  "q \<noteq> p \<Longrightarrow> circuit_of q (snd (is_available p now b)) = circuit_of q b"
  "q \<noteq> p \<Longrightarrow> circuit_of q (snd (fo_record_failure p now b)) = circuit_of q b"
  by (simp_all add: is_available_def fo_record_failure_def circuit_of_on probe_circuit_def)

lemma next_attempt_reaches:
  "r \<in> set rs \<Longrightarrow> distinct (map fr_provider rs) \<Longrightarrow> \<not> fo_is_open (circuit_of (fr_provider r) b) \<Longrightarrow>
   \<exists>a g b'. next_attempt enabled now rs skipped first b = (Some (a, g), b') \<and>
     (pa_provider a = fr_provider r \<or>
      pa_provider a \<noteq> fr_provider r \<and> r \<in> set (ag_results g) \<and>
      circuit_of (fr_provider r) b' = circuit_of (fr_provider r) b)"
proof (induction enabled now rs skipped first b rule: next_attempt.induct)
  case (2 enabled now r' rs skipped first b)
  obtain ok b1 where av: "(if enabled then is_available (fr_provider r') now b else (True, b)) = (ok, b1)"
    by fastforce
  show ?case
  proof (cases "fr_provider r' = fr_provider r")
    case True
    then have ok using av is_available_closed(1)[OF "2.prems"(3), of now] by (auto split: if_splits)
    with av True show ?thesis by auto
  next
    case False
    then have keep: "circuit_of (fr_provider r) b1 = circuit_of (fr_provider r) b"
      using av is_available_closed(2)[of "fr_provider r" "fr_provider r'" now b] by (auto split: if_splits)
    have r: "r \<in> set rs" "distinct (map fr_provider rs)" using "2.prems" False by auto
    show ?thesis
    proof (cases ok)
      case True
      with av r False keep show ?thesis by auto
    next
      case no: False
      then show ?thesis
        using "2.IH"[OF av[symmetric]] av r keep "2.prems"(3) by fastforce
    qed
  qed
qed simp

lemma serve_finds_healthy:
  "r \<in> set (ag_results g) \<Longrightarrow> distinct (map fr_provider (ag_results g)) \<Longrightarrow>
   \<not> fo_is_open (circuit_of (fr_provider r) (en_circuit en)) \<Longrightarrow>
   (\<And>a. pa_provider a = fr_provider r \<Longrightarrow> outcome a = None) \<Longrightarrow>
   (\<And>a e. outcome a = Some e \<Longrightarrow> ce_error_type e \<noteq> Auth_error) \<Longrightarrow>
   fst (fst (serve outcome op om ts now g made en))"
proof (induction outcome op om ts now g made en rule: serve.induct)
  case (1 outcome op om ts now g made en)
  obtain a g' b where na: "next_attempt (fc_enabled (en_config en)) now (ag_results g) (ag_skipped g)
      (ag_first g) (en_circuit en) = (Some (a, g'), b)"
    and cs: "pa_provider a = fr_provider r \<or>
      pa_provider a \<noteq> fr_provider r \<and> r \<in> set (ag_results g') \<and>
      circuit_of (fr_provider r) b = circuit_of (fr_provider r) (en_circuit en)"
    using next_attempt_reaches[OF "1.prems"(1-3)] by metis
  obtain us r0 where suf: "ag_results g = us @ r0 # ag_results g'"
    using next_attempt_SomeD[OF na] by blast
  show ?case
  proof (cases "outcome a")
    case None
    with na show ?thesis by (simp add: serve.simps[of outcome] Let_def)
  next
    case (Some e)
    with cs "1.prems"(4) have c: "pa_provider a \<noteq> fr_provider r" "r \<in> set (ag_results g')"
      "circuit_of (fr_provider r) b = circuit_of (fr_provider r) (en_circuit en)" by auto
    obtain go w en2 where he: "handle_error a e op om ts now (en\<lparr>en_circuit := b\<rparr>) = ((go, w), en2)"
      by (metis prod.exhaust)
    have go: "go = True" using handle_error_result(1)[OF he] "1.prems"(5)[OF Some] by simp
    have "circuit_of (fr_provider r) (en_circuit en2) = circuit_of (fr_provider r) b"
      using handle_error_result(3)[OF he] is_available_closed(3) c(1) by simp
    then have "fst (fst (serve outcome op om ts now g' (a # made) en2))"
      using "1.IH"[OF na[symmetric] refl refl refl Some he[symmetric] refl go c(2)] suf "1.prems" c(3) by auto
    with na Some he go show ?thesis by (simp add: serve.simps[of outcome _ _ _ _ g] Let_def)
  qed
qed

text \<open>
  A healthy provider is always found.  If some provider of the chain has a closed circuit and
  answers, and no provider reports an authentication error, the request is served, however
  many other providers fail or are switched off by their circuits.
\<close>

lemma healthy_provider_serves:
  assumes "fc_enabled (en_config en)"
    and "r \<in> set (iter_providers env (en_config en) model (Some original_provider))"
    and "distinct (map fr_provider (iter_providers env (en_config en) model (Some original_provider)))"
    and "\<not> fo_is_open (circuit_of (fr_provider r) (en_circuit en))"
    and "\<And>a. pa_provider a = fr_provider r \<Longrightarrow> outcome a = None"
    and "\<And>a e. outcome a = Some e \<Longrightarrow> ce_error_type e \<noteq> Auth_error"
  shows "fst (fst (serve outcome original_provider model ts now
           (iter_attempts env en model original_provider) [] en))"
  using assms by (intro serve_finds_healthy[where r = r]) (auto simp: iter_attempts_def)

theorem healthy_provider_serves_witness:
  "fst (fst (serve example_outcome ''anthropic'' ''c'' ''t'' 0
     (iter_attempts [(''A'', ''k''), (''B'', ''k'')] example_engine ''c'' ''anthropic'') [] example_engine))"
proof -
  let ?rs = "iter_providers [(''A'', ''k''), (''B'', ''k'')] (en_config example_engine) ''c'' (Some ''anthropic'')"
  have chain: "map fr_provider ?rs = [''anthropic'', ''openai'']" by code_simp
  then have "''openai'' \<in> fr_provider ` set ?rs" by (metis list.set_intros set_map)
  then obtain r where mem: "r \<in> set ?rs" and prov: "fr_provider r = ''openai''" by auto
  show ?thesis
  proof (rule healthy_provider_serves[OF _ mem])
    show "fc_enabled (en_config example_engine)" by (simp add: example_engine_def)
    show "distinct (map fr_provider ?rs)" by (simp add: chain)
    show "\<not> fo_is_open (circuit_of (fr_provider r) (en_circuit example_engine))"
      by (simp add: prov circuit_of_def entry_def example_engine_def FailoverBreaker_def new_circuit_def)
    show "example_outcome a = None" if "pa_provider a = fr_provider r" for a
      using that by (simp add: prov example_outcome_def)
    show "ce_error_type e \<noteq> Auth_error" if "example_outcome a = Some e" for a e
      using that by (auto simp: example_outcome_def classify_error_def classify_status_def ClassifiedError_def
          split: if_splits)
  qed
qed

section \<open>Divergence from the documentation, and the log\<close>

text \<open>
  The first attempt need not be the original provider.  With the original provider's circuit
  open, the first attempt the generator yields names another provider and is marked primary.
\<close>

lemma first_attempt_may_differ:
  "\<exists>en env g b a. fc_enabled (en_config en) \<and>
     next_attempt True 10 (ag_results (iter_attempts env en ''c'' ''anthropic'')) [] True (en_circuit en)
       = (Some (a, g), b) \<and>
     pa_is_primary a \<and> pa_provider a \<noteq> ''anthropic''"
proof -
  let ?en = "example_engine\<lparr>en_circuit := fold (\<lambda>t. fo_step ''anthropic'' (Failed t)) [1, 2, 3] FailoverBreaker\<rparr>"
  let ?env = "[(''A'', ''k''), (''B'', ''k'')]"
  have "case fst (next_attempt True 10 (ag_results (iter_attempts ?env ?en ''c'' ''anthropic'')) [] True
      (en_circuit ?en)) of None \<Rightarrow> False | Some (a, g) \<Rightarrow> pa_is_primary a \<and> pa_provider a \<noteq> ''anthropic''"
    by code_simp
  then obtain a g where "fst (next_attempt True 10 (ag_results (iter_attempts ?env ?en ''c'' ''anthropic'')) []
      True (en_circuit ?en)) = Some (a, g)" "pa_is_primary a" "pa_provider a \<noteq> ''anthropic''"
    by (auto split: option.splits)
  then show ?thesis
    by (intro exI[of _ ?en] exI[of _ ?env] exI[of _ g] exI[of _ "snd (next_attempt True 10
        (ag_results (iter_attempts ?env ?en ''c'' ''anthropic'')) [] True (en_circuit ?en))"] exI[of _ a])
      (simp add: example_engine_def prod_eq_iff)
qed

interpretation event_log: bounded_log "\<lambda>es. es" record_event MAX_EVENTS
  by unfold_locales (simp_all add: record_event_def MAX_EVENTS_def)

lemma recent_events:
  assumes "0 < n"
  shows "get_recent (int n) (fold record_event es []) =
     take n (rev (drop (length es - MAX_EVENTS) es))"
  using event_log.entries_run[of "[]" es] assms
  by (simp add: get_recent_def Let_def take_rev)

end
