(* ===== verification/Admission.thy ===== *)
theory Admission
  imports Prelude
begin

text \<open>
  The managed-agent concurrency gate (\<^verbatim>\<open>src/tokenpak/proxy/admission.py\<close>): resolution of the
  configured cap, the busy response, and the FIFO gate.  A thread inside \<^verbatim>\<open>acquire\<close> gives up the
  condition's lock only in \<^verbatim>\<open>wait\<close>, so its critical sections are the steps of the model:
  entering (with the first pass of the loop), one pass of the loop after a wake-up, an
  interrupt while queued, and \<^verbatim>\<open>release\<close>.  A ticket is a number; the answer of the degradation
  probe is an argument of each step.
\<close>

section \<open>The configured cap\<close>

datatype config_value = Cfg_none | Cfg_bool bool | Cfg_int int | Cfg_float rat | Cfg_str string | Cfg_other

definition DEFAULT_MAX_PARALLEL :: int where "DEFAULT_MAX_PARALLEL = 2"

definition config_int :: "config_value \<Rightarrow> int option" where
  "config_int raw =
     (case raw of
        Cfg_int n \<Rightarrow> Some n
      | Cfg_float x \<Rightarrow> Some (trunc x)
      | Cfg_str s \<Rightarrow> py_int s
      | _ \<Rightarrow> None)"

definition config_max_parallel :: "config_value \<Rightarrow> int" where
  "config_max_parallel raw =
     (case config_int raw of
        None \<Rightarrow> DEFAULT_MAX_PARALLEL
      | Some value \<Rightarrow> if value < 1 then DEFAULT_MAX_PARALLEL else value)"

definition resolve_agent_concurrency :: "string option \<Rightarrow> config_value \<Rightarrow> int option \<times> string" where
  "resolve_agent_concurrency env raw =
     (case env of
        None \<Rightarrow> (Some (config_max_parallel raw), ''config'')
      | Some text \<Rightarrow>
          let value = lower (strip text) in
          if value = ''off'' then (None, ''env:off'')
          else if value = ''auto'' then (Some (config_max_parallel raw), ''env:auto'')
          else case py_int value of
                 Some cap \<Rightarrow> if 1 \<le> cap then (Some cap, ''env'') else (Some (config_max_parallel raw), ''config'')
               | None \<Rightarrow> (Some (config_max_parallel raw), ''config''))"

section \<open>The busy response\<close>

definition crlf :: string where "crlf = [CHR 0x0D, CHR 0x0A]"

definition busy_message :: string where
  "busy_message = ''TokenPak local proxy is throttling managed background-agent '' @
     ''traffic; a slot opens when a running subagent completes. '' @
     ''Retry after the indicated delay, or lower '' @
     ''companion.local_proxy_agent_concurrency.max_parallel_subagents '' @
     ''to serialize recovery.''"

definition busy_body :: "string \<Rightarrow> int \<Rightarrow> string" where
  "busy_body reason retry_after =
     ''{'' @ json_string ''error'' @ '': {'' @
     json_string ''type'' @ '': '' @ json_string ''local_agent_concurrency_busy'' @ '', '' @
     json_string ''reason'' @ '': '' @ json_string reason @ '', '' @
     json_string ''message'' @ '': '' @ json_string busy_message @ '', '' @
     json_string ''retry_after_seconds'' @ '': '' @ show_int retry_after @ ''}}''"

definition build_busy_response :: "string \<Rightarrow> int \<Rightarrow> string" where
  "build_busy_response reason retry_after =
     (let body = busy_body reason retry_after in
      ''HTTP/1.1 503 Service Unavailable'' @ crlf @ ''Content-Type: application/json'' @ crlf @
      ''Retry-After: '' @ show_int retry_after @ crlf @
      ''Content-Length: '' @ show_nat (length body) @ crlf @ ''Connection: close'' @ crlf @ crlf @ body)"

section \<open>The gate\<close>

datatype admission = Admitted | Queue_full | Wait_timeout
datatype probe = No_probe | Probe_healthy | Probe_degraded | Probe_raises

record gate =
  gt_configured_cap :: int
  gt_max_queue :: nat
  gt_source :: string
  gt_in_flight :: int
  gt_queue :: "nat list"
  gt_admitted_total :: nat
  gt_queued_total :: nat
  gt_rejected_queue_full :: nat
  gt_rejected_wait_timeout :: nat

definition AgentConcurrencyGate :: "int \<Rightarrow> int \<Rightarrow> string \<Rightarrow> py_error + gate" where
  "AgentConcurrencyGate max_parallel max_queue src =
     (if max_parallel < 1 then Inl (ValueError ''max_parallel must be >= 1'')
      else Inr \<lparr>gt_configured_cap = max_parallel, gt_max_queue = nat (max 0 max_queue), gt_source = src,
                gt_in_flight = 0, gt_queue = [], gt_admitted_total = 0, gt_queued_total = 0,
                gt_rejected_queue_full = 0, gt_rejected_wait_timeout = 0\<rparr>)"

definition effective_cap :: "probe \<Rightarrow> gate \<Rightarrow> int" where
  "effective_cap p g = (if p = Probe_degraded then 1 else gt_configured_cap g)"

definition admit_one :: "gate \<Rightarrow> gate" where
  "admit_one g = g\<lparr>gt_in_flight := gt_in_flight g + 1, gt_admitted_total := gt_admitted_total g + 1\<rparr>"

text \<open>The part of \<^verbatim>\<open>acquire\<close> before the loop; \<open>None\<close> means the ticket was queued.\<close>

definition acquire_enter :: "nat \<Rightarrow> probe \<Rightarrow> gate \<Rightarrow> admission option \<times> gate" where
  "acquire_enter ticket p g =
     (if gt_queue g = [] \<and> gt_in_flight g < effective_cap p g then (Some Admitted, admit_one g)
      else if gt_max_queue g \<le> length (gt_queue g)
      then (Some Queue_full, g\<lparr>gt_rejected_queue_full := gt_rejected_queue_full g + 1\<rparr>)
      else (None, g\<lparr>gt_queue := gt_queue g @ [ticket], gt_queued_total := gt_queued_total g + 1\<rparr>))"

text \<open>One pass of the loop; \<open>None\<close> means the thread waits again.\<close>

definition acquire_pass :: "nat \<Rightarrow> probe \<Rightarrow> bool \<Rightarrow> gate \<Rightarrow> admission option \<times> gate" where
  "acquire_pass ticket p expired g =
     (if gt_queue g \<noteq> [] \<and> hd (gt_queue g) = ticket \<and> gt_in_flight g < effective_cap p g
      then (Some Admitted, admit_one (g\<lparr>gt_queue := tl (gt_queue g)\<rparr>))
      else if expired
      then (Some Wait_timeout, g\<lparr>gt_queue := remove1 ticket (gt_queue g),
                                 gt_rejected_wait_timeout := gt_rejected_wait_timeout g + 1\<rparr>)
      else (None, g))"

definition acquire_begin :: "nat \<Rightarrow> probe \<Rightarrow> probe \<Rightarrow> bool \<Rightarrow> gate \<Rightarrow> admission option \<times> gate" where
  "acquire_begin ticket p1 p2 expired g =
     (case acquire_enter ticket p1 g of
        (None, g1) \<Rightarrow> acquire_pass ticket p2 expired g1
      | (Some r, g1) \<Rightarrow> (Some r, g1))"

definition acquire_interrupt :: "nat \<Rightarrow> gate \<Rightarrow> gate" where
  "acquire_interrupt ticket g = g\<lparr>gt_queue := remove1 ticket (gt_queue g)\<rparr>"

definition release :: "gate \<Rightarrow> gate" where
  "release g = (if 0 < gt_in_flight g then g\<lparr>gt_in_flight := gt_in_flight g - 1\<rparr> else g)"

record gate_snapshot =
  gs_max_parallel :: int
  gs_effective_cap :: int
  gs_degraded_serial :: bool
  gs_in_flight :: int
  gs_queued :: nat
  gs_queue_depth_max :: nat
  gs_admitted_total :: nat
  gs_queued_total :: nat
  gs_rejected_queue_full :: nat
  gs_rejected_wait_timeout :: nat
  gs_source :: string

definition snapshot :: "probe \<Rightarrow> gate \<Rightarrow> gate_snapshot" where
  "snapshot p g =
     (let effective = effective_cap p g in
      \<lparr>gs_max_parallel = gt_configured_cap g, gs_effective_cap = effective,
       gs_degraded_serial = (effective = 1 \<and> 1 < gt_configured_cap g), gs_in_flight = gt_in_flight g,
       gs_queued = length (gt_queue g), gs_queue_depth_max = gt_max_queue g,
       gs_admitted_total = gt_admitted_total g, gs_queued_total = gt_queued_total g,
       gs_rejected_queue_full = gt_rejected_queue_full g,
       gs_rejected_wait_timeout = gt_rejected_wait_timeout g, gs_source = gt_source g\<rparr>)"

section \<open>Steps and reachable gates\<close>

datatype gate_event =
    Begin nat probe probe bool
  | Pass nat probe bool
  | Interrupt nat
  | Release

fun gate_apply :: "gate_event \<Rightarrow> gate \<Rightarrow> admission option \<times> gate" where
  "gate_apply (Begin t p1 p2 expired) g = acquire_begin t p1 p2 expired g"
| "gate_apply (Pass t p expired) g = acquire_pass t p expired g"
| "gate_apply (Interrupt t) g = (None, acquire_interrupt t g)"
| "gate_apply Release g = (None, release g)"

text \<open>A new request has a new ticket, and only a thread that waits runs a pass.\<close>

fun gate_allowed :: "gate_event \<Rightarrow> gate \<Rightarrow> bool" where
  "gate_allowed (Begin t p1 p2 expired) g = (t \<notin> set (gt_queue g))"
| "gate_allowed (Pass t p expired) g = (t \<in> set (gt_queue g))"
| "gate_allowed (Interrupt t) g = (t \<in> set (gt_queue g))"
| "gate_allowed Release g = True"

inductive gate_reach :: "gate \<Rightarrow> bool" where
  start: "AgentConcurrencyGate cap depth src = Inr g \<Longrightarrow> gate_reach g"
| step: "gate_reach g \<Longrightarrow> gate_allowed e g \<Longrightarrow> gate_reach (snd (gate_apply e g))"

definition gate_inv :: "gate \<Rightarrow> bool" where
  "gate_inv g =
     (0 \<le> gt_in_flight g \<and> gt_in_flight g \<le> gt_configured_cap g \<and> 1 \<le> gt_configured_cap g \<and>
      length (gt_queue g) \<le> gt_max_queue g \<and> distinct (gt_queue g) \<and>
      gt_in_flight g \<le> int (gt_admitted_total g) \<and>
      length (gt_queue g) + gt_rejected_wait_timeout g \<le> gt_queued_total g)"

lemmas gate_defs = acquire_begin_def acquire_enter_def acquire_pass_def acquire_interrupt_def
  release_def admit_one_def effective_cap_def

lemma hd_tl_queue: "hd q = t \<Longrightarrow> q \<noteq> [] \<Longrightarrow> q = t # tl q"
  by (cases q) auto

lemma acquire_enter_inv:
  assumes "gate_inv g" "t \<notin> set (gt_queue g)" "acquire_enter t p g = (r, g')"
  shows "gate_inv g' \<and> (r = None \<longrightarrow> t \<in> set (gt_queue g'))"
  using assms by (auto simp: gate_inv_def acquire_enter_def admit_one_def effective_cap_def split: if_splits)

lemma acquire_pass_cases:
  assumes "acquire_pass t p expired g = (r, g')"
  obtains (head) "gt_queue g \<noteq> []" "hd (gt_queue g) = t" "gt_in_flight g < effective_cap p g"
      "r = Some Admitted" "g' = admit_one (g\<lparr>gt_queue := tl (gt_queue g)\<rparr>)"
    | (late) "r = Some Wait_timeout" "g' = g\<lparr>gt_queue := remove1 t (gt_queue g),
        gt_rejected_wait_timeout := gt_rejected_wait_timeout g + 1\<rparr>"
    | (wait) "r = None" "g' = g"
proof (cases "gt_queue g \<noteq> [] \<and> hd (gt_queue g) = t \<and> gt_in_flight g < effective_cap p g")
  case True
  with assms show thesis by (intro head) (simp_all add: acquire_pass_def)
next
  case False
  then have eq: "acquire_pass t p expired g =
      (if expired then (Some Wait_timeout, g\<lparr>gt_queue := remove1 t (gt_queue g),
         gt_rejected_wait_timeout := gt_rejected_wait_timeout g + 1\<rparr>) else (None, g))"
    unfolding acquire_pass_def by (rule if_not_P)
  show thesis
    by (cases expired) (use assms eq late wait in simp_all)
qed

lemma acquire_pass_inv:
  assumes "gate_inv g" "t \<in> set (gt_queue g)" "acquire_pass t p expired g = (r, g')"
  shows "gate_inv g'"
  using assms(3)
proof (cases rule: acquire_pass_cases)
  case head
  then have "gt_in_flight g < gt_configured_cap g"
    using assms(1) by (auto simp: effective_cap_def gate_inv_def split: if_splits)
  with head(5) assms(1) show ?thesis by (simp add: gate_inv_def admit_one_def distinct_tl) linarith
next
  case late
  have "length (gt_queue g) = Suc (length (remove1 t (gt_queue g)))"
    using assms(2) by (simp add: length_remove1) (metis Suc_pred length_pos_if_in_set)
  with late(2) assms(1) show ?thesis by (simp add: gate_inv_def)
next
  case wait
  with assms(1) show ?thesis by simp
qed

lemma gate_apply_inv:
  assumes "gate_inv g" "gate_allowed e g"
  shows "gate_inv (snd (gate_apply e g))"
proof (cases e)
  case (Begin t p1 p2 expired)
  obtain r g1 where en: "acquire_enter t p1 g = (r, g1)" by fastforce
  then have "gate_inv g1" "r = None \<longrightarrow> t \<in> set (gt_queue g1)"
    using acquire_enter_inv[OF assms(1) _ en] assms(2) Begin by simp_all
  with Begin en show ?thesis
    using acquire_pass_inv[of g1 t p2 expired "fst (acquire_pass t p2 expired g1)" "snd (acquire_pass t p2 expired g1)"]
    by (cases r) (simp_all add: acquire_begin_def)
next
  case (Pass t p expired)
  with assms show ?thesis
    using acquire_pass_inv[of g t p expired "fst (acquire_pass t p expired g)" "snd (acquire_pass t p expired g)"] by simp
next
  case (Interrupt t)
  have "length (remove1 t (gt_queue g)) \<le> length (gt_queue g)" by (simp add: length_remove1)
  with Interrupt assms show ?thesis by (auto simp: gate_inv_def acquire_interrupt_def)
next
  case Release
  with assms show ?thesis by (auto simp: gate_inv_def release_def)
qed

lemma gate_bounds_lemma: "gate_reach g \<Longrightarrow> gate_inv g"
proof (induction rule: gate_reach.induct)
  case (start cap depth src g)
  then show ?case by (auto simp: AgentConcurrencyGate_def gate_inv_def split: if_splits)
next
  case (step g e)
  then show ?case by (simp add: gate_apply_inv)
qed

text \<open>
  The gate keeps its bounds.  In every state any interleaving of arrivals, wake-ups,
  timeouts, interrupts and releases can reach, the number in flight is between zero and the
  configured cap, the queue is no longer than its bound and holds no ticket twice, and the
  counters account for what is queued and admitted.
\<close>

lemma gate_bounds:
  assumes "gate_reach g"
  shows "gate_inv g"
  using gate_bounds_lemma[OF assms] .

definition example_gate :: gate where
  "example_gate = \<lparr>gt_configured_cap = 1, gt_max_queue = 2, gt_source = ''config'', gt_in_flight = 0, gt_queue = [],
     gt_admitted_total = 0, gt_queued_total = 0, gt_rejected_queue_full = 0, gt_rejected_wait_timeout = 0\<rparr>"

theorem gate_bounds_witness:
  "gate_inv (snd (gate_apply (Begin 1 No_probe No_probe False) (snd (gate_apply (Begin 0 No_probe No_probe False)
     example_gate))))"
proof (rule gate_bounds)
  have "gate_reach example_gate"
    by (rule gate_reach.start[of 1 2 "''config''"]) (simp add: AgentConcurrencyGate_def example_gate_def)
  then show "gate_reach (snd (gate_apply (Begin 1 No_probe No_probe False)
      (snd (gate_apply (Begin 0 No_probe No_probe False) example_gate))))"
    by (intro gate_reach.step) (simp_all add: gate_defs example_gate_def)
qed

section \<open>First come, first served\<close>

fun waits_before :: "nat \<Rightarrow> nat \<Rightarrow> nat list \<Rightarrow> bool" where
  "waits_before a b [] = False"
| "waits_before a b (x # q) = (if x = a then b \<in> set q else x \<noteq> b \<and> waits_before a b q)"

fun gate_run :: "gate_event list \<Rightarrow> gate \<Rightarrow> (gate_event \<times> admission option) list \<times> gate" where
  "gate_run [] g = ([], g)"
| "gate_run (e # es) g =
     (case gate_apply e g of
        (r, g1) \<Rightarrow> (case gate_run es g1 of (rs, g2) \<Rightarrow> ((e, r) # rs, g2)))"

definition admits :: "nat \<Rightarrow> gate_event \<times> admission option \<Rightarrow> bool" where
  "admits t er = (snd er = Some Admitted \<and>
     (case fst er of Begin u _ _ _ \<Rightarrow> u = t | Pass u _ _ \<Rightarrow> u = t | _ \<Rightarrow> False))"

definition arrives :: "nat \<Rightarrow> gate_event \<Rightarrow> bool" where
  "arrives t e = (case e of Begin u _ _ _ \<Rightarrow> u = t | _ \<Rightarrow> False)"

definition leaves :: "nat \<Rightarrow> gate_event \<times> admission option \<Rightarrow> bool" where
  "leaves t er = (case fst er of
       Pass u _ _ \<Rightarrow> u = t \<and> snd er \<noteq> None
     | Interrupt u \<Rightarrow> u = t
     | _ \<Rightarrow> False)"

lemma waits_before_append: "waits_before a b q \<Longrightarrow> waits_before a b (q @ r)"
  by (induction q) (auto split: if_splits)

lemma waits_before_remove1:
  "waits_before a b q \<Longrightarrow> t \<noteq> a \<Longrightarrow> t \<noteq> b \<Longrightarrow> waits_before a b (remove1 t q)"
  by (induction q) (auto split: if_splits)

lemma waits_before_set: "waits_before a b q \<Longrightarrow> a \<in> set q \<and> b \<in> set q"
  by (induction q) (auto split: if_splits)

lemma waits_before_hd:
  "waits_before a b q \<Longrightarrow> distinct q \<Longrightarrow> hd q \<noteq> b"
  by (cases q) (auto split: if_splits)

lemma waits_before_tl: "waits_before a b q \<Longrightarrow> hd q \<noteq> a \<Longrightarrow> waits_before a b (tl q)"
  by (cases q) (auto split: if_splits)

lemma pass_order:
  assumes "gate_inv g" "waits_before a b (gt_queue g)" "acquire_pass t p expired g = (r, g')"
    and "\<not> (t = a \<and> r \<noteq> None)"
  shows "\<not> (t = b \<and> r = Some Admitted) \<and>
         (t = b \<and> r \<noteq> None \<or> waits_before a b (gt_queue g'))"
proof -
  have d: "distinct (gt_queue g)" using assms(1) by (simp add: gate_inv_def)
  from assms(3) show ?thesis
  proof (cases rule: acquire_pass_cases)
    case head
    have "t \<noteq> a" using assms(4) head(4) by auto
    moreover have "t \<noteq> b" using waits_before_hd[OF assms(2) d] head(2) by simp
    moreover have "gt_queue g' = tl (gt_queue g)" using head(5) by (simp add: admit_one_def)
    ultimately show ?thesis
      using head(2) waits_before_tl[OF assms(2)] by simp
  next
    case late
    then show ?thesis using assms(4) waits_before_remove1[OF assms(2), of t] by auto
  next
    case wait
    then show ?thesis using assms(2) by simp
  qed
qed

lemma enter_waiting:
  "gt_queue g \<noteq> [] \<Longrightarrow> acquire_enter t p g = (r, g') \<Longrightarrow>
   r \<noteq> Some Admitted \<and> (r = Some Queue_full \<and> gt_queue g' = gt_queue g \<or>
     r = None \<and> gt_queue g' = gt_queue g @ [t])"
  by (auto simp: acquire_enter_def split: if_splits)

lemma step_order:
  assumes "gate_inv g" "gate_allowed e g" "waits_before a b (gt_queue g)" "gate_apply e g = (r, g')"
    and "\<not> leaves a (e, r)" "\<not> leaves b (e, r)"
  shows "\<not> admits b (e, r) \<and> waits_before a b (gt_queue g')"
proof (cases e)
  case (Begin t p1 p2 expired)
  have t: "t \<noteq> a" "t \<noteq> b" using assms(2,3) waits_before_set Begin by auto
  have ne: "gt_queue g \<noteq> []" using assms(3) by auto
  obtain r1 g1 where en: "acquire_enter t p1 g = (r1, g1)" by fastforce
  have i1: "gate_inv g1" using acquire_enter_inv[OF assms(1) _ en] assms(2) Begin by simp
  have w1: "waits_before a b (gt_queue g1)"
    using enter_waiting[OF ne en] assms(3) waits_before_append by auto
  show ?thesis
  proof (cases r1)
    case None
    then have ps: "acquire_pass t p2 expired g1 = (r, g')"
      using assms(4) Begin en by (simp add: acquire_begin_def)
    show ?thesis using pass_order[OF i1 w1 ps] t Begin by (auto simp: admits_def)
  next
    case (Some x)
    then show ?thesis using assms(4) Begin en w1 t by (auto simp: acquire_begin_def admits_def)
  qed
next
  case (Pass t p expired)
  then have ps: "acquire_pass t p expired g = (r, g')" using assms(4) by simp
  show ?thesis using pass_order[OF assms(1,3) ps] assms(5,6) Pass by (auto simp: admits_def leaves_def)
next
  case (Interrupt t)
  then show ?thesis
    using assms(3-6) waits_before_remove1[OF assms(3)] by (auto simp: acquire_interrupt_def leaves_def admits_def)
next
  case Release
  then show ?thesis using assms(3,4) by (auto simp: release_def admits_def)
qed

fun all_allowed :: "gate_event list \<Rightarrow> gate \<Rightarrow> bool" where
  "all_allowed [] g = True"
| "all_allowed (e # es) g = (gate_allowed e g \<and> all_allowed es (snd (gate_apply e g)))"

lemma absent_not_admitted:
  assumes "b \<notin> set (gt_queue g)" "\<not> arrives b e" "gate_allowed e g" "gate_apply e g = (r, g')"
  shows "\<not> admits b (e, r) \<and> b \<notin> set (gt_queue g')"
proof (cases e)
  case (Begin t p1 p2 expired)
  then have t: "t \<noteq> b" using assms(2) by (simp add: arrives_def)
  obtain r1 g1 where en: "acquire_enter t p1 g = (r1, g1)" by fastforce
  then have "b \<notin> set (gt_queue g1)"
    using assms(1) t by (auto simp: acquire_enter_def admit_one_def split: if_splits)
  then have "b \<notin> set (gt_queue (snd (acquire_pass t p2 expired g1)))"
    by (auto simp: acquire_pass_def admit_one_def dest: list.set_sel(2)[rotated] notin_set_remove1)
  with \<open>b \<notin> set (gt_queue g1)\<close> show ?thesis
    using assms(4) Begin en t by (auto simp: acquire_begin_def admits_def split: option.splits)
next
  case (Pass t p expired)
  then have "t \<noteq> b" using assms(1,3) by auto
  with Pass assms(1,4) show ?thesis
    by (auto simp: acquire_pass_def admit_one_def admits_def dest: list.set_sel(2)[rotated] notin_set_remove1 split: if_splits)
next
  case (Interrupt t)
  with assms(1,4) show ?thesis by (auto simp: acquire_interrupt_def admits_def dest: notin_set_remove1)
next
  case Release
  with assms(1,4) show ?thesis by (auto simp: release_def admits_def split: if_splits)
qed

lemma absent_never_admitted:
  "b \<notin> set (gt_queue g) \<Longrightarrow> \<forall>e \<in> set es. \<not> arrives b e \<Longrightarrow> all_allowed es g \<Longrightarrow> gate_run es g = (rs, g') \<Longrightarrow>
   \<forall>er \<in> set rs. \<not> admits b er"
proof (induction es arbitrary: g rs)
  case (Cons e es)
  obtain r g1 where step: "gate_apply e g = (r, g1)" by fastforce
  obtain rs1 g2 where rec: "gate_run es g1 = (rs1, g2)" by fastforce
  have s: "\<not> admits b (e, r)" "b \<notin> set (gt_queue g1)"
    using absent_not_admitted[OF Cons.prems(1) _ _ step] Cons.prems(2,3) by auto
  moreover have "g2 = g'" using Cons.prems(4) step rec by auto
  ultimately have "\<forall>er \<in> set rs1. \<not> admits b er"
    using Cons.IH[OF s(2)] Cons.prems(2,3) step rec by simp
  with s(1) show ?case using Cons.prems(4) step rec by auto
qed simp

lemma leaves_absent:
  assumes "gate_inv g" "gate_allowed e g" "gate_apply e g = (r, g')" "leaves b (e, r)"
  shows "b \<notin> set (gt_queue g')"
proof -
  have d: "distinct (gt_queue g)" using assms(1) by (simp add: gate_inv_def)
  have "hd q \<notin> set (tl q)" if "distinct q" "q \<noteq> []" for q :: "nat list"
    using that by (cases q) auto
  with d assms(3,4) show ?thesis
    by (cases e) (auto simp: leaves_def acquire_pass_def admit_one_def acquire_interrupt_def split: if_splits)
qed

lemma waits_before_neq: "waits_before a b q \<Longrightarrow> distinct q \<Longrightarrow> a \<noteq> b"
  by (induction q) (auto split: if_splits)

lemma run_order:
  assumes "gate_inv g" "all_allowed es g" "waits_before a b (gt_queue g)" "gate_run es g = (rs, g')"
    and "\<forall>e \<in> set es. \<not> arrives b e" "i < length rs" "admits b (rs ! i)"
  shows "\<exists>j < i. leaves a (rs ! j)"
  using assms
proof (induction es arbitrary: g rs i)
  case Nil
  then show ?case by simp
next
  case (Cons e es)
  obtain r g1 where step: "gate_apply e g = (r, g1)" by fastforce
  obtain rs1 g2 where rec: "gate_run es g1 = (rs1, g2)" by fastforce
  have rs: "rs = (e, r) # rs1" "g2 = g'" using Cons.prems(4) step rec by auto
  have ok: "gate_allowed e g" "all_allowed es g1" "gate_inv g1"
    using Cons.prems(1,2) step gate_apply_inv[of g e] by auto
  have ab: "a \<noteq> b" using waits_before_neq[OF Cons.prems(3)] Cons.prems(1) by (simp add: gate_inv_def)
  have first: "\<not> admits b (e, r)"
  proof
    assume "admits b (e, r)"
    then have "\<exists>p x. e = Pass b p x \<and> r = Some Admitted"
      using Cons.prems(5) by (cases e) (auto simp: admits_def arrives_def)
    then show False using pass_order[OF Cons.prems(1,3)] step ab by fastforce
  qed
  then obtain k where k: "i = Suc k" "k < length rs1" "admits b (rs1 ! k)"
    using Cons.prems(6,7) rs by (cases i) auto
  consider "leaves a (e, r)" | "leaves b (e, r)" | "\<not> leaves a (e, r)" "\<not> leaves b (e, r)" by blast
  then show ?case
  proof cases
    case 1
    then show ?thesis using k rs by (intro exI[of _ 0]) simp
  next
    case 2
    have "\<forall>er \<in> set rs1. \<not> admits b er"
      using absent_never_admitted[OF leaves_absent[OF Cons.prems(1) ok(1) step 2] _ ok(2) rec] Cons.prems(5) by simp
    with k show ?thesis by auto
  next
    case 3
    then have "waits_before a b (gt_queue g1)"
      using step_order[OF Cons.prems(1) ok(1) Cons.prems(3) step] by simp
    then have "\<exists>j < k. leaves a (rs1 ! j)"
      using Cons.IH[OF ok(3,2) _ _ _ k(2,3)] rec rs Cons.prems(5) by simp
    then show ?thesis using k rs by auto
  qed
qed


definition queue_example :: gate where
  "queue_example = snd (gate_run [Begin 0 No_probe No_probe False, Begin 1 No_probe No_probe False,
     Begin 2 No_probe No_probe False, Release] example_gate)"


text \<open>
  The cap is never silently unlimited.  Only the exact override \<^verbatim>\<open>off\<close> (up to case and
  surrounding space) disables the gate; every other environment value and every configuration
  value, invalid ones included, resolves to a positive cap.
\<close>

lemma concurrency_cap_positive:
  "(fst (resolve_agent_concurrency env raw) = None \<longleftrightarrow>
      (\<exists>text. env = Some text \<and> lower (strip text) = ''off'')) \<and>
   (case fst (resolve_agent_concurrency env raw) of None \<Rightarrow> True | Some cap \<Rightarrow> 1 \<le> cap)"
proof -
  have "1 \<le> config_max_parallel raw"
    by (simp add: config_max_parallel_def DEFAULT_MAX_PARALLEL_def split: option.splits)
  then show ?thesis
    by (auto simp: resolve_agent_concurrency_def Let_def split: option.splits)
qed

text \<open>While degraded the gate serves one request at a time, and a free slot goes to the head.\<close>

lemma degraded_serial:
  "acquire_pass t Probe_degraded expired g = (Some Admitted, g') \<Longrightarrow> gt_in_flight g \<le> 0"
  "acquire_enter t Probe_degraded g = (Some Admitted, g') \<Longrightarrow> gt_in_flight g \<le> 0"
  by (auto simp: acquire_pass_def acquire_enter_def effective_cap_def split: if_splits)

lemma head_admitted:
  "gt_queue g = t # q \<Longrightarrow> gt_in_flight g < effective_cap p g \<Longrightarrow>
   acquire_pass t p expired g = (Some Admitted, admit_one (g\<lparr>gt_queue := q\<rparr>))"
  by (simp add: acquire_pass_def)

lemma busy_response_ascii: "\<forall>d \<in> set (json_string reason). code d < 128"
  using json_string_ascii[of reason] by blast

end
