(* ===== verification/Orchestrator.thy ===== *)
theory Orchestrator
  imports Responses Pending_Store
begin

text \<open>
  The guard's pre-send pipeline (\<^verbatim>\<open>spend_guard/orchestrator.py\<close>, \<^verbatim>\<open>replay.py\<close>, the public wrapper in
  \<^verbatim>\<open>__init__.py\<close> and the session sum of \<^verbatim>\<open>session_state.py\<close>), composed from the other theories: TIP
  header, held requests and replies, anti-loop, estimate, rolling caps, policy, and the outcome.
  An evaluation reads the clock once; the estimator, the context-window table and the digests are
  arguments; the audit log, which no later step reads, is not modelled.  Failures of the stores
  that the code only logs are outside the model, except the one the code answers: a hold that
  cannot be stored.
\<close>

section \<open>Environment and state\<close>

record guard_env =
  ge_response :: response_env
  ge_sha256 :: "string \<Rightarrow> string"
  ge_blake2b :: "string \<Rightarrow> string"
  ge_estimate :: "string \<Rightarrow> string \<Rightarrow> string \<Rightarrow> py_error + risk_estimate"
  ge_max_context :: "string \<Rightarrow> int option"
  ge_stamp :: "secs \<Rightarrow> string"
  ge_isoformat :: "secs \<Rightarrow> string"
  ge_monitor_path :: string
  ge_monitor :: monitor_db

record guard_request =
  gq_body :: string
  gq_model :: string
  gq_session :: string
  gq_headers :: headers
  gq_target_url :: string
  gq_now :: secs
  gq_ticket :: string
  gq_pending_id :: string

record guard_state =
  gs_db :: guard_db
  gs_caps :: rc_state
  gs_last_sweep :: secs

abbreviation jc_of :: "guard_env \<Rightarrow> json_codec" where
  "jc_of env \<equiv> rs_codec (ge_response env)"

abbreviation nf_of :: "guard_env \<Rightarrow> number_format" where
  "nf_of env \<equiv> rs_format (ge_response env)"

definition approval_key :: "guard_env \<Rightarrow> guard_request \<Rightarrow> string" where
  "approval_key env q = scope_key (ge_sha256 env) (gq_session q) (gq_model q) (gq_headers q)"

definition EXPIRE_SWEEP_INTERVAL_SEC :: secs where "EXPIRE_SWEEP_INTERVAL_SEC = 300"

section \<open>Helpers\<close>

definition session_cumulative_cost :: "(secs \<Rightarrow> string) \<Rightarrow> monitor_db \<Rightarrow> string \<Rightarrow> int \<Rightarrow> secs \<Rightarrow> money" where
  "session_cumulative_cost isoformat db session_id window now =
     (if session_id = [] then 0
      else case db of
             Rows rows \<Rightarrow>
               sum_where (\<lambda>r. mr_session_id r = session_id \<and> str_le (isoformat (now - of_int window)) (mr_timestamp r))
                 (\<lambda>r. col (mr_estimated_cost r)) rows
           | _ \<Rightarrow> 0)"

definition provider_from_url :: "string \<Rightarrow> string" where
  "provider_from_url url =
     (if url = [] then []
      else if contains ''anthropic'' url then ''anthropic''
      else if contains ''openai'' url \<or> contains ''codex'' url then ''openai''
      else if contains ''googleapis'' url \<or> contains ''vertex'' url then ''google''
      else ''unknown'')"

definition synthetic_decision :: "pending_request \<Rightarrow> preflight_decision" where
  "synthetic_decision p =
     verdict \<lparr>re_model = pr_model p, re_current_context_tokens = 0, re_request_tokens = 0,
              re_projected_input_tokens = pr_projected_tokens p, re_projected_output_tokens = 0,
              re_projected_cost_usd = pr_projected_cost_usd p, re_cache_hit_ratio = 0, re_rates = []\<rparr>
       Block ''anti_loop_cache'' True (Some Anti_loop)"

definition answer :: "outcome_kind \<Rightarrow> string \<Rightarrow> int \<Rightarrow> string \<Rightarrow> guard_outcome" where
  "answer kind body status audit =
     (GuardOutcome kind)\<lparr>go_response_body := Some body, go_http_status := status, go_audit_event := Some audit\<rparr>"

definition held_response :: "guard_env \<Rightarrow> pending_request \<Rightarrow> guard_outcome" where
  "held_response env p =
     (answer Blocked
        (case pr_block_response p of
           Some r \<Rightarrow> if r = [] then respond (ge_response env) (block_payload (nf_of env) (synthetic_decision p) (Some p)) else r
         | None \<Rightarrow> respond (ge_response env) (block_payload (nf_of env) (synthetic_decision p) (Some p)))
        402 ''pending_waiting'')\<lparr>go_pending_id := Some (pr_pending_id p)\<rparr>"

definition cancelled_outcome :: "guard_env \<Rightarrow> pending_request \<Rightarrow> guard_outcome" where
  "cancelled_outcome env p =
     (answer Cancelled (respond (ge_response env) (cancelled_payload p)) 200 ''cancel'')
       \<lparr>go_pending_id := Some (pr_pending_id p)\<rparr>"

definition maybe_expire_pending :: "secs \<Rightarrow> guard_state \<Rightarrow> guard_state" where
  "maybe_expire_pending now s =
     (if now - gs_last_sweep s < EXPIRE_SWEEP_INTERVAL_SEC then s
      else s\<lparr>gs_last_sweep := now, gs_db := snd (expire_old now (gs_db s))\<rparr>)"

definition fail_closed_outcome :: "guard_env \<Rightarrow> py_error \<Rightarrow> guard_outcome" where
  "fail_closed_outcome env e =
     answer Blocked (respond_compact (ge_response env) (fail_closed_payload e)) 402 ''fail_closed_internal_error''"

definition agent_of :: "headers \<Rightarrow> string" where
  "agent_of hs =
     (case find (\<lambda>(k, v). lower k = ''x-tokenpak-agent'') hs of None \<Rightarrow> [] | Some (k, v) \<Rightarrow> lower (strip v))"

definition rolling_config :: "spend_guard_config \<Rightarrow> rolling_caps_config" where
  "rolling_config cfg =
     \<lparr>rcc_enabled = cfg_rolling_caps_enabled cfg, rcc_window_seconds = cfg_rolling_caps_window_seconds cfg,
      rcc_per_agent_max_cost_usd = cfg_rc_per_agent_max_cost_usd cfg,
      rcc_per_agent_max_tokens_total = cfg_rc_per_agent_max_tokens_total cfg,
      rcc_per_agent_max_cache_read_tokens = cfg_rc_per_agent_max_cache_read_tokens cfg,
      rcc_per_fleet_max_cost_usd = cfg_rc_per_fleet_max_cost_usd cfg,
      rcc_per_fleet_max_tokens_total = cfg_rc_per_fleet_max_tokens_total cfg,
      rcc_per_fleet_max_cache_read_tokens = cfg_rc_per_fleet_max_cache_read_tokens cfg\<rparr>"

section \<open>Replies to a held request\<close>

definition replayed :: "pending_request \<Rightarrow> guard_outcome" where
  "replayed p =
     (GuardOutcome Replay)\<lparr>go_body := Some (pr_raw_request_blob p), go_headers := Some (pr_raw_request_headers p),
        go_target_url := Some (pr_target_url p), go_pending_id := Some (pr_pending_id p),
        go_audit_event := Some ''replay''\<rparr>"

definition replay_held :: "guard_env \<Rightarrow> pending_request \<Rightarrow> guard_db \<Rightarrow> guard_outcome \<times> guard_db" where
  "replay_held env p db =
     (case consume (pr_pending_id p) db of
        (None, db') \<Rightarrow>
          ((answer Blocked (respond (ge_response env) (pending_waiting_payload p)) 402 ''replay_race'')
             \<lparr>go_pending_id := Some (pr_pending_id p)\<rparr>, db')
      | (Some c, db') \<Rightarrow> ((replayed c)\<lparr>go_pending_id := Some (pr_pending_id p)\<rparr>, db'))"

definition resolve_pending ::
  "guard_env \<Rightarrow> pending_request \<Rightarrow> intent \<Rightarrow> tip_directive option \<Rightarrow> guard_db \<Rightarrow> guard_outcome \<times> guard_db" where
  "resolve_pending env p intent tip db =
     (let authorizes = (case tip of None \<Rightarrow> False | Some t \<Rightarrow> tip_allow_scope t \<noteq> None \<or> tip_bypass t) in
      if authorizes \<and> intent \<noteq> Negative then replay_held env p db
      else if intent = Positive then replay_held env p db
      else if intent = Negative then (cancelled_outcome env p, snd (discard (pr_pending_id p) db))
      else ((answer Reprompt (respond (ge_response env) (reprompt_payload p)) 402 ''reprompt'')
              \<lparr>go_pending_id := Some (pr_pending_id p)\<rparr>, db))"

text \<open>What the later stages need to know about the reply.\<close>

record flow =
  fl_tip :: "tip_directive option"
  fl_body :: string
  fl_late :: "pending_request option"
  fl_replay :: "pending_request option"
  fl_reply_hash :: string

definition is_approving :: "intent \<Rightarrow> tip_directive option \<Rightarrow> bool" where
  "is_approving intent tip =
     (intent = Positive \<or>
      (case tip of None \<Rightarrow> False | Some t \<Rightarrow> (tip_allow_scope t \<noteq> None \<or> tip_bypass t) \<and> intent \<noteq> Negative))"

definition resolve_existing ::
  "guard_env \<Rightarrow> guard_request \<Rightarrow> pending_request \<Rightarrow> flow \<Rightarrow> guard_db \<Rightarrow> (guard_outcome + flow) \<times> guard_db" where
  "resolve_existing env q p fl db =
     (let intent = parse_intent (jc_of env) (fl_body fl);
          key = approval_key env q;
          reply_hash = approval_fingerprint (jc_of env) (ge_sha256 env) (fl_body fl);
          expired = (pr_expires_at p \<le> gq_now q);
          used = (is_approving intent (fl_tip fl) \<and> reply_used key reply_hash db);
          approving = (is_approving intent (fl_tip fl) \<and> \<not> used);
          fl1 = (if used then fl\<lparr>fl_tip := None\<rparr> else fl)
      in
      if \<not> has_human_text (jc_of env) (fl_body fl) \<and> fl_tip fl = None then (Inl (held_response env p), db)
      else if used \<and> \<not> expired then (Inl (held_response env p), db)
      else if expired \<and> approving then (Inr (fl1\<lparr>fl_late := Some p, fl_reply_hash := reply_hash\<rparr>), db)
      else if expired then
        (let db1 = snd (discard (pr_pending_id p) db) in
         if intent = Negative then (Inl (cancelled_outcome env p), revoke key db1)
         else (Inr fl1, db1))
      else if approving then (Inr (fl1\<lparr>fl_replay := Some p, fl_body := pr_raw_request_blob p\<rparr>), db)
      else (case resolve_pending env p intent (fl_tip fl1) db of
              (out, db1) \<Rightarrow> (Inl out, if go_kind out = Cancelled then revoke key db1 else db1)))"

text \<open>Finding the hold, and clearing the session's other expired ones.\<close>

definition find_hold :: "guard_env \<Rightarrow> guard_request \<Rightarrow> string \<Rightarrow> guard_db \<Rightarrow> pending_request option" where
  "find_hold env q body db =
     (case latest_hold (ge_sha256 env) (gq_session q) (Some (gq_model q)) (Some (gq_headers q)) db of
        Some p \<Rightarrow> Some p
      | None \<Rightarrow>
          if parse_intent (jc_of env) body = Negative
          then latest_hold (ge_sha256 env) (gq_session q) (Some (gq_model q)) (Some []) db
          else None)"

definition keep_id :: "pending_request option \<Rightarrow> string" where
  "keep_id p = (case p of None \<Rightarrow> [] | Some r \<Rightarrow> pr_pending_id r)"

definition reply_stage ::
  "guard_env \<Rightarrow> guard_request \<Rightarrow> tip_directive option \<Rightarrow> string \<Rightarrow> guard_db \<Rightarrow> (guard_outcome + flow) \<times> guard_db" where
  "reply_stage env q tip body db =
     (let hold = find_hold env q body db;
          db1 = discard_expired (gq_session q) (keep_id hold) (gq_now q) db;
          fl = \<lparr>fl_tip = tip, fl_body = body, fl_late = None, fl_replay = None, fl_reply_hash = []\<rparr>
      in case hold of None \<Rightarrow> (Inr fl, db1) | Some p \<Rightarrow> resolve_existing env q p fl db1)"

section \<open>TIP cancel\<close>

definition cancel_stage :: "guard_env \<Rightarrow> guard_request \<Rightarrow> string \<Rightarrow> guard_db \<Rightarrow> guard_outcome \<times> guard_db" where
  "cancel_stage env q body db =
     (let db1 = revoke (approval_key env q) db;
          hold = (case latest_hold (ge_sha256 env) (gq_session q) (Some (gq_model q)) (Some (gq_headers q)) db1 of
                    Some p \<Rightarrow> Some p
                  | None \<Rightarrow> latest_hold (ge_sha256 env) (gq_session q) (Some (gq_model q)) (Some []) db1);
          db2 = discard_expired (gq_session q) (keep_id hold) (gq_now q) db1
      in case hold of
           Some p \<Rightarrow> (cancelled_outcome env p, snd (discard (pr_pending_id p) db2))
         | None \<Rightarrow> ((GuardOutcome Forward_modified)\<lparr>go_body := Some body\<rparr>, db2))"

section \<open>Anti-loop\<close>

definition anti_loop :: "guard_env \<Rightarrow> guard_request \<Rightarrow> flow \<Rightarrow> guard_db \<Rightarrow> pending_request option" where
  "anti_loop env q fl db =
     (case recent_block_by_hash (hash_request (ge_blake2b env) (fl_body fl) (gq_model q)) 30 (gq_session q) (gq_now q) db of
        None \<Rightarrow> None
      | Some r \<Rightarrow>
          if pr_status r \<in> {Pending, Expired, Discarded} \<and> gq_now q < pr_expires_at r \<and>
             scope_key (ge_sha256 env) (gq_session q) (pr_model r) (pr_raw_request_headers r) = approval_key env q \<and>
             fl_tip fl = None \<and> fl_late fl = None \<and> fl_replay fl = None
          then Some r else None)"

definition anti_loop_outcome :: "guard_env \<Rightarrow> pending_request \<Rightarrow> guard_outcome" where
  "anti_loop_outcome env r =
     (answer Blocked (respond (ge_response env) (block_payload (nf_of env) (synthetic_decision r) (Some r))) 402 ''anti_loop_hit'')
       \<lparr>go_pending_id := Some (pr_pending_id r)\<rparr>"

section \<open>A late reply\<close>

text \<open>
  An approval of an expired hold counts for the new request when its input has grown by at most a
  tenth of the context window; otherwise the reply is spent and the request is held again.
\<close>

definition late_fits :: "guard_env \<Rightarrow> guard_request \<Rightarrow> risk_estimate \<Rightarrow> pending_request \<Rightarrow> bool" where
  "late_fits env q est p =
     (let expired_input = (case pr_projected_input_tokens p of None \<Rightarrow> pr_projected_tokens p | Some n \<Rightarrow> n) in
      case ge_max_context env (gq_model q) of
        None \<Rightarrow> False
      | Some window \<Rightarrow>
          window \<noteq> 0 \<and> of_int (re_projected_input_tokens est) \<le> of_int expired_input + (of_int window * (1 / 10) :: rat))"

definition late_stage ::
  "guard_env \<Rightarrow> guard_request \<Rightarrow> risk_estimate \<Rightarrow> flow \<Rightarrow> guard_db \<Rightarrow> (flow \<times> bool) \<times> guard_db" where
  "late_stage env q est fl db =
     (case fl_late fl of
        None \<Rightarrow> ((fl, False), db)
      | Some p \<Rightarrow>
          if late_fits env q est p
          then ((case fl_tip fl of
                   None \<Rightarrow> fl\<lparr>fl_tip := Some (TIPDirective\<lparr>tip_allow_scope := Some Once\<rparr>)\<rparr>
                 | Some _ \<Rightarrow> fl, False), db)
          else ((fl\<lparr>fl_tip := None\<rparr>, True), remember_reply (approval_key env q) (fl_reply_hash fl) db))"

section \<open>Rolling caps\<close>

definition projected_cache_read :: "risk_estimate \<Rightarrow> int" where
  "projected_cache_read est = trunc (of_int (re_projected_input_tokens est) * re_cache_hit_ratio est)"

definition caps_stage ::
  "guard_env \<Rightarrow> spend_guard_config \<Rightarrow> guard_request \<Rightarrow> risk_estimate \<Rightarrow> rc_state \<Rightarrow>
   (cap_breach option \<times> string option) \<times> rc_state" where
  "caps_stage env cfg q est caps =
     (let agent = agent_of (gq_headers q);
          caps1 = (if agent \<noteq> [] \<and> gq_session q \<noteq> [] then record_session_agent (gq_session q) agent (gq_now q) caps else caps)
      in if cfg_rolling_caps_enabled cfg \<and> agent \<noteq> []
         then check_rolling_caps_and_admit (ge_stamp env) (ge_monitor_path env) (ge_monitor env) agent
                (re_projected_cost_usd est) (re_projected_input_tokens est) (re_projected_output_tokens est)
                (projected_cache_read est) (rolling_config cfg) (gq_ticket q) (gq_now q) caps1
         else ((None, None), caps1))"

definition cap_outcome :: "guard_env \<Rightarrow> risk_estimate \<Rightarrow> cap_breach \<Rightarrow> guard_outcome" where
  "cap_outcome env est b =
     (answer Blocked (respond_compact (ge_response env) (rolling_cap_payload (nf_of env) b)) 402 ''rolling_cap_block'')
       \<lparr>go_decision := Some (verdict est Block (''rolling_cap_breach:'' @ br_cap_dimension b) False None)\<rparr>"

section \<open>The verdict\<close>

definition session_running :: "guard_env \<Rightarrow> spend_guard_config \<Rightarrow> guard_request \<Rightarrow> money" where
  "session_running env cfg q =
     (if 0 < cfg_session_block_cost_usd cfg
      then session_cumulative_cost (ge_isoformat env) (ge_monitor env) (gq_session q) (cfg_session_window_seconds cfg) (gq_now q)
      else 0)"

definition persistent_scope :: "tip_directive option \<Rightarrow> bool" where
  "persistent_scope tip =
     (case tip of None \<Rightarrow> False | Some t \<Rightarrow> tip_allow_scope t \<in> {Some Fifteen_minutes, Some Whole_session})"

definition first_verdict ::
  "guard_env \<Rightarrow> spend_guard_config \<Rightarrow> guard_request \<Rightarrow> risk_estimate \<Rightarrow> flow \<Rightarrow> preflight_decision" where
  "first_verdict env cfg q est fl =
     decide est cfg (fl_tip fl) (session_running env cfg q) (ge_max_context env (gq_model q))
       (fl_replay fl \<noteq> None) (fl_replay fl \<noteq> None \<and> \<not> persistent_scope (fl_tip fl))"

definition verdict_stage ::
  "guard_env \<Rightarrow> spend_guard_config \<Rightarrow> guard_request \<Rightarrow> risk_estimate \<Rightarrow> flow \<Rightarrow> bool \<Rightarrow> guard_db \<Rightarrow>
   preflight_decision \<times> guard_db" where
  "verdict_stage env cfg q est fl earlier_expired db =
     (let d = first_verdict env cfg q est fl in
      if earlier_expired \<and> (pd_decision d \<in> {Allow, Warn} \<or> pd_requires_approval d)
      then (verdict est Block ''earlier_hold_expired'' True None, db)
      else if pd_reason d = ''projected_exceeds_context_window_percent'' \<and> gq_session q \<noteq> []
      then let w = decide est cfg None (session_running env cfg q) (ge_max_context env (gq_model q)) True False
           in if pd_decision w \<in> {Allow, Warn}
              then (case redeem (approval_key env q) est (gq_now q) db of (ok, db1) \<Rightarrow> (if ok then w else d, db1))
              else (d, db)
      else (d, db))"

section \<open>Forwarding and refusing\<close>

definition cancel_admission :: "string option \<Rightarrow> rc_state \<Rightarrow> rc_state" where
  "cancel_admission ticket caps = snd (settle_pending_spend ticket caps)"

text \<open>
  Allowed: an expired or a held request is consumed first, then the approval the directive asks
  for is stored.  \<open>modified\<close> says the body lost a TIP header.
\<close>

definition settle_reply :: "guard_env \<Rightarrow> guard_request \<Rightarrow> flow \<Rightarrow> guard_db \<Rightarrow> (pending_request + pending_request option) \<times> guard_db" where
  "settle_reply env q fl db =
     (case (case fl_late fl of
              None \<Rightarrow> (True, db)
            | Some p \<Rightarrow> consume_expired (approval_key env q) (pr_pending_id p) (fl_reply_hash fl) (gq_now q) db) of
        (late_ok, db1) \<Rightarrow>
          if \<not> late_ok then (Inl (the (fl_late fl)), db1)
          else case fl_replay fl of
                 None \<Rightarrow> (Inr None, db1)
               | Some p \<Rightarrow> (case consume (pr_pending_id p) db1 of
                             (None, db2) \<Rightarrow> (Inl p, db2)
                           | (Some c, db2) \<Rightarrow> (Inr (Some c), db2)))"

definition grant_approval :: "guard_env \<Rightarrow> guard_request \<Rightarrow> risk_estimate \<Rightarrow> flow \<Rightarrow> guard_db \<Rightarrow> guard_db" where
  "grant_approval env q est fl db =
     (case fl_tip fl of
        Some t \<Rightarrow> if gq_session q \<noteq> [] then create_approval (approval_key env q) t est (gq_now q) db else db
      | None \<Rightarrow> db)"

definition forward_stage ::
  "guard_env \<Rightarrow> guard_request \<Rightarrow> bool \<Rightarrow> risk_estimate \<Rightarrow> flow \<Rightarrow> preflight_decision \<Rightarrow> string option \<Rightarrow> guard_state \<Rightarrow>
   guard_outcome \<times> guard_state" where
  "forward_stage env q modified est fl d ticket s =
     (case settle_reply env q fl (gs_db s) of
        (Inl p, db) \<Rightarrow> (held_response env p, s\<lparr>gs_db := db, gs_caps := cancel_admission ticket (gs_caps s)\<rparr>)
      | (Inr consumed, db) \<Rightarrow>
          (let s1 = s\<lparr>gs_db := grant_approval env q est fl db\<rparr> in
           case consumed of
             Some c \<Rightarrow> ((replayed c)\<lparr>go_admission_ticket := ticket\<rparr>, s1)
           | None \<Rightarrow>
               ((GuardOutcome (if modified then Forward_modified else Forward))
                  \<lparr>go_body := Some (fl_body fl), go_decision := Some d, go_admission_ticket := ticket\<rparr>, s1)))"

definition refusal :: "outcome_kind \<Rightarrow> string \<Rightarrow> preflight_decision \<Rightarrow> string \<Rightarrow> guard_outcome" where
  "refusal kind body d audit = (answer kind body 402 audit)\<lparr>go_decision := Some d\<rparr>"

definition hold_request :: "spend_guard_config \<Rightarrow> guard_request \<Rightarrow> risk_estimate \<Rightarrow> flow \<Rightarrow> hold_args" where
  "hold_request cfg q est fl =
     \<lparr>ha_session_id = gq_session q, ha_body = fl_body fl, ha_headers = gq_headers q, ha_target_url = gq_target_url q,
      ha_provider = provider_from_url (gq_target_url q), ha_model = gq_model q,
      ha_projected_tokens = re_projected_input_tokens est + re_projected_output_tokens est,
      ha_projected_cost_usd = re_projected_cost_usd est, ha_ttl_seconds = cfg_pending_ttl_seconds cfg,
      ha_projected_input_tokens = Some (re_projected_input_tokens est)\<rparr>"

definition expired_message :: string where
  "expired_message = ''The earlier hold expired and this request grew by more than 10% of the model context window. Review this new estimate and reply yes to approve this request.''"

fun replace_message :: "string \<Rightarrow> json \<Rightarrow> json" where
  "replace_message m (J_obj [(k, J_obj kvs)]) = J_obj [(k, J_obj (AList.update ''message'' (J_str m) kvs))]"
| "replace_message m j = j"

definition hold_response :: "guard_env \<Rightarrow> preflight_decision \<Rightarrow> pending_request \<Rightarrow> bool \<Rightarrow> string" where
  "hold_response env d p earlier_expired =
     (let payload = block_payload (nf_of env) d (Some p)
      in respond (ge_response env) (if earlier_expired then replace_message expired_message payload else payload))"

definition block_stage ::
  "guard_env \<Rightarrow> spend_guard_config \<Rightarrow> guard_request \<Rightarrow> risk_estimate \<Rightarrow> flow \<Rightarrow> bool \<Rightarrow> preflight_decision \<Rightarrow> guard_db \<Rightarrow>
   guard_outcome \<times> guard_db" where
  "block_stage env cfg q est fl earlier_expired d db =
     (let re = ge_response env; nf = nf_of env in
      if \<not> pd_requires_approval d then (refusal Blocked (respond re (block_payload nf d None)) d ''block'', db)
      else case fl_replay fl of
             Some p \<Rightarrow> (held_response env p, db)
           | None \<Rightarrow>
               if gq_session q = []
               then (refusal Blocked (respond re (identity_unavailable_payload nf d)) d ''block'', db)
               else (case store (ge_blake2b env) (gq_pending_id q) (gq_now q) (hold_request cfg q est fl) db of
                       (Inl e, db1) \<Rightarrow> (refusal Blocked (respond re (store_unavailable_payload nf d)) d ''block'', db1)
                     | (Inr p, db1) \<Rightarrow>
                         (let response = hold_response env d p earlier_expired in
                          ((refusal Blocked response d ''block'')\<lparr>go_pending_id := Some (pr_pending_id p)\<rparr>,
                           remember_block_response (pr_pending_id p) response db1))))"

definition decided_stage ::
  "guard_env \<Rightarrow> spend_guard_config \<Rightarrow> guard_request \<Rightarrow> bool \<Rightarrow> risk_estimate \<Rightarrow> flow \<Rightarrow> bool \<Rightarrow> preflight_decision \<Rightarrow>
   string option \<Rightarrow> guard_state \<Rightarrow> guard_outcome \<times> guard_state" where
  "decided_stage env cfg q modified est fl earlier_expired d ticket s =
     (let cancelled = s\<lparr>gs_caps := cancel_admission ticket (gs_caps s)\<rparr> in
      if (case fl_tip fl of None \<Rightarrow> False | Some t \<Rightarrow> tip_estimate_only t) \<and> pd_decision d \<noteq> Hard_block
      then ((answer Estimate (respond (ge_response env) (estimate_payload est)) 200 ''estimate'')\<lparr>go_decision := Some d\<rparr>,
            cancelled)
      else if pd_decision d \<in> {Allow, Warn} then forward_stage env q modified est fl d ticket s
      else if pd_decision d = Hard_block
      then (refusal Hard_blocked (respond (ge_response env) (hard_block_payload (nf_of env) d)) d ''hard_block'', cancelled)
      else (case block_stage env cfg q est fl earlier_expired d (gs_db s) of
              (out, db) \<Rightarrow> (out, cancelled\<lparr>gs_db := db\<rparr>)))"

section \<open>The pipeline\<close>

definition assess_stage ::
  "guard_env \<Rightarrow> spend_guard_config \<Rightarrow> guard_request \<Rightarrow> bool \<Rightarrow> flow \<Rightarrow> guard_state \<Rightarrow> guard_outcome \<times> guard_state" where
  "assess_stage env cfg q modified fl s =
     (case ge_estimate env (fl_body fl) (gq_model q) (gq_session q) of
        Inl e \<Rightarrow> (fail_closed_outcome env e, s)
      | Inr est \<Rightarrow>
          (case late_stage env q est fl (gs_db s) of
             ((fl1, earlier_expired), db1) \<Rightarrow>
               (case caps_stage env cfg q est (gs_caps s) of
                  ((Some breach, _), caps) \<Rightarrow> (cap_outcome env est breach, s\<lparr>gs_db := db1, gs_caps := caps\<rparr>)
                | ((None, ticket), caps) \<Rightarrow>
                    (case verdict_stage env cfg q est fl1 earlier_expired db1 of
                       (d, db2) \<Rightarrow>
                         decided_stage env cfg q modified est fl1 earlier_expired d ticket
                           (s\<lparr>gs_db := db2, gs_caps := caps\<rparr>)))))"

definition evaluate ::
  "guard_env \<Rightarrow> spend_guard_config \<Rightarrow> guard_request \<Rightarrow> guard_state \<Rightarrow> guard_outcome \<times> guard_state" where
  "evaluate env cfg q s =
     (if \<not> cfg_enabled cfg then (passthrough (gq_body q), s)
      else case parse_and_strip_tip_header (jc_of env) (gq_body q) of
             (tip, body) \<Rightarrow>
               if (case tip of None \<Rightarrow> False | Some t \<Rightarrow> tip_cancel t)
               then (case cancel_stage env q body (gs_db s) of (out, db) \<Rightarrow> (out, s\<lparr>gs_db := db\<rparr>))
               else let s1 = maybe_expire_pending (gq_now q) s in
                    (case reply_stage env q tip body (gs_db s1) of
                       (Inl out, db) \<Rightarrow> (out, s1\<lparr>gs_db := db\<rparr>)
                     | (Inr fl, db) \<Rightarrow>
                         (case anti_loop env q fl db of
                            Some r \<Rightarrow> (anti_loop_outcome env r, s1\<lparr>gs_db := db\<rparr>)
                          | None \<Rightarrow> assess_stage env cfg q (tip \<noteq> None) fl (s1\<lparr>gs_db := db\<rparr>))))"

section \<open>The public entry point\<close>

datatype guard_exn = Lock_contention | Other_error py_error

definition LOCK_RETRY_BACKOFF_SEC :: "secs list" where "LOCK_RETRY_BACKOFF_SEC = [1 / 2, 3 / 2]"

definition state_busy_outcome :: "guard_env \<Rightarrow> nat \<Rightarrow> guard_outcome" where
  "state_busy_outcome env retries =
     answer Blocked (respond_compact (ge_response env) (state_busy_payload retries)) 402 ''fail_closed_state_busy''"

text \<open>Attempt \<open>k\<close> of the evaluation may find the store locked, fail otherwise, or answer.\<close>

fun attempts_loop :: "guard_env \<Rightarrow> (nat \<Rightarrow> guard_exn + guard_outcome) \<Rightarrow> nat \<Rightarrow> nat \<Rightarrow> guard_outcome" where
  "attempts_loop env attempt k 0 = state_busy_outcome env (length LOCK_RETRY_BACKOFF_SEC)"
| "attempts_loop env attempt k (Suc n) =
     (case attempt k of
        Inr out \<Rightarrow> out
      | Inl (Other_error e) \<Rightarrow> fail_closed_outcome env e
      | Inl Lock_contention \<Rightarrow> attempts_loop env attempt (Suc k) n)"

definition evaluate_guarded ::
  "guard_env \<Rightarrow> spend_guard_config option \<Rightarrow> string \<Rightarrow> (nat \<Rightarrow> guard_exn + guard_outcome) \<Rightarrow> guard_outcome" where
  "evaluate_guarded env config body attempt =
     (if (case config of None \<Rightarrow> False | Some cfg \<Rightarrow> \<not> cfg_enabled cfg) then passthrough body
      else attempts_loop env attempt 0 (length LOCK_RETRY_BACKOFF_SEC + 1))"

section \<open>What an evaluation does to the store\<close>

text \<open>
  \<open>store_trace i k db db'\<close>: the store moved from \<open>db\<close> to \<open>db'\<close> by operations of the store alone,
  among which at least \<open>k\<close> took the hold \<open>i\<close>.
\<close>

definition store_trace :: "string \<Rightarrow> nat \<Rightarrow> guard_db \<Rightarrow> guard_db \<Rightarrow> bool" where
  "store_trace i k db db' = (\<exists>ops. db' = fold db_step ops db \<and> k \<le> wins (hold_act i) ops db)"

lemma store_trace_refl [simp]: "store_trace i 0 db db"
  unfolding store_trace_def by (rule exI[of _ "[]"]) simp

lemma fold_hold_act: "fold (\<lambda>e s. snd (hold_act i e s)) ops db = fold db_step ops db"
  by (simp add: hold_act_def)

lemma store_trace_trans [trans]:
  "store_trace i k a b \<Longrightarrow> store_trace i l b c \<Longrightarrow> store_trace i (k + l) a c"
proof -
  assume "store_trace i k a b" "store_trace i l b c"
  then obtain ops ops' where "b = fold db_step ops a" "k \<le> wins (hold_act i) ops a"
      "c = fold db_step ops' b" "l \<le> wins (hold_act i) ops' b"
    by (auto simp: store_trace_def)
  then show ?thesis
    unfolding store_trace_def
    by (intro exI[of _ "ops @ ops'"]) (simp add: wins_append fold_hold_act)
qed

lemma store_trace_trans0: "store_trace i 0 a b \<Longrightarrow> store_trace i k b c \<Longrightarrow> store_trace i k a c"
  using store_trace_trans[of i 0 a b k c] by simp

lemma store_trace_step: "db' = db_step op db \<Longrightarrow> k \<le> (if takes i op db then 1 else 0) \<Longrightarrow> store_trace i k db db'"
  unfolding store_trace_def by (rule exI[of _ "[op]"]) (simp add: hold_act_def)

lemma store_trace_ops:
  "store_trace i 0 db (snd (discard j db))"
  "store_trace i 0 db (snd (expire_old now db))"
  "store_trace i 0 db (discard_expired sess keep now db)"
  "store_trace i 0 db (revoke key db)"
  "store_trace i 0 db (remember_reply key h db)"
  "store_trace i 0 db (create_approval key t est now db)"
  "store_trace i 0 db (snd (redeem key est now db))"
  "store_trace i 0 db (snd (store blake j now a db))"
  "store_trace i 0 db (remember_block_response j resp db)"
  "store_trace i 0 db (snd (consume_expired key j h now db))"
  "store_trace i 0 db (snd (consume j db))"
  using store_trace_step[of _ "D_discard j" db 0 i] store_trace_step[of _ "D_expire now" db 0 i]
    store_trace_step[of _ "D_discard_expired sess keep now" db 0 i] store_trace_step[of _ "D_revoke key" db 0 i]
    store_trace_step[of _ "D_remember_reply key h" db 0 i] store_trace_step[of _ "D_create key t est now" db 0 i]
    store_trace_step[of _ "D_redeem key est now" db 0 i] store_trace_step[of _ "D_store blake j now a" db 0 i]
    store_trace_step[of _ "D_remember j resp" db 0 i] store_trace_step[of _ "D_consume_expired key j h now" db 0 i]
    store_trace_step[of _ "D_consume j" db 0 i]
  by simp_all

lemma store_trace_consume: "consume i db = (Some c, db') \<Longrightarrow> store_trace i 1 db db'"
  using store_trace_step[of db' "D_consume i" db 1 i] by simp

lemma consume_id: "consume i db = (Some c, db') \<Longrightarrow> pr_pending_id c = i"
  by (auto simp: consume_def dest!: get_by_id_mem split: prod.splits if_splits)

definition replays :: "string \<Rightarrow> guard_outcome \<Rightarrow> nat" where
  "replays i out = (if go_kind out = Replay \<and> go_pending_id out = Some i then 1 else 0)"

lemma replays_0 [simp]:
  "replays i (held_response env p) = 0" "replays i (cancelled_outcome env p) = 0"
  "replays i (anti_loop_outcome env r) = 0" "replays i (fail_closed_outcome env e) = 0"
  "replays i (cap_outcome env est b) = 0" "k \<noteq> Replay \<Longrightarrow> replays i (refusal k body d audit) = 0"
  "go_kind out \<noteq> Replay \<Longrightarrow> replays i out = 0"
  by (simp_all add: replays_def held_response_def cancelled_outcome_def anti_loop_outcome_def fail_closed_outcome_def
      cap_outcome_def refusal_def answer_def GuardOutcome_def)

lemma kinds [simp]:
  "go_kind (answer k b st a) = k" "go_kind (GuardOutcome k) = k" "go_kind (replayed p) = Replay"
  "go_pending_id (replayed p) = Some (pr_pending_id p)"
  by (simp_all add: answer_def GuardOutcome_def replayed_def)

lemma trace_replay_held:
  "replay_held env p db = (out, db') \<Longrightarrow> store_trace i (replays i out) db db'"
  using store_trace_ops(11)[of i db "pr_pending_id p"] store_trace_consume[of "pr_pending_id p" db]
  by (auto simp: replay_held_def replays_def split: prod.splits option.splits)

lemma trace_resolve_pending:
  "resolve_pending env p intent tip db = (out, db') \<Longrightarrow> store_trace i (replays i out) db db'"
  using trace_replay_held[of env p db] store_trace_ops(1)[of i db "pr_pending_id p"]
  by (auto simp: resolve_pending_def Let_def split: if_splits)

lemma store_trace_then0: "store_trace i k a b \<Longrightarrow> store_trace i 0 b c \<Longrightarrow> store_trace i k a c"
  using store_trace_trans[of i k a b 0 c] by simp

definition result_replays :: "string \<Rightarrow> guard_outcome + 'f \<Rightarrow> nat" where
  "result_replays i r = (case r of Inl out \<Rightarrow> replays i out | Inr _ \<Rightarrow> 0)"

lemma result_replays_simps [simp]: "result_replays i (Inl out) = replays i out" "result_replays i (Inr fl) = 0"
  by (simp_all add: result_replays_def)

lemma trace_resolve_existing:
  assumes "resolve_existing env q p fl db = (r, db')"
  shows "store_trace i (result_replays i r) db db'"
proof -
  have final: "store_trace i 0 db (revoke key db1)"
    if "resolve_pending env p intent tip db = (out, db1)" "go_kind out = Cancelled" for out db1 key intent tip
    using store_trace_then0[OF trace_resolve_pending[OF that(1)] store_trace_ops(4), of i] that(2) by simp
  have discarded: "store_trace i 0 db (revoke key (snd (discard j db)))" for key j
    using store_trace_trans0[OF store_trace_ops(1) store_trace_ops(4)] by blast
  show ?thesis
    using assms final store_trace_ops(1) discarded trace_resolve_pending
    by (auto simp: resolve_existing_def Let_def split: if_splits prod.splits)
qed

lemma trace_reply_stage:
  assumes "reply_stage env q tip body db = (r, db')"
  shows "store_trace i (result_replays i r) db db'"
  using assms store_trace_trans0[OF store_trace_ops(3) trace_resolve_existing] store_trace_ops(3)
  by (auto simp: reply_stage_def Let_def split: option.splits)

lemma trace_cancel_stage:
  assumes "cancel_stage env q body db = (out, db')"
  shows "store_trace i (replays i out) db db'"
proof -
  define db1 where "db1 = revoke (approval_key env q) db"
  have t: "store_trace i 0 db (discard_expired sess keep now db1)" for sess keep now
    unfolding db1_def by (rule store_trace_trans0[OF store_trace_ops(4) store_trace_ops(3)])
  have "store_trace i 0 db (snd (discard j (discard_expired sess keep now db1)))" for j sess keep now
    by (rule store_trace_trans0[OF t store_trace_ops(1)])
  with t show ?thesis
    using assms unfolding cancel_stage_def Let_def db1_def[symmetric]
    by (auto split: option.splits)
qed

lemma trace_late_stage: "late_stage env q est fl db = (r, db') \<Longrightarrow> store_trace i 0 db db'"
  using store_trace_ops(5) by (auto simp: late_stage_def split: option.splits if_splits)

lemma trace_verdict_stage: "verdict_stage env cfg q est fl b db = (d, db') \<Longrightarrow> store_trace i 0 db db'"
  using store_trace_ops(7)[of i db "approval_key env q" est "gq_now q"]
  by (auto simp: verdict_stage_def Let_def split: if_splits prod.splits)

lemma trace_settle_reply:
  assumes "settle_reply env q fl db = (r, db')"
  shows "store_trace i (case r of Inr (Some c) \<Rightarrow> if pr_pending_id c = i then 1 else 0 | _ \<Rightarrow> 0) db db'"
proof -
  define step where "step = (case fl_late fl of None \<Rightarrow> (True, db)
      | Some p \<Rightarrow> consume_expired (approval_key env q) (pr_pending_id p) (fl_reply_hash fl) (gq_now q) db)"
  obtain late_ok db1 where st: "step = (late_ok, db1)" by (cases step)
  have t1: "store_trace i 0 db db1"
  proof (cases "fl_late fl")
    case (Some p)
    then show ?thesis
      using st store_trace_ops(10)[of i db "approval_key env q" "pr_pending_id p" "fl_reply_hash fl" "gq_now q"]
      by (simp add: step_def)
  qed (use st in \<open>simp add: step_def\<close>)
  have t2: "store_trace i 0 db1 db2" "store_trace i (case c of Some c \<Rightarrow> if pr_pending_id c = i then 1 else 0 | None \<Rightarrow> 0) db1 db2"
    if "consume j db1 = (c, db2)" for j c db2
    using that store_trace_ops(11)[of i db1 j] store_trace_consume[of i db1] consume_id[of j db1]
    by (auto split: option.splits)
  show ?thesis
  proof (cases "late_ok \<and> fl_replay fl \<noteq> None")
    case False
    then show ?thesis
      using assms t1 unfolding settle_reply_def step_def[symmetric] st by (auto split: if_splits option.splits)
  next
    case True
    then obtain p c db2 where p: "fl_replay fl = Some p" "consume (pr_pending_id p) db1 = (c, db2)" by fastforce
    then have "db' = db2" "r = (case c of None \<Rightarrow> Inl p | Some c \<Rightarrow> Inr (Some c))"
      using assms True unfolding settle_reply_def step_def[symmetric] st by (auto split: option.splits)
    then show ?thesis using store_trace_trans0[OF t1 t2(2)[OF p(2)]] by (cases c) auto
  qed
qed

lemma trace_grant: "store_trace i 0 db (grant_approval env q est fl db)"
  using store_trace_ops(6) by (auto simp: grant_approval_def split: option.splits)

lemma trace_forward_stage:
  assumes "forward_stage env q m est fl d t s = (out, s')"
  shows "store_trace i (replays i out) (gs_db s) (gs_db s')"
proof -
  obtain r db where sr: "settle_reply env q fl (gs_db s) = (r, db)" by fastforce
  note tr = trace_settle_reply[OF sr, of i]
  show ?thesis
  proof (cases r)
    case (Inl p)
    then show ?thesis using assms sr tr by (auto simp: forward_stage_def)
  next
    case (Inr consumed)
    have "store_trace i (replays i out) (gs_db s) db"
      using assms sr tr Inr by (auto simp: forward_stage_def replays_def Let_def GuardOutcome_def split: option.splits if_splits)
    moreover have "gs_db s' = grant_approval env q est fl db"
      using assms sr Inr by (auto simp: forward_stage_def Let_def split: option.splits)
    ultimately show ?thesis using store_trace_then0[OF _ trace_grant] by simp
  qed
qed

lemma trace_block_stage:
  assumes "block_stage env cfg q est fl b d db = (out, db')"
  shows "store_trace i (replays i out) db db'"
proof -
  have st: "store_trace i 0 db db1" if "store blake j now a db = (r, db1)" for blake j now a r db1
    using store_trace_ops(8)[of i db blake j now a] that by simp
  then have "store_trace i 0 db (remember_block_response k resp db1)"
    if "store blake j now a db = (r, db1)" for blake j now a r db1 k resp
    using store_trace_trans0[OF st store_trace_ops(9)] that by blast
  with st show ?thesis
    using assms by (auto simp: block_stage_def Let_def refusal_def split: if_splits option.splits prod.splits sum.splits)
qed

lemma trace_decided_stage:
  assumes "decided_stage env cfg q m est fl b d t s = (out, s')"
  shows "store_trace i (replays i out) (gs_db s) (gs_db s')"
  using assms trace_forward_stage[of env q m est fl d t s] trace_block_stage[of env cfg q est fl b d "gs_db s"]
  by (auto simp: decided_stage_def Let_def refusal_def split: if_splits prod.splits)

lemma trace_assess_stage:
  assumes "assess_stage env cfg q m fl s = (out, s')"
  shows "store_trace i (replays i out) (gs_db s) (gs_db s')"
proof (cases "ge_estimate env (fl_body fl) (gq_model q) (gq_session q)")
  case (Inl e)
  then show ?thesis using assms by (auto simp: assess_stage_def)
next
  case (Inr est)
  obtain fl1 late db1 where l: "late_stage env q est fl (gs_db s) = ((fl1, late), db1)" by (metis prod.exhaust)
  obtain breach ticket caps where c: "caps_stage env cfg q est (gs_caps s) = ((breach, ticket), caps)" by (metis prod.exhaust)
  obtain d db2 where v: "verdict_stage env cfg q est fl1 late db1 = (d, db2)" by (metis prod.exhaust)
  have t: "store_trace i 0 (gs_db s) db1" "store_trace i 0 (gs_db s) db2"
    using trace_late_stage[OF l] store_trace_trans0[OF trace_late_stage[OF l] trace_verdict_stage[OF v]] by auto
  show ?thesis
  proof (cases breach)
    case None
    then have "decided_stage env cfg q m est fl1 late d ticket (s\<lparr>gs_db := db2, gs_caps := caps\<rparr>) = (out, s')"
      using assms Inr l c v by (simp add: assess_stage_def)
    from store_trace_trans0[OF t(2)] trace_decided_stage[OF this, of i] show ?thesis by simp
  next
    case (Some b)
    then show ?thesis using assms Inr l c t by (auto simp: assess_stage_def)
  qed
qed

lemma evaluate_cases:
  assumes "evaluate env cfg q s = (out, s')"
  obtains
    (off) "\<not> cfg_enabled cfg" "out = passthrough (gq_body q)" "s' = s"
  | (cancel) t body db where "cfg_enabled cfg" "parse_and_strip_tip_header (jc_of env) (gq_body q) = (Some t, body)"
      "tip_cancel t" "cancel_stage env q body (gs_db s) = (out, db)" "s' = s\<lparr>gs_db := db\<rparr>"
  | (reply) tip body db where "cfg_enabled cfg" "parse_and_strip_tip_header (jc_of env) (gq_body q) = (tip, body)"
      "reply_stage env q tip body (gs_db (maybe_expire_pending (gq_now q) s)) = (Inl out, db)"
      "s' = (maybe_expire_pending (gq_now q) s)\<lparr>gs_db := db\<rparr>"
  | (repeated) tip body fl db r where "cfg_enabled cfg" "parse_and_strip_tip_header (jc_of env) (gq_body q) = (tip, body)"
      "reply_stage env q tip body (gs_db (maybe_expire_pending (gq_now q) s)) = (Inr fl, db)"
      "anti_loop env q fl db = Some r" "out = anti_loop_outcome env r"
      "s' = (maybe_expire_pending (gq_now q) s)\<lparr>gs_db := db\<rparr>"
  | (assessed) tip body fl db where "cfg_enabled cfg" "parse_and_strip_tip_header (jc_of env) (gq_body q) = (tip, body)"
      "reply_stage env q tip body (gs_db (maybe_expire_pending (gq_now q) s)) = (Inr fl, db)"
      "assess_stage env cfg q (tip \<noteq> None) fl ((maybe_expire_pending (gq_now q) s)\<lparr>gs_db := db\<rparr>) = (out, s')"
proof -
  obtain tip body where p: "parse_and_strip_tip_header (jc_of env) (gq_body q) = (tip, body)" by fastforce
  obtain r db where rs: "reply_stage env q tip body (gs_db (maybe_expire_pending (gq_now q) s)) = (r, db)" by fastforce
  show thesis
  proof (cases "cfg_enabled cfg \<and> \<not> (case tip of None \<Rightarrow> False | Some t \<Rightarrow> tip_cancel t)")
    case True
    then have e: "(case r of Inl out \<Rightarrow> (out, (maybe_expire_pending (gq_now q) s)\<lparr>gs_db := db\<rparr>)
         | Inr fl \<Rightarrow> (case anti_loop env q fl db of
              Some h \<Rightarrow> (anti_loop_outcome env h, (maybe_expire_pending (gq_now q) s)\<lparr>gs_db := db\<rparr>)
            | None \<Rightarrow> assess_stage env cfg q (tip \<noteq> None) fl ((maybe_expire_pending (gq_now q) s)\<lparr>gs_db := db\<rparr>))) = (out, s')"
      using assms p rs by (simp add: evaluate_def Let_def)
    show thesis
    proof (cases r)
      case (Inl o1)
      with e reply[OF _ p] rs True show thesis by simp
    next
      case (Inr fl)
      with e repeated[OF _ p] assessed[OF _ p] rs True show thesis by (cases "anti_loop env q fl db") auto
    qed
  next
    case False
    then show thesis
      using assms p off cancel by (auto simp: evaluate_def split: option.splits prod.splits if_splits)
  qed
qed

lemma trace_expire: "store_trace i 0 (gs_db s) (gs_db (maybe_expire_pending now s))"
  using store_trace_ops(2) by (simp add: maybe_expire_pending_def)

lemma trace_evaluate:
  assumes "evaluate env cfg q s = (out, s')"
  shows "store_trace i (replays i out) (gs_db s) (gs_db s')"
  using assms
proof (cases rule: evaluate_cases)
  case off
  then show ?thesis by (simp add: passthrough_def)
next
  case (cancel t body db)
  then show ?thesis using trace_cancel_stage[OF cancel(4), of i] by simp
next
  case (reply tip body db)
  then show ?thesis using store_trace_trans0[OF trace_expire trace_reply_stage[OF reply(3)], of i] by simp
next
  case (repeated tip body fl db r)
  then show ?thesis using store_trace_trans0[OF trace_expire trace_reply_stage[OF repeated(3)], of i] by simp
next
  case (assessed tip body fl db)
  have "store_trace i 0 (gs_db s) db"
    using store_trace_trans0[OF trace_expire trace_reply_stage[OF assessed(3)], of i] by simp
  then show ?thesis using store_trace_trans0 trace_assess_stage[OF assessed(4), of i] by fastforce
qed

section \<open>A held request is sent once\<close>

text \<open>
  Evaluations, interleaved with operations other processes run on the shared store.
\<close>

datatype guard_event = G_eval guard_env spend_guard_config guard_request | G_other db_op

fun guard_act :: "string \<Rightarrow> guard_event \<Rightarrow> guard_state \<Rightarrow> bool \<times> guard_state" where
  "guard_act i (G_eval env cfg q) s =
     (case evaluate env cfg q s of (out, s') \<Rightarrow> (go_kind out = Replay \<and> go_pending_id out = Some i, s'))"
| "guard_act i (G_other op) s = (takes i op (gs_db s), s\<lparr>gs_db := db_step op (gs_db s)\<rparr>)"

lemma guard_act_trace:
  assumes "guard_act i e s = (w, s')"
  shows "store_trace i (if w then 1 else 0) (gs_db s) (gs_db s')"
proof (cases e)
  case (G_eval env cfg q)
  then obtain out where "evaluate env cfg q s = (out, s')" "w = (go_kind out = Replay \<and> go_pending_id out = Some i)"
    using assms by (auto split: prod.splits)
  then show ?thesis using trace_evaluate[of env cfg q s out s' i] by (simp add: replays_def)
next
  case (G_other op)
  then show ?thesis using assms store_trace_step[of "db_step op (gs_db s)" op "gs_db s"] by auto
qed

lemma store_trace_once:
  assumes "store_trace i k db db'" "db_ok db"
  shows "db_ok db' \<and> (0 < k \<longrightarrow> hold_open i db \<and> \<not> hold_open i db') \<and> (\<not> hold_open i db \<longrightarrow> \<not> hold_open i db')"
proof -
  obtain ops where o: "db' = fold db_step ops db" "k \<le> wins (hold_act i) ops db"
    using assms(1) by (auto simp: store_trace_def)
  show ?thesis
    using o hold_once.won_run[OF assms(2), of i ops] hold_once.used_run[OF assms(2), of i ops] db_run_ok[OF assms(2)]
    by (auto simp: fold_hold_act)
qed

interpretation guard_once: one_shot "guard_act i" "\<lambda>s. hold_open i (gs_db s)" "\<lambda>s. db_ok (gs_db s)" for i
proof
  fix s s' e
  assume "db_ok (gs_db s)" "guard_act i e s = (True, s')"
  then show "hold_open i (gs_db s) \<and> \<not> hold_open i (gs_db s')"
    using store_trace_once[OF guard_act_trace] by fastforce
next
  fix s s' e w
  assume "db_ok (gs_db s)" "\<not> hold_open i (gs_db s)" "guard_act i e s = (w, s')"
  then show "\<not> hold_open i (gs_db s')" using store_trace_once[OF guard_act_trace] by blast
next
  fix s s' e w
  assume "db_ok (gs_db s)" "guard_act i e s = (w, s')"
  then show "db_ok (gs_db s')" using store_trace_once[OF guard_act_trace] by blast
qed


definition initial_guard :: guard_state where
  "initial_guard = \<lparr>gs_db = empty_db, gs_caps = rc_initial, gs_last_sweep = 0\<rparr>"


section \<open>A concrete guard\<close>

text \<open>Plain-text bodies, a fixed estimate, no usage on record.\<close>

definition example_env :: guard_env where
  "example_env =
     \<lparr>ge_response = \<lparr>rs_codec = plain_codec, rs_format = \<lparr>nf_str = (\<lambda>_. []), nf_fixed2 = (\<lambda>_. []), nf_general4 = (\<lambda>_. [])\<rparr>\<rparr>,
      ge_sha256 = (\<lambda>x. x), ge_blake2b = (\<lambda>x. x),
      ge_estimate = (\<lambda>body model session. Inr (example_estimate 1000 100 (1 / 2))),
      ge_max_context = (\<lambda>_. Some 200000), ge_stamp = (\<lambda>_. []), ge_isoformat = (\<lambda>_. []),
      ge_monitor_path = ''m.db'', ge_monitor = Rows []\<rparr>"

definition example_request :: "string \<Rightarrow> guard_request" where
  "example_request body =
     \<lparr>gq_body = body, gq_model = ''m'', gq_session = ''s'', gq_headers = [(''X-TokenPak-Agent'', ''a1'')],
      gq_target_url = ''u'', gq_now = 1000, gq_ticket = ''t1'', gq_pending_id = ''tpg_1''\<rparr>"

lemma example_forwarded:
  "case evaluate example_env SpendGuardConfig (example_request ''hi'') initial_guard of (out, s') \<Rightarrow>
     go_kind out = Forward \<and> go_admission_ticket out = Some ''t1'' \<and> map fst (rc_inflight (gs_caps s')) = [''t1'']"
  by code_simp

section \<open>In-flight spend of a request\<close>

lemma pending_totals_subset: "set (rc_inflight (snd (pending_spend_totals agent now s))) \<subseteq> set (rc_inflight s)"
proof -
  have "set (snd (pending_loop k c xs u table)) \<subseteq> set table" for k c xs u table
    by (auto simp: pending_loop_table)
  then show ?thesis by (auto simp: pending_spend_totals_def split: prod.splits) (metis snd_conv subsetD)
qed

lemma check_caps_subset:
  "set (rc_inflight (snd (check_rolling_caps stamp path mdb agent cost inp outp cr cfg now s))) \<subseteq> set (rc_inflight s)"
proof -
  obtain u s1 where c: "compute_rolling_usage stamp path mdb agent (rcc_window_seconds cfg) now s = (u, s1)" by fastforce
  have "rc_inflight s1 = rc_inflight s"
    using compute_inflight[of stamp path mdb agent "rcc_window_seconds cfg" now s] c by simp
  then show ?thesis
    using pending_totals_subset[of agent now s1] by (auto simp: check_rolling_caps_def c split: option.splits prod.splits)
qed

lemma caps_admit_inflight:
  assumes "check_rolling_caps_and_admit stamp path mdb agent cost inp outp cr cfg t now s = ((b, ticket), s')"
  shows "(ticket = None \<and> set (rc_inflight s') \<subseteq> set (rc_inflight s) \<and> b \<noteq> None) \<or>
         (ticket = Some t \<and> b = None \<and> (\<exists>e d. rc_inflight s' = AList.update t e d \<and> set d \<subseteq> set (rc_inflight s)))"
proof -
  obtain b1 s1 where c: "check_rolling_caps stamp path mdb agent cost inp outp cr cfg now s = (b1, s1)" by fastforce
  have sub: "set (rc_inflight s1) \<subseteq> set (rc_inflight s)"
    using check_caps_subset[of stamp path mdb agent cost inp outp cr cfg now s] c by simp
  show ?thesis
  proof (cases b1)
    case None
    then show ?thesis
      using assms c sub by (auto simp: check_rolling_caps_and_admit_def admit_pending_spend_def) blast
  qed (use assms c sub in \<open>auto simp: check_rolling_caps_and_admit_def\<close>)
qed

lemma delete_update_subset: "set (AList.delete k (AList.update k v d)) \<subseteq> set d"
  by (induction d) (auto simp: AList.delete_eq split: if_splits)

text \<open>What the table holds once the cap check has run.\<close>

definition ticket_ok :: "string \<Rightarrow> rc_state \<Rightarrow> string option \<Rightarrow> rc_state \<Rightarrow> bool" where
  "ticket_ok t s ticket s' =
     ((ticket = None \<and> set (rc_inflight s') \<subseteq> set (rc_inflight s)) \<or>
      (ticket = Some t \<and> (\<exists>e d. rc_inflight s' = AList.update t e d \<and> set d \<subseteq> set (rc_inflight s))))"

lemma record_agent_inflight [simp]: "rc_inflight (record_session_agent sess a now s) = rc_inflight s"
  by (simp add: record_session_agent_def)

lemma caps_stage_ticket:
  assumes "caps_stage env cfg q est s = ((b, ticket), s')"
  shows "ticket_ok (gq_ticket q) s ticket s' \<and> (b \<noteq> None \<longrightarrow> ticket = None) \<and>
         (cfg_rolling_caps_enabled cfg \<and> agent_of (gq_headers q) \<noteq> [] \<and> b = None \<longrightarrow> ticket = Some (gq_ticket q))"
proof (cases "cfg_rolling_caps_enabled cfg \<and> agent_of (gq_headers q) \<noteq> []")
  case True
  then show ?thesis
    using assms by (auto simp: caps_stage_def Let_def ticket_ok_def dest!: caps_admit_inflight split: if_splits)
next
  case False
  then show ?thesis using assms by (auto simp: caps_stage_def Let_def ticket_ok_def split: if_splits)
qed

lemma cancel_admission_subset:
  assumes "ticket_ok t s ticket s'" "t \<noteq> []"
  shows "set (rc_inflight (cancel_admission ticket s')) \<subseteq> set (rc_inflight s)"
  using assms delete_update_subset
  by (fastforce simp: ticket_ok_def cancel_admission_def settle_pending_spend_def)

text \<open>The answers that send nothing carry no ticket.\<close>

lemma no_ticket [simp]:
  "go_admission_ticket (held_response env p) = None" "go_admission_ticket (cancelled_outcome env p) = None"
  "go_admission_ticket (anti_loop_outcome env r) = None" "go_admission_ticket (fail_closed_outcome env e) = None"
  "go_admission_ticket (cap_outcome env est b) = None" "go_admission_ticket (refusal k body d a) = None"
  "go_admission_ticket (answer k body st a) = None" "go_admission_ticket (passthrough body) = None"
  "go_admission_ticket (replayed p) = None" "go_admission_ticket (GuardOutcome k) = None"
  by (simp_all add: held_response_def cancelled_outcome_def anti_loop_outcome_def fail_closed_outcome_def
      cap_outcome_def refusal_def answer_def passthrough_def replayed_def GuardOutcome_def)

lemma answer_kinds [simp]:
  "go_kind (held_response env p) = Blocked" "go_kind (cancelled_outcome env p) = Cancelled"
  "go_kind (anti_loop_outcome env r) = Blocked" "go_kind (fail_closed_outcome env e) = Blocked"
  "go_kind (cap_outcome env est b) = Blocked" "go_kind (refusal k body d a) = k"
  by (simp_all add: held_response_def cancelled_outcome_def anti_loop_outcome_def fail_closed_outcome_def
      cap_outcome_def refusal_def)

lemma block_stage_refuses:
  "block_stage env cfg q est fl b d db = (out, db') \<Longrightarrow> go_kind out = Blocked \<and> go_admission_ticket out = None"
  by (auto simp: block_stage_def Let_def split: if_splits option.splits prod.splits sum.splits)

definition spend_ok :: "string \<Rightarrow> rc_state \<Rightarrow> guard_outcome \<Rightarrow> rc_state \<Rightarrow> bool" where
  "spend_ok t s out s' =
     (if go_admission_ticket out = None then set (rc_inflight s') \<subseteq> set (rc_inflight s)
      else go_admission_ticket out = Some t \<and> reaches_provider out \<and> ticket_ok t s (Some t) s')"

lemma forward_stage_spend:
  assumes "forward_stage env q m est fl d ticket s1 = (out, s')" "ticket_ok t s ticket (gs_caps s1)" "t \<noteq> []"
  shows "spend_ok t s out (gs_caps s')"
proof -
  have none: "set (rc_inflight (cancel_admission ticket (gs_caps s1))) \<subseteq> set (rc_inflight s)"
    by (rule cancel_admission_subset[OF assms(2,3)])
  have tk: "ticket = None \<and> set (rc_inflight (gs_caps s1)) \<subseteq> set (rc_inflight s) \<or>
      ticket = Some t \<and> ticket_ok t s (Some t) (gs_caps s1)"
    using assms(2) by (auto simp: ticket_ok_def)
  show ?thesis
    using assms(1) none tk
    by (cases m) (auto simp: forward_stage_def spend_ok_def reaches_provider_def Let_def GuardOutcome_def
        split: prod.splits sum.splits option.splits)
qed

lemma decided_stage_spend:
  assumes "decided_stage env cfg q m est fl b d ticket s1 = (out, s')" "ticket_ok t s ticket (gs_caps s1)" "t \<noteq> []"
  shows "spend_ok t s out (gs_caps s')"
proof (cases "(case fl_tip fl of None \<Rightarrow> False | Some t \<Rightarrow> tip_estimate_only t) \<and> pd_decision d \<noteq> Hard_block")
  case True
  then show ?thesis
    using assms(1) cancel_admission_subset[OF assms(2,3)] by (auto simp: decided_stage_def Let_def spend_ok_def)
next
  case False
  show ?thesis
  proof (cases "pd_decision d \<in> {Allow, Warn}")
    case True
    then show ?thesis
      using assms(1) False forward_stage_spend[OF _ assms(2,3)] unfolding decided_stage_def Let_def by (simp only: if_False if_True)
  next
    case na: False
    then have "go_admission_ticket out = None \<and> gs_caps s' = cancel_admission ticket (gs_caps s1)"
      using assms(1) False block_stage_refuses
      by (auto simp: decided_stage_def Let_def split: if_splits prod.splits)
    then show ?thesis using cancel_admission_subset[OF assms(2,3)] by (simp add: spend_ok_def)
  qed
qed

lemma assess_stage_spend:
  assumes "assess_stage env cfg q m fl s = (out, s')" "gq_ticket q \<noteq> []"
  shows "spend_ok (gq_ticket q) (gs_caps s) out (gs_caps s')"
proof (cases "ge_estimate env (fl_body fl) (gq_model q) (gq_session q)")
  case (Inl e)
  then show ?thesis using assms(1) by (auto simp: assess_stage_def spend_ok_def)
next
  case (Inr est)
  obtain fl1 late db1 where l: "late_stage env q est fl (gs_db s) = ((fl1, late), db1)" by (metis prod.exhaust)
  obtain breach ticket caps where c: "caps_stage env cfg q est (gs_caps s) = ((breach, ticket), caps)" by (metis prod.exhaust)
  obtain d db2 where v: "verdict_stage env cfg q est fl1 late db1 = (d, db2)" by (metis prod.exhaust)
  note tk = caps_stage_ticket[OF c]
  show ?thesis
  proof (cases breach)
    case None
    then have "decided_stage env cfg q m est fl1 late d ticket (s\<lparr>gs_db := db2, gs_caps := caps\<rparr>) = (out, s')"
      using assms Inr l c v by (simp add: assess_stage_def)
    from decided_stage_spend[OF this _ assms(2)] tk show ?thesis by simp
  next
    case (Some b)
    then show ?thesis using assms(1) Inr l c tk by (auto simp: assess_stage_def spend_ok_def ticket_ok_def)
  qed
qed

lemma caps_untouched: "gs_caps (maybe_expire_pending now s) = gs_caps s"
  by (simp add: maybe_expire_pending_def)

lemma resolve_pending_no_ticket:
  "resolve_pending env p i tip db = (out, db') \<Longrightarrow> go_admission_ticket out = None"
  by (auto simp: resolve_pending_def replay_held_def Let_def split: if_splits prod.splits option.splits)

lemma reply_stage_no_ticket:
  assumes "reply_stage env q tip body db = (Inl out, db')"
  shows "go_admission_ticket out = None"
  using assms resolve_pending_no_ticket
  by (auto simp: reply_stage_def resolve_existing_def Let_def split: if_splits prod.splits option.splits)



section \<open>What reaches the provider was assessed\<close>

lemma verdict_stage_decides:
  assumes "verdict_stage env cfg q est fl b db = (d, db')"
  shows "d = verdict est Block ''earlier_hold_expired'' True None \<or>
         (\<exists>tip ca ra. d = decide est cfg tip (session_running env cfg q) (ge_max_context env (gq_model q)) ca ra)"
  using assms unfolding verdict_stage_def first_verdict_def Let_def
  by (auto split: if_splits prod.splits)

lemma verdict_stage_passes:
  assumes "verdict_stage env cfg q est fl b db = (d, db')" "pd_decision d \<in> {Allow, Warn}"
  shows "\<not> hard_bands est cfg (ge_max_context env (gq_model q)) \<and> \<not> session_band est cfg (session_running env cfg q)"
proof -
  obtain tip ca ra where "d = decide est cfg tip (session_running env cfg q) (ge_max_context env (gq_model q)) ca ra"
    using verdict_stage_decides[OF assms(1)] assms(2) by auto
  moreover from this assms(2) have "passes (decide est cfg tip (session_running env cfg q) (ge_max_context env (gq_model q)) ca ra)"
    by (simp add: passes_def)
  ultimately show ?thesis by (simp add: decide_passes_iff)
qed

lemma late_stage_keeps:
  "late_stage env q est fl db = ((fl', b), db') \<Longrightarrow> fl_body fl' = fl_body fl \<and> fl_replay fl' = fl_replay fl"
  by (auto simp: late_stage_def split: option.splits if_splits)

text \<open>A reply that approves a hold puts the held body, not its own, through the later stages.\<close>

definition held_flow :: "guard_db \<Rightarrow> flow \<Rightarrow> bool" where
  "held_flow db fl = (\<forall>p. fl_replay fl = Some p \<longrightarrow> p \<in> set (db_pending db) \<and> fl_body fl = pr_raw_request_blob p)"

lemma reply_stage_flow:
  assumes "reply_stage env q tip body db = (Inr fl, db')"
  shows "held_flow db fl"
proof -
  have hold: "p \<in> set (db_pending db)" if "find_hold env q body db = Some p" for p
    using that latest_hold_scope by (fastforce simp: find_hold_def split: option.splits if_splits)
  have kept: "case fl_replay fl of None \<Rightarrow> True | Some p' \<Rightarrow> p' = p \<and> fl_body fl = pr_raw_request_blob p"
    if "resolve_existing env q p fl0 db0 = (Inr fl, db1)" "fl_replay fl0 = None" for p fl0 db0 db1
    using that by (auto simp: resolve_existing_def Let_def split: if_splits prod.splits)
  show ?thesis
  proof (cases "find_hold env q body db")
    case None
    then show ?thesis using assms by (auto simp: reply_stage_def held_flow_def)
  next
    case (Some p)
    then have "case fl_replay fl of None \<Rightarrow> True | Some p' \<Rightarrow> p' = p \<and> fl_body fl = pr_raw_request_blob p"
      using assms by (intro kept) (auto simp: reply_stage_def)
    with hold[OF Some] show ?thesis by (auto simp: held_flow_def)
  qed
qed

text \<open>A reply is answered on the spot only when nothing is sent: approvals go through the checks.\<close>

lemma reply_stage_answers:
  assumes "reply_stage env q tip body db = (Inl out, db')"
  shows "\<not> reaches_provider out"
proof -
  have "go_kind out \<noteq> Replay \<and> go_kind out \<noteq> Forward \<and> go_kind out \<noteq> Forward_modified"
    if "resolve_pending env p i t db = (out, db1)" "\<not> is_approving i t" for p i t db db1 out
    using that by (auto simp: resolve_pending_def is_approving_def Let_def split: if_splits option.splits)
  then show ?thesis
    using assms by (auto simp: reply_stage_def resolve_existing_def reaches_provider_def Let_def
        split: if_splits prod.splits option.splits)
qed

lemma trace_same_blob:
  assumes "store_trace i k db db'" "db_ok db" "p \<in> set (db_pending db)" "consume (pr_pending_id p) db' = (Some c, db'')"
  shows "pr_raw_request_blob c = pr_raw_request_blob p"
proof -
  obtain ops where ops: "db' = fold db_step ops db" using assms(1) by (auto simp: store_trace_def)
  obtain r where r: "r \<in> set (db_pending db')" "advances p r" using db_run_advances[OF assms(3)] ops by blast
  have "get_by_id (pr_pending_id p) db' = Some r"
    using get_by_id_unique[of db' r "pr_pending_id p"] r db_run_ok[OF assms(2)] ops by (simp add: advances_def)
  moreover have "db_ok db''" "\<exists>r'\<in>set (db_pending db''). advances r r'"
    using db_step_ok[of db' "D_consume (pr_pending_id p)"] db_step_advances[OF r(1), of "D_consume (pr_pending_id p)"]
      db_run_ok[OF assms(2)] ops assms(4) by auto
  then obtain r' where r': "r' \<in> set (db_pending db'')" "advances r r'" by blast
  then have "get_by_id (pr_pending_id p) db'' = Some r'"
    using get_by_id_unique[of db'' r' "pr_pending_id p"] r \<open>db_ok db''\<close> by (simp add: advances_def)
  then have "c = r'" using assms(4) by (auto simp: consume_def split: prod.splits if_splits)
  then show ?thesis using r r' by (simp add: advances_def)
qed

lemma settle_reply_blob:
  assumes "settle_reply env q fl db = (Inr (Some c), db')" "store_trace i k db0 db" "db_ok db0"
    "\<And>p. fl_replay fl = Some p \<Longrightarrow> p \<in> set (db_pending db0)"
  shows "\<exists>p. fl_replay fl = Some p \<and> pr_raw_request_blob c = pr_raw_request_blob p"
proof -
  define step where "step = (case fl_late fl of None \<Rightarrow> (True, db)
      | Some p \<Rightarrow> consume_expired (approval_key env q) (pr_pending_id p) (fl_reply_hash fl) (gq_now q) db)"
  obtain late_ok db1 where st: "step = (late_ok, db1)" by (cases step)
  have t1: "store_trace i 0 db db1"
  proof (cases "fl_late fl")
    case (Some p)
    then show ?thesis
      using st store_trace_ops(10)[of i db "approval_key env q" "pr_pending_id p" "fl_reply_hash fl" "gq_now q"]
      by (simp add: step_def)
  qed (use st in \<open>simp add: step_def\<close>)
  obtain p where p: "fl_replay fl = Some p" "consume (pr_pending_id p) db1 = (Some c, db')"
    using assms(1) unfolding settle_reply_def step_def[symmetric] st by (auto split: if_splits option.splits prod.splits)
  then show ?thesis using trace_same_blob[OF store_trace_then0[OF assms(2) t1] assms(3) assms(4)[OF p(1)] p(2)] by simp
qed

definition checks_passed :: "guard_env \<Rightarrow> spend_guard_config \<Rightarrow> guard_request \<Rightarrow> guard_outcome \<Rightarrow> risk_estimate \<Rightarrow> bool" where
  "checks_passed env cfg q out est =
     (\<not> hard_bands est cfg (ge_max_context env (gq_model q)) \<and> \<not> session_band est cfg (session_running env cfg q) \<and>
      (cfg_rolling_caps_enabled cfg \<and> agent_of (gq_headers q) \<noteq> [] \<longrightarrow> go_admission_ticket out = Some (gq_ticket q)))"

lemma forward_stage_body:
  assumes "forward_stage env q m est fl d ticket s = (out, s')" "reaches_provider out"
    "store_trace i k db0 (gs_db s)" "db_ok db0"
    "held_flow db0 fl"
  shows "go_body out = Some (fl_body fl) \<and> go_admission_ticket out = ticket"
proof -
  obtain r db where sr: "settle_reply env q fl (gs_db s) = (r, db)" by fastforce
  consider (lost) p where "r = Inl p" | (plain) "r = Inr None" | (held) c where "r = Inr (Some c)"
    by (metis option.exhaust sum.exhaust)
  then show ?thesis
  proof cases
    case lost
    then show ?thesis using assms(1,2) sr by (auto simp: forward_stage_def reaches_provider_def)
  next
    case plain
    then show ?thesis using assms(1) sr by (cases m) (auto simp: forward_stage_def Let_def GuardOutcome_def)
  next
    case held
    then obtain p where "fl_replay fl = Some p" "pr_raw_request_blob c = pr_raw_request_blob p"
      using settle_reply_blob[of env q fl "gs_db s" c db i k db0] sr assms(3-5) by (auto simp: held_flow_def)
    then show ?thesis
      using assms(1,5) sr held by (auto simp: forward_stage_def Let_def replayed_def held_flow_def)
  qed
qed

lemma decided_stage_forwards:
  assumes "decided_stage env cfg q m est fl b d ticket s = (out, s')" "reaches_provider out"
  shows "pd_decision d \<in> {Allow, Warn} \<and> forward_stage env q m est fl d ticket s = (out, s')"
  using assms block_stage_refuses[of env cfg q est fl b d "gs_db s"]
  by (auto simp: decided_stage_def Let_def reaches_provider_def split: if_splits prod.splits option.splits)

lemma assess_stage_assessed:
  assumes "assess_stage env cfg q m fl s = (out, s')" "reaches_provider out"
    "store_trace i k db0 (gs_db s)" "db_ok db0"
    "held_flow db0 fl"
  shows "\<exists>est. ge_estimate env (the (go_body out)) (gq_model q) (gq_session q) = Inr est \<and> checks_passed env cfg q out est"
proof (cases "ge_estimate env (fl_body fl) (gq_model q) (gq_session q)")
  case (Inl e)
  then show ?thesis using assms(1,2) by (auto simp: assess_stage_def reaches_provider_def)
next
  case (Inr est)
  obtain fl1 late db1 where l: "late_stage env q est fl (gs_db s) = ((fl1, late), db1)" by (metis prod.exhaust)
  obtain breach ticket caps where c: "caps_stage env cfg q est (gs_caps s) = ((breach, ticket), caps)" by (metis prod.exhaust)
  obtain d db2 where v: "verdict_stage env cfg q est fl1 late db1 = (d, db2)" by (metis prod.exhaust)
  have "breach = None" using assms(1,2) Inr l c by (cases breach) (auto simp: assess_stage_def reaches_provider_def)
  then have "decided_stage env cfg q m est fl1 late d ticket (s\<lparr>gs_db := db2, gs_caps := caps\<rparr>) = (out, s')"
    using assms(1) Inr l c v by (simp add: assess_stage_def)
  note f = decided_stage_forwards[OF this assms(2)]
  have t: "store_trace i k db0 db2"
    by (rule store_trace_then0[OF store_trace_then0[OF assms(3) trace_late_stage[OF l]] trace_verdict_stage[OF v]])
  have "go_body out = Some (fl_body fl1) \<and> go_admission_ticket out = ticket"
    by (rule forward_stage_body[OF f[THEN conjunct2] assms(2) _ assms(4)])
      (use t assms(5) late_stage_keeps[OF l] in \<open>auto simp: held_flow_def\<close>)
  then show ?thesis
    using Inr late_stage_keeps[OF l] verdict_stage_passes[OF v f[THEN conjunct1]] caps_stage_ticket[OF c] \<open>breach = None\<close>
    by (simp add: checks_passed_def)
qed

lemma sent_was_checked:
  assumes "evaluate env cfg q s = (out, s')" "reaches_provider out" "cfg_enabled cfg" "db_ok (gs_db s)"
    "\<And>t. fst (parse_and_strip_tip_header (jc_of env) (gq_body q)) = Some t \<Longrightarrow> \<not> tip_cancel t"
  shows "\<exists>est. ge_estimate env (the (go_body out)) (gq_model q) (gq_session q) = Inr est \<and>
           \<not> hard_bands est cfg (ge_max_context env (gq_model q)) \<and>
           \<not> session_band est cfg (session_running env cfg q) \<and>
           (cfg_rolling_caps_enabled cfg \<and> agent_of (gq_headers q) \<noteq> [] \<longrightarrow> go_admission_ticket out = Some (gq_ticket q))"
  using assms(1)
proof (cases rule: evaluate_cases)
  case (reply tip body db)
  then show ?thesis using reply_stage_answers[OF reply(3)] assms(2) by simp
next
  case (assessed tip body fl db)
  define db0 where "db0 = gs_db (maybe_expire_pending (gq_now q) s)"
  have ok: "db_ok db0" using store_trace_once[OF trace_expire assms(4)] by (simp add: db0_def)
  have "store_trace [] 0 db0 db" using trace_reply_stage[OF assessed(3), of "[]"] by (simp add: db0_def)
  with assess_stage_assessed[OF assessed(4) assms(2) _ ok, of "[]" 0] reply_stage_flow[OF assessed(3), folded db0_def]
  show ?thesis by (simp add: checks_passed_def db0_def)
qed (use assms in \<open>auto simp: reaches_provider_def\<close>)



section \<open>A cancel with nothing to cancel\<close>

text \<open>
  A request that opens with a cancel directive while its session holds nothing is forwarded:
  whatever the estimate, the thresholds, the caps and the approvals say, its body without the
  header is sent, with no decision, no admission ticket and no audit event.
\<close>

lemma cancel_without_hold_is_sent_unchecked:
  assumes "cfg_enabled cfg" "parse_and_strip_tip_header (jc_of env) (gq_body q) = (Some t, body)" "tip_cancel t"
    "\<forall>r \<in> set (db_pending (gs_db s)). pr_session_id r \<noteq> gq_session q"
  shows "fst (evaluate env cfg q s) = (GuardOutcome Forward_modified)\<lparr>go_body := Some body\<rparr>"
proof -
  have "latest_hold sha (gq_session q) m hs (revoke key (gs_db s)) = None" for sha m hs key
  proof (rule ccontr)
    assume "latest_hold sha (gq_session q) m hs (revoke key (gs_db s)) \<noteq> None"
    then obtain r where "latest_hold sha (gq_session q) m hs (revoke key (gs_db s)) = Some r" by blast
    from latest_hold_scope[OF this] assms(4) show False by (auto simp: revoke_def)
  qed
  then show ?thesis
    using assms(1-3) by (simp add: evaluate_def cancel_stage_def Let_def)
qed

theorem cancel_without_hold_is_sent_unchecked_witness:
  "fst (evaluate (example_env\<lparr>ge_estimate := (\<lambda>body model session. Inr (example_estimate 900000 100 50))\<rparr>)
      SpendGuardConfig (example_request ''[TIP: cancel] hi'') initial_guard) =
   (GuardOutcome Forward_modified)\<lparr>go_body := Some ''hi''\<rparr>"
proof -
  define t where "t = TIPDirective\<lparr>tip_cancel := True, tip_raw := ''[TIP: cancel]''\<rparr>"
  have "parse_and_strip_tip_header plain_codec ''[TIP: cancel] hi'' = (Some t, ''hi'')"
    unfolding t_def by code_simp
  then show ?thesis
    by (intro cancel_without_hold_is_sent_unchecked[where t = t]) (simp_all add: t_def example_env_def example_request_def
          initial_guard_def empty_db_def SpendGuardConfig_def TIPDirective_def)
qed

section \<open>The entry point fails closed\<close>

lemma attempts_loop_answer:
  "attempts_loop env attempt k n =
     (case find (\<lambda>j. attempt j \<noteq> Inl Lock_contention) [k..<k + n] of
        None \<Rightarrow> state_busy_outcome env (length LOCK_RETRY_BACKOFF_SEC)
      | Some j \<Rightarrow> (case attempt j of Inr out \<Rightarrow> out | Inl (Other_error e) \<Rightarrow> fail_closed_outcome env e
                  | Inl Lock_contention \<Rightarrow> state_busy_outcome env (length LOCK_RETRY_BACKOFF_SEC)))"
proof (induction env attempt k n rule: attempts_loop.induct)
  case (2 env attempt k n)
  then show ?case
    by (cases "attempt k") (auto simp: upt_conv_Cons simp del: upt_Suc split: guard_exn.splits)
qed simp

lemma attempts_loop_sends:
  "reaches_provider (attempts_loop env attempt k n) \<Longrightarrow> \<exists>j < k + n. attempt j = Inr (attempts_loop env attempt k n)"
proof (induction env attempt k n rule: attempts_loop.induct)
  case (1 env attempt k)
  then show ?case by (simp add: state_busy_outcome_def reaches_provider_def)
next
  case (2 env attempt k n)
  show ?case
  proof (cases "attempt k")
    case (Inl e)
    then show ?thesis using 2 by (cases e) (auto simp: reaches_provider_def)
  next
    case (Inr out)
    then show ?thesis by (intro exI[of _ k]) simp
  qed
qed

text \<open>
  C4.  The entry point always answers and fails closed.  It asks at most three times, once and
  after each back-off; the first attempt that is not a lock conflict settles the answer, any
  other error refuses the request, and three lock conflicts refuse it too.  A request is sent
  only if one of the attempts said so, or the caller passed a configuration that turns the guard off.
\<close>

theorem entry_point_fails_closed:
  assumes "config = None \<or> cfg_enabled (the config)"
  shows "evaluate_guarded env config body attempt =
           (case find (\<lambda>j. attempt j \<noteq> Inl Lock_contention) [0, 1, 2] of
              Some j \<Rightarrow> (case attempt j of Inr out \<Rightarrow> out | Inl (Other_error e) \<Rightarrow> fail_closed_outcome env e
                           | Inl Lock_contention \<Rightarrow> state_busy_outcome env 2)
            | None \<Rightarrow> state_busy_outcome env 2) \<and>
         (reaches_provider (evaluate_guarded env config body attempt) \<longrightarrow>
            (\<exists>j < 3. attempt j = Inr (evaluate_guarded env config body attempt)))"
proof -
  have three: "[0..<0 + 3] = [0, 1, 2::nat]" by (simp add: upt_rec)
  have e: "evaluate_guarded env config body attempt = attempts_loop env attempt 0 3"
    using assms by (auto simp: evaluate_guarded_def LOCK_RETRY_BACKOFF_SEC_def eval_nat_numeral split: option.splits)
  have "\<exists>j < 3. attempt j = Inr (attempts_loop env attempt 0 3)" if "reaches_provider (attempts_loop env attempt 0 3)"
    using attempts_loop_sends[OF that] by simp
  moreover have two: "length LOCK_RETRY_BACKOFF_SEC = 2" by (simp add: LOCK_RETRY_BACKOFF_SEC_def)
  ultimately show ?thesis
    unfolding e using attempts_loop_answer[of env attempt 0 3, unfolded three two] by blast
qed

theorem entry_point_fails_closed_witness:
  "evaluate_guarded example_env None ''hi'' (\<lambda>k. if k < 2 then Inl Lock_contention else Inr (passthrough ''hi'')) = passthrough ''hi'' \<and>
   evaluate_guarded example_env None ''hi'' (\<lambda>k. Inl Lock_contention) = state_busy_outcome example_env 2"
  using entry_point_fails_closed[of None example_env "''hi''" "\<lambda>k. if k < 2 then Inl Lock_contention else Inr (passthrough ''hi'')"]
    entry_point_fails_closed[of None example_env "''hi''" "\<lambda>k. Inl Lock_contention"]
  by simp

end
