(* ===== verification/Workflow.thy ===== *)
theory Workflow
  imports Directives
begin

text \<open>
  The workflow state machine (\<^verbatim>\<open>orchestration/workflow.py\<close>): steps with dependencies, a manager that
  keeps each workflow as a JSON document in a directory and rewrites it after every mutation, and
  the \<open>run\<close> loop.  A directory is an association list from file stems to decoded documents; a file
  is replaced atomically.  Handlers are a parameter and do not touch the directory.  A field of a
  document with the wrong JSON type, which the code would keep as it is, makes the document
  unreadable here.
\<close>

section \<open>Data\<close>

datatype step_status = S_PENDING | S_RUNNING | S_COMPLETED | S_FAILED | S_SKIPPED

datatype workflow_status = W_PENDING | W_RUNNING | W_COMPLETED | W_FAILED | W_CANCELLED | W_PAUSED

fun step_status_value :: "step_status \<Rightarrow> string" where
  "step_status_value S_PENDING = ''pending''"
| "step_status_value S_RUNNING = ''running''"
| "step_status_value S_COMPLETED = ''completed''"
| "step_status_value S_FAILED = ''failed''"
| "step_status_value S_SKIPPED = ''skipped''"

definition step_status_of :: "string \<Rightarrow> step_status option" where
  "step_status_of s = find (\<lambda>x. step_status_value x = s) [S_PENDING, S_RUNNING, S_COMPLETED, S_FAILED, S_SKIPPED]"

fun workflow_status_value :: "workflow_status \<Rightarrow> string" where
  "workflow_status_value W_PENDING = ''pending''"
| "workflow_status_value W_RUNNING = ''running''"
| "workflow_status_value W_COMPLETED = ''completed''"
| "workflow_status_value W_FAILED = ''failed''"
| "workflow_status_value W_CANCELLED = ''cancelled''"
| "workflow_status_value W_PAUSED = ''paused''"

definition workflow_status_of :: "string \<Rightarrow> workflow_status option" where
  "workflow_status_of s = find (\<lambda>x. workflow_status_value x = s)
     [W_PENDING, W_RUNNING, W_COMPLETED, W_FAILED, W_CANCELLED, W_PAUSED]"

record workflow_step =
  st_name :: string
  st_description :: string
  st_depends_on :: "string list"
  st_status :: step_status
  st_started_at :: "secs option"
  st_completed_at :: "secs option"
  st_error :: "string option"
  st_output :: json
  st_metadata :: "(string, json) dict"

definition WorkflowStep :: "string \<Rightarrow> string \<Rightarrow> string list \<Rightarrow> workflow_step" where
  "WorkflowStep name description depends_on =
     \<lparr>st_name = name, st_description = description, st_depends_on = depends_on, st_status = S_PENDING,
      st_started_at = None, st_completed_at = None, st_error = None, st_output = J_null, st_metadata = []\<rparr>"

definition is_done :: "workflow_step \<Rightarrow> bool" where
  "is_done s = (st_status s \<in> {S_COMPLETED, S_SKIPPED})"

definition is_terminal :: "workflow_step \<Rightarrow> bool" where
  "is_terminal s = (st_status s \<in> {S_COMPLETED, S_FAILED, S_SKIPPED})"

record workflow_record =
  wf_id :: string
  wf_name :: string
  wf_template :: "string option"
  wf_steps :: "workflow_step list"
  wf_status :: workflow_status
  wf_created_at :: secs
  wf_started_at :: "secs option"
  wf_completed_at :: "secs option"
  wf_metadata :: "(string, json) dict"
  wf_tags :: "string list"

section \<open>Documents\<close>

definition j_secs :: "secs option \<Rightarrow> json" where
  "j_secs t = (case t of None \<Rightarrow> J_null | Some x \<Rightarrow> J_float x)"

definition j_strs :: "string list \<Rightarrow> json" where
  "j_strs xs = J_list (map J_str xs)"

definition j_str_opt :: "string option \<Rightarrow> json" where
  "j_str_opt s = (case s of None \<Rightarrow> J_null | Some x \<Rightarrow> J_str x)"

definition step_to_dict :: "workflow_step \<Rightarrow> json" where
  "step_to_dict s = J_obj
     [(''name'', J_str (st_name s)), (''description'', J_str (st_description s)),
      (''depends_on'', j_strs (st_depends_on s)), (''status'', J_str (step_status_value (st_status s))),
      (''started_at'', j_secs (st_started_at s)), (''completed_at'', j_secs (st_completed_at s)),
      (''error'', j_str_opt (st_error s)), (''output'', st_output s), (''metadata'', J_obj (st_metadata s))]"

definition workflow_to_dict :: "workflow_record \<Rightarrow> json" where
  "workflow_to_dict w = J_obj
     [(''id'', J_str (wf_id w)), (''name'', J_str (wf_name w)), (''template'', j_str_opt (wf_template w)),
      (''steps'', J_list (map step_to_dict (wf_steps w))), (''status'', J_str (workflow_status_value (wf_status w))),
      (''created_at'', J_float (wf_created_at w)), (''started_at'', j_secs (wf_started_at w)),
      (''completed_at'', j_secs (wf_completed_at w)), (''metadata'', J_obj (wf_metadata w)), (''tags'', j_strs (wf_tags w))]"

text \<open>A field with its default; \<open>None\<close> when its JSON type is not the expected one.\<close>

definition field_or :: "(string, json) dict \<Rightarrow> string \<Rightarrow> json \<Rightarrow> json" where
  "field_or d k dflt = (case map_of d k of None \<Rightarrow> dflt | Some v \<Rightarrow> v)"

fun as_str :: "json \<Rightarrow> string option" where
  "as_str (J_str s) = Some s"
| "as_str _ = None"

fun as_str_opt :: "json \<Rightarrow> string option option" where
  "as_str_opt J_null = Some None"
| "as_str_opt (J_str s) = Some (Some s)"
| "as_str_opt _ = None"

fun as_secs :: "json \<Rightarrow> secs option" where
  "as_secs (J_float x) = Some x"
| "as_secs (J_int n) = Some (of_int n)"
| "as_secs _ = None"

fun as_secs_opt :: "json \<Rightarrow> secs option option" where
  "as_secs_opt J_null = Some None"
| "as_secs_opt j = map_option Some (as_secs j)"

fun as_obj :: "json \<Rightarrow> (string, json) dict option" where
  "as_obj (J_obj d) = Some d"
| "as_obj _ = None"

fun as_list :: "json \<Rightarrow> json list option" where
  "as_list (J_list xs) = Some xs"
| "as_list _ = None"

fun all_some :: "'a option list \<Rightarrow> 'a list option" where
  "all_some [] = Some []"
| "all_some (x # xs) = (case x of None \<Rightarrow> None | Some y \<Rightarrow> map_option ((#) y) (all_some xs))"

definition as_strs :: "json \<Rightarrow> string list option" where
  "as_strs j = Option.bind (as_list j) (\<lambda>xs. all_some (map as_str xs))"

definition step_from_dict :: "json \<Rightarrow> workflow_step option" where
  "step_from_dict j = Option.bind (as_obj j) (\<lambda>d.
     Option.bind (Option.bind (map_of d ''name'') as_str) (\<lambda>name.
     Option.bind (as_str (field_or d ''description'' (J_str []))) (\<lambda>description.
     Option.bind (as_strs (field_or d ''depends_on'' (J_list []))) (\<lambda>depends_on.
     Option.bind (Option.bind (as_str (field_or d ''status'' (J_str ''pending''))) step_status_of) (\<lambda>status.
     Option.bind (as_secs_opt (field_or d ''started_at'' J_null)) (\<lambda>started_at.
     Option.bind (as_secs_opt (field_or d ''completed_at'' J_null)) (\<lambda>completed_at.
     Option.bind (as_str_opt (field_or d ''error'' J_null)) (\<lambda>error.
     Option.bind (as_obj (field_or d ''metadata'' (J_obj []))) (\<lambda>metadata.
       Some \<lparr>st_name = name, st_description = description, st_depends_on = depends_on, st_status = status,
             st_started_at = started_at, st_completed_at = completed_at, st_error = error,
             st_output = field_or d ''output'' J_null, st_metadata = metadata\<rparr>)))))))))"

definition workflow_from_dict :: "secs \<Rightarrow> json \<Rightarrow> workflow_record option" where
  "workflow_from_dict now j = Option.bind (as_obj j) (\<lambda>d.
     Option.bind (Option.bind (map_of d ''id'') as_str) (\<lambda>id.
     Option.bind (Option.bind (map_of d ''name'') as_str) (\<lambda>name.
     Option.bind (as_str_opt (field_or d ''template'' J_null)) (\<lambda>template.
     Option.bind (Option.bind (as_list (field_or d ''steps'' (J_list []))) (\<lambda>xs. all_some (map step_from_dict xs))) (\<lambda>steps.
     Option.bind (Option.bind (as_str (field_or d ''status'' (J_str ''pending''))) workflow_status_of) (\<lambda>status.
     Option.bind (as_secs (field_or d ''created_at'' (J_float now))) (\<lambda>created_at.
     Option.bind (as_secs_opt (field_or d ''started_at'' J_null)) (\<lambda>started_at.
     Option.bind (as_secs_opt (field_or d ''completed_at'' J_null)) (\<lambda>completed_at.
     Option.bind (as_obj (field_or d ''metadata'' (J_obj []))) (\<lambda>metadata.
     Option.bind (as_strs (field_or d ''tags'' (J_list []))) (\<lambda>tags.
       Some \<lparr>wf_id = id, wf_name = name, wf_template = template, wf_steps = steps, wf_status = status,
             wf_created_at = created_at, wf_started_at = started_at, wf_completed_at = completed_at,
             wf_metadata = metadata, wf_tags = tags\<rparr>)))))))))))"

lemma step_status_roundtrip [simp]: "step_status_of (step_status_value s) = Some s"
  by (cases s) (simp_all add: step_status_of_def)

lemma workflow_status_roundtrip [simp]: "workflow_status_of (workflow_status_value s) = Some s"
  by (cases s) (simp_all add: workflow_status_of_def)

lemma decode_simps [simp]:
  "as_secs_opt (j_secs t) = Some t" "as_str_opt (j_str_opt s) = Some s"
  "all_some (map (as_str \<circ> J_str) xs) = Some xs" "as_strs (j_strs xs) = Some xs"
proof -
  show "as_secs_opt (j_secs t) = Some t" by (cases t) (simp_all add: j_secs_def)
  show "as_str_opt (j_str_opt s) = Some s" by (cases s) (simp_all add: j_str_opt_def)
  show all: "all_some (map (as_str \<circ> J_str) xs) = Some xs" by (induction xs) simp_all
  then show "as_strs (j_strs xs) = Some xs" by (simp add: as_strs_def j_strs_def)
qed

lemma step_roundtrip [simp]: "step_from_dict (step_to_dict s) = Some s"
  by (cases s) (simp add: step_from_dict_def step_to_dict_def field_or_def)

lemma workflow_roundtrip [simp]: "workflow_from_dict now (workflow_to_dict w) = Some w"
proof -
  have "all_some (map (step_from_dict \<circ> step_to_dict) ss) = Some ss" for ss by (induction ss) simp_all
  then show ?thesis by (cases w) (simp add: workflow_from_dict_def workflow_to_dict_def field_or_def)
qed

section \<open>Reading a workflow\<close>

definition done_names :: "workflow_record \<Rightarrow> string set" where
  "done_names w = st_name ` set (filter is_done (wf_steps w))"

definition current_step :: "workflow_record \<Rightarrow> workflow_step option" where
  "current_step w = find (\<lambda>s. st_status s = S_RUNNING) (wf_steps w)"

definition next_pending_step :: "workflow_record \<Rightarrow> workflow_step option" where
  "next_pending_step w =
     find (\<lambda>s. st_status s = S_PENDING \<and> list_all (\<lambda>d. d \<in> done_names w) (st_depends_on s)) (wf_steps w)"

definition completion_pct :: "workflow_record \<Rightarrow> rat" where
  "completion_pct w =
     (if wf_steps w = [] then 0
      else py_round 1 (of_nat (length (filter is_done (wf_steps w))) / of_nat (length (wf_steps w)) * 100))"

section \<open>Templates\<close>

definition WORKFLOW_TEMPLATES :: "(string \<times> (string \<times> string \<times> string list) list) list" where
  "WORKFLOW_TEMPLATES =
    [(''deploy'',
       [(''lint'', ''Run linter checks'', []),
        (''test'', ''Run test suite'', [''lint'']),
        (''build'', ''Build artefacts'', [''test'']),
        (''staging-deploy'', ''Deploy to staging'', [''build'']),
        (''smoke-test'', ''Run smoke tests on staging'', [''staging-deploy'']),
        (''prod-deploy'', ''Deploy to production'', [''smoke-test''])]),
     (''refactor'',
       [(''baseline-tests'', ''Capture baseline test results'', []),
        (''static-analysis'', ''Run static analysis'', [''baseline-tests'']),
        (''refactor-code'', ''Apply refactoring changes'', [''static-analysis'']),
        (''regression-tests'', ''Run full regression suite'', [''refactor-code'']),
        (''review'', ''Human review before merge'', [''regression-tests''])]),
     (''data-pipeline'',
       [(''ingest'', ''Pull raw data from source'', []),
        (''validate'', ''Validate schema + integrity'', [''ingest'']),
        (''transform'', ''Apply transformations'', [''validate'']),
        (''load'', ''Load into target store'', [''transform'']),
        (''verify'', ''Verify loaded data'', [''load''])]),
     (''release'',
       [(''changelog'', ''Update CHANGELOG.md'', []),
        (''version-bump'', ''Bump version numbers'', [''changelog'']),
        (''build'', ''Build release artefacts'', [''version-bump'']),
        (''publish'', ''Publish to registry'', [''build'']),
        (''tag'', ''Create git tag'', [''publish'']),
        (''announce'', ''Post release announcement'', [''tag''])]),
     (''proxy'',
       [(''vault_inject'', ''Search vault index and inject relevant context'', []),
        (''compress'', ''Apply style-contract-aware compaction to request body'', [''vault_inject'']),
        (''forward'', ''Forward request to upstream API'', [''compress'']),
        (''log_metrics'', ''Log cost/token metrics to SQLite monitor'', [''forward''])])]"

definition template_steps :: "string \<Rightarrow> py_error + workflow_step list" where
  "template_steps name =
     (case map_of WORKFLOW_TEMPLATES name of
        None \<Rightarrow> Inl (ValueError (''Unknown template '' @ name))
      | Some ts \<Rightarrow> Inr (map (\<lambda>(n, desc, deps). WorkflowStep n desc deps) ts))"

section \<open>The manager\<close>

type_synonym workflow_dir = "(string, json) dict"

definition wf_save :: "workflow_record \<Rightarrow> workflow_dir \<Rightarrow> workflow_dir" where
  "wf_save w dir = AList.update (wf_id w) (workflow_to_dict w) dir"

definition wf_load :: "secs \<Rightarrow> string \<Rightarrow> workflow_dir \<Rightarrow> workflow_record option" where
  "wf_load now i dir = Option.bind (map_of dir i) (workflow_from_dict now)"

definition wf_require :: "secs \<Rightarrow> string \<Rightarrow> workflow_dir \<Rightarrow> py_error + workflow_record" where
  "wf_require now i dir = (case wf_load now i dir of None \<Rightarrow> Inl (KeyError i) | Some w \<Rightarrow> Inr w)"

definition get_step :: "workflow_record \<Rightarrow> string \<Rightarrow> py_error + workflow_step" where
  "get_step w name =
     (case find (\<lambda>s. st_name s = name) (wf_steps w) of None \<Rightarrow> Inl (KeyError name) | Some s \<Rightarrow> Inr s)"

text \<open>Assigning to the step object that \<open>get_step\<close> returned: the first of that name.\<close>

fun map_first :: "('a \<Rightarrow> bool) \<Rightarrow> ('a \<Rightarrow> 'a) \<Rightarrow> 'a list \<Rightarrow> 'a list" where
  "map_first P f [] = []"
| "map_first P f (x # xs) = (if P x then f x # xs else x # map_first P f xs)"

definition with_step :: "string \<Rightarrow> (workflow_step \<Rightarrow> workflow_step) \<Rightarrow> workflow_record \<Rightarrow> workflow_record" where
  "with_step name f w = w\<lparr>wf_steps := map_first (\<lambda>s. st_name s = name) f (wf_steps w)\<rparr>"

definition maybe_close :: "secs \<Rightarrow> workflow_record \<Rightarrow> workflow_record" where
  "maybe_close now w =
     (if list_all is_terminal (wf_steps w) then w\<lparr>wf_status := W_COMPLETED, wf_completed_at := Some now\<rparr> else w)"

text \<open>Load, compute the new record or raise, save.\<close>

definition wf_mutate ::
  "secs \<Rightarrow> string \<Rightarrow> (workflow_record \<Rightarrow> py_error + workflow_record) \<Rightarrow> workflow_dir \<Rightarrow>
   (py_error + workflow_record) \<times> workflow_dir" where
  "wf_mutate now i f dir =
     (case ebind (wf_require now i dir) f of Inl e \<Rightarrow> (Inl e, dir) | Inr w \<Rightarrow> (Inr w, wf_save w dir))"

definition wf_create ::
  "string \<Rightarrow> string \<Rightarrow> workflow_step list \<Rightarrow> string option \<Rightarrow> (string, json) dict \<Rightarrow> string list \<Rightarrow> secs \<Rightarrow> workflow_dir \<Rightarrow>
   (py_error + workflow_record) \<times> workflow_dir" where
  "wf_create i name steps template metadata tags now dir =
     (case (if template \<noteq> None \<and> the template \<noteq> [] \<and> steps = [] then template_steps (the template) else Inr steps) of
        Inl e \<Rightarrow> (Inl e, dir)
      | Inr ss \<Rightarrow>
          if ss = [] then (Inl (ValueError ''Must provide steps or a template.''), dir)
          else let w = \<lparr>wf_id = i, wf_name = name, wf_template = template, wf_steps = ss, wf_status = W_PENDING,
                        wf_created_at = now, wf_started_at = None, wf_completed_at = None,
                        wf_metadata = metadata, wf_tags = tags\<rparr>
               in (Inr w, wf_save w dir))"

definition started :: "secs \<Rightarrow> workflow_record \<Rightarrow> workflow_record" where
  "started now w =
     w\<lparr>wf_status := W_RUNNING, wf_started_at := (case wf_started_at w of None \<Rightarrow> Some now | Some t \<Rightarrow> Some t)\<rparr>"

definition wf_start :: "secs \<Rightarrow> string \<Rightarrow> workflow_dir \<Rightarrow> (py_error + workflow_record) \<times> workflow_dir" where
  "wf_start now i = wf_mutate now i (\<lambda>w.
     if wf_status w \<in> {W_PENDING, W_PAUSED} then Inr (started now w)
     else Inl (ValueError (''Cannot start workflow in status '' @ workflow_status_value (wf_status w))))"

definition begin_step :: "secs \<Rightarrow> string \<Rightarrow> string \<Rightarrow> workflow_dir \<Rightarrow> (py_error + workflow_record) \<times> workflow_dir" where
  "begin_step now i name = wf_mutate now i (\<lambda>w.
     ebind (get_step w name) (\<lambda>s.
       if st_status s \<noteq> S_PENDING then Inl (ValueError (''Step '' @ name @ '' is already '' @ step_status_value (st_status s)))
       else Inr (with_step name (\<lambda>s. s\<lparr>st_status := S_RUNNING, st_started_at := Some now\<rparr>) w)))"

definition complete_step :: "secs \<Rightarrow> string \<Rightarrow> string \<Rightarrow> json \<Rightarrow> workflow_dir \<Rightarrow> (py_error + workflow_record) \<times> workflow_dir" where
  "complete_step now i name output = wf_mutate now i (\<lambda>w.
     ebind (get_step w name) (\<lambda>_.
       Inr (maybe_close now (with_step name
         (\<lambda>s. s\<lparr>st_status := S_COMPLETED, st_completed_at := Some now, st_output := output, st_error := None\<rparr>) w))))"

text \<open>One pass over the steps in their order; a skipped step fails its own dependents.\<close>

fun skip_dependents :: "string list \<Rightarrow> workflow_step list \<Rightarrow> workflow_step list" where
  "skip_dependents failed [] = []"
| "skip_dependents failed (s # ss) =
     (if st_status s = S_PENDING \<and> list_ex (\<lambda>d. d \<in> set failed) (st_depends_on s)
      then s\<lparr>st_status := S_SKIPPED\<rparr> # skip_dependents (st_name s # failed) ss
      else s # skip_dependents failed ss)"

definition fail_step ::
  "secs \<Rightarrow> string \<Rightarrow> string \<Rightarrow> string \<Rightarrow> bool \<Rightarrow> workflow_dir \<Rightarrow> (py_error + workflow_record) \<times> workflow_dir" where
  "fail_step now i name err skip = wf_mutate now i (\<lambda>w.
     ebind (get_step w name) (\<lambda>_.
       let w1 = with_step name (\<lambda>s. s\<lparr>st_status := S_FAILED, st_completed_at := Some now, st_error := Some err\<rparr>) w;
           w2 = (if skip then w1\<lparr>wf_steps := skip_dependents [name] (wf_steps w1)\<rparr> else w1)
       in Inr (w2\<lparr>wf_status := W_FAILED, wf_completed_at := Some now\<rparr>)))"

definition skip_step :: "secs \<Rightarrow> string \<Rightarrow> string \<Rightarrow> string \<Rightarrow> workflow_dir \<Rightarrow> (py_error + workflow_record) \<times> workflow_dir" where
  "skip_step now i name reason = wf_mutate now i (\<lambda>w.
     ebind (get_step w name) (\<lambda>_.
       Inr (maybe_close now (with_step name
         (\<lambda>s. s\<lparr>st_status := S_SKIPPED, st_completed_at := Some now,
                 st_metadata := AList.update ''skip_reason'' (J_str reason) (st_metadata s)\<rparr>) w))))"

definition wf_cancel :: "secs \<Rightarrow> string \<Rightarrow> workflow_dir \<Rightarrow> (py_error + workflow_record) \<times> workflow_dir" where
  "wf_cancel now i = wf_mutate now i (\<lambda>w.
     Inr (w\<lparr>wf_steps := map (\<lambda>s. if st_status s \<in> {S_PENDING, S_RUNNING} then s\<lparr>st_status := S_SKIPPED\<rparr> else s) (wf_steps w),
            wf_status := W_CANCELLED, wf_completed_at := Some now\<rparr>))"

definition unrun :: "workflow_step \<Rightarrow> workflow_step" where
  "unrun s = (if st_status s = S_RUNNING then s\<lparr>st_status := S_PENDING, st_started_at := None\<rparr> else s)"

definition wf_pause :: "secs \<Rightarrow> string \<Rightarrow> workflow_dir \<Rightarrow> (py_error + workflow_record) \<times> workflow_dir" where
  "wf_pause now i = wf_mutate now i (\<lambda>w. Inr (w\<lparr>wf_steps := map unrun (wf_steps w), wf_status := W_PAUSED\<rparr>))"

definition wf_resume :: "secs \<Rightarrow> string \<Rightarrow> workflow_dir \<Rightarrow> (py_error + workflow_record) \<times> workflow_dir" where
  "wf_resume now i = wf_mutate now i (\<lambda>w.
     if wf_status w = W_COMPLETED then Inl (ValueError ''Workflow already completed.'')
     else if wf_status w = W_CANCELLED then Inl (ValueError ''Cannot resume a cancelled workflow.'')
     else Inr (started now (w\<lparr>wf_steps := map unrun (wf_steps w)\<rparr>)))"

definition wf_delete :: "string \<Rightarrow> workflow_dir \<Rightarrow> bool \<times> workflow_dir" where
  "wf_delete i dir = (map_of dir i \<noteq> None, AList.delete i dir)"

section \<open>The run loop\<close>

text \<open>A handler raises (with the message) or returns the step's output; a missing one returns nothing.\<close>

type_synonym handlers = "string \<Rightarrow> (workflow_step \<Rightarrow> workflow_record \<Rightarrow> string + json) option"

definition handle :: "handlers \<Rightarrow> workflow_step \<Rightarrow> workflow_record \<Rightarrow> string + json" where
  "handle hs s w = (case hs (st_name s) of None \<Rightarrow> Inr J_null | Some h \<Rightarrow> h s w)"

text \<open>
  One turn for the step \<open>nxt\<close>: begin, handle, complete or fail.  \<open>Inl\<close> when a call of the manager
  raises; otherwise whether the loop goes on.
\<close>

definition run_turn :: "secs \<Rightarrow> string \<Rightarrow> handlers \<Rightarrow> workflow_step \<Rightarrow> workflow_dir \<Rightarrow> (py_error + bool) \<times> workflow_dir" where
  "run_turn now i hs nxt dir =
     (case begin_step now i (st_name nxt) dir of
        (Inl e, d1) \<Rightarrow> (Inl e, d1)
      | (Inr w, d1) \<Rightarrow>
          (case get_step w (st_name nxt) of
             Inl e \<Rightarrow> (Inl e, d1)
           | Inr s \<Rightarrow>
               (case handle hs s w of
                  Inr output \<Rightarrow> (case complete_step now i (st_name nxt) output d1 of
                                  (Inl e, d2) \<Rightarrow> (Inl e, d2) | (Inr _, d2) \<Rightarrow> (Inr True, d2))
                | Inl err \<Rightarrow> (case fail_step now i (st_name nxt) err True d1 of
                                (Inl e, d2) \<Rightarrow> (Inl e, d2) | (Inr _, d2) \<Rightarrow> (Inr False, d2)))))"

partial_function (option) run_loop ::
  "secs \<Rightarrow> string \<Rightarrow> handlers \<Rightarrow> workflow_dir \<Rightarrow> ((py_error + workflow_record option) \<times> workflow_dir) option" where
  "run_loop now i hs dir =
     (case wf_load now i dir of
        None \<Rightarrow> Some (Inl (AttributeError ''next_pending_step''), dir)
      | Some w \<Rightarrow>
          (case next_pending_step w of
             None \<Rightarrow> Some (Inr (Some w), dir)
           | Some nxt \<Rightarrow>
               (case run_turn now i hs nxt dir of
                  (Inl e, d) \<Rightarrow> Some (Inl e, d)
                | (Inr again, d) \<Rightarrow> if again then run_loop now i hs d else Some (Inr (wf_load now i d), d))))"

definition wf_run ::
  "secs \<Rightarrow> string \<Rightarrow> handlers \<Rightarrow> workflow_dir \<Rightarrow> ((py_error + workflow_record option) \<times> workflow_dir) option" where
  "wf_run now i hs dir =
     (case wf_load now i dir of
        None \<Rightarrow> Some (Inl (AttributeError ''status''), dir)
      | Some w \<Rightarrow>
          (case (if wf_status w \<noteq> W_PENDING then wf_resume now i dir else wf_start now i dir) of
             (Inl e, d) \<Rightarrow> Some (Inl e, d)
           | (Inr _, d) \<Rightarrow> run_loop now i hs d))"

section \<open>Operations on a stored workflow\<close>

text \<open>The file \<open>i\<close> holds the workflow \<open>w\<close> under its own identifier.\<close>

definition stored :: "secs \<Rightarrow> string \<Rightarrow> workflow_dir \<Rightarrow> workflow_record \<Rightarrow> bool" where
  "stored now i dir w = (wf_load now i dir = Some w \<and> wf_id w = i)"

lemma stored_save: "wf_id w = i \<Longrightarrow> stored now i (wf_save w dir) w"
  by (auto simp: stored_def wf_load_def wf_save_def)

lemma wf_mutate_stored:
  assumes "stored now i dir w"
  shows "wf_mutate now i f dir = (case f w of Inl e \<Rightarrow> (Inl e, dir) | Inr w' \<Rightarrow> (Inr w', wf_save w' dir))"
  using assms by (simp add: wf_mutate_def wf_require_def stored_def)

lemma wf_mutate_saved:
  assumes "stored now i dir w" "wf_mutate now i f dir = (Inr w1, d1)" "f w = Inr w1 \<Longrightarrow> wf_id w1 = wf_id w"
  shows "f w = Inr w1 \<and> stored now i d1 w1"
proof (cases "f w")
  case (Inr w2)
  then have e: "w1 = w2" "d1 = wf_save w2 dir" using assms(2) by (auto simp: wf_mutate_stored[OF assms(1)])
  then show ?thesis using Inr assms(1,3) stored_save[of w2 i now dir] by (simp add: stored_def)
qed (use assms(2) in \<open>simp add: wf_mutate_stored[OF assms(1)]\<close>)

lemma with_step_sel [simp]:
  "wf_id (with_step n f w) = wf_id w" "wf_status (with_step n f w) = wf_status w"
  "wf_steps (with_step n f w) = map_first (\<lambda>s. st_name s = n) f (wf_steps w)"
  by (simp_all add: with_step_def)

lemma maybe_close_sel [simp]:
  "wf_id (maybe_close now w) = wf_id w" "wf_steps (maybe_close now w) = wf_steps w"
  by (simp_all add: maybe_close_def)

lemma started_sel [simp]:
  "wf_id (started now w) = wf_id w" "wf_steps (started now w) = wf_steps w" "wf_status (started now w) = W_RUNNING"
  by (simp_all add: started_def)

lemma unrun_sel [simp]: "st_name (unrun s) = st_name s" "st_depends_on (unrun s) = st_depends_on s"
  by (simp_all add: unrun_def)

text \<open>\<open>get_step\<close> and the assignment agree on the step they mean.\<close>

lemma get_step_split:
  assumes "get_step w n = Inr s"
  obtains pre post where "wf_steps w = pre @ s # post" "st_name s = n" "\<forall>r \<in> set pre. st_name r \<noteq> n"
proof -
  have "find (\<lambda>s. st_name s = n) (wf_steps w) = Some s"
    using assms by (auto simp: get_step_def split: option.splits)
  then obtain k where k: "k < length (wf_steps w)" "st_name (wf_steps w ! k) = n" "s = wf_steps w ! k"
      "\<forall>j < k. st_name (wf_steps w ! j) \<noteq> n"
    by (auto simp: find_Some_iff)
  show ?thesis
  proof (rule that[of "take k (wf_steps w)" "drop (Suc k) (wf_steps w)"])
    show "wf_steps w = take k (wf_steps w) @ s # drop (Suc k) (wf_steps w)" using k by (simp add: id_take_nth_drop)
    show "\<forall>r \<in> set (take k (wf_steps w)). st_name r \<noteq> n" using k by (auto simp: in_set_conv_nth)
  qed (use k in simp)
qed

lemma map_first_split:
  "\<forall>r \<in> set pre. \<not> P r \<Longrightarrow> P s \<Longrightarrow> map_first P f (pre @ s # post) = pre @ f s # post"
  by (induction pre) auto

lemma map_first_unique:
  "distinct (map st_name xs) \<Longrightarrow>
   map_first (\<lambda>s. st_name s = n) f xs = map (\<lambda>s. if st_name s = n then f s else s) xs"
proof (induction xs)
  case (Cons x xs)
  have "map (\<lambda>s. if st_name s = st_name x then f s else s) xs = map id xs"
    using Cons.prems by (intro map_cong) (auto simp: image_iff)
  then show ?case using Cons by auto
qed simp

section \<open>The run loop returns\<close>

definition pending_count :: "workflow_record \<Rightarrow> nat" where
  "pending_count w = length (filter (\<lambda>s. st_status s = S_PENDING) (wf_steps w))"

lemma begin_step_stored:
  assumes "stored now i dir w" "begin_step now i n dir = (Inr w1, d1)"
  shows "stored now i d1 w1 \<and> (\<exists>s. get_step w n = Inr s \<and> st_status s = S_PENDING \<and>
           w1 = with_step n (\<lambda>s. s\<lparr>st_status := S_RUNNING, st_started_at := Some now\<rparr>) w)"
proof -
  have "ebind (get_step w n) (\<lambda>s. if st_status s \<noteq> S_PENDING
          then Inl (ValueError (''Step '' @ n @ '' is already '' @ step_status_value (st_status s)))
          else Inr (with_step n (\<lambda>s. s\<lparr>st_status := S_RUNNING, st_started_at := Some now\<rparr>) w)) = Inr w1 \<and> stored now i d1 w1"
    by (rule wf_mutate_saved[OF assms(1) assms(2)[unfolded begin_step_def]]) (auto simp: ebind_eq_Inr split: if_splits)
  then show ?thesis by (auto simp: ebind_eq_Inr split: if_splits)
qed

lemma complete_step_stored:
  assumes "stored now i dir w" "complete_step now i n out dir = (Inr w1, d1)"
  shows "stored now i d1 w1 \<and> (\<exists>s. get_step w n = Inr s) \<and> w1 = maybe_close now (with_step n
    (\<lambda>s. s\<lparr>st_status := S_COMPLETED, st_completed_at := Some now, st_output := out, st_error := None\<rparr>) w)"
proof -
  have "ebind (get_step w n) (\<lambda>_. Inr (maybe_close now (with_step n
         (\<lambda>s. s\<lparr>st_status := S_COMPLETED, st_completed_at := Some now, st_output := out, st_error := None\<rparr>) w))) = Inr w1
       \<and> stored now i d1 w1"
    by (rule wf_mutate_saved[OF assms(1) assms(2)[unfolded complete_step_def]]) (auto simp: ebind_eq_Inr)
  then show ?thesis by (auto simp: ebind_eq_Inr)
qed

lemma begin_pending_count:
  assumes "get_step w n = Inr s" "st_status s = S_PENDING" "st_status (f s) \<noteq> S_PENDING"
  shows "Suc (pending_count (with_step n f w)) = pending_count w"
  using assms by (elim get_step_split) (simp add: pending_count_def map_first_split)

lemma complete_pending_count:
  assumes "get_step w n = Inr s" "st_status s \<noteq> S_PENDING" "st_status (f s) \<noteq> S_PENDING"
  shows "pending_count (maybe_close now (with_step n f w)) = pending_count w"
  using assms by (elim get_step_split) (simp add: pending_count_def map_first_split)

lemma get_step_with_step:
  assumes "get_step w n = Inr s" "st_name (f s) = n"
  shows "get_step (with_step n f w) n = Inr (f s)"
proof -
  obtain pre post where p: "wf_steps w = pre @ s # post" "st_name s = n" "\<forall>r \<in> set pre. st_name r \<noteq> n"
    by (rule get_step_split[OF assms(1)])
  have "find (\<lambda>s. st_name s = n) (pre @ f s # post) = Some (f s)"
    using p(3) assms(2) by (induction pre) auto
  then show ?thesis using p by (simp add: get_step_def map_first_split)
qed

lemma run_turn_progress:
  assumes "stored now i dir w" "run_turn now i hs nxt dir = (Inr True, d)"
  shows "\<exists>w'. stored now i d w' \<and> pending_count w' < pending_count w"
proof -
  obtain w1 d1 where b: "begin_step now i (st_name nxt) dir = (Inr w1, d1)"
    using assms(2) by (auto simp: run_turn_def split: prod.splits sum.splits)
  obtain s where s: "stored now i d1 w1" "get_step w (st_name nxt) = Inr s" "st_status s = S_PENDING"
      "w1 = with_step (st_name nxt) (\<lambda>s. s\<lparr>st_status := S_RUNNING, st_started_at := Some now\<rparr>) w"
    using begin_step_stored[OF assms(1) b] by blast
  obtain out w2 where c: "complete_step now i (st_name nxt) out d1 = (Inr w2, d)"
    using assms(2) b by (auto simp: run_turn_def split: prod.splits sum.splits)
  note w2 = complete_step_stored[OF s(1) c]
  have name: "st_name s = st_name nxt" by (rule get_step_split[OF s(2)])
  have "get_step w1 (st_name nxt) = Inr (s\<lparr>st_status := S_RUNNING, st_started_at := Some now\<rparr>)"
    using get_step_with_step[OF s(2)] name by (simp add: s(4))
  then have "pending_count w2 = pending_count w1"
    using w2 by (simp add: complete_pending_count)
  moreover have "Suc (pending_count w1) = pending_count w"
    using begin_pending_count[OF s(2,3)] by (simp add: s(4))
  ultimately show ?thesis using w2 by (intro exI[of _ w2]) auto
qed

lemma run_loop_returns: "stored now i dir w \<Longrightarrow> \<exists>r. run_loop now i hs dir = Some r"
proof (induction "pending_count w" arbitrary: dir w rule: less_induct)
  case less
  have l: "wf_load now i dir = Some w" using less.prems by (simp add: stored_def)
  show ?case
  proof (cases "next_pending_step w")
    case None
    then show ?thesis using l by (simp add: run_loop.simps)
  next
    case (Some nxt)
    obtain r d where t: "run_turn now i hs nxt dir = (r, d)" by fastforce
    show ?thesis
    proof (cases "r = Inr True")
      case True
      then obtain w' where "stored now i d w'" "pending_count w' < pending_count w"
        using run_turn_progress[OF less.prems] t by blast
      then have "\<exists>r. run_loop now i hs d = Some r" using less.hyps by blast
      then show ?thesis using l Some t True by (subst run_loop.simps) simp
    next
      case False
      then show ?thesis using l Some t by (subst run_loop.simps) (auto split: sum.splits)
    qed
  qed
qed

section \<open>Turns of the loop\<close>

text \<open>What a turn does to a workflow whose step names are distinct.\<close>

definition on_name :: "string \<Rightarrow> (workflow_step \<Rightarrow> workflow_step) \<Rightarrow> workflow_step list \<Rightarrow> workflow_step list" where
  "on_name n f = map (\<lambda>s. if st_name s = n then f s else s)"

definition ran_ok :: "secs \<Rightarrow> json \<Rightarrow> workflow_step \<Rightarrow> workflow_step" where
  "ran_ok now out s = s\<lparr>st_status := S_COMPLETED, st_started_at := Some now, st_completed_at := Some now,
     st_output := out, st_error := None\<rparr>"

definition ran_bad :: "secs \<Rightarrow> string \<Rightarrow> workflow_step \<Rightarrow> workflow_step" where
  "ran_bad now err s = s\<lparr>st_status := S_FAILED, st_started_at := Some now, st_completed_at := Some now, st_error := Some err\<rparr>"

definition ok_turn :: "secs \<Rightarrow> json \<Rightarrow> string \<Rightarrow> workflow_record \<Rightarrow> workflow_record" where
  "ok_turn now out n w = maybe_close now (w\<lparr>wf_steps := on_name n (ran_ok now out) (wf_steps w)\<rparr>)"

definition bad_turn :: "secs \<Rightarrow> string \<Rightarrow> string \<Rightarrow> workflow_record \<Rightarrow> workflow_record" where
  "bad_turn now err n w =
     w\<lparr>wf_steps := skip_dependents [n] (on_name n (ran_bad now err) (wf_steps w)),
        wf_status := W_FAILED, wf_completed_at := Some now\<rparr>"

abbreviation names :: "workflow_record \<Rightarrow> string list" where
  "names w \<equiv> map st_name (wf_steps w)"

lemma on_name_names [simp]: "(\<And>s. st_name (f s) = st_name s) \<Longrightarrow> map st_name (on_name n f ss) = map st_name ss"
  by (simp add: on_name_def)

lemma ran_sel [simp]:
  "st_name (ran_ok now out s) = st_name s" "st_name (ran_bad now err s) = st_name s"
  "st_depends_on (ran_ok now out s) = st_depends_on s" "st_depends_on (ran_bad now err s) = st_depends_on s"
  "st_status (ran_ok now out s) = S_COMPLETED" "st_status (ran_bad now err s) = S_FAILED"
  by (simp_all add: ran_ok_def ran_bad_def)

lemma next_pendingD:
  "next_pending_step w = Some s \<Longrightarrow>
   s \<in> set (wf_steps w) \<and> st_status s = S_PENDING \<and> set (st_depends_on s) \<subseteq> done_names w"
  by (auto simp: next_pending_step_def find_Some_iff list_all_iff)

lemma get_step_distinct:
  assumes "distinct (names w)" "s \<in> set (wf_steps w)"
  shows "get_step w (st_name s) = Inr s"
proof -
  have "find (\<lambda>r. st_name r = st_name s) ss = Some s" if "distinct (map st_name ss)" "s \<in> set ss" for ss
    using that by (induction ss) (auto simp: image_iff)
  from this[OF assms]
  have "find (\<lambda>r. st_name r = st_name s) (wf_steps w) = Some s" .
  then show ?thesis by (simp add: get_step_def)
qed

lemma run_turn_distinct:
  assumes "stored now i dir w" "distinct (names w)" "next_pending_step w = Some nxt"
  shows "\<exists>d. (\<exists>out. run_turn now i hs nxt dir = (Inr True, d) \<and> stored now i d (ok_turn now out (st_name nxt) w)) \<or>
             (\<exists>err s v. handle hs s v = Inl err \<and> run_turn now i hs nxt dir = (Inr False, d) \<and>
                stored now i d (bad_turn now err (st_name nxt) w))"
proof -
  let ?n = "st_name nxt"
  let ?run = "\<lambda>s. s\<lparr>st_status := S_RUNNING, st_started_at := Some now\<rparr>"
  let ?ok = "\<lambda>out s. s\<lparr>st_status := S_COMPLETED, st_completed_at := Some now, st_output := out, st_error := None\<rparr>"
  let ?bad = "\<lambda>err s. s\<lparr>st_status := S_FAILED, st_completed_at := Some now, st_error := Some err\<rparr>"
  note nx = next_pendingD[OF assms(3)]
  have g: "get_step w ?n = Inr nxt" using get_step_distinct assms(2) nx by blast
  define w1 where "w1 = with_step ?n ?run w"
  define d1 where "d1 = wf_save w1 dir"
  have s1: "stored now i d1 w1"
    unfolding d1_def by (rule stored_save) (use assms(1) in \<open>simp add: w1_def stored_def\<close>)
  have b: "begin_step now i ?n dir = (Inr w1, d1)"
    using nx by (simp add: begin_step_def wf_mutate_stored[OF assms(1)] g w1_def d1_def)
  have g1: "get_step w1 ?n = Inr (?run nxt)"
    unfolding w1_def by (rule get_step_with_step[OF g]) simp
  have steps1: "wf_steps w1 = on_name ?n ?run (wf_steps w)"
    by (simp add: w1_def on_name_def map_first_unique[OF assms(2)])
  have d1': "distinct (names w1)" using assms(2) by (simp add: steps1)
  have steps2: "map_first (\<lambda>s. st_name s = ?n) f (wf_steps w1) = on_name ?n (\<lambda>s. f (?run s)) (wf_steps w)" for f
  proof -
    have "map_first (\<lambda>s. st_name s = ?n) f (wf_steps w1) = on_name ?n f (wf_steps w1)"
      by (simp add: on_name_def map_first_unique[OF d1'])
    then show ?thesis by (simp add: steps1 on_name_def comp_def)
  qed
  have close: "maybe_close now (with_step ?n (?ok out) w1) = ok_turn now out ?n w" for out
  proof -
    have "(\<lambda>s. ?ok out (?run s)) = ran_ok now out" by (rule ext) (simp add: ran_ok_def)
    then have "with_step ?n (?ok out) w1 = w\<lparr>wf_steps := on_name ?n (ran_ok now out) (wf_steps w)\<rparr>"
      using steps2[of "?ok out"] by (simp add: with_step_def w1_def)
    then show ?thesis by (simp add: ok_turn_def)
  qed
  have c: "complete_step now i ?n out d1 = (Inr (ok_turn now out ?n w), wf_save (ok_turn now out ?n w) d1)" for out
    by (simp add: complete_step_def wf_mutate_stored[OF s1] g1 close)
  have f: "fail_step now i ?n err True d1 = (Inr (bad_turn now err ?n w), wf_save (bad_turn now err ?n w) d1)" for err
  proof -
    have "(\<lambda>s. ?bad err (?run s)) = ran_bad now err" by (rule ext) (simp add: ran_bad_def)
    then have "with_step ?n (?bad err) w1 = w\<lparr>wf_steps := on_name ?n (ran_bad now err) (wf_steps w)\<rparr>"
      using steps2[of "?bad err"] by (simp add: with_step_def w1_def)
    then show ?thesis by (simp add: fail_step_def wf_mutate_stored[OF s1] g1 Let_def bad_turn_def del: with_step_sel)
  qed
  have id: "wf_id (ok_turn now out ?n w) = i" "wf_id (bad_turn now err ?n w) = i" for out err
    using assms(1) by (simp_all add: ok_turn_def bad_turn_def stored_def)
  show ?thesis
  proof (cases "handle hs (?run nxt) w1")
    case (Inl err)
    then show ?thesis
      using stored_save[OF id(2)] by (intro exI[of _ "wf_save (bad_turn now err ?n w) d1"]) (auto simp: run_turn_def b g1 f)
  next
    case (Inr out)
    then show ?thesis
      using stored_save[OF id(1)] by (intro exI[of _ "wf_save (ok_turn now out ?n w) d1"]) (auto simp: run_turn_def b g1 c)
  qed
qed

text \<open>An invariant of successful turns holds when the loop ends, or held before the turn that failed.\<close>

locale workflow_invariant =
  fixes inv :: "workflow_record \<Rightarrow> bool"
  assumes distinct_names: "inv w \<Longrightarrow> distinct (names w)"
    and turn: "inv w \<Longrightarrow> next_pending_step w = Some nxt \<Longrightarrow> inv (ok_turn now out (st_name nxt) w)"
begin

definition ended :: "secs \<Rightarrow> handlers \<Rightarrow> workflow_record \<Rightarrow> bool" where
  "ended now hs w =
     ((inv w \<and> next_pending_step w = None) \<or>
      (\<exists>u nxt err s v. inv u \<and> next_pending_step u = Some nxt \<and> handle hs s v = Inl err \<and> w = bad_turn now err (st_name nxt) u))"

lemma run_loop_ends:
  "stored now i dir w \<Longrightarrow> inv w \<Longrightarrow>
   \<exists>w' d. run_loop now i hs dir = Some (Inr (Some w'), d) \<and> stored now i d w' \<and> ended now hs w'"
proof (induction "pending_count w" arbitrary: dir w rule: less_induct)
  case less
  have l: "wf_load now i dir = Some w" using less.prems by (simp add: stored_def)
  show ?case
  proof (cases "next_pending_step w")
    case None
    then show ?thesis using l less.prems by (subst run_loop.simps) (simp add: ended_def)
  next
    case (Some nxt)
    from run_turn_distinct[OF less.prems(1) distinct_names[OF less.prems(2)] Some, of hs]
    consider (ok) d out where "run_turn now i hs nxt dir = (Inr True, d)" "stored now i d (ok_turn now out (st_name nxt) w)"
      | (bad) d err s v where "handle hs s v = Inl err" "run_turn now i hs nxt dir = (Inr False, d)"
          "stored now i d (bad_turn now err (st_name nxt) w)"
      by blast
    then show ?thesis
    proof cases
      case ok
      then obtain w' where w': "stored now i d w'" "pending_count w' < pending_count w"
        using run_turn_progress[OF less.prems(1)] by blast
      then have "w' = ok_turn now out (st_name nxt) w" using ok by (simp add: stored_def)
      then have "\<exists>w' d'. run_loop now i hs d = Some (Inr (Some w'), d') \<and> stored now i d' w' \<and> ended now hs w'"
        using less.hyps[OF w'(2,1)] turn[OF less.prems(2) Some] by blast
      then show ?thesis using l Some ok by (subst run_loop.simps) simp
    next
      case bad
      then have "wf_load now i d = Some (bad_turn now err (st_name nxt) w)" by (simp add: stored_def)
      then have "run_loop now i hs dir = Some (Inr (Some (bad_turn now err (st_name nxt) w)), d)"
        using l Some bad by (subst run_loop.simps) simp
      moreover have "ended now hs (bad_turn now err (st_name nxt) w)"
        using less.prems(2) Some bad(1) unfolding ended_def by blast
      ultimately show ?thesis using bad(3) by blast
    qed
  qed
qed

end

section \<open>Dependencies\<close>

definition deps_respected :: "workflow_record \<Rightarrow> bool" where
  "deps_respected w =
     (\<forall>s \<in> set (wf_steps w). st_status s \<in> {S_RUNNING, S_COMPLETED, S_FAILED} \<longrightarrow> set (st_depends_on s) \<subseteq> done_names w)"

lemma done_names_iff: "n \<in> done_names w \<longleftrightarrow> (\<exists>s \<in> set (wf_steps w). st_name s = n \<and> is_done s)"
  by (auto simp: done_names_def)

lemma done_names_on_name:
  assumes "\<And>s. st_name (f s) = st_name s" "\<And>s. s \<in> set (wf_steps w) \<Longrightarrow> st_name s = n \<Longrightarrow> is_done s \<Longrightarrow> is_done (f s)"
  shows "done_names w \<subseteq> done_names (w\<lparr>wf_steps := on_name n f (wf_steps w)\<rparr>)"
proof
  fix m assume "m \<in> done_names w"
  then obtain s where s: "s \<in> set (wf_steps w)" "st_name s = m" "is_done s" by (auto simp: done_names_iff)
  define t where "t = (if st_name s = n then f s else s)"
  have "t \<in> set (on_name n f (wf_steps w))" "st_name t = m" "is_done t"
    using s assms(1) assms(2)[OF s(1)] by (auto simp: t_def on_name_def)
  then show "m \<in> done_names (w\<lparr>wf_steps := on_name n f (wf_steps w)\<rparr>)" by (auto simp: done_names_iff)
qed

lemma deps_on_name:
  assumes "deps_respected w" "next_pending_step w = Some nxt" "distinct (names w)"
    "\<And>s. st_name (f s) = st_name s" "\<And>s. st_depends_on (f s) = st_depends_on s"
  shows "deps_respected (w\<lparr>wf_steps := on_name (st_name nxt) f (wf_steps w)\<rparr>)"
proof -
  note nx = next_pendingD[OF assms(2)]
  have unique: "s = nxt" if "s \<in> set (wf_steps w)" "st_name s = st_name nxt" for s
    using that nx assms(3) by (auto simp: distinct_map inj_on_def)
  have grow: "done_names w \<subseteq> done_names (w\<lparr>wf_steps := on_name (st_name nxt) f (wf_steps w)\<rparr>)"
  proof (rule done_names_on_name[OF assms(4)])
    fix s assume "s \<in> set (wf_steps w)" "st_name s = st_name nxt" "is_done s"
    then show "is_done (f s)" using unique[of s] nx by (simp add: is_done_def)
  qed
  have "set (st_depends_on t) \<subseteq> done_names w"
    if t: "t \<in> set (on_name (st_name nxt) f (wf_steps w))" "st_status t \<in> {S_RUNNING, S_COMPLETED, S_FAILED}" for t
  proof -
    obtain s where s: "s \<in> set (wf_steps w)" "t = (if st_name s = st_name nxt then f s else s)"
      using t(1) by (auto simp: on_name_def)
    show ?thesis
    proof (cases "st_name s = st_name nxt")
      case True
      then show ?thesis using s unique[of s] nx assms(5) by simp
    next
      case False
      then show ?thesis using s t(2) assms(1) unfolding deps_respected_def by metis
    qed
  qed
  with grow show ?thesis unfolding deps_respected_def by fastforce
qed

lemma deps_maybe_close [simp]: "deps_respected (maybe_close now w) = deps_respected w"
  by (simp add: deps_respected_def done_names_def)

lemma skip_dependents_all2:
  "list_all2 (\<lambda>s t. t = s \<or> (st_status s = S_PENDING \<and> t = s\<lparr>st_status := S_SKIPPED\<rparr>)) ss (skip_dependents failed ss)"
  by (induction failed ss rule: skip_dependents.induct) auto

lemma deps_skip:
  assumes "deps_respected w"
  shows "deps_respected (w\<lparr>wf_steps := skip_dependents failed (wf_steps w)\<rparr>)"
proof -
  let ?w = "w\<lparr>wf_steps := skip_dependents failed (wf_steps w)\<rparr>"
  note rel = skip_dependents_all2[of "wf_steps w" failed]
  have "\<exists>t \<in> set (skip_dependents failed (wf_steps w)). st_name t = st_name s \<and> is_done t"
    if s: "s \<in> set (wf_steps w)" "is_done s" for s
  proof -
    obtain k where k: "k < length (wf_steps w)" "s = wf_steps w ! k" using s(1) by (auto simp: in_set_conv_nth)
    then have "skip_dependents failed (wf_steps w) ! k = s" "k < length (skip_dependents failed (wf_steps w))"
      using rel s(2) by (auto simp: list_all2_conv_all_nth is_done_def)
    then show ?thesis using s(2) nth_mem by fastforce
  qed
  then have grow: "done_names w \<subseteq> done_names ?w" by (fastforce simp: done_names_iff)
  show ?thesis
    unfolding deps_respected_def
  proof (intro ballI impI)
    fix t assume t: "t \<in> set (wf_steps ?w)" "st_status t \<in> {S_RUNNING, S_COMPLETED, S_FAILED}"
    then obtain k where k: "k < length (skip_dependents failed (wf_steps w))" "t = skip_dependents failed (wf_steps w) ! k"
      by (auto simp: in_set_conv_nth)
    then have "t = wf_steps w ! k" "k < length (wf_steps w)"
      using rel t(2) by (auto simp: list_all2_conv_all_nth)
    then have "t \<in> set (wf_steps w)" by simp
    then have "set (st_depends_on t) \<subseteq> done_names w" using assms t(2) unfolding deps_respected_def by blast
    with grow show "set (st_depends_on t) \<subseteq> done_names ?w" by blast
  qed
qed

lemma ok_turn_steps [simp]: "wf_steps (ok_turn now out n w) = on_name n (ran_ok now out) (wf_steps w)"
  by (simp add: ok_turn_def)

interpretation deps: workflow_invariant "\<lambda>w. distinct (names w) \<and> deps_respected w"
proof
  fix w nxt now out
  assume w: "distinct (names w) \<and> deps_respected w" "next_pending_step w = Some nxt"
  then have "deps_respected (w\<lparr>wf_steps := on_name (st_name nxt) (ran_ok now out) (wf_steps w)\<rparr>)"
    by (intro deps_on_name) simp_all
  then show "distinct (names (ok_turn now out (st_name nxt) w)) \<and> deps_respected (ok_turn now out (st_name nxt) w)"
    using w by (simp add: ok_turn_def)
qed simp

lemma deps_cong: "wf_steps u = wf_steps w \<Longrightarrow> deps_respected u = deps_respected w"
  by (simp add: deps_respected_def done_names_def)

lemma deps_bad_turn:
  assumes "distinct (names u)" "deps_respected u" "next_pending_step u = Some nxt"
  shows "deps_respected (bad_turn now err (st_name nxt) u)"
proof -
  have "deps_respected (u\<lparr>wf_steps := on_name (st_name nxt) (ran_bad now err) (wf_steps u)\<rparr>)"
    using assms by (intro deps_on_name) simp_all
  from deps_skip[OF this, of "[st_name nxt]"]
  have "deps_respected (u\<lparr>wf_steps := wf_steps (bad_turn now err (st_name nxt) u)\<rparr>)" by (simp add: bad_turn_def)
  then show ?thesis using deps_cong[of "bad_turn now err (st_name nxt) u" "u\<lparr>wf_steps := wf_steps (bad_turn now err (st_name nxt) u)\<rparr>"]
    by simp
qed

text \<open>How a run begins.\<close>

lemma wf_run_begins:
  assumes "stored now i dir w" "wf_status w \<notin> {W_COMPLETED, W_CANCELLED}"
  obtains w0 d0 where "wf_run now i hs dir = run_loop now i hs d0" "stored now i d0 w0"
    "wf_steps w0 = (if wf_status w = W_PENDING then wf_steps w else map unrun (wf_steps w))" "wf_status w0 = W_RUNNING"
proof -
  define w0 where "w0 = started now (if wf_status w = W_PENDING then w else w\<lparr>wf_steps := map unrun (wf_steps w)\<rparr>)"
  have id: "wf_id w0 = i" using assms(1) by (simp add: w0_def stored_def)
  have "(if wf_status w \<noteq> W_PENDING then wf_resume now i dir else wf_start now i dir) = (Inr w0, wf_save w0 dir)"
    using assms(2) by (simp add: wf_resume_def wf_start_def wf_mutate_stored[OF assms(1)] w0_def)
  then have "wf_run now i hs dir = run_loop now i hs (wf_save w0 dir)"
    using assms(1) by (simp add: wf_run_def stored_def)
  then show ?thesis
    by (rule that[OF _ stored_save[OF id]]) (simp_all add: w0_def)
qed

lemma deps_unrun:
  assumes "deps_respected w"
  shows "deps_respected (w\<lparr>wf_steps := map unrun (wf_steps w)\<rparr>)"
proof -
  have d: "is_done (unrun s) = is_done s" for s by (simp add: unrun_def is_done_def)
  have "done_names (w\<lparr>wf_steps := map unrun (wf_steps w)\<rparr>) = done_names w" by (auto simp: done_names_iff d)
  moreover have "st_status (unrun s) \<in> {S_RUNNING, S_COMPLETED, S_FAILED} \<Longrightarrow> st_status s \<in> {S_RUNNING, S_COMPLETED, S_FAILED}" for s
    by (auto simp: unrun_def split: if_splits)
  ultimately show ?thesis using assms unfolding deps_respected_def by fastforce
qed

text \<open>
  C34.  A run ends.  Whatever the steps, their dependencies (unknown, cyclic), their names (also
  duplicate ones) and the handlers, running a workflow that is stored under its own identifier
  returns: every turn takes a step out of the pending ones.
\<close>

theorem run_returns:
  assumes "wf_load now i dir = Some w" "wf_id w = i"
  shows "\<exists>r d. wf_run now i hs dir = Some (r, d)"
proof (cases "wf_status w \<in> {W_COMPLETED, W_CANCELLED}")
  case True
  then show ?thesis
    using assms by (auto simp: wf_run_def wf_resume_def wf_mutate_def wf_require_def)
next
  case False
  have st: "stored now i dir w" using assms by (simp add: stored_def)
  show ?thesis
    by (rule wf_run_begins[OF st False, where hs = hs]) (use run_loop_returns in fastforce)
qed

definition example_workflow :: "workflow_step list \<Rightarrow> workflow_dir" where
  "example_workflow ss = snd (wf_create ''w1'' ''demo'' ss None [] [] 0 [])"

theorem run_returns_witness:
  "\<exists>r d. wf_run 1 ''w1'' (\<lambda>_. None) (example_workflow [WorkflowStep ''a'' [] [''b''], WorkflowStep ''b'' [] [''a'']]) = Some (r, d)"
proof -
  have "\<exists>w. wf_load 1 ''w1'' (example_workflow [WorkflowStep ''a'' [] [''b''], WorkflowStep ''b'' [] [''a'']]) = Some w \<and> wf_id w = ''w1''"
    by (simp add: example_workflow_def wf_create_def wf_load_def wf_save_def Let_def)
  then show ?thesis using run_returns by blast
qed



section \<open>Ordered workflows complete\<close>

text \<open>Every dependency is a step listed before.\<close>

fun steps_ordered :: "string list \<Rightarrow> workflow_step list \<Rightarrow> bool" where
  "steps_ordered seen [] = True"
| "steps_ordered seen (s # ss) = (list_all (\<lambda>d. d \<in> set seen) (st_depends_on s) \<and> steps_ordered (st_name s # seen) ss)"

lemma steps_ordered_append:
  "steps_ordered seen (pre @ s # post) \<Longrightarrow> set (st_depends_on s) \<subseteq> set seen \<union> st_name ` set pre"
  by (induction seen pre rule: steps_ordered.induct) (auto simp: list_all_iff)

lemma steps_ordered_on_name:
  "(\<And>s. st_name (f s) = st_name s) \<Longrightarrow> (\<And>s. st_depends_on (f s) = st_depends_on s) \<Longrightarrow>
   steps_ordered seen (on_name n f ss) = steps_ordered seen ss"
  by (induction seen ss rule: steps_ordered.induct) (auto simp: on_name_def)

definition proceeding :: "workflow_record \<Rightarrow> bool" where
  "proceeding w =
     (distinct (names w) \<and> steps_ordered [] (wf_steps w) \<and>
      list_all (\<lambda>s. st_status s \<in> {S_PENDING, S_COMPLETED}) (wf_steps w) \<and>
      (list_all is_terminal (wf_steps w) \<longrightarrow> wf_status w = W_COMPLETED))"

interpretation forward: workflow_invariant proceeding
proof
  fix w nxt now out
  assume w: "proceeding w" "next_pending_step w = Some nxt"
  then show "proceeding (ok_turn now out (st_name nxt) w)"
    by (auto simp: proceeding_def steps_ordered_on_name)
      (auto simp: on_name_def list_all_iff ok_turn_def maybe_close_def)
qed (simp add: proceeding_def)

lemma ordered_finished:
  assumes "proceeding w" "next_pending_step w = None"
  shows "list_all (\<lambda>s. st_status s = S_COMPLETED) (wf_steps w)"
proof (rule ccontr)
  assume "\<not> list_all (\<lambda>s. st_status s = S_COMPLETED) (wf_steps w)"
  then have "\<exists>s \<in> set (wf_steps w). st_status s = S_PENDING"
    using assms(1) by (auto simp: proceeding_def list_all_iff)
  then obtain pre s post where sp: "wf_steps w = pre @ s # post" "st_status s = S_PENDING" "\<forall>r \<in> set pre. st_status r \<noteq> S_PENDING"
    using split_list_first_prop[of "wf_steps w" "\<lambda>s. st_status s = S_PENDING"] by blast
  have "r \<in> set (wf_steps w) \<and> is_done r" if "r \<in> set pre" for r
    using that sp assms(1) by (auto simp: proceeding_def list_all_iff is_done_def)
  then have "st_name ` set pre \<subseteq> done_names w" unfolding done_names_def by auto
  moreover have "set (st_depends_on s) \<subseteq> st_name ` set pre"
    using steps_ordered_append[of "[]" pre s post] assms(1) sp(1) by (auto simp: proceeding_def)
  ultimately have "s \<in> set (wf_steps w) \<and> st_status s = S_PENDING \<and> list_all (\<lambda>d. d \<in> done_names w) (st_depends_on s)"
    using sp by (auto simp: list_all_iff)
  then show False using assms(2) by (auto simp: next_pending_step_def find_None_iff)
qed


lemma templates_ordered:
  "list_all (\<lambda>(t, _). case template_steps t of Inl _ \<Rightarrow> False | Inr ss \<Rightarrow>
     distinct (map st_name ss) \<and> steps_ordered [] ss \<and> list_all (\<lambda>s. st_status s = S_PENDING) ss) WORKFLOW_TEMPLATES"
  by code_simp


section \<open>A failed step in a completed workflow\<close>

text \<open>
  A failure can be forgotten.  When the last open step of a workflow completes, the workflow is
  stored as completed even though another of its steps has failed: the check looks for steps that
  are terminal, and failed ones are.
\<close>

lemma failure_forgotten_on_completion:
  assumes "wf_load now i dir = Some w" "wf_id w = i" "distinct (map st_name (wf_steps w))"
    "s \<in> set (wf_steps w)" "f \<in> set (wf_steps w)" "f \<noteq> s" "st_status f = S_FAILED"
    "\<forall>r \<in> set (wf_steps w). r \<noteq> s \<longrightarrow> is_terminal r"
  shows "\<exists>w' d. complete_step now i (st_name s) out dir = (Inr w', d) \<and> wf_load now i d = Some w' \<and>
           wf_status w' = W_COMPLETED \<and> f \<in> set (wf_steps w')"
proof -
  have st: "stored now i dir w" using assms(1,2) by (simp add: stored_def)
  let ?f = "\<lambda>s. s\<lparr>st_status := S_COMPLETED, st_completed_at := Some now, st_output := out, st_error := None\<rparr>"
  define w' where "w' = maybe_close now (with_step (st_name s) ?f w)"
  have steps: "wf_steps w' = on_name (st_name s) ?f (wf_steps w)"
    by (simp add: w'_def map_first_unique[OF assms(3)] on_name_def)
  have other: "r = s \<or> st_name r \<noteq> st_name s" if "r \<in> set (wf_steps w)" for r
    using that assms(3,4) by (auto simp: distinct_map inj_on_def)
  have "list_all is_terminal (wf_steps w')"
    using assms(8) other unfolding steps by (auto simp: on_name_def list_all_iff is_terminal_def)
  then have "wf_status w' = W_COMPLETED" unfolding w'_def maybe_close_sel(2) by (simp add: maybe_close_def)
  moreover have "f \<in> set (wf_steps w')" using assms(5,6) other[of f] unfolding steps by (force simp: on_name_def)
  moreover have "complete_step now i (st_name s) out dir = (Inr w', wf_save w' dir)"
    by (simp add: complete_step_def wf_mutate_stored[OF st] get_step_distinct[OF assms(3,4)] w'_def)
  moreover have "wf_load now i (wf_save w' dir) = Some w'"
    using stored_save[of w' i] assms(2) by (simp add: stored_def w'_def)
  ultimately show ?thesis by blast
qed

text \<open>Two independent steps: the first handler raises, a second run completes the other one.\<close>

theorem failure_forgotten_on_completion_witness:
  "\<exists>w' d f. complete_step 2 ''w1'' ''b'' J_null
       (snd (fail_step 1 ''w1'' ''a'' ''boom'' True (example_workflow [WorkflowStep ''a'' [] [], WorkflowStep ''b'' [] []]))) = (Inr w', d) \<and>
     wf_status w' = W_COMPLETED \<and> f \<in> set (wf_steps w') \<and> st_status f = S_FAILED"
proof -
  let ?dir = "snd (fail_step 1 ''w1'' ''a'' ''boom'' True (example_workflow [WorkflowStep ''a'' [] [], WorkflowStep ''b'' [] []]))"
  let ?b = "WorkflowStep ''b'' [] []"
  let ?a = "(WorkflowStep ''a'' [] [])\<lparr>st_status := S_FAILED, st_completed_at := Some 1, st_error := Some ''boom''\<rparr>"
  obtain w where w: "wf_load 2 ''w1'' ?dir = Some w" "wf_id w = ''w1''" "wf_steps w = [?a, ?b]"
    by (simp add: example_workflow_def wf_create_def wf_load_def wf_save_def Let_def fail_step_def wf_mutate_def wf_require_def
        get_step_def WorkflowStep_def with_step_def)
  have "?b \<in> set (wf_steps w)" "?a \<in> set (wf_steps w)" "?a \<noteq> ?b" "st_status ?a = S_FAILED"
      "distinct (map st_name (wf_steps w))" "\<forall>r \<in> set (wf_steps w). r \<noteq> ?b \<longrightarrow> is_terminal r"
    by (simp_all add: w(3) WorkflowStep_def is_terminal_def)
  note h = this
  obtain w' d where e: "complete_step 2 ''w1'' (st_name ?b) J_null ?dir = (Inr w', d)" "wf_status w' = W_COMPLETED" "?a \<in> set (wf_steps w')"
    using failure_forgotten_on_completion[OF w(1,2) h(5) h(1) h(2) h(3) h(4) h(6), of J_null] by blast
  have "st_name ?b = ''b''" by (simp add: WorkflowStep_def)
  then show ?thesis using e h(4) by (intro exI[of _ w'] exI[of _ d] exI[of _ ?a]) (simp only:)
qed

end
