(* ===== verification/Workflow_Budget.thy ===== *)
theory Workflow_Budget
  imports Directives "HOL-Library.Multiset"
begin

text \<open>
  The token budget of a workflow (\<^verbatim>\<open>orchestration/workflow_budget.py\<close>): an even split over the steps,
  rebalanced whenever a step reports its usage, with a floor per step and warnings.  Events carry
  their kind, step and data; the text of their message is left out.  The fractions are rationals.
\<close>

section \<open>State\<close>

datatype budget_event_kind = USAGE_RECORDED | REBALANCED | WARNING | CRITICAL | FLOOR_APPLIED | EXHAUSTED

record budget_event =
  be_kind :: budget_event_kind
  be_step :: string
  be_data :: "(string, json) dict"

record workflow_budget =
  wb_total :: int
  wb_steps :: "string list"
  wb_min_floor :: int
  wb_warn_pct :: rat
  wb_critical_pct :: rat
  wb_pending :: "string list"
  wb_allocations :: "(string, int) dict"
  wb_usage :: "(string, int) dict"
  wb_remaining :: int

definition MIN_FLOOR_TOKENS :: int where "MIN_FLOOR_TOKENS = 100"
definition WARN_OVERSPEND_PCT :: rat where "WARN_OVERSPEND_PCT = 6 / 5"
definition CRITICAL_REMAINING_PCT :: rat where "CRITICAL_REMAINING_PCT = 1 / 5"

section \<open>Splitting\<close>

text \<open>Assigning to a dictionary for every step, in order, with its position.\<close>

fun assign_each :: "(nat \<Rightarrow> string \<Rightarrow> int) \<Rightarrow> nat \<Rightarrow> string list \<Rightarrow> (string, int) dict \<Rightarrow> (string, int) dict" where
  "assign_each f k [] d = d"
| "assign_each f k (s # ss) d = assign_each f (Suc k) ss (AList.update s (f k s) d)"

definition even_split :: "int \<Rightarrow> string list \<Rightarrow> int \<Rightarrow> (string, int) dict" where
  "even_split min_floor steps pool =
     (if steps = [] then []
      else let n = int (length steps); base = pool div n; remainder = pool - base * n; floored = max base min_floor
           in assign_each (\<lambda>i s. floored + (if int i < remainder then 1 else 0)) 0 steps [])"

definition WorkflowBudget :: "int \<Rightarrow> string list \<Rightarrow> int \<Rightarrow> rat \<Rightarrow> rat \<Rightarrow> py_error + workflow_budget" where
  "WorkflowBudget tot steps min_floor warn_pct critical_pct =
     (if tot \<le> 0 then Inl (ValueError ''total budget must be positive'')
      else if steps = [] then Inl (ValueError ''steps must be non-empty'')
      else if min_floor < 0 then Inl (ValueError ''min_floor must be >= 0'')
      else Inr \<lparr>wb_total = tot, wb_steps = steps, wb_min_floor = min_floor, wb_warn_pct = warn_pct,
                wb_critical_pct = critical_pct, wb_pending = steps, wb_allocations = even_split min_floor steps tot,
                wb_usage = [], wb_remaining = tot\<rparr>)"

definition step_allocation :: "string \<Rightarrow> workflow_budget \<Rightarrow> py_error + int" where
  "step_allocation step b = (case map_of (wb_allocations b) step of None \<Rightarrow> Inl (KeyError step) | Some n \<Rightarrow> Inr n)"

definition completed_steps :: "workflow_budget \<Rightarrow> string list" where
  "completed_steps b = filter (\<lambda>s. s \<notin> set (wb_pending b)) (wb_steps b)"

section \<open>Rebalancing\<close>

definition event :: "budget_event_kind \<Rightarrow> string \<Rightarrow> (string, json) dict \<Rightarrow> budget_event" where
  "event k s d = \<lparr>be_kind = k, be_step = s, be_data = d\<rparr>"

definition j_strings :: "string list \<Rightarrow> json" where
  "j_strings xs = J_list (map J_str xs)"

text \<open>The surplus goes on top of the even split of what remains.\<close>

definition rebalance_bonus :: "string \<Rightarrow> int \<Rightarrow> string list \<Rightarrow> (string, int) dict \<Rightarrow> (string, int) dict \<times> budget_event" where
  "rebalance_bonus step delta pending allocs =
     (if 0 < delta
      then let first = hd pending in
           (AList.update first ((case map_of allocs first of None \<Rightarrow> 0 | Some v \<Rightarrow> v) + delta) allocs,
            event REBALANCED step [(''delta'', J_int delta), (''bonus_step'', J_str first), (''bonus_tokens'', J_int delta)])
      else (allocs, event REBALANCED step [(''delta'', J_int delta), (''pending'', j_strings pending)]))"

text \<open>The floor, and the cap at what remains.\<close>

definition rebalance_cap ::
  "string \<Rightarrow> int \<Rightarrow> int \<Rightarrow> string list \<Rightarrow> (string, int) dict \<Rightarrow> (string, int) dict \<times> budget_event list" where
  "rebalance_cap step min_floor remaining pending allocs =
     (if remaining < sum_list (map (max min_floor \<circ> snd) allocs) \<and> 0 \<le> remaining
      then let clamped = assign_each (\<lambda>i s. max min_floor (case map_of allocs s of None \<Rightarrow> 0 | Some v \<Rightarrow> v)) 0 pending allocs;
               n = int (length pending);
               floor_total = min_floor * n
           in if floor_total \<le> remaining
              then let extra = remaining - floor_total
                   in (assign_each (\<lambda>i s. min_floor + (extra div n + (if int i < extra mod n then 1 else 0))) 0 pending clamped, [])
              else (assign_each (\<lambda>i s. min_floor) 0 pending clamped,
                    [event FLOOR_APPLIED step
                       [(''remaining'', J_int remaining), (''floor'', J_int min_floor), (''pending'', j_strings pending)]])
      else (allocs, []))"

definition rebalance :: "string \<Rightarrow> int \<Rightarrow> workflow_budget \<Rightarrow> budget_event list \<times> workflow_budget" where
  "rebalance step delta b =
     (if wb_pending b = [] then ([], b)
      else case rebalance_bonus step delta (wb_pending b) (even_split (wb_min_floor b) (wb_pending b) (wb_remaining b)) of
             (bonus, e) \<Rightarrow>
               (case rebalance_cap step (wb_min_floor b) (wb_remaining b) (wb_pending b) bonus of
                  (new, es) \<Rightarrow>
                    (e # es, b\<lparr>wb_allocations :=
                       assign_each (\<lambda>i s. case map_of new s of None \<Rightarrow> wb_min_floor b | Some v \<Rightarrow> v) 0 (wb_pending b)
                         (wb_allocations b)\<rparr>)))"

section \<open>Recording usage\<close>

definition overspend_events :: "workflow_budget \<Rightarrow> string \<Rightarrow> int \<Rightarrow> int \<Rightarrow> budget_event list" where
  "overspend_events b step used allocation =
     (if 0 < allocation \<and> of_int allocation * wb_warn_pct b < of_int used
      then [event WARNING step
              [(''pct'', J_float (py_round 1 (of_int used / of_int allocation * 100))), (''used'', J_int used), (''allocated'', J_int allocation)]]
      else [])"

definition critical_events :: "workflow_budget \<Rightarrow> string \<Rightarrow> budget_event list" where
  "critical_events b step =
     (if wb_remaining b < \<lfloor>of_int (wb_total b) * wb_critical_pct b\<rfloor>
      then [event CRITICAL step
              [(''remaining'', J_int (wb_remaining b)), (''total'', J_int (wb_total b)),
               (''pct_left'', if wb_total b = 0 then J_int 0
                              else J_float (py_round 1 (of_int (wb_remaining b) / of_int (wb_total b) * 100)))]]
      else []) @
     (if wb_remaining b = 0 \<and> wb_pending b \<noteq> []
      then [event EXHAUSTED step [(''pending'', j_strings (wb_pending b))]] else [])"

definition record_usage :: "string \<Rightarrow> int \<Rightarrow> workflow_budget \<Rightarrow> (py_error + budget_event list) \<times> workflow_budget" where
  "record_usage step used b =
     (if step \<notin> set (wb_steps b) then (Inl (KeyError step), b)
      else if step \<notin> set (wb_pending b) then (Inl (ValueError (''Step '' @ step @ '' already recorded'')), b)
      else if used < 0 then (Inl (ValueError ''tokens_used must be >= 0''), b)
      else case map_of (wb_allocations b) step of
             None \<Rightarrow> (Inl (KeyError step), b)
           | Some allocation \<Rightarrow>
               (let b1 = b\<lparr>wb_usage := AList.update step used (wb_usage b), wb_pending := remove1 step (wb_pending b),
                           wb_remaining := max 0 (wb_remaining b - used)\<rparr>
                in case rebalance step (allocation - used) b1 of
                     (es, b2) \<Rightarrow>
                       (Inr (event USAGE_RECORDED step [(''used'', J_int used), (''allocated'', J_int allocation)] #
                             overspend_events b step used allocation @ critical_events b1 step @ es), b2)))"

section \<open>What a rebalance allocates\<close>

lemma assign_each_map_of:
  assumes "distinct ss" "j < length ss"
  shows "map_of (assign_each f k ss d) (ss ! j) = Some (f (k + j) (ss ! j))"
  using assms
proof (induction ss arbitrary: k j d)
  case (Cons s ss)
  have keep: "t \<notin> set ts \<Longrightarrow> map_of (assign_each f k ts d) t = map_of d t" for t ts k d
    by (induction ts arbitrary: k d) auto
  show ?case
  proof (cases j)
    case 0
    then show ?thesis using Cons.prems by (simp add: keep)
  next
    case (Suc i)
    then show ?thesis using Cons.IH[of i "Suc k"] Cons.prems by simp
  qed
qed simp

lemma assign_each_fresh:
  assumes "distinct ss" "\<forall>s \<in> set ss. map_of d s = None"
  shows "assign_each f k ss d = d @ map (\<lambda>(i, s). (s, f i s)) (enumerate k ss)"
  using assms
proof (induction ss arbitrary: k d)
  case (Cons s ss)
  then have "\<forall>t \<in> set ss. map_of (d @ [(s, f k s)]) t = None" by (auto simp: map_add_def)
  with Cons show ?case by (simp add: update_new)
qed simp

text \<open>The even share of a pool over \<open>n\<close> steps; the first ones take the remainder.\<close>

definition share :: "int \<Rightarrow> int \<Rightarrow> nat \<Rightarrow> int" where
  "share pool n k = pool div n + (if int k < pool mod n then 1 else 0)"

lemma sum_ones: "sum_list (map (\<lambda>k. if int k < r then 1 else 0 :: int) [0..<n]) = max 0 (min r (int n))"
  by (induction n) auto

lemma sum_shares:
  assumes "0 \<le> pool" "0 < n"
  shows "sum_list (map (share pool (int n)) [0..<n]) = pool"
proof -
  have "sum_list (map (share pool (int n)) [0..<n]) =
      int n * (pool div int n) + sum_list (map (\<lambda>k. if int k < pool mod int n then 1 else 0) [0..<n])"
    unfolding share_def sum_list_addf by (simp add: sum_list_triv)
  also have "\<dots> = int n * (pool div int n) + pool mod int n"
    using assms by (simp add: sum_ones min_def less_imp_le)
  finally show ?thesis by simp
qed

lemma sum_list_update_new:
  "map_of d k = Some v \<Longrightarrow> distinct (map fst d) \<Longrightarrow>
   sum_list (map (g \<circ> snd) (AList.update k v' d)) = sum_list (map (g \<circ> snd) d) - g v + (g v' :: int)"
proof (induction d)
  case (Cons p d)
  then show ?case by (cases p) (auto dest: map_of_SomeD)
qed simp

lemma even_split_affordable:
  assumes "distinct ss" "ss \<noteq> []" "fl * int (length ss) \<le> pool"
  shows "even_split fl ss pool = map (\<lambda>(i, s). (s, share pool (int (length ss)) i)) (enumerate 0 ss)"
proof -
  have n: "0 < int (length ss)" using assms(2) by simp
  from zdiv_mono1[OF assms(3) this] n have "fl \<le> pool div int (length ss)" by simp
  then have "max (pool div int (length ss)) fl = pool div int (length ss)" by simp
  then show ?thesis
    using assms(1,2) by (simp add: even_split_def Let_def assign_each_fresh share_def minus_div_mult_eq_mod)
qed

lemma share_floor: "0 < n \<Longrightarrow> fl * n \<le> pool \<Longrightarrow> fl \<le> share pool n k"
  using zdiv_mono1[of "fl * n" pool n] by (simp add: share_def)

text \<open>Splitting what the floors leave, on top of the floors, is splitting everything.\<close>

lemma share_above_floor:
  "0 < n \<Longrightarrow> fl + ((pool - fl * n) div n + (if int k < (pool - fl * n) mod n then 1 else 0)) = share pool n k"
proof -
  assume n: "0 < n"
  have "pool - fl * n = pool + n * (- fl)" by (simp add: algebra_simps)
  then have "(pool - fl * n) div n = pool div n - fl" "(pool - fl * n) mod n = pool mod n"
    using n by (simp_all only: div_mult_self2 mod_mult_self2)
  then show ?thesis by (simp add: share_def)
qed

lemma sum_split:
  assumes "distinct ss" "ss \<noteq> []" "0 \<le> pool" "fl * int (length ss) \<le> pool"
  shows "sum_list (map (max fl \<circ> snd) (even_split fl ss pool)) = pool"
proof -
  let ?n = "int (length ss)"
  have "map (max fl \<circ> snd) (even_split fl ss pool) = map (share pool ?n) [0..<length ss]"
    unfolding even_split_affordable[OF assms(1,2,4)]
    by (rule nth_equalityI) (use share_floor[of ?n fl pool] assms(2,4) in \<open>auto simp: nth_enumerate_eq max_def\<close>)
  then show ?thesis using sum_shares[OF assms(3), of "length ss"] assms(2) by simp
qed

lemma keys_even_split: "distinct ss \<Longrightarrow> map fst (even_split fl ss pool) = ss"
  by (simp add: even_split_def Let_def assign_each_fresh comp_def case_prod_beta)

lemma even_split_at:
  "distinct ss \<Longrightarrow> k < length ss \<Longrightarrow> fl * int (length ss) \<le> pool \<Longrightarrow>
   map_of (even_split fl ss pool) (ss ! k) = Some (share pool (int (length ss)) k)"
proof -
  assume a: "distinct ss" "k < length ss" "fl * int (length ss) \<le> pool"
  have ne: "ss \<noteq> []" using a(2) by auto
  have "(ss ! k, share pool (int (length ss)) k) \<in> set (even_split fl ss pool)"
    unfolding even_split_affordable[OF a(1) ne a(3)] using a(2)
    by (auto simp: image_iff in_set_enumerate_eq intro!: bexI[of _ "(k, ss ! k)"])
  then show ?thesis using keys_even_split[OF a(1), of fl pool] a(1) by (intro map_of_is_SomeI) simp_all
qed

lemma sum_list_at_least: "(\<forall>x \<in> set xs. fl \<le> f x) \<Longrightarrow> fl * int (length xs) \<le> sum_list (map f xs)"
  by (induction xs) (auto simp: algebra_simps)

text \<open>Whatever the surplus, the capped allocation of a step is its even share, or the floor.\<close>

lemma rebalance_at:
  assumes "distinct ss" "k < length ss" "0 \<le> pool" "0 \<le> fl"
    "rebalance_bonus step delta ss (even_split fl ss pool) = (bonus, e)"
    "rebalance_cap step fl pool ss bonus = (new, es)"
  shows "map_of new (ss ! k) = Some (if fl * int (length ss) \<le> pool then share pool (int (length ss)) k else fl)"
proof -
  let ?n = "int (length ss)"
  have ne: "ss \<noteq> []" and n: "0 < ?n" using assms(2) by auto
  let ?total = "sum_list (map (max fl \<circ> snd) bonus)"
  show ?thesis
  proof (cases "fl * ?n \<le> pool")
    case True
    show ?thesis
    proof (cases "0 < delta")
      case d: True
      let ?v = "share pool ?n 0"
      have hd: "hd ss = ss ! 0" using ne by (simp add: hd_conv_nth)
      have v: "map_of (even_split fl ss pool) (hd ss) = Some ?v"
        unfolding hd by (rule even_split_at[OF assms(1) _ True]) (use ne in simp)
      then have "bonus = AList.update (hd ss) (?v + delta) (even_split fl ss pool)"
        using assms(5) d by (simp add: rebalance_bonus_def Let_def)
      then have "?total = pool - max fl ?v + max fl (?v + delta)"
        using sum_list_update_new[OF v, of "max fl"] sum_split[OF assms(1) ne assms(3) True] keys_even_split[OF assms(1)] assms(1)
        by simp
      then have "pool < ?total" using share_floor[OF n True, of 0] d by simp
      then have "new = assign_each (\<lambda>i s. fl + ((pool - fl * ?n) div ?n + (if int i < (pool - fl * ?n) mod ?n then 1 else 0))) 0 ss
          (assign_each (\<lambda>i s. max fl (case map_of bonus s of None \<Rightarrow> 0 | Some v \<Rightarrow> v)) 0 ss bonus)"
        using assms(3,6) True by (simp add: rebalance_cap_def Let_def)
      then show ?thesis using True share_above_floor[OF n] by (simp add: assign_each_map_of[OF assms(1,2)])
    next
      case False
      then have "bonus = even_split fl ss pool" using assms(5) by (simp add: rebalance_bonus_def)
      moreover from this have "new = bonus"
        using assms(6) sum_split[OF assms(1) ne assms(3) True] by (simp add: rebalance_cap_def)
      ultimately show ?thesis using even_split_at[OF assms(1,2) True] True by simp
    qed
  next
    case False
    have "length bonus = length ss"
    proof -
      have k: "map fst (even_split fl ss pool) = ss" by (rule keys_even_split[OF assms(1)])
      then have "hd ss \<in> set (map fst (even_split fl ss pool))" using ne by simp
      then have "length (AList.update (hd ss) x (even_split fl ss pool)) = length ss" for x
        using k by (metis length_map update_keys)
      moreover have "length (even_split fl ss pool) = length ss" using k by (metis length_map)
      ultimately show ?thesis using assms(5) by (auto simp: rebalance_bonus_def Let_def split: if_splits)
    qed
    then have "fl * ?n \<le> ?total" using sum_list_at_least[of bonus fl "max fl \<circ> snd"] by simp
    then have "new = assign_each (\<lambda>i s. fl) 0 ss
        (assign_each (\<lambda>i s. max fl (case map_of bonus s of None \<Rightarrow> 0 | Some v \<Rightarrow> v)) 0 ss bonus)"
      using assms(3,6) False by (simp add: rebalance_cap_def Let_def)
    then show ?thesis using False by (simp add: assign_each_map_of[OF assms(1,2)])
  qed
qed

section \<open>The budget as a whole\<close>

definition budget_ok :: "workflow_budget \<Rightarrow> bool" where
  "budget_ok b =
     (distinct (wb_steps b) \<and> distinct (wb_pending b) \<and> 0 \<le> wb_min_floor b \<and>
      set (map fst (wb_usage b)) \<union> set (wb_pending b) = set (wb_steps b) \<and>
      set (map fst (wb_usage b)) \<inter> set (wb_pending b) = {} \<and> distinct (map fst (wb_usage b)) \<and>
      set (wb_steps b) \<subseteq> set (map fst (wb_allocations b)) \<and>
      wb_remaining b = max 0 (wb_total b - sum_list (map snd (wb_usage b))))"

lemma assign_each_keys: "set (map fst (assign_each f k ss d)) = set (map fst d) \<union> set ss"
  by (induction f k ss d rule: assign_each.induct) (auto simp: update_keys split: if_splits)

lemma rebalance_frame:
  "rebalance step delta b = (es, b') \<Longrightarrow>
   wb_pending b' = wb_pending b \<and> wb_usage b' = wb_usage b \<and> wb_remaining b' = wb_remaining b \<and> wb_total b' = wb_total b \<and>
   wb_steps b' = wb_steps b \<and> wb_min_floor b' = wb_min_floor b \<and>
   set (map fst (wb_allocations b)) \<subseteq> set (map fst (wb_allocations b'))"
proof -
  have sub: "set (map fst d) \<subseteq> set (map fst (assign_each f k ss d))" for f k ss d
    unfolding assign_each_keys by blast
  assume "rebalance step delta b = (es, b')"
  then consider "b' = b" | f where "b' = b\<lparr>wb_allocations := assign_each f 0 (wb_pending b) (wb_allocations b)\<rparr>"
    unfolding rebalance_def by (auto split: if_splits prod.splits)
  then show ?thesis using sub by cases simp_all
qed

lemma record_usageE:
  assumes "record_usage step used b = (Inr es, b')"
  obtains allocation es' where "step \<in> set (wb_pending b)" "0 \<le> used"
    "rebalance step (allocation - used)
       (b\<lparr>wb_usage := AList.update step used (wb_usage b), wb_pending := remove1 step (wb_pending b),
          wb_remaining := max 0 (wb_remaining b - used)\<rparr>) = (es', b')"
  using assms by (auto simp: record_usage_def Let_def split: if_splits option.splits prod.splits)

lemma record_usage_ok:
  assumes "budget_ok b"
  shows "budget_ok (snd (record_usage step used b))"
proof (cases "fst (record_usage step used b)")
  case (Inl e)
  then have "snd (record_usage step used b) = b"
    by (auto simp: record_usage_def Let_def split: if_splits option.splits prod.splits)
  with assms show ?thesis by simp
next
  case (Inr es)
  define b' where "b' = snd (record_usage step used b)"
  have "record_usage step used b = (Inr es, b')" using Inr by (simp add: b'_def prod_eq_iff)
  then obtain allocation es' where r: "step \<in> set (wb_pending b)" "0 \<le> used"
    "rebalance step (allocation - used)
       (b\<lparr>wb_usage := AList.update step used (wb_usage b), wb_pending := remove1 step (wb_pending b),
          wb_remaining := max 0 (wb_remaining b - used)\<rparr>) = (es', b')"
    by (rule record_usageE)
  note f = rebalance_frame[OF r(3)]
  have new: "map_of (wb_usage b) step = None" using assms r(1) by (auto simp: budget_ok_def map_of_eq_None_iff)
  have u: "wb_usage b' = wb_usage b @ [(step, used)]" using f update_new[OF new] by simp
  have p: "wb_pending b' = remove1 step (wb_pending b)" "set (wb_pending b') = set (wb_pending b) - {step}"
    using f assms by (simp_all add: budget_ok_def)
  have "sum_list (map snd (wb_usage b')) = sum_list (map snd (wb_usage b)) + used" by (simp add: u)
  moreover have "wb_remaining b' = max 0 (wb_remaining b - used)" "wb_total b' = wb_total b" using f by simp_all
  moreover have "wb_remaining b = max 0 (wb_total b - sum_list (map snd (wb_usage b)))" using assms by (simp add: budget_ok_def)
  ultimately have "wb_remaining b' = max 0 (wb_total b' - sum_list (map snd (wb_usage b')))" using r(2) by simp
  then have "budget_ok b'"
    using assms u p f r(1) unfolding budget_ok_def by auto
  then show ?thesis by (simp add: b'_def)
qed

text \<open>
  What a recorded usage leaves to the pending steps.  Each of them is given its even share of
  what remains, the first ones one token more, if that is at least the floor for everyone, and the
  shares add up to exactly what remains; otherwise each is given the floor.  The surplus or deficit
  of the reporting step makes no difference: the bonus of an underspending step is announced in
  an event but the cap takes it back.
\<close>

lemma record_usage_splits_evenly:
  assumes "budget_ok b" "record_usage step used b = (Inr es, b')" "wb_pending b' \<noteq> []"
  shows "map (\<lambda>s. step_allocation s b') (wb_pending b') =
           map (\<lambda>k. Inr (if wb_min_floor b * int (length (wb_pending b')) \<le> wb_remaining b'
                         then share (wb_remaining b') (int (length (wb_pending b'))) k else wb_min_floor b))
             [0..<length (wb_pending b')] \<and>
         sum_list (map (share (wb_remaining b') (int (length (wb_pending b')))) [0..<length (wb_pending b')]) = wb_remaining b'"
proof
  obtain allocation es' where r: "step \<in> set (wb_pending b)" "0 \<le> used"
    "rebalance step (allocation - used)
       (b\<lparr>wb_usage := AList.update step used (wb_usage b), wb_pending := remove1 step (wb_pending b),
          wb_remaining := max 0 (wb_remaining b - used)\<rparr>) = (es', b')"
    using record_usageE[OF assms(2)] by blast
  note f = rebalance_frame[OF r(3)]
  let ?p = "wb_pending b'" and ?R = "wb_remaining b'" and ?fl = "wb_min_floor b"
  have d: "distinct ?p" "0 \<le> ?R" "0 \<le> ?fl" using f assms(1) by (auto simp: budget_ok_def)
  obtain bonus e where b1: "rebalance_bonus step (allocation - used) ?p (even_split ?fl ?p ?R) = (bonus, e)" by fastforce
  obtain new es1 where b2: "rebalance_cap step ?fl ?R ?p bonus = (new, es1)" by fastforce
  have al: "wb_allocations b' = assign_each (\<lambda>i s. case map_of new s of None \<Rightarrow> ?fl | Some v \<Rightarrow> v) 0 ?p (wb_allocations b)"
  proof -
    have b1': "rebalance_bonus step (allocation - used) (remove1 step (wb_pending b))
        (even_split ?fl (remove1 step (wb_pending b)) (max 0 (wb_remaining b - used))) = (bonus, e)"
      and b2': "rebalance_cap step ?fl (max 0 (wb_remaining b - used)) (remove1 step (wb_pending b)) bonus = (new, es1)"
      and p: "?p = remove1 step (wb_pending b)"
      using f b1 b2 by simp_all
    from r(3) assms(3) p show ?thesis by (auto simp: rebalance_def b1' b2' cong: option.case_cong)
  qed
  have "step_allocation (?p ! k) b' = Inr (if ?fl * int (length ?p) \<le> ?R then share ?R (int (length ?p)) k else ?fl)"
    if "k < length ?p" for k
    using rebalance_at[OF d(1) that d(2,3) b1 b2] by (simp add: step_allocation_def al assign_each_map_of[OF d(1) that])
  then show "map (\<lambda>s. step_allocation s b') ?p =
      map (\<lambda>k. Inr (if ?fl * int (length ?p) \<le> ?R then share ?R (int (length ?p)) k else ?fl)) [0..<length ?p]"
    by (intro nth_equalityI) auto
  show "sum_list (map (share ?R (int (length ?p))) [0..<length ?p]) = ?R"
    using sum_shares[OF d(2), of "length ?p"] assms(3) by simp
qed

definition example_budget :: workflow_budget where
  "example_budget = (case WorkflowBudget 8000 [''fetch'', ''compress'', ''summarise'', ''write'']
      MIN_FLOOR_TOKENS WARN_OVERSPEND_PCT CRITICAL_REMAINING_PCT of Inr b \<Rightarrow> b)"

lemma WorkflowBudget_ok:
  "WorkflowBudget tot steps fl wp cp = Inr b \<Longrightarrow> distinct steps \<Longrightarrow> budget_ok b"
  by (auto simp: WorkflowBudget_def budget_ok_def keys_even_split split: if_splits)
    (metis image_set keys_even_split)

theorem record_usage_splits_evenly_witness:
  "\<exists>es b'. record_usage ''fetch'' 1500 example_budget = (Inr es, b') \<and> wb_remaining b' = 6500 \<and>
     step_allocation ''compress'' b' = Inr 2167 \<and> step_allocation ''write'' b' = Inr 2166"
proof -
  have ok: "budget_ok example_budget"
    by (rule WorkflowBudget_ok[of 8000 "[''fetch'', ''compress'', ''summarise'', ''write'']" MIN_FLOOR_TOKENS WARN_OVERSPEND_PCT CRITICAL_REMAINING_PCT])
      (simp_all add: example_budget_def WorkflowBudget_def MIN_FLOOR_TOKENS_def)
  have "case record_usage ''fetch'' 1500 example_budget of (Inr es, b') \<Rightarrow>
      wb_pending b' = [''compress'', ''summarise'', ''write''] \<and> wb_remaining b' = 6500 \<and> wb_min_floor b' = 100 | _ \<Rightarrow> False"
    by code_simp
  then obtain es b' where r: "record_usage ''fetch'' 1500 example_budget = (Inr es, b')"
      "wb_pending b' = [''compress'', ''summarise'', ''write'']" "wb_remaining b' = 6500"
    by (auto split: prod.splits sum.splits)
  have fl: "wb_min_floor example_budget = 100" by code_simp
  show ?thesis
    using record_usage_splits_evenly[OF ok r(1)] r fl by (simp add: upt_rec share_def)
qed

definition usage_run :: "(string \<times> int) list \<Rightarrow> workflow_budget \<Rightarrow> workflow_budget" where
  "usage_run = fold (\<lambda>(s, n) b. snd (record_usage s n b))"

lemma usage_run_ok: "budget_ok b \<Longrightarrow> budget_ok (usage_run rs b)"
  unfolding usage_run_def by (induction rs arbitrary: b) (auto simp: record_usage_ok)

lemma record_usage_fixed:
  "wb_total (snd (record_usage s n b)) = wb_total b \<and> wb_steps (snd (record_usage s n b)) = wb_steps b"
  by (auto simp: record_usage_def Let_def dest!: rebalance_frame split: option.splits prod.splits)

lemma usage_run_fixed: "wb_total (usage_run rs b) = wb_total b \<and> wb_steps (usage_run rs b) = wb_steps b"
  unfolding usage_run_def by (induction rs arbitrary: b) (auto simp: record_usage_fixed)



end
