(* ===== verification/File_Locks.thy ===== *)
theory File_Locks
  imports Prelude
begin

text \<open>
  File locks between agents (\<^verbatim>\<open>orchestration/locks.py\<close>).  The lock directory is an association list
  from file stems to their contents; a lock file is replaced atomically.  Paths are resolved ones;
  the digest is a parameter.  A claim reads the lock file and later writes it, in two steps that
  other processes can come between; the other operations are single steps.
\<close>

section \<open>Records and files\<close>

record lock_record =
  lk_path :: string
  lk_agent :: string
  lk_acquired :: secs
  lk_expires :: secs
  lk_pid :: int
  lk_renewed :: "secs option"

text \<open>A file that does not parse as an object reads as no lock.\<close>

datatype lock_file = Lock_file lock_record | Unparsable

type_synonym lock_dir = "(string, lock_file) dict"

record lock_manager =
  lm_agent :: string
  lm_pid :: int
  lm_timeout :: secs

definition DEFAULT_TIMEOUT_S :: secs where "DEFAULT_TIMEOUT_S = 600"

definition lock_key :: "(string \<Rightarrow> string) \<Rightarrow> string \<Rightarrow> string" where
  "lock_key digest path = take 16 (digest path)"

definition read_lock :: "string \<Rightarrow> lock_dir \<Rightarrow> lock_record option" where
  "read_lock key dir = (case map_of dir key of Some (Lock_file r) \<Rightarrow> Some r | _ \<Rightarrow> None)"

definition write_lock :: "string \<Rightarrow> lock_record \<Rightarrow> lock_dir \<Rightarrow> lock_dir" where
  "write_lock key r dir = AList.update key (Lock_file r) dir"

section \<open>Operations\<close>

definition claim_check :: "(string \<Rightarrow> string) \<Rightarrow> lock_manager \<Rightarrow> string \<Rightarrow> secs \<Rightarrow> lock_dir \<Rightarrow> py_error + unit" where
  "claim_check digest m path now dir =
     (case read_lock (lock_key digest path) dir of
        None \<Rightarrow> Inr ()
      | Some r \<Rightarrow> if now < lk_expires r \<and> lk_agent r \<noteq> lm_agent m then Inl (LockConflictError path) else Inr ())"

definition claim_write ::
  "(string \<Rightarrow> string) \<Rightarrow> lock_manager \<Rightarrow> string \<Rightarrow> secs option \<Rightarrow> secs \<Rightarrow> lock_dir \<Rightarrow> lock_record \<times> lock_dir" where
  "claim_write digest m path timeout now dir =
     (let r = \<lparr>lk_path = path, lk_agent = lm_agent m, lk_acquired = now,
               lk_expires = now + (case timeout of None \<Rightarrow> lm_timeout m | Some t \<Rightarrow> t), lk_pid = lm_pid m, lk_renewed = None\<rparr>
      in (r, write_lock (lock_key digest path) r dir))"

definition claim ::
  "(string \<Rightarrow> string) \<Rightarrow> lock_manager \<Rightarrow> string \<Rightarrow> secs option \<Rightarrow> secs \<Rightarrow> lock_dir \<Rightarrow> (py_error + lock_record) \<times> lock_dir" where
  "claim digest m path timeout now dir =
     (case claim_check digest m path now dir of
        Inl e \<Rightarrow> (Inl e, dir)
      | Inr _ \<Rightarrow> (case claim_write digest m path timeout now dir of (r, dir') \<Rightarrow> (Inr r, dir')))"

definition release_lock :: "(string \<Rightarrow> string) \<Rightarrow> lock_manager \<Rightarrow> string \<Rightarrow> lock_dir \<Rightarrow> bool \<times> lock_dir" where
  "release_lock digest m path dir =
     (case read_lock (lock_key digest path) dir of
        None \<Rightarrow> (False, dir)
      | Some r \<Rightarrow> if lk_agent r \<noteq> lm_agent m then (False, dir) else (True, AList.delete (lock_key digest path) dir))"

definition query_lock :: "(string \<Rightarrow> string) \<Rightarrow> string \<Rightarrow> secs \<Rightarrow> lock_dir \<Rightarrow> lock_record option \<times> lock_dir" where
  "query_lock digest path now dir =
     (case read_lock (lock_key digest path) dir of
        None \<Rightarrow> (None, dir)
      | Some r \<Rightarrow> if lk_expires r \<le> now then (None, AList.delete (lock_key digest path) dir) else (Some r, dir))"

definition is_live :: "secs \<Rightarrow> lock_file \<Rightarrow> bool" where
  "is_live now f = (case f of Lock_file r \<Rightarrow> now < lk_expires r | Unparsable \<Rightarrow> False)"

definition prune_expired :: "secs \<Rightarrow> lock_dir \<Rightarrow> nat \<times> lock_dir" where
  "prune_expired now dir =
     (length (filter (\<lambda>(k, f). \<not> is_live now f) dir), filter (\<lambda>(k, f). is_live now f) dir)"

definition locks :: "secs \<Rightarrow> lock_dir \<Rightarrow> lock_record list \<times> lock_dir" where
  "locks now dir =
     (let dir' = snd (prune_expired now dir) in
      (sort_key lk_acquired (List.map_filter (\<lambda>(k, f). case f of Lock_file r \<Rightarrow> Some r | Unparsable \<Rightarrow> None) dir'), dir'))"

fun suggest_alternatives :: "(string \<Rightarrow> string) \<Rightarrow> string list \<Rightarrow> secs \<Rightarrow> lock_dir \<Rightarrow> string list \<times> lock_dir" where
  "suggest_alternatives digest [] now dir = ([], dir)"
| "suggest_alternatives digest (c # cs) now dir =
     (case query_lock digest c now dir of
        (r, d1) \<Rightarrow> (case suggest_alternatives digest cs now d1 of
                    (rest, d2) \<Rightarrow> (if r = None then c # rest else rest, d2)))"

definition renew ::
  "(string \<Rightarrow> string) \<Rightarrow> lock_manager \<Rightarrow> string \<Rightarrow> secs option \<Rightarrow> secs \<Rightarrow> lock_dir \<Rightarrow> (py_error + lock_record) \<times> lock_dir" where
  "renew digest m path timeout now dir =
     (let key = lock_key digest path in
      case read_lock key dir of
        None \<Rightarrow> (Inl (LockExpiredError path), dir)
      | Some r \<Rightarrow>
          if lk_expires r \<le> now then (Inl (LockExpiredError path), AList.delete key dir)
          else if lk_agent r \<noteq> lm_agent m then (Inl (LockConflictError path), dir)
          else let r' = r\<lparr>lk_expires := now + (case timeout of None \<Rightarrow> lm_timeout m | Some t \<Rightarrow> t), lk_renewed := Some now\<rparr>
               in (Inr r', write_lock key r' dir))"

section \<open>Other agents' operations leave a live lock alone\<close>

datatype lock_op =
    L_claim lock_manager string "secs option" secs
  | L_release lock_manager string
  | L_query string secs
  | L_prune secs
  | L_list secs
  | L_suggest "string list" secs
  | L_renew lock_manager string "secs option" secs

fun lock_step :: "(string \<Rightarrow> string) \<Rightarrow> lock_op \<Rightarrow> lock_dir \<Rightarrow> lock_dir" where
  "lock_step digest (L_claim m path t now) dir = snd (claim digest m path t now dir)"
| "lock_step digest (L_release m path) dir = snd (release_lock digest m path dir)"
| "lock_step digest (L_query path now) dir = snd (query_lock digest path now dir)"
| "lock_step digest (L_prune now) dir = snd (prune_expired now dir)"
| "lock_step digest (L_list now) dir = snd (locks now dir)"
| "lock_step digest (L_suggest cs now) dir = snd (suggest_alternatives digest cs now dir)"
| "lock_step digest (L_renew m path t now) dir = snd (renew digest m path t now dir)"

text \<open>An operation of another agent than \<open>agent\<close>, or of no agent, before time \<open>e\<close>.\<close>

fun foreign :: "string \<Rightarrow> secs \<Rightarrow> lock_op \<Rightarrow> bool" where
  "foreign agent e (L_claim m path t now) = (lm_agent m \<noteq> agent \<and> now < e)"
| "foreign agent e (L_release m path) = (lm_agent m \<noteq> agent)"
| "foreign agent e (L_query path now) = (now < e)"
| "foreign agent e (L_prune now) = (now < e)"
| "foreign agent e (L_list now) = (now < e)"
| "foreign agent e (L_suggest cs now) = (now < e)"
| "foreign agent e (L_renew m path t now) = (lm_agent m \<noteq> agent \<and> now < e)"

lemma read_lock_update [simp]:
  "read_lock k (write_lock j r dir) = (if k = j then Some r else read_lock k dir)"
  "read_lock k (AList.delete j dir) = (if k = j then None else read_lock k dir)"
  by (auto simp: read_lock_def write_lock_def)

lemma read_lock_pruned:
  "read_lock k dir = Some r \<Longrightarrow> now < lk_expires r \<Longrightarrow> read_lock k (snd (prune_expired now dir)) = Some r"
  unfolding read_lock_def prune_expired_def
  by (induction dir) (auto simp: is_live_def split: option.splits lock_file.splits if_splits)

lemma query_keeps:
  "read_lock k dir = Some r \<Longrightarrow> now < lk_expires r \<Longrightarrow> read_lock k (snd (query_lock digest path now dir)) = Some r"
  by (auto simp: query_lock_def split: option.splits)

lemma suggest_keeps:
  "read_lock k dir = Some r \<Longrightarrow> now < lk_expires r \<Longrightarrow> read_lock k (snd (suggest_alternatives digest cs now dir)) = Some r"
proof (induction digest cs now dir rule: suggest_alternatives.induct)
  case (2 digest c cs now dir)
  obtain q d1 where q: "query_lock digest c now dir = (q, d1)" by fastforce
  then have "read_lock k d1 = Some r" using query_keeps[OF 2(2,3), of digest c] by simp
  then show ?case using 2 q by (auto split: prod.splits)
qed simp

lemma foreign_step:
  assumes "read_lock k dir = Some r" "foreign (lk_agent r) (lk_expires r) op"
  shows "read_lock k (lock_step digest op dir) = Some r"
  using assms read_lock_pruned query_keeps suggest_keeps
  by (cases op) (auto simp: claim_def claim_check_def claim_write_def release_lock_def renew_def locks_def Let_def
      split: option.splits)

lemma foreign_run:
  "read_lock k dir = Some r \<Longrightarrow> \<forall>op \<in> set ops. foreign (lk_agent r) (lk_expires r) op \<Longrightarrow>
   read_lock k (fold (lock_step digest) ops dir) = Some r"
  by (induction ops arbitrary: dir) (simp_all add: foreign_step)


definition example_agent :: "string \<Rightarrow> lock_manager" where
  "example_agent a = \<lparr>lm_agent = a, lm_pid = 1, lm_timeout = DEFAULT_TIMEOUT_S\<rparr>"


section \<open>Two claims at once\<close>

text \<open>
  The claim is not atomic.  If two agents check a free path before either of them writes, both
  checks pass and both claims succeed: each is returned a lock record that is live, and only the
  file of the later one remains.
\<close>

lemma concurrent_claims_both_granted:
  assumes "read_lock (lock_key digest path) dir = None" "lm_agent m1 \<noteq> lm_agent m2" "0 < lm_timeout m1" "0 < lm_timeout m2"
    "claim_write digest m1 path None now dir = (r1, dir1)" "claim_write digest m2 path None now dir1 = (r2, dir2)"
  shows "claim_check digest m1 path now dir = Inr () \<and> claim_check digest m2 path now dir = Inr () \<and>
         now < lk_expires r1 \<and> now < lk_expires r2 \<and> lk_path r1 = path \<and> lk_path r2 = path \<and>
         lk_agent r1 \<noteq> lk_agent r2 \<and> read_lock (lock_key digest path) dir2 = Some r2"
  using assms by (auto simp: claim_check_def claim_write_def Let_def)

theorem concurrent_claims_both_granted_witness:
  "\<exists>r1 dir1 r2 dir2. claim_write (\<lambda>p. p) (example_agent ''a'') ''/f'' None 0 [] = (r1, dir1) \<and>
     claim_write (\<lambda>p. p) (example_agent ''b'') ''/f'' None 0 dir1 = (r2, dir2) \<and>
     claim_check (\<lambda>p. p) (example_agent ''a'') ''/f'' 0 [] = Inr () \<and> claim_check (\<lambda>p. p) (example_agent ''b'') ''/f'' 0 [] = Inr () \<and>
     0 < lk_expires r1 \<and> 0 < lk_expires r2"
proof -
  obtain r1 dir1 where c1: "claim_write (\<lambda>p. p) (example_agent ''a'') ''/f'' None 0 [] = (r1, dir1)" by fastforce
  obtain r2 dir2 where c2: "claim_write (\<lambda>p. p) (example_agent ''b'') ''/f'' None 0 dir1 = (r2, dir2)" by fastforce
  show ?thesis
    using concurrent_claims_both_granted[OF _ _ _ _ c1 c2] c1 c2
    by (simp add: read_lock_def example_agent_def DEFAULT_TIMEOUT_S_def Let_def)
qed

end
