(* ===== verification/Handoff.thy ===== *)
theory Handoff
  imports Workflow "HOL-Library.Sublist"
begin

text \<open>
  Context handed from one agent to another (\<^verbatim>\<open>orchestration/handoff.py\<close>): handoffs kept as one JSON file
  each, with a life from pending over received to applied, and packs of blocks with their wire
  format.  A directory is an association list from file stems to decoded documents, \<open>None\<close> for text
  that is no JSON.  Whether a path exists is a parameter; an operation reads the clock once.  A field
  of a document with the wrong JSON type, which the code would keep as it is, makes the document
  unreadable here.
\<close>

section \<open>Data\<close>

definition DEFAULT_TTL_HOURS :: rat where "DEFAULT_TTL_HOURS = 24"

definition REGISTERED_AGENTS :: "string list" where
  "REGISTERED_AGENTS = [''cali'', ''sue'', ''trix'', ''operator'']"

datatype handoff_status = H_PENDING | H_RECEIVED | H_APPLIED | H_EXPIRED | H_INVALID

fun handoff_status_value :: "handoff_status \<Rightarrow> string" where
  "handoff_status_value H_PENDING = ''pending''"
| "handoff_status_value H_RECEIVED = ''received''"
| "handoff_status_value H_APPLIED = ''applied''"
| "handoff_status_value H_EXPIRED = ''expired''"
| "handoff_status_value H_INVALID = ''invalid''"

definition handoff_status_of :: "string \<Rightarrow> handoff_status option" where
  "handoff_status_of s = find (\<lambda>x. handoff_status_value x = s) [H_PENDING, H_RECEIVED, H_APPLIED, H_EXPIRED, H_INVALID]"

record context_ref =
  cr_type :: string
  cr_path :: string
  cr_description :: string
  cr_valid :: "bool option"

record handoff =
  ho_id :: string
  ho_from_agent :: string
  ho_to_agent :: string
  ho_context_refs :: "context_ref list"
  ho_status :: handoff_status
  ho_created_at :: secs
  ho_expires_at :: secs
  ho_received_at :: "secs option"
  ho_applied_at :: "secs option"
  ho_summary :: string
  ho_what_was_done :: string
  ho_whats_next :: string
  ho_relevant_files :: "string list"
  ho_metadata :: "(string, json) dict"

section \<open>Documents\<close>

definition j_bool_opt :: "bool option \<Rightarrow> json" where
  "j_bool_opt b = (case b of None \<Rightarrow> J_null | Some x \<Rightarrow> J_bool x)"

fun as_bool_opt :: "json \<Rightarrow> bool option option" where
  "as_bool_opt J_null = Some None"
| "as_bool_opt (J_bool b) = Some (Some b)"
| "as_bool_opt _ = None"

definition ref_to_dict :: "context_ref \<Rightarrow> json" where
  "ref_to_dict r = J_obj [(''type'', J_str (cr_type r)), (''path'', J_str (cr_path r)),
     (''description'', J_str (cr_description r)), (''valid'', j_bool_opt (cr_valid r))]"

definition handoff_to_dict :: "handoff \<Rightarrow> json" where
  "handoff_to_dict h = J_obj
     [(''id'', J_str (ho_id h)), (''from_agent'', J_str (ho_from_agent h)), (''to_agent'', J_str (ho_to_agent h)),
      (''context_refs'', J_list (map ref_to_dict (ho_context_refs h))), (''status'', J_str (handoff_status_value (ho_status h))),
      (''created_at'', J_float (ho_created_at h)), (''expires_at'', J_float (ho_expires_at h)),
      (''received_at'', j_secs (ho_received_at h)), (''applied_at'', j_secs (ho_applied_at h)),
      (''summary'', J_str (ho_summary h)), (''what_was_done'', J_str (ho_what_was_done h)),
      (''whats_next'', J_str (ho_whats_next h)), (''relevant_files'', j_strs (ho_relevant_files h)),
      (''metadata'', J_obj (ho_metadata h))]"

text \<open>A missing key raises \<^verbatim>\<open>KeyError\<close>, an unknown status \<^verbatim>\<open>ValueError\<close>.\<close>

definition typed :: "'a option \<Rightarrow> py_error + 'a" where
  "typed v = (case v of None \<Rightarrow> Inl (TypeError ''unexpected JSON type'') | Some x \<Rightarrow> Inr x)"

definition mapping_of :: "json \<Rightarrow> py_error + (string, json) dict" where
  "mapping_of j = (case as_obj j of None \<Rightarrow> Inl (AttributeError ''get'') | Some d \<Rightarrow> Inr d)"

definition required :: "(string, json) dict \<Rightarrow> string \<Rightarrow> py_error + json" where
  "required d k = (case map_of d k of None \<Rightarrow> Inl (KeyError k) | Some v \<Rightarrow> Inr v)"

definition ref_from_dict :: "json \<Rightarrow> py_error + context_ref" where
  "ref_from_dict j =
     ebind (typed (as_obj j)) (\<lambda>d.
     ebind (required d ''type'') (\<lambda>tv. ebind (typed (as_str tv)) (\<lambda>ty.
     ebind (required d ''path'') (\<lambda>pv. ebind (typed (as_str pv)) (\<lambda>path.
     ebind (typed (as_str (field_or d ''description'' (J_str [])))) (\<lambda>description.
     ebind (typed (as_bool_opt (field_or d ''valid'' J_null))) (\<lambda>valid.
       Inr \<lparr>cr_type = ty, cr_path = path, cr_description = description, cr_valid = valid\<rparr>)))))))"

fun each_ok :: "('a \<Rightarrow> 'e + 'b) \<Rightarrow> 'a list \<Rightarrow> 'e + 'b list" where
  "each_ok f [] = Inr []"
| "each_ok f (x # xs) = ebind (f x) (\<lambda>y. ebind (each_ok f xs) (\<lambda>ys. Inr (y # ys)))"

definition handoff_from_dict :: "secs \<Rightarrow> json \<Rightarrow> py_error + handoff" where
  "handoff_from_dict now j =
     ebind (mapping_of j) (\<lambda>d.
     ebind (required d ''id'') (\<lambda>iv. ebind (typed (as_str iv)) (\<lambda>id.
     ebind (required d ''from_agent'') (\<lambda>fv. ebind (typed (as_str fv)) (\<lambda>from_agent.
     ebind (required d ''to_agent'') (\<lambda>tv. ebind (typed (as_str tv)) (\<lambda>to_agent.
     ebind (typed (as_list (field_or d ''context_refs'' (J_list [])))) (\<lambda>raw.
     ebind (each_ok ref_from_dict raw) (\<lambda>refs.
     ebind (typed (as_str (field_or d ''status'' (J_str ''pending'')))) (\<lambda>sv.
     ebind (case handoff_status_of sv of None \<Rightarrow> Inl (ValueError sv) | Some s \<Rightarrow> Inr s) (\<lambda>status.
     ebind (typed (as_secs (field_or d ''created_at'' (J_float now)))) (\<lambda>created_at.
     ebind (typed (as_secs (field_or d ''expires_at'' (J_float (now + DEFAULT_TTL_HOURS * 3600))))) (\<lambda>expires_at.
     ebind (typed (as_secs_opt (field_or d ''received_at'' J_null))) (\<lambda>received_at.
     ebind (typed (as_secs_opt (field_or d ''applied_at'' J_null))) (\<lambda>applied_at.
     ebind (typed (as_str (field_or d ''summary'' (J_str [])))) (\<lambda>summary.
     ebind (typed (as_str (field_or d ''what_was_done'' (J_str [])))) (\<lambda>what_was_done.
     ebind (typed (as_str (field_or d ''whats_next'' (J_str [])))) (\<lambda>whats_next.
     ebind (typed (as_strs (field_or d ''relevant_files'' (J_list [])))) (\<lambda>relevant_files.
     ebind (typed (as_obj (field_or d ''metadata'' (J_obj [])))) (\<lambda>metadata.
       Inr \<lparr>ho_id = id, ho_from_agent = from_agent, ho_to_agent = to_agent, ho_context_refs = refs, ho_status = status,
            ho_created_at = created_at, ho_expires_at = expires_at, ho_received_at = received_at, ho_applied_at = applied_at,
            ho_summary = summary, ho_what_was_done = what_was_done, ho_whats_next = whats_next,
            ho_relevant_files = relevant_files, ho_metadata = metadata\<rparr>))))))))))))))))))))"

definition is_expired :: "secs \<Rightarrow> handoff \<Rightarrow> bool" where
  "is_expired now h = (ho_expires_at h < now)"

definition ttl_remaining_s :: "secs \<Rightarrow> handoff \<Rightarrow> secs" where
  "ttl_remaining_s now h = max 0 (ho_expires_at h - now)"

fun join :: "string \<Rightarrow> string list \<Rightarrow> string" where
  "join sep [] = []"
| "join sep [x] = x"
| "join sep (x # y # xs) = x @ sep @ join sep (y # xs)"

definition generate_summary :: "string \<Rightarrow> string \<Rightarrow> string list \<Rightarrow> string" where
  "generate_summary what_was_done whats_next relevant_files =
     (let parts =
        (if what_was_done = [] then [] else [''Done: '' @ what_was_done]) @
        (if whats_next = [] then [] else [''Next: '' @ whats_next]) @
        (if relevant_files = [] then []
         else [''Files: '' @ join '', '' (take 5 relevant_files) @
               (if 5 < length relevant_files then '' (+'' @ show_nat (length relevant_files - 5) @ '' more)'' else [])])
      in if parts = [] then ''(no summary)'' else join '' | '' parts)"

section \<open>The manager\<close>

type_synonym handoff_dir = "(string, json option) dict"

definition ho_save :: "handoff \<Rightarrow> handoff_dir \<Rightarrow> handoff_dir" where
  "ho_save h dir = AList.update (ho_id h) (Some (handoff_to_dict h)) dir"

text \<open>No file, no JSON, a missing key or a wrong type is no handoff; an unknown status or
  a document that is no object raises.\<close>

definition ho_load :: "secs \<Rightarrow> string \<Rightarrow> handoff_dir \<Rightarrow> py_error + handoff option" where
  "ho_load now i dir =
     (case map_of dir i of
        None \<Rightarrow> Inr None
      | Some None \<Rightarrow> Inr None
      | Some (Some j) \<Rightarrow>
          (case handoff_from_dict now j of
             Inr h \<Rightarrow> Inr (Some h)
           | Inl (KeyError _) \<Rightarrow> Inr None
           | Inl (TypeError _) \<Rightarrow> Inr None
           | Inl e \<Rightarrow> Inl e))"

definition create_handoff ::
  "string \<Rightarrow> string \<Rightarrow> string \<Rightarrow> context_ref list \<Rightarrow> string \<Rightarrow> string \<Rightarrow> string list \<Rightarrow> rat \<Rightarrow> (string, json) dict \<Rightarrow> secs \<Rightarrow>
   handoff_dir \<Rightarrow> (py_error + handoff) \<times> handoff_dir" where
  "create_handoff i from_agent to_agent refs what_was_done whats_next files ttl_hours metadata now dir =
     (if from_agent \<notin> set REGISTERED_AGENTS then (Inl (ValueError (''Unknown from_agent '' @ from_agent)), dir)
      else if to_agent \<notin> set REGISTERED_AGENTS then (Inl (ValueError (''Unknown to_agent '' @ to_agent)), dir)
      else let h = \<lparr>ho_id = i, ho_from_agent = from_agent, ho_to_agent = to_agent, ho_context_refs = refs,
                    ho_status = H_PENDING, ho_created_at = now, ho_expires_at = now + ttl_hours * 3600,
                    ho_received_at = None, ho_applied_at = None,
                    ho_summary = generate_summary what_was_done whats_next files, ho_what_was_done = what_was_done,
                    ho_whats_next = whats_next, ho_relevant_files = files, ho_metadata = metadata\<rparr>
           in (Inr h, ho_save h dir))"

definition check_ref :: "(string \<Rightarrow> bool) \<Rightarrow> context_ref \<Rightarrow> context_ref" where
  "check_ref ex r = r\<lparr>cr_valid := Some (if cr_type r = ''file'' then ex (cr_path r) else True)\<rparr>"

definition received :: "(string \<Rightarrow> bool) \<Rightarrow> secs \<Rightarrow> handoff \<Rightarrow> handoff" where
  "received ex now h =
     (let refs = map (check_ref ex) (ho_context_refs h) in
      h\<lparr>ho_context_refs := refs,
        ho_status := (if list_all (\<lambda>r. cr_valid r = Some True) refs then H_RECEIVED else H_INVALID),
        ho_received_at := Some now\<rparr>)"

definition expired :: "handoff \<Rightarrow> handoff" where
  "expired h = h\<lparr>ho_status := H_EXPIRED\<rparr>"

definition receive_handoff ::
  "(string \<Rightarrow> bool) \<Rightarrow> secs \<Rightarrow> string \<Rightarrow> handoff_dir \<Rightarrow> (py_error + handoff) \<times> handoff_dir" where
  "receive_handoff ex now i dir =
     (case ho_load now i dir of
        Inl e \<Rightarrow> (Inl e, dir)
      | Inr None \<Rightarrow> (Inl (FileNotFoundError i), dir)
      | Inr (Some h) \<Rightarrow>
          if ho_status h = H_APPLIED then (Inr h, dir)
          else if is_expired now h \<or> ho_status h = H_EXPIRED
          then (Inl (ValueError (''Handoff '' @ i @ '' has expired'')), ho_save (expired h) dir)
          else let h' = received ex now h in (Inr h', ho_save h' dir))"

definition invalid_refs :: "string \<Rightarrow> py_error" where
  "invalid_refs i = ValueError (''Handoff '' @ i @ '' has invalid refs'')"

definition mark_applied :: "secs \<Rightarrow> handoff \<Rightarrow> handoff" where
  "mark_applied now h = h\<lparr>ho_status := H_APPLIED, ho_applied_at := Some now\<rparr>"

definition apply_handoff ::
  "(string \<Rightarrow> bool) \<Rightarrow> secs \<Rightarrow> string \<Rightarrow> handoff_dir \<Rightarrow> (py_error + handoff) \<times> handoff_dir" where
  "apply_handoff ex now i dir =
     (case ho_load now i dir of
        Inl e \<Rightarrow> (Inl e, dir)
      | Inr None \<Rightarrow> (Inl (FileNotFoundError i), dir)
      | Inr (Some h) \<Rightarrow>
          if ho_status h = H_APPLIED then (Inr h, dir)
          else if is_expired now h \<or> ho_status h = H_EXPIRED
          then (Inl (ValueError (''Handoff '' @ i @ '' has expired'')), ho_save (expired h) dir)
          else if ho_status h = H_INVALID then (Inl (invalid_refs i), dir)
          else (case (if ho_status h = H_PENDING then receive_handoff ex now i dir else (Inr h, dir)) of
                  (Inl e, d1) \<Rightarrow> (Inl e, d1)
                | (Inr h1, d1) \<Rightarrow>
                    if ho_status h = H_PENDING \<and> ho_status h1 = H_INVALID then (Inl (invalid_refs i), d1)
                    else let h2 = mark_applied now h1 in (Inr h2, ho_save h2 d1)))"

text \<open>One file of the sweep; a document that cannot be read is left alone.\<close>

definition sweep_file :: "secs \<Rightarrow> json option \<Rightarrow> json option \<times> bool" where
  "sweep_file now f =
     (case f of
        None \<Rightarrow> (None, False)
      | Some j \<Rightarrow>
          (case handoff_from_dict now j of
             Inl e \<Rightarrow> (Some j, False)
           | Inr h \<Rightarrow>
               if ho_status h \<notin> {H_APPLIED, H_EXPIRED} \<and> is_expired now h
               then (Some (handoff_to_dict (expired h)), True) else (Some j, False)))"

definition expire_stale :: "secs \<Rightarrow> handoff_dir \<Rightarrow> nat \<times> handoff_dir" where
  "expire_stale now dir =
     (length (filter (\<lambda>(i, f). snd (sweep_file now f)) dir), map (\<lambda>(i, f). (i, fst (sweep_file now f))) dir)"

definition matches :: "string option \<Rightarrow> string \<Rightarrow> bool" where
  "matches q v = (case q of None \<Rightarrow> True | Some [] \<Rightarrow> True | Some w \<Rightarrow> v = w)"

text \<open>The directory in the order of modification, newest first; unreadable files are passed over.\<close>

definition list_handoffs ::
  "secs \<Rightarrow> string option \<Rightarrow> string option \<Rightarrow> handoff_status option \<Rightarrow> handoff_dir \<Rightarrow> handoff list" where
  "list_handoffs now to_agent from_agent status newest_first =
     filter (\<lambda>h. matches to_agent (ho_to_agent h) \<and> matches from_agent (ho_from_agent h) \<and>
                 (case status of None \<Rightarrow> True | Some s \<Rightarrow> ho_status h = s))
       (List.map_filter (\<lambda>(i, f). Option.bind f (\<lambda>j. case handoff_from_dict now j of Inl _ \<Rightarrow> None | Inr h \<Rightarrow> Some h))
          newest_first)"

section \<open>Documents and handoffs\<close>

lemma ref_roundtrip [simp]: "ref_from_dict (ref_to_dict r) = Inr r"
  by (cases r, cases "cr_valid r")
    (simp_all add: ref_from_dict_def ref_to_dict_def typed_def required_def field_or_def ebind_def j_bool_opt_def)

lemma each_ok_map: "(\<And>x. f (g x) = Inr x) \<Longrightarrow> each_ok f (map g xs) = Inr xs"
  by (induction xs) (simp_all add: ebind_def)

lemma status_roundtrip [simp]: "handoff_status_of (handoff_status_value s) = Some s"
  by (cases s) (simp_all add: handoff_status_of_def)

lemma handoff_roundtrip [simp]: "handoff_from_dict now (handoff_to_dict h) = Inr h"
  by (cases h) (simp add: handoff_from_dict_def handoff_to_dict_def mapping_of_def typed_def required_def field_or_def
      ebind_def each_ok_map)

lemma handoff_to_dict_inject [simp]: "handoff_to_dict h = handoff_to_dict h' \<longleftrightarrow> h = h'"
  using handoff_roundtrip[of 0 h] handoff_roundtrip[of 0 h'] by (metis sum.inject(2))

section \<open>The life of a handoff\<close>

definition same_contents :: "handoff \<Rightarrow> handoff \<Rightarrow> bool" where
  "same_contents h h' \<longleftrightarrow>
     ho_id h' = ho_id h \<and> ho_from_agent h' = ho_from_agent h \<and> ho_to_agent h' = ho_to_agent h \<and>
     map (\<lambda>r. (cr_type r, cr_path r, cr_description r)) (ho_context_refs h') =
       map (\<lambda>r. (cr_type r, cr_path r, cr_description r)) (ho_context_refs h) \<and>
     ho_created_at h' = ho_created_at h \<and> ho_expires_at h' = ho_expires_at h \<and> ho_summary h' = ho_summary h \<and>
     ho_what_was_done h' = ho_what_was_done h \<and> ho_whats_next h' = ho_whats_next h \<and>
     ho_relevant_files h' = ho_relevant_files h \<and> ho_metadata h' = ho_metadata h"

definition final_handoff :: "handoff \<Rightarrow> bool" where
  "final_handoff h \<longleftrightarrow> ho_status h \<in> {H_APPLIED, H_EXPIRED}"

definition refs_valid :: "handoff \<Rightarrow> bool" where
  "refs_valid h \<longleftrightarrow> list_all (\<lambda>r. cr_valid r = Some True) (ho_context_refs h)"

fun life_ok :: "handoff_status \<Rightarrow> handoff \<Rightarrow> bool" where
  "life_ok H_PENDING h \<longleftrightarrow> ho_received_at h = None \<and> ho_applied_at h = None"
| "life_ok H_RECEIVED h \<longleftrightarrow> ho_received_at h \<noteq> None \<and> ho_applied_at h = None \<and> refs_valid h"
| "life_ok H_INVALID h \<longleftrightarrow> ho_received_at h \<noteq> None \<and> ho_applied_at h = None \<and> \<not> refs_valid h"
| "life_ok H_EXPIRED h \<longleftrightarrow> ho_applied_at h = None"
| "life_ok H_APPLIED h \<longleftrightarrow> ho_received_at h \<noteq> None \<and> refs_valid h \<and>
     (case ho_applied_at h of None \<Rightarrow> False | Some t \<Rightarrow> t \<le> ho_expires_at h)"

definition handoff_ok :: "handoff \<Rightarrow> bool" where
  "handoff_ok h \<longleftrightarrow> life_ok (ho_status h) h \<and> ho_from_agent h \<in> set REGISTERED_AGENTS \<and>
     ho_to_agent h \<in> set REGISTERED_AGENTS"

definition follows :: "handoff \<Rightarrow> handoff \<Rightarrow> bool" where
  "follows h h' \<longleftrightarrow> same_contents h h' \<and> (final_handoff h \<longrightarrow> h' = h)"

lemma follows_refl [simp]: "follows h h"
  by (simp add: follows_def same_contents_def)

lemma follows_trans: "follows h h' \<Longrightarrow> follows h' h'' \<Longrightarrow> follows h h''"
  by (auto simp: follows_def same_contents_def)

lemma expired_follows:
  assumes "ho_status h \<noteq> H_APPLIED"
  shows "follows h (expired h)"
  using assms by (cases h) (auto simp: follows_def final_handoff_def same_contents_def expired_def)

lemma life_not_applied: "life_ok s h \<Longrightarrow> s \<noteq> H_APPLIED \<Longrightarrow> ho_applied_at h = None"
  by (cases s) simp_all

lemma expired_ok:
  assumes "handoff_ok h" "ho_status h \<noteq> H_APPLIED"
  shows "handoff_ok (expired h)"
  using assms life_not_applied[of "ho_status h" h] by (simp add: handoff_ok_def expired_def)

lemma received_follows:
  assumes "\<not> final_handoff h"
  shows "follows h (received ex now h)"
  using assms by (simp add: follows_def same_contents_def received_def Let_def comp_def check_ref_def)

lemma received_ok:
  assumes "handoff_ok h" "\<not> final_handoff h"
  shows "handoff_ok (received ex now h)"
  using assms life_not_applied[of "ho_status h" h]
  by (auto simp: handoff_ok_def received_def Let_def refs_valid_def final_handoff_def)

lemma received_status: "ho_status (received ex now h) \<in> {H_RECEIVED, H_INVALID}"
  by (simp add: received_def Let_def)

lemma received_expires [simp]: "ho_expires_at (received ex now h) = ho_expires_at h" "ho_id (received ex now h) = ho_id h"
  by (simp_all add: received_def Let_def)

lemma applied_ok:
  assumes "handoff_ok h" "ho_status h = H_RECEIVED" "\<not> is_expired now h"
  shows "handoff_ok (mark_applied now h)" "follows h (mark_applied now h)"
  using assms by (simp_all add: handoff_ok_def mark_applied_def is_expired_def refs_valid_def follows_def
      same_contents_def final_handoff_def)

section \<open>The directory over time\<close>

definition dir_ok :: "handoff_dir \<Rightarrow> bool" where
  "dir_ok dir \<longleftrightarrow>
     (\<forall>i f. map_of dir i = Some f \<longrightarrow> (\<exists>h. f = Some (handoff_to_dict h) \<and> ho_id h = i \<and> handoff_ok h))"

definition evolves :: "handoff_dir \<Rightarrow> handoff_dir \<Rightarrow> bool" where
  "evolves dir dir' \<longleftrightarrow> dir_ok dir' \<and>
     (\<forall>i h. map_of dir i = Some (Some (handoff_to_dict h)) \<longrightarrow>
        (\<exists>h'. map_of dir' i = Some (Some (handoff_to_dict h')) \<and> follows h h'))"

lemma load_stored: "map_of dir i = Some (Some (handoff_to_dict h)) \<Longrightarrow> ho_load now i dir = Inr (Some h)"
  by (simp add: ho_load_def)

lemma load_cases:
  assumes "dir_ok dir"
  obtains (missing) "map_of dir i = None" "\<And>now. ho_load now i dir = Inr None"
    | (stored) h where "map_of dir i = Some (Some (handoff_to_dict h))" "ho_id h = i" "handoff_ok h"
        "\<And>now. ho_load now i dir = Inr (Some h)"
proof (cases "map_of dir i")
  case None
  then show ?thesis using missing by (simp add: ho_load_def)
next
  case (Some f)
  then obtain h where "f = Some (handoff_to_dict h)" "ho_id h = i" "handoff_ok h"
    using assms by (auto simp: dir_ok_def)
  then show ?thesis using Some stored by (simp add: load_stored)
qed

lemma evolves_refl [simp]: "dir_ok dir \<Longrightarrow> evolves dir dir"
  by (auto simp: evolves_def)

lemma evolves_trans: "evolves dir dir' \<Longrightarrow> evolves dir' dir'' \<Longrightarrow> evolves dir dir''"
  unfolding evolves_def by (meson follows_trans)

lemma evolves_ok: "evolves dir dir' \<Longrightarrow> dir_ok dir'"
  by (simp add: evolves_def)

lemma map_of_save [simp]: "map_of (ho_save h dir) = (map_of dir)(ho_id h \<mapsto> Some (handoff_to_dict h))"
  by (simp add: ho_save_def update_conv')

lemma save_evolves:
  assumes ok: "dir_ok dir" and at_i: "map_of dir i = Some (Some (handoff_to_dict h))"
    and "handoff_ok h'" "follows h h'"
  shows "evolves dir (ho_save h' dir)"
proof -
  have "ho_id h = i" using load_cases[OF ok, of i] at_i by auto
  then have "ho_id h' = i" using \<open>follows h h'\<close> by (simp add: follows_def same_contents_def)
  then show ?thesis using assms unfolding evolves_def dir_ok_def by (auto simp: ok)
qed

lemma create_evolves:
  assumes "dir_ok dir" "map_of dir i = None"
  shows "evolves dir (snd (create_handoff i a b refs w n files ttl m now dir))"
  using assms unfolding evolves_def dir_ok_def
  by (auto simp: create_handoff_def Let_def handoff_ok_def)

lemma receive_evolves:
  assumes "dir_ok dir"
  shows "evolves dir (snd (receive_handoff ex now i dir))"
proof (rule load_cases[OF assms, of i], goal_cases missing stored)
  case missing
  then show ?thesis using assms by (simp add: receive_handoff_def)
next
  case (stored h)
  then show ?thesis
    using assms save_evolves[OF assms stored(1)] expired_ok expired_follows received_ok received_follows
    by (auto simp: receive_handoff_def Let_def final_handoff_def)
qed

lemma receive_pending:
  assumes "dir_ok dir" "map_of dir i = Some (Some (handoff_to_dict h))" "ho_status h = H_PENDING" "\<not> is_expired now h"
  shows "receive_handoff ex now i dir = (Inr (received ex now h), ho_save (received ex now h) dir)"
  using assms by (simp add: receive_handoff_def load_stored Let_def)

lemma apply_evolves:
  assumes ok: "dir_ok dir"
  shows "evolves dir (snd (apply_handoff ex now i dir))"
proof (rule load_cases[OF ok, of i], goal_cases missing stored)
  case missing
  then show ?thesis using ok by (simp add: apply_handoff_def)
next
  case (stored h)
  note save = save_evolves[OF ok stored(1)]
  consider "ho_status h = H_APPLIED \<or> ho_status h = H_INVALID \<and> \<not> is_expired now h"
    | "ho_status h \<noteq> H_APPLIED" "is_expired now h \<or> ho_status h = H_EXPIRED"
    | "ho_status h = H_RECEIVED" "\<not> is_expired now h" | "ho_status h = H_PENDING" "\<not> is_expired now h"
    by (cases "ho_status h") auto
  then show ?thesis
  proof cases
    case 1
    then show ?thesis using ok by (auto simp: apply_handoff_def stored)
  next
    case 2
    then show ?thesis using save[OF expired_ok expired_follows] stored(3) by (auto simp: apply_handoff_def stored)
  next
    case 3
    then show ?thesis using save[OF applied_ok] stored(3) by (simp add: apply_handoff_def stored Let_def)
  next
    case 4
    let ?r = "received ex now h"
    have nf: "\<not> final_handoff h" using 4 by (simp add: final_handoff_def)
    note r_ok = received_ok[OF stored(3) nf, of ex now]
    have d1: "evolves dir (ho_save ?r dir)" by (rule save[OF r_ok received_follows[OF nf]])
    have at_r: "map_of (ho_save ?r dir) i = Some (Some (handoff_to_dict ?r))" using stored(2) by simp
    have "ho_status ?r = H_RECEIVED \<Longrightarrow> evolves (ho_save ?r dir) (ho_save (mark_applied now ?r) (ho_save ?r dir))"
      using save_evolves[OF evolves_ok[OF d1] at_r applied_ok[OF r_ok]] 4 by (simp add: is_expired_def)
    then show ?thesis
      using d1 received_status[of ex now h] evolves_trans[OF d1] 4
      by (auto simp: apply_handoff_def stored receive_pending[OF ok stored(1)] Let_def)
  qed
qed

lemma sweep_evolves:
  assumes "dir_ok dir"
  shows "evolves dir (snd (expire_stale now dir))"
proof -
  have at_i: "map_of (snd (expire_stale now dir)) i = map_option (\<lambda>f. fst (sweep_file now f)) (map_of dir i)" for i
    unfolding expire_stale_def by (induction dir) auto
  have swept: "\<exists>h'. fst (sweep_file now (Some (handoff_to_dict h))) = Some (handoff_to_dict h') \<and> follows h h' \<and>
      handoff_ok h'" if "handoff_ok h" for h
    using that expired_ok[OF that] expired_follows[of h] by (auto simp: sweep_file_def)
  have id: "ho_id h' = ho_id h" if "follows h h'" for h h' using that by (simp add: follows_def same_contents_def)
  show ?thesis unfolding evolves_def dir_ok_def
  proof (intro conjI allI impI)
    fix i f assume "map_of (snd (expire_stale now dir)) i = Some f"
    then obtain g where "map_of dir i = Some g" "f = fst (sweep_file now g)" by (auto simp: at_i)
    then show "\<exists>h. f = Some (handoff_to_dict h) \<and> ho_id h = i \<and> handoff_ok h"
      using assms swept id unfolding dir_ok_def by metis
  next
    fix i h assume "map_of dir i = Some (Some (handoff_to_dict h))"
    then show "\<exists>h'. map_of (snd (expire_stale now dir)) i = Some (Some (handoff_to_dict h')) \<and> follows h h'"
      using assms swept unfolding dir_ok_def at_i by (metis handoff_to_dict_inject option.inject option.simps(9))
  qed
qed

text \<open>Any agent may create, receive or apply handoffs and sweep the directory, at any time.\<close>

inductive handoff_step :: "handoff_dir \<Rightarrow> handoff_dir \<Rightarrow> bool" where
  created: "map_of dir i = None \<Longrightarrow> handoff_step dir (snd (create_handoff i a b refs w n files ttl m now dir))"
| received: "handoff_step dir (snd (receive_handoff ex now i dir))"
| applied: "handoff_step dir (snd (apply_handoff ex now i dir))"
| swept: "handoff_step dir (snd (expire_stale now dir))"

lemma step_evolves: "handoff_step dir dir' \<Longrightarrow> dir_ok dir \<Longrightarrow> evolves dir dir'"
  by (induction rule: handoff_step.induct) (simp_all add: create_evolves receive_evolves apply_evolves sweep_evolves)

lemma steps_evolve: "handoff_step\<^sup>*\<^sup>* dir dir' \<Longrightarrow> dir_ok dir \<Longrightarrow> evolves dir dir'"
  by (induction rule: rtranclp_induct) (auto intro: evolves_trans step_evolves evolves_ok)

lemma dir_ok_Nil [simp]: "dir_ok []"
  by (simp add: dir_ok_def)



section \<open>Packs of blocks\<close>

record handoff_block =
  hb_type :: string
  hb_id :: string
  hb_content :: string
  hb_metadata :: "(string, json) dict"

definition block_to_dict :: "handoff_block \<Rightarrow> json" where
  "block_to_dict b = J_obj [(''type'', J_str (hb_type b)), (''id'', J_str (hb_id b)), (''content'', J_str (hb_content b)),
     (''metadata'', J_obj (hb_metadata b))]"

definition block_from_dict :: "json \<Rightarrow> py_error + handoff_block" where
  "block_from_dict j =
     ebind (typed (as_obj j)) (\<lambda>d.
     ebind (required d ''type'') (\<lambda>tv. ebind (typed (as_str tv)) (\<lambda>ty.
     ebind (required d ''id'') (\<lambda>iv. ebind (typed (as_str iv)) (\<lambda>i.
     ebind (required d ''content'') (\<lambda>cv. ebind (typed (as_str cv)) (\<lambda>content.
     ebind (typed (as_obj (field_or d ''metadata'' (J_obj [])))) (\<lambda>metadata.
       Inr \<lparr>hb_type = ty, hb_id = i, hb_content = content, hb_metadata = metadata\<rparr>))))))))"

type_synonym token_pak = "handoff_block list"

definition pak_add :: "handoff_block \<Rightarrow> token_pak \<Rightarrow> token_pak" where
  "pak_add b p = p @ [b]"

definition pak_remove :: "string \<Rightarrow> token_pak \<Rightarrow> bool \<times> token_pak" where
  "pak_remove i p = (let p' = filter (\<lambda>b. hb_id b \<noteq> i) p in (length p' < length p, p'))"

definition pak_get :: "string \<Rightarrow> token_pak \<Rightarrow> handoff_block option" where
  "pak_get i p = find (\<lambda>b. hb_id b = i) p"

definition blocks_by_type :: "string \<Rightarrow> token_pak \<Rightarrow> token_pak" where
  "blocks_by_type ty p = filter (\<lambda>b. hb_type b = ty) p"

definition pak_to_dict :: "token_pak \<Rightarrow> json" where
  "pak_to_dict p = J_obj [(''blocks'', J_list (map block_to_dict p))]"

definition pak_from_dict :: "json \<Rightarrow> py_error + token_pak" where
  "pak_from_dict j = ebind (mapping_of j) (\<lambda>d. ebind (typed (as_list (field_or d ''blocks'' (J_list [])))) (each_ok block_from_dict))"

text \<open>Upper case is Python's, a parameter.\<close>

definition render_block :: "(string \<Rightarrow> string) \<Rightarrow> handoff_block \<Rightarrow> string" where
  "render_block upper b = ''=== '' @ upper (hb_type b) @ '' ['' @ hb_id b @ ''] ==='' @ [CHR 0x0A] @ hb_content b"

definition to_prompt :: "(string \<Rightarrow> string) \<Rightarrow> token_pak \<Rightarrow> string" where
  "to_prompt upper p = (if p = [] then [] else join [CHR 0x0A, CHR 0x0A] (map (render_block upper) p))"

section \<open>The wire format\<close>

definition WIRE_VERSION :: string where "WIRE_VERSION = ''tokpak-handoff:1''"

record handoff_wire =
  hw_id :: string
  hw_from_agent :: string
  hw_to_agent :: string
  hw_summary :: string
  hw_metadata :: "(string, json) dict"
  hw_created_at :: secs
  hw_pack :: token_pak

definition wire_payload :: "handoff_wire \<Rightarrow> json" where
  "wire_payload w = J_obj
     [(''version'', J_str WIRE_VERSION), (''id'', J_str (hw_id w)), (''from_agent'', J_str (hw_from_agent w)),
      (''to_agent'', J_str (hw_to_agent w)), (''summary'', J_str (hw_summary w)), (''metadata'', J_obj (hw_metadata w)),
      (''created_at'', J_float (hw_created_at w)), (''pack'', pak_to_dict (hw_pack w))]"

definition to_wire :: "(json \<Rightarrow> string) \<Rightarrow> handoff_wire \<Rightarrow> string" where
  "to_wire dumps w = dumps (wire_payload w)"

text \<open>
  The decoder gives \<open>None\<close> for text that is no JSON.  A missing, null or empty id is replaced by a
  fresh one, a missing creation time by the present.
\<close>

definition from_wire :: "(string \<Rightarrow> json option) \<Rightarrow> string \<Rightarrow> secs \<Rightarrow> string \<Rightarrow> py_error + handoff_wire" where
  "from_wire loads fresh_id now wire =
     ebind (case loads wire of None \<Rightarrow> Inl (ValueError ''Invalid wire format'') | Some j \<Rightarrow> Inr j) (\<lambda>j.
     ebind (mapping_of j) (\<lambda>d.
     ebind (typed (as_str (field_or d ''version'' (J_str [])))) (\<lambda>version.
     if \<not> prefix ''tokpak-handoff:'' version then Inl (ValueError (''Unrecognised wire version: '' @ version))
     else
     ebind (pak_from_dict (field_or d ''pack'' (J_obj []))) (\<lambda>pack.
     ebind (required d ''from_agent'') (\<lambda>fv. ebind (typed (as_str fv)) (\<lambda>from_agent.
     ebind (required d ''to_agent'') (\<lambda>tv. ebind (typed (as_str tv)) (\<lambda>to_agent.
     ebind (typed (as_str (field_or d ''summary'' (J_str [])))) (\<lambda>summary.
     ebind (typed (as_obj (field_or d ''metadata'' (J_obj [])))) (\<lambda>metadata.
     ebind (typed (as_str_opt (field_or d ''id'' J_null))) (\<lambda>i.
     ebind (typed (as_secs (field_or d ''created_at'' (J_float now)))) (\<lambda>created_at.
       Inr \<lparr>hw_id = (case i of None \<Rightarrow> fresh_id | Some [] \<Rightarrow> fresh_id | Some x \<Rightarrow> x), hw_from_agent = from_agent,
            hw_to_agent = to_agent, hw_summary = summary, hw_metadata = metadata, hw_created_at = created_at,
            hw_pack = pack\<rparr>))))))))))))"

lemma block_roundtrip [simp]: "block_from_dict (block_to_dict b) = Inr b"
  by (cases b) (simp add: block_from_dict_def block_to_dict_def typed_def required_def field_or_def ebind_def)

lemma pak_roundtrip [simp]: "pak_from_dict (pak_to_dict p) = Inr p"
  by (simp add: pak_from_dict_def pak_to_dict_def mapping_of_def typed_def field_or_def ebind_def each_ok_map)

lemma wire_refusals:
  "loads s = None \<Longrightarrow> from_wire loads fresh_id now s = Inl (ValueError ''Invalid wire format'')"
  "loads s = Some (J_obj d) \<Longrightarrow> map_of d ''version'' = Some (J_str v) \<Longrightarrow> \<not> prefix ''tokpak-handoff:'' v \<Longrightarrow>
     from_wire loads fresh_id now s = Inl (ValueError (''Unrecognised wire version: '' @ v))"
  by (simp_all add: from_wire_def mapping_of_def typed_def field_or_def ebind_def)

text \<open>
  A handoff sent over the wire arrives as it was sent, with every block of its pack in order, if
  the JSON decoder reads back the document the encoder wrote and the handoff has an id.
\<close>

lemma wire_roundtrip:
  assumes codec: "loads (dumps (wire_payload w)) = Some (wire_payload w)" and "hw_id w \<noteq> []"
  shows "from_wire loads fresh_id now (to_wire dumps w) = Inr w"
  using assms by (cases w, cases "hw_id w")
    (simp_all add: from_wire_def to_wire_def wire_payload_def mapping_of_def typed_def required_def field_or_def
      ebind_def WIRE_VERSION_def)

theorem wire_roundtrip_witness:
  "let w = \<lparr>hw_id = ''7'', hw_from_agent = ''cali'', hw_to_agent = ''sue'', hw_summary = [], hw_metadata = [],
            hw_created_at = 5, hw_pack = [\<lparr>hb_type = ''memory'', hb_id = ''m'', hb_content = ''state'', hb_metadata = []\<rparr>]\<rparr>;
       dumps = (\<lambda>j. if j = wire_payload w then ''doc'' else []);
       loads = (\<lambda>s. if s = ''doc'' then Some (wire_payload w) else None)
   in from_wire loads ''fresh'' 9 (to_wire dumps w) = Inr w"
  unfolding Let_def by (rule wire_roundtrip) simp_all

lemma remove_then_get: "pak_get i (snd (pak_remove i p)) = None"
  by (simp add: pak_get_def pak_remove_def Let_def find_None_iff)

lemma remove_reports: "fst (pak_remove i p) \<longleftrightarrow> pak_get i p \<noteq> None"
  by (induction p) (auto simp: pak_get_def pak_remove_def Let_def le_imp_less_Suc less_Suc_eq_le)

lemma get_added: "pak_get (hb_id b) p = None \<Longrightarrow> pak_get (hb_id b) (pak_add b p) = Some b"
  by (induction p) (auto simp: pak_get_def pak_add_def split: if_splits)

end
