(* ===== verification/Cache.thy ===== *)
theory Cache
  imports Directives
begin

text \<open>
  The cache subsystem (\<^verbatim>\<open>cache/stable_cache.py\<close>, \<^verbatim>\<open>volatile_cache.py\<close>, \<^verbatim>\<open>cache_manager.py\<close>,
  \<^verbatim>\<open>registry.py\<close>): a size-bounded least-recently-used cache, a short-lived first-in-first-out cache,
  and the manager that routes between the two.  A store is an association list in the order of the
  Python dictionary.  Values are JSON; \<open>J_null\<close> is Python's \<open>None\<close>, which a lookup cannot tell from
  a miss.  The clock is an argument; each locked method is one step.
\<close>

section \<open>Keys\<close>

datatype cache_key = Key_str string | Key_json json | Key_other string

text \<open>\<open>dumps\<close> is \<^verbatim>\<open>json.dumps\<close> with sorted keys; another object comes with its \<^verbatim>\<open>str\<close>.\<close>

fun make_key :: "(json \<Rightarrow> string) \<Rightarrow> cache_key \<Rightarrow> string" where
  "make_key dumps (Key_str s) = s"
| "make_key dumps (Key_json j) = dumps j"
| "make_key dumps (Key_other s) = s"

type_synonym ttl_store = "(string, json \<times> secs) dict"

definition move_to_end :: "string \<Rightarrow> ttl_store \<Rightarrow> ttl_store" where
  "move_to_end k d = (case map_of d k of None \<Rightarrow> d | Some e \<Rightarrow> AList.delete k d @ [(k, e)])"

definition live_size :: "secs \<Rightarrow> ttl_store \<Rightarrow> nat" where
  "live_size now d = length (filter (\<lambda>(k, v, e). now \<le> e) d)"

section \<open>The stable cache\<close>

record stable_cache =
  lru_max_size :: int
  lru_ttl :: secs
  lru_store :: ttl_store

definition StableCache :: "int \<Rightarrow> secs \<Rightarrow> stable_cache" where
  "StableCache max_size ttl = \<lparr>lru_max_size = max_size, lru_ttl = ttl, lru_store = []\<rparr>"

definition stable_retrieve :: "string \<Rightarrow> secs \<Rightarrow> stable_cache \<Rightarrow> json \<times> stable_cache" where
  "stable_retrieve k now c =
     (case map_of (lru_store c) k of
        None \<Rightarrow> (J_null, c)
      | Some (v, e) \<Rightarrow>
          if e < now then (J_null, c\<lparr>lru_store := AList.delete k (lru_store c)\<rparr>)
          else (v, c\<lparr>lru_store := move_to_end k (lru_store c)\<rparr>))"

definition stable_is_cached :: "string \<Rightarrow> secs \<Rightarrow> stable_cache \<Rightarrow> bool \<times> stable_cache" where
  "stable_is_cached k now c =
     (case map_of (lru_store c) k of
        None \<Rightarrow> (False, c)
      | Some (v, e) \<Rightarrow>
          if e < now then (False, c\<lparr>lru_store := AList.delete k (lru_store c)\<rparr>)
          else (True, c\<lparr>lru_store := move_to_end k (lru_store c)\<rparr>))"

definition stable_set :: "string \<Rightarrow> json \<Rightarrow> secs option \<Rightarrow> secs \<Rightarrow> stable_cache \<Rightarrow> stable_cache" where
  "stable_set k v ttl now c =
     (let expires_at = now + (case ttl of None \<Rightarrow> lru_ttl c | Some t \<Rightarrow> t);
          d = AList.update k (v, expires_at) (move_to_end k (lru_store c))
      in c\<lparr>lru_store := (if lru_max_size c < int (length d) then tl d else d)\<rparr>)"

definition stable_invalidate :: "string \<Rightarrow> stable_cache \<Rightarrow> bool \<times> stable_cache" where
  "stable_invalidate k c = (map_of (lru_store c) k \<noteq> None, c\<lparr>lru_store := AList.delete k (lru_store c)\<rparr>)"

definition stable_clear :: "stable_cache \<Rightarrow> stable_cache" where
  "stable_clear c = c\<lparr>lru_store := []\<rparr>"

definition stable_size :: "secs \<Rightarrow> stable_cache \<Rightarrow> nat" where
  "stable_size now c = live_size now (lru_store c)"

section \<open>The volatile cache\<close>

record volatile_cache =
  vol_ttl :: secs
  vol_max_size :: int
  vol_store :: ttl_store

definition VolatileCache :: "secs \<Rightarrow> int \<Rightarrow> volatile_cache" where
  "VolatileCache ttl max_size = \<lparr>vol_ttl = ttl, vol_max_size = max_size, vol_store = []\<rparr>"

definition volatile_retrieve :: "string \<Rightarrow> secs \<Rightarrow> volatile_cache \<Rightarrow> json \<times> volatile_cache" where
  "volatile_retrieve k now c =
     (case map_of (vol_store c) k of
        None \<Rightarrow> (J_null, c)
      | Some (v, e) \<Rightarrow> if e < now then (J_null, c\<lparr>vol_store := AList.delete k (vol_store c)\<rparr>) else (v, c))"

definition volatile_is_cached :: "string \<Rightarrow> secs \<Rightarrow> volatile_cache \<Rightarrow> bool \<times> volatile_cache" where
  "volatile_is_cached k now c =
     (case map_of (vol_store c) k of
        None \<Rightarrow> (False, c)
      | Some (v, e) \<Rightarrow> if e < now then (False, c\<lparr>vol_store := AList.delete k (vol_store c)\<rparr>) else (True, c))"

text \<open>At capacity a new key drops the oldest entry; with no entry to drop, \<^verbatim>\<open>next(iter({}))\<close> raises.\<close>

definition volatile_set :: "string \<Rightarrow> json \<Rightarrow> secs option \<Rightarrow> secs \<Rightarrow> volatile_cache \<Rightarrow> (py_error + unit) \<times> volatile_cache" where
  "volatile_set k v ttl now c =
     (let expires_at = now + (case ttl of None \<Rightarrow> vol_ttl c | Some t \<Rightarrow> t);
          full = (vol_max_size c \<le> int (length (vol_store c)) \<and> map_of (vol_store c) k = None)
      in if full \<and> vol_store c = [] then (Inl StopIteration, c)
         else (Inr (), c\<lparr>vol_store := AList.update k (v, expires_at) (if full then tl (vol_store c) else vol_store c)\<rparr>))"

definition volatile_invalidate :: "string \<Rightarrow> volatile_cache \<Rightarrow> bool \<times> volatile_cache" where
  "volatile_invalidate k c = (map_of (vol_store c) k \<noteq> None, c\<lparr>vol_store := AList.delete k (vol_store c)\<rparr>)"

definition volatile_sweep :: "secs \<Rightarrow> volatile_cache \<Rightarrow> nat \<times> volatile_cache" where
  "volatile_sweep now c =
     (length (filter (\<lambda>(k, v, e). e < now) (vol_store c)), c\<lparr>vol_store := filter (\<lambda>(k, v, e). \<not> e < now) (vol_store c)\<rparr>)"

definition volatile_clear :: "volatile_cache \<Rightarrow> volatile_cache" where
  "volatile_clear c = c\<lparr>vol_store := []\<rparr>"

definition volatile_size :: "secs \<Rightarrow> volatile_cache \<Rightarrow> nat" where
  "volatile_size now c = live_size now (vol_store c)"

text \<open>\<^verbatim>\<open>get\<close> of either cache.\<close>

definition or_default :: "json \<Rightarrow> json \<Rightarrow> json" where
  "or_default v dflt = (if v \<noteq> J_null then v else dflt)"

section \<open>The manager\<close>

datatype cache_layer = Layer_auto | Layer_volatile | Layer_stable | Layer_all

record cache_manager =
  cm_volatile :: volatile_cache
  cm_stable :: stable_cache
  cm_threshold :: secs

definition VOLATILE_THRESHOLD :: secs where "VOLATILE_THRESHOLD = 300"

definition cm_get :: "string \<Rightarrow> cache_layer \<Rightarrow> json \<Rightarrow> secs \<Rightarrow> cache_manager \<Rightarrow> json \<times> cache_manager" where
  "cm_get k layer dflt now m =
     (case layer of
        Layer_volatile \<Rightarrow>
          (case volatile_retrieve k now (cm_volatile m) of (v, c) \<Rightarrow> (or_default v dflt, m\<lparr>cm_volatile := c\<rparr>))
      | Layer_stable \<Rightarrow>
          (case stable_retrieve k now (cm_stable m) of (v, c) \<Rightarrow> (or_default v dflt, m\<lparr>cm_stable := c\<rparr>))
      | _ \<Rightarrow>
          (case volatile_retrieve k now (cm_volatile m) of
             (v, c) \<Rightarrow>
               if v \<noteq> J_null then (v, m\<lparr>cm_volatile := c\<rparr>)
               else case stable_retrieve k now (cm_stable m) of
                      (v', c') \<Rightarrow> (or_default v' dflt, m\<lparr>cm_volatile := c, cm_stable := c'\<rparr>)))"

definition routes_volatile :: "cache_layer \<Rightarrow> secs option \<Rightarrow> cache_manager \<Rightarrow> bool" where
  "routes_volatile layer ttl m =
     (case layer of
        Layer_volatile \<Rightarrow> True
      | Layer_stable \<Rightarrow> False
      | _ \<Rightarrow> (case ttl of None \<Rightarrow> False | Some t \<Rightarrow> t < cm_threshold m))"

definition cm_set ::
  "string \<Rightarrow> json \<Rightarrow> secs option \<Rightarrow> cache_layer \<Rightarrow> secs \<Rightarrow> cache_manager \<Rightarrow> (py_error + unit) \<times> cache_manager" where
  "cm_set k v ttl layer now m =
     (if routes_volatile layer ttl m
      then case volatile_set k v ttl now (cm_volatile m) of (r, c) \<Rightarrow> (r, m\<lparr>cm_volatile := c\<rparr>)
      else (Inr (), m\<lparr>cm_stable := stable_set k v ttl now (cm_stable m)\<rparr>))"

definition cm_delete :: "string \<Rightarrow> cache_manager \<Rightarrow> bool \<times> cache_manager" where
  "cm_delete k m =
     (case volatile_invalidate k (cm_volatile m) of
        (v_hit, cv) \<Rightarrow>
          (case stable_invalidate k (cm_stable m) of
             (s_hit, cs) \<Rightarrow> (v_hit \<or> s_hit, m\<lparr>cm_volatile := cv, cm_stable := cs\<rparr>)))"

definition cm_clear :: "cache_layer \<Rightarrow> cache_manager \<Rightarrow> cache_manager" where
  "cm_clear layer m =
     m\<lparr>cm_volatile := (if layer \<in> {Layer_all, Layer_volatile} then volatile_clear (cm_volatile m) else cm_volatile m),
        cm_stable := (if layer \<in> {Layer_all, Layer_stable} then stable_clear (cm_stable m) else cm_stable m)\<rparr>"

section \<open>The registry\<close>

datatype cache_instance = Stable_instance stable_cache | Volatile_instance volatile_cache

type_synonym cache_registry = "(string, cache_instance) dict"

definition cr_register :: "string \<Rightarrow> cache_instance \<Rightarrow> bool \<Rightarrow> cache_registry \<Rightarrow> (py_error + unit) \<times> cache_registry" where
  "cr_register name c overwrite r =
     (if map_of r name \<noteq> None \<and> \<not> overwrite
      then (Inl (ValueError (''CacheRegistry: '' @ name @ '' is already registered. Pass overwrite=True to replace it.'')), r)
      else (Inr (), AList.update name c r))"

definition cr_get_or_create :: "string \<Rightarrow> cache_instance \<Rightarrow> cache_registry \<Rightarrow> cache_instance \<times> cache_registry" where
  "cr_get_or_create name fresh r = (case map_of r name of None \<Rightarrow> (fresh, AList.update name fresh r) | Some c \<Rightarrow> (c, r))"

definition cr_get_default :: "cache_registry \<Rightarrow> cache_instance \<times> cache_registry" where
  "cr_get_default = cr_get_or_create ''default'' (Volatile_instance (VolatileCache 270 1000))"

definition cr_get_stable :: "cache_registry \<Rightarrow> cache_instance \<times> cache_registry" where
  "cr_get_stable = cr_get_or_create ''stable'' (Stable_instance (StableCache 500 86400))"

definition cr_get_injection :: "cache_registry \<Rightarrow> cache_instance \<times> cache_registry" where
  "cr_get_injection = cr_get_or_create ''injection'' (Volatile_instance (VolatileCache 270 1000))"

definition cr_summary :: "secs \<Rightarrow> cache_registry \<Rightarrow> (string \<times> string \<times> nat) list" where
  "cr_summary now r = map (\<lambda>(name, c). case c of
       Stable_instance s \<Rightarrow> (name, ''StableCache'', stable_size now s)
     | Volatile_instance v \<Rightarrow> (name, ''VolatileCache'', volatile_size now v)) r"

section \<open>The contract of a timed cache\<close>

datatype cache_op = Put string json "secs option" secs | Look string secs | Drop string | Wipe | Sweep secs

text \<open>The reference: a map that never evicts and never forgets an expired entry.\<close>

fun ref_step :: "secs \<Rightarrow> cache_op \<Rightarrow> (string \<rightharpoonup> json \<times> secs) \<Rightarrow> (string \<rightharpoonup> json \<times> secs)" where
  "ref_step dflt (Put k v ttl now) m = m(k \<mapsto> (v, now + (case ttl of None \<Rightarrow> dflt | Some t \<Rightarrow> t)))"
| "ref_step dflt (Look k now) m = m"
| "ref_step dflt (Drop k) m = m(k := None)"
| "ref_step dflt Wipe m = Map.empty"
| "ref_step dflt (Sweep now) m = m"

locale timed_cache =
  fixes view :: "'c \<Rightarrow> string \<Rightarrow> (json \<times> secs) option"
    and ok :: "'c \<Rightarrow> bool"
    and ttl_of :: "'c \<Rightarrow> secs"
    and lookup :: "string \<Rightarrow> secs \<Rightarrow> 'c \<Rightarrow> json \<times> 'c"
    and put :: "string \<Rightarrow> json \<Rightarrow> secs option \<Rightarrow> secs \<Rightarrow> 'c \<Rightarrow> 'c"
    and discard_key :: "string \<Rightarrow> 'c \<Rightarrow> 'c"
    and wipe :: "'c \<Rightarrow> 'c"
    and sweep :: "secs \<Rightarrow> 'c \<Rightarrow> 'c"
  assumes lookup_value: "ok c \<Longrightarrow> fst (lookup k now c) = (case view c k of None \<Rightarrow> J_null | Some (v, e) \<Rightarrow> if e < now then J_null else v)"
    and lookup_view: "ok c \<Longrightarrow> view (snd (lookup k now c)) j = Some x \<Longrightarrow> view c j = Some x"
    and put_view: "ok c \<Longrightarrow> view (put k v ttl now c) j = Some x \<Longrightarrow>
      (if j = k then x = (v, now + (case ttl of None \<Rightarrow> ttl_of c | Some t \<Rightarrow> t)) else view c j = Some x)"
    and discard_view: "ok c \<Longrightarrow> view (discard_key k c) j = Some x \<Longrightarrow> j \<noteq> k \<and> view c j = Some x"
    and wipe_view: "view (wipe c) j = None"
    and sweep_view: "ok c \<Longrightarrow> view (sweep now c) j = Some x \<Longrightarrow> view c j = Some x"
    and keeps_ok: "ok c \<Longrightarrow> ok (snd (lookup k now c)) \<and> ok (put k v ttl now c) \<and> ok (discard_key k c) \<and> ok (wipe c) \<and> ok (sweep now c)"
    and keeps_ttl: "ttl_of (snd (lookup k now c)) = ttl_of c" "ttl_of (put k v ttl now c) = ttl_of c"
      "ttl_of (discard_key k c) = ttl_of c" "ttl_of (wipe c) = ttl_of c" "ttl_of (sweep now c) = ttl_of c"
begin

fun apply_op :: "cache_op \<Rightarrow> 'c \<Rightarrow> 'c" where
  "apply_op (Put k v ttl now) c = put k v ttl now c"
| "apply_op (Look k now) c = snd (lookup k now c)"
| "apply_op (Drop k) c = discard_key k c"
| "apply_op Wipe c = wipe c"
| "apply_op (Sweep now) c = sweep now c"

lemma apply_ok: "ok c \<Longrightarrow> ok (apply_op a c) \<and> ttl_of (apply_op a c) = ttl_of c"
  by (cases a) (simp_all add: keeps_ok keeps_ttl)

lemma apply_refines:
  assumes "ok c" "view c \<subseteq>\<^sub>m m"
  shows "view (apply_op a c) \<subseteq>\<^sub>m ref_step (ttl_of c) a m"
  unfolding map_le_def
proof
  fix j assume "j \<in> dom (view (apply_op a c))"
  then obtain x where x: "view (apply_op a c) j = Some x" by auto
  have old: "view c j = Some x \<Longrightarrow> m j = Some x" using assms(2) by (metis domI map_le_def)
  have "ref_step (ttl_of c) a m j = Some x"
    using x old lookup_view[OF assms(1)] put_view[OF assms(1)] discard_view[OF assms(1)] sweep_view[OF assms(1)]
    by (cases a) (auto simp: wipe_view split: if_splits)
  then show "view (apply_op a c) j = ref_step (ttl_of c) a m j" using x by simp
qed

lemma run_refines:
  "ok c \<Longrightarrow> view c \<subseteq>\<^sub>m m \<Longrightarrow>
   ok (fold apply_op ops c) \<and> view (fold apply_op ops c) \<subseteq>\<^sub>m fold (ref_step (ttl_of c)) ops m"
proof (induction ops arbitrary: c m)
  case (Cons a ops)
  then show ?case using Cons.IH[of "apply_op a c" "ref_step (ttl_of c) a m"] apply_ok apply_refines by simp
qed simp

lemma hit_is_current:
  assumes "ok c" "view c = Map.empty" "fst (lookup k now (fold apply_op ops c)) = v" "v \<noteq> J_null"
  shows "\<exists>e. now \<le> e \<and> fold (ref_step (ttl_of c)) ops Map.empty k = Some (v, e)"
proof -
  have r: "ok (fold apply_op ops c)" "view (fold apply_op ops c) \<subseteq>\<^sub>m fold (ref_step (ttl_of c)) ops Map.empty"
    using run_refines[OF assms(1), of Map.empty ops] assms(2) by auto
  then obtain e where e: "view (fold apply_op ops c) k = Some (v, e)" "now \<le> e"
    using assms(3,4) by (auto simp: lookup_value split: option.splits if_splits)
  then show ?thesis using r(2) by (metis domI map_le_def)
qed

end

lemma move_to_end_map_of [simp]: "wf_dict d \<Longrightarrow> map_of (move_to_end k d) = map_of d"
  by (rule ext) (auto simp: move_to_end_def map_add_def split: option.splits)

lemma wf_move_to_end [simp]: "wf_dict d \<Longrightarrow> wf_dict (move_to_end k d)"
proof -
  assume "wf_dict d"
  moreover have "k \<notin> set (keys (AList.delete k d))" by (simp only: set_keys_delete) simp
  ultimately show ?thesis by (auto simp: move_to_end_def simp del: map_of_eq_Some_iff split: option.splits)
qed

lemma map_of_tl: "wf_dict d \<Longrightarrow> map_of (tl d) j = Some x \<Longrightarrow> map_of d j = Some x"
  by (cases d) (auto dest: map_of_SomeD simp: image_iff)

lemma wf_tl: "wf_dict d \<Longrightarrow> wf_dict (tl d)"
  by (cases d) auto

lemma map_of_filter_Some: "wf_dict d \<Longrightarrow> map_of (filter P d) j = Some x \<Longrightarrow> map_of d j = Some x"
  by (metis filter_is_subset in_mono map_of_SomeD map_of_is_SomeI)

lemma put_store:
  assumes "wf_dict d" "map_of (if full then tl (AList.update k e d) else AList.update k e d) j = Some x"
  shows "if j = k then x = e else map_of d j = Some x"
proof -
  have "map_of (AList.update k e d) j = Some x"
  proof (cases full)
    case True
    with assms(2) have "map_of (tl (AList.update k e d)) j = Some x" by (simp only: if_True)
    then show ?thesis by (rule map_of_tl[OF wf_dict_update[OF assms(1)]])
  qed (use assms(2) in \<open>simp only: if_False\<close>)
  then show ?thesis by (auto simp del: map_of_eq_Some_iff split: if_splits)
qed

abbreviation stable_ok :: "stable_cache \<Rightarrow> bool" where
  "stable_ok c \<equiv> wf_dict (lru_store c)"

abbreviation volatile_ok :: "volatile_cache \<Rightarrow> bool" where
  "volatile_ok c \<equiv> wf_dict (vol_store c)"

lemma stable_laws:
  assumes "stable_ok c"
  shows "fst (stable_retrieve k now c) = (case map_of (lru_store c) k of None \<Rightarrow> J_null | Some (v, e) \<Rightarrow> if e < now then J_null else v)"
    and "map_of (lru_store (snd (stable_retrieve k now c))) j = Some x \<Longrightarrow> map_of (lru_store c) j = Some x"
    and "map_of (lru_store (stable_set k v ttl now c)) j = Some x \<Longrightarrow>
      (if j = k then x = (v, now + (case ttl of None \<Rightarrow> lru_ttl c | Some t \<Rightarrow> t)) else map_of (lru_store c) j = Some x)"
    and "stable_ok (snd (stable_retrieve k now c))" "stable_ok (stable_set k v ttl now c)"
proof -
  let ?e = "(v, now + (case ttl of None \<Rightarrow> lru_ttl c | Some t \<Rightarrow> t))"
  let ?d = "AList.update k ?e (move_to_end k (lru_store c))"
  have eq: "lru_store (stable_set k v ttl now c) = (if lru_max_size c < int (length ?d) then tl ?d else ?d)"
    by (simp add: stable_set_def Let_def)
  assume "map_of (lru_store (stable_set k v ttl now c)) j = Some x"
  then have "map_of (if lru_max_size c < int (length ?d) then tl ?d else ?d) j = Some x" by (simp only: eq)
  from put_store[OF wf_move_to_end[OF assms] this]
  show "if j = k then x = ?e else map_of (lru_store c) j = Some x" by (simp only: move_to_end_map_of[OF assms])
next
  show "stable_ok (stable_set k v ttl now c)"
    using assms by (simp add: stable_set_def Let_def wf_tl)
qed (use assms in \<open>auto simp: stable_retrieve_def simp del: map_of_eq_Some_iff split: option.splits if_splits\<close>)

interpretation stable: timed_cache "\<lambda>c. map_of (lru_store c)" stable_ok lru_ttl stable_retrieve stable_set
  "\<lambda>k c. snd (stable_invalidate k c)" stable_clear "\<lambda>now c. c"
  by unfold_locales
    (fact stable_laws(1) stable_laws(2) stable_laws(3) |
     auto simp: stable_laws(4,5) simp del: map_of_eq_Some_iff split: if_splits option.splits,
     auto simp: stable_retrieve_def stable_set_def stable_invalidate_def stable_clear_def Let_def simp del: map_of_eq_Some_iff
       split: option.splits if_splits)+

lemma volatile_laws:
  assumes "volatile_ok c"
  shows "fst (volatile_retrieve k now c) = (case map_of (vol_store c) k of None \<Rightarrow> J_null | Some (v, e) \<Rightarrow> if e < now then J_null else v)"
    and "map_of (vol_store (snd (volatile_retrieve k now c))) j = Some x \<Longrightarrow> map_of (vol_store c) j = Some x"
    and "map_of (vol_store (snd (volatile_set k v ttl now c))) j = Some x \<Longrightarrow>
      (if j = k then x = (v, now + (case ttl of None \<Rightarrow> vol_ttl c | Some t \<Rightarrow> t)) else map_of (vol_store c) j = Some x)"
    and "volatile_ok (snd (volatile_retrieve k now c))" "volatile_ok (snd (volatile_set k v ttl now c))"
proof -
  have tl: "map_of (tl (vol_store c)) j = Some x \<Longrightarrow> map_of (vol_store c) j = Some x" by (rule map_of_tl[OF assms])
  show "map_of (vol_store (snd (volatile_set k v ttl now c))) j = Some x \<Longrightarrow>
      (if j = k then x = (v, now + (case ttl of None \<Rightarrow> vol_ttl c | Some t \<Rightarrow> t)) else map_of (vol_store c) j = Some x)"
    using tl by (auto simp: volatile_set_def Let_def simp del: map_of_eq_Some_iff split: if_splits)
  show "volatile_ok (snd (volatile_set k v ttl now c))"
    using assms by (simp add: volatile_set_def Let_def wf_tl)
qed (use assms in \<open>auto simp: volatile_retrieve_def simp del: map_of_eq_Some_iff split: option.splits if_splits\<close>)

interpretation volatile: timed_cache "\<lambda>c. map_of (vol_store c)" volatile_ok vol_ttl volatile_retrieve
  "\<lambda>k v ttl now c. snd (volatile_set k v ttl now c)" "\<lambda>k c. snd (volatile_invalidate k c)" volatile_clear
  "\<lambda>now c. snd (volatile_sweep now c)"
  by unfold_locales
    (fact volatile_laws(1) volatile_laws(2) volatile_laws(3) |
     auto simp: volatile_laws(4,5) simp del: map_of_eq_Some_iff split: if_splits option.splits,
     auto simp: volatile_retrieve_def volatile_set_def volatile_invalidate_def volatile_clear_def volatile_sweep_def Let_def
       distinct_map_filter dest: map_of_filter_Some simp del: map_of_eq_Some_iff split: option.splits if_splits)+

text \<open>
  C39.  A cache hit is current.  After any sequence of stores, lookups, invalidations, clears and
  sweeps, on either cache, a value that a lookup returns is the one most recently stored under
  that key, its time to live has not passed, and it has not been invalidated since: eviction
  and expiry only ever turn hits into misses.
\<close>

theorem cache_hits_are_current:
  assumes "v \<noteq> J_null"
  shows "(fst (stable_retrieve k now (fold stable.apply_op ops (StableCache n ttl))) = v \<longrightarrow>
            (\<exists>e. now \<le> e \<and> fold (ref_step ttl) ops Map.empty k = Some (v, e))) \<and>
         (fst (volatile_retrieve k now (fold volatile.apply_op ops (VolatileCache ttl n))) = v \<longrightarrow>
            (\<exists>e. now \<le> e \<and> fold (ref_step ttl) ops Map.empty k = Some (v, e)))"
  using assms stable.hit_is_current[of "StableCache n ttl" k now ops v] volatile.hit_is_current[of "VolatileCache ttl n" k now ops v]
  by (auto simp: StableCache_def VolatileCache_def)

theorem cache_hits_are_current_witness:
  "fst (stable_retrieve ''a'' 5 (fold stable.apply_op [Put ''a'' (J_int 1) None 0, Put ''b'' (J_int 2) None 1, Put ''a'' (J_int 3) None 2]
     (StableCache 2 10))) = J_int 3 \<and>
   (\<exists>e. 5 \<le> e \<and> fold (ref_step 10) [Put ''a'' (J_int 1) None 0, Put ''b'' (J_int 2) None 1, Put ''a'' (J_int 3) None 2]
      Map.empty ''a'' = Some (J_int 3, e))"
proof -
  have h: "fst (stable_retrieve ''a'' 5 (fold stable.apply_op [Put ''a'' (J_int 1) None 0, Put ''b'' (J_int 2) None 1, Put ''a'' (J_int 3) None 2]
      (StableCache 2 10))) = J_int 3"
    by (simp add: stable_set_def stable_retrieve_def StableCache_def move_to_end_def Let_def)
  then show ?thesis
    using cache_hits_are_current[of "J_int 3" "''a''" 5 "[Put ''a'' (J_int 1) None 0, Put ''b'' (J_int 2) None 1, Put ''a'' (J_int 3) None 2]" 2 10]
    by simp
qed

section \<open>Capacity\<close>

lemma length_move_to_end [simp]: "wf_dict d \<Longrightarrow> length (move_to_end k d) = length d"
proof -
  assume d: "wf_dict d"
  have "set (keys (move_to_end k d)) = set (keys d)"
    using move_to_end_map_of[OF d, of k] by (metis dom_map_of_conv_image_fst set_map)
  then show ?thesis using d wf_move_to_end[OF d, of k] by (metis distinct_card length_map)
qed

lemma length_update: "length (AList.update k e d) = (if k \<in> fst ` set d then length d else Suc (length d))"
  by (metis length_append_singleton length_map set_map update_keys)

lemma length_delete: "length (AList.delete k d) \<le> length d"
  by (simp add: AList.delete_eq)

definition stable_bounded :: "stable_cache \<Rightarrow> bool" where
  "stable_bounded c = (wf_dict (lru_store c) \<and> int (length (lru_store c)) \<le> lru_max_size c)"

definition volatile_bounded :: "volatile_cache \<Rightarrow> bool" where
  "volatile_bounded c = (wf_dict (vol_store c) \<and> int (length (vol_store c)) \<le> vol_max_size c)"

lemma stable_ops_bounded:
  assumes "stable_bounded c"
  shows "stable_bounded (stable_set k v ttl now c) \<and> stable_bounded (snd (stable_retrieve k now c)) \<and>
    stable_bounded (snd (stable_invalidate k c)) \<and> stable_bounded (stable_clear c)"
proof (intro conjI)
  let ?d = "AList.update k (v, now + (case ttl of None \<Rightarrow> lru_ttl c | Some t \<Rightarrow> t)) (move_to_end k (lru_store c))"
  have "length ?d \<le> Suc (length (lru_store c))" using assms by (simp add: length_update stable_bounded_def)
  then have "length (tl ?d) \<le> length (lru_store c)" by simp
  moreover have "lru_store (stable_set k v ttl now c) = (if lru_max_size c < int (length ?d) then tl ?d else ?d)"
      "lru_max_size (stable_set k v ttl now c) = lru_max_size c"
    by (simp_all add: stable_set_def Let_def)
  ultimately show "stable_bounded (stable_set k v ttl now c)"
    using assms stable_laws(5)[of c k v ttl now] unfolding stable_bounded_def by (auto simp del: length_tl)
  show "stable_bounded (snd (stable_retrieve k now c))"
    using assms length_delete[of k "lru_store c"]
    by (auto simp: stable_bounded_def stable_retrieve_def split: option.splits prod.splits)
  show "stable_bounded (snd (stable_invalidate k c))"
    using assms length_delete[of k "lru_store c"] by (simp add: stable_bounded_def stable_invalidate_def)
  show "stable_bounded (stable_clear c)" using assms by (simp add: stable_bounded_def stable_clear_def)
qed

lemma volatile_ops_bounded:
  assumes "volatile_bounded c"
  shows "volatile_bounded (snd (volatile_set k v ttl now c)) \<and> volatile_bounded (snd (volatile_retrieve k now c)) \<and>
    volatile_bounded (snd (volatile_invalidate k c)) \<and> volatile_bounded (volatile_clear c) \<and>
    volatile_bounded (snd (volatile_sweep now c))"
proof (intro conjI)
  have "k \<in> fst ` set (vol_store c) \<longleftrightarrow> map_of (vol_store c) k \<noteq> None" by (simp add: map_of_eq_None_iff)
  moreover have "length (AList.update k e (tl (vol_store c))) \<le> Suc (length (tl (vol_store c)))" for e by (simp add: length_update)
  ultimately have "int (length (vol_store (snd (volatile_set k v ttl now c)))) \<le> vol_max_size c"
    using assms by (cases "vol_store c") (auto simp: volatile_bounded_def volatile_set_def Let_def length_update)
  moreover have "vol_max_size (snd (volatile_set k v ttl now c)) = vol_max_size c" by (simp add: volatile_set_def Let_def)
  ultimately show "volatile_bounded (snd (volatile_set k v ttl now c))"
    using assms volatile_laws(5)[of c k v ttl now] by (simp add: volatile_bounded_def)
  show "volatile_bounded (snd (volatile_retrieve k now c))"
    using assms length_delete[of k "vol_store c"]
    by (auto simp: volatile_bounded_def volatile_retrieve_def split: option.splits prod.splits)
  show "volatile_bounded (snd (volatile_invalidate k c))"
    using assms length_delete[of k "vol_store c"] by (simp add: volatile_bounded_def volatile_invalidate_def)
  show "volatile_bounded (volatile_clear c)" using assms by (simp add: volatile_bounded_def volatile_clear_def)
  show "volatile_bounded (snd (volatile_sweep now c))"
  proof -
    have "int (length (filter P (vol_store c))) \<le> vol_max_size c" for P
      using assms order_trans[of "int (length (filter P (vol_store c)))" "int (length (vol_store c))"] by (simp add: volatile_bounded_def)
    then show ?thesis using assms by (simp add: volatile_bounded_def volatile_sweep_def distinct_map_filter)
  qed
qed

lemma run_bounded:
  "stable_bounded c \<Longrightarrow> stable_bounded (fold stable.apply_op ops c)"
  "volatile_bounded d \<Longrightarrow> volatile_bounded (fold volatile.apply_op ops d)"
proof -
  have "stable_bounded (stable.apply_op a c)" if "stable_bounded c" for a c
    using stable_ops_bounded[OF that] that by (cases a) simp_all
  then show "stable_bounded c \<Longrightarrow> stable_bounded (fold stable.apply_op ops c)" by (induction ops arbitrary: c) simp_all
  have "volatile_bounded (volatile.apply_op a d)" if "volatile_bounded d" for a d
    using volatile_ops_bounded[OF that] that by (cases a) simp_all
  then show "volatile_bounded d \<Longrightarrow> volatile_bounded (fold volatile.apply_op ops d)" by (induction ops arbitrary: d) simp_all
qed

section \<open>Recently used entries stay\<close>

text \<open>The keys used after \<open>k\<close>: those behind it in the store.\<close>

fun behind :: "string \<Rightarrow> ttl_store \<Rightarrow> string set" where
  "behind k [] = {}"
| "behind k ((j, e) # d) = (if j = k then set (keys d) else behind k d)"

lemma behind_append: "behind k (d @ d') = (if k \<in> fst ` set d then behind k d \<union> set (keys d') else behind k d')"
  by (induction k d rule: behind.induct) auto

lemma behind_delete: "j \<noteq> k \<Longrightarrow> behind k (AList.delete j d) = behind k d - {j}"
  by (induction k d rule: behind.induct) (auto simp: AList.delete_eq)

lemma card_behind:
  assumes "wf_dict ((k, e) # d)"
  shows "card (behind k ((k, e) # d)) = length d"
  using assms by simp (metis distinct_card length_map set_map)

text \<open>\<open>k\<close> is stored and only keys in \<open>T\<close> have been used since.\<close>

definition kept :: "string \<Rightarrow> json \<times> secs \<Rightarrow> string set \<Rightarrow> stable_cache \<Rightarrow> bool" where
  "kept k e T c = (stable_bounded c \<and> map_of (lru_store c) k = Some e \<and> behind k (lru_store c) \<subseteq> T)"

lemma behind_move:
  assumes "wf_dict d" "map_of d k \<noteq> None" "j \<noteq> k"
  shows "behind k (move_to_end j d) \<subseteq> insert j (behind k d)"
proof -
  have "k \<in> fst ` set (AList.delete j d)" using assms by (simp add: AList.delete_eq map_of_eq_None_iff image_iff) force
  then show ?thesis using assms(3) by (auto simp: move_to_end_def behind_append behind_delete split: option.splits)
qed

lemma kept_set:
  assumes "kept k e T c" "j \<noteq> k" "j \<in> T" "finite T" "int (card T) < lru_max_size c"
  shows "kept k e T (stable_set j v ttl now c)"
proof -
  let ?m = "move_to_end j (lru_store c)"
  define x where "x = (v, now + (case ttl of None \<Rightarrow> lru_ttl c | Some t \<Rightarrow> t))"
  let ?d = "AList.update j x ?m"
  have wf: "wf_dict (lru_store c)" using assms(1) by (simp add: kept_def stable_bounded_def)
  have k: "map_of ?d k = Some e" using assms(1,2) wf by (simp add: kept_def del: map_of_eq_Some_iff)
  have b: "behind k ?d \<subseteq> T"
  proof -
    have "behind k ?m \<subseteq> T" using behind_move[OF wf _ assms(2)] assms(1,3) by (auto simp: kept_def)
    moreover have upd: "behind k (AList.update j x d) \<subseteq> insert j (behind k d)" if "map_of d k \<noteq> None" for d
      using that assms(2) by (induction k d rule: behind.induct) (auto simp: update_keys split: if_splits)
    have "map_of ?m k \<noteq> None" using assms(1) wf by (simp add: kept_def del: map_of_eq_Some_iff)
    from upd[OF this] have "behind k ?d \<subseteq> insert j (behind k ?m)" .
    ultimately show ?thesis using assms(3) by blast
  qed
  have wd: "wf_dict ?d" using wf by simp
  have st: "lru_store (stable_set j v ttl now c) = (if lru_max_size c < int (length ?d) then tl ?d else ?d)"
    by (simp add: stable_set_def Let_def x_def)
  have "map_of (lru_store (stable_set j v ttl now c)) k = Some e \<and> behind k (lru_store (stable_set j v ttl now c)) \<subseteq> T"
  proof (cases "lru_max_size c < int (length ?d)")
    case True
    obtain h y r where d: "?d = (h, y) # r" using k by (cases ?d) auto
    have "h \<noteq> k"
    proof
      assume "h = k"
      then have "card (behind k ?d) = length r" using card_behind[of k y r] wd d by simp
      then have "length r \<le> card T" using b assms(4) card_mono by metis
      then show False using True d assms(5) by simp
    qed
    then show ?thesis using True k b d unfolding st by simp
  next
    case False
    then show ?thesis using k b unfolding st by simp
  qed
  then show ?thesis using stable_ops_bounded assms(1) by (simp add: kept_def)
qed

lemma kept_retrieve:
  assumes "kept k e T c" "j \<noteq> k" "j \<in> T"
  shows "kept k e T (snd (stable_retrieve j now c))"
proof -
  have wf: "wf_dict (lru_store c)" using assms(1) by (simp add: kept_def stable_bounded_def)
  have "behind k (move_to_end j (lru_store c)) \<subseteq> T" "behind k (AList.delete j (lru_store c)) \<subseteq> T"
    using behind_move[OF wf _ assms(2)] behind_delete[OF assms(2)] assms(1,3) by (auto simp: kept_def)
  moreover have "map_of (lru_store (snd (stable_retrieve j now c))) k = Some e"
    using assms(1,2) wf by (auto simp: kept_def stable_retrieve_def simp del: map_of_eq_Some_iff split: option.splits prod.splits)
  ultimately show ?thesis
    using assms(1) stable_ops_bounded by (auto simp: kept_def stable_retrieve_def split: option.splits prod.splits)
qed

text \<open>The keys a sequence of stores and lookups uses.\<close>

fun used_keys :: "cache_op list \<Rightarrow> string set option" where
  "used_keys [] = Some {}"
| "used_keys (Put k v ttl now # ops) = map_option (insert k) (used_keys ops)"
| "used_keys (Look k now # ops) = map_option (insert k) (used_keys ops)"
| "used_keys (_ # ops) = None"

lemma kept_run:
  "kept k e T c \<Longrightarrow> used_keys ops = Some U \<Longrightarrow> U \<subseteq> T \<Longrightarrow> k \<notin> U \<Longrightarrow> finite T \<Longrightarrow> int (card T) < lru_max_size c \<Longrightarrow>
   kept k e T (fold stable.apply_op ops c)"
proof (induction ops arbitrary: c U)
  case (Cons a ops)
  show ?case
  proof (cases a)
    case (Put j v ttl now)
    have j: "j \<noteq> k" "j \<in> T" using Cons.prems Put by auto
    have "kept k e T (stable_set j v ttl now c)" by (rule kept_set[OF Cons.prems(1) j Cons.prems(5,6)])
    moreover have "lru_max_size (stable_set j v ttl now c) = lru_max_size c" by (simp add: stable_set_def Let_def)
    ultimately show ?thesis using Cons.IH[of "stable_set j v ttl now c"] Cons.prems Put by auto
  next
    case (Look j now)
    have j: "j \<noteq> k" "j \<in> T" using Cons.prems Look by auto
    have "kept k e T (snd (stable_retrieve j now c))" by (rule kept_retrieve[OF Cons.prems(1) j])
    moreover have "lru_max_size (snd (stable_retrieve j now c)) = lru_max_size c"
      by (simp add: stable_retrieve_def split: option.splits prod.splits)
    ultimately show ?thesis using Cons.IH[of "snd (stable_retrieve j now c)"] Cons.prems Look by auto
  qed (use Cons.prems in simp_all)
qed simp

lemma update_last: "map_of d k = None \<Longrightarrow> AList.update k x (d @ [(k, y)]) = d @ [(k, x)]"
  by (induction d) (auto split: if_splits)

lemma update_moved: "AList.update k x (move_to_end k d) = AList.delete k d @ [(k, x)]"
  by (cases "map_of d k") (simp_all add: move_to_end_def update_new delete_absent update_last del: map_of_eq_Some_iff)

lemma kept_fresh:
  assumes "stable_bounded c" "0 < lru_max_size c"
  shows "kept k (v, now + ttl) {} (stable_set k v (Some ttl) now c)"
proof -
  let ?x = "(v, now + ttl)" and ?c = "stable_set k v (Some ttl) now c"
  let ?d = "AList.delete k (lru_store c) @ [(k, ?x)]"
  have nk: "k \<notin> fst ` set (AList.delete k (lru_store c))" by (metis Diff_iff insertI1 set_keys_delete set_map)
  have st: "lru_store ?c = (if lru_max_size c < int (length ?d) then tl ?d else ?d)"
    by (simp add: stable_set_def Let_def update_moved)
  have "map_of ?d k = Some ?x" "behind k ?d = {}" using nk by (simp_all add: behind_append map_add_def)
  moreover have "map_of (tl ?d) k = Some ?x \<and> behind k (tl ?d) = {}" if "lru_max_size c < int (length ?d)"
  proof (cases "AList.delete k (lru_store c)")
    case Nil
    then show ?thesis using that assms(2) by simp
  next
    case (Cons p r)
    then show ?thesis using nk by (simp add: behind_append map_add_def map_of_eq_None_iff[THEN iffD2])
  qed
  ultimately show ?thesis using stable_ops_bounded[OF assms(1), of k v "Some ttl" now] by (simp add: kept_def st)
qed

lemma kept_mono: "kept k e T c \<Longrightarrow> T \<subseteq> U \<Longrightarrow> kept k e U c"
  by (auto simp: kept_def)

lemma max_size_ops:
  "lru_max_size (stable_set k v t now c) = lru_max_size c" "lru_max_size (snd (stable_retrieve k now c)) = lru_max_size c"
  "lru_max_size (snd (stable_invalidate k c)) = lru_max_size c" "lru_max_size (stable_clear c) = lru_max_size c"
  by (simp_all add: stable_set_def stable_retrieve_def stable_invalidate_def stable_clear_def Let_def
      split: option.splits prod.splits)

lemma max_size_run: "lru_max_size (fold stable.apply_op ops c) = lru_max_size c"
proof -
  have "lru_max_size (stable.apply_op a c) = lru_max_size c" for a c
    by (cases a) (simp_all add: max_size_ops)
  then show ?thesis by (induction ops arbitrary: c) simp_all
qed

text \<open>
  Least-recently-used eviction.  From any state of a stable cache within its bound: a value just
  stored is still returned after any stores and lookups of other keys, as long as those are fewer
  different keys than the cache has places and its time to live has not passed; and the cache
  never holds more entries than its maximum.
\<close>

lemma recently_used_survives:
  assumes "stable_bounded c" "0 < lru_max_size c" "used_keys ops = Some U" "k \<notin> U" "int (card U) < lru_max_size c"
    "now' \<le> now + ttl"
  shows "fst (stable_retrieve k now' (fold stable.apply_op ops (stable_set k v (Some ttl) now c))) = v \<and>
         int (length (lru_store (fold stable.apply_op ops (stable_set k v (Some ttl) now c)))) \<le> lru_max_size c"
proof -
  let ?c = "stable_set k v (Some ttl) now c"
  have m: "lru_max_size ?c = lru_max_size c" by (simp add: stable_set_def Let_def)
  have "finite U" using assms(3) by (induction ops arbitrary: U rule: used_keys.induct) auto
  then have "kept k (v, now + ttl) U (fold stable.apply_op ops ?c)"
    using kept_run[OF kept_mono[OF kept_fresh[OF assms(1,2), of k v now ttl]], of U ops U] assms(3-5) m by simp
  then show ?thesis
    using assms(6) m by (auto simp: kept_def stable_bounded_def stable_retrieve_def max_size_run)
qed

theorem recently_used_survives_witness:
  "fst (stable_retrieve ''a'' 5 (fold stable.apply_op [Put ''b'' (J_int 2) None 1, Look ''b'' 2] (stable_set ''a'' (J_int 1) (Some 60) 0 (StableCache 2 10)))) = J_int 1"
  using recently_used_survives[of "StableCache 2 10" "[Put ''b'' (J_int 2) None 1, Look ''b'' 2]" "{''b''}" "''a''" 5 0 60 "J_int 1"]
  by (simp add: StableCache_def stable_bounded_def)

section \<open>The manager's reads\<close>

lemma volatile_set_at:
  "volatile_ok c \<Longrightarrow> 0 < vol_max_size c \<Longrightarrow>
   map_of (vol_store (snd (volatile_set k v ttl now c))) k = Some (v, now + (case ttl of None \<Rightarrow> vol_ttl c | Some t \<Rightarrow> t)) \<and>
   fst (volatile_set k v ttl now c) = Inr ()"
  by (auto simp: volatile_set_def Let_def)

lemma stable_set_at:
  "stable_bounded c \<Longrightarrow> 0 < lru_max_size c \<Longrightarrow>
   map_of (lru_store (stable_set k v (Some ttl) now c)) k = Some (v, now + ttl)"
  using kept_fresh by (simp add: kept_def)

text \<open>The volatile layer still answers for \<open>k\<close>.\<close>

definition volatile_live :: "string \<Rightarrow> secs \<Rightarrow> cache_manager \<Rightarrow> json option" where
  "volatile_live k now m =
     (case map_of (vol_store (cm_volatile m)) k of
        Some (v, e) \<Rightarrow> if now \<le> e \<and> v \<noteq> J_null then Some v else None
      | None \<Rightarrow> None)"

text \<open>
  What the manager returns after a store.  A value stored through the manager is read back
  within its time to live, except in one case: it was routed to the stable layer while the
  volatile layer still holds a live value for the same key.  Then the read returns that older,
  superseded value.
\<close>

lemma manager_read_after_set:
  assumes "volatile_ok (cm_volatile m)" "0 < vol_max_size (cm_volatile m)" "stable_bounded (cm_stable m)"
    "0 < lru_max_size (cm_stable m)" "v \<noteq> J_null" "now' \<le> now + ttl" "cm_set k v (Some ttl) Layer_auto now m = (r, m')"
  shows "r = Inr () \<and>
         fst (cm_get k Layer_auto J_null now' m') =
           (if ttl < cm_threshold m then v
            else case volatile_live k now' m of Some old \<Rightarrow> old | None \<Rightarrow> v)"
proof (cases "ttl < cm_threshold m")
  case True
  have m': "r = fst (volatile_set k v (Some ttl) now (cm_volatile m))" "cm_volatile m' = snd (volatile_set k v (Some ttl) now (cm_volatile m))"
    using assms(7) True by (auto simp: cm_set_def routes_volatile_def split: prod.splits)
  then show ?thesis
    using volatile_set_at[OF assms(1,2), of k v "Some ttl" now] assms(5,6) True
    by (simp add: cm_get_def volatile_retrieve_def)
next
  case False
  have m': "r = Inr ()" "m' = m\<lparr>cm_stable := stable_set k v (Some ttl) now (cm_stable m)\<rparr>"
    using assms(7) False by (auto simp: cm_set_def routes_volatile_def)
  have "fst (stable_retrieve k now' (stable_set k v (Some ttl) now (cm_stable m))) = v"
    using stable_set_at[OF assms(3,4), of k v ttl now] assms(6) by (simp add: stable_retrieve_def)
  then show ?thesis
    using False m' assms(5)
    by (auto simp: cm_get_def volatile_retrieve_def volatile_live_def or_default_def split: option.splits prod.splits)
qed

definition example_manager :: cache_manager where
  "example_manager = \<lparr>cm_volatile = VolatileCache 270 1000, cm_stable = StableCache 500 86400, cm_threshold = VOLATILE_THRESHOLD\<rparr>"

text \<open>Stored for a minute, then again for a day: for that minute the manager returns the first value.\<close>

theorem manager_read_after_set_witness:
  "fst (cm_get ''k'' Layer_auto J_null 20
     (snd (cm_set ''k'' (J_str ''new'') (Some 86400) Layer_auto 10
       (snd (cm_set ''k'' (J_str ''old'') (Some 60) Layer_auto 0 example_manager))))) = J_str ''old''"
proof -
  define m where "m = snd (cm_set ''k'' (J_str ''old'') (Some 60) Layer_auto 0 example_manager)"
  obtain r m' where m': "cm_set ''k'' (J_str ''new'') (Some 86400) Layer_auto 10 m = (r, m')" by fastforce
  have m: "m = example_manager\<lparr>cm_volatile := (VolatileCache 270 1000)\<lparr>vol_store := [(''k'', J_str ''old'', 60)]\<rparr>\<rparr>"
    by (simp add: m_def cm_set_def routes_volatile_def example_manager_def VOLATILE_THRESHOLD_def volatile_set_def VolatileCache_def)
  have "fst (cm_get ''k'' Layer_auto J_null 20 m') =
      (if 86400 < cm_threshold m then J_str ''new'' else case volatile_live ''k'' 20 m of Some old \<Rightarrow> old | None \<Rightarrow> J_str ''new'')"
    using manager_read_after_set[OF _ _ _ _ _ _ m', of 20]
    by (simp add: m example_manager_def VolatileCache_def StableCache_def stable_bounded_def)
  then show ?thesis
    using m' by (simp add: m_def[symmetric]) (simp add: m volatile_live_def VOLATILE_THRESHOLD_def example_manager_def)
qed

end
