(* ===== verification/Dedup.thy ===== *)
theory Dedup
  imports Directives "HOL-Library.Sublist"
begin

text \<open>
  Removing duplicate messages from a conversation (\<^verbatim>\<open>compression/dedup.py\<close>): exact duplicates by a
  digest of role and content, near duplicates by the overlap of their four-character substrings.
  The digest and JSON printing are parameters.
\<close>

section \<open>Content and similarity\<close>

type_synonym message = "(string, json) dict"

record dedup_env =
  dd_sha256 :: "string \<Rightarrow> string"
  dd_dumps :: "json \<Rightarrow> string"
  dd_str :: "json \<Rightarrow> string"

definition DEDUP_JACCARD_THRESHOLD :: rat where "DEDUP_JACCARD_THRESHOLD = 9 / 10"

definition get_or :: "message \<Rightarrow> string \<Rightarrow> json" where
  "get_or m k = (case map_of m k of None \<Rightarrow> J_str [] | Some v \<Rightarrow> v)"

text \<open>One block of a list content; joining text that is not a string raises.\<close>

fun block_part :: "dedup_env \<Rightarrow> json \<Rightarrow> py_error + string" where
  "block_part env (J_obj b) =
     (if map_of b ''type'' = Some (J_str ''text'')
      then (case get_or b ''text'' of J_str s \<Rightarrow> Inr s | _ \<Rightarrow> Inl (TypeError ''sequence item: expected str instance''))
      else Inr (dd_dumps env (J_obj b)))"
| "block_part env j = Inr (dd_str env j)"

fun all_ok :: "('e + 'a) list \<Rightarrow> 'e + 'a list" where
  "all_ok [] = Inr []"
| "all_ok (x # xs) = ebind x (\<lambda>y. ebind (all_ok xs) (\<lambda>ys. Inr (y # ys)))"

fun content_to_str :: "dedup_env \<Rightarrow> json \<Rightarrow> py_error + string" where
  "content_to_str env (J_str s) = Inr s"
| "content_to_str env (J_list bs) = ebind (all_ok (map (block_part env) bs)) (\<lambda>ps. Inr (intercalate_nl ps))"
| "content_to_str env j = Inr (dd_dumps env j)"

definition ngrams :: "string \<Rightarrow> nat \<Rightarrow> string set" where
  "ngrams s n = (if length s < n then {} else set (map (\<lambda>i. take n (drop i s)) [0..<length s - n + 1]))"

definition jaccard :: "string \<Rightarrow> string \<Rightarrow> rat" where
  "jaccard a b =
     (let sa = ngrams a 4; sb = ngrams b 4 in
      if sa = {} \<and> sb = {} then 1
      else if sa = {} \<or> sb = {} then 0
      else of_nat (card (sa \<inter> sb)) / of_nat (card (sa \<union> sb)))"

section \<open>Exact duplicates\<close>

datatype keep_mode = Keep_last | Keep_first

definition fstr :: "dedup_env \<Rightarrow> json \<Rightarrow> string" where
  "fstr env j = (case j of J_str s \<Rightarrow> s | _ \<Rightarrow> dd_str env j)"

definition exact_key :: "dedup_env \<Rightarrow> json \<Rightarrow> string \<Rightarrow> string" where
  "exact_key env role content = dd_sha256 env (fstr env role @ '':'' @ content)"

text \<open>\<^verbatim>\<open>seen_hashes\<close> and \<^verbatim>\<open>first_seen\<close>.\<close>

definition last_seen :: "string list \<Rightarrow> (string, nat) dict" where
  "last_seen ks = fold (\<lambda>(i, k) d. AList.update k i d) (enumerate 0 ks) []"

definition first_seen :: "string list \<Rightarrow> (string, nat) dict" where
  "first_seen ks = fold (\<lambda>(i, k) d. if map_of d k = None then AList.update k i d else d) (enumerate 0 ks) []"

definition exact_keep :: "keep_mode \<Rightarrow> string list \<Rightarrow> nat set" where
  "exact_keep keep ks = set (map snd (if keep = Keep_last then last_seen ks else first_seen ks))"

section \<open>Near duplicates\<close>

definition near_match :: "rat \<Rightarrow> json list \<Rightarrow> string list \<Rightarrow> nat set \<Rightarrow> nat \<Rightarrow> nat option" where
  "near_match threshold roles contents dropped i =
     find (\<lambda>j. j \<notin> dropped \<and> roles ! i = roles ! j \<and> threshold \<le> jaccard (contents ! i) (contents ! j)) [Suc i..<length roles]"

definition near_step :: "rat \<Rightarrow> keep_mode \<Rightarrow> json list \<Rightarrow> string list \<Rightarrow> nat \<Rightarrow> nat set \<Rightarrow> nat set" where
  "near_step threshold keep roles contents i dropped =
     (if i \<in> dropped then dropped
      else case near_match threshold roles contents dropped i of
             None \<Rightarrow> dropped
           | Some j \<Rightarrow> insert (if keep = Keep_last then i else j) dropped)"

definition near_drop :: "rat \<Rightarrow> keep_mode \<Rightarrow> json list \<Rightarrow> string list \<Rightarrow> nat set" where
  "near_drop threshold keep roles contents =
     fold (near_step threshold keep roles contents) [0..<length roles] {}"

definition keep_indices :: "nat set \<Rightarrow> 'a list \<Rightarrow> 'a list" where
  "keep_indices I xs = nths xs I"

definition dedup_messages :: "dedup_env \<Rightarrow> rat \<Rightarrow> keep_mode \<Rightarrow> message list \<Rightarrow> py_error + message list" where
  "dedup_messages env threshold keep messages =
     (if messages = [] then Inr messages
      else ebind (all_ok (map (\<lambda>m. content_to_str env (get_or m ''content'')) messages)) (\<lambda>contents.
        let roles = map (\<lambda>m. get_or m ''role'') messages;
            keys = map2 (exact_key env) roles contents;
            I = exact_keep keep keys;
            after_exact = keep_indices I messages
        in if 1 \<le> threshold \<or> length after_exact < 2 then Inr after_exact
           else Inr (keep_indices (- near_drop threshold keep (keep_indices I roles) (keep_indices I contents)) after_exact)))"

section \<open>Counting duplicates\<close>

text \<open>\<^verbatim>\<open>count_duplicates\<close>: here one message may take any number of later ones with it, over the whole list.\<close>

record duplicate_count =
  exact_duplicates :: nat
  near_duplicates :: nat
  total_messages :: nat

definition count_exact :: "string list \<Rightarrow> nat" where
  "count_exact ks = fst (fold (\<lambda>k (n, seen). if k \<in> seen then (Suc n, seen) else (n, insert k seen)) ks (0, {}))"

definition count_near_row :: "rat \<Rightarrow> json list \<Rightarrow> string list \<Rightarrow> nat \<Rightarrow> nat \<times> nat set \<Rightarrow> nat \<times> nat set" where
  "count_near_row threshold roles contents i acc =
     (if i \<in> snd acc then acc
      else fold (\<lambda>j (n, checked).
                   if j \<in> checked \<or> roles ! i \<noteq> roles ! j \<or> jaccard (contents ! i) (contents ! j) < threshold
                   then (n, checked) else (Suc n, insert j checked))
             [Suc i..<length roles] acc)"

definition count_duplicates :: "dedup_env \<Rightarrow> rat \<Rightarrow> message list \<Rightarrow> py_error + duplicate_count" where
  "count_duplicates env threshold messages =
     (if messages = [] then Inr \<lparr>exact_duplicates = 0, near_duplicates = 0, total_messages = 0\<rparr>
      else ebind (all_ok (map (\<lambda>m. content_to_str env (get_or m ''content'')) messages)) (\<lambda>contents.
        let roles = map (\<lambda>m. get_or m ''role'') messages
        in Inr \<lparr>exact_duplicates = count_exact (map2 (exact_key env) roles contents),
                near_duplicates = fst (fold (count_near_row threshold roles contents) [0..<length messages] (0, {})),
                total_messages = length messages\<rparr>))"

section \<open>What the sweep computes\<close>

text \<open>The reference: an element stays unless a later one is related to it.\<close>

fun keep_latest :: "('a \<Rightarrow> 'a \<Rightarrow> bool) \<Rightarrow> 'a list \<Rightarrow> 'a list" where
  "keep_latest R [] = []"
| "keep_latest R (x # xs) = (if \<exists>y\<in>set xs. R x y then keep_latest R xs else x # keep_latest R xs)"

lemma keep_latest_subseq: "subseq (keep_latest R xs) xs"
  by (induction xs) auto

lemma keep_latest_set: "set (keep_latest R xs) \<subseteq> set xs"
  by (induction xs) auto

lemma keep_latest_last: "xs \<noteq> [] \<Longrightarrow> keep_latest R xs \<noteq> [] \<and> last (keep_latest R xs) = last xs"
  by (induction xs rule: induct_list012) auto

lemma keep_latest_unrelated: "sorted_wrt (\<lambda>x y. \<not> R x y) (keep_latest R xs)"
  using keep_latest_set by (induction xs) (fastforce dest: subsetD)+

lemma keep_latest_short: "length xs < 2 \<Longrightarrow> keep_latest R xs = xs"
  by (cases xs rule: remdups_adj.cases) auto

lemma keep_latest_all_related:
  assumes "xs \<noteq> []" "\<forall>x\<in>set xs. \<forall>y\<in>set xs. R x y"
  shows "keep_latest R xs = [last xs]"
  using assms by (induction xs rule: induct_list012) auto

lemma keep_latest_dropped:
  assumes "x \<in> set xs" "x \<notin> set (keep_latest R xs)"
  shows "\<exists>y. subseq [x, y] xs \<and> R x y"
  using assms
proof (induction xs)
  case (Cons a xs)
  show ?case
  proof (cases "x \<in> set xs")
    case True
    moreover have "x \<notin> set (keep_latest R xs)" using Cons.prems by (auto split: if_splits)
    ultimately obtain y where "subseq [x, y] xs" "R x y" using Cons.IH by blast
    then show ?thesis by (blast intro: list_emb_Cons)
  next
    case False
    then have "x = a" "\<exists>y\<in>set xs. R x y" using Cons.prems by (auto split: if_splits)
    then show ?thesis by (auto simp: subseq_singleton_left)
  qed
qed simp

lemma keep_latest_sorted_wrt: "sorted_wrt P xs \<Longrightarrow> sorted_wrt P (keep_latest R xs)"
  using keep_latest_set by (induction xs) (fastforce dest: subsetD)+

lemma nths_no_later:
  "nths xs {i. i < length xs \<and> (\<forall>j. i < j \<longrightarrow> j < length xs \<longrightarrow> \<not> R (xs ! i) (xs ! j))} = keep_latest R xs"
proof (induction xs)
  case (Cons x xs)
  let ?I = "\<lambda>xs. {i. i < length xs \<and> (\<forall>j. i < j \<longrightarrow> j < length xs \<longrightarrow> \<not> R (xs ! i) (xs ! j))}"
  have tl: "{i. Suc i \<in> ?I (x # xs)} = ?I xs" by (auto simp: less_Suc_eq_0_disj)
  have hd: "0 \<in> ?I (x # xs) \<longleftrightarrow> (\<forall>y\<in>set xs. \<not> R x y)"
    by (auto simp: all_set_conv_all_nth gr0_conv_Suc)
  show ?case unfolding nths_Cons tl Cons.IH using hd by auto
qed simp

text \<open>The two passes, as the reference: first by digest, then by similarity.\<close>

lemma last_seen_snoc: "last_seen (ks @ [k]) = AList.update k (length ks) (last_seen ks)"
  by (simp add: last_seen_def enumerate_append_eq)

lemma last_seen_lookup:
  "map_of (last_seen ks) k = Some i \<longleftrightarrow> i < length ks \<and> ks ! i = k \<and> (\<forall>j. i < j \<longrightarrow> j < length ks \<longrightarrow> ks ! j \<noteq> k)"
proof (induction ks arbitrary: i rule: rev_induct)
  case Nil
  show ?case by (simp add: last_seen_def)
next
  case (snoc x ks)
  show ?case
    by (cases "x = k") (auto simp: last_seen_snoc update_conv' snoc nth_append less_Suc_eq dest: not_less_less_Suc_eq)
qed

lemma last_seen_distinct: "distinct (map fst (last_seen ks))"
proof (induction ks rule: rev_induct)
  case Nil
  show ?case by (simp add: last_seen_def)
qed (simp add: last_seen_snoc distinct_update)

lemma exact_keep_last:
  "exact_keep Keep_last ks = {i. i < length ks \<and> (\<forall>j. i < j \<longrightarrow> j < length ks \<longrightarrow> \<not> ks ! i = ks ! j)}"
proof -
  have "exact_keep Keep_last ks = ran (map_of (last_seen ks))"
    by (simp add: exact_keep_def ran_distinct last_seen_distinct)
  then show ?thesis by (auto simp: ran_def last_seen_lookup)
qed

lemma near_drop_upto:
  "k \<le> length roles \<Longrightarrow>
   fold (near_step th Keep_last roles cs) [0..<k] {} =
     {i. i < k \<and> (\<exists>j. i < j \<and> j < length roles \<and> roles ! i = roles ! j \<and> th \<le> jaccard (cs ! i) (cs ! j))}"
proof (induction k)
  case (Suc k)
  let ?D = "{i. i < k \<and> (\<exists>j. i < j \<and> j < length roles \<and> roles ! i = roles ! j \<and> th \<le> jaccard (cs ! i) (cs ! j))}"
  have "near_match th roles cs ?D k = None \<longleftrightarrow>
      \<not> (\<exists>j. k < j \<and> j < length roles \<and> roles ! k = roles ! j \<and> th \<le> jaccard (cs ! k) (cs ! j))"
    by (auto simp: near_match_def find_None_iff)
  then show ?case using Suc by (auto simp: near_step_def less_Suc_eq split: option.splits)
qed simp

lemma near_drop_last:
  "near_drop th Keep_last roles cs =
     {i. i < length roles \<and> (\<exists>j. i < j \<and> j < length roles \<and> roles ! i = roles ! j \<and> th \<le> jaccard (cs ! i) (cs ! j))}"
  by (simp add: near_drop_def near_drop_upto)

definition text_of :: "dedup_env \<Rightarrow> message \<Rightarrow> string" where
  "text_of env m = projr (content_to_str env (get_or m ''content''))"

definition message_key :: "dedup_env \<Rightarrow> message \<Rightarrow> string" where
  "message_key env m = exact_key env (get_or m ''role'') (text_of env m)"

definition near_duplicate :: "dedup_env \<Rightarrow> rat \<Rightarrow> message \<Rightarrow> message \<Rightarrow> bool" where
  "near_duplicate env th m m' \<longleftrightarrow>
     get_or m ''role'' = get_or m' ''role'' \<and> th \<le> jaccard (text_of env m) (text_of env m')"

lemma all_ok_map: "all_ok (map f xs) = Inr ys \<Longrightarrow> ys = map (\<lambda>x. projr (f x)) xs"
  by (induction xs arbitrary: ys) (auto simp: ebind_def split: sum.splits)

lemma nths_cong: "(\<And>i. i < length xs \<Longrightarrow> i \<in> I \<longleftrightarrow> i \<in> J) \<Longrightarrow> nths xs I = nths xs J"
  unfolding nths_def by (rule arg_cong [where f = "map fst"], rule filter_cong) (auto simp: set_zip)

lemma nths_later_dropped:
  "nths xs (- {i. i < length xs \<and> (\<exists>j. i < j \<and> j < length xs \<and> R (xs ! i) (xs ! j))}) = keep_latest R xs"
  unfolding nths_no_later [symmetric] by (rule nths_cong) auto

lemma dedup_last_is_keep_latest:
  assumes "dedup_messages env th Keep_last ms = Inr out" "th < 1"
  shows "out = keep_latest (near_duplicate env th) (keep_latest (\<lambda>m m'. message_key env m = message_key env m') ms)"
proof (cases "ms = []")
  case True
  then show ?thesis using assms by (simp add: dedup_messages_def)
next
  case False
  let ?C = "all_ok (map (\<lambda>m. content_to_str env (get_or m ''content'')) ms)"
  obtain cs where c: "?C = Inr cs" using assms False by (cases ?C) (auto simp: dedup_messages_def ebind_def)
  have cs: "cs = map (text_of env) ms" using all_ok_map [OF c] by (simp add: text_of_def)
  define ae where "ae = keep_latest (\<lambda>m m'. message_key env m = message_key env m') ms"
  have keys: "map2 (exact_key env) (map (\<lambda>m. get_or m ''role'') ms) cs = map (message_key env) ms"
    unfolding cs map2_map_map message_key_def ..
  have ek: "nths ms (exact_keep Keep_last (map (message_key env) ms)) = ae"
    unfolding ae_def nths_no_later [symmetric] exact_keep_last by (rule arg_cong [where f = "nths ms"]) auto
  have nd: "nths ae (- near_drop th Keep_last (map (\<lambda>m. get_or m ''role'') ae) (map (text_of env) ae)) =
      keep_latest (near_duplicate env th) ae"
    unfolding nths_later_dropped [symmetric] near_drop_last
    by (rule arg_cong [where f = "nths ae"]) (auto simp: near_duplicate_def)
  have sel: "nths cs I = map (text_of env) (nths ms I)" for I by (simp add: cs nths_map)
  have "out = (if length ae < 2 then ae else keep_latest (near_duplicate env th) ae)"
    using assms False
    by (simp add: dedup_messages_def c ebind_def Let_def keys keep_indices_def nths_map ek sel nd split: if_splits)
  then show ?thesis by (simp add: keep_latest_short ae_def [symmetric])
qed

lemma all_ok_total: "\<forall>x\<in>set xs. \<exists>y. f x = Inr y \<Longrightarrow> \<exists>ys. all_ok (map f xs) = Inr ys"
  by (induction xs) (auto simp: ebind_def)

lemma dedup_messages_total:
  assumes "\<forall>m\<in>set ms. \<exists>s. content_to_str env (get_or m ''content'') = Inr s"
  shows "\<exists>out. dedup_messages env th keep ms = Inr out"
  using all_ok_total [OF assms] by (auto simp: dedup_messages_def ebind_def Let_def)

lemma short_texts_similar: "length a < 4 \<Longrightarrow> length b < 4 \<Longrightarrow> jaccard a b = 1"
  by (simp add: jaccard_def ngrams_def)

section \<open>Properties\<close>

text \<open>
  With the later copy kept and a threshold below one, deduplication of messages whose content can
  be rendered returns a subsequence of the conversation that ends in its last message, in which no
  message has the digest of a later one or is a near duplicate of a later one; and a message that is
  gone had a later message with its digest or of its role and similar to it.
\<close>
lemma dedup_keeps_latest_of_each:
  assumes "\<forall>m\<in>set ms. \<exists>s. content_to_str env (get_or m ''content'') = Inr s" "th < 1"
  shows "\<exists>out. dedup_messages env th Keep_last ms = Inr out \<and> subseq out ms \<and>
           (ms \<noteq> [] \<longrightarrow> out \<noteq> [] \<and> last out = last ms) \<and>
           sorted_wrt (\<lambda>m m'. message_key env m \<noteq> message_key env m' \<and> \<not> near_duplicate env th m m') out \<and>
           (\<forall>m\<in>set ms - set out. \<exists>m'. subseq [m, m'] ms \<and>
              (message_key env m = message_key env m' \<or> near_duplicate env th m m'))"
proof -
  let ?K = "\<lambda>m m'. message_key env m = message_key env m'" and ?N = "near_duplicate env th"
  obtain out where d: "dedup_messages env th Keep_last ms = Inr out" using dedup_messages_total [OF assms(1)] by blast
  define ae where "ae = keep_latest ?K ms"
  have out: "out = keep_latest ?N ae" unfolding ae_def by (rule dedup_last_is_keep_latest [OF d assms(2)])
  have sub: "subseq out ae" "subseq ae ms" by (simp_all add: out ae_def keep_latest_subseq)
  have lst: "ms \<noteq> [] \<longrightarrow> out \<noteq> [] \<and> last out = last ms"
    using keep_latest_last [of ms ?K] keep_latest_last [of ae ?N] by (simp add: out ae_def)
  have "sorted_wrt (\<lambda>m m'. \<not> ?K m m') out" "sorted_wrt (\<lambda>m m'. \<not> ?N m m') out"
    unfolding out ae_def by (intro keep_latest_sorted_wrt keep_latest_unrelated)+
  then have srt: "sorted_wrt (\<lambda>m m'. \<not> ?K m m' \<and> \<not> ?N m m') out" by (auto simp: sorted_wrt_iff_nth_less)
  have "\<exists>m'. subseq [m, m'] ms \<and> (?K m m' \<or> ?N m m')" if m: "m \<in> set ms" "m \<notin> set out" for m
  proof (cases "m \<in> set ae")
    case True
    then show ?thesis using keep_latest_dropped [of m ae ?N] m(2) sub(2) unfolding out by (blast intro: subseq_order.trans)
  next
    case False
    then show ?thesis using keep_latest_dropped [of m ms ?K] m(1) unfolding ae_def by blast
  qed
  then show ?thesis using d sub lst srt by (blast intro: subseq_order.trans)
qed

definition example_dedup_env :: dedup_env where
  "example_dedup_env = \<lparr>dd_sha256 = id, dd_dumps = (\<lambda>_. ''{}''), dd_str = (\<lambda>_. ''None'')\<rparr>"

definition user_says :: "string \<Rightarrow> message" where
  "user_says s = [(''role'', J_str ''user''), (''content'', J_str s)]"

theorem dedup_keeps_latest_of_each_witness:
  "\<exists>out. dedup_messages example_dedup_env DEDUP_JACCARD_THRESHOLD Keep_last
           [user_says ''run the tests'', user_says ''fix the bug'', user_says ''run the tests''] = Inr out \<and>
         last out = user_says ''run the tests''"
  using dedup_keeps_latest_of_each
    [of "[user_says ''run the tests'', user_says ''fix the bug'', user_says ''run the tests'']"
        example_dedup_env DEDUP_JACCARD_THRESHOLD]
  by (auto simp: user_says_def get_or_def DEDUP_JACCARD_THRESHOLD_def)

text \<open>
  Texts of fewer than four characters have no four-character substring and count as identical:
  of any number of such messages of one role, however different, only the last is kept.
\<close>
lemma short_messages_collapse:
  assumes "ms \<noteq> []" "th < 1"
    and "\<forall>m\<in>set ms. get_or m ''role'' = r \<and> (\<exists>s. get_or m ''content'' = J_str s \<and> length s < 4)"
  shows "dedup_messages env th Keep_last ms = Inr [last ms]"
proof -
  let ?K = "\<lambda>m m'. message_key env m = message_key env m'" and ?N = "near_duplicate env th"
  have "\<forall>m\<in>set ms. \<exists>s. content_to_str env (get_or m ''content'') = Inr s" using assms(3) by force
  then obtain out where d: "dedup_messages env th Keep_last ms = Inr out" using dedup_messages_total by blast
  have short: "length (text_of env m) < 4" "get_or m ''role'' = r" if "m \<in> set ms" for m
    using assms(3) that by (auto simp: text_of_def)
  have N: "\<forall>m\<in>set ms. \<forall>m'\<in>set ms. ?N m m'"
    using assms(2) by (simp add: near_duplicate_def short short_texts_similar)
  have "keep_latest ?N (keep_latest ?K ms) = [last (keep_latest ?K ms)]"
    using N keep_latest_set [of ?K ms] keep_latest_last [OF assms(1)] by (intro keep_latest_all_related) auto
  then show ?thesis
    using d dedup_last_is_keep_latest [OF d assms(2)] keep_latest_last [OF assms(1), of ?K] by simp
qed

theorem short_messages_collapse_witness:
  "dedup_messages example_dedup_env DEDUP_JACCARD_THRESHOLD Keep_last [user_says ''yes'', user_says ''no''] =
     Inr [user_says ''no'']"
  using short_messages_collapse [of "[user_says ''yes'', user_says ''no'']" DEDUP_JACCARD_THRESHOLD "J_str ''user''"]
  by (simp add: user_says_def get_or_def DEDUP_JACCARD_THRESHOLD_def)

text \<open>Keeping the first copy, a message takes one later near duplicate with it and leaves the next.\<close>

lemma keep_first_leaves_a_duplicate:
  "dedup_messages example_dedup_env DEDUP_JACCARD_THRESHOLD Keep_first [user_says ''a'', user_says ''b'', user_says ''c''] =
     Inr [user_says ''a'', user_says ''c'']"
  by code_simp

end
