(* ===== verification/Spec2Isabelle.thy ===== *)
theory Spec2Isabelle
  imports Policy Rolling_Caps Reservation Token_Accounting Guard_Snapshot Pending_Store Circuit_Breaker Request_Edge Failover Admission
    Orchestrator Estimator Upstream_Retry Workflow Workflow_Budget File_Locks Handoff Cache Dedup
begin

text \<open>
  TokenPak is a local proxy between coding agents and language-model providers.  It assesses what a
  request will cost before it is sent, holds or refuses requests that are too expensive, keeps
  usage within rolling caps, protects the providers with circuit breakers and fails over between
  them, and bounds how many requests run at once.  Beside the proxy stand an orchestration layer for
  agents (workflows, budgets, file locks), the caches and the compression of conversations.  This
  development models the spend guard (\<^verbatim>\<open>proxy/spend_guard/\<close>) and the traffic control around it
  (\<^verbatim>\<open>proxy/\<close>), the registry of models and prices (\<^verbatim>\<open>models/\<close>), the orchestration layer (\<^verbatim>\<open>orchestration/\<close>), the caches (\<^verbatim>\<open>cache/\<close>) and the
  deduplication of messages (\<^verbatim>\<open>compression/\<close>).  Sources are relative to \<^verbatim>\<open>src/tokenpak/\<close>, the
  first ones below to \<^verbatim>\<open>src/tokenpak/proxy/\<close>.

  \<^bold>\<open>How the parts interact.\<close>  A request passes the admission gate and the request edge; the guard
  pipeline parses its directive and the user's reply, asks the estimator, admits it against the
  rolling caps, takes the policy's verdict, and forwards, replays, holds or refuses it; the
  failover engine walks the provider chain, asking each provider's circuit breaker; the outcome is
  recorded in the ledger that the caps and the reservations read.  With durable accounting, each
  request also has an object that reserves its projected cost in the store, records its sends and what the
  provider answered, prices it from the model registry and closes it.  Agents run workflows step by
  step, each step under its share of a token budget, and claim the files they edit.

  \<^bold>\<open>The theories.\<close>
  \<^item> \<open>Prelude\<close>: the error monad, Python's numbers and strings, association lists, and the shared
    interfaces as locales: \<open>one_shot\<close> (a resource taken at most once in any interleaving), and the
    meters and step systems that the caps, buckets, breakers and gates instantiate.
  \<^item> \<open>Contracts\<close> (\<^verbatim>\<open>spend_guard/contracts.py\<close>): estimates, directives, verdicts, outcomes.
  \<^item> \<open>Policy\<close> (\<^verbatim>\<open>spend_guard/policy.py\<close>): configuration, unknown keys, derived thresholds, \<open>decide\<close>.
    The verdict is characterised as a cascade of bands, from which the safety properties follow.
  \<^item> \<open>Rolling_Caps\<close> (\<^verbatim>\<open>spend_guard/rolling_caps.py\<close>): usage over a window, the usage cache, the
    in-flight table, the cap check and admission.
  \<^item> \<open>Reservation\<close> (\<^verbatim>\<open>spend_guard/reservation.py\<close>): the durable reservation store, its
    transactions, generations and settlement.
  \<^item> \<open>Pending_Store\<close> (\<^verbatim>\<open>spend_guard/pending.py\<close>, \<^verbatim>\<open>approvals.py\<close>): held requests and approvals.
  \<^item> \<open>Directives\<close> (\<^verbatim>\<open>spend_guard/tip_header.py\<close>, \<^verbatim>\<open>intent.py\<close>): the \<^verbatim>\<open>[TIP: ...]\<close> header and the
    meaning of the user's reply.
  \<^item> \<open>Responses\<close> (\<^verbatim>\<open>spend_guard/block_response.py\<close>): the bodies the guard answers with.
  \<^item> \<open>Orchestrator\<close> (\<^verbatim>\<open>spend_guard/orchestrator.py\<close>, \<^verbatim>\<open>replay.py\<close>, \<^verbatim>\<open>session_state.py\<close>,
    \<^verbatim>\<open>__init__.py\<close>): the pipeline, one definition per stage, and the public entry point.
  \<^item> \<open>Media\<close> (\<^verbatim>\<open>spend_guard/media.py\<close>): what images and documents cost in tokens.
  \<^item> \<open>Estimator\<close> (\<^verbatim>\<open>spend_guard/estimator.py\<close>, \<^verbatim>\<open>usage_anchor.py\<close>): the walk over a request body, the
    estimate, and the provider's own count of earlier turns as a floor under it.
  \<^item> \<open>Native_Shape\<close> (\<^verbatim>\<open>spend_guard/request_token_shape.py\<close>, \<^verbatim>\<open>response_token_shape.py\<close>): which native
    requests and responses token accounting accepts; the walk and the stream automaton are
    equated with a bound on the document and a grammar of events.
  \<^item> \<open>Observations\<close> (\<^verbatim>\<open>spend_guard/request_workload.py\<close>, \<^verbatim>\<open>request_tokens.py\<close>): what is recorded of a
    request and its response; every observation is valid, a complete one the provider's own.
  \<^item> \<open>Token_Accounting\<close> (\<^verbatim>\<open>spend_guard/token_accounting.py\<close>): stored receipts, correlated ledger rows,
    settlement in tokens and the snapshot, which is fenced by the ledger's generation.
  \<^item> \<open>Pricing\<close> (\<^verbatim>\<open>models/_pricing.py\<close> beside \<^verbatim>\<open>proxy/\<close>): rate bands, their catalog entries and the selection
    of a band, which is the least one in the order of the contexts that bands cover.
  \<^item> \<open>Registry\<close> (\<^verbatim>\<open>models/_registry.py\<close>, \<^verbatim>\<open>_families.py\<close>, \<^verbatim>\<open>__init__.py\<close>): the catalog of models, how an
    identifier is resolved, what is inferred of unknown models.
  \<^item> \<open>Request_Pricing\<close> (\<^verbatim>\<open>models/_quote.py\<close>, \<^verbatim>\<open>spend_guard/request_pricing.py\<close>): quotes, and prices bound to the
    observed request, the exact catalog entry and current official bands.
  \<^item> \<open>Request_Accounting\<close> (\<^verbatim>\<open>spend_guard/request_accounting.py\<close>, \<^verbatim>\<open>serving_basis.py\<close>): the accounting of one
    request from its start over admission and sends to its end, composed from the store, the estimator, the policy, the
    observations and the prices; every send stays on record, and the reservation covers the price.
  \<^item> \<open>Guard_Snapshot\<close> (\<^verbatim>\<open>spend_guard/reservation.py\<close>, \<^verbatim>\<open>snapshot\<close>): the priced view of the books; a snapshot
    eligible as evidence rests on rows that are all priced and covered.
  \<^item> \<open>Circuit_Breaker\<close> (\<^verbatim>\<open>circuit_breaker.py\<close>): the breaker, its registry, the 429 breaker.
  \<^item> \<open>Request_Edge\<close> (\<^verbatim>\<open>spend_guard/classifier.py\<close>, \<^verbatim>\<open>circuit_breaker.py\<close>, \<^verbatim>\<open>handlers/rate_limit.py\<close>):
    classification, header hygiene, token buckets, back-off.
  \<^item> \<open>Failover\<close> (\<^verbatim>\<open>failover.py\<close>, \<^verbatim>\<open>failover_engine.py\<close>): the chain, the attempt loop, its breaker.
  \<^item> \<open>Upstream_Retry\<close> (\<^verbatim>\<open>upstream_retry.py\<close>, the send loops of \<^verbatim>\<open>server.py\<close>): the retry policy and
    the streaming and plain loops, both instances of one locale of bounded attempts.
  \<^item> \<open>Admission\<close> (\<^verbatim>\<open>admission.py\<close>): the gate in front of the proxy, as a step system.
  \<^item> \<open>Workflow\<close> (\<^verbatim>\<open>orchestration/workflow.py\<close>): steps with dependencies, their documents, the
    manager and its run loop: it returns, respects dependencies and completes ordered workflows.
  \<^item> \<open>Workflow_Budget\<close> (\<^verbatim>\<open>orchestration/workflow_budget.py\<close>): a budget split over steps and
    rebalanced as they report; the total is accounted for and the split is the even one.
  \<^item> \<open>File_Locks\<close> (\<^verbatim>\<open>orchestration/locks.py\<close>): lock files between agents; exclusion when claims
    are atomic, and the race when they are not.
  \<^item> \<open>Handoff\<close> (\<^verbatim>\<open>orchestration/handoff.py\<close>): context handed between agents, its directory as a step
    system, packs of blocks and their wire format.
  \<^item> \<open>Cache\<close> (\<^verbatim>\<open>cache/stable_cache.py\<close>, \<^verbatim>\<open>volatile_cache.py\<close>, \<^verbatim>\<open>cache_manager.py\<close>,
    \<^verbatim>\<open>registry.py\<close>): both caches interpret one locale that refines a timed map.
  \<^item> \<open>Dedup\<close> (\<^verbatim>\<open>compression/dedup.py\<close>): exact and near duplicates, equated with a reference that
    keeps an element unless a later one is related to it.

  \<^bold>\<open>Modelling choices.\<close>
  \<^item> State is passed explicitly: a record per component; a lock-protected method is one atomic step.
    Interleavings of threads and processes are arbitrary sequences of such steps.
  \<^item> Errors are values: a method that may raise returns \<open>py_error + 'a\<close>; a transaction that raises
    returns the database it started from.
  \<^item> Python's integers are \<open>int\<close>.  Money and times are \<open>rat\<close>: an idealisation of the code's binary
    floats, under which sums are exact.  Strings are ASCII.
  \<^item> The JSON codec, digests, the catalog file and clocks are parameters; the guard pipeline also takes
    its rates, context windows and estimator as parameters; the section below puts in the modelled one.
    An evaluation of the guard reads the clock once.
  \<^item> Every recursion is structural or has a measure, so the functions are total and no fuel is used;
    the one open loop, \<open>Workflow.run_loop\<close>, is a partial function into \<open>option\<close> and is shown to return.

  \<^bold>\<open>Not modelled.\<close>  The HTTP servers around the send loops, the catalog file and the
  polling of provider listings, configuration files,
  the audit log, telemetry, the vault, the rest of the compression engine, the
  companion and the command line: I/O, third-party services, or data the modelled code only consults.
\<close>

section \<open>The guard with its estimator\<close>

lemma percent_hit_mono: "percent_hit mm pct n \<Longrightarrow> n \<le> n' \<Longrightarrow> percent_hit mm pct n'"
  by (auto simp: percent_hit_def split: option.splits)


definition full_anchors :: anchors where
  "full_anchors = [((''s'', ''m''), \<lparr>ua_input_tokens = 200000, ua_history_count = 0, ua_history_digest = [],
                     ua_overhead_tokens = 0, ua_started_at = 1\<rparr>)]"


end
